(* ===== verification/Prelude.thy ===== *)
theory Prelude
  imports Main "HOL-Library.Word"
begin

text \<open>
  Shared foundations of the development: the outcome type of a C++ routine that may
  return \<open>false\<close> (or a null result) or misbehave, its sequencing operator and the
  rules that propagate a postcondition through it, unsigned integers with their
  wrap-around written out, little-endian decoding, and the list facts the components
  share.
\<close>

unbundle bit_operations_syntax

named_theorems safe_intro \<open>rules that decompose a no-fault obligation\<close>
named_theorems post_intro \<open>rules that decompose a partial-correctness obligation\<close>
named_theorems res_simps \<open>evaluation of outcomes\<close>

section \<open>Machine integers\<close>

type_synonym u8 = "8 word"
type_synonym u32 = "32 word"
type_synonym u64 = "64 word"

text \<open>
  \<open>size_t\<close> and \<open>uint32_t\<close> values that are only added, subtracted and compared are
  natural numbers with the wrap-around of the C++ operator written out (the target has a
  64-bit \<open>size_t\<close>).
\<close>

definition sz_add :: "nat \<Rightarrow> nat \<Rightarrow> nat" where
  "sz_add a b = (a + b) mod 2 ^ 64"

definition sz_sub :: "nat \<Rightarrow> nat \<Rightarrow> nat" where
  "sz_sub a b = (a + (2 ^ 64 - b mod 2 ^ 64)) mod 2 ^ 64"

definition sz_mul :: "nat \<Rightarrow> nat \<Rightarrow> nat" where
  "sz_mul a b = (a * b) mod 2 ^ 64"

definition u32_sub :: "nat \<Rightarrow> nat \<Rightarrow> nat" where
  "u32_sub a b = (a + (2 ^ 32 - b mod 2 ^ 32)) mod 2 ^ 32"

definition u32_mul :: "nat \<Rightarrow> nat \<Rightarrow> nat" where
  "u32_mul a b = (a * b) mod 2 ^ 32"

definition u32_of :: "nat \<Rightarrow> nat" where
  "u32_of a = a mod 2 ^ 32"

lemma sz_add_exact [simp]: "a + b < 2 ^ 64 \<Longrightarrow> sz_add a b = a + b"
  by (simp add: sz_add_def)

lemma sz_add_less [simp]: "sz_add a b < 2 ^ 64"
  by (simp add: sz_add_def)

lemma sz_sub_exact [simp]:
  assumes "b \<le> a" "a < 2 ^ 64"
  shows "sz_sub a b = a - b"
proof -
  have "a + (2 ^ 64 - b) = (a - b) + 2 ^ 64" using assms by simp
  then have "(a + (2 ^ 64 - b)) mod 2 ^ 64 = (a - b) mod 2 ^ 64"
    by (metis mod_add_self2)
  moreover have "b mod 2 ^ 64 = b" using assms by simp
  ultimately show ?thesis using assms by (simp add: sz_sub_def)
qed

lemma u32_sub_exact [simp]:
  assumes "b \<le> a" "a < 2 ^ 32"
  shows "u32_sub a b = a - b"
proof -
  have "a + (2 ^ 32 - b) = (a - b) + 2 ^ 32" using assms by simp
  then have "(a + (2 ^ 32 - b)) mod 2 ^ 32 = (a - b) mod 2 ^ 32"
    by (metis mod_add_self2)
  moreover have "b mod 2 ^ 32 = b" using assms by simp
  ultimately show ?thesis using assms by (simp add: u32_sub_def)
qed

lemma u32_sub_less [simp]: "u32_sub a b < 2 ^ 32"
  by (simp add: u32_sub_def)

lemma u32_mul_less [simp]: "u32_mul a b < 2 ^ 32"
  by (simp add: u32_mul_def)

lemma u32_of_less [simp]: "u32_of a < 2 ^ 32"
  by (simp add: u32_of_def)

lemma u32_of_exact [simp]: "a < 2 ^ 32 \<Longrightarrow> u32_of a = a"
  by (simp add: u32_of_def)

section \<open>Little-endian integers in byte lists\<close>

fun le_nat :: "u8 list \<Rightarrow> nat" where
  "le_nat [] = 0"
| "le_nat (b # bs) = unat b + 256 * le_nat bs"

fun le_bytes :: "nat \<Rightarrow> nat \<Rightarrow> u8 list" where
  "le_bytes 0 v = []"
| "le_bytes (Suc n) v = word_of_nat v # le_bytes n (v div 256)"

lemma length_le_bytes [simp]: "length (le_bytes n v) = n"
  by (induction n arbitrary: v) auto

lemma unat_byte_less: "unat (b :: u8) < 256"
  using unsigned_less [of b] by simp

lemma le_nat_less: "le_nat bs < 256 ^ length bs"
proof (induction bs)
  case Nil
  then show ?case by simp
next
  case (Cons b bs)
  have "unat b < 256" by (rule unat_byte_less)
  moreover have "le_nat bs + 1 \<le> 256 ^ length bs" using Cons.IH by simp
  then have "256 * (le_nat bs + 1) \<le> 256 * 256 ^ length bs" by (rule mult_le_mono2)
  ultimately show ?case by simp
qed

lemma le_nat_bytes: "v < 256 ^ n \<Longrightarrow> le_nat (le_bytes n v) = v"
proof (induction n arbitrary: v)
  case 0
  then show ?case by simp
next
  case (Suc n)
  have "v div 256 < 256 ^ n" using Suc.prems by (simp add: less_mult_imp_div_less mult.commute)
  then have IH: "le_nat (le_bytes n (v div 256)) = v div 256" by (rule Suc.IH)
  have "unat (word_of_nat v :: u8) = v mod 256" by (simp add: unat_of_nat)
  with IH show ?case by simp
qed

lemma le_nat4_less: "length bs = 4 \<Longrightarrow> le_nat bs < 4294967296"
  using le_nat_less [of bs] by simp

section \<open>Outcomes\<close>

text \<open>
  \<open>Ok\<close> is a normal return; \<open>Reject\<close> is the source's own failure path (\<open>return
  false\<close>, a null module); \<open>Fault\<close> is what the source must never do: a read outside
  an object, a null dereference, a failed \<open>cast\<close> (which calls \<open>std::terminate\<close>), a
  failed assertion, a shift by the width of its operand or more, or a loop that the model's
  fuel did not cover.
\<close>

datatype fault = Out_Of_Bounds | Null_Deref | Bad_Cast | Assertion_Failed | Bad_Shift | Out_Of_Fuel

datatype 'a res = Ok 'a | Reject | Fault fault

definition bind_res :: "'a res \<Rightarrow> ('a \<Rightarrow> 'b res) \<Rightarrow> 'b res" where
  "bind_res m f = (case m of Ok x \<Rightarrow> f x | Reject \<Rightarrow> Reject | Fault e \<Rightarrow> Fault e)"

lemma bind_res_simps [simp, res_simps]:
  "bind_res (Ok x) f = f x"
  "bind_res Reject f = Reject"
  "bind_res (Fault e) f = Fault e"
  by (simp_all add: bind_res_def)

lemma bind_res_cong [fundef_cong]:
  "m = m' \<Longrightarrow> (\<And>x. m' = Ok x \<Longrightarrow> f x = g x) \<Longrightarrow> bind_res m f = bind_res m' g"
  by (cases m') (auto simp: bind_res_def)

lemma bind_res_Ok_iff: "bind_res m f = Ok y \<longleftrightarrow> (\<exists>x. m = Ok x \<and> f x = Ok y)"
  by (cases m) auto

lemma bind_res_OkE [elim]:
  assumes "bind_res m f = Ok y"
  obtains x where "m = Ok x" "f x = Ok y"
  using assms by (auto simp: bind_res_Ok_iff)

lemma bind_res_assoc: "bind_res (bind_res m f) g = bind_res m (\<lambda>x. bind_res (f x) g)"
  by (cases m) auto

definition guard :: "bool \<Rightarrow> unit res" where
  "guard b = (if b then Ok () else Reject)"

lemma guard_simps [simp]: "guard True = Ok ()" "guard False = Reject"
  by (simp_all add: guard_def)

lemma guard_Ok_iff [simp]: "guard b = Ok u \<longleftrightarrow> b"
  by (simp add: guard_def)

text \<open>\<open>deref\<close> is the use of a pointer the source does not test for null.\<close>

definition deref :: "'a option \<Rightarrow> 'a res" where
  "deref p = (case p of None \<Rightarrow> Fault Null_Deref | Some x \<Rightarrow> Ok x)"

lemma deref_simps [simp]: "deref None = Fault Null_Deref" "deref (Some x) = Ok x"
  by (simp_all add: deref_def)

text \<open>\<open>require\<close> is a pointer the source tests, returning \<open>false\<close> when it is null.\<close>

definition require :: "'a option \<Rightarrow> 'a res" where
  "require p = (case p of None \<Rightarrow> Reject | Some x \<Rightarrow> Ok x)"

lemma require_simps [simp]: "require None = Reject" "require (Some x) = Ok x"
  by (simp_all add: require_def)

text \<open>\<open>index xs i\<close> is an unchecked \<open>xs[i]\<close> on a \<open>Vector\<close>.\<close>

definition index :: "'a list \<Rightarrow> nat \<Rightarrow> 'a res" where
  "index xs i = (if i < length xs then Ok (xs ! i) else Fault Out_Of_Bounds)"

lemma index_Ok [simp]: "i < length xs \<Longrightarrow> index xs i = Ok (xs ! i)"
  by (simp add: index_def)

lemma index_Ok_iff: "index xs i = Ok x \<longleftrightarrow> i < length xs \<and> x = xs ! i"
  by (auto simp: index_def)

subsection \<open>Outcomes without faults\<close>

definition safe :: "'a res \<Rightarrow> ('a \<Rightarrow> bool) \<Rightarrow> bool" where
  "safe m P = (case m of Ok x \<Rightarrow> P x | Reject \<Rightarrow> True | Fault e \<Rightarrow> False)"

lemma safe_simps [simp]:
  "safe (Ok x) P = P x" "safe Reject P" "\<not> safe (Fault e) P"
  by (simp_all add: safe_def)

lemma safe_bind [safe_intro]:
  "safe m Q \<Longrightarrow> (\<And>x. Q x \<Longrightarrow> safe (f x) P) \<Longrightarrow> safe (bind_res m f) P"
  by (cases m) auto

lemma safe_bind_pair:
  "safe m (\<lambda>(a, b). Q a b) \<Longrightarrow> (\<And>a b. Q a b \<Longrightarrow> safe (f a b) P) \<Longrightarrow>
   safe (bind_res m (\<lambda>(a, b). f a b)) P"
  by (cases m) auto

lemma safe_bind_strong:
  "safe m Q \<Longrightarrow> (\<And>x. m = Ok x \<Longrightarrow> Q x \<Longrightarrow> safe (f x) P) \<Longrightarrow> safe (bind_res m f) P"
  by (cases m) auto

lemma safe_mono: "safe m Q \<Longrightarrow> (\<And>x. Q x \<Longrightarrow> P x) \<Longrightarrow> safe m P"
  by (cases m) auto

lemma safe_if [safe_intro]:
  "(b \<Longrightarrow> safe m P) \<Longrightarrow> (\<not> b \<Longrightarrow> safe n P) \<Longrightarrow> safe (if b then m else n) P"
  by simp

lemma safe_guard [safe_intro]: "safe (guard b) (\<lambda>_. b)"
  by (simp add: guard_def)

lemma safe_require [safe_intro]: "safe (require p) (\<lambda>x. p = Some x)"
  by (cases p) auto

lemma safe_index: "i < length xs \<Longrightarrow> safe (index xs i) (\<lambda>x. x = xs ! i)"
  by simp

lemma safe_OkD: "safe m P \<Longrightarrow> m = Ok x \<Longrightarrow> P x"
  by simp

lemma safe_iff: "safe m P \<longleftrightarrow> (\<forall>e. m \<noteq> Fault e) \<and> (\<forall>x. m = Ok x \<longrightarrow> P x)"
  by (cases m) auto

lemma safe_conj: "safe m P \<Longrightarrow> safe m Q \<Longrightarrow> safe m (\<lambda>x. P x \<and> Q x)"
  by (cases m) auto

subsection \<open>Partial correctness\<close>

text \<open>
  \<open>post m P\<close>: whenever \<open>m\<close> returns normally, its result satisfies \<open>P\<close>. It is the
  judgement for the bitcode parser, whose source trusts parts of its input.
\<close>

definition post :: "'a res \<Rightarrow> ('a \<Rightarrow> bool) \<Rightarrow> bool" where
  "post m P \<longleftrightarrow> (\<forall>x. m = Ok x \<longrightarrow> P x)"

lemma post_simps [simp]: "post (Ok x) P = P x" "post Reject P" "post (Fault e) P"
  by (simp_all add: post_def)

lemma postD: "post m P \<Longrightarrow> m = Ok x \<Longrightarrow> P x"
  by (simp add: post_def)

lemma post_bind: "post m Q \<Longrightarrow> (\<And>x. Q x \<Longrightarrow> post (f x) P) \<Longrightarrow> post (bind_res m f) P"
  by (cases m) auto

lemma post_bind_eq: "(\<And>x. m = Ok x \<Longrightarrow> post (f x) P) \<Longrightarrow> post (bind_res m f) P"
  by (cases m) auto

lemma post_mono: "post m Q \<Longrightarrow> (\<And>x. Q x \<Longrightarrow> P x) \<Longrightarrow> post m P"
  by (cases m) auto

lemma post_if [post_intro]:
  "(b \<Longrightarrow> post m P) \<Longrightarrow> (\<not> b \<Longrightarrow> post n P) \<Longrightarrow> post (if b then m else n) P"
  by simp

lemma post_guard_bind [post_intro]: "(b \<Longrightarrow> post (f ()) P) \<Longrightarrow> post (bind_res (guard b) f) P"
  by (cases b) auto

lemma post_require_bind [post_intro]: "(\<And>x. p = Some x \<Longrightarrow> post (f x) P) \<Longrightarrow> post (bind_res (require p) f) P"
  by (cases p) auto

lemma post_deref_bind [post_intro]: "(\<And>x. p = Some x \<Longrightarrow> post (f x) P) \<Longrightarrow> post (bind_res (deref p) f) P"
  by (cases p) auto

lemma post_index_bind [post_intro]:
  "(i < length xs \<Longrightarrow> post (f (xs ! i)) P) \<Longrightarrow> post (bind_res (index xs i) f) P"
  by (auto simp: index_def)

lemma post_conj: "post m P \<Longrightarrow> post m Q \<Longrightarrow> post m (\<lambda>x. P x \<and> Q x)"
  by (simp add: post_def)

subsection \<open>Loops over a list with an accumulated state\<close>

fun fold_res :: "('a \<Rightarrow> 's \<Rightarrow> 's res) \<Rightarrow> 'a list \<Rightarrow> 's \<Rightarrow> 's res" where
  "fold_res f [] s = Ok s"
| "fold_res f (x # xs) s = bind_res (f x s) (fold_res f xs)"

lemma fold_res_safe:
  assumes "\<And>x s. x \<in> set xs \<Longrightarrow> I s \<Longrightarrow> safe (f x s) I" and "I s"
  shows "safe (fold_res f xs s) I"
  using assms
proof (induction xs arbitrary: s)
  case Nil
  then show ?case by simp
next
  case (Cons x xs)
  have "safe (f x s) I" using Cons.prems by simp
  moreover have "\<And>t. I t \<Longrightarrow> safe (fold_res f xs t) I" using Cons by simp
  ultimately show ?case by (auto intro: safe_bind)
qed

lemma fold_res_invariant:
  assumes "\<And>x s t. x \<in> set xs \<Longrightarrow> I s \<Longrightarrow> f x s = Ok t \<Longrightarrow> I t"
    and "I s" and "fold_res f xs s = Ok t"
  shows "I t"
  using assms
proof (induction xs arbitrary: s)
  case Nil
  then show ?case by simp
next
  case (Cons x xs)
  from Cons.prems(3) obtain s' where "f x s = Ok s'" "fold_res f xs s' = Ok t"
    by auto
  moreover from this Cons.prems(1,2) have "I s'" by (meson list.set_intros(1))
  ultimately show ?case using Cons.IH [of s'] Cons.prems(1) by (meson list.set_intros(2))
qed

lemma fold_res_post:
  assumes "\<And>x s. x \<in> set xs \<Longrightarrow> I s \<Longrightarrow> post (f x s) I" and "I s"
  shows "post (fold_res f xs s) I"
  using assms
proof (induction xs arbitrary: s)
  case (Cons x xs)
  have "post (f x s) I" using Cons.prems by simp
  moreover have "\<And>t. I t \<Longrightarrow> post (fold_res f xs t) I" using Cons by simp
  ultimately show ?case by (auto intro: post_bind)
qed simp

lemma fold_res_append: "fold_res f (xs @ ys) s = bind_res (fold_res f xs s) (fold_res f ys)"
  by (induction xs arbitrary: s) (auto simp: bind_res_def split: res.splits)

section \<open>Lists\<close>

lemma nth_append_left [simp]: "i < length xs \<Longrightarrow> (xs @ ys) ! i = xs ! i"
  by (simp add: nth_append)

lemma take_drop_append3:
  "length a = m \<Longrightarrow> length b = n \<Longrightarrow> take n (drop m (a @ b @ c)) = b"
  by simp

text \<open>\<open>std::find\<close> followed by \<open>push_back\<close> when the element is absent.\<close>

definition push_unique :: "'a list \<Rightarrow> 'a \<Rightarrow> 'a list" where
  "push_unique xs x = (if x \<in> set xs then xs else xs @ [x])"

lemma set_push_unique [simp]: "set (push_unique xs x) = insert x (set xs)"
  by (auto simp: push_unique_def)

lemma distinct_push_unique [simp]: "distinct xs \<Longrightarrow> distinct (push_unique xs x)"
  by (simp add: push_unique_def)

lemma push_unique_idem [simp]: "push_unique (push_unique xs x) x = push_unique xs x"
  by (simp add: push_unique_def)

text \<open>\<open>*std::find(...) = y\<close> on the first occurrence.\<close>

fun replace1 :: "'a \<Rightarrow> 'a \<Rightarrow> 'a list \<Rightarrow> 'a list" where
  "replace1 x y [] = []"
| "replace1 x y (z # zs) = (if z = x then y # zs else z # replace1 x y zs)"

lemma length_replace1 [simp]: "length (replace1 x y zs) = length zs"
  by (induction zs) auto

lemma set_replace1:
  "distinct zs \<Longrightarrow> x \<in> set zs \<Longrightarrow> set (replace1 x y zs) = insert y (set zs - {x})"
  by (induction zs) auto

lemma replace1_absent [simp]: "x \<notin> set zs \<Longrightarrow> replace1 x y zs = zs"
  by (induction zs) auto

lemma set_replace1_subset: "set (replace1 x y zs) \<subseteq> insert y (set zs)"
  by (induction zs) auto

lemma distinct_replace1:
  "distinct zs \<Longrightarrow> y \<notin> set zs \<Longrightarrow> distinct (replace1 x y zs)"
proof (induction zs)
  case (Cons z zs)
  then show ?case using set_replace1_subset [of x y zs] by auto
qed simp

end
