(* ===== verification/Memory_Stream.thy ===== *)
theory Memory_Stream
  imports Prelude
begin

text \<open>
  \<open>memory_stream.cpp\<close>: a bounds-checked cursor over a caller's buffer. The buffer
  \<open>mem\<close> is the byte array the client passed in; a stream holds a pointer into it (an
  index, or null), the number of bytes it may use and its cursor. Reads go through
  \<open>load_bytes\<close>, which faults on any access outside the buffer, so that memory safety
  is a theorem and not a convention.
\<close>

section \<open>State and operations\<close>

record memory_stream =
  blob :: "nat option"
  blob_size :: nat
  blob_offset :: nat

definition ptr_add :: "nat option \<Rightarrow> nat \<Rightarrow> nat option" where
  "ptr_add p k = map_option (\<lambda>a. a + k) p"

definition load_bytes :: "u8 list \<Rightarrow> nat option \<Rightarrow> nat \<Rightarrow> u8 list res" where
  "load_bytes mem p n =
     (if n = 0 then Ok []
      else case p of None \<Rightarrow> Fault Null_Deref
           | Some a \<Rightarrow> if a + n \<le> length mem then Ok (take n (drop a mem))
                       else Fault Out_Of_Bounds)"

definition MemoryStream :: "nat option \<Rightarrow> nat \<Rightarrow> memory_stream" where
  "MemoryStream p n = \<lparr>blob = p, blob_size = n, blob_offset = 0\<rparr>"

definition ms_reset :: "memory_stream \<Rightarrow> memory_stream" where
  "ms_reset s = s\<lparr>blob_offset := 0\<rparr>"

definition ms_read :: "u8 list \<Rightarrow> memory_stream \<Rightarrow> nat \<Rightarrow> (u8 list \<times> memory_stream) res" where
  "ms_read mem s n =
     (if sz_add (blob_offset s) n > blob_size s then Reject
      else bind_res (load_bytes mem (ptr_add (blob s) (blob_offset s)) n)
        (\<lambda>bs. Ok (bs, s\<lparr>blob_offset := sz_add (blob_offset s) n\<rparr>)))"

definition ms_map_read :: "memory_stream \<Rightarrow> nat \<Rightarrow> nat option \<times> memory_stream" where
  "ms_map_read s n =
     (if sz_add (blob_offset s) n > blob_size s then (None, s)
      else (ptr_add (blob s) (blob_offset s), s\<lparr>blob_offset := sz_add (blob_offset s) n\<rparr>))"

text \<open>
  The scan loop reads one byte at a time until it has read a terminating zero. Its fuel
  is one more than the bytes that can be left in the stream; the safety theorem shows it
  is never used up.
\<close>

fun map_string_loop :: "nat \<Rightarrow> u8 list \<Rightarrow> memory_stream \<Rightarrow> memory_stream res" where
  "map_string_loop 0 mem s = Fault Out_Of_Fuel"
| "map_string_loop (Suc fuel) mem s =
     bind_res (ms_read mem s 1)
       (\<lambda>(c, s'). if hd c = 0 then Ok s' else map_string_loop fuel mem s')"

definition ms_map_string_iterate ::
  "u8 list \<Rightarrow> memory_stream \<Rightarrow> (nat option \<times> memory_stream) res" where
  "ms_map_string_iterate mem s =
     bind_res (map_string_loop (Suc (blob_size s)) mem s)
       (\<lambda>s'. Ok (ptr_add (blob s) (blob_offset s), s'))"

definition ms_seek :: "memory_stream \<Rightarrow> nat \<Rightarrow> memory_stream res" where
  "ms_seek s new_offset =
     (if new_offset > blob_size s then Reject else Ok (s\<lparr>blob_offset := new_offset\<rparr>))"

definition ms_skip :: "memory_stream \<Rightarrow> nat \<Rightarrow> memory_stream res" where
  "ms_skip s count = ms_seek s (sz_add (blob_offset s) count)"

definition create_substream :: "memory_stream \<Rightarrow> nat \<Rightarrow> nat \<Rightarrow> memory_stream" where
  "create_substream s offset sz =
     (if offset \<ge> blob_size s \<or> sz_add offset sz > blob_size s then MemoryStream None 0
      else MemoryStream (ptr_add (blob s) offset) sz)"

definition create_substream_from :: "memory_stream \<Rightarrow> nat \<Rightarrow> memory_stream" where
  "create_substream_from s offset =
     (if offset \<ge> blob_size s then MemoryStream None 0
      else MemoryStream (ptr_add (blob s) offset) (sz_sub (blob_size s) offset))"

definition create_substream_bitcode_size ::
  "memory_stream \<Rightarrow> nat \<Rightarrow> nat \<Rightarrow> memory_stream" where
  "create_substream_bitcode_size s offset bitcode_size =
     (if sz_add offset bitcode_size > blob_size s then MemoryStream None 0
      else MemoryStream (ptr_add (blob s) offset) bitcode_size)"

definition ms_map_string_absolute :: "u8 list \<Rightarrow> memory_stream \<Rightarrow> nat \<Rightarrow> nat option res" where
  "ms_map_string_absolute mem s offset =
     bind_res (ms_map_string_iterate mem (create_substream_from s offset)) (\<lambda>(str, _). Ok str)"

text \<open>
  Building a \<open>String\<close> from a \<open>const char *\<close>: the bytes up to the terminator, which
  must lie inside the buffer.
\<close>

definition string_of_cstr :: "u8 list \<Rightarrow> nat option \<Rightarrow> u8 list res" where
  "string_of_cstr mem p =
     (case p of None \<Rightarrow> Fault Null_Deref
      | Some a \<Rightarrow> if 0 \<in> set (drop a mem) then Ok (takeWhile (\<lambda>b. b \<noteq> 0) (drop a mem))
                  else Fault Out_Of_Bounds)"

section \<open>The invariant\<close>

text \<open>
  A stream lies inside its buffer and its cursor inside the stream; a null stream is
  empty. A C++ object is smaller than half the address space, so sums of two in-range
  offsets do not wrap.
\<close>

definition stream_ok :: "u8 list \<Rightarrow> memory_stream \<Rightarrow> bool" where
  "stream_ok mem s \<longleftrightarrow>
     length mem < 2 ^ 63 \<and>
     (case blob s of None \<Rightarrow> blob_size s = 0 | Some a \<Rightarrow> a + blob_size s \<le> length mem) \<and>
     blob_offset s \<le> blob_size s"

definition remaining :: "memory_stream \<Rightarrow> nat" where
  "remaining s = blob_size s - blob_offset s"

text \<open>Two views of the same window: same base and size, possibly another cursor.\<close>

definition same_window :: "memory_stream \<Rightarrow> memory_stream \<Rightarrow> bool" where
  "same_window s t \<longleftrightarrow> blob s = blob t \<and> blob_size s = blob_size t"

definition window :: "u8 list \<Rightarrow> memory_stream \<Rightarrow> u8 list" where
  "window mem s = (case blob s of None \<Rightarrow> [] | Some a \<Rightarrow> take (blob_size s) (drop a mem))"

definition cstr_ok :: "u8 list \<Rightarrow> nat option \<Rightarrow> bool" where
  "cstr_ok mem p \<longleftrightarrow> (\<exists>a. p = Some a \<and> 0 \<in> set (drop a mem))"

lemma stream_ok_size: "stream_ok mem s \<Longrightarrow> blob_size s < 2 ^ 63"
  by (auto simp: stream_ok_def split: option.splits)

lemma stream_ok_offset: "stream_ok mem s \<Longrightarrow> blob_offset s < 2 ^ 63"
  using stream_ok_size [of mem s] by (simp add: stream_ok_def)

lemma length_window: "stream_ok mem s \<Longrightarrow> length (window mem s) = blob_size s"
  by (auto simp: stream_ok_def window_def split: option.splits)

lemma stream_ok_null [simp]: "stream_ok mem (MemoryStream None 0) \<longleftrightarrow> length mem < 2 ^ 63"
  by (simp add: stream_ok_def MemoryStream_def)

lemma stream_ok_initial:
  "length mem < 2 ^ 63 \<Longrightarrow> stream_ok mem (MemoryStream (Some 0) (length mem))"
  by (simp add: stream_ok_def MemoryStream_def)

lemma stream_ok_set_offset:
  "stream_ok mem s \<Longrightarrow> off \<le> blob_size s \<Longrightarrow> stream_ok mem (s\<lparr>blob_offset := off\<rparr>)"
  by (simp add: stream_ok_def split: option.splits)

lemma same_window_refl [simp]: "same_window s s"
  by (simp add: same_window_def)

lemma same_window_trans: "same_window s t \<Longrightarrow> same_window t u \<Longrightarrow> same_window s u"
  by (simp add: same_window_def)

lemma same_window_window: "same_window s t \<Longrightarrow> window mem s = window mem t"
  by (auto simp: same_window_def window_def split: option.splits)

section \<open>What each operation does\<close>

lemma ms_read_eq:
  assumes ok: "stream_ok mem s" and n: "n < 2 ^ 63"
  shows "ms_read mem s n =
    (if blob_offset s + n \<le> blob_size s
     then Ok (take n (drop (blob_offset s) (window mem s)), s\<lparr>blob_offset := blob_offset s + n\<rparr>)
     else Reject)"
proof -
  have lt: "blob_offset s + n < 2 ^ 64"
    using stream_ok_offset [OF ok] n by simp
  show ?thesis
  proof (cases "blob_offset s + n \<le> blob_size s")
    case False
    with lt show ?thesis by (simp add: ms_read_def)
  next
    case True
    show ?thesis
    proof (cases "n = 0")
      case True
      then show ?thesis
        using ok lt by (simp add: ms_read_def load_bytes_def stream_ok_def)
    next
      case False
      with True ok obtain a where a: "blob s = Some a" "a + blob_size s \<le> length mem"
        by (auto simp: stream_ok_def split: option.splits)
      have "load_bytes mem (Some (a + blob_offset s)) n = Ok (take n (drop (blob_offset s) (window mem s)))"
        using a True False
        by (simp add: load_bytes_def window_def drop_take take_take add.commute min_def)
      with a True lt show ?thesis by (simp add: ms_read_def ptr_add_def)
    qed
  qed
qed

lemma ms_read_safe:
  assumes "stream_ok mem s" "n < 2 ^ 63"
  shows "safe (ms_read mem s n)
     (\<lambda>(bs, s'). length bs = n \<and> stream_ok mem s' \<and> same_window s' s \<and>
        remaining s' + n = remaining s)"
  using assms
  by (auto simp: ms_read_eq length_window same_window_def remaining_def
      intro: stream_ok_set_offset)

lemma ms_seek_safe:
  "stream_ok mem s \<Longrightarrow> safe (ms_seek s off) (\<lambda>s'. stream_ok mem s' \<and> same_window s' s)"
  by (auto simp: ms_seek_def same_window_def intro: stream_ok_set_offset)

lemma ms_skip_safe:
  "stream_ok mem s \<Longrightarrow> safe (ms_skip s n) (\<lambda>s'. stream_ok mem s' \<and> same_window s' s)"
  by (simp add: ms_skip_def ms_seek_safe)

lemma create_substream_ok:
  assumes "stream_ok mem s" "sz < 2 ^ 63"
  shows "stream_ok mem (create_substream s offset sz)"
proof (cases "offset \<ge> blob_size s \<or> sz_add offset sz > blob_size s")
  case True
  then show ?thesis using assms by (auto simp: create_substream_def stream_ok_def MemoryStream_def)
next
  case False
  then have "offset + sz < 2 ^ 64" using stream_ok_size [OF assms(1)] assms(2) by simp
  with False have "offset + sz \<le> blob_size s" by simp
  with False assms show ?thesis
    by (auto simp: create_substream_def stream_ok_def MemoryStream_def ptr_add_def split: option.splits)
qed

lemma create_substream_from_ok:
  assumes "stream_ok mem s"
  shows "stream_ok mem (create_substream_from s offset)"
proof (cases "offset \<ge> blob_size s")
  case True
  then show ?thesis using assms by (auto simp: create_substream_from_def stream_ok_def MemoryStream_def)
next
  case False
  have "blob_size s < 2 ^ 64" using stream_ok_size [OF assms] by simp
  with False have "sz_sub (blob_size s) offset = blob_size s - offset" by simp
  with False assms show ?thesis
    by (auto simp: create_substream_from_def stream_ok_def MemoryStream_def ptr_add_def split: option.splits)
qed

lemma create_substream_bitcode_size_ok:
  assumes "stream_ok mem s" "offset + sz < 2 ^ 64"
  shows "stream_ok mem (create_substream_bitcode_size s offset sz)"
  using assms
  by (auto simp: create_substream_bitcode_size_def stream_ok_def MemoryStream_def ptr_add_def
      split: option.splits)

lemma create_substream_eq:
  assumes "stream_ok mem s" "offset < blob_size s" "offset + sz \<le> blob_size s"
  shows "create_substream s offset sz = MemoryStream (ptr_add (blob s) offset) sz"
  using assms stream_ok_size [OF assms(1)] by (simp add: create_substream_def)

lemma window_substream:
  "stream_ok mem s \<Longrightarrow> offset + sz \<le> blob_size s \<Longrightarrow>
   window mem (MemoryStream (ptr_add (blob s) offset) sz) = take sz (drop offset (window mem s))"
  by (auto simp: window_def MemoryStream_def ptr_add_def drop_take take_take min_def add.commute
      split: option.splits)

lemma ms_map_read_ok:
  assumes "stream_ok mem s" "n < 2 ^ 63" "ms_map_read s n = (p, s')"
  shows "stream_ok mem s' \<and> (case p of None \<Rightarrow> True | Some a \<Rightarrow> a + n \<le> length mem)"
proof -
  have "blob_offset s + n < 2 ^ 64" using stream_ok_offset [OF assms(1)] assms(2) by simp
  with assms show ?thesis
    by (auto simp: ms_map_read_def stream_ok_def ptr_add_def split: if_splits option.splits)
qed

subsection \<open>The string scan\<close>

lemma map_string_loop_found:
  assumes "stream_ok mem s"
    and "drop (blob_offset s) (window mem s) = ys @ 0 # zs" and "0 \<notin> set ys"
    and "length ys < fuel"
  shows "map_string_loop fuel mem s = Ok (s\<lparr>blob_offset := blob_offset s + length ys + 1\<rparr>)"
  using assms
proof (induction ys arbitrary: fuel s)
  case Nil
  have "blob_offset s + 1 \<le> blob_size s"
    using Nil(2) length_window [OF Nil(1)] by (metis Suc_eq_plus1 drop_all list.distinct(1)
      append_Nil not_less_eq_eq)
  then have "ms_read mem s 1 = Ok ([0], s\<lparr>blob_offset := blob_offset s + 1\<rparr>)"
    using Nil by (simp add: ms_read_eq take_Suc)
  with Nil show ?case by (cases fuel) auto
next
  case (Cons y ys)
  let ?s' = "s\<lparr>blob_offset := blob_offset s + 1\<rparr>"
  have le: "blob_offset s + 1 \<le> blob_size s"
    using Cons.prems(2) length_window [OF Cons.prems(1)] by (metis Suc_eq_plus1 drop_all
      list.distinct(1) append_Cons not_less_eq_eq)
  then have rd: "ms_read mem s 1 = Ok ([y], ?s')"
    using Cons.prems by (simp add: ms_read_eq take_Suc)
  have "drop (blob_offset s + 1) (window mem s) = ys @ 0 # zs"
    using Cons.prems(2) by (metis Suc_eq_plus1 append_Cons drop_Suc list.sel(3) tl_drop)
  moreover have "window mem ?s' = window mem s" by (rule same_window_window) (simp add: same_window_def)
  moreover obtain f where f: "fuel = Suc f" "length ys < f"
    using Cons.prems(4) by (cases fuel) auto
  ultimately have "map_string_loop f mem ?s' = Ok (?s'\<lparr>blob_offset := blob_offset ?s' + length ys + 1\<rparr>)"
    using Cons.prems le by (intro Cons.IH) (auto intro: stream_ok_set_offset)
  with rd f Cons.prems show ?case by auto
qed

lemma map_string_loop_missing:
  assumes "stream_ok mem s" and "0 \<notin> set (drop (blob_offset s) (window mem s))"
    and "remaining s < fuel"
  shows "map_string_loop fuel mem s = Reject"
  using assms
proof (induction fuel arbitrary: s)
  case 0
  then show ?case by simp
next
  case (Suc fuel)
  show ?case
  proof (cases "blob_offset s + 1 \<le> blob_size s")
    case False
    then show ?thesis using Suc.prems by (simp add: ms_read_eq)
  next
    case True
    let ?s' = "s\<lparr>blob_offset := blob_offset s + 1\<rparr>"
    have lt: "blob_offset s < length (window mem s)"
      using True length_window [OF Suc.prems(1)] by simp
    then obtain y ys where y: "drop (blob_offset s) (window mem s) = y # ys"
      by (metis Cons_nth_drop_Suc)
    then have rd: "ms_read mem s 1 = Ok ([y], ?s')"
      using True Suc.prems by (simp add: ms_read_eq take_Suc)
    have w: "window mem ?s' = window mem s" by (rule same_window_window) (simp add: same_window_def)
    have "drop (blob_offset s + 1) (window mem s) = ys"
      using y by (metis Suc_eq_plus1 drop_Suc list.sel(3) tl_drop)
    then have "map_string_loop fuel mem ?s' = Reject"
      using Suc.prems True y w
      by (intro Suc.IH) (auto simp: remaining_def intro: stream_ok_set_offset)
    with rd y Suc.prems show ?thesis by auto
  qed
qed

lemma ms_map_string_iterate_eq:
  assumes "stream_ok mem s"
  shows "ms_map_string_iterate mem s =
    (let rest = drop (blob_offset s) (window mem s); k = length (takeWhile (\<lambda>b. b \<noteq> 0) rest)
     in if 0 \<in> set rest then Ok (ptr_add (blob s) (blob_offset s), s\<lparr>blob_offset := blob_offset s + k + 1\<rparr>)
        else Reject)"
proof -
  let ?rest = "drop (blob_offset s) (window mem s)"
  have len: "length ?rest \<le> blob_size s" using length_window [OF assms] by simp
  show ?thesis
  proof (cases "0 \<in> set ?rest")
    case True
    then obtain ys zs where yz: "?rest = ys @ 0 # zs" "0 \<notin> set ys"
      by (meson split_list_first)
    then have "takeWhile (\<lambda>b. b \<noteq> 0) ?rest = ys"
      by (auto simp: takeWhile_append1 takeWhile_tail)
    moreover have "length ys < Suc (blob_size s)" using len yz by simp
    then have "map_string_loop (Suc (blob_size s)) mem s =
        Ok (s\<lparr>blob_offset := blob_offset s + length ys + 1\<rparr>)"
      by (rule map_string_loop_found [OF assms yz])
    ultimately show ?thesis using True by (simp add: ms_map_string_iterate_def Let_def)
  next
    case False
    moreover have "remaining s < Suc (blob_size s)" by (simp add: remaining_def)
    ultimately have "map_string_loop (Suc (blob_size s)) mem s = Reject"
      using assms by (intro map_string_loop_missing) auto
    with False show ?thesis by (simp add: ms_map_string_iterate_def Let_def)
  qed
qed

lemma zero_in_window_cstr:
  assumes "stream_ok mem s" "0 \<in> set (drop (blob_offset s) (window mem s))"
  shows "cstr_ok mem (ptr_add (blob s) (blob_offset s))"
proof -
  obtain a where a: "blob s = Some a" using assms(2) by (auto simp: window_def split: option.splits)
  then have "drop (blob_offset s) (window mem s) =
      take (blob_size s - blob_offset s) (drop (a + blob_offset s) mem)"
    by (simp add: window_def drop_take add.commute)
  with assms(2) a show ?thesis
    unfolding cstr_ok_def ptr_add_def by (metis in_set_takeD option.simps(9))
qed

lemma ms_map_string_iterate_safe:
  assumes "stream_ok mem s"
  shows "safe (ms_map_string_iterate mem s)
    (\<lambda>(p, s'). cstr_ok mem p \<and> stream_ok mem s' \<and> same_window s' s)"
proof (cases "0 \<in> set (drop (blob_offset s) (window mem s))")
  case True
  let ?k = "length (takeWhile (\<lambda>b. b \<noteq> 0) (drop (blob_offset s) (window mem s)))"
  have "?k < length (drop (blob_offset s) (window mem s))"
    using True by (metis (mono_tags, lifting) length_takeWhile_le nat_less_le set_takeWhileD
      takeWhile_eq_take take_all_iff linorder_not_less)
  then have "blob_offset s + ?k + 1 \<le> blob_size s" using length_window [OF assms] by simp
  with True assms show ?thesis
    by (auto simp: ms_map_string_iterate_eq Let_def same_window_def
        intro: stream_ok_set_offset zero_in_window_cstr)
next
  case False
  with assms show ?thesis by (simp add: ms_map_string_iterate_eq Let_def)
qed

lemma ms_map_string_absolute_safe:
  assumes "stream_ok mem s"
  shows "safe (ms_map_string_absolute mem s offset) (cstr_ok mem)"
  unfolding ms_map_string_absolute_def
  by (rule safe_bind [OF ms_map_string_iterate_safe [OF create_substream_from_ok [OF assms]]]) auto

lemma string_of_cstr_safe: "cstr_ok mem p \<Longrightarrow> safe (string_of_cstr mem p) (\<lambda>_. True)"
  by (auto simp: cstr_ok_def string_of_cstr_def)

end
