(* ===== verification/Container_Format.thy ===== *)
theory Container_Format
  imports Memory_Stream
begin

text \<open>
  The on-disk structures of a DXBC container (\<open>dxil.hpp\<close>, namespace \<open>DXIL\<close>): part
  identifiers, headers, runtime-data (RDAT) kinds, and the typed reads
  \<open>MemoryStream::read<T>\<close> the container parser performs on them. Integers are
  little-endian, as on every host the program supports. The locale \<open>stream_reader\<close>
  is the contract between a reader and the loops that use it.
\<close>

section \<open>Identifiers\<close>

definition fourcc :: "u32 \<Rightarrow> u32 \<Rightarrow> u32 \<Rightarrow> u32 \<Rightarrow> u32" where
  "fourcc a b c d = a OR push_bit 8 b OR push_bit 16 c OR push_bit 24 d"

datatype FourCC = Container | ResourceDef | InputSignature | OutputSignature
  | PatchConstantSignature | ShaderStatistics | ShaderDebugInfoDXIL | ShaderDebugName
  | FeatureInfo | PrivateData | RootSignature | DXIL | SHDR | SHEX
  | PipelineStateValidation | RuntimeData | ShaderHash

definition chr4 :: "string \<Rightarrow> u32" where
  "chr4 cs = fourcc (word_of_nat (of_char (cs ! 0))) (word_of_nat (of_char (cs ! 1)))
                    (word_of_nat (of_char (cs ! 2))) (word_of_nat (of_char (cs ! 3)))"

fun FourCC_value :: "FourCC \<Rightarrow> nat" where
  "FourCC_value Container = unat (chr4 ''DXBC'')"
| "FourCC_value ResourceDef = unat (chr4 ''RDEF'')"
| "FourCC_value InputSignature = unat (chr4 ''ISG1'')"
| "FourCC_value OutputSignature = unat (chr4 ''OSG1'')"
| "FourCC_value PatchConstantSignature = unat (chr4 ''PSG1'')"
| "FourCC_value ShaderStatistics = unat (chr4 ''STAT'')"
| "FourCC_value ShaderDebugInfoDXIL = unat (chr4 ''ILDB'')"
| "FourCC_value ShaderDebugName = unat (chr4 ''ILDN'')"
| "FourCC_value FeatureInfo = unat (chr4 ''SFI0'')"
| "FourCC_value PrivateData = unat (chr4 ''PRIV'')"
| "FourCC_value RootSignature = unat (chr4 ''RTS0'')"
| "FourCC_value DXIL = unat (chr4 ''DXIL'')"
| "FourCC_value SHDR = unat (chr4 ''SHDR'')"
| "FourCC_value SHEX = unat (chr4 ''SHEX'')"
| "FourCC_value PipelineStateValidation = unat (chr4 ''PSV0'')"
| "FourCC_value RuntimeData = unat (chr4 ''RDAT'')"
| "FourCC_value ShaderHash = unat (chr4 ''HASH'')"

definition all_FourCC :: "FourCC list" where
  "all_FourCC = [Container, ResourceDef, InputSignature, OutputSignature,
     PatchConstantSignature, ShaderStatistics, ShaderDebugInfoDXIL, ShaderDebugName,
     FeatureInfo, PrivateData, RootSignature, DXIL, SHDR, SHEX,
     PipelineStateValidation, RuntimeData, ShaderHash]"

text \<open>\<open>static_cast<FourCC>(u)\<close>: \<open>None\<close> is a value without an enumerator, which every
  \<open>switch\<close> sends to its default branch.\<close>

definition FourCC_of :: "nat \<Rightarrow> FourCC option" where
  "FourCC_of u = find (\<lambda>k. FourCC_value k = u) all_FourCC"

datatype RuntimeDataPartType = RDPT_Invalid | StringBuffer | IndexArrays | ResourceTable
  | FunctionTable | RawBytes | SubobjectTable

definition RuntimeDataPartType_of :: "nat \<Rightarrow> RuntimeDataPartType option" where
  "RuntimeDataPartType_of u =
     (if u = 0 then Some RDPT_Invalid else if u = 1 then Some StringBuffer
      else if u = 2 then Some IndexArrays else if u = 3 then Some ResourceTable
      else if u = 4 then Some FunctionTable else if u = 5 then Some RawBytes
      else if u = 6 then Some SubobjectTable else None)"

datatype SubobjectKind = StateObjectConfig | GlobalRootSignature | LocalRootSignature
  | SubobjectToExportsAssociation | RaytracingShaderConfig | RaytracingPipelineConfig
  | HitGroup | RaytracingPipelineConfig1

definition SubobjectKind_of :: "nat \<Rightarrow> SubobjectKind option" where
  "SubobjectKind_of u =
     (if u = 0 then Some StateObjectConfig else if u = 1 then Some GlobalRootSignature
      else if u = 2 then Some LocalRootSignature
      else if u = 8 then Some SubobjectToExportsAssociation
      else if u = 9 then Some RaytracingShaderConfig
      else if u = 10 then Some RaytracingPipelineConfig
      else if u = 11 then Some HitGroup
      else if u = 12 then Some RaytracingPipelineConfig1 else None)"

section \<open>Structures\<close>

record ContainerHeader =
  header_fourcc :: nat
  digest :: "u8 list"
  major_version :: nat
  minor_version :: nat
  container_size_in_bytes :: nat
  part_count :: nat

record PartHeader =
  part_fourcc :: nat
  part_size :: nat

record ProgramHeader =
  program_version :: nat
  size_in_uint32 :: nat
  dxil_magic :: nat
  dxil_version :: nat
  bitcode_offset :: nat
  bitcode_size :: nat

record IOElement =
  semantic_name :: "u8 list"
  stream_index :: nat
  semantic_index :: nat
  system_value_semantic :: nat
  component_type :: nat
  register_index :: nat
  mask :: nat
  min_precision :: nat

text \<open>The integer field of \<open>n\<close> bytes at byte \<open>off\<close> of a structure.\<close>

definition field :: "u8 list \<Rightarrow> nat \<Rightarrow> nat \<Rightarrow> nat" where
  "field bs off n = le_nat (take n (drop off bs))"

definition ContainerHeader_of_bytes :: "u8 list \<Rightarrow> ContainerHeader" where
  "ContainerHeader_of_bytes bs =
     \<lparr>header_fourcc = field bs 0 4, digest = take 16 (drop 4 bs),
      major_version = field bs 20 2, minor_version = field bs 22 2,
      container_size_in_bytes = field bs 24 4, part_count = field bs 28 4\<rparr>"

definition PartHeader_of_bytes :: "u8 list \<Rightarrow> PartHeader" where
  "PartHeader_of_bytes bs = \<lparr>part_fourcc = field bs 0 4, part_size = field bs 4 4\<rparr>"

definition ProgramHeader_of_bytes :: "u8 list \<Rightarrow> ProgramHeader" where
  "ProgramHeader_of_bytes bs =
     \<lparr>program_version = field bs 0 4, size_in_uint32 = field bs 4 4,
      dxil_magic = field bs 8 4, dxil_version = field bs 12 4,
      bitcode_offset = field bs 16 4, bitcode_size = field bs 20 4\<rparr>"

lemma field4_less: "length bs = off + k \<Longrightarrow> 4 \<le> k \<Longrightarrow> field bs off 4 < 4294967296"
  by (simp add: field_def le_nat4_less)

section \<open>Typed reads over any reader\<close>

definition read_struct_with ::
  "('s \<Rightarrow> nat \<Rightarrow> (u8 list \<times> 's) res) \<Rightarrow> (u8 list \<Rightarrow> 'a) \<Rightarrow> nat \<Rightarrow> 's \<Rightarrow> ('a \<times> 's) res" where
  "read_struct_with rd decode n s = bind_res (rd s n) (\<lambda>(bs, s'). Ok (decode bs, s'))"

definition read_u32_with ::
  "('s \<Rightarrow> nat \<Rightarrow> (u8 list \<times> 's) res) \<Rightarrow> 's \<Rightarrow> (nat \<times> 's) res" where
  "read_u32_with rd = read_struct_with rd le_nat 4"

fun read_u32s_with ::
  "('s \<Rightarrow> nat \<Rightarrow> (u8 list \<times> 's) res) \<Rightarrow> nat \<Rightarrow> 's \<Rightarrow> (nat list \<times> 's) res" where
  "read_u32s_with rd 0 s = Ok ([], s)"
| "read_u32s_with rd (Suc k) s =
     bind_res (read_u32_with rd s) (\<lambda>(v, s').
     bind_res (read_u32s_with rd k s') (\<lambda>(vs, s''). Ok (v # vs, s'')))"

text \<open>
  What a client relies on: a read of \<open>n\<close> bytes from a good reader either fails or
  delivers exactly \<open>n\<close> bytes, leaves the reader good, keeps whatever the reader is a
  view of, and uses up \<open>n\<close> bytes.
\<close>

locale stream_reader =
  fixes ok :: "'s \<Rightarrow> bool"
    and view :: "'s \<Rightarrow> 'v"
    and left :: "'s \<Rightarrow> nat"
    and rd :: "'s \<Rightarrow> nat \<Rightarrow> (u8 list \<times> 's) res"
  assumes rd_safe: "ok s \<Longrightarrow> n < 2 ^ 63 \<Longrightarrow>
      safe (rd s n) (\<lambda>(bs, s'). length bs = n \<and> ok s' \<and> view s' = view s \<and> left s' + n = left s)"
begin

lemma struct_safe:
  assumes "ok s" "n < 2 ^ 63" "\<And>bs. length bs = n \<Longrightarrow> P (decode bs)"
  shows "safe (read_struct_with rd decode n s)
    (\<lambda>(v, s'). P v \<and> ok s' \<and> view s' = view s \<and> left s' + n = left s)"
  unfolding read_struct_with_def
  by (rule safe_bind [OF rd_safe [OF assms(1,2)]]) (use assms(3) in auto)

lemma u32_safe:
  assumes "ok s"
  shows "safe (read_u32_with rd s)
    (\<lambda>(v, s'). v < 2 ^ 32 \<and> ok s' \<and> view s' = view s \<and> left s' + 4 = left s)"
  unfolding read_u32_with_def by (rule struct_safe [OF assms]) (simp_all add: le_nat4_less)

lemma u32s_safe:
  assumes "ok s"
  shows "safe (read_u32s_with rd k s)
    (\<lambda>(vs, s'). length vs = k \<and> (\<forall>v \<in> set vs. v < 2 ^ 32) \<and> ok s' \<and> view s' = view s \<and>
       left s' + 4 * k = left s)"
  using assms
proof (induction k arbitrary: s)
  case 0
  then show ?case by simp
next
  case (Suc k)
  show ?case
    unfolding read_u32s_with.simps
  proof (rule safe_bind [OF u32_safe [OF Suc.prems]], clarify)
    fix v :: nat and s'
    assume s': "v < 2 ^ 32" "ok s'" "view s' = view s" "left s' + 4 = left s"
    show "safe (bind_res (read_u32s_with rd k s') (\<lambda>(vs, s''). Ok (v # vs, s'')))
      (\<lambda>(vs, s'). length vs = Suc k \<and> (\<forall>v \<in> set vs. v < 2 ^ 32) \<and> ok s' \<and> view s' = view s \<and>
       left s' + 4 * Suc k = left s)"
      by (rule safe_bind [OF Suc.IH [OF s'(2)]]) (use s' in auto)
  qed
qed

end

interpretation ms: stream_reader "stream_ok mem" "\<lambda>s. (blob s, blob_size s)" remaining "ms_read mem"
  for mem
proof
  fix s :: memory_stream and n :: nat
  assume "stream_ok mem s" "n < 2 ^ 63"
  then show "safe (ms_read mem s n) (\<lambda>(bs, s'). length bs = n \<and> stream_ok mem s' \<and>
      (blob s', blob_size s') = (blob s, blob_size s) \<and> remaining s' + n = remaining s)"
    by (rule safe_mono [OF ms_read_safe]) (auto simp: same_window_def)
qed

abbreviation read_u32 :: "u8 list \<Rightarrow> memory_stream \<Rightarrow> (nat \<times> memory_stream) res" where
  "read_u32 mem \<equiv> read_u32_with (ms_read mem)"

abbreviation read_u32s :: "u8 list \<Rightarrow> nat \<Rightarrow> memory_stream \<Rightarrow> (nat list \<times> memory_stream) res" where
  "read_u32s mem \<equiv> read_u32s_with (ms_read mem)"

abbreviation read_container_header ::
  "u8 list \<Rightarrow> memory_stream \<Rightarrow> (ContainerHeader \<times> memory_stream) res" where
  "read_container_header mem \<equiv> read_struct_with (ms_read mem) ContainerHeader_of_bytes 32"

abbreviation read_part_header ::
  "u8 list \<Rightarrow> memory_stream \<Rightarrow> (PartHeader \<times> memory_stream) res" where
  "read_part_header mem \<equiv> read_struct_with (ms_read mem) PartHeader_of_bytes 8"

abbreviation read_program_header ::
  "u8 list \<Rightarrow> memory_stream \<Rightarrow> (ProgramHeader \<times> memory_stream) res" where
  "read_program_header mem \<equiv> read_struct_with (ms_read mem) ProgramHeader_of_bytes 24"

lemma read_part_header_safe:
  "stream_ok mem s \<Longrightarrow> safe (read_part_header mem s)
     (\<lambda>(h, s'). (part_fourcc h < 2 ^ 32 \<and> part_size h < 2 ^ 32) \<and> stream_ok mem s' \<and>
        (blob s', blob_size s') = (blob s, blob_size s) \<and> remaining s' + 8 = remaining s)"
  by (rule ms.struct_safe) (auto simp: PartHeader_of_bytes_def intro!: field4_less)

lemma read_program_header_safe:
  "stream_ok mem s \<Longrightarrow> safe (read_program_header mem s)
     (\<lambda>(h, s'). (bitcode_offset h < 2 ^ 32 \<and> bitcode_size h < 2 ^ 32) \<and> stream_ok mem s' \<and>
        (blob s', blob_size s') = (blob s, blob_size s) \<and> remaining s' + 24 = remaining s)"
  by (rule ms.struct_safe) (auto simp: ProgramHeader_of_bytes_def intro!: field4_less)

lemma read_container_header_safe:
  "stream_ok mem s \<Longrightarrow> safe (read_container_header mem s)
     (\<lambda>(h, s'). part_count h < 2 ^ 32 \<and> stream_ok mem s' \<and>
        (blob s', blob_size s') = (blob s, blob_size s) \<and> remaining s' + 32 = remaining s)"
  by (rule ms.struct_safe) (auto simp: ContainerHeader_of_bytes_def intro!: field4_less)

section \<open>Facts about the identifiers\<close>

lemma FourCC_values:
  "FourCC_value Container = 1128421444"
  "FourCC_value ResourceDef = 1178944594"
  "FourCC_value InputSignature = 826757961"
  "FourCC_value OutputSignature = 826757967"
  "FourCC_value PatchConstantSignature = 826757968"
  "FourCC_value ShaderStatistics = 1413567571"
  "FourCC_value ShaderDebugInfoDXIL = 1111772233"
  "FourCC_value ShaderDebugName = 1313098825"
  "FourCC_value FeatureInfo = 810108499"
  "FourCC_value PrivateData = 1447645776"
  "FourCC_value RootSignature = 810767442"
  "FourCC_value DXIL = 1279875140"
  "FourCC_value SHDR = 1380206675"
  "FourCC_value SHEX = 1480935507"
  "FourCC_value PipelineStateValidation = 810963792"
  "FourCC_value RuntimeData = 1413563474"
  "FourCC_value ShaderHash = 1213415752"
  by (simp_all add: chr4_def fourcc_def)

declare FourCC_value.simps [simp del]

lemma FourCC_value_inj: "FourCC_value a = FourCC_value b \<longleftrightarrow> a = b"
  by (cases a; cases b) (simp_all add: FourCC_values)

lemma FourCC_of_value [simp]: "FourCC_of (FourCC_value k) = Some k"
  by (cases k) (simp_all add: FourCC_of_def all_FourCC_def FourCC_value_inj)

lemma FourCC_value_less: "FourCC_value k < 4294967296"
  by (cases k) (simp_all add: FourCC_values)

end
