(* ===== verification/Container_Parser.thy ===== *)
theory Container_Parser
  imports Container_Format
begin

text \<open>
  \<open>dxil_parser.cpp\<close>: the container parser. Every method is translated with its early
  returns; the parser object is a record that is passed along. Pointers into the
  container (\<open>const char *\<close>, \<open>const uint8_t *\<close>) are indices into the caller's
  buffer. The lemmas show that no input can make the parser read outside the buffer,
  that what it publishes points at terminated strings and in-range bytes, and what it
  extracts from a well-formed container.
\<close>

section \<open>Parser state\<close>

record RDATSubobject =
  kind :: SubobjectKind
  subobject_name :: "nat option"
  hit_group_type :: nat
  exports :: "nat option list"
  args :: "nat \<times> nat"
  payload :: "nat option"
  payload_size :: nat

definition RDATSubobject_zero :: "SubobjectKind \<Rightarrow> RDATSubobject" where
  "RDATSubobject_zero k =
     \<lparr>kind = k, subobject_name = None, hit_group_type = 0, exports = [], args = (0, 0),
      payload = None, payload_size = 0\<rparr>"

record DXILContainerParser =
  dxil_blob :: "u8 list"
  input_elements :: "IOElement list"
  output_elements :: "IOElement list"
  rdat_subobjects :: "RDATSubobject list"
  dxbc_binary :: bool

definition new_parser :: DXILContainerParser where
  "new_parser = \<lparr>dxil_blob = [], input_elements = [], output_elements = [],
     rdat_subobjects = [], dxbc_binary = False\<rparr>"

section \<open>Entry point names\<close>

definition chr_qm :: u8 where "chr_qm = 63"
definition chr_at :: u8 where "chr_at = 64"

text \<open>\<open>strchr\<close>: the suffix from the first occurrence, or null.\<close>

definition strchr :: "u8 list \<Rightarrow> u8 \<Rightarrow> u8 list option" where
  "strchr s c = (case dropWhile (\<lambda>b. b \<noteq> c) s of [] \<Rightarrow> None | x # xs \<Rightarrow> Some (x # xs))"

definition is_mangled_entry_point :: "u8 list \<Rightarrow> bool" where
  "is_mangled_entry_point user =
     (case strchr user chr_qm of None \<Rightarrow> False
      | Some mangle_begin \<Rightarrow> strchr (tl mangle_begin) chr_at \<noteq> None)"

definition find_first_of :: "u8 list \<Rightarrow> u8 \<Rightarrow> nat \<Rightarrow> nat option" where
  "find_first_of s c start =
     (let k = length (takeWhile (\<lambda>b. b \<noteq> c) (drop start s))
      in if start + k < length s then Some (start + k) else None)"

definition demangle_entry_point :: "u8 list \<Rightarrow> u8 list" where
  "demangle_entry_point entry =
     (case find_first_of entry chr_qm 0 of None \<Rightarrow> entry
      | Some i \<Rightarrow>
        (let start_idx = i + 1
         in case find_first_of entry chr_at start_idx of None \<Rightarrow> entry
            | Some end_idx \<Rightarrow> take (end_idx - start_idx) (drop start_idx entry)))"

section \<open>DXIL program part\<close>

definition DxilMagicPad :: nat where
  "DxilMagicPad = 24 - 8"

definition parse_dxil ::
  "u8 list \<Rightarrow> memory_stream \<Rightarrow> DXILContainerParser \<Rightarrow> DXILContainerParser res" where
  "parse_dxil mem stream p =
     bind_res (read_program_header mem stream) (\<lambda>(program_header, stream).
     if FourCC_of (dxil_magic program_header) \<noteq> Some DXIL then Reject
     else if bitcode_offset program_header < DxilMagicPad then Reject
     else
       let substream = create_substream_bitcode_size stream
             (sz_sub (sz_add (blob_offset stream) (bitcode_offset program_header)) DxilMagicPad)
             (bitcode_size program_header)
       in bind_res (ms_read mem substream (blob_size substream)) (\<lambda>(bytes, _).
          Ok (p\<lparr>dxil_blob := bytes\<rparr>)))"

section \<open>Input and output signatures\<close>

definition read_io_element ::
  "u8 list \<Rightarrow> memory_stream \<Rightarrow> (IOElement \<times> memory_stream) res" where
  "read_io_element mem stream =
     bind_res (read_u32 mem stream) (\<lambda>(e_stream_index, stream).
     bind_res (read_u32 mem stream) (\<lambda>(string_offset, stream).
     bind_res (read_u32 mem stream) (\<lambda>(e_semantic_index, stream).
     bind_res (read_u32 mem stream) (\<lambda>(e_system_value_semantic, stream).
     bind_res (read_u32 mem stream) (\<lambda>(e_component_type, stream).
     bind_res (read_u32 mem stream) (\<lambda>(e_register_index, stream).
     bind_res (read_u32 mem stream) (\<lambda>(e_mask, stream).
     bind_res (read_u32 mem stream) (\<lambda>(e_min_precision, stream).
     let offset = blob_offset stream in
     bind_res (ms_seek stream string_offset) (\<lambda>stream.
     bind_res (ms_map_string_iterate mem stream) (\<lambda>(name_ptr, stream).
     bind_res (string_of_cstr mem name_ptr) (\<lambda>name.
     bind_res (ms_seek stream offset) (\<lambda>stream.
     Ok (\<lparr>semantic_name = name, stream_index = e_stream_index,
          semantic_index = e_semantic_index,
          system_value_semantic = e_system_value_semantic,
          component_type = e_component_type, register_index = e_register_index,
          mask = e_mask, min_precision = e_min_precision\<rparr>, stream)))))))))))))"

fun read_io_elements ::
  "u8 list \<Rightarrow> nat \<Rightarrow> memory_stream \<Rightarrow> (IOElement list \<times> memory_stream) res" where
  "read_io_elements mem 0 stream = Ok ([], stream)"
| "read_io_elements mem (Suc k) stream =
     bind_res (read_io_element mem stream) (\<lambda>(e, stream).
     bind_res (read_io_elements mem k stream) (\<lambda>(es, stream). Ok (e # es, stream)))"

definition parse_iosg1 :: "u8 list \<Rightarrow> memory_stream \<Rightarrow> IOElement list res" where
  "parse_iosg1 mem stream =
     bind_res (read_u32 mem stream) (\<lambda>(element_count, stream).
     bind_res (ms_skip stream 4) (\<lambda>stream.
     bind_res (read_io_elements mem element_count stream) (\<lambda>(elements, _). Ok elements)))"

section \<open>Runtime data: subobject records\<close>

text \<open>The three buffers a subobject record refers to.\<close>

record rdat_buffers =
  string_buffer :: memory_stream
  index_buffer :: memory_stream
  raw_bytes :: memory_stream

definition empty_buffers :: rdat_buffers where
  "empty_buffers = \<lparr>string_buffer = MemoryStream None 0, index_buffer = MemoryStream None 0,
     raw_bytes = MemoryStream None 0\<rparr>"

text \<open>Every record kind starts with the offset of the subobject's name.\<close>

definition read_name ::
  "u8 list \<Rightarrow> rdat_buffers \<Rightarrow> memory_stream \<Rightarrow> (nat option \<times> memory_stream) res" where
  "read_name mem b record_stream =
     bind_res (read_u32 mem record_stream) (\<lambda>(name_offset, record_stream).
     bind_res (ms_map_string_absolute mem (string_buffer b) name_offset) (\<lambda>str.
     Ok (str, record_stream)))"

definition parse_state_object_config ::
  "u8 list \<Rightarrow> rdat_buffers \<Rightarrow> memory_stream \<Rightarrow> RDATSubobject res" where
  "parse_state_object_config mem b record_stream =
     bind_res (read_name mem b record_stream) (\<lambda>(str, record_stream).
     bind_res (read_u32 mem record_stream) (\<lambda>(flag, _).
     Ok ((RDATSubobject_zero StateObjectConfig)\<lparr>subobject_name := str, args := (flag, 0)\<rparr>)))"

definition parse_shader_config ::
  "u8 list \<Rightarrow> rdat_buffers \<Rightarrow> memory_stream \<Rightarrow> RDATSubobject res" where
  "parse_shader_config mem b record_stream =
     bind_res (read_name mem b record_stream) (\<lambda>(str, record_stream).
     bind_res (read_u32 mem record_stream) (\<lambda>(max_payload_size, record_stream).
     bind_res (read_u32 mem record_stream) (\<lambda>(max_attribute_size, _).
     Ok ((RDATSubobject_zero RaytracingShaderConfig)
         \<lparr>subobject_name := str, args := (max_payload_size, max_attribute_size)\<rparr>))))"

definition parse_pipeline_config ::
  "u8 list \<Rightarrow> rdat_buffers \<Rightarrow> SubobjectKind \<Rightarrow> memory_stream \<Rightarrow> RDATSubobject res" where
  "parse_pipeline_config mem b k record_stream =
     bind_res (read_name mem b record_stream) (\<lambda>(str, record_stream).
     bind_res (read_u32 mem record_stream) (\<lambda>(max_recursion_depth, record_stream).
     bind_res (if k = RaytracingPipelineConfig1 then read_u32 mem record_stream
               else Ok (0, record_stream)) (\<lambda>(flags, _).
     Ok ((RDATSubobject_zero k)
         \<lparr>subobject_name := str, args := (max_recursion_depth, flags)\<rparr>))))"

definition parse_hit_group ::
  "u8 list \<Rightarrow> rdat_buffers \<Rightarrow> memory_stream \<Rightarrow> RDATSubobject res" where
  "parse_hit_group mem b record_stream =
     bind_res (read_name mem b record_stream) (\<lambda>(hg_name, record_stream).
     bind_res (read_u32 mem record_stream) (\<lambda>(hg_type, record_stream).
     bind_res (read_u32 mem record_stream) (\<lambda>(ahit_name_offset, record_stream).
     bind_res (read_u32 mem record_stream) (\<lambda>(chit_name_offset, record_stream).
     bind_res (read_u32 mem record_stream) (\<lambda>(intersection_name_offset, record_stream).
     bind_res (ms_map_string_absolute mem (string_buffer b) ahit_name_offset) (\<lambda>ahit.
     bind_res (ms_map_string_absolute mem (string_buffer b) chit_name_offset) (\<lambda>chit.
     bind_res (ms_map_string_absolute mem (string_buffer b) intersection_name_offset) (\<lambda>intersection.
     Ok ((RDATSubobject_zero HitGroup)
         \<lparr>subobject_name := hg_name, hit_group_type := hg_type,
          exports := [ahit, chit, intersection]\<rparr>)))))))))"

fun read_exports ::
  "u8 list \<Rightarrow> rdat_buffers \<Rightarrow> nat \<Rightarrow> memory_stream \<Rightarrow> nat option list res" where
  "read_exports mem b 0 index_substream = Ok []"
| "read_exports mem b (Suc k) index_substream =
     bind_res (read_name mem b index_substream) (\<lambda>(object_name, index_substream).
     bind_res (read_exports mem b k index_substream) (\<lambda>rest. Ok (object_name # rest)))"

definition parse_exports_association ::
  "u8 list \<Rightarrow> rdat_buffers \<Rightarrow> memory_stream \<Rightarrow> RDATSubobject res" where
  "parse_exports_association mem b record_stream =
     bind_res (read_name mem b record_stream) (\<lambda>(name, record_stream).
     bind_res (read_name mem b record_stream) (\<lambda>(object_name, record_stream).
     bind_res (read_u32 mem record_stream) (\<lambda>(index_offset, record_stream).
     let index_substream = create_substream_from (index_buffer b) (sz_mul 4 index_offset) in
     bind_res (read_u32 mem index_substream) (\<lambda>(count, index_substream).
     bind_res (read_exports mem b count index_substream) (\<lambda>names.
     Ok ((RDATSubobject_zero SubobjectToExportsAssociation)
         \<lparr>subobject_name := name, exports := object_name # names\<rparr>))))))"

definition parse_root_signature ::
  "u8 list \<Rightarrow> rdat_buffers \<Rightarrow> SubobjectKind \<Rightarrow> memory_stream \<Rightarrow> RDATSubobject res" where
  "parse_root_signature mem b k record_stream =
     bind_res (read_name mem b record_stream) (\<lambda>(name, record_stream).
     bind_res (read_u32 mem record_stream) (\<lambda>(byte_offset, record_stream).
     bind_res (read_u32 mem record_stream) (\<lambda>(byte_size, record_stream).
     let name_substream = create_substream (raw_bytes b) byte_offset byte_size;
         data = fst (ms_map_read name_substream byte_size)
     in Ok ((RDATSubobject_zero k)
            \<lparr>subobject_name := name, payload := data, payload_size := byte_size\<rparr>))))"

definition parse_subobject ::
  "u8 list \<Rightarrow> rdat_buffers \<Rightarrow> memory_stream \<Rightarrow> RDATSubobject list res" where
  "parse_subobject mem b record_stream =
     bind_res (read_u32 mem record_stream) (\<lambda>(k, record_stream).
     case SubobjectKind_of k of
       Some StateObjectConfig \<Rightarrow>
         bind_res (parse_state_object_config mem b record_stream) (\<lambda>e. Ok [e])
     | Some RaytracingShaderConfig \<Rightarrow>
         bind_res (parse_shader_config mem b record_stream) (\<lambda>e. Ok [e])
     | Some RaytracingPipelineConfig \<Rightarrow>
         bind_res (parse_pipeline_config mem b RaytracingPipelineConfig record_stream) (\<lambda>e. Ok [e])
     | Some RaytracingPipelineConfig1 \<Rightarrow>
         bind_res (parse_pipeline_config mem b RaytracingPipelineConfig1 record_stream) (\<lambda>e. Ok [e])
     | Some HitGroup \<Rightarrow> bind_res (parse_hit_group mem b record_stream) (\<lambda>e. Ok [e])
     | Some SubobjectToExportsAssociation \<Rightarrow>
         bind_res (parse_exports_association mem b record_stream) (\<lambda>e. Ok [e])
     | Some GlobalRootSignature \<Rightarrow>
         bind_res (parse_root_signature mem b GlobalRootSignature record_stream) (\<lambda>e. Ok [e])
     | Some LocalRootSignature \<Rightarrow>
         bind_res (parse_root_signature mem b LocalRootSignature record_stream) (\<lambda>e. Ok [e])
     | None \<Rightarrow> Ok [])"

section \<open>Runtime data: parts\<close>

text \<open>The subobject table: record \<open>record\<close> of \<open>record_count\<close>, all from the same
  cursor. The product \<open>record * record_stride\<close> is computed in 32 bits.\<close>

function parse_subobject_records ::
  "u8 list \<Rightarrow> rdat_buffers \<Rightarrow> memory_stream \<Rightarrow> nat \<Rightarrow> nat \<Rightarrow> nat \<Rightarrow> RDATSubobject list \<Rightarrow>
   RDATSubobject list res" where
  "parse_subobject_records mem b substream record_count record_stride record acc =
     (if record < record_count then
        let record_stream = create_substream substream
              (sz_add (blob_offset substream) (u32_mul record record_stride)) record_stride
        in bind_res (parse_subobject mem b record_stream) (\<lambda>elems.
           parse_subobject_records mem b substream record_count record_stride (Suc record)
             (acc @ elems))
      else Ok acc)"
  by pat_completeness auto
termination
  by (relation "measure (\<lambda>(mem, b, s, record_count, stride, record, acc). record_count - record)") auto

declare parse_subobject_records.simps [simp del]

definition parse_rdat_part ::
  "u8 list \<Rightarrow> memory_stream \<Rightarrow> nat list \<Rightarrow> nat \<Rightarrow> rdat_buffers \<times> RDATSubobject list \<Rightarrow>
   (rdat_buffers \<times> RDATSubobject list) res" where
  "parse_rdat_part mem stream offsets i = (\<lambda>(b, subs).
     if sz_add (offsets ! i) (2 * 4) > blob_size stream then Reject
     else
       let part_size = (if i + 1 < length offsets
                        then u32_sub (offsets ! (i + 1)) (offsets ! i)
                        else u32_of (sz_sub (blob_size stream) (offsets ! i)));
           substream = create_substream stream (offsets ! i) part_size
       in
       bind_res (read_u32 mem substream) (\<lambda>(type, substream).
       bind_res (read_u32 mem substream) (\<lambda>(subpart_length, substream).
       if sz_add subpart_length (2 * 4) > blob_size substream then Reject
       else case RuntimeDataPartType_of type of
         Some StringBuffer \<Rightarrow>
           Ok (b\<lparr>string_buffer := create_substream substream (blob_offset substream) subpart_length\<rparr>, subs)
       | Some IndexArrays \<Rightarrow>
           Ok (b\<lparr>index_buffer := create_substream substream (blob_offset substream) subpart_length\<rparr>, subs)
       | Some RawBytes \<Rightarrow>
           Ok (b\<lparr>raw_bytes := create_substream substream (blob_offset substream) subpart_length\<rparr>, subs)
       | Some SubobjectTable \<Rightarrow>
           bind_res (read_u32 mem substream) (\<lambda>(record_count, substream).
           bind_res (read_u32 mem substream) (\<lambda>(record_stride, substream).
           bind_res (parse_subobject_records mem b substream record_count record_stride 0 subs) (\<lambda>subs.
           Ok (b, subs))))
       | _ \<Rightarrow> Ok (b, subs))))"

definition RDAT_Version :: nat where
  "RDAT_Version = 0x10"

definition parse_rdat ::
  "u8 list \<Rightarrow> memory_stream \<Rightarrow> DXILContainerParser \<Rightarrow> DXILContainerParser res" where
  "parse_rdat mem stream p =
     bind_res (read_u32 mem stream) (\<lambda>(version, stream).
     bind_res (read_u32 mem stream) (\<lambda>(n_parts, stream).
     if version \<noteq> RDAT_Version then Reject
     else
       bind_res (read_u32s mem n_parts stream) (\<lambda>(offsets, stream).
       bind_res (fold_res (parse_rdat_part mem stream offsets) [0..<n_parts]
                   (empty_buffers, rdat_subobjects p)) (\<lambda>(_, subs).
       Ok (p\<lparr>rdat_subobjects := subs\<rparr>)))))"

section \<open>The container\<close>

text \<open>The first pass over the parts: does the container hold legacy DXBC code?\<close>

definition scan_part ::
  "u8 list \<Rightarrow> nat \<Rightarrow> memory_stream \<times> DXILContainerParser \<Rightarrow>
   (memory_stream \<times> DXILContainerParser) res" where
  "scan_part mem part_offset = (\<lambda>(stream, p).
     bind_res (ms_seek stream part_offset) (\<lambda>stream.
     bind_res (read_part_header mem stream) (\<lambda>(part_header, stream).
     let cc = FourCC_of (part_fourcc part_header)
     in Ok (stream, if cc = Some SHDR \<or> cc = Some SHEX then p\<lparr>dxbc_binary := True\<rparr> else p))))"

text \<open>The second pass: dispatch on the part's identifier.\<close>

definition parse_part ::
  "u8 list \<Rightarrow> bool \<Rightarrow> nat \<Rightarrow> memory_stream \<times> DXILContainerParser \<Rightarrow>
   (memory_stream \<times> DXILContainerParser) res" where
  "parse_part mem reflection part_offset = (\<lambda>(stream, p).
     bind_res (ms_seek stream part_offset) (\<lambda>stream.
     bind_res (read_part_header mem stream) (\<lambda>(part_header, stream).
     let cc = FourCC_of (part_fourcc part_header);
         substream = create_substream stream (blob_offset stream) (part_size part_header);
         expected = (if reflection then ShaderStatistics else DXIL)
     in if cc = Some DXIL \<or> cc = Some ShaderStatistics then
          (if cc \<noteq> Some expected \<or> dxbc_binary p then Ok (stream, p)
           else bind_res (parse_dxil mem substream p) (\<lambda>p. Ok (stream, p)))
        else if cc = Some InputSignature then
          bind_res (parse_iosg1 mem substream) (\<lambda>es. Ok (stream, p\<lparr>input_elements := es\<rparr>))
        else if cc = Some OutputSignature then
          bind_res (parse_iosg1 mem substream) (\<lambda>es. Ok (stream, p\<lparr>output_elements := es\<rparr>))
        else if cc = Some RuntimeData then
          bind_res (parse_rdat mem substream p) (\<lambda>p. Ok (stream, p))
        else Ok (stream, p))))"

definition parse_container ::
  "u8 list \<Rightarrow> bool \<Rightarrow> DXILContainerParser \<Rightarrow> DXILContainerParser res" where
  "parse_container mem reflection p =
     (let stream = MemoryStream (Some 0) (length mem) in
      bind_res (read_container_header mem stream) (\<lambda>(container_header, stream).
      if FourCC_of (header_fourcc container_header) \<noteq> Some Container then Reject
      else if container_size_in_bytes container_header > length mem then Reject
      else
        bind_res (read_u32s mem (part_count container_header) stream) (\<lambda>(parts, stream).
        bind_res (fold_res (scan_part mem) parts (stream, p)) (\<lambda>(stream, p).
        bind_res (fold_res (parse_part mem reflection) parts (stream, p)) (\<lambda>(_, p).
        Ok p)))))"

end
