(* ===== verification/Container_Safety.thy ===== *)
theory Container_Safety
  imports Container_Parser
begin

text \<open>
  Memory safety of the container parser: for every byte sequence, every read stays in
  the caller's buffer, every loop ends without using up its fuel, and everything the
  parser publishes refers to the buffer correctly.
\<close>

section \<open>Reads as sequencing rules\<close>

lemma read_u32_bind [safe_intro]:
  assumes "stream_ok mem s"
    and "\<And>v s'. v < 4294967296 \<Longrightarrow> stream_ok mem s' \<Longrightarrow> safe (f v s') P"
  shows "safe (bind_res (read_u32 mem s) (\<lambda>(v, s'). f v s')) P"
  by (rule safe_bind_pair [OF ms.u32_safe [OF assms(1)]]) (use assms(2) in auto)

lemma map_string_absolute_bind [safe_intro]:
  assumes "stream_ok mem s" and "\<And>p. cstr_ok mem p \<Longrightarrow> safe (f p) P"
  shows "safe (bind_res (ms_map_string_absolute mem s off) f) P"
  by (rule safe_bind [OF ms_map_string_absolute_safe [OF assms(1)]]) (use assms(2) in auto)

lemma map_string_iterate_bind [safe_intro]:
  assumes "stream_ok mem s" and "\<And>p s'. cstr_ok mem p \<Longrightarrow> stream_ok mem s' \<Longrightarrow> safe (f p s') P"
  shows "safe (bind_res (ms_map_string_iterate mem s) (\<lambda>(p, s'). f p s')) P"
  by (rule safe_bind_pair [OF ms_map_string_iterate_safe [OF assms(1)]]) (use assms(2) in auto)

lemma seek_bind [safe_intro]:
  assumes "stream_ok mem s" and "\<And>s'. stream_ok mem s' \<Longrightarrow> safe (f s') P"
  shows "safe (bind_res (ms_seek s off) f) P"
  by (rule safe_bind [OF ms_seek_safe [OF assms(1)]]) (use assms(2) in auto)

lemma skip_bind [safe_intro]:
  assumes "stream_ok mem s" and "\<And>s'. stream_ok mem s' \<Longrightarrow> safe (f s') P"
  shows "safe (bind_res (ms_skip s off) f) P"
  by (rule safe_bind [OF ms_skip_safe [OF assms(1)]]) (use assms(2) in auto)

lemma string_of_cstr_bind [safe_intro]:
  assumes "cstr_ok mem p" and "\<And>bs. safe (f bs) P"
  shows "safe (bind_res (string_of_cstr mem p) f) P"
  by (rule safe_bind [OF string_of_cstr_safe [OF assms(1)]]) (use assms(2) in auto)

lemma read_part_header_bind [safe_intro]:
  assumes "stream_ok mem s"
    and "\<And>h s'. part_size h < 4294967296 \<Longrightarrow> stream_ok mem s' \<Longrightarrow> safe (f h s') P"
  shows "safe (bind_res (read_part_header mem s) (\<lambda>(h, s'). f h s')) P"
  by (rule safe_bind_pair [OF read_part_header_safe [OF assms(1)]]) (use assms(2) in auto)

lemma read_program_header_bind [safe_intro]:
  assumes "stream_ok mem s"
    and "\<And>h s'. bitcode_offset h < 4294967296 \<Longrightarrow> bitcode_size h < 4294967296 \<Longrightarrow>
           stream_ok mem s' \<Longrightarrow> safe (f h s') P"
  shows "safe (bind_res (read_program_header mem s) (\<lambda>(h, s'). f h s')) P"
  by (rule safe_bind_pair [OF read_program_header_safe [OF assms(1)]]) (use assms(2) in auto)

lemma substream_u32_ok [simp]:
  "stream_ok mem s \<Longrightarrow> n < 4294967296 \<Longrightarrow> stream_ok mem (create_substream s off n)"
  by (rule create_substream_ok) auto

declare create_substream_from_ok [simp]

section \<open>What the parser publishes\<close>

definition subobject_ok :: "u8 list \<Rightarrow> RDATSubobject \<Rightarrow> bool" where
  "subobject_ok mem e \<longleftrightarrow>
     cstr_ok mem (subobject_name e) \<and> (\<forall>x \<in> set (exports e). cstr_ok mem x) \<and>
     (case payload e of None \<Rightarrow> True | Some a \<Rightarrow> a + payload_size e \<le> length mem)"

definition parser_ok :: "u8 list \<Rightarrow> DXILContainerParser \<Rightarrow> bool" where
  "parser_ok mem p \<longleftrightarrow> (\<forall>e \<in> set (rdat_subobjects p). subobject_ok mem e)"

definition buffers_ok :: "u8 list \<Rightarrow> rdat_buffers \<Rightarrow> bool" where
  "buffers_ok mem b \<longleftrightarrow> stream_ok mem (string_buffer b) \<and> stream_ok mem (index_buffer b) \<and>
     stream_ok mem (raw_bytes b)"

lemma buffers_okD [simp]:
  "buffers_ok mem b \<Longrightarrow> stream_ok mem (string_buffer b)"
  "buffers_ok mem b \<Longrightarrow> stream_ok mem (index_buffer b)"
  "buffers_ok mem b \<Longrightarrow> stream_ok mem (raw_bytes b)"
  by (simp_all add: buffers_ok_def)

section \<open>Each routine\<close>

lemma parse_dxil_safe:
  assumes "stream_ok mem s"
  shows "safe (parse_dxil mem s p) (\<lambda>p'. rdat_subobjects p' = rdat_subobjects p)"
  unfolding parse_dxil_def
proof (rule read_program_header_bind [OF assms])
  fix h s'
  assume h: "bitcode_offset h < 4294967296" "bitcode_size h < 4294967296" and ok: "stream_ok mem s'"
  let ?off = "sz_sub (sz_add (blob_offset s') (bitcode_offset h)) DxilMagicPad"
  let ?sub = "create_substream_bitcode_size s' ?off (bitcode_size h)"
  show "safe (if FourCC_of (dxil_magic h) \<noteq> Some DXIL then Reject
     else if bitcode_offset h < DxilMagicPad then Reject
     else let substream = ?sub
       in bind_res (ms_read mem substream (blob_size substream)) (\<lambda>(bytes, _).
          Ok (p\<lparr>dxil_blob := bytes\<rparr>))) (\<lambda>p'. rdat_subobjects p' = rdat_subobjects p)"
  proof (cases "bitcode_offset h < DxilMagicPad")
    case True
    then show ?thesis by simp
  next
    case False
    have "blob_offset s' < 2 ^ 63" by (rule stream_ok_offset [OF ok])
    with h False have "?off + bitcode_size h < 2 ^ 64" by simp
    with ok have sub: "stream_ok mem ?sub" by (rule create_substream_bitcode_size_ok)
    have "safe (bind_res (ms_read mem ?sub (blob_size ?sub)) (\<lambda>(bytes, _).
          Ok (p\<lparr>dxil_blob := bytes\<rparr>))) (\<lambda>p'. rdat_subobjects p' = rdat_subobjects p)"
      by (rule safe_bind_pair [OF ms_read_safe [OF sub stream_ok_size [OF sub]]]) simp
    then show ?thesis by (simp add: Let_def)
  qed
qed

lemma read_io_element_safe:
  "stream_ok mem s \<Longrightarrow> safe (read_io_element mem s) (\<lambda>(e, s'). stream_ok mem s')"
  unfolding read_io_element_def Let_def by (intro safe_intro) auto

lemma read_io_elements_safe:
  "stream_ok mem s \<Longrightarrow> safe (read_io_elements mem k s) (\<lambda>(es, s'). length es = k \<and> stream_ok mem s')"
proof (induction k arbitrary: s)
  case 0
  then show ?case by simp
next
  case (Suc k)
  show ?case
    unfolding read_io_elements.simps
    by (rule safe_bind_pair [OF read_io_element_safe [OF Suc.prems]],
        rule safe_bind_pair [OF Suc.IH]) auto
qed

lemma parse_iosg1_safe: "stream_ok mem s \<Longrightarrow> safe (parse_iosg1 mem s) (\<lambda>es. True)"
  unfolding parse_iosg1_def
  by (intro safe_intro safe_bind_pair [OF read_io_elements_safe]) auto

lemma read_name_bind [safe_intro]:
  assumes "buffers_ok mem b" "stream_ok mem s"
    and "\<And>p s'. cstr_ok mem p \<Longrightarrow> stream_ok mem s' \<Longrightarrow> safe (f p s') P"
  shows "safe (bind_res (read_name mem b s) (\<lambda>(p, s'). f p s')) P"
proof -
  have "safe (read_name mem b s) (\<lambda>(p, s'). cstr_ok mem p \<and> stream_ok mem s')"
    unfolding read_name_def using assms by (intro safe_intro) auto
  then show ?thesis by (rule safe_bind_pair) (use assms(3) in auto)
qed

lemmas subobject_simps = subobject_ok_def RDATSubobject_zero_def

lemma parse_state_object_config_safe:
  "buffers_ok mem b \<Longrightarrow> stream_ok mem s \<Longrightarrow> safe (parse_state_object_config mem b s) (subobject_ok mem)"
  unfolding parse_state_object_config_def by (intro safe_intro) (auto simp: subobject_simps)

lemma parse_shader_config_safe:
  "buffers_ok mem b \<Longrightarrow> stream_ok mem s \<Longrightarrow> safe (parse_shader_config mem b s) (subobject_ok mem)"
  unfolding parse_shader_config_def by (intro safe_intro) (auto simp: subobject_simps)

lemma parse_pipeline_config_safe:
  assumes "buffers_ok mem b" "stream_ok mem s"
  shows "safe (parse_pipeline_config mem b k s) (subobject_ok mem)"
proof (cases "k = RaytracingPipelineConfig1")
  case True
  then show ?thesis unfolding parse_pipeline_config_def using assms
    by (simp only: if_True simp_thms) (intro safe_intro, auto simp: subobject_simps)
next
  case False
  then show ?thesis unfolding parse_pipeline_config_def using assms
    by (simp only: if_False) (intro safe_intro, auto simp: subobject_simps)
qed

lemma parse_hit_group_safe:
  "buffers_ok mem b \<Longrightarrow> stream_ok mem s \<Longrightarrow> safe (parse_hit_group mem b s) (subobject_ok mem)"
  unfolding parse_hit_group_def by (intro safe_intro) (auto simp: subobject_simps)

lemma read_exports_safe:
  assumes "buffers_ok mem b" "stream_ok mem s"
  shows "safe (read_exports mem b k s) (\<lambda>ps. length ps = k \<and> (\<forall>p \<in> set ps. cstr_ok mem p))"
  using assms(2)
proof (induction k arbitrary: s)
  case 0
  then show ?case by simp
next
  case (Suc k)
  show ?case
    unfolding read_exports.simps
    by (rule read_name_bind [OF assms(1) Suc.prems], rule safe_bind [OF Suc.IH]) auto
qed

lemma parse_exports_association_safe:
  "buffers_ok mem b \<Longrightarrow> stream_ok mem s \<Longrightarrow> safe (parse_exports_association mem b s) (subobject_ok mem)"
  unfolding parse_exports_association_def Let_def
  by (intro safe_intro safe_bind [OF read_exports_safe]) (auto simp: subobject_simps)

lemma parse_root_signature_safe:
  assumes "buffers_ok mem b" "stream_ok mem s"
  shows "safe (parse_root_signature mem b k s) (subobject_ok mem)"
  unfolding parse_root_signature_def Let_def
proof (rule read_name_bind [OF assms], rule read_u32_bind, assumption, rule read_u32_bind, assumption)
  fix name s1 off s2 n s3
  assume a: "cstr_ok mem name" and n: "n < (4294967296 :: nat)"
  let ?sub = "create_substream (raw_bytes b) off n"
  obtain q s' where q: "ms_map_read ?sub n = (q, s')" by fastforce
  have "stream_ok mem ?sub" using assms n by simp
  from ms_map_read_ok [OF this _ q] n a
  show "safe (Ok ((RDATSubobject_zero k)
            \<lparr>subobject_name := name, payload := fst (ms_map_read ?sub n), payload_size := n\<rparr>))
          (subobject_ok mem)"
    by (cases q) (auto simp: q subobject_simps)
qed

lemma parse_subobject_safe:
  assumes "buffers_ok mem b" "stream_ok mem s"
  shows "safe (parse_subobject mem b s) (\<lambda>es. \<forall>e \<in> set es. subobject_ok mem e)"
  unfolding parse_subobject_def
proof (rule read_u32_bind [OF assms(2)])
  fix k s'
  assume ok: "stream_ok mem s'"
  note rules = parse_state_object_config_safe parse_shader_config_safe parse_pipeline_config_safe
    parse_hit_group_safe parse_exports_association_safe parse_root_signature_safe
  have one: "safe m (subobject_ok mem) \<Longrightarrow>
      safe (bind_res m (\<lambda>e. Ok [e])) (\<lambda>es. \<forall>e \<in> set es. subobject_ok mem e)"
    for m :: "RDATSubobject res"
    by (rule safe_bind) auto
  show "safe (case SubobjectKind_of k of
       Some StateObjectConfig \<Rightarrow> bind_res (parse_state_object_config mem b s') (\<lambda>e. Ok [e])
     | Some RaytracingShaderConfig \<Rightarrow> bind_res (parse_shader_config mem b s') (\<lambda>e. Ok [e])
     | Some RaytracingPipelineConfig \<Rightarrow>
         bind_res (parse_pipeline_config mem b RaytracingPipelineConfig s') (\<lambda>e. Ok [e])
     | Some RaytracingPipelineConfig1 \<Rightarrow>
         bind_res (parse_pipeline_config mem b RaytracingPipelineConfig1 s') (\<lambda>e. Ok [e])
     | Some HitGroup \<Rightarrow> bind_res (parse_hit_group mem b s') (\<lambda>e. Ok [e])
     | Some SubobjectToExportsAssociation \<Rightarrow>
         bind_res (parse_exports_association mem b s') (\<lambda>e. Ok [e])
     | Some GlobalRootSignature \<Rightarrow>
         bind_res (parse_root_signature mem b GlobalRootSignature s') (\<lambda>e. Ok [e])
     | Some LocalRootSignature \<Rightarrow>
         bind_res (parse_root_signature mem b LocalRootSignature s') (\<lambda>e. Ok [e])
     | None \<Rightarrow> Ok []) (\<lambda>es. \<forall>e \<in> set es. subobject_ok mem e)"
    by (auto split: option.split SubobjectKind.split intro!: one rules assms(1) ok)
qed

lemma parse_subobject_records_safe:
  assumes "buffers_ok mem b" "stream_ok mem s" "stride < 4294967296"
    and "\<forall>e \<in> set acc. subobject_ok mem e"
  shows "safe (parse_subobject_records mem b s n stride i acc) (\<lambda>es. \<forall>e \<in> set es. subobject_ok mem e)"
  using assms
proof (induction mem b s n stride i acc rule: parse_subobject_records.induct)
  case (1 mem b s n stride i acc)
  let ?rs = "create_substream s (sz_add (blob_offset s) (u32_mul i stride)) stride"
  show ?case
  proof (cases "i < n")
    case False
    then show ?thesis using "1.prems" by (simp add: parse_subobject_records.simps [of mem b s n stride i])
  next
    case True
    have "stream_ok mem ?rs" using "1.prems" by simp
    from parse_subobject_safe [OF "1.prems"(1) this]
    have "safe (bind_res (parse_subobject mem b ?rs)
       (\<lambda>elems. parse_subobject_records mem b s n stride (Suc i) (acc @ elems)))
       (\<lambda>es. \<forall>e \<in> set es. subobject_ok mem e)"
      by (rule safe_bind_strong) (rule "1.IH" [OF True refl], use "1.prems" in auto)
    with True show ?thesis by (simp add: parse_subobject_records.simps [of mem b s n stride i] Let_def)
  qed
qed

lemma parse_rdat_part_safe:
  assumes s: "stream_ok mem s" and b: "buffers_ok mem (fst st)"
    and e: "\<forall>e \<in> set (snd st). subobject_ok mem e"
  shows "safe (parse_rdat_part mem s offsets i st)
     (\<lambda>st. buffers_ok mem (fst st) \<and> (\<forall>e \<in> set (snd st). subobject_ok mem e))"
proof -
  obtain bb subs where st: "st = (bb, subs)" by fastforce
  let ?n = "if i + 1 < length offsets then u32_sub (offsets ! (i + 1)) (offsets ! i)
            else u32_of (sz_sub (blob_size s) (offsets ! i))"
  have n: "?n < 4294967296" using u32_sub_less u32_of_less by simp
  show ?thesis
    unfolding parse_rdat_part_def st prod.case Let_def
  proof (rule safe_if, simp, rule read_u32_bind, use s n in simp, rule read_u32_bind, assumption, rule safe_if, simp)
    fix type s1 len s2
    assume s2: "stream_ok mem s2" and len: "len < (4294967296 :: nat)"
    have be: "buffers_ok mem bb" "\<forall>e \<in> set subs. subobject_ok mem e" using b e st by auto
    have upd: "buffers_ok mem (bb\<lparr>string_buffer := create_substream s2 (blob_offset s2) len\<rparr>)"
      "buffers_ok mem (bb\<lparr>index_buffer := create_substream s2 (blob_offset s2) len\<rparr>)"
      "buffers_ok mem (bb\<lparr>raw_bytes := create_substream s2 (blob_offset s2) len\<rparr>)"
      using be(1) s2 len by (simp_all add: buffers_ok_def del: buffers_okD)
    have tab: "safe (bind_res (read_u32 mem s2) (\<lambda>(record_count, substream).
           bind_res (read_u32 mem substream) (\<lambda>(record_stride, substream).
           bind_res (parse_subobject_records mem bb substream record_count record_stride 0 subs) (\<lambda>subs.
           Ok (bb, subs))))) (\<lambda>st. buffers_ok mem (fst st) \<and> (\<forall>e \<in> set (snd st). subobject_ok mem e))"
      by (rule read_u32_bind [OF s2], rule read_u32_bind, assumption,
          rule safe_bind [OF parse_subobject_records_safe [OF be(1) _ _ be(2)]], assumption+)
         (simp add: be(1))
    show "safe (case RuntimeDataPartType_of type of
         None \<Rightarrow> Ok (bb, subs)
       | Some StringBuffer \<Rightarrow> Ok (bb\<lparr>string_buffer := create_substream s2 (blob_offset s2) len\<rparr>, subs)
       | Some IndexArrays \<Rightarrow> Ok (bb\<lparr>index_buffer := create_substream s2 (blob_offset s2) len\<rparr>, subs)
       | Some RawBytes \<Rightarrow> Ok (bb\<lparr>raw_bytes := create_substream s2 (blob_offset s2) len\<rparr>, subs)
       | Some SubobjectTable \<Rightarrow>
           bind_res (read_u32 mem s2) (\<lambda>(record_count, substream).
           bind_res (read_u32 mem substream) (\<lambda>(record_stride, substream).
           bind_res (parse_subobject_records mem bb substream record_count record_stride 0 subs) (\<lambda>subs.
           Ok (bb, subs))))
       | Some _ \<Rightarrow> Ok (bb, subs))
       (\<lambda>st. buffers_ok mem (fst st) \<and> (\<forall>e \<in> set (snd st). subobject_ok mem e))"
    proof (cases "RuntimeDataPartType_of type")
      case None
      with be show ?thesis by simp
    next
      case (Some t)
      show ?thesis
        unfolding Some
        by (cases t; simp only: option.case RuntimeDataPartType.case safe_simps fst_conv snd_conv
            be(1) upd tab simp_thms) (use be(2) in auto)
    qed
  qed
qed

lemma parse_rdat_safe:
  assumes "stream_ok mem s" "parser_ok mem p"
  shows "safe (parse_rdat mem s p) (parser_ok mem)"
  unfolding parse_rdat_def
proof (intro read_u32_bind [OF assms(1)] read_u32_bind safe_if)
  fix v s1 n s2
  assume s2: "stream_ok mem s2"
  have b: "buffers_ok mem empty_buffers"
    using s2 by (auto simp: buffers_ok_def empty_buffers_def stream_ok_def MemoryStream_def
        simp del: buffers_okD)
  show "safe (bind_res (read_u32s mem n s2) (\<lambda>(offsets, stream).
       bind_res (fold_res (parse_rdat_part mem stream offsets) [0..<n]
                   (empty_buffers, rdat_subobjects p)) (\<lambda>(_, subs).
       Ok (p\<lparr>rdat_subobjects := subs\<rparr>)))) (parser_ok mem)"
  proof (rule safe_bind_pair [OF ms.u32s_safe [OF s2]])
    fix offsets :: "nat list" and s3
    assume "length offsets = n \<and> (\<forall>v\<in>set offsets. v < 2 ^ 32) \<and> stream_ok mem s3 \<and>
      (blob s3, blob_size s3) = (blob s2, blob_size s2) \<and> remaining s3 + 4 * n = remaining s2"
    then have s3: "stream_ok mem s3" by simp
    have "safe (fold_res (parse_rdat_part mem s3 offsets) [0..<n] (empty_buffers, rdat_subobjects p))
      (\<lambda>st. buffers_ok mem (fst st) \<and> (\<forall>e \<in> set (snd st). subobject_ok mem e))"
      by (rule fold_res_safe, rule parse_rdat_part_safe [OF s3])
         (use b assms(2) in \<open>auto simp: parser_ok_def\<close>)
    then show "safe (bind_res (fold_res (parse_rdat_part mem s3 offsets) [0..<n]
                   (empty_buffers, rdat_subobjects p)) (\<lambda>(_, subs).
       Ok (p\<lparr>rdat_subobjects := subs\<rparr>))) (parser_ok mem)"
      by (rule safe_bind) (auto simp: parser_ok_def)
  qed
qed simp_all

section \<open>The container\<close>

abbreviation walk_ok :: "u8 list \<Rightarrow> memory_stream \<times> DXILContainerParser \<Rightarrow> bool" where
  "walk_ok mem st \<equiv> stream_ok mem (fst st) \<and> parser_ok mem (snd st)"

lemma scan_part_safe: "walk_ok mem st \<Longrightarrow> safe (scan_part mem off st) (walk_ok mem)"
  unfolding scan_part_def Let_def
  by (cases st) (auto simp: parser_ok_def intro!: seek_bind read_part_header_bind)

lemma parse_part_safe:
  assumes "walk_ok mem st"
  shows "safe (parse_part mem reflection off st) (walk_ok mem)"
proof -
  obtain s p where st: "st = (s, p)" by fastforce
  with assms have s: "stream_ok mem s" and p: "parser_ok mem p" by auto
  show ?thesis
    unfolding parse_part_def st prod.case Let_def
  proof (intro seek_bind [OF s] read_part_header_bind)
    fix s1 h s2
    assume h: "part_size h < 4294967296" and s2: "stream_ok mem s2"
    let ?sub = "create_substream s2 (blob_offset s2) (part_size h)"
    have sub: "stream_ok mem ?sub" using h s2 by simp
    have dxil: "safe (bind_res (parse_dxil mem ?sub p) (\<lambda>p. Ok (s2, p))) (walk_ok mem)"
      by (rule safe_bind [OF parse_dxil_safe [OF sub]]) (use p s2 in \<open>auto simp: parser_ok_def\<close>)
    have rdat: "safe (bind_res (parse_rdat mem ?sub p) (\<lambda>p. Ok (s2, p))) (walk_ok mem)"
      by (rule safe_bind [OF parse_rdat_safe [OF sub p]]) (use s2 in auto)
    have io: "(\<And>es. parser_ok mem (g es)) \<Longrightarrow>
        safe (bind_res (parse_iosg1 mem ?sub) (\<lambda>es. Ok (s2, g es))) (walk_ok mem)" for g
      by (rule safe_bind [OF parse_iosg1_safe [OF sub]]) (use s2 in auto)
    show "safe (if FourCC_of (part_fourcc h) = Some DXIL \<or> FourCC_of (part_fourcc h) = Some ShaderStatistics
        then (if FourCC_of (part_fourcc h) \<noteq> Some (if reflection then ShaderStatistics else DXIL) \<or> dxbc_binary p
          then Ok (s2, p) else bind_res (parse_dxil mem ?sub p) (\<lambda>p. Ok (s2, p)))
        else if FourCC_of (part_fourcc h) = Some InputSignature
        then bind_res (parse_iosg1 mem ?sub) (\<lambda>es. Ok (s2, p\<lparr>input_elements := es\<rparr>))
        else if FourCC_of (part_fourcc h) = Some OutputSignature
        then bind_res (parse_iosg1 mem ?sub) (\<lambda>es. Ok (s2, p\<lparr>output_elements := es\<rparr>))
        else if FourCC_of (part_fourcc h) = Some RuntimeData
        then bind_res (parse_rdat mem ?sub p) (\<lambda>p. Ok (s2, p)) else Ok (s2, p)) (walk_ok mem)"
      by (intro safe_if dxil rdat io) (use s2 p in \<open>auto simp: parser_ok_def\<close>)
  qed
qed

lemma parse_container_safe:
  assumes "length mem < 2 ^ 63" "parser_ok mem p"
  shows "safe (parse_container mem reflection p) (parser_ok mem)"
  unfolding parse_container_def Let_def
proof (rule safe_bind_pair [OF read_container_header_safe [OF stream_ok_initial [OF assms(1)]]],
    intro safe_if)
  fix h s
  assume "part_count h < 2 ^ 32 \<and> stream_ok mem s \<and>
    (blob s, blob_size s) = (blob (MemoryStream (Some 0) (length mem)), blob_size (MemoryStream (Some 0) (length mem))) \<and>
    remaining s + 32 = remaining (MemoryStream (Some 0) (length mem))"
  then have s: "stream_ok mem s" by simp
  show "safe (bind_res (read_u32s mem (part_count h) s) (\<lambda>(parts, stream).
        bind_res (fold_res (scan_part mem) parts (stream, p)) (\<lambda>(stream, p).
        bind_res (fold_res (parse_part mem reflection) parts (stream, p)) (\<lambda>(_, p).
        Ok p)))) (parser_ok mem)"
  proof (rule safe_bind_pair [OF ms.u32s_safe [OF s]])
    fix parts :: "nat list" and s1
    assume "length parts = part_count h \<and> (\<forall>v\<in>set parts. v < 2 ^ 32) \<and> stream_ok mem s1 \<and>
      (blob s1, blob_size s1) = (blob s, blob_size s) \<and> remaining s1 + 4 * part_count h = remaining s"
    with assms have "walk_ok mem (s1, p)" by simp
    then have 1: "safe (fold_res (scan_part mem) parts (s1, p)) (walk_ok mem)"
      by (intro fold_res_safe scan_part_safe)
    have 2: "walk_ok mem st \<Longrightarrow> safe (fold_res (parse_part mem reflection) parts st) (walk_ok mem)" for st
      by (intro fold_res_safe parse_part_safe)
    show "safe (bind_res (fold_res (scan_part mem) parts (s1, p)) (\<lambda>(stream, p).
        bind_res (fold_res (parse_part mem reflection) parts (stream, p)) (\<lambda>(_, p).
        Ok p))) (parser_ok mem)"
      by (rule safe_bind [OF 1]) (auto intro!: safe_bind [OF 2])
  qed
qed simp_all

end
