(* ===== verification/Container_Functional.thy ===== *)
theory Container_Functional
  imports Container_Safety
begin

text \<open>
  What the container parser computes: the legacy-code flag, where the DXIL blob comes
  from, entry-point demangling, and a round trip through an encoder that lays a container
  out as the format prescribes.
\<close>

section \<open>The two passes\<close>

lemma scan_part_frame:
  assumes "scan_part mem off st = Ok st'"
  shows "dxil_blob (snd st') = dxil_blob (snd st)"
    and "dxbc_binary (snd st) \<Longrightarrow> dxbc_binary (snd st')"
  using assms by (cases st; auto simp: scan_part_def Let_def bind_res_Ok_iff split: prod.splits if_splits)+

lemma parse_dxil_frame:
  "parse_dxil mem s p = Ok p' \<Longrightarrow> dxbc_binary p' = dxbc_binary p"
  by (auto simp: parse_dxil_def Let_def bind_res_Ok_iff split: if_splits prod.splits)

lemma parse_rdat_frame:
  "parse_rdat mem s p = Ok p' \<Longrightarrow> dxbc_binary p' = dxbc_binary p \<and> dxil_blob p' = dxil_blob p"
  by (auto simp: parse_rdat_def bind_res_Ok_iff split: if_splits prod.splits)

lemma parse_part_cases:
  assumes "parse_part mem reflection off (s, p) = Ok (s', p')"
  obtains (blob) sub where "parse_dxil mem sub p = Ok p'" "\<not> dxbc_binary p"
  | (other) "dxil_blob p' = dxil_blob p" "dxbc_binary p' = dxbc_binary p"
  using assms
  by (auto simp: parse_part_def Let_def bind_res_Ok_iff dest: parse_rdat_frame split: if_splits prod.splits)

lemma parse_part_frame:
  assumes "parse_part mem reflection off st = Ok st'"
  shows "dxbc_binary (snd st') = dxbc_binary (snd st)"
    and "dxbc_binary (snd st) \<Longrightarrow> dxil_blob (snd st') = dxil_blob (snd st)"
  using assms by (cases st; cases st'; auto elim!: parse_part_cases dest: parse_dxil_frame)+

lemma scan_parts_frame:
  "fold_res (scan_part mem) parts st = Ok st' \<Longrightarrow> dxil_blob (snd st') = dxil_blob (snd st)"
  by (rule fold_res_invariant [where I = "\<lambda>t. dxil_blob (snd t) = dxil_blob (snd st)"])
     (auto dest: scan_part_frame)

lemma parse_parts_frame:
  assumes "fold_res (parse_part mem reflection) parts st = Ok st'"
  shows "dxbc_binary (snd st') = dxbc_binary (snd st) \<and>
    (dxbc_binary (snd st) \<longrightarrow> dxil_blob (snd st') = dxil_blob (snd st))"
  by (rule fold_res_invariant [where I = "\<lambda>t. dxbc_binary (snd t) = dxbc_binary (snd st) \<and>
      (dxbc_binary (snd st) \<longrightarrow> dxil_blob (snd t) = dxil_blob (snd st))", OF _ _ assms])
     (auto dest: parse_part_frame)

lemma parse_containerE:
  assumes "parse_container mem reflection p = Ok p'"
  obtains parts s0 s1 p1 s2 where
    "fold_res (scan_part mem) parts (s0, p) = Ok (s1, p1)"
    "fold_res (parse_part mem reflection) parts (s1, p1) = Ok (s2, p')"
  using assms by (auto simp: parse_container_def Let_def bind_res_Ok_iff split: if_splits prod.splits)

section \<open>Reading from a laid-out buffer\<close>

lemma ms_read_at:
  assumes "stream_ok (pre @ bs @ suf) s" "blob s = Some 0" "blob_size s = length (pre @ bs @ suf)"
    and "blob_offset s = length pre"
  shows "ms_read (pre @ bs @ suf) s (length bs) = Ok (bs, s\<lparr>blob_offset := length pre + length bs\<rparr>)"
proof -
  have "length bs < 2 ^ 63" using assms(1) by (simp add: stream_ok_def)
  moreover have "window (pre @ bs @ suf) s = pre @ bs @ suf" using assms by (simp add: window_def)
  ultimately show ?thesis using assms by (simp add: ms_read_eq)
qed

definition whole :: "u8 list \<Rightarrow> nat \<Rightarrow> memory_stream" where
  "whole mem off = \<lparr>blob = Some 0, blob_size = length mem, blob_offset = off\<rparr>"

lemma whole_ok: "length mem < 2 ^ 63 \<Longrightarrow> off \<le> length mem \<Longrightarrow> stream_ok mem (whole mem off)"
  by (simp add: stream_ok_def whole_def)

lemma whole_seek [simp]: "off' \<le> length mem \<Longrightarrow> ms_seek (whole mem off) off' = Ok (whole mem off')"
  by (simp add: ms_seek_def whole_def)

lemma whole_read:
  assumes "mem = pre @ bs @ suf" "length mem < 2 ^ 63" "off = length pre" "n = length bs"
  shows "ms_read mem (whole mem off) n = Ok (bs, whole mem (off + n))"
  using ms_read_at [of pre bs suf "whole mem off"] whole_ok [OF assms(2), of off] assms
  by (simp add: whole_def)

lemma whole_read_u32s:
  assumes "mem = pre @ concat (map (le_bytes 4) vs) @ suf" "length mem < 2 ^ 63" "off = length pre"
    and "\<forall>v \<in> set vs. v < 4294967296"
  shows "read_u32s mem (length vs) (whole mem off) = Ok (vs, whole mem (off + 4 * length vs))"
  using assms
proof (induction vs arbitrary: pre off)
  case Nil
  then show ?case by simp
next
  case (Cons v vs)
  have "ms_read mem (whole mem off) 4 = Ok (le_bytes 4 v, whole mem (off + 4))"
    by (rule whole_read [where pre = pre and suf = "concat (map (le_bytes 4) vs) @ suf"])
       (use Cons.prems in simp_all)
  moreover have "le_nat (le_bytes 4 v) = v" using Cons.prems(4) by (simp add: le_nat_bytes)
  moreover have "read_u32s mem (length vs) (whole mem (off + 4)) =
      Ok (vs, whole mem (off + 4 + 4 * length vs))"
    by (rule Cons.IH [where pre = "pre @ le_bytes 4 v"]) (use Cons.prems in simp_all)
  ultimately show ?case
    by (simp add: read_u32_with_def read_struct_with_def algebra_simps)
qed

section \<open>An encoder\<close>

type_synonym part = "FourCC \<times> u8 list"

definition encode_part :: "part \<Rightarrow> u8 list" where
  "encode_part pt = le_bytes 4 (FourCC_value (fst pt)) @ le_bytes 4 (length (snd pt)) @ snd pt"

fun part_offsets :: "nat \<Rightarrow> part list \<Rightarrow> nat list" where
  "part_offsets base [] = []"
| "part_offsets base (pt # pts) = base # part_offsets (base + 8 + length (snd pt)) pts"

definition encode_header :: "nat \<Rightarrow> nat \<Rightarrow> u8 list" where
  "encode_header csize n = le_bytes 4 (FourCC_value Container) @ replicate 16 0 @ le_bytes 2 1 @
     le_bytes 2 0 @ le_bytes 4 csize @ le_bytes 4 n"

definition encode_container :: "part list \<Rightarrow> u8 list" where
  "encode_container pts =
     (let body = concat (map encode_part pts);
          base = 32 + 4 * length pts
      in encode_header (base + length body) (length pts) @
         concat (map (le_bytes 4) (part_offsets base pts)) @ body)"

definition encode_program :: "u8 list \<Rightarrow> u8 list" where
  "encode_program bitcode =
     le_bytes 4 0x60 @ le_bytes 4 (6 + length bitcode div 4) @ le_bytes 4 (FourCC_value DXIL) @
     le_bytes 4 0x100 @ le_bytes 4 16 @ le_bytes 4 (length bitcode) @ bitcode"

lemma length_encode_part [simp]: "length (encode_part pt) = 8 + length (snd pt)"
  by (simp add: encode_part_def)

lemma length_part_offsets [simp]: "length (part_offsets base pts) = length pts"
  by (induction pts arbitrary: base) auto

lemma length_concat4 [simp]: "length (concat (map (le_bytes n) vs)) = n * length vs"
  by (induction vs) auto

lemma length_encode_header [simp]: "length (encode_header csize n) = 32"
  by (simp add: encode_header_def)

lemma length_encode_container:
  "length (encode_container pts) = 32 + 4 * length pts + length (concat (map encode_part pts))"
  by (simp add: encode_container_def Let_def)

lemma encode_container_layout:
  "encode_container pts = encode_header (length (encode_container pts)) (length pts) @
     concat (map (le_bytes 4) (part_offsets (32 + 4 * length pts) pts)) @ concat (map encode_part pts)"
  unfolding length_encode_container by (simp add: encode_container_def Let_def)

lemma part_offsets_append:
  "part_offsets base (as @ bs) = part_offsets base as @ part_offsets (base + length (concat (map encode_part as))) bs"
  by (induction as arbitrary: base) (auto simp: algebra_simps)

lemma part_offsets_le:
  "off \<in> set (part_offsets base pts) \<Longrightarrow> off + 8 \<le> base + length (concat (map encode_part pts))"
  by (induction pts arbitrary: base) fastforce+

lemma field_header:
  "csize < 4294967296 \<Longrightarrow> n < 4294967296 \<Longrightarrow>
   ContainerHeader_of_bytes (encode_header csize n) =
     \<lparr>header_fourcc = FourCC_value Container, digest = replicate 16 0, major_version = 1,
      minor_version = 0, container_size_in_bytes = csize, part_count = n\<rparr>"
  by (simp add: ContainerHeader_of_bytes_def encode_header_def field_def le_nat_bytes
      FourCC_value_less)

lemma field_part_header:
  "length (snd pt) < 4294967296 \<Longrightarrow>
   PartHeader_of_bytes (le_bytes 4 (FourCC_value (fst pt)) @ le_bytes 4 (length (snd pt))) =
     \<lparr>part_fourcc = FourCC_value (fst pt), part_size = length (snd pt)\<rparr>"
  by (simp add: PartHeader_of_bytes_def field_def le_nat_bytes FourCC_value_less)

text \<open>Where a part of an encoded container stands.\<close>

lemma encode_container_split:
  assumes "pts = as @ pt # bs"
  obtains pre suf where
    "encode_container pts = pre @ encode_part pt @ suf"
    "length pre = 32 + 4 * length pts + length (concat (map encode_part as))"
proof
  let ?pre = "encode_header (length (encode_container pts)) (length pts) @
    concat (map (le_bytes 4) (part_offsets (32 + 4 * length pts) pts)) @ concat (map encode_part as)"
  show "encode_container pts = ?pre @ encode_part pt @ concat (map encode_part bs)"
    using assms by (subst encode_container_layout) simp
  show "length ?pre = 32 + 4 * length pts + length (concat (map encode_part as))" by simp
qed

lemma whole_part_header:
  assumes "mem = pre @ encode_part pt @ suf" "length mem < 4294967296"
  shows "read_part_header mem (whole mem (length pre)) =
    Ok (\<lparr>part_fourcc = FourCC_value (fst pt), part_size = length (snd pt)\<rparr>, whole mem (length pre + 8))"
proof -
  have "ms_read mem (whole mem (length pre)) 8 =
      Ok (le_bytes 4 (FourCC_value (fst pt)) @ le_bytes 4 (length (snd pt)), whole mem (length pre + 8))"
    by (rule whole_read [where pre = pre and suf = "snd pt @ suf"])
       (use assms in \<open>simp_all add: encode_part_def\<close>)
  moreover have "length (snd pt) < 4294967296" using assms by simp
  ultimately show ?thesis by (simp add: read_struct_with_def field_part_header)
qed

lemma parse_program:
  assumes ok: "length mem < 4294967296"
    and mem: "mem = pre @ encode_program bitcode @ suf"
    and sub: "sub = MemoryStream (Some (length pre)) (length (encode_program bitcode))"
  shows "parse_dxil mem sub p = Ok (p\<lparr>dxil_blob := bitcode\<rparr>)"
proof -
  let ?hdr = "take 24 (encode_program bitcode)"
  have len: "length (encode_program bitcode) = 24 + length bitcode" by (simp add: encode_program_def)
  then have bl: "length bitcode < 4294967296" using ok mem by simp
  have sok: "stream_ok mem sub" using ok mem by (simp add: stream_ok_def sub MemoryStream_def)
  have win: "window mem sub = encode_program bitcode" by (simp add: window_def sub MemoryStream_def mem)
  let ?s1 = "sub\<lparr>blob_offset := 24\<rparr>"
  have "ms_read mem sub 24 = Ok (?hdr, ?s1)"
    using sok by (simp add: ms_read_eq win) (simp add: sub MemoryStream_def len)
  moreover have "ProgramHeader_of_bytes ?hdr =
      \<lparr>program_version = 0x60, size_in_uint32 = 6 + length bitcode div 4,
       dxil_magic = FourCC_value DXIL, dxil_version = 0x100, bitcode_offset = 16,
       bitcode_size = length bitcode\<rparr>"
    using bl by (simp add: ProgramHeader_of_bytes_def encode_program_def field_def le_nat_bytes
      FourCC_value_less)
  ultimately have hdr: "read_program_header mem sub = Ok (\<lparr>program_version = 0x60,
       size_in_uint32 = 6 + length bitcode div 4, dxil_magic = FourCC_value DXIL,
       dxil_version = 0x100, bitcode_offset = 16, bitcode_size = length bitcode\<rparr>, ?s1)"
    by (simp add: read_struct_with_def)
  let ?sub = "MemoryStream (Some (length pre + 24)) (length bitcode)"
  have s2: "create_substream_bitcode_size ?s1 24 (length bitcode) = ?sub"
    using bl by (simp add: create_substream_bitcode_size_def sub MemoryStream_def ptr_add_def len)
  have "stream_ok mem ?sub" using ok mem len by (simp add: stream_ok_def MemoryStream_def)
  moreover have "window mem ?sub = bitcode"
    by (simp add: window_def MemoryStream_def mem encode_program_def)
  ultimately have "\<exists>s. ms_read mem ?sub (length bitcode) = Ok (bitcode, s)"
    using bl by (simp add: ms_read_eq) (simp add: MemoryStream_def)
  then show ?thesis
    by (auto simp: parse_dxil_def hdr Let_def DxilMagicPad_def s2) (simp add: MemoryStream_def)
qed

section \<open>Both passes over an encoded container\<close>

text \<open>The parts that neither pass acts on.\<close>

definition ignored_part :: "FourCC \<Rightarrow> bool" where
  "ignored_part cc \<longleftrightarrow> cc \<notin> {DXIL, ShaderStatistics, InputSignature, OutputSignature,
     RuntimeData, SHDR, SHEX}"

lemma scan_part_at:
  assumes "mem = pre @ encode_part pt @ suf" "length mem < 4294967296"
  shows "scan_part mem (length pre) (whole mem off, p) =
    Ok (whole mem (length pre + 8),
        if fst pt = SHDR \<or> fst pt = SHEX then p\<lparr>dxbc_binary := True\<rparr> else p)"
  using assms by (simp add: scan_part_def whole_part_header Let_def)

lemma parse_part_ignored:
  assumes "mem = pre @ encode_part pt @ suf" "length mem < 4294967296" "ignored_part (fst pt)"
  shows "parse_part mem reflection (length pre) (whole mem off, p) = Ok (whole mem (length pre + 8), p)"
  using assms by (auto simp: parse_part_def whole_part_header Let_def ignored_part_def)

lemma parse_part_dxil:
  assumes "mem = pre @ encode_part (DXIL, encode_program bitcode) @ suf" "length mem < 4294967296"
    and "\<not> dxbc_binary p"
  shows "parse_part mem False (length pre) (whole mem off, p) =
    Ok (whole mem (length pre + 8), p\<lparr>dxil_blob := bitcode\<rparr>)"
proof -
  let ?pre = "pre @ le_bytes 4 (FourCC_value DXIL) @ le_bytes 4 (length (encode_program bitcode))"
  let ?sub = "create_substream (whole mem (length pre + 8)) (length pre + 8) (length (encode_program bitcode))"
  have mem: "mem = ?pre @ encode_program bitcode @ suf" using assms(1) by (simp add: encode_part_def)
  have "?sub = MemoryStream (Some (length ?pre)) (length (encode_program bitcode))"
    using assms by (simp add: create_substream_def whole_def ptr_add_def encode_program_def)
  with parse_program [OF assms(2) mem] have "parse_dxil mem ?sub p = Ok (p\<lparr>dxil_blob := bitcode\<rparr>)"
    by blast
  moreover have "blob_offset (whole mem (length pre + 8)) = length pre + 8" by (simp add: whole_def)
  ultimately show ?thesis
    using assms whole_part_header [OF assms(1,2)] by (simp add: parse_part_def Let_def)
qed

text \<open>Folding a per-part function over the part offsets of an encoded container.\<close>

lemma fold_parts:
  assumes mem: "mem = encode_container pts" and len: "length mem < 4294967296"
    and pts: "pts = as @ bs"
    and step: "\<And>pt pre suf off p. pt \<in> set bs \<Longrightarrow> mem = pre @ encode_part pt @ suf \<Longrightarrow>
       P p \<Longrightarrow> f (length pre) (whole mem off, p) = Ok (whole mem (length pre + 8), g pt p) \<and> P (g pt p)"
    and P: "P p"
  shows "\<exists>off'. fold_res f (part_offsets (32 + 4 * length pts + length (concat (map encode_part as))) bs)
     (whole mem off, p) = Ok (whole mem off', fold g bs p) \<and> P (fold g bs p)"
  using pts step P
proof (induction bs arbitrary: as off p)
  case Nil
  then show ?case by auto
next
  case (Cons pt bs)
  obtain pre suf where sp: "encode_container pts = pre @ encode_part pt @ suf"
    "length pre = 32 + 4 * length pts + length (concat (map encode_part as))"
    using encode_container_split [OF Cons.prems(1)] .
  then have st: "f (length pre) (whole mem off, p) = Ok (whole mem (length pre + 8), g pt p)" "P (g pt p)"
    using Cons.prems(2) [of pt pre suf p off] Cons.prems(3) mem by auto
  have "pts = (as @ [pt]) @ bs" using Cons.prems(1) by simp
  from Cons.IH [OF this _ st(2), of "length pre + 8"] Cons.prems(2)
  show ?case using st(1) sp(2) by (simp add: algebra_simps)
qed

lemma fold_scan_parts:
  "fold (\<lambda>pt p. if fst pt = SHDR \<or> fst pt = SHEX then p\<lparr>dxbc_binary := True\<rparr> else p) pts p =
   (if \<exists>pt \<in> set pts. fst pt = SHDR \<or> fst pt = SHEX then p\<lparr>dxbc_binary := True\<rparr> else p)"
  by (induction pts arbitrary: p) auto

lemma parse_container_encoded:
  assumes len: "length (encode_container pts) < 4294967296"
  shows "\<exists>off. parse_container (encode_container pts) reflection p =
    bind_res (fold_res (parse_part (encode_container pts) reflection)
                (part_offsets (32 + 4 * length pts) pts)
                (whole (encode_container pts) off,
                 if \<exists>pt \<in> set pts. fst pt = SHDR \<or> fst pt = SHEX then p\<lparr>dxbc_binary := True\<rparr> else p))
      (\<lambda>(_, p). Ok p)"
proof -
  let ?m = "encode_container pts"
  let ?offs = "part_offsets (32 + 4 * length pts) pts"
  have n: "length pts < 4294967296" using len by (simp add: length_encode_container)
  have init: "MemoryStream (Some 0) (length ?m) = whole ?m 0" by (simp add: MemoryStream_def whole_def)
  have "ms_read ?m (whole ?m 0) 32 = Ok (encode_header (length ?m) (length pts), whole ?m 32)"
    using whole_read [where pre = "[]" and suf = "concat (map (le_bytes 4) ?offs) @ concat (map encode_part pts)"
        and off = 0 and n = 32, unfolded append_Nil, OF encode_container_layout [of pts]] len by simp
  then have h: "read_container_header ?m (whole ?m 0) = Ok (\<lparr>header_fourcc = FourCC_value Container,
      digest = replicate 16 0, major_version = 1, minor_version = 0,
      container_size_in_bytes = length ?m, part_count = length pts\<rparr>, whole ?m 32)"
    using len n by (simp add: read_struct_with_def field_header)
  have offs: "\<forall>v \<in> set ?offs. v < 4294967296"
    using part_offsets_le len by (fastforce simp: length_encode_container)
  have "read_u32s ?m (length ?offs) (whole ?m 32) = Ok (?offs, whole ?m (32 + 4 * length ?offs))"
    by (rule whole_read_u32s [where pre = "encode_header (length ?m) (length pts)"
          and suf = "concat (map encode_part pts)"])
       (use len offs in \<open>simp_all add: encode_container_layout [symmetric]\<close>)
  then have r: "read_u32s ?m (length pts) (whole ?m 32) = Ok (?offs, whole ?m (32 + 4 * length pts))"
    by simp
  have "\<exists>off'. fold_res (scan_part ?m) (part_offsets (32 + 4 * length pts + length (concat (map encode_part []))) pts)
      (whole ?m (32 + 4 * length pts), p) = Ok (whole ?m off',
        fold (\<lambda>pt p. if fst pt = SHDR \<or> fst pt = SHEX then p\<lparr>dxbc_binary := True\<rparr> else p) pts p) \<and> True"
    by (rule fold_parts [OF refl len]) (use len in \<open>auto simp: scan_part_at\<close>)
  then obtain off' where "fold_res (scan_part ?m) ?offs (whole ?m (32 + 4 * length pts), p) =
      Ok (whole ?m off', if \<exists>pt \<in> set pts. fst pt = SHDR \<or> fst pt = SHEX
        then p\<lparr>dxbc_binary := True\<rparr> else p)"
    unfolding fold_scan_parts by auto
  then show ?thesis by (intro exI [of _ off']) (simp add: parse_container_def init h r)
qed

lemma parse_container_fold:
  assumes len: "length (encode_container pts) < 4294967296"
    and p0: "(if \<exists>pt \<in> set pts. fst pt = SHDR \<or> fst pt = SHEX then p\<lparr>dxbc_binary := True\<rparr> else p) = p0"
    and step: "\<And>pt pre suf off p. pt \<in> set pts \<Longrightarrow>
       encode_container pts = pre @ encode_part pt @ suf \<Longrightarrow> P p \<Longrightarrow>
       parse_part (encode_container pts) reflection (length pre) (whole (encode_container pts) off, p) =
         Ok (whole (encode_container pts) (length pre + 8), g pt p) \<and> P (g pt p)"
    and P: "P p0"
  shows "parse_container (encode_container pts) reflection p = Ok (fold g pts p0)"
proof -
  let ?m = "encode_container pts"
  obtain off where 1: "parse_container ?m reflection p =
    bind_res (fold_res (parse_part ?m reflection) (part_offsets (32 + 4 * length pts) pts)
      (whole ?m off, p0)) (\<lambda>(_, p). Ok p)"
    using parse_container_encoded [OF len, of reflection p] unfolding p0 by blast
  have "\<exists>off'. fold_res (parse_part ?m reflection) (part_offsets (32 + 4 * length pts +
      length (concat (map encode_part []))) pts) (whole ?m off, p0) =
      Ok (whole ?m off', fold g pts p0) \<and> P (fold g pts p0)"
    by (rule fold_parts [where P = P, OF refl len]) (use step P in auto)
  then show ?thesis by (auto simp: 1)
qed

section \<open>Entry point names\<close>

lemma find_first_of_Some:
  "find_first_of (pre @ c # suf) c start = Some (length pre)"
  if "start \<le> length pre" "c \<notin> set (drop start pre)"
proof -
  have "drop start (pre @ c # suf) = drop start pre @ c # suf" using that by simp
  moreover have "takeWhile (\<lambda>b. b \<noteq> c) (drop start pre @ c # suf) = drop start pre"
    using that(2) by (auto simp: takeWhile_append1 takeWhile_tail)
  ultimately show ?thesis using that(1) by (simp add: find_first_of_def Let_def)
qed

lemma demangle_mangled:
  assumes "chr_qm \<notin> set pre" "chr_at \<notin> set name"
  shows "demangle_entry_point (pre @ chr_qm # name @ chr_at # suffix) = name"
proof -
  have q: "find_first_of (pre @ chr_qm # name @ chr_at # suffix) chr_qm 0 = Some (length pre)"
    by (rule find_first_of_Some) (use assms in auto)
  have "find_first_of ((pre @ chr_qm # name) @ chr_at # suffix) chr_at (length pre + 1) =
      Some (length (pre @ chr_qm # name))"
    by (rule find_first_of_Some) (use assms in auto)
  then have "find_first_of (pre @ chr_qm # name @ chr_at # suffix) chr_at (length pre + 1) =
      Some (length pre + 1 + length name)" by simp
  with q show ?thesis by (simp add: demangle_entry_point_def Let_def)
qed

lemma strchr_None: "strchr s c = None \<longleftrightarrow> c \<notin> set s"
proof -
  have "dropWhile (\<lambda>b. b \<noteq> c) s = [] \<longleftrightarrow> c \<notin> set s" by (auto simp: dropWhile_eq_Nil_conv)
  moreover have "(case xs of [] \<Rightarrow> None | y # ys \<Rightarrow> Some (y # ys)) = None \<longleftrightarrow> xs = []" for xs :: "u8 list"
    by (cases xs) auto
  ultimately show ?thesis by (simp only: strchr_def)
qed

lemma strchr_Some: "strchr s c = Some t \<longleftrightarrow> (\<exists>pre suf. s = pre @ c # suf \<and> c \<notin> set pre \<and> t = c # suf)"
proof
  assume "strchr s c = Some t"
  then have t: "dropWhile (\<lambda>b. b \<noteq> c) s = t" "t \<noteq> []"
    by (auto simp: strchr_def split: list.splits)
  then have "hd t = c" by (metis (mono_tags, lifting) hd_dropWhile)
  then obtain suf where "t = c # suf" using t(2) by (cases t) auto
  moreover have "s = takeWhile (\<lambda>b. b \<noteq> c) s @ t" using t(1) by (metis takeWhile_dropWhile_id)
  moreover have "c \<notin> set (takeWhile (\<lambda>b. b \<noteq> c) s)" by (auto dest: set_takeWhileD)
  ultimately show "\<exists>pre suf. s = pre @ c # suf \<and> c \<notin> set pre \<and> t = c # suf" by metis
next
  assume "\<exists>pre suf. s = pre @ c # suf \<and> c \<notin> set pre \<and> t = c # suf"
  then obtain pre suf where p: "s = pre @ c # suf" "c \<notin> set pre" "t = c # suf" by blast
  then have "dropWhile (\<lambda>b. b \<noteq> c) s = t" by (auto simp: dropWhile_append3)
  with p show "strchr s c = Some t" by (simp add: strchr_def)
qed

lemma is_mangled_iff:
  "is_mangled_entry_point e \<longleftrightarrow>
     (\<exists>pre name suffix. e = pre @ chr_qm # name @ chr_at # suffix \<and> chr_qm \<notin> set pre \<and> chr_at \<notin> set name)"
proof
  assume "is_mangled_entry_point e"
  then obtain pre suf where p: "e = pre @ chr_qm # suf" "chr_qm \<notin> set pre" "chr_at \<in> set suf"
    by (auto simp: is_mangled_entry_point_def strchr_None strchr_Some split: option.splits)
  then show "\<exists>pre name suffix. e = pre @ chr_qm # name @ chr_at # suffix \<and> chr_qm \<notin> set pre \<and> chr_at \<notin> set name"
    using split_list_first [OF p(3)] by blast
next
  assume "\<exists>pre name suffix. e = pre @ chr_qm # name @ chr_at # suffix \<and> chr_qm \<notin> set pre \<and> chr_at \<notin> set name"
  then obtain pre name suffix where e: "e = pre @ chr_qm # name @ chr_at # suffix" "chr_qm \<notin> set pre"
    by blast
  then have "strchr e chr_qm = Some (chr_qm # name @ chr_at # suffix)" by (auto simp: strchr_Some)
  then show "is_mangled_entry_point e" by (simp add: is_mangled_entry_point_def strchr_None)
qed

lemma demangle_unmangled:
  assumes "\<not> is_mangled_entry_point e"
  shows "demangle_entry_point e = e"
proof (cases "find_first_of e chr_qm 0")
  case None
  then show ?thesis by (simp add: demangle_entry_point_def)
next
  case (Some i)
  then have i: "i = length (takeWhile (\<lambda>b. b \<noteq> chr_qm) e)" "i < length e"
    by (auto simp: find_first_of_def Let_def split: if_splits)
  have nth: "e ! i = chr_qm" using i nth_length_takeWhile [of "\<lambda>b. b \<noteq> chr_qm" e] by simp
  have e: "e = take i e @ chr_qm # drop (i + 1) e"
    using i(2) nth by (metis Suc_eq_plus1 id_take_nth_drop)
  have "take i e = takeWhile (\<lambda>b. b \<noteq> chr_qm) e"
    unfolding i(1) by (rule takeWhile_eq_take [symmetric])
  then have "chr_qm \<notin> set (take i e)" by (auto dest: set_takeWhileD)
  have "chr_at \<notin> set (drop (i + 1) e)"
  proof
    assume "chr_at \<in> set (drop (i + 1) e)"
    then obtain name suffix where n: "drop (i + 1) e = name @ chr_at # suffix" "chr_at \<notin> set name"
      using split_list_first by metis
    have "e = take i e @ chr_qm # name @ chr_at # suffix" using e unfolding n .
    with n(2) \<open>chr_qm \<notin> set (take i e)\<close> have "is_mangled_entry_point e"
      unfolding is_mangled_iff by (intro exI conjI)
    with assms show False by simp
  qed
  then have "takeWhile (\<lambda>b. b \<noteq> chr_at) (drop (i + 1) e) = drop (i + 1) e"
    by (metis (mono_tags, lifting) takeWhile_eq_all_conv)
  then have "length (takeWhile (\<lambda>b. b \<noteq> chr_at) (drop (i + 1) e)) = length e - (i + 1)"
    by (simp only: length_drop)
  then have "find_first_of e chr_at (i + 1) = None" using i(2) by (simp add: find_first_of_def Let_def)
  with Some show ?thesis by (simp add: demangle_entry_point_def Let_def)
qed

section \<open>Signature tables\<close>

lemma read_u32_advance:
  assumes "stream_ok mem s"
    and "\<And>v s'. stream_ok mem s' \<Longrightarrow> same_window s' s \<Longrightarrow> blob_offset s' = blob_offset s + 4 \<Longrightarrow> safe (f v s') P"
  shows "safe (bind_res (read_u32 mem s) (\<lambda>(v, s'). f v s')) P"
proof -
  have "safe (read_u32 mem s) (\<lambda>(v, s'). stream_ok mem s' \<and> same_window s' s \<and> blob_offset s' = blob_offset s + 4)"
    using assms(1)
    by (auto simp: read_u32_with_def read_struct_with_def ms_read_eq same_window_def
        intro: stream_ok_set_offset)
  then show ?thesis by (rule safe_bind_pair) (use assms(2) in auto)
qed

lemma read_io_element_advance:
  assumes "stream_ok mem s"
  shows "safe (read_io_element mem s)
    (\<lambda>(e, s'). stream_ok mem s' \<and> same_window s' s \<and> blob_offset s' = blob_offset s + 32)"
proof -
  have tail: "safe (bind_res (ms_seek t string_offset) (\<lambda>stream.
     bind_res (ms_map_string_iterate mem stream) (\<lambda>(name_ptr, stream).
     bind_res (string_of_cstr mem name_ptr) (\<lambda>name.
     bind_res (ms_seek stream (blob_offset t)) (\<lambda>stream. Ok (g name, stream))))))
     (\<lambda>(e :: IOElement, s'). stream_ok mem s' \<and> same_window s' t \<and> blob_offset s' = blob_offset t)"
    if t: "stream_ok mem t" for t string_offset g
  proof (rule safe_bind [OF ms_seek_safe [OF t]], clarify)
    fix u
    assume u: "stream_ok mem u" "same_window u t"
    show "safe (bind_res (ms_map_string_iterate mem u) (\<lambda>(name_ptr, stream).
       bind_res (string_of_cstr mem name_ptr) (\<lambda>name.
       bind_res (ms_seek stream (blob_offset t)) (\<lambda>stream. Ok (g name, stream)))))
       (\<lambda>(e :: IOElement, s'). stream_ok mem s' \<and> same_window s' t \<and> blob_offset s' = blob_offset t)"
    proof (rule safe_bind_pair [OF ms_map_string_iterate_safe [OF u(1)]], clarify,
        rule safe_bind [OF string_of_cstr_safe], assumption)
      fix q v name
      assume v: "stream_ok mem v" "same_window v u"
      have "blob_offset t \<le> blob_size v" using t u v by (simp add: stream_ok_def same_window_def)
      then show "safe (bind_res (ms_seek v (blob_offset t)) (\<lambda>stream. Ok (g name, stream)))
        (\<lambda>(e :: IOElement, s'). stream_ok mem s' \<and> same_window s' t \<and> blob_offset s' = blob_offset t)"
        using u v by (auto simp: ms_seek_def same_window_def intro: stream_ok_set_offset)
    qed
  qed
  show ?thesis
    unfolding read_io_element_def Let_def
    by (intro read_u32_advance assms, assumption+)
       (rule safe_mono [OF tail], auto simp: same_window_def)
qed

lemma read_io_elements_advance:
  assumes "stream_ok mem s"
  shows "safe (read_io_elements mem k s)
    (\<lambda>(es, s'). length es = k \<and> stream_ok mem s' \<and> same_window s' s \<and> blob_offset s' = blob_offset s + 32 * k)"
  using assms
proof (induction k arbitrary: s)
  case 0
  then show ?case by simp
next
  case (Suc k)
  show ?case
    unfolding read_io_elements.simps
    by (rule safe_bind_pair [OF read_io_element_advance [OF Suc.prems]],
        rule safe_bind_pair [OF Suc.IH]) (auto simp: same_window_def)
qed

lemma parse_iosg1_bounds:
  assumes "stream_ok mem s" "blob_offset s = 0"
  shows "safe (parse_iosg1 mem s) (\<lambda>es. 8 + 32 * length es \<le> blob_size s)"
  unfolding parse_iosg1_def
proof (rule read_u32_advance [OF assms(1)])
  fix n s1
  assume s1: "stream_ok mem s1" "same_window s1 s" "blob_offset s1 = blob_offset s + 4"
  have "safe (ms_skip s1 4) (\<lambda>s2. stream_ok mem s2 \<and> same_window s2 s \<and> blob_offset s2 = 8)"
    using s1 assms(2) by (auto simp: ms_skip_def ms_seek_def same_window_def intro: stream_ok_set_offset)
  then show "safe (bind_res (ms_skip s1 4) (\<lambda>stream.
     bind_res (read_io_elements mem n stream) (\<lambda>(elements, _). Ok elements)))
     (\<lambda>es. 8 + 32 * length es \<le> blob_size s)"
  proof (rule safe_bind, clarify)
    fix s2
    assume s2: "stream_ok mem s2" "same_window s2 s" "blob_offset s2 = 8"
    show "safe (bind_res (read_io_elements mem n s2) (\<lambda>(elements, _). Ok elements))
      (\<lambda>es. 8 + 32 * length es \<le> blob_size s)"
      by (rule safe_bind_pair [OF read_io_elements_advance [OF s2(1)]])
         (use s2 in \<open>auto simp: stream_ok_def same_window_def\<close>)
  qed
qed

section \<open>What the two passes read\<close>

text \<open>The input as the format describes it, without streams: the table of part offsets and the parts.\<close>

definition word_at :: "u8 list \<Rightarrow> nat \<Rightarrow> nat" where
  "word_at mem k = le_nat (take 4 (drop k mem))"

definition part_table :: "u8 list \<Rightarrow> nat list" where
  "part_table mem = map (\<lambda>i. word_at mem (32 + 4 * i)) [0..<word_at mem 28]"

definition part_id :: "u8 list \<Rightarrow> nat \<Rightarrow> FourCC option" where
  "part_id mem k = FourCC_of (word_at mem k)"

text \<open>The bitcode of the program part at an offset; nothing when its range leaves the part.\<close>

definition program_bitcode :: "u8 list \<Rightarrow> nat \<Rightarrow> u8 list" where
  "program_bitcode mem k =
     (let start = 8 + word_at mem (k + 24); n = word_at mem (k + 28) in
      if start + n \<le> word_at mem (k + 4) then take n (drop (k + 8 + start) mem) else [])"

lemma whole_read_struct:
  assumes "length mem < 2 ^ 63" "off \<le> length mem" "k < 2 ^ 63"
  shows "read_struct_with (ms_read mem) decode k (whole mem off) =
    (if off + k \<le> length mem then Ok (decode (take k (drop off mem)), whole mem (off + k)) else Reject)"
  using whole_ok [OF assms(1,2)] assms
  by (simp add: read_struct_with_def ms_read_eq) (simp add: whole_def window_def)

lemma whole_read_words:
  assumes "length mem < 2 ^ 63" "off \<le> length mem"
  shows "read_u32s mem k (whole mem off) = Ok (vs, s) \<Longrightarrow>
    vs = map (\<lambda>i. word_at mem (off + 4 * i)) [0..<k] \<and> s = whole mem (off + 4 * k) \<and> off + 4 * k \<le> length mem"
  using assms(2)
proof (induction k arbitrary: off vs s)
  case 0
  then show ?case by simp
next
  case (Suc k)
  from Suc.prems obtain ws where w: "off + 4 \<le> length mem" "read_u32s mem k (whole mem (off + 4)) = Ok (ws, s)"
    "vs = word_at mem off # ws"
    by (auto simp: read_u32_with_def whole_read_struct [OF assms(1)] word_at_def bind_res_Ok_iff split: if_splits)
  have "[0..<Suc k] = 0 # map Suc [0..<k]" by (simp add: upt_conv_Cons map_Suc_upt del: upt_Suc)
  then show ?case using Suc.IH [OF w(2,1)] w(3) by (simp add: comp_def algebra_simps)
qed

lemma read_struct_fresh:
  assumes "length mem < 2 ^ 63" "a + n \<le> length mem" "k \<le> n"
  shows "read_struct_with (ms_read mem) decode k (MemoryStream (Some a) n) =
    Ok (decode (take k (drop a mem)), (MemoryStream (Some a) n)\<lparr>blob_offset := k\<rparr>)"
proof -
  have "stream_ok mem (MemoryStream (Some a) n)" using assms by (simp add: stream_ok_def MemoryStream_def)
  moreover have "k < 2 ^ 63" using assms by simp
  ultimately show ?thesis using assms
    by (simp add: read_struct_with_def ms_read_eq) (simp add: MemoryStream_def window_def)
qed

lemma part_header_words:
  "part_fourcc (PartHeader_of_bytes (take 8 (drop k mem))) = word_at mem k"
  "part_size (PartHeader_of_bytes (take 8 (drop k mem))) = word_at mem (k + 4)"
  by (simp_all add: PartHeader_of_bytes_def field_def word_at_def drop_take min_def add.commute)

lemma scan_part_reads:
  assumes "length mem < 2 ^ 63" "scan_part mem k (whole mem off, p) = Ok (s', p')"
  shows "s' = whole mem (k + 8) \<and> k + 8 \<le> length mem \<and>
    p' = (if part_id mem k \<in> {Some SHDR, Some SHEX} then p\<lparr>dxbc_binary := True\<rparr> else p)"
proof -
  have k: "k \<le> length mem" using assms(2) by (auto simp: scan_part_def ms_seek_def whole_def bind_res_Ok_iff split: if_splits)
  then show ?thesis
    using assms by (auto simp: scan_part_def whole_read_struct part_header_words part_id_def Let_def bind_res_Ok_iff split: if_splits)
qed

lemma scan_parts_read:
  assumes "length mem < 2 ^ 63"
  shows "fold_res (scan_part mem) ks (whole mem off, p) = Ok (s', p') \<Longrightarrow>
    (\<exists>off'. s' = whole mem off') \<and> (\<forall>k \<in> set ks. k + 8 \<le> length mem) \<and>
    p' = (if \<exists>k \<in> set ks. part_id mem k \<in> {Some SHDR, Some SHEX} then p\<lparr>dxbc_binary := True\<rparr> else p)"
proof (induction ks arbitrary: off p)
  case Nil
  then show ?case by auto
next
  case (Cons k ks)
  obtain s1 p1 where 1: "scan_part mem k (whole mem off, p) = Ok (s1, p1)" "fold_res (scan_part mem) ks (s1, p1) = Ok (s', p')"
    using Cons.prems by (auto simp: bind_res_Ok_iff)
  note s1 = scan_part_reads [OF assms 1(1)]
  show ?case using Cons.IH [of "k + 8" p1] 1(2) s1 by auto
qed

lemma program_header_words:
  "bitcode_offset (ProgramHeader_of_bytes (take 24 (take n (drop k mem)))) = word_at mem (k + 16)"
  "bitcode_size (ProgramHeader_of_bytes (take 24 (take n (drop k mem)))) = word_at mem (k + 20)"
  if "24 \<le> n"
  using that by (simp_all add: ProgramHeader_of_bytes_def field_def word_at_def drop_take min_def add.commute)

lemma word_at_less: "word_at mem k < 2 ^ 32"
proof -
  let ?bs = "take 4 (drop k mem)"
  have "le_nat ?bs < 256 ^ length ?bs" by (rule le_nat_less)
  also have "\<dots> \<le> 256 ^ 4" by (rule power_increasing) simp_all
  finally show ?thesis by (simp add: word_at_def)
qed

lemma parse_dxil_reads:
  assumes mem: "length mem < 2 ^ 63" and k: "k + 8 \<le> length mem"
    and run: "parse_dxil mem (create_substream (whole mem (k + 8)) (k + 8) (word_at mem (k + 4))) p = Ok p'"
  shows "p' = p\<lparr>dxil_blob := program_bitcode mem k\<rparr>"
proof -
  let ?n = "word_at mem (k + 4)" and ?off = "word_at mem (k + 24)" and ?len = "word_at mem (k + 28)"
  let ?sub = "create_substream (whole mem (k + 8)) (k + 8) ?n"
  have small: "?n < 2 ^ 32" "?off < 2 ^ 32" "?len < 2 ^ 32" by (rule word_at_less)+
  obtain h s1 where h: "read_program_header mem ?sub = Ok (h, s1)" using run by (auto simp: parse_dxil_def bind_res_Ok_iff)
  have "?sub \<noteq> MemoryStream None 0"
    using h by (auto simp: read_struct_with_def ms_read_def MemoryStream_def bind_res_Ok_iff split: if_splits)
  then have in_range: "k + 8 + ?n \<le> length mem" "k + 8 < length mem"
    using small k mem by (auto simp: create_substream_def whole_def split: if_splits)
  then have sub: "?sub = MemoryStream (Some (k + 8)) ?n"
    using small mem by (simp add: create_substream_def whole_def ptr_add_def)
  have ok: "stream_ok mem (MemoryStream (Some (k + 8)) ?n)" using in_range mem by (simp add: stream_ok_def MemoryStream_def)
  have win: "window mem (MemoryStream (Some (k + 8)) ?n) = take ?n (drop (k + 8) mem)" by (simp add: window_def MemoryStream_def)
  have h1: "24 \<le> ?n"
    using h ok by (auto simp: sub read_struct_with_def ms_read_eq bind_res_Ok_iff split: if_splits) (simp add: MemoryStream_def)
  have h2: "h = ProgramHeader_of_bytes (take 24 (take ?n (drop (k + 8) mem)))"
    "s1 = (MemoryStream (Some (k + 8)) ?n)\<lparr>blob_offset := 24\<rparr>"
    using h1 h by (auto simp: sub read_struct_fresh [OF mem in_range(1)] take_drop min_def)
  have hw: "bitcode_offset h = ?off" "bitcode_size h = ?len"
    using program_header_words [OF h1, of "k + 8" mem] h2(1) by (simp_all add: add.commute)
  have off: "16 \<le> ?off" using run h hw by (auto simp: parse_dxil_def DxilMagicPad_def split: if_splits)
  have start: "sz_sub (sz_add (blob_offset s1) ?off) DxilMagicPad = 8 + ?off"
    using off small h2(2) by (simp add: DxilMagicPad_def)
  obtain bytes s2 where b: "ms_read mem (create_substream_bitcode_size s1 (8 + ?off) ?len)
      (blob_size (create_substream_bitcode_size s1 (8 + ?off) ?len)) = Ok (bytes, s2)" "p' = p\<lparr>dxil_blob := bytes\<rparr>"
    using run h hw start by (auto simp: parse_dxil_def Let_def bind_res_Ok_iff split: if_splits)
  have "bytes = program_bitcode mem k"
  proof (cases "8 + ?off + ?len \<le> ?n")
    case True
    then have s: "create_substream_bitcode_size s1 (8 + ?off) ?len = MemoryStream (Some (k + 8 + (8 + ?off))) ?len"
      using small h2(2) by (simp add: create_substream_bitcode_size_def MemoryStream_def ptr_add_def)
    let ?t = "MemoryStream (Some (k + 8 + (8 + ?off))) ?len"
    have "stream_ok mem ?t" using True in_range mem by (simp add: stream_ok_def MemoryStream_def)
    moreover have "?len < 2 ^ 63" using small by simp
    moreover have "blob_size ?t = ?len" "blob_offset ?t = 0" "window mem ?t = take ?len (drop (k + 8 + (8 + ?off)) mem)"
      by (simp_all add: MemoryStream_def window_def)
    ultimately have "bytes = take ?len (drop (k + 8 + (8 + ?off)) mem)"
      using b(1) unfolding s by (simp only: ms_read_eq) simp
    then show ?thesis using True by (simp add: program_bitcode_def Let_def)
  next
    case False
    then have "create_substream_bitcode_size s1 (8 + ?off) ?len = MemoryStream None 0"
      using small h2(2) by (simp add: create_substream_bitcode_size_def MemoryStream_def)
    then have "bytes = []" using b(1) by (simp add: ms_read_def load_bytes_def MemoryStream_def)
    then show ?thesis using False by (simp add: program_bitcode_def Let_def)
  qed
  then show ?thesis using b(2) by simp
qed

lemma parse_part_reads:
  assumes "length mem < 2 ^ 63" "parse_part mem reflection k (whole mem off, p) = Ok (s', p')" "k + 8 \<le> length mem"
  shows "s' = whole mem (k + 8) \<and> dxil_blob p' =
    (if part_id mem k = Some (if reflection then ShaderStatistics else DXIL) \<and> \<not> dxbc_binary p
     then program_bitcode mem k else dxil_blob p)"
  using assms parse_dxil_reads [OF assms(1,3), of p]
  by (auto simp: parse_part_def whole_read_struct part_header_words part_id_def Let_def bind_res_Ok_iff whole_def [of mem "k + 8"]
      dest: parse_rdat_frame split: if_splits)

lemma parse_parts_read:
  assumes "length mem < 2 ^ 63"
  shows "fold_res (parse_part mem reflection) ks (whole mem off, p) = Ok (s', p') \<Longrightarrow> \<forall>k \<in> set ks. k + 8 \<le> length mem \<Longrightarrow>
    \<not> dxbc_binary p \<Longrightarrow> dxil_blob p' =
      (case filter (\<lambda>k. part_id mem k = Some (if reflection then ShaderStatistics else DXIL)) ks of
         [] \<Rightarrow> dxil_blob p | os \<Rightarrow> program_bitcode mem (last os))"
proof (induction ks arbitrary: off p)
  case Nil
  then show ?case by simp
next
  case (Cons k ks)
  obtain s1 p1 where 1: "parse_part mem reflection k (whole mem off, p) = Ok (s1, p1)"
      "fold_res (parse_part mem reflection) ks (s1, p1) = Ok (s', p')"
    using Cons.prems(1) by (auto simp: bind_res_Ok_iff)
  have s1: "s1 = whole mem (k + 8)" "dxil_blob p1 =
    (if part_id mem k = Some (if reflection then ShaderStatistics else DXIL) \<and> \<not> dxbc_binary p
     then program_bitcode mem k else dxil_blob p)"
    using parse_part_reads [OF assms 1(1)] Cons.prems(2) by simp_all
  have "\<not> dxbc_binary p1" using parse_part_frame(1) [OF 1(1)] Cons.prems(3) by simp
  then show ?case
    using Cons.IH [of "k + 8" p1] 1(2) s1 Cons.prems(2,3) by (auto split: list.splits)
qed

lemma parse_container_reads:
  assumes mem: "length mem < 2 ^ 63" and run: "parse_container mem reflection p = Ok p'"
  obtains off s1 p1 s2 where
    "fold_res (scan_part mem) (part_table mem) (whole mem off, p) = Ok (s1, p1)"
    "fold_res (parse_part mem reflection) (part_table mem) (s1, p1) = Ok (s2, p')"
proof -
  have init: "MemoryStream (Some 0) (length mem) = whole mem 0" by (simp add: MemoryStream_def whole_def)
  have n: "part_count (ContainerHeader_of_bytes (take 32 mem)) = word_at mem 28"
    by (simp add: ContainerHeader_of_bytes_def field_def word_at_def drop_take)
  obtain parts s0 s1 p1 s2 where 1: "32 \<le> length mem" "read_u32s mem (word_at mem 28) (whole mem 32) = Ok (parts, s0)"
    "fold_res (scan_part mem) parts (s0, p) = Ok (s1, p1)" "fold_res (parse_part mem reflection) parts (s1, p1) = Ok (s2, p')"
    using run unfolding parse_container_def Let_def init
    by (auto simp: whole_read_struct [OF mem] n bind_res_Ok_iff split: if_splits)
  have "parts = part_table mem" "s0 = whole mem (32 + 4 * word_at mem 28)"
    using whole_read_words [OF mem 1(1,2)] by (simp_all add: part_table_def)
  then show ?thesis using 1(3,4) that by blast
qed

section \<open>Properties of the container parser\<close>

text \<open>
  C1. Memory safety for arbitrary input: on any byte sequence (of a size a C++ object can
  have) \<open>parse_container\<close> never reads outside the buffer, never dereferences null and
  ends; when it accepts, every name and export it publishes is a zero-terminated string
  inside the buffer and every non-null payload lies inside it.
\<close>

theorem parse_container_memory_safe:
  assumes "length mem < 2 ^ 63"
  shows "safe (parse_container mem reflection new_parser) (parser_ok mem)"
  by (rule parse_container_safe [OF assms]) (simp add: parser_ok_def new_parser_def)

theorem parse_container_memory_safe_witness:
  "length (encode_container [(RuntimeData, [1, 2, 3])]) < 2 ^ 63 \<and>
   safe (parse_container (encode_container [(RuntimeData, [1, 2, 3])]) False new_parser)
     (parser_ok (encode_container [(RuntimeData, [1, 2, 3])]))"
proof -
  have h: "length (encode_container [(RuntimeData, [1, 2, 3])]) < 2 ^ 63"
    by (simp add: length_encode_container)
  show ?thesis using h parse_container_memory_safe [OF h] by blast
qed

text \<open>
  C2. Round trip: a container laid out by the format's rules, with one DXIL part holding a
  bitcode and any parts around it that the parser ignores, parses to exactly that bitcode
  and nothing else.
\<close>

theorem parse_container_roundtrip:
  assumes "length (encode_container (as @ (DXIL, encode_program bitcode) # bs)) < 4294967296"
    and "\<forall>pt \<in> set (as @ bs). ignored_part (fst pt)"
  shows "parse_container (encode_container (as @ (DXIL, encode_program bitcode) # bs)) False new_parser =
    Ok (new_parser\<lparr>dxil_blob := bitcode\<rparr>)"
proof -
  let ?pts = "as @ (DXIL, encode_program bitcode) # bs"
  let ?m = "encode_container ?pts"
  let ?g = "\<lambda>pt p. if fst pt = DXIL then p\<lparr>dxil_blob := bitcode\<rparr> else (p :: DXILContainerParser)"
  have no: "\<not> (\<exists>pt \<in> set ?pts. fst pt = SHDR \<or> fst pt = SHEX)"
    using assms(2) by (auto simp: ignored_part_def)
  have step: "parse_part ?m False (length pre) (whole ?m off, p) =
      Ok (whole ?m (length pre + 8), ?g pt p) \<and> \<not> dxbc_binary (?g pt p)"
    if "pt \<in> set ?pts" "?m = pre @ encode_part pt @ suf" "\<not> dxbc_binary p" for pt pre suf off p
  proof (cases "fst pt = DXIL")
    case True
    then have "pt = (DXIL, encode_program bitcode)"
      using that(1) assms(2) by (auto simp: ignored_part_def)
    with parse_part_dxil [OF _ assms(1), of pre bitcode suf p off] that show ?thesis by auto
  next
    case False
    then have "ignored_part (fst pt)" using that(1) assms(2) by auto
    with parse_part_ignored [OF that(2) assms(1)] that(3) False show ?thesis by auto
  qed
  have keep: "\<forall>pt \<in> set xs. ignored_part (fst pt) \<Longrightarrow> fold ?g xs p = p" for xs p
    by (induction xs arbitrary: p) (auto simp: ignored_part_def)
  have "fold ?g as new_parser = new_parser" "fold ?g bs q = q" for q
    by (rule keep, use assms(2) in auto)+
  then have "fold ?g ?pts new_parser = new_parser\<lparr>dxil_blob := bitcode\<rparr>" by simp
  moreover have "parse_container ?m False new_parser = Ok (fold ?g ?pts new_parser)"
    by (rule parse_container_fold [OF assms(1), where P = "\<lambda>p. \<not> dxbc_binary p"])
       (use no step in \<open>auto simp: new_parser_def\<close>)
  ultimately show ?thesis by simp
qed

theorem parse_container_roundtrip_witness:
  "parse_container (encode_container
      ([(FeatureInfo, [0, 0])] @ (DXIL, encode_program [0x42, 0x43, 0xc0, 0xde]) # [(ShaderHash, [7])]))
      False new_parser = Ok (new_parser\<lparr>dxil_blob := [0x42, 0x43, 0xc0, 0xde]\<rparr>)"
  by (rule parse_container_roundtrip)
     (simp_all add: length_encode_container encode_program_def ignored_part_def)

text \<open>
  C11. Legacy code wins. An accepted container is flagged as DXBC exactly when it was before or its
  table leads to a part with the identifier \<open>SHDR\<close> or \<open>SHEX\<close>, and then no DXIL blob is extracted,
  whatever the order of the parts, because the flag is computed in a pass of its own.
\<close>

theorem parse_container_dxbc_no_blob:
  assumes "length mem < 2 ^ 63" and "parse_container mem reflection p = Ok p'"
  shows "(dxbc_binary p' \<longleftrightarrow> dxbc_binary p \<or> (\<exists>k \<in> set (part_table mem). part_id mem k \<in> {Some SHDR, Some SHEX})) \<and>
    (dxbc_binary p' \<longrightarrow> dxil_blob p' = dxil_blob p)"
proof -
  obtain off s1 p1 s2 where
    1: "fold_res (scan_part mem) (part_table mem) (whole mem off, p) = Ok (s1, p1)" and
    2: "fold_res (parse_part mem reflection) (part_table mem) (s1, p1) = Ok (s2, p')"
    using parse_container_reads [OF assms] .
  from scan_parts_read [OF assms(1) 1] parse_parts_frame [OF 2] show ?thesis by auto
qed

lemma encoded_dxbc:
  assumes "length (encode_container pts) < 4294967296" "\<exists>pt \<in> set pts. fst pt = SHDR \<or> fst pt = SHEX"
    and "\<forall>pt \<in> set pts. fst pt \<in> {SHDR, SHEX, DXIL, ShaderStatistics}"
  shows "parse_container (encode_container pts) reflection p = Ok (p\<lparr>dxbc_binary := True\<rparr>)"
proof -
  have "parse_container (encode_container pts) reflection p = Ok (fold (\<lambda>pt p. p) pts (p\<lparr>dxbc_binary := True\<rparr>))"
    by (rule parse_container_fold [OF assms(1), where P = dxbc_binary])
       (use assms in \<open>auto simp: parse_part_def whole_part_header Let_def\<close>)
  moreover have "fold (\<lambda>pt p. p) pts q = q" for q :: DXILContainerParser by (induction pts) auto
  ultimately show ?thesis by simp
qed

lemma parse_container_dxbc_no_blob_witness:
  "\<exists>p'. parse_container (encode_container [(DXIL, encode_program [1]), (SHEX, [])]) False new_parser = Ok p' \<and>
     (\<exists>k \<in> set (part_table (encode_container [(DXIL, encode_program [1]), (SHEX, [])])).
        part_id (encode_container [(DXIL, encode_program [1]), (SHEX, [])]) k \<in> {Some SHDR, Some SHEX}) \<and>
     dxil_blob p' = []"
proof -
  let ?m = "encode_container [(DXIL, encode_program [1]), (SHEX, [])]"
  have run: "parse_container ?m False new_parser = Ok (new_parser\<lparr>dxbc_binary := True\<rparr>)"
    by (rule encoded_dxbc) (simp_all add: length_encode_container encode_program_def)
  have "length ?m < 2 ^ 63" by (simp add: length_encode_container encode_program_def)
  from parse_container_dxbc_no_blob [OF this run] run show ?thesis by (simp add: new_parser_def)
qed

text \<open>
  C25. Which bitcode is extracted. From an accepted container without DXBC code, the blob is exactly
  the bitcode range of the last part of the expected identifier (\<open>DXIL\<close>, or \<open>ShaderStatistics\<close> for
  reflection), as its program header gives it, and empty when that range leaves the part; without
  such a part the blob stays as it was.
\<close>

theorem parse_container_blob_exact:
  assumes "length mem < 2 ^ 63" and "parse_container mem reflection p = Ok p'" and "\<not> dxbc_binary p'"
  shows "dxil_blob p' =
    (case filter (\<lambda>k. part_id mem k = Some (if reflection then ShaderStatistics else DXIL)) (part_table mem) of
       [] \<Rightarrow> dxil_blob p | ks \<Rightarrow> program_bitcode mem (last ks))"
proof -
  obtain off s1 p1 s2 where
    1: "fold_res (scan_part mem) (part_table mem) (whole mem off, p) = Ok (s1, p1)" and
    2: "fold_res (parse_part mem reflection) (part_table mem) (s1, p1) = Ok (s2, p')"
    using parse_container_reads [OF assms(1,2)] .
  have "\<not> dxbc_binary p1" using parse_parts_frame [OF 2] assms(3) by simp
  then have p1: "p1 = p" and s1: "\<exists>off'. s1 = whole mem off'" "\<forall>k \<in> set (part_table mem). k + 8 \<le> length mem"
    using scan_parts_read [OF assms(1) 1] by (auto split: if_splits)
  then show ?thesis using parse_parts_read [OF assms(1)] 2 \<open>\<not> dxbc_binary p1\<close> by auto
qed

lemma encoded_program:
  assumes "length (encode_container [(DXIL, encode_program bitcode)]) < 4294967296"
  shows "parse_container (encode_container [(DXIL, encode_program bitcode)]) False new_parser = Ok (new_parser\<lparr>dxil_blob := bitcode\<rparr>)"
proof -
  have "parse_container (encode_container [(DXIL, encode_program bitcode)]) False new_parser =
      Ok (fold (\<lambda>pt p. p\<lparr>dxil_blob := bitcode\<rparr>) [(DXIL, encode_program bitcode)] new_parser)"
    by (rule parse_container_fold [OF assms, where P = "\<lambda>p. \<not> dxbc_binary p"])
       (use assms in \<open>auto simp: new_parser_def intro!: parse_part_dxil\<close>)
  then show ?thesis by simp
qed

lemma parse_container_blob_exact_witness:
  "(let m = encode_container [(DXIL, encode_program [0x42, 0x43, 0xc0, 0xde])] in
    [0x42, 0x43, 0xc0, 0xde] =
    (case filter (\<lambda>k. part_id m k = Some DXIL) (part_table m) of
       [] \<Rightarrow> dxil_blob new_parser | ks \<Rightarrow> program_bitcode m (last ks)))"
proof -
  let ?m = "encode_container [(DXIL, encode_program [0x42, 0x43, 0xc0, 0xde])]"
  have len: "length ?m < 4294967296" by (simp add: length_encode_container encode_program_def)
  then have "length ?m < 2 ^ 63" by simp
  moreover have "\<not> dxbc_binary (new_parser\<lparr>dxil_blob := [0x42, 0x43, 0xc0, 0xde]\<rparr>)" by (simp add: new_parser_def)
  ultimately
  have "[0x42, 0x43, 0xc0, 0xde] = (case filter (\<lambda>k. part_id ?m k = Some DXIL) (part_table ?m) of
       [] \<Rightarrow> dxil_blob new_parser | ks \<Rightarrow> program_bitcode ?m (last ks))"
    using parse_container_blob_exact [OF _ encoded_program [OF len]] by simp
  then show ?thesis unfolding Let_def .
qed

text \<open>
  C26. A signature table cannot claim more elements than it has room for: from a fresh
  stream, \<open>parse_iosg1\<close> returns a table of \<open>n\<close> elements only if the part holds the
  8-byte header and 32 bytes for each, however the name offsets move the cursor.
\<close>

theorem parse_iosg1_element_bound:
  assumes "stream_ok mem s" "blob_offset s = 0" "parse_iosg1 mem s = Ok es"
  shows "8 + 32 * length es \<le> blob_size s"
  using parse_iosg1_bounds [OF assms(1,2)] assms(3) by simp

theorem parse_iosg1_element_bound_witness:
  "8 + 32 * length ([] :: IOElement list) \<le> blob_size (MemoryStream (Some 0) 8)"
proof (rule parse_iosg1_element_bound [of "replicate 8 0"])
  show ok: "stream_ok (replicate 8 0) (MemoryStream (Some 0) 8)"
    by (simp add: stream_ok_def MemoryStream_def)
  show "parse_iosg1 (replicate 8 0) (MemoryStream (Some 0) 8) = Ok []"
  proof -
    have "window (replicate 8 0) (MemoryStream (Some 0) 8) = replicate 8 0"
      by (simp add: window_def MemoryStream_def)
    with ok have "ms_read (replicate 8 0) (MemoryStream (Some 0) 8) 4 =
        Ok (replicate 4 0, (MemoryStream (Some 0) 8)\<lparr>blob_offset := 4\<rparr>)"
      by (simp add: ms_read_eq) (simp add: MemoryStream_def)
    moreover have "le_nat (replicate 4 0) = 0" by (simp add: numeral_eq_Suc)
    ultimately show ?thesis
      by (simp add: parse_iosg1_def read_u32_with_def read_struct_with_def ms_skip_def ms_seek_def
          MemoryStream_def)
  qed
qed (simp add: MemoryStream_def)

text \<open>
  C27. Entry point names: a name is reported as mangled exactly when it has the form
  \<open>pre?name@suffix\<close>; then demangling returns \<open>name\<close>, and otherwise the entry unchanged.
\<close>

theorem demangle_entry_point_spec:
  "(is_mangled_entry_point e \<longleftrightarrow>
     (\<exists>pre name suffix. e = pre @ chr_qm # name @ chr_at # suffix \<and>
        chr_qm \<notin> set pre \<and> chr_at \<notin> set name \<and> demangle_entry_point e = name)) \<and>
   (is_mangled_entry_point e \<or> demangle_entry_point e = e)"
  using is_mangled_iff [of e] demangle_mangled demangle_unmangled [of e] by blast

text \<open>
  C28. A bitcode range that leaves the part is not rejected: \<open>parse_dxil\<close> then succeeds
  with an empty blob, because the empty substream it is given reads zero bytes successfully.
\<close>

theorem parse_dxil_truncated_accepted:
  assumes "read_program_header mem s = Ok (h, s')"
    and "dxil_magic h = FourCC_value DXIL" "16 \<le> bitcode_offset h"
    and "blob_offset s' + bitcode_offset h + bitcode_size h < 2 ^ 64"
    and "blob_size s' < blob_offset s' + (bitcode_offset h - 16) + bitcode_size h"
  shows "parse_dxil mem s p = Ok (p\<lparr>dxil_blob := []\<rparr>)"
proof -
  have "sz_sub (sz_add (blob_offset s') (bitcode_offset h)) DxilMagicPad =
      blob_offset s' + (bitcode_offset h - 16)"
    using assms(3,4) by (simp add: DxilMagicPad_def)
  then have "create_substream_bitcode_size s' (sz_sub (sz_add (blob_offset s') (bitcode_offset h)) DxilMagicPad)
      (bitcode_size h) = MemoryStream None 0"
    using assms(3-5) by (simp add: create_substream_bitcode_size_def)
  moreover have "ms_read mem (MemoryStream None 0) 0 = Ok ([], MemoryStream None 0)"
    by (simp add: ms_read_def load_bytes_def MemoryStream_def)
  ultimately show ?thesis
    using assms(1-3) by (simp add: parse_dxil_def Let_def DxilMagicPad_def) (simp add: MemoryStream_def)
qed

definition truncated_program :: "u8 list" where
  "truncated_program = le_bytes 4 0 @ le_bytes 4 0 @ le_bytes 4 (FourCC_value DXIL) @ le_bytes 4 0 @
     le_bytes 4 16 @ le_bytes 4 100"

theorem parse_dxil_truncated_accepted_witness:
  "parse_dxil truncated_program (MemoryStream (Some 0) 24) new_parser = Ok (new_parser\<lparr>dxil_blob := []\<rparr>)"
proof (rule parse_dxil_truncated_accepted)
  have len: "length truncated_program = 24" by (simp add: truncated_program_def)
  then show "read_program_header truncated_program (MemoryStream (Some 0) 24) =
      Ok (ProgramHeader_of_bytes truncated_program, (MemoryStream (Some 0) 24)\<lparr>blob_offset := 24\<rparr>)"
    by (subst read_struct_fresh) simp_all
qed (simp_all add: truncated_program_def ProgramHeader_of_bytes_def field_def le_nat_bytes
      FourCC_value_less MemoryStream_def)

text \<open>
  C29. A root-signature payload whose range leaves the raw-bytes buffer, by its start or only by its
  end, is not rejected either: the record is published with a null payload and a positive payload
  size.
\<close>

theorem parse_root_signature_null_payload:
  assumes "read_name mem b s = Ok (name, s1)" "read_u32 mem s1 = Ok (byte_offset, s2)"
    and "read_u32 mem s2 = Ok (byte_size, s3)"
    and "blob_size (raw_bytes b) < byte_offset + byte_size" "0 < byte_size" "byte_size < 2 ^ 32" "byte_offset < 2 ^ 32"
  shows "\<exists>e. parse_root_signature mem b k s = Ok e \<and> payload e = None \<and> payload_size e = byte_size"
proof -
  have "create_substream (raw_bytes b) byte_offset byte_size = MemoryStream None 0"
    using assms(4,6,7) by (simp add: create_substream_def)
  moreover have "ms_map_read (MemoryStream None 0) byte_size = (None, MemoryStream None 0)"
    using assms(5,6) by (simp add: ms_map_read_def MemoryStream_def)
  ultimately show ?thesis using assms(1-3) by (simp add: parse_root_signature_def)
qed

definition root_sig_record :: "u8 list" where
  "root_sig_record = le_bytes 4 0 @ le_bytes 4 0 @ le_bytes 4 5 @ [0]"

theorem parse_root_signature_null_payload_witness:
  "\<exists>e. parse_root_signature root_sig_record
      (empty_buffers\<lparr>string_buffer := MemoryStream (Some 12) 1, raw_bytes := MemoryStream (Some 0) 3\<rparr>) GlobalRootSignature
      (MemoryStream (Some 0) 12) = Ok e \<and> payload e = None \<and> payload_size e = 5"
proof (rule parse_root_signature_null_payload)
  let ?s = "MemoryStream (Some 0) 12"
  have ok: "stream_ok root_sig_record (?s\<lparr>blob_offset := k\<rparr>)" if "k \<le> 12" for k
    using that by (simp add: stream_ok_def MemoryStream_def root_sig_record_def)
  have win: "window root_sig_record (?s\<lparr>blob_offset := k\<rparr>) = le_bytes 4 0 @ le_bytes 4 0 @ le_bytes 4 5" for k
    by (simp add: window_def MemoryStream_def root_sig_record_def)
  have rd: "read_u32 root_sig_record (?s\<lparr>blob_offset := k\<rparr>) =
      Ok (le_nat (take 4 (drop k (le_bytes 4 0 @ le_bytes 4 0 @ le_bytes 4 5))), ?s\<lparr>blob_offset := k + 4\<rparr>)"
    if "k \<le> 8" for k
    using that ok [of k]
    by (simp add: read_u32_with_def read_struct_with_def ms_read_eq win) (simp add: MemoryStream_def)
  have s0: "?s = ?s\<lparr>blob_offset := 0\<rparr>" by (simp add: MemoryStream_def)
  have "stream_ok root_sig_record (MemoryStream (Some 12) 1)"
    by (simp add: stream_ok_def MemoryStream_def root_sig_record_def)
  moreover have "window root_sig_record (MemoryStream (Some 12) 1) = [0]"
    by (simp add: window_def MemoryStream_def root_sig_record_def)
  moreover have "create_substream_from (MemoryStream (Some 12) 1) 0 = MemoryStream (Some 12) 1"
    by (simp add: create_substream_from_def MemoryStream_def ptr_add_def)
  ultimately have "ms_map_string_absolute root_sig_record (MemoryStream (Some 12) 1) 0 = Ok (Some 12)"
    by (simp add: ms_map_string_absolute_def ms_map_string_iterate_eq Let_def)
       (simp add: MemoryStream_def ptr_add_def)
  then show "read_name root_sig_record (empty_buffers\<lparr>string_buffer := MemoryStream (Some 12) 1, raw_bytes := MemoryStream (Some 0) 3\<rparr>) ?s =
      Ok (Some 12, ?s\<lparr>blob_offset := 4\<rparr>)"
    by (subst s0) (simp add: read_name_def rd le_nat_bytes)
  show "read_u32 root_sig_record (?s\<lparr>blob_offset := 4\<rparr>) = Ok (0, ?s\<lparr>blob_offset := 8\<rparr>)"
    "read_u32 root_sig_record (?s\<lparr>blob_offset := 8\<rparr>) = Ok (5, ?s\<lparr>blob_offset := 12\<rparr>)"
    by (simp_all add: rd le_nat_bytes)
qed (simp_all add: empty_buffers_def MemoryStream_def)

end
