(* ===== verification/Ir_Operation.thy ===== *)
theory Ir_Operation
  imports Prelude
begin

text \<open>
  \<open>ir.hpp\<close>, \<open>struct Operation\<close>: one SPIR-V instruction of the structurizer's IR. Its
  argument vector has small-size optimisation and keeps one literal bit per argument,
  packed in 32-bit words behind the argument slots. The model keeps the storage as the
  code lays it out (slots, then mask words, with whatever an uninitialised block holds)
  and proves it refines a plain list of \<open>(value, is_literal)\<close> pairs.
\<close>

section \<open>Storage\<close>

definition get_literal_word_count :: "nat \<Rightarrow> nat" where
  "get_literal_word_count count = u32_of (count + 31) div 32"

definition InlineArguments :: nat where
  "InlineArguments = 7"

text \<open>
  \<open>arguments\<close> is the block the pointer of that name designates: \<open>argument_capacity\<close>
  slots followed by the literal mask. The opcode and the ids are numbers. Counts and capacities
  are 32-bit in the code: the model keeps them as numbers and wraps every sum and product.
\<close>

record Operation =
  op :: nat
  op_id :: u32
  op_type_id :: u32
  op_flags :: u8
  arguments :: "u32 list"
  argument_count :: nat
  argument_capacity :: nat

text \<open>A block of memory fresh from its allocator: \<open>junk\<close> is what it happens to hold.\<close>

definition fresh_block :: "(nat \<Rightarrow> u32) \<Rightarrow> nat \<Rightarrow> u32 list" where
  "fresh_block junk n = map junk [0..<n]"

definition Operation_init :: "(nat \<Rightarrow> u32) \<Rightarrow> nat \<Rightarrow> u32 \<Rightarrow> u32 \<Rightarrow> Operation" where
  "Operation_init junk opc i t =
     \<lparr>op = opc, op_id = i, op_type_id = t, op_flags = 0,
      arguments = fresh_block junk (InlineArguments + get_literal_word_count InlineArguments),
      argument_count = 0, argument_capacity = InlineArguments\<rparr>"

text \<open>\<open>memcpy(dst + d, src + s, n)\<close> between two blocks, in words.\<close>

definition copy_words :: "u32 list \<Rightarrow> nat \<Rightarrow> u32 list \<Rightarrow> nat \<Rightarrow> nat \<Rightarrow> u32 list res" where
  "copy_words dst d src s n =
     (if d + n \<le> length dst \<and> s + n \<le> length src
      then Ok (take d dst @ take n (drop s src) @ drop (d + n) dst)
      else Fault Out_Of_Bounds)"

definition reserve_arguments :: "(nat \<Rightarrow> u32) \<Rightarrow> nat \<Rightarrow> Operation \<Rightarrow> Operation res" where
  "reserve_arguments junk count s =
     (if count \<le> argument_capacity s then Ok s
      else
        let literal_word_count = get_literal_word_count count;
            new_values = fresh_block junk (count + literal_word_count)
        in
        bind_res (copy_words new_values 0 (arguments s) 0 (argument_count s)) (\<lambda>new_values.
        bind_res (copy_words new_values count (replicate literal_word_count 0) 0 literal_word_count) (\<lambda>new_values.
        bind_res (copy_words new_values count (arguments s) (argument_capacity s)
                    (get_literal_word_count (argument_count s))) (\<lambda>new_values.
        Ok (s\<lparr>arguments := new_values, argument_capacity := count\<rparr>)))))"

definition store_word :: "u32 list \<Rightarrow> nat \<Rightarrow> u32 \<Rightarrow> u32 list res" where
  "store_word ws i v = (if i < length ws then Ok (ws[i := v]) else Fault Out_Of_Bounds)"

definition add_argument :: "(nat \<Rightarrow> u32) \<Rightarrow> u32 \<Rightarrow> bool \<Rightarrow> Operation \<Rightarrow> Operation res" where
  "add_argument junk v literal s =
     bind_res (if argument_count s = argument_capacity s
               then reserve_arguments junk (u32_of (argument_capacity s * 2)) s else Ok s) (\<lambda>s.
     let i = argument_count s;
         literal_bit = push_bit (i mod 32) (1 :: u32);
         mask_at = argument_capacity s + i div 32
     in
     bind_res (store_word (arguments s) i v) (\<lambda>ws.
     bind_res (index ws mask_at) (\<lambda>literal_word.
     bind_res (store_word ws mask_at
                (if literal then literal_word OR literal_bit
                 else literal_word AND NOT literal_bit)) (\<lambda>ws.
     Ok (s\<lparr>arguments := ws, argument_count := u32_of (i + 1)\<rparr>)))))"

definition add_id :: "(nat \<Rightarrow> u32) \<Rightarrow> u32 \<Rightarrow> Operation \<Rightarrow> Operation res" where
  "add_id junk arg s = (if arg = 0 then Fault Assertion_Failed else add_argument junk arg False s)"

definition add_literal :: "(nat \<Rightarrow> u32) \<Rightarrow> u32 \<Rightarrow> Operation \<Rightarrow> Operation res" where
  "add_literal junk lit s = add_argument junk lit True s"

definition add_ids :: "(nat \<Rightarrow> u32) \<Rightarrow> u32 list \<Rightarrow> Operation \<Rightarrow> Operation res" where
  "add_ids junk as s =
     bind_res (reserve_arguments junk (u32_of (argument_count s + u32_of (length as))) s) (fold_res (add_id junk) as)"

definition num_arguments :: "Operation \<Rightarrow> nat" where
  "num_arguments s = argument_count s"

definition argument :: "Operation \<Rightarrow> nat \<Rightarrow> u32 res" where
  "argument s i = (if i < argument_count s then index (arguments s) i else Fault Assertion_Failed)"

definition argument_is_literal :: "Operation \<Rightarrow> nat \<Rightarrow> bool res" where
  "argument_is_literal s i =
     (if i < argument_count s
      then bind_res (index (arguments s) (argument_capacity s + i div 32))
             (\<lambda>w. Ok (w AND push_bit (i mod 32) 1 \<noteq> 0))
      else Fault Assertion_Failed)"

definition set_argument :: "nat \<Rightarrow> u32 \<Rightarrow> Operation \<Rightarrow> Operation res" where
  "set_argument i v s =
     bind_res (argument_is_literal s i) (\<lambda>lit.
     if lit \<or> v \<noteq> 0 then bind_res (store_word (arguments s) i v) (\<lambda>ws. Ok (s\<lparr>arguments := ws\<rparr>))
     else Fault Assertion_Failed)"

definition copy_from :: "(nat \<Rightarrow> u32) \<Rightarrow> Operation \<Rightarrow> Operation \<Rightarrow> Operation res" where
  "copy_from junk other s =
     (let s = s\<lparr>op := op other, op_id := op_id other, op_type_id := op_type_id other,
               op_flags := op_flags other\<rparr> in
      bind_res (reserve_arguments junk (argument_count other) s) (\<lambda>s.
      let s = s\<lparr>argument_count := argument_count other\<rparr> in
      bind_res (copy_words (arguments s) 0 (arguments other) 0 (argument_count s)) (\<lambda>ws.
      bind_res (copy_words ws (argument_capacity s) (arguments other) (argument_capacity other)
                  (get_literal_word_count (argument_count s))) (\<lambda>ws.
      Ok (s\<lparr>arguments := ws\<rparr>)))))"

section \<open>The contract: a list of tagged arguments\<close>

type_synonym tagged = "u32 \<times> bool"

text \<open>
  An operation with fewer than \<open>argument_limit\<close> arguments can take another one: twice its capacity,
  and the mask for it, are still counted in 32 bits.
\<close>

definition argument_limit :: nat where
  "argument_limit = 2 ^ 31 - 16"

definition op_ok :: "Operation \<Rightarrow> bool" where
  "op_ok s \<longleftrightarrow> InlineArguments \<le> argument_capacity s \<and> argument_count s \<le> argument_capacity s \<and>
     argument_capacity s \<le> 2 * argument_limit \<and>
     length (arguments s) = argument_capacity s + get_literal_word_count (argument_capacity s)"

definition literal_at :: "Operation \<Rightarrow> nat \<Rightarrow> bool" where
  "literal_at s i = bit (arguments s ! (argument_capacity s + i div 32)) (i mod 32)"

definition args_of :: "Operation \<Rightarrow> tagged list" where
  "args_of s = map (\<lambda>i. (arguments s ! i, literal_at s i)) [0..<argument_count s]"

text \<open>
  The interface the rest of the compiler uses: append, read, overwrite, reserve, copy.
\<close>

locale argument_vector =
  fixes invar :: "'o \<Rightarrow> bool" and abs :: "'o \<Rightarrow> tagged list"
    and add :: "u32 \<Rightarrow> bool \<Rightarrow> 'o \<Rightarrow> 'o res"
    and reserve :: "nat \<Rightarrow> 'o \<Rightarrow> 'o res"
    and copy :: "'o \<Rightarrow> 'o \<Rightarrow> 'o res"
    and limit :: nat
  assumes add_spec: "invar s \<Longrightarrow> length (abs s) < limit \<Longrightarrow> \<exists>s'. add v l s = Ok s' \<and> invar s' \<and> abs s' = abs s @ [(v, l)]"
    and reserve_spec: "invar s \<Longrightarrow> n \<le> limit \<Longrightarrow> \<exists>s'. reserve n s = Ok s' \<and> invar s' \<and> abs s' = abs s"
    and copy_spec: "invar t \<Longrightarrow> invar s \<Longrightarrow> \<exists>s'. copy t s = Ok s' \<and> invar s' \<and> abs s' = abs t"
begin

lemma add_many:
  "invar s \<Longrightarrow> length (abs s) + length vs \<le> limit \<Longrightarrow>
   \<exists>s'. fold_res (\<lambda>(v, l). add v l) vs s = Ok s' \<and> invar s' \<and> abs s' = abs s @ vs"
proof (induction vs arbitrary: s)
  case Nil
  then show ?case by simp
next
  case (Cons vl vs)
  obtain v l where vl: "vl = (v, l)" by fastforce
  obtain s' where s': "add v l s = Ok s'" "invar s'" "abs s' = abs s @ [(v, l)]"
    using add_spec [OF Cons.prems(1)] Cons.prems(2) by auto
  have "length (abs s') + length vs \<le> limit" using s'(3) Cons.prems(2) by simp
  from Cons.IH [OF s'(2) this] s' vl show ?case by auto
qed

lemma reserve_then_add:
  assumes "invar s" "n \<le> limit" "length (abs s) + length vs \<le> limit"
  shows "\<exists>s'. bind_res (reserve n s) (fold_res (\<lambda>(v, l). add v l) vs) = Ok s' \<and> invar s' \<and>
    abs s' = abs s @ vs"
proof -
  obtain t where t: "reserve n s = Ok t" "invar t" "abs t = abs s"
    using reserve_spec [OF assms(1,2)] by blast
  from add_many [OF t(2), of vs] t assms(3) show ?thesis by simp
qed

lemma copy_then_add:
  assumes "invar t" "invar s" "length (abs t) + length vs \<le> limit"
  shows "\<exists>s'. bind_res (copy t s) (fold_res (\<lambda>(v, l). add v l) vs) = Ok s' \<and> invar s' \<and>
    abs s' = abs t @ vs"
proof -
  obtain u where u: "copy t s = Ok u" "invar u" "abs u = abs t"
    using copy_spec [OF assms(1,2)] by blast
  from add_many [OF u(2), of vs] u assms(3) show ?thesis by simp
qed

end

section \<open>Arithmetic of the mask\<close>

lemma u32_of_id: "n < 2 ^ 32 \<Longrightarrow> u32_of n = n"
  by (simp add: u32_of_def)

lemma lwc_exact: "n \<le> 2 * argument_limit \<Longrightarrow> get_literal_word_count n = (n + 31) div 32"
  by (simp add: get_literal_word_count_def u32_of_id argument_limit_def)

lemma lwc_mono:
  "a \<le> b \<Longrightarrow> b \<le> 2 * argument_limit \<Longrightarrow> get_literal_word_count a \<le> get_literal_word_count b"
  by (simp add: lwc_exact div_le_mono)

lemma lwc_covers: "i < n \<Longrightarrow> n \<le> 2 * argument_limit \<Longrightarrow> i div 32 < get_literal_word_count n"
proof -
  assume "i < n" and n: "n \<le> 2 * argument_limit"
  then have "i div 32 \<le> (n - 1) div 32" by (simp add: div_le_mono)
  also have "\<dots> < (n + 31) div 32"
  proof -
    have "n + 31 = (n - 1) + 32" using \<open>i < n\<close> by simp
    then have "(n + 31) div 32 = (n - 1) div 32 + 1" by (metis div_add_self2 zero_neq_numeral)
    then show ?thesis by simp
  qed
  finally show ?thesis by (simp add: lwc_exact [OF n])
qed

lemma bit_set_mask:
  fixes w :: u32
  assumes "k < 32" "j < 32"
  shows "bit (w OR 2 ^ k) j \<longleftrightarrow> bit w j \<or> j = k"
    and "bit (w AND NOT (2 ^ k)) j \<longleftrightarrow> bit w j \<and> j \<noteq> k"
  using assms by (auto simp: bit_simps)

lemma mask_test: "k < 32 \<Longrightarrow> (w :: u32) AND 2 ^ k \<noteq> 0 \<longleftrightarrow> bit w k"
  by (simp add: and_exp_eq_0_iff_not_bit)

lemma copy_words_Ok:
  "d + n \<le> length dst \<Longrightarrow> s + n \<le> length src \<Longrightarrow>
   copy_words dst d src s n = Ok (take d dst @ take n (drop s src) @ drop (d + n) dst)"
  by (simp add: copy_words_def)

lemma length_fresh_block [simp]: "length (fresh_block junk n) = n"
  by (simp add: fresh_block_def)

section \<open>The implementation meets the contract\<close>

lemma Operation_init_ok: "op_ok (Operation_init junk opc i t)" "args_of (Operation_init junk opc i t) = []"
  by (simp_all add: op_ok_def Operation_init_def args_of_def argument_limit_def InlineArguments_def)

lemma length_args_of [simp]: "length (args_of s) = argument_count s"
  by (simp add: args_of_def)

lemma args_of_eqI:
  assumes "argument_count s = argument_count t"
    and "\<And>i. i < argument_count t \<Longrightarrow> arguments s ! i = arguments t ! i"
    and "\<And>i. i < argument_count t \<Longrightarrow> literal_at s i = literal_at t i"
  shows "args_of s = args_of t"
  using assms by (simp add: args_of_def)

lemma reserve_arguments_spec:
  assumes ok: "op_ok s" and n: "n \<le> 2 * argument_limit"
  shows "\<exists>s'. reserve_arguments junk n s = Ok s' \<and> op_ok s' \<and> args_of s' = args_of s \<and>
    argument_capacity s' = max n (argument_capacity s) \<and> argument_count s' = argument_count s \<and>
    op s' = op s \<and> op_id s' = op_id s \<and> op_type_id s' = op_type_id s \<and> op_flags s' = op_flags s"
proof (cases "n \<le> argument_capacity s")
  case True
  then show ?thesis using ok by (simp add: reserve_arguments_def max_def)
next
  case False
  let ?c = "argument_count s" and ?w = "get_literal_word_count n" and ?k = "get_literal_word_count (argument_count s)"
  let ?b = "fresh_block junk (n + ?w)"
  have c: "?c \<le> argument_capacity s" "?c \<le> n" "?k \<le> ?w" "?k \<le> get_literal_word_count (argument_capacity s)"
    using ok n False by (auto simp: op_ok_def intro!: lwc_mono)
  have len: "length (arguments s) = argument_capacity s + get_literal_word_count (argument_capacity s)"
    using ok by (simp add: op_ok_def)
  define b1 where "b1 = take 0 ?b @ take ?c (drop 0 (arguments s)) @ drop (0 + ?c) ?b"
  have l1: "length b1 = n + ?w" using c len by (simp add: b1_def)
  define b2 where "b2 = take n b1 @ take ?w (drop 0 (replicate ?w 0)) @ drop (n + ?w) b1"
  have l2: "length b2 = n + ?w" using l1 by (simp add: b2_def)
  define b3 where "b3 = take n b2 @ take ?k (drop (argument_capacity s) (arguments s)) @ drop (n + ?k) b2"
  have l3: "length b3 = n + ?w" using l2 c len by (simp add: b3_def)
  let ?s = "s\<lparr>arguments := b3, argument_capacity := n\<rparr>"
  have run: "reserve_arguments junk n s = Ok ?s"
    using False c len l1 l2
    by (simp add: reserve_arguments_def Let_def copy_words_Ok b3_def b2_def b1_def)
  have "b3 ! i = arguments s ! i" if "i < ?c" for i
    using that c l1 l2 len by (simp add: b3_def b2_def b1_def nth_append)
  moreover have "literal_at ?s i = literal_at s i" if "i < ?c" for i
  proof -
    have "i div 32 < ?k" by (rule lwc_covers) (use that c(2) n in simp_all)
    then have "b3 ! (n + i div 32) = arguments s ! (argument_capacity s + i div 32)"
      using c l2 len by (simp add: b3_def nth_append)
    then show ?thesis by (simp add: literal_at_def)
  qed
  ultimately have "args_of ?s = args_of s" by (intro args_of_eqI) auto
  moreover have "op_ok ?s" using ok n False c l3 by (simp add: op_ok_def)
  ultimately show ?thesis using run False by (simp add: max_def)
qed

lemma add_argument_room:
  assumes ok: "op_ok s" and room: "argument_count s < argument_capacity s"
  shows "\<exists>s'. add_argument junk v literal s = Ok s' \<and> op_ok s' \<and> args_of s' = args_of s @ [(v, literal)]"
proof -
  let ?i = "argument_count s" and ?cap = "argument_capacity s"
  let ?m = "?cap + ?i div 32" and ?bit = "push_bit (?i mod 32) (1 :: u32)"
  have len: "length (arguments s) = ?cap + get_literal_word_count ?cap" and cap: "?cap \<le> 2 * argument_limit"
    using ok by (simp_all add: op_ok_def)
  have m: "?m < length (arguments s)" using lwc_covers [OF room cap] len by simp
  have step: "u32_of (?i + 1) = ?i + 1" using room cap by (simp add: u32_of_id argument_limit_def)
  let ?ws = "(arguments s)[?i := v]"
  have wm: "?ws ! ?m = arguments s ! ?m" using room by simp
  define nw where "nw = (if literal then arguments s ! ?m OR ?bit else arguments s ! ?m AND NOT ?bit)"
  let ?s = "s\<lparr>arguments := ?ws[?m := nw], argument_count := ?i + 1\<rparr>"
  have run: "add_argument junk v literal s = Ok ?s"
    using room m wm step by (simp add: add_argument_def Let_def store_word_def index_def nw_def)
  have old: "literal_at ?s j = literal_at s j" if "j < ?i" for j
  proof (cases "j div 32 = ?i div 32")
    case True
    then have "j mod 32 \<noteq> ?i mod 32" using that by (metis div_mod_decomp nat_neq_iff)
    then show ?thesis using True m room
      by (simp add: literal_at_def nw_def bit_set_mask)
  next
    case False
    then show ?thesis using room m by (simp add: literal_at_def)
  qed
  have new: "literal_at ?s ?i = literal"
    using m by (simp add: literal_at_def nw_def bit_set_mask)
  have vals: "arguments ?s ! j = (if j = ?i then v else arguments s ! j)" if "j \<le> ?i" for j
    using that room m by (simp add: nth_list_update)
  have "args_of ?s = args_of s @ [(v, literal)]"
    using old new vals by (simp add: args_of_def)
  moreover have "op_ok ?s" using ok room by (simp add: op_ok_def)
  ultimately show ?thesis using run by blast
qed

lemma add_argument_spec:
  assumes ok: "op_ok s" and small: "argument_count s < argument_limit"
  shows "\<exists>s'. add_argument junk v literal s = Ok s' \<and> op_ok s' \<and> args_of s' = args_of s @ [(v, literal)]"
proof (cases "argument_count s = argument_capacity s")
  case False
  then show ?thesis using add_argument_room [OF ok] ok by (simp add: op_ok_def)
next
  case True
  have twice: "u32_of (argument_capacity s * 2) = argument_capacity s * 2"
    using True small by (simp add: u32_of_id argument_limit_def)
  obtain t where t: "reserve_arguments junk (argument_capacity s * 2) s = Ok t" "op_ok t"
      "args_of t = args_of s" "argument_capacity t = max (argument_capacity s * 2) (argument_capacity s)"
      "argument_count t = argument_count s"
    using reserve_arguments_spec [OF ok, of "argument_capacity s * 2"] True small by auto
  have "0 < argument_capacity s" using ok by (simp add: op_ok_def InlineArguments_def)
  then have room: "argument_count t < argument_capacity t" using t True by simp
  have "add_argument junk v literal s = add_argument junk v literal t"
    using True t room by (simp add: add_argument_def twice)
  with add_argument_room [OF t(2) room] t(3) show ?thesis by simp
qed

lemma copy_from_spec:
  assumes okt: "op_ok t" and oks: "op_ok s"
  shows "\<exists>s'. copy_from junk t s = Ok s' \<and> op_ok s' \<and> args_of s' = args_of t \<and>
    op s' = op t \<and> op_id s' = op_id t \<and> op_type_id s' = op_type_id t \<and> op_flags s' = op_flags t"
proof -
  let ?s0 = "s\<lparr>op := op t, op_id := op_id t, op_type_id := op_type_id t, op_flags := op_flags t\<rparr>"
  let ?c = "argument_count t"
  have "op_ok ?s0" using oks by (simp add: op_ok_def)
  then obtain u where u: "reserve_arguments junk ?c ?s0 = Ok u" "op_ok u"
      "argument_capacity u = max ?c (argument_capacity ?s0)"
      "op u = op t" "op_id u = op_id t" "op_type_id u = op_type_id t" "op_flags u = op_flags t"
    using reserve_arguments_spec [of ?s0 ?c junk] okt by (auto simp: op_ok_def)
  let ?k = "get_literal_word_count ?c"
  have cu: "?c \<le> argument_capacity u" using u by simp
  have lu: "length (arguments u) = argument_capacity u + get_literal_word_count (argument_capacity u)"
    and lt: "length (arguments t) = argument_capacity t + get_literal_word_count (argument_capacity t)"
    and ct: "?c \<le> argument_capacity t"
    using u(2) okt by (auto simp: op_ok_def)
  have k: "?k \<le> get_literal_word_count (argument_capacity u)" "?k \<le> get_literal_word_count (argument_capacity t)"
    using cu ct u(2) okt by (auto simp: op_ok_def intro!: lwc_mono)
  define w1 where "w1 = take 0 (arguments u) @ take ?c (drop 0 (arguments t)) @ drop (0 + ?c) (arguments u)"
  have l1: "length w1 = length (arguments u)" using cu lu ct lt by (simp add: w1_def)
  define w2 where "w2 = take (argument_capacity u) w1 @ take ?k (drop (argument_capacity t) (arguments t)) @
      drop (argument_capacity u + ?k) w1"
  have l2: "length w2 = length (arguments u)" using l1 lu lt k by (simp add: w2_def)
  let ?s = "u\<lparr>argument_count := ?c, arguments := w2\<rparr>"
  have run: "copy_from junk t s = Ok ?s"
    using u(1) cu lu ct lt k l1
    by (simp add: copy_from_def Let_def copy_words_Ok w1_def [symmetric, simplified]
        w2_def [symmetric, simplified])
  have "w2 ! i = arguments t ! i" if "i < ?c" for i
    using that cu ct l1 lu lt by (simp add: w2_def w1_def nth_append)
  moreover have "literal_at ?s i = literal_at t i" if "i < ?c" for i
  proof -
    have "i div 32 < ?k" by (rule lwc_covers) (use that okt in \<open>simp_all add: op_ok_def\<close>)
    then have "w2 ! (argument_capacity u + i div 32) = arguments t ! (argument_capacity t + i div 32)"
      using k l1 lu lt by (simp add: w2_def nth_append)
    then show ?thesis by (simp add: literal_at_def)
  qed
  ultimately have "args_of ?s = args_of t" by (intro args_of_eqI) auto
  moreover have "op_ok ?s" using u(2) cu l2 by (simp add: op_ok_def)
  ultimately show ?thesis using run u by auto
qed

interpretation opv: argument_vector op_ok args_of "add_argument junk" "reserve_arguments junk" "copy_from junk"
    argument_limit
  for junk
proof
  fix s t :: Operation and v l n
  assume s: "op_ok s"
  show "\<exists>s'. add_argument junk v l s = Ok s' \<and> op_ok s' \<and> args_of s' = args_of s @ [(v, l)]"
    if "length (args_of s) < argument_limit"
    by (rule add_argument_spec [OF s]) (use that in simp)
  show "\<exists>s'. reserve_arguments junk n s = Ok s' \<and> op_ok s' \<and> args_of s' = args_of s" if "n \<le> argument_limit"
    using reserve_arguments_spec [OF s, of n] that by auto
  assume t: "op_ok t"
  show "\<exists>s'. copy_from junk t s = Ok s' \<and> op_ok s' \<and> args_of s' = args_of t"
    using copy_from_spec [OF t s] by blast
qed

section \<open>Reading and overwriting\<close>

lemma argument_spec:
  "op_ok s \<Longrightarrow> i < argument_count s \<Longrightarrow> argument s i = Ok (fst (args_of s ! i))"
  by (simp add: argument_def args_of_def op_ok_def)

lemma argument_is_literal_spec:
  assumes "op_ok s" "i < argument_count s"
  shows "argument_is_literal s i = Ok (snd (args_of s ! i))"
proof -
  have "i < argument_capacity s" using assms by (simp add: op_ok_def)
  then have "argument_capacity s + i div 32 < length (arguments s)"
    using assms(1) lwc_covers [of i "argument_capacity s"] by (simp add: op_ok_def)
  then show ?thesis
    using assms by (simp add: argument_is_literal_def args_of_def literal_at_def mask_test)
qed

lemma set_argument_spec:
  assumes ok: "op_ok s" and i: "i < argument_count s" and v: "snd (args_of s ! i) \<or> v \<noteq> 0"
  shows "\<exists>s'. set_argument i v s = Ok s' \<and> op_ok s' \<and>
    args_of s' = (args_of s)[i := (v, snd (args_of s ! i))]"
proof -
  let ?s = "s\<lparr>arguments := (arguments s)[i := v]\<rparr>"
  have i': "i < argument_capacity s" using ok i by (simp add: op_ok_def)
  then have "i < length (arguments s)" using ok by (simp add: op_ok_def)
  then have run: "set_argument i v s = Ok ?s"
    using v by (auto simp: set_argument_def argument_is_literal_spec [OF ok i] store_word_def)
  have lit: "literal_at ?s j = literal_at s j" for j
    using i' by (simp add: literal_at_def)
  have "args_of ?s = (args_of s)[i := (v, snd (args_of s ! i))]"
    using i \<open>i < length (arguments s)\<close>
    by (intro nth_equalityI) (auto simp: args_of_def lit nth_list_update)
  moreover have "op_ok ?s" using ok by (simp add: op_ok_def)
  ultimately show ?thesis using run by blast
qed

lemma fold_add_id:
  assumes "0 \<notin> set vs"
  shows "fold_res (add_id junk) vs s = fold_res (\<lambda>(v, l). add_argument junk v l) (map (\<lambda>v. (v, False)) vs) s"
  using assms by (induction vs arbitrary: s) (auto simp: add_id_def bind_res_def split: res.splits)

section \<open>Properties\<close>

text \<open>
  C4. Functional refinement of the packed argument vector: starting from any operation in
  a good state, \<open>add_ids\<close> appends exactly the given ids, all tagged non-literal, in order,
  across any number of reallocations and whatever the fresh memory held, as long as the
  operation ends up with at most \<open>argument_limit\<close> arguments, so that no 32-bit count wraps.
\<close>

theorem add_ids_appends:
  assumes "op_ok s" "0 \<notin> set vs" "num_arguments s + length vs \<le> argument_limit"
  shows "\<exists>s'. add_ids junk vs s = Ok s' \<and> op_ok s' \<and> args_of s' = args_of s @ map (\<lambda>v. (v, False)) vs"
proof -
  let ?n = "argument_count s + length vs"
  have n: "?n \<le> argument_limit" using assms(3) by (simp add: num_arguments_def)
  have w: "u32_of (argument_count s + u32_of (length vs)) = ?n" using n by (simp add: u32_of_id argument_limit_def)
  have "bind_res (reserve_arguments junk ?n s) (fold_res (add_id junk) vs) =
      bind_res (reserve_arguments junk ?n s)
        (fold_res (\<lambda>(v, l). add_argument junk v l) (map (\<lambda>v. (v, False)) vs))"
    by (rule bind_res_cong [OF refl]) (rule fold_add_id [OF assms(2)])
  with opv.reserve_then_add [OF assms(1) n, of "map (\<lambda>v. (v, False)) vs"] n show ?thesis by (simp add: add_ids_def w)
qed

theorem add_ids_appends_witness:
  "\<exists>s'. add_ids (\<lambda>_. 0xdead) [1, 2, 3, 4, 5, 6, 7, 8, 9] (Operation_init (\<lambda>_. 0xbeef) 61 1 2) = Ok s' \<and>
    op_ok s' \<and> args_of s' = args_of (Operation_init (\<lambda>_. 0xbeef) 61 1 2) @
      map (\<lambda>v. (v, False)) [1, 2, 3, 4, 5, 6, 7, 8, 9]"
  by (rule add_ids_appends [OF Operation_init_ok(1)]) (simp_all add: num_arguments_def Operation_init_def argument_limit_def)

text \<open>
  C5. Appending one argument is exact on both views: the value and its literal tag are
  added at the end, no other argument or tag changes (in particular the other 31 tags that
  share its mask word), and the reads \<open>argument\<close> and \<open>argument_is_literal\<close> return them. This holds
  up to \<open>argument_limit\<close> arguments; an operation that is full at a capacity of at least \<open>2 ^ 31\<close>
  doubles it to a wrapped count that is no larger, reserves nothing, and the new argument lands in
  the literal mask of the older ones.
\<close>

theorem add_argument_reads_back:
  assumes "op_ok s" "num_arguments s < argument_limit"
  shows "\<exists>s'. add_argument junk v literal s = Ok s' \<and> op_ok s' \<and>
    num_arguments s' = num_arguments s + 1 \<and>
    argument s' (num_arguments s) = Ok v \<and>
    argument_is_literal s' (num_arguments s) = Ok literal \<and>
    (\<forall>i < num_arguments s. argument s' i = argument s i \<and>
       argument_is_literal s' i = argument_is_literal s i)"
proof -
  obtain s' where s': "add_argument junk v literal s = Ok s'" "op_ok s'"
      "args_of s' = args_of s @ [(v, literal)]"
    using add_argument_spec [OF assms(1), of junk v literal] assms(2) by (auto simp: num_arguments_def)
  have n: "argument_count s' = argument_count s + 1"
    using arg_cong [OF s'(3), of length] by simp
  have old: "args_of s' ! i = args_of s ! i" if "i < argument_count s" for i
    using that by (simp add: s'(3) nth_append)
  have new: "args_of s' ! argument_count s = (v, literal)" by (simp add: s'(3) nth_append)
  show ?thesis
    using s' n assms(1) old new
    by (auto simp: num_arguments_def argument_spec argument_is_literal_spec)
qed

theorem add_argument_reads_back_witness:
  "\<exists>s'. add_argument (\<lambda>_. 0) 42 True (Operation_init (\<lambda>_. 0xffffffff) 61 1 2) = Ok s' \<and> op_ok s' \<and>
    num_arguments s' = num_arguments (Operation_init (\<lambda>_. 0xffffffff) 61 1 2) + 1 \<and>
    argument s' (num_arguments (Operation_init (\<lambda>_. 0xffffffff) 61 1 2)) = Ok 42 \<and>
    argument_is_literal s' (num_arguments (Operation_init (\<lambda>_. 0xffffffff) 61 1 2)) = Ok True \<and>
    (\<forall>i < num_arguments (Operation_init (\<lambda>_. 0xffffffff) 61 1 2).
       argument s' i = argument (Operation_init (\<lambda>_. 0xffffffff) 61 1 2) i \<and>
       argument_is_literal s' i = argument_is_literal (Operation_init (\<lambda>_. 0xffffffff) 61 1 2) i)"
  by (rule add_argument_reads_back [OF Operation_init_ok(1)])
    (simp_all add: num_arguments_def Operation_init_def argument_limit_def)

text \<open>
  C8. Copying an operation (copy constructor and assignment) reproduces the opcode, the
  ids, the flags and every tagged argument, whatever capacities the two storages have and
  whatever the target held before, and the copy takes any further arguments, literal or not, up
  to \<open>argument_limit\<close>.
\<close>

theorem copy_from_then_add:
  assumes "op_ok t" "op_ok s" "num_arguments t + length vs \<le> argument_limit"
  shows "\<exists>s'. copy_from junk t s = Ok s' \<and> op_ok s' \<and> args_of s' = args_of t \<and>
      op s' = op t \<and> op_id s' = op_id t \<and> op_type_id s' = op_type_id t \<and> op_flags s' = op_flags t \<and>
      (\<exists>s''. fold_res (\<lambda>(v, l). add_argument junk v l) vs s' = Ok s'' \<and> args_of s'' = args_of t @ vs)"
proof -
  obtain s' where s': "copy_from junk t s = Ok s'" "op_ok s'" "args_of s' = args_of t"
      "op s' = op t" "op_id s' = op_id t" "op_type_id s' = op_type_id t" "op_flags s' = op_flags t"
    using copy_from_spec [OF assms(1,2)] by blast
  then show ?thesis
    using opv.add_many [OF s'(2), of vs junk] assms(3) by (auto simp: num_arguments_def)
qed

theorem copy_from_then_add_witness:
  "\<exists>s'. copy_from (\<lambda>_. 9) (Operation_init (\<lambda>_. 1) 61 1 2) (Operation_init (\<lambda>_. 3) 12 3 4) = Ok s' \<and>
      op_ok s' \<and> args_of s' = args_of (Operation_init (\<lambda>_. 1) 61 1 2) \<and>
      op s' = op (Operation_init (\<lambda>_. 1) 61 1 2) \<and> op_id s' = op_id (Operation_init (\<lambda>_. 1) 61 1 2) \<and>
      op_type_id s' = op_type_id (Operation_init (\<lambda>_. 1) 61 1 2) \<and>
      op_flags s' = op_flags (Operation_init (\<lambda>_. 1) 61 1 2) \<and>
      (\<exists>s''. fold_res (\<lambda>(v, l). add_argument (\<lambda>_. 9) v l) [(5, False), (7, True)] s' = Ok s'' \<and>
         args_of s'' = args_of (Operation_init (\<lambda>_. 1) 61 1 2) @ [(5, False), (7, True)])"
  by (rule copy_from_then_add [OF Operation_init_ok(1) Operation_init_ok(1)])
    (simp_all add: num_arguments_def Operation_init_def argument_limit_def)

end
