(* ===== verification/Bc_Types.thy ===== *)
theory Bc_Types
  imports Prelude
begin

text \<open>
  \<open>bc/type.cpp\<close>, \<open>bc/type.hpp\<close>: the types of the bitcode reader. A \<open>Type *\<close> is an index
  into the objects the context has constructed, so that pointer equality is equality of
  indices; the context's \<open>type_cache\<close> holds the types the \<open>get\<close> functions hand out again.
  The theory proves that the linear-search cache is a hash-consing table: the \<open>get\<close>
  functions return the same pointer for the same request, never disturb an existing type,
  and two handles are equal exactly when the types they denote are structurally equal.
\<close>

section \<open>Data\<close>

type_synonym ty = nat

datatype TypeID = Unknown | VoidTyID | HalfTyID | FloatTyID | DoubleTyID | IntegerTyID
  | PointerTyID | ArrayTyID | StructTyID | FunctionTyID | LabelTyID | VectorTyID
  | MetadataTyID | OpaqueTyID

text \<open>
  A member of a struct or function type may be the null pointer, since the parser stores
  the result of \<open>get_type\<close> there without a test.
\<close>

datatype Type =
    BasicType TypeID
  | IntegerType nat
  | PointerType ty nat
  | ArrayType ty nat
  | StructType "ty option list" string
  | VectorType nat ty
  | FunctionType ty "ty option list"

fun getTypeID :: "Type \<Rightarrow> TypeID" where
  "getTypeID (BasicType i) = i"
| "getTypeID (IntegerType _) = IntegerTyID"
| "getTypeID (PointerType _ _) = PointerTyID"
| "getTypeID (ArrayType _ _) = ArrayTyID"
| "getTypeID (StructType _ _) = StructTyID"
| "getTypeID (VectorType _ _) = VectorTyID"
| "getTypeID (FunctionType _ _) = FunctionTyID"

text \<open>\<open>LLVMContext\<close>: every type ever constructed, in order, and the cache.\<close>

record LLVMContext =
  type_heap :: "Type list"
  type_cache :: "ty list"

definition empty_context :: LLVMContext where
  "empty_context = \<lparr>type_heap = [], type_cache = []\<rparr>"

definition type_at :: "'a LLVMContext_scheme \<Rightarrow> ty \<Rightarrow> Type" where
  "type_at c t = (if t < length (type_heap c) then type_heap c ! t else BasicType Unknown)"

definition type_id_of :: "'a LLVMContext_scheme \<Rightarrow> ty \<Rightarrow> TypeID" where
  "type_id_of c t = getTypeID (type_at c t)"

section \<open>Construction and lookup\<close>

definition construct_type :: "Type \<Rightarrow> 'a LLVMContext_scheme \<Rightarrow> ty \<times> 'a LLVMContext_scheme" where
  "construct_type x c = (length (type_heap c), c\<lparr>type_heap := type_heap c @ [x]\<rparr>)"

text \<open>
  The loop every \<open>get\<close> runs: the first cached type that passes its test, or a new one
  that is pushed to the cache.
\<close>

definition intern :: "(Type \<Rightarrow> bool) \<Rightarrow> Type \<Rightarrow> 'a LLVMContext_scheme \<Rightarrow> ty \<times> 'a LLVMContext_scheme" where
  "intern p x c =
     (case find (\<lambda>t. p (type_at c t)) (type_cache c) of
        Some t \<Rightarrow> (t, c)
      | None \<Rightarrow> (case construct_type x c of (t, c) \<Rightarrow> (t, c\<lparr>type_cache := type_cache c @ [t]\<rparr>)))"

definition is_pointer_to :: "ty \<Rightarrow> nat \<Rightarrow> Type \<Rightarrow> bool" where
  "is_pointer_to pointee addr_space x =
     (getTypeID x = PointerTyID \<and>
      (case x of PointerType e a \<Rightarrow> a = addr_space \<and> e = pointee | _ \<Rightarrow> False))"

definition PointerType_get :: "ty \<Rightarrow> nat \<Rightarrow> 'a LLVMContext_scheme \<Rightarrow> ty \<times> 'a LLVMContext_scheme" where
  "PointerType_get pointee addr_space = intern (is_pointer_to pointee addr_space) (PointerType pointee addr_space)"

definition is_array_of :: "ty \<Rightarrow> nat \<Rightarrow> Type \<Rightarrow> bool" where
  "is_array_of element n x =
     (getTypeID x = ArrayTyID \<and>
      (case x of ArrayType e m \<Rightarrow> m = n \<and> e = element | _ \<Rightarrow> False))"

definition ArrayType_get :: "ty \<Rightarrow> nat \<Rightarrow> 'a LLVMContext_scheme \<Rightarrow> ty \<times> 'a LLVMContext_scheme" where
  "ArrayType_get element n = intern (is_array_of element n) (ArrayType element n)"

definition is_vector_of :: "nat \<Rightarrow> ty \<Rightarrow> Type \<Rightarrow> bool" where
  "is_vector_of n element x =
     (getTypeID x = VectorTyID \<and>
      (case x of VectorType m e \<Rightarrow> m = n \<and> e = element | _ \<Rightarrow> False))"

definition VectorType_get :: "nat \<Rightarrow> ty \<Rightarrow> 'a LLVMContext_scheme \<Rightarrow> ty \<times> 'a LLVMContext_scheme" where
  "VectorType_get n element = intern (is_vector_of n element) (VectorType n element)"

text \<open>The member-by-member comparison of \<open>StructType::get\<close>, with its early exit.\<close>

fun members_equal :: "ty option list \<Rightarrow> ty option list \<Rightarrow> bool" where
  "members_equal (a # as) (b # bs) = (if a \<noteq> b then False else members_equal as bs)"
| "members_equal _ _ = True"

definition is_struct_of :: "ty option list \<Rightarrow> string \<Rightarrow> Type \<Rightarrow> bool" where
  "is_struct_of member_types name x =
     (getTypeID x = StructTyID \<and>
      (case x of
         StructType ms nm \<Rightarrow> length ms = length member_types \<and> members_equal member_types ms \<and> nm = name
       | _ \<Rightarrow> False))"

definition StructType_get ::
  "ty option list \<Rightarrow> string \<Rightarrow> 'a LLVMContext_scheme \<Rightarrow> ty \<times> 'a LLVMContext_scheme" where
  "StructType_get member_types name = intern (is_struct_of member_types name) (StructType member_types name)"

definition is_int_of :: "nat \<Rightarrow> Type \<Rightarrow> bool" where
  "is_int_of width x =
     (getTypeID x = IntegerTyID \<and> (case x of IntegerType w \<Rightarrow> w = width | _ \<Rightarrow> False))"

definition getIntTy :: "nat \<Rightarrow> 'a LLVMContext_scheme \<Rightarrow> ty \<times> 'a LLVMContext_scheme" where
  "getIntTy width = intern (is_int_of width) (IntegerType width)"

definition has_type_id :: "TypeID \<Rightarrow> Type \<Rightarrow> bool" where
  "has_type_id i x = (getTypeID x = i)"

definition getTy :: "TypeID \<Rightarrow> 'a LLVMContext_scheme \<Rightarrow> ty \<times> 'a LLVMContext_scheme" where
  "getTy i = intern (has_type_id i) (BasicType i)"

abbreviation "getVoidTy \<equiv> getTy VoidTyID"
abbreviation "getHalfTy \<equiv> getTy HalfTyID"
abbreviation "getFloatTy \<equiv> getTy FloatTyID"
abbreviation "getDoubleTy \<equiv> getTy DoubleTyID"
abbreviation "getLabelTy \<equiv> getTy LabelTyID"
abbreviation "getOpaqueTy \<equiv> getTy OpaqueTyID"
abbreviation "getMetadataTy \<equiv> getTy MetadataTyID"
abbreviation "getInt1Ty \<equiv> getIntTy 1"
abbreviation "getInt16Ty \<equiv> getIntTy 16"
abbreviation "getInt32Ty \<equiv> getIntTy 32"
abbreviation "getInt64Ty \<equiv> getIntTy 64"

section \<open>Accessors\<close>

text \<open>
  The accessors of the base class assert the type id and cast; a wrong id stops the program.
\<close>

definition isIntegerTy :: "'a LLVMContext_scheme \<Rightarrow> ty \<Rightarrow> bool" where
  "isIntegerTy c t = (type_id_of c t = IntegerTyID)"

definition isFloatingPointTy :: "'a LLVMContext_scheme \<Rightarrow> ty \<Rightarrow> bool" where
  "isFloatingPointTy c t =
     (type_id_of c t = HalfTyID \<or> type_id_of c t = FloatTyID \<or> type_id_of c t = DoubleTyID)"

definition getAddressSpace :: "'a LLVMContext_scheme \<Rightarrow> ty \<Rightarrow> nat" where
  "getAddressSpace c t = (case type_at c t of PointerType _ a \<Rightarrow> a | _ \<Rightarrow> 0)"

definition getPointerElementType :: "'a LLVMContext_scheme \<Rightarrow> ty \<Rightarrow> ty res" where
  "getPointerElementType c t =
     (case type_at c t of PointerType e _ \<Rightarrow> Ok e | _ \<Rightarrow> Fault Assertion_Failed)"

definition getArrayNumElements :: "'a LLVMContext_scheme \<Rightarrow> ty \<Rightarrow> nat res" where
  "getArrayNumElements c t =
     (case type_at c t of ArrayType _ n \<Rightarrow> Ok n | _ \<Rightarrow> Fault Assertion_Failed)"

definition getArrayElementType :: "'a LLVMContext_scheme \<Rightarrow> ty \<Rightarrow> ty res" where
  "getArrayElementType c t =
     (case type_at c t of ArrayType e _ \<Rightarrow> Ok e | _ \<Rightarrow> Fault Assertion_Failed)"

definition getVectorNumElements :: "'a LLVMContext_scheme \<Rightarrow> ty \<Rightarrow> nat res" where
  "getVectorNumElements c t =
     (case type_at c t of VectorType n _ \<Rightarrow> Ok n | _ \<Rightarrow> Fault Assertion_Failed)"

definition getVectorElementType :: "'a LLVMContext_scheme \<Rightarrow> ty \<Rightarrow> ty res" where
  "getVectorElementType c t =
     (case type_at c t of VectorType _ e \<Rightarrow> Ok e | _ \<Rightarrow> Fault Assertion_Failed)"

definition getStructNumElements :: "'a LLVMContext_scheme \<Rightarrow> ty \<Rightarrow> nat res" where
  "getStructNumElements c t =
     (case type_at c t of StructType ms _ \<Rightarrow> Ok (length ms) | _ \<Rightarrow> Fault Assertion_Failed)"

definition getStructElementType :: "'a LLVMContext_scheme \<Rightarrow> ty \<Rightarrow> nat \<Rightarrow> ty option res" where
  "getStructElementType c t n =
     (case type_at c t of
        StructType ms _ \<Rightarrow> if n < length ms then Ok (ms ! n) else Fault Assertion_Failed
      | _ \<Rightarrow> Fault Assertion_Failed)"

definition getIntegerBitWidth :: "'a LLVMContext_scheme \<Rightarrow> ty \<Rightarrow> nat res" where
  "getIntegerBitWidth c t =
     (case type_at c t of IntegerType w \<Rightarrow> Ok w | _ \<Rightarrow> Fault Assertion_Failed)"

definition getScalarType :: "'a LLVMContext_scheme \<Rightarrow> ty \<Rightarrow> ty" where
  "getScalarType c t = (case type_at c t of VectorType _ e \<Rightarrow> e | _ \<Rightarrow> t)"

definition getNumParams :: "'a LLVMContext_scheme \<Rightarrow> ty \<Rightarrow> nat" where
  "getNumParams c t = (case type_at c t of FunctionType _ ps \<Rightarrow> length ps | _ \<Rightarrow> 0)"

definition getParamType :: "'a LLVMContext_scheme \<Rightarrow> ty \<Rightarrow> nat \<Rightarrow> ty option res" where
  "getParamType c t i =
     (case type_at c t of
        FunctionType _ ps \<Rightarrow> if i < length ps then Ok (ps ! i) else Fault Assertion_Failed
      | _ \<Rightarrow> Fault Bad_Cast)"

definition getReturnType :: "'a LLVMContext_scheme \<Rightarrow> ty \<Rightarrow> ty res" where
  "getReturnType c t = (case type_at c t of FunctionType r _ \<Rightarrow> Ok r | _ \<Rightarrow> Fault Bad_Cast)"

text \<open>\<open>cast<T>(Type *)\<close>: a null pointer is dereferenced, a wrong id terminates.\<close>

definition cast_type :: "TypeID \<Rightarrow> 'a LLVMContext_scheme \<Rightarrow> ty option \<Rightarrow> ty res" where
  "cast_type i c p = bind_res (deref p) (\<lambda>t. if type_id_of c t = i then Ok t else Fault Bad_Cast)"

definition dyn_cast_type :: "TypeID \<Rightarrow> 'a LLVMContext_scheme \<Rightarrow> ty option \<Rightarrow> ty option" where
  "dyn_cast_type i c p =
     (case p of None \<Rightarrow> None | Some t \<Rightarrow> if type_id_of c t = i then Some t else None)"

definition isa_type :: "TypeID \<Rightarrow> 'a LLVMContext_scheme \<Rightarrow> ty option \<Rightarrow> bool res" where
  "isa_type i c p = bind_res (deref p) (\<lambda>t. Ok (type_id_of c t = i))"

section \<open>Well-formed contexts\<close>

fun refs :: "Type \<Rightarrow> ty set" where
  "refs (BasicType _) = {}"
| "refs (IntegerType _) = {}"
| "refs (PointerType e _) = {e}"
| "refs (ArrayType e _) = {e}"
| "refs (StructType ms _) = {t. Some t \<in> set ms}"
| "refs (VectorType _ e) = {e}"
| "refs (FunctionType r ps) = insert r {t. Some t \<in> set ps}"

definition simple_id :: "TypeID \<Rightarrow> bool" where
  "simple_id i = (i \<in> {VoidTyID, HalfTyID, FloatTyID, DoubleTyID, LabelTyID, MetadataTyID, OpaqueTyID})"

fun proper :: "Type \<Rightarrow> bool" where
  "proper (BasicType i) = simple_id i"
| "proper _ = True"

definition is_function :: "Type \<Rightarrow> bool" where
  "is_function x = (getTypeID x = FunctionTyID)"

text \<open>
  The invariant: every type refers to older ones, basic types carry a basic id, and the
  cache holds every type that is not a function type, once per description.
\<close>

definition types_ok :: "'a LLVMContext_scheme \<Rightarrow> bool" where
  "types_ok c \<longleftrightarrow>
     (\<forall>t < length (type_heap c). proper (type_heap c ! t) \<and> (\<forall>u \<in> refs (type_heap c ! t). u < t)) \<and>
     set (type_cache c) = {t. t < length (type_heap c) \<and> \<not> is_function (type_heap c ! t)} \<and>
     distinct (map ((!) (type_heap c)) (type_cache c))"

definition type_ref :: "'a LLVMContext_scheme \<Rightarrow> ty \<Rightarrow> bool" where
  "type_ref c t \<longleftrightarrow> t < length (type_heap c)"

definition type_ref_opt :: "'a LLVMContext_scheme \<Rightarrow> ty option \<Rightarrow> bool" where
  "type_ref_opt c p \<longleftrightarrow> (\<forall>t. p = Some t \<longrightarrow> type_ref c t)"

text \<open>\<open>c'\<close> extends \<open>c\<close>: no existing type moved or changed.\<close>

definition extends :: "'a LLVMContext_scheme \<Rightarrow> 'b LLVMContext_scheme \<Rightarrow> bool" where
  "extends c c' \<longleftrightarrow> (\<exists>xs. type_heap c' = type_heap c @ xs)"

lemma extends_refl [simp, intro]: "extends c c"
  by (simp add: extends_def)

lemma extends_trans [trans]: "extends a b \<Longrightarrow> extends b c \<Longrightarrow> extends a c"
  by (auto simp: extends_def)

lemma extends_type_at [simp]: "extends c c' \<Longrightarrow> type_ref c t \<Longrightarrow> type_at c' t = type_at c t"
  by (auto simp: extends_def type_at_def type_ref_def nth_append)

lemma extends_type_ref: "extends c c' \<Longrightarrow> type_ref c t \<Longrightarrow> type_ref c' t"
  by (auto simp: extends_def type_ref_def)

lemma extends_type_ref_opt: "extends c c' \<Longrightarrow> type_ref_opt c p \<Longrightarrow> type_ref_opt c' p"
  by (auto simp: type_ref_opt_def intro: extends_type_ref)

lemma type_ref_opt_simps [simp]: "type_ref_opt c None" "type_ref_opt c (Some t) = type_ref c t"
  by (simp_all add: type_ref_opt_def)

lemma types_okD:
  assumes "types_ok c" "type_ref c t"
  shows "proper (type_at c t)" "u \<in> refs (type_at c t) \<Longrightarrow> u < t"
    "u \<in> refs (type_at c t) \<Longrightarrow> type_ref c u"
  using assms by (fastforce simp: types_ok_def type_ref_def type_at_def)+

lemma empty_context_ok [simp]: "types_ok empty_context"
  by (simp add: types_ok_def empty_context_def)

lemma find_cache:
  assumes ok: "types_ok c" and p: "\<And>y. proper y \<Longrightarrow> p y \<longleftrightarrow> y = x" and nf: "\<not> is_function x"
  shows "find (\<lambda>t. p (type_at c t)) (type_cache c) = Some t \<longleftrightarrow> type_ref c t \<and> type_at c t = x"
proof -
  have in_cache: "t \<in> set (type_cache c) \<longleftrightarrow> type_ref c t \<and> \<not> is_function (type_at c t)" for t
    using ok by (auto simp: types_ok_def type_ref_def type_at_def)
  have pp: "t \<in> set (type_cache c) \<Longrightarrow> p (type_at c t) \<longleftrightarrow> type_at c t = x" for t
    using in_cache types_okD(1) [OF ok] p by blast
  have eq: "type_at c t = type_heap c ! t" if "t \<in> set (type_cache c)" for t
    using that in_cache by (simp add: type_ref_def type_at_def)
  have inj: "t = u" if "t \<in> set (type_cache c)" "u \<in> set (type_cache c)" "type_at c t = type_at c u" for t u
    using ok that eq by (auto simp: types_ok_def distinct_map inj_on_def)
  show ?thesis
  proof
    assume "find (\<lambda>t. p (type_at c t)) (type_cache c) = Some t"
    then have "t \<in> set (type_cache c)" "p (type_at c t)"
      by (auto simp: find_Some_iff)
    then show "type_ref c t \<and> type_at c t = x" using pp in_cache by blast
  next
    assume t: "type_ref c t \<and> type_at c t = x"
    then have tc: "t \<in> set (type_cache c)" "p (type_at c t)" using in_cache nf pp by auto
    then obtain u where u: "find (\<lambda>t. p (type_at c t)) (type_cache c) = Some u"
      by (metis (no_types, lifting) find_None_iff option.exhaust)
    then have "u \<in> set (type_cache c)" "p (type_at c u)" by (auto simp: find_Some_iff)
    then show "find (\<lambda>t. p (type_at c t)) (type_cache c) = Some t"
      using u inj [of u t] tc t pp by auto
  qed
qed

lemma map_nth_append:
  "set ts \<subseteq> {..<length xs} \<Longrightarrow> map ((!) (xs @ ys)) ts = map ((!) xs) ts"
  by (auto simp: nth_append)

lemma cache_below: "types_ok c \<Longrightarrow> set (type_cache c) \<subseteq> {..<length (type_heap c)}"
  by (auto simp: types_ok_def)

lemma cache_distinct_append:
  assumes "types_ok c"
  shows "distinct (map ((!) (type_heap c @ ys)) (type_cache c))"
  unfolding map_nth_append [OF cache_below [OF assms]] using assms by (simp add: types_ok_def)

lemma construct_type_ok:
  assumes ok: "types_ok c" and px: "proper x" and rx: "\<forall>u \<in> refs x. type_ref c u"
    and run: "construct_type x c = (t, c')"
  shows "type_at c' t = x" "type_ref c' t" "extends c c'" "is_function x \<Longrightarrow> types_ok c'"
proof -
  have c': "c' = c\<lparr>type_heap := type_heap c @ [x]\<rparr>" and t: "t = length (type_heap c)"
    using run by (auto simp: construct_type_def)
  then show "type_at c' t = x" "type_ref c' t" "extends c c'"
    by (auto simp: type_at_def type_ref_def extends_def)
  show "types_ok c'" if "is_function x"
    using ok px rx that c' cache_distinct_append [OF ok]
    by (auto simp: types_ok_def type_ref_def nth_append less_Suc_eq)
qed

section \<open>Interning\<close>

text \<open>
  The contract of a \<open>get\<close> function for a description \<open>x\<close>: the search predicate recognises
  exactly \<open>x\<close>. What the clients rely on follows from it once for all of them.
\<close>

locale type_interner =
  fixes p :: "Type \<Rightarrow> bool" and x :: Type
  assumes match: "proper y \<Longrightarrow> p y \<longleftrightarrow> y = x"
    and not_function: "\<not> is_function x"
    and proper_x: "proper x"
begin

lemma found: "types_ok c \<Longrightarrow> find (\<lambda>t. p (type_at c t)) (type_cache c) = Some t \<longleftrightarrow>
    type_ref c t \<and> type_at c t = x"
  by (rule find_cache) (auto simp: match not_function)

lemma intern_ok:
  assumes ok: "types_ok c" and rx: "\<forall>u \<in> refs x. type_ref c u" and run: "intern p x c = (t, c')"
  shows "types_ok c'" "extends c c'" "type_ref c' t" "type_at c' t = x"
proof -
  have "types_ok c' \<and> extends c c' \<and> type_ref c' t \<and> type_at c' t = x"
  proof (cases "find (\<lambda>t. p (type_at c t)) (type_cache c)")
    case (Some u)
    then have "t = u" "c' = c" using run by (auto simp: intern_def)
    moreover have "type_ref c u \<and> type_at c u = x" using found [OF ok] Some by blast
    ultimately show ?thesis using ok by simp
  next
    case None
    then have fresh: "\<forall>u. type_ref c u \<longrightarrow> type_at c u \<noteq> x" using found [OF ok] by fastforce
    then have "x \<notin> (!) (type_heap c) ` set (type_cache c)"
      using ok by (auto simp: types_ok_def type_ref_def type_at_def)
    moreover have c': "c' = c\<lparr>type_heap := type_heap c @ [x], type_cache := type_cache c @ [length (type_heap c)]\<rparr>"
      and t: "t = length (type_heap c)"
      using None run by (auto simp: intern_def construct_type_def)
    moreover note cache_distinct_append [OF ok]
    ultimately have "types_ok c'"
      using ok rx proper_x not_function
      by (auto simp: types_ok_def type_ref_def less_Suc_eq nth_append)
    then show ?thesis using c' t by (simp add: extends_def type_ref_def type_at_def)
  qed
  then show "types_ok c'" "extends c c'" "type_ref c' t" "type_at c' t = x" by auto
qed

lemma intern_idem:
  assumes "types_ok c" "\<forall>u \<in> refs x. type_ref c u" "intern p x c = (t, c')"
    and later: "types_ok c''" "extends c' c''"
  shows "intern p x c'' = (t, c'')"
proof -
  have "type_ref c' t" "type_at c' t = x" using intern_ok [OF assms(1-3)] by auto
  then have "type_ref c'' t \<and> type_at c'' t = x"
    using later by (auto intro: extends_type_ref)
  then have "find (\<lambda>t. p (type_at c'' t)) (type_cache c'') = Some t"
    using found [OF later(1)] by blast
  then show ?thesis by (simp add: intern_def)
qed

end

lemma members_equal_iff: "length as = length bs \<Longrightarrow> members_equal as bs \<longleftrightarrow> as = bs"
  by (induction as bs rule: list_induct2) auto

interpretation ptr: type_interner "is_pointer_to e a" "PointerType e a" for e a
  by unfold_locales (auto simp: is_pointer_to_def is_function_def split: Type.splits)

interpretation arr: type_interner "is_array_of e n" "ArrayType e n" for e n
  by unfold_locales (auto simp: is_array_of_def is_function_def split: Type.splits)

interpretation vec: type_interner "is_vector_of n e" "VectorType n e" for n e
  by unfold_locales (auto simp: is_vector_of_def is_function_def split: Type.splits)

interpretation str: type_interner "is_struct_of ms nm" "StructType ms nm" for ms nm
  by unfold_locales (auto simp: is_struct_of_def is_function_def members_equal_iff split: Type.splits)

interpretation int: type_interner "is_int_of w" "IntegerType w" for w
  by unfold_locales (auto simp: is_int_of_def is_function_def split: Type.splits)

lemma has_type_id_match:
  assumes "simple_id i"
  shows "type_interner (has_type_id i) (BasicType i)"
proof
  fix y assume "proper y"
  then show "has_type_id i y \<longleftrightarrow> y = BasicType i"
    using assms by (cases y) (auto simp: has_type_id_def simple_id_def)
qed (use assms in \<open>auto simp: is_function_def simple_id_def\<close>)

interpretation void: type_interner "has_type_id VoidTyID" "BasicType VoidTyID"
  by (rule has_type_id_match) (simp add: simple_id_def)

interpretation label: type_interner "has_type_id LabelTyID" "BasicType LabelTyID"
  by (rule has_type_id_match) (simp add: simple_id_def)

interpretation half: type_interner "has_type_id HalfTyID" "BasicType HalfTyID"
  by (rule has_type_id_match) (simp add: simple_id_def)

interpretation float: type_interner "has_type_id FloatTyID" "BasicType FloatTyID"
  by (rule has_type_id_match) (simp add: simple_id_def)

interpretation double: type_interner "has_type_id DoubleTyID" "BasicType DoubleTyID"
  by (rule has_type_id_match) (simp add: simple_id_def)

interpretation metadata: type_interner "has_type_id MetadataTyID" "BasicType MetadataTyID"
  by (rule has_type_id_match) (simp add: simple_id_def)

interpretation opaque: type_interner "has_type_id OpaqueTyID" "BasicType OpaqueTyID"
  by (rule has_type_id_match) (simp add: simple_id_def)

lemma getTy_ok:
  assumes "simple_id i" "types_ok c" "getTy i c = (t, c')"
  shows "types_ok c'" "extends c c'" "type_ref c' t" "type_at c' t = BasicType i"
  using type_interner.intern_ok [OF has_type_id_match [OF assms(1)] assms(2)] assms(3)
  by (auto simp: getTy_def)

lemmas get_ok =
  ptr.intern_ok [folded PointerType_get_def, simplified]
  arr.intern_ok [folded ArrayType_get_def, simplified]
  vec.intern_ok [folded VectorType_get_def, simplified]
  str.intern_ok [folded StructType_get_def, simplified]
  int.intern_ok [folded getIntTy_def, simplified]

section \<open>Contexts a client can build\<close>

text \<open>
  The states of the context a client can reach: from the empty one, by asking for types
  built over types it already holds. Function types are constructed anew each time.
\<close>

inductive built :: "LLVMContext \<Rightarrow> bool" where
  empty: "built empty_context"
| basic: "built c \<Longrightarrow> simple_id i \<Longrightarrow> built (snd (getTy i c))"
| integer: "built c \<Longrightarrow> built (snd (getIntTy w c))"
| pointer: "built c \<Longrightarrow> type_ref c e \<Longrightarrow> built (snd (PointerType_get e a c))"
| array: "built c \<Longrightarrow> type_ref c e \<Longrightarrow> built (snd (ArrayType_get e n c))"
| vector: "built c \<Longrightarrow> type_ref c e \<Longrightarrow> built (snd (VectorType_get n e c))"
| struct: "built c \<Longrightarrow> \<forall>m \<in> set ms. type_ref_opt c m \<Longrightarrow> built (snd (StructType_get ms nm c))"
| func: "built c \<Longrightarrow> type_ref c r \<Longrightarrow> \<forall>m \<in> set ps. type_ref_opt c m \<Longrightarrow>
    built (snd (construct_type (FunctionType r ps) c))"

inductive_cases built_emptyE: "built empty_context"

lemma built_types_ok: "built c \<Longrightarrow> types_ok c"
proof (induction rule: built.induct)
  case (basic c i)
  then show ?case using getTy_ok [of i c] by (metis prod.collapse)
next
  case (integer c w)
  then show ?case using get_ok(17) [of c] by (metis prod.collapse)
next
  case (pointer c e a)
  then show ?case using get_ok(1) [of c e] by (metis prod.collapse)
next
  case (array c e n)
  then show ?case using get_ok(5) [of c e] by (metis prod.collapse)
next
  case (vector c e n)
  then show ?case using get_ok(9) [of c e] by (metis prod.collapse)
next
  case (struct c ms nm)
  then have "\<forall>t. Some t \<in> set ms \<longrightarrow> type_ref c t" by fastforce
  then show ?case using struct get_ok(13) [of c ms nm] by (metis prod.collapse)
next
  case (func c r ps)
  then have "\<forall>u \<in> refs (FunctionType r ps). type_ref c u" by fastforce
  then show ?case
    using func construct_type_ok(4) [of c "FunctionType r ps"]
    by (metis getTypeID.simps(7) is_function_def proper.simps(7) prod.collapse)
qed simp

section \<open>Structural equality is pointer equality\<close>

text \<open>What a handle denotes: the tree it unfolds to.\<close>

datatype shape = SBasic TypeID | SInteger nat | SPointer shape nat | SArray shape nat
  | SStruct "shape option list" string | SVector nat shape | SFunction shape "shape option list" | SBad

function shape_of :: "Type list \<Rightarrow> ty \<Rightarrow> shape" where
  "shape_of h t =
     (let sub = (\<lambda>u. if u < t then shape_of h u else SBad) in
      if t < length h then
        (case h ! t of
           BasicType i \<Rightarrow> SBasic i
         | IntegerType w \<Rightarrow> SInteger w
         | PointerType e a \<Rightarrow> SPointer (sub e) a
         | ArrayType e n \<Rightarrow> SArray (sub e) n
         | StructType ms nm \<Rightarrow> SStruct (map (map_option sub) ms) nm
         | VectorType n e \<Rightarrow> SVector n (sub e)
         | FunctionType r ps \<Rightarrow> SFunction (sub r) (map (map_option sub) ps))
      else SBad)"
  by auto
termination
  by (relation "measure snd") auto

declare shape_of.simps [simp del]

fun function_free :: "shape \<Rightarrow> bool" where
  "function_free (SPointer s _) = function_free s"
| "function_free (SArray s _) = function_free s"
| "function_free (SVector _ s) = function_free s"
| "function_free (SStruct ms _) = (\<forall>m \<in> set ms. \<forall>s \<in> set_option m. function_free s)"
| "function_free (SFunction _ _) = False"
| "function_free _ = True"

lemma map_option_sub_inj:
  assumes "map (map_option f) ms = map (map_option f) ns"
    and "\<And>a b. Some a \<in> set ms \<Longrightarrow> Some b \<in> set ns \<Longrightarrow> f a = f b \<Longrightarrow> a = b"
  shows "ms = ns"
  using assms
proof (induction ms arbitrary: ns)
  case Nil
  then show ?case by simp
next
  case (Cons m ms)
  then obtain n ns' where ns: "ns = n # ns'" "map_option f m = map_option f n"
    "map (map_option f) ms = map (map_option f) ns'" by (auto simp: Cons_eq_map_conv)
  have "m = n" using ns Cons.prems(2) by (cases m; cases n) auto
  moreover have "ms = ns'" using ns Cons.prems(2) by (intro Cons.IH) auto
  ultimately show ?case using ns by simp
qed

text \<open>Unfolding one level, for a well-formed context.\<close>

lemma shape_of_ok:
  assumes "types_ok c" "type_ref c t"
  shows "shape_of (type_heap c) t =
    (case type_at c t of
       BasicType i \<Rightarrow> SBasic i
     | IntegerType w \<Rightarrow> SInteger w
     | PointerType e a \<Rightarrow> SPointer (shape_of (type_heap c) e) a
     | ArrayType e n \<Rightarrow> SArray (shape_of (type_heap c) e) n
     | StructType ms nm \<Rightarrow> SStruct (map (map_option (shape_of (type_heap c))) ms) nm
     | VectorType n e \<Rightarrow> SVector n (shape_of (type_heap c) e)
     | FunctionType r ps \<Rightarrow> SFunction (shape_of (type_heap c) r) (map (map_option (shape_of (type_heap c))) ps))"
proof -
  have "\<forall>u \<in> refs (type_at c t). u < t" using types_okD(2) [OF assms] by blast
  moreover have "type_at c t = type_heap c ! t" "t < length (type_heap c)"
    using assms(2) by (auto simp: type_at_def type_ref_def)
  ultimately show ?thesis
    by (subst shape_of.simps)
      (auto simp: Let_def intro!: option.map_cong split: Type.splits)
qed

lemma heap_unique:
  assumes "types_ok c" "type_ref c t" "type_ref c u" "\<not> is_function (type_at c t)"
    "type_at c t = type_at c u"
  shows "t = u"
  using assms by (auto simp: types_ok_def type_ref_def type_at_def distinct_map inj_on_def)

lemma shape_of_inj:
  assumes ok: "types_ok c"
  shows "type_ref c t \<Longrightarrow> type_ref c u \<Longrightarrow> function_free (shape_of (type_heap c) t) \<Longrightarrow>
    shape_of (type_heap c) t = shape_of (type_heap c) u \<Longrightarrow> t = u"
proof (induction t arbitrary: u rule: less_induct)
  case (less t)
  let ?s = "shape_of (type_heap c)"
  note t = shape_of_ok [OF ok less.prems(1)] and u = shape_of_ok [OF ok less.prems(2)]
  have IH: "e = f" if "e \<in> refs (type_at c t)" "f \<in> refs (type_at c u)" "function_free (?s e)" "?s e = ?s f" for e f
    using that types_okD(2,3) [OF ok less.prems(1)] types_okD(3) [OF ok less.prems(2)] less.IH by metis
  have "type_at c t = type_at c u \<and> \<not> is_function (type_at c t)"
  proof (cases "type_at c t")
    case (StructType ms nm)
    then obtain ns where ns: "type_at c u = StructType ns nm" "map (map_option ?s) ms = map (map_option ?s) ns"
      using t u less.prems(4) by (auto split: Type.splits)
    have "ms = ns"
    proof (rule map_option_sub_inj [OF ns(2)])
      fix a b assume ab: "Some a \<in> set ms" "Some b \<in> set ns" "?s a = ?s b"
      have "\<forall>m \<in> set ms. \<forall>a. m = Some a \<longrightarrow> function_free (?s a)"
        using less.prems(3) t StructType by (fastforce simp: option.set_map)
      then have "function_free (?s a)" using ab by blast
      then show "a = b" using IH ab ns StructType by simp
    qed
    then show ?thesis using StructType ns by (simp add: is_function_def)
  next
    case (BasicType i)
    then show ?thesis
      using t u less.prems(4) types_okD(1) [OF ok less.prems(1)]
      by (auto simp: is_function_def simple_id_def split: Type.splits)
  qed (use t u less.prems(3,4) IH in \<open>auto simp: is_function_def split: Type.splits\<close>)
  then show ?case using heap_unique [OF ok less.prems(1,2)] by blast
qed

section \<open>Properties\<close>

text \<open>
  C9. Hash-consing: in every context a client can build with the \<open>get\<close> functions, two
  handles to types that involve no function type are the same pointer exactly when the
  types they denote are structurally equal. The parser compares types by pointer, so this
  is what makes its type checks checks of structure.
\<close>

theorem type_pointer_equality_is_structural:
  assumes "built c" "type_ref c t" "type_ref c u"
    and "function_free (shape_of (type_heap c) t)"
  shows "t = u \<longleftrightarrow> shape_of (type_heap c) t = shape_of (type_heap c) u"
  using shape_of_inj [OF built_types_ok [OF assms(1)] assms(2,3,4)] by blast

definition sample_context :: LLVMContext where
  "sample_context = snd (PointerType_get 1 0 (snd (StructType_get [Some 0, Some 0] ''pair'' (snd (getIntTy 32 empty_context)))))"

lemmas type_get_eval = PointerType_get_def StructType_get_def getIntTy_def getTy_def ArrayType_get_def
  VectorType_get_def intern_def construct_type_def empty_context_def type_at_def
  is_pointer_to_def is_struct_of_def is_int_of_def has_type_id_def is_array_of_def is_vector_of_def

lemma sample_context_eval:
  "sample_context = \<lparr>type_heap = [IntegerType 32, StructType [Some 0, Some 0] ''pair'', PointerType 1 0], type_cache = [0, 1, 2]\<rparr>"
  by (simp add: sample_context_def type_get_eval)

lemma sample_context_built: "built sample_context"
  unfolding sample_context_def
  by (intro built.intros) (simp_all add: type_ref_def type_ref_opt_def type_get_eval)

theorem type_pointer_equality_is_structural_witness:
  "(2 :: ty) = 1 \<longleftrightarrow> shape_of (type_heap sample_context) 2 = shape_of (type_heap sample_context) 1"
proof (rule type_pointer_equality_is_structural [OF sample_context_built])
  show "type_ref sample_context 2" "type_ref sample_context 1"
    by (simp_all add: type_ref_def sample_context_eval)
  show "function_free (shape_of (type_heap sample_context) 2)"
    by (simp add: sample_context_eval shape_of.simps)
qed

text \<open>
  C10. \<open>PointerType::get\<close> is stable: once a pointer type has been handed out, asking for the
  same pointee and address space in any later state of the context returns the same pointer
  and leaves the context alone; the type returned is the one asked for, and no older type
  moved.
\<close>

theorem PointerType_get_stable:
  assumes "types_ok c" "type_ref c e" "PointerType_get e a c = (t, c')"
    and "types_ok c''" "extends c' c''"
  shows "type_at c' t = PointerType e a \<and> extends c c' \<and> PointerType_get e a c'' = (t, c'')"
  using ptr.intern_ok [of c e a t c'] ptr.intern_idem [of c e a t c' c''] assms
  by (simp add: PointerType_get_def)

theorem PointerType_get_stable_witness:
  "type_at (snd (PointerType_get 0 5 sample_context)) 3 = PointerType 0 5 \<and>
   extends sample_context (snd (PointerType_get 0 5 sample_context)) \<and>
   PointerType_get 0 5 (snd (PointerType_get 0 5 sample_context)) = (3, snd (PointerType_get 0 5 sample_context))"
proof (rule PointerType_get_stable)
  show ok: "types_ok sample_context" by (rule built_types_ok [OF sample_context_built])
  show ref: "type_ref sample_context 0" by (simp add: type_ref_def sample_context_eval)
  show "PointerType_get 0 5 sample_context = (3, snd (PointerType_get 0 5 sample_context))"
    by (simp add: type_get_eval sample_context_eval)
  then show "types_ok (snd (PointerType_get 0 5 sample_context))"
    using get_ok(1) [OF ok ref] by simp
qed simp

end
