(* ===== verification/Bc_Values.thy ===== *)
theory Bc_Values
  imports Bc_Types
begin

text \<open>
  \<open>bc/value.cpp\<close>, \<open>bc/instruction.cpp\<close>, \<open>bc/function.cpp\<close>, \<open>bc/metadata.cpp\<close> and the
  casts of \<open>bc/cast.hpp\<close>: the objects a parsed module consists of. A \<open>Value *\<close> is an index
  into the values the context has constructed; operands are pointers that may be null. The
  kinds, the class hierarchy behind \<open>cast\<close> and \<open>dyn_cast\<close>, the constructors of every
  instruction, forward-reference proxies and the integer accessors of \<open>APInt\<close> are the
  source's.
\<close>

section \<open>Kinds and the class hierarchy\<close>

type_synonym vref = nat
type_synonym mdref = nat

datatype ValueKind = VK_Argument | VK_Function | VK_InstructionBase | VK_ConstantBase
  | VK_ConstantInt | VK_ConstantFP | VK_ConstantAggregateZero | VK_ConstantPointerNull
  | VK_ConstantAggregate | VK_ConstantDataArray | VK_ConstantDataVector | VK_ConstantExpr
  | VK_Undef | VK_UnaryOperator | VK_BinaryOperator | VK_Call | VK_CompareBase | VK_FCmp
  | VK_ICmp | VK_BasicBlock | VK_PHI | VK_Cast | VK_Select | VK_ExtractValue | VK_Alloca
  | VK_GetElementPtr | VK_Load | VK_Store | VK_AtomicRMW | VK_AtomicCmpXchg | VK_Return
  | VK_Unreachable | VK_Branch | VK_Switch | VK_Proxy | VK_Global | VK_ShuffleVector
  | VK_ExtractElement | VK_InsertElement | VK_CompositeConstruct

definition Constant_is_base_of :: "ValueKind \<Rightarrow> bool" where
  "Constant_is_base_of k =
     (k \<in> {VK_ConstantFP, VK_ConstantInt, VK_ConstantDataArray, VK_ConstantDataVector,
           VK_ConstantAggregate, VK_ConstantAggregateZero, VK_ConstantBase, VK_Undef,
           VK_Function, VK_Global, VK_ConstantExpr})"

definition Instruction_is_base_of :: "ValueKind \<Rightarrow> bool" where
  "Instruction_is_base_of k =
     (k \<in> {VK_Return, VK_Unreachable, VK_Call, VK_UnaryOperator, VK_BinaryOperator, VK_Cast,
           VK_Select, VK_ExtractValue, VK_Alloca, VK_GetElementPtr, VK_Load, VK_Store,
           VK_CompareBase, VK_FCmp, VK_ICmp, VK_Branch, VK_Switch, VK_PHI, VK_AtomicRMW,
           VK_AtomicCmpXchg, VK_ShuffleVector, VK_ExtractElement, VK_InsertElement})"

definition CmpInst_is_base_of :: "ValueKind \<Rightarrow> bool" where
  "CmpInst_is_base_of k = (k = VK_ICmp \<or> k = VK_FCmp)"

text \<open>
  \<open>T::is_base_of_value_kind\<close>, where the class \<open>T\<close> is named by \<open>T::get_value_kind()\<close>: three
  base classes have their own test, every other class the default one.
\<close>

definition is_base_of_value_kind :: "ValueKind \<Rightarrow> ValueKind \<Rightarrow> bool" where
  "is_base_of_value_kind T k =
     (if T = VK_ConstantBase then Constant_is_base_of k
      else if T = VK_InstructionBase then Instruction_is_base_of k
      else if T = VK_CompareBase then CmpInst_is_base_of k
      else T = k)"

section \<open>Operator enumerations\<close>

datatype UnaryOps = UInvalid | FNeg | INeg

datatype BinaryOps = InvalidBinaryOp | Add | FAdd | Sub | FSub | Mul | FMul | UDiv | SDiv | FDiv
  | URem | SRem | FRem | Shl | LShr | AShr | And | Or | Xor

datatype CastOps = InvalidCastOp | Trunc | ZExt | SExt | FPToUI | FPToSI | UIToFP | SIToFP
  | FPTrunc | FPExt | PtrToInt | IntToPtr | BitCast | AddrSpaceCast

datatype AtomicBinOp = RMW_Invalid | RMW_Xchg | RMW_Add | RMW_Sub | RMW_And | RMW_Nand | RMW_Or
  | RMW_Xor | RMW_Max | RMW_Min | RMW_UMax | RMW_UMin | RMW_FAdd | RMW_FSub

datatype LinkageTypes = ExternalLinkage | InternalLinkage | AppendingLinkage

text \<open>The enumerators' numbers, as \<open>ConstantExpr\<close> stores them.\<close>

fun BinaryOps_code :: "BinaryOps \<Rightarrow> nat" where
  "BinaryOps_code InvalidBinaryOp = 300" | "BinaryOps_code Add = 301" | "BinaryOps_code FAdd = 302"
| "BinaryOps_code Sub = 303" | "BinaryOps_code FSub = 304" | "BinaryOps_code Mul = 305"
| "BinaryOps_code FMul = 306" | "BinaryOps_code UDiv = 307" | "BinaryOps_code SDiv = 308"
| "BinaryOps_code FDiv = 309" | "BinaryOps_code URem = 310" | "BinaryOps_code SRem = 311"
| "BinaryOps_code FRem = 312" | "BinaryOps_code Shl = 313" | "BinaryOps_code LShr = 314"
| "BinaryOps_code AShr = 315" | "BinaryOps_code And = 316" | "BinaryOps_code Or = 317"
| "BinaryOps_code Xor = 318"

fun CastOps_code :: "CastOps \<Rightarrow> nat" where
  "CastOps_code InvalidCastOp = 100" | "CastOps_code Trunc = 101" | "CastOps_code ZExt = 102"
| "CastOps_code SExt = 103" | "CastOps_code FPToUI = 104" | "CastOps_code FPToSI = 105"
| "CastOps_code UIToFP = 106" | "CastOps_code SIToFP = 107" | "CastOps_code FPTrunc = 108"
| "CastOps_code FPExt = 109" | "CastOps_code PtrToInt = 110" | "CastOps_code IntToPtr = 111"
| "CastOps_code BitCast = 112" | "CastOps_code AddrSpaceCast = 113"

definition GetElementPtr_code :: nat where
  "GetElementPtr_code = 200"

section \<open>Objects\<close>

text \<open>The members the instruction classes add to \<open>Instruction\<close>.\<close>

datatype Specific =
    I_None
  | I_Return "vref option"
  | I_Call vref
  | I_Unary UnaryOps
  | I_Binary BinaryOps bool
  | I_Cast CastOps
  | I_Cmp nat
  | I_ExtractValue "nat list"
  | I_Alloca vref
  | I_GetElementPtr bool
  | I_Branch "vref list" "vref option"
  | I_Switch vref vref "(vref \<times> vref) list"
  | I_PHI "(vref option \<times> vref) list"
  | I_AtomicRMW vref vref AtomicBinOp
  | I_AtomicCmpXchg vref vref vref
  | I_ShuffleVector "int list"
  | I_ExtractElement vref vref

text \<open>
  The members of the classes below \<open>Value\<close>. \<open>B_Instruction\<close> holds the operands, the
  terminator flag and the metadata attachments; \<open>B_Proxy\<close> the value id it waits for and what
  it resolved to.
\<close>

datatype Body =
    B_Plain
  | B_Argument nat
  | B_Function nat ty "vref list" "vref list" "(string \<times> string) list"
  | B_BasicBlock "vref list" "vref list"
  | B_ConstantInt ty u64
  | B_ConstantFP ty u64
  | B_Elements "vref option list"
  | B_ConstantExpr nat "vref option list"
  | B_Global "vref option" LinkageTypes bool
  | B_Proxy nat "vref option"
  | B_Instruction "vref option list" bool "(string \<times> mdref) list" Specific

record Value =
  vtype :: "ty option"
  vkind :: ValueKind
  vtween :: nat
  vbody :: Body

datatype MDOperand =
    MDNone
  | MDNode "mdref list" nat
  | NamedMDNode string "mdref option list"
  | ConstantAsMetadata vref
  | MDString string

record Heap = LLVMContext +
  vheap :: "Value list"
  mheap :: "MDOperand list"

definition mk_value :: "ty option \<Rightarrow> ValueKind \<Rightarrow> Body \<Rightarrow> Value" where
  "mk_value t k b = \<lparr>vtype = t, vkind = k, vtween = 0, vbody = b\<rparr>"

definition value_at :: "'a Heap_scheme \<Rightarrow> vref \<Rightarrow> Value" where
  "value_at h v = (if v < length (vheap h) then vheap h ! v else mk_value None VK_Undef B_Plain)"

definition md_at :: "'a Heap_scheme \<Rightarrow> mdref \<Rightarrow> MDOperand" where
  "md_at h m = (if m < length (mheap h) then mheap h ! m else MDNone)"

abbreviation getType :: "'a Heap_scheme \<Rightarrow> vref \<Rightarrow> ty option" where
  "getType h v \<equiv> vtype (value_at h v)"

abbreviation get_value_kind :: "'a Heap_scheme \<Rightarrow> vref \<Rightarrow> ValueKind" where
  "get_value_kind h v \<equiv> vkind (value_at h v)"

definition construct_value :: "Value \<Rightarrow> 'a Heap_scheme \<Rightarrow> vref \<times> 'a Heap_scheme" where
  "construct_value x h = (length (vheap h), h\<lparr>vheap := vheap h @ [x]\<rparr>)"

definition construct_md :: "MDOperand \<Rightarrow> 'a Heap_scheme \<Rightarrow> mdref \<times> 'a Heap_scheme" where
  "construct_md x h = (length (mheap h), h\<lparr>mheap := mheap h @ [x]\<rparr>)"

definition update_value :: "vref \<Rightarrow> (Value \<Rightarrow> Value) \<Rightarrow> 'a Heap_scheme \<Rightarrow> 'a Heap_scheme" where
  "update_value v f h = (if v < length (vheap h) then h\<lparr>vheap := (vheap h)[v := f (vheap h ! v)]\<rparr> else h)"

definition set_tween_id :: "vref \<Rightarrow> nat \<Rightarrow> 'a Heap_scheme \<Rightarrow> 'a Heap_scheme" where
  "set_tween_id v n = update_value v (\<lambda>x. x\<lparr>vtween := n\<rparr>)"

definition update_body :: "vref \<Rightarrow> (Body \<Rightarrow> Body) \<Rightarrow> 'a Heap_scheme \<Rightarrow> 'a Heap_scheme" where
  "update_body v f = update_value v (\<lambda>x. x\<lparr>vbody := f (vbody x)\<rparr>)"

section \<open>Proxies and casts\<close>

definition get_proxy_value :: "'a Heap_scheme \<Rightarrow> vref \<Rightarrow> vref option res" where
  "get_proxy_value h v = (case vbody (value_at h v) of B_Proxy _ p \<Rightarrow> Ok p | _ \<Rightarrow> Fault Bad_Cast)"

text \<open>
  \<open>Internal::resolve_proxy\<close> follows proxies until it meets another kind or null. A chain
  that does not repeat is no longer than the heap, which bounds the fuel.
\<close>

fun resolve_proxy_loop :: "nat \<Rightarrow> 'a Heap_scheme \<Rightarrow> vref option \<Rightarrow> vref option res" where
  "resolve_proxy_loop 0 h p = Fault Out_Of_Fuel"
| "resolve_proxy_loop (Suc n) h None = Ok None"
| "resolve_proxy_loop (Suc n) h (Some v) =
     (if get_value_kind h v = VK_Proxy
      then bind_res (get_proxy_value h v) (resolve_proxy_loop n h)
      else Ok (Some v))"

definition resolve_proxy :: "'a Heap_scheme \<Rightarrow> vref option \<Rightarrow> vref option res" where
  "resolve_proxy h p = resolve_proxy_loop (length (vheap h) + 2) h p"

definition cast_value :: "ValueKind \<Rightarrow> 'a Heap_scheme \<Rightarrow> vref option \<Rightarrow> vref res" where
  "cast_value T h p =
     bind_res (if T \<noteq> VK_Proxy then resolve_proxy h p else Ok p) (\<lambda>p.
     bind_res (deref p) (\<lambda>v.
     if is_base_of_value_kind T (get_value_kind h v) then Ok v else Fault Bad_Cast))"

definition dyn_cast_value :: "ValueKind \<Rightarrow> 'a Heap_scheme \<Rightarrow> vref option \<Rightarrow> vref option res" where
  "dyn_cast_value T h p =
     (if p = None then Ok None
      else
        bind_res (if T \<noteq> VK_Proxy then resolve_proxy h p else Ok p) (\<lambda>p.
        bind_res (deref p) (\<lambda>v.
        Ok (if is_base_of_value_kind T (get_value_kind h v) then Some v else None))))"

definition dyn_cast_MDNode :: "'a Heap_scheme \<Rightarrow> mdref \<Rightarrow> mdref option" where
  "dyn_cast_MDNode h m = (case md_at h m of MDNode _ _ \<Rightarrow> Some m | _ \<Rightarrow> None)"

section \<open>Integers\<close>

text \<open>\<open>APInt\<close> is a type and 64 bits; the accessors read the low \<open>getBitWidth()\<close> of them.\<close>

definition getSExtValue :: "'a LLVMContext_scheme \<Rightarrow> ty option \<Rightarrow> u64 \<Rightarrow> u64 res" where
  "getSExtValue c t v =
     bind_res (cast_type IntegerTyID c t) (\<lambda>t.
     bind_res (getIntegerBitWidth c t) (\<lambda>width.
     if width = 64 then Ok v
     else if width = 0 \<or> 64 < width then Fault Bad_Shift
     else
       let mask = push_bit width 1 - 1;
           sign_bit = (drop_bit (width - 1) v AND 1 \<noteq> 0);
           extended = (if sign_bit then NOT mask else 0)
       in Ok ((v AND mask) OR extended)))"

definition getZExtValue :: "'a LLVMContext_scheme \<Rightarrow> ty option \<Rightarrow> u64 \<Rightarrow> u64 res" where
  "getZExtValue c t v =
     bind_res (cast_type IntegerTyID c t) (\<lambda>t.
     bind_res (getIntegerBitWidth c t) (\<lambda>width.
     if width = 64 then Ok v
     else if 64 < width then Fault Bad_Shift
     else Ok (v AND (push_bit width 1 - 1))))"

text \<open>\<open>getUniqueInteger()\<close>: a default-constructed \<open>APInt\<close> for constants that are no integers.\<close>

definition getUniqueInteger :: "'a Heap_scheme \<Rightarrow> vref \<Rightarrow> ty option \<times> u64" where
  "getUniqueInteger h v = (case vbody (value_at h v) of B_ConstantInt t x \<Rightarrow> (Some t, x) | _ \<Rightarrow> (None, 0))"

section \<open>Constants\<close>

definition ConstantInt_get :: "ty \<Rightarrow> u64 \<Rightarrow> 'a Heap_scheme \<Rightarrow> vref \<times> 'a Heap_scheme" where
  "ConstantInt_get t x = construct_value (mk_value (Some t) VK_ConstantInt (B_ConstantInt t x))"

definition ConstantFP_get :: "ty \<Rightarrow> u64 \<Rightarrow> 'a Heap_scheme \<Rightarrow> vref \<times> 'a Heap_scheme" where
  "ConstantFP_get t x = construct_value (mk_value (Some t) VK_ConstantFP (B_ConstantFP t x))"

definition UndefValue_get :: "ty \<Rightarrow> 'a Heap_scheme \<Rightarrow> vref \<times> 'a Heap_scheme" where
  "UndefValue_get t = construct_value (mk_value (Some t) VK_Undef B_Plain)"

definition ConstantAggregateZero_new :: "ty \<Rightarrow> 'a Heap_scheme \<Rightarrow> vref \<times> 'a Heap_scheme" where
  "ConstantAggregateZero_new t = construct_value (mk_value (Some t) VK_ConstantAggregateZero B_Plain)"

definition ConstantPointerNull_new :: "ty \<Rightarrow> 'a Heap_scheme \<Rightarrow> vref \<times> 'a Heap_scheme" where
  "ConstantPointerNull_new t = construct_value (mk_value (Some t) VK_ConstantPointerNull B_Plain)"

definition ConstantAggregate_new :: "ty \<Rightarrow> vref option list \<Rightarrow> 'a Heap_scheme \<Rightarrow> vref \<times> 'a Heap_scheme" where
  "ConstantAggregate_new t es = construct_value (mk_value (Some t) VK_ConstantAggregate (B_Elements es))"

definition ConstantDataArray_new :: "ty \<Rightarrow> vref option list \<Rightarrow> 'a Heap_scheme \<Rightarrow> vref \<times> 'a Heap_scheme" where
  "ConstantDataArray_new t es = construct_value (mk_value (Some t) VK_ConstantDataArray (B_Elements es))"

definition ConstantDataVector_new :: "ty \<Rightarrow> vref option list \<Rightarrow> 'a Heap_scheme \<Rightarrow> vref \<times> 'a Heap_scheme" where
  "ConstantDataVector_new t es = construct_value (mk_value (Some t) VK_ConstantDataVector (B_Elements es))"

definition ConstantExpr_new :: "nat \<Rightarrow> ty \<Rightarrow> vref option list \<Rightarrow> 'a Heap_scheme \<Rightarrow> vref \<times> 'a Heap_scheme" where
  "ConstantExpr_new opcode t es = construct_value (mk_value (Some t) VK_ConstantExpr (B_ConstantExpr opcode es))"

definition GlobalVariable_new :: "ty \<Rightarrow> LinkageTypes \<Rightarrow> bool \<Rightarrow> 'a Heap_scheme \<Rightarrow> vref \<times> 'a Heap_scheme" where
  "GlobalVariable_new t linkage is_const = construct_value (mk_value (Some t) VK_Global (B_Global None linkage is_const))"

definition set_initializer :: "vref \<Rightarrow> vref \<Rightarrow> 'a Heap_scheme \<Rightarrow> 'a Heap_scheme" where
  "set_initializer g v = update_body g (\<lambda>b. case b of B_Global _ l k \<Rightarrow> B_Global (Some v) l k | _ \<Rightarrow> b)"

definition Argument_new :: "ty option \<Rightarrow> nat \<Rightarrow> 'a Heap_scheme \<Rightarrow> vref \<times> 'a Heap_scheme" where
  "Argument_new t n = construct_value (mk_value t VK_Argument (B_Argument n))"

definition ValueProxy_new :: "ty option \<Rightarrow> nat \<Rightarrow> 'a Heap_scheme \<Rightarrow> vref \<times> 'a Heap_scheme" where
  "ValueProxy_new t i = construct_value (mk_value t VK_Proxy (B_Proxy i None))"

section \<open>Functions and basic blocks\<close>

definition Function_new :: "ty \<Rightarrow> nat \<Rightarrow> 'a Heap_scheme \<Rightarrow> vref \<times> 'a Heap_scheme" where
  "Function_new t i = construct_value (mk_value (Some t) VK_Function (B_Function i t [] [] []))"

definition getFunctionType :: "'a Heap_scheme \<Rightarrow> vref \<Rightarrow> ty res" where
  "getFunctionType h f = (case vbody (value_at h f) of B_Function _ t _ _ _ \<Rightarrow> Ok t | _ \<Rightarrow> Fault Bad_Cast)"

definition Function_add_argument :: "vref \<Rightarrow> vref \<Rightarrow> 'a Heap_scheme \<Rightarrow> 'a Heap_scheme" where
  "Function_add_argument f a =
     update_body f (\<lambda>b. case b of B_Function i t bbs as at \<Rightarrow> B_Function i t bbs (as @ [a]) at | _ \<Rightarrow> b)"

definition set_basic_blocks :: "vref \<Rightarrow> vref list \<Rightarrow> 'a Heap_scheme \<Rightarrow> 'a Heap_scheme" where
  "set_basic_blocks f blocks =
     update_body f (\<lambda>b. case b of B_Function i t bbs as at \<Rightarrow> B_Function i t blocks as at | _ \<Rightarrow> b)"

definition set_attributes :: "vref \<Rightarrow> (string \<times> string) list \<Rightarrow> 'a Heap_scheme \<Rightarrow> 'a Heap_scheme" where
  "set_attributes f attrs =
     update_body f (\<lambda>b. case b of B_Function i t bbs as at \<Rightarrow> B_Function i t bbs as attrs | _ \<Rightarrow> b)"

text \<open>\<open>getFnAttribute(...).getValueAsString()\<close> and \<open>hasFnAttribute\<close>: the first entry wins.\<close>

definition hasFnAttribute :: "'a Heap_scheme \<Rightarrow> vref \<Rightarrow> string \<Rightarrow> bool" where
  "hasFnAttribute h f a =
     (case vbody (value_at h f) of B_Function _ _ _ _ at \<Rightarrow> list_ex (\<lambda>(k, _). k = a) at | _ \<Rightarrow> False)"

definition getFnAttribute :: "'a Heap_scheme \<Rightarrow> vref \<Rightarrow> string \<Rightarrow> string" where
  "getFnAttribute h f a =
     (case vbody (value_at h f) of
        B_Function _ _ _ _ at \<Rightarrow> (case map_of at a of Some v \<Rightarrow> v | None \<Rightarrow> [])
      | _ \<Rightarrow> [])"

definition BasicBlock_new :: "'a Heap_scheme \<Rightarrow> vref \<times> 'a Heap_scheme" where
  "BasicBlock_new h =
     (case getLabelTy h of (t, h) \<Rightarrow> construct_value (mk_value (Some t) VK_BasicBlock (B_BasicBlock [] [])) h)"

definition BasicBlock_add_instruction :: "vref \<Rightarrow> vref \<Rightarrow> 'a Heap_scheme \<Rightarrow> 'a Heap_scheme" where
  "BasicBlock_add_instruction bb i =
     update_body bb (\<lambda>b. case b of B_BasicBlock is ss \<Rightarrow> B_BasicBlock (is @ [i]) ss | _ \<Rightarrow> b)"

definition BasicBlock_add_successor :: "vref \<Rightarrow> vref \<Rightarrow> 'a Heap_scheme \<Rightarrow> 'a Heap_scheme" where
  "BasicBlock_add_successor bb succ =
     update_body bb (\<lambda>b. case b of B_BasicBlock is ss \<Rightarrow> B_BasicBlock is (push_unique ss succ) | _ \<Rightarrow> b)"

definition block_instructions :: "'a Heap_scheme \<Rightarrow> vref \<Rightarrow> vref list" where
  "block_instructions h bb = (case vbody (value_at h bb) of B_BasicBlock is _ \<Rightarrow> is | _ \<Rightarrow> [])"

definition block_succs :: "'a Heap_scheme \<Rightarrow> vref \<Rightarrow> vref list" where
  "block_succs h bb = (case vbody (value_at h bb) of B_BasicBlock _ ss \<Rightarrow> ss | _ \<Rightarrow> [])"

definition isTerminator :: "'a Heap_scheme \<Rightarrow> vref \<Rightarrow> bool" where
  "isTerminator h i = (case vbody (value_at h i) of B_Instruction _ b _ _ \<Rightarrow> b | _ \<Rightarrow> False)"

definition getTerminator :: "'a Heap_scheme \<Rightarrow> vref \<Rightarrow> vref option" where
  "getTerminator h bb =
     (let is = block_instructions h bb in
      if is \<noteq> [] \<and> isTerminator h (last is) then Some (last is) else None)"

section \<open>Instructions\<close>

definition construct_inst ::
  "ty option \<Rightarrow> ValueKind \<Rightarrow> vref option list \<Rightarrow> bool \<Rightarrow> Specific \<Rightarrow> 'a Heap_scheme \<Rightarrow> vref \<times> 'a Heap_scheme" where
  "construct_inst t k ops terminator sp = construct_value (mk_value t k (B_Instruction ops terminator [] sp))"

definition BinaryOperator_new :: "vref \<Rightarrow> vref \<Rightarrow> BinaryOps \<Rightarrow> 'a Heap_scheme \<Rightarrow> vref \<times> 'a Heap_scheme" where
  "BinaryOperator_new lhs rhs op h =
     construct_inst (getType h lhs) VK_BinaryOperator [Some lhs, Some rhs] False (I_Binary op False) h"

definition setFast :: "vref \<Rightarrow> bool \<Rightarrow> 'a Heap_scheme \<Rightarrow> 'a Heap_scheme" where
  "setFast v enabled =
     update_body v (\<lambda>b. case b of
        B_Instruction ops t at (I_Binary op _) \<Rightarrow> B_Instruction ops t at (I_Binary op enabled) | _ \<Rightarrow> b)"

definition UnaryOperator_new :: "UnaryOps \<Rightarrow> vref \<Rightarrow> 'a Heap_scheme \<Rightarrow> vref \<times> 'a Heap_scheme" where
  "UnaryOperator_new op v h = construct_inst (getType h v) VK_UnaryOperator [Some v] False (I_Unary op) h"

definition ReturnInst_new :: "vref option \<Rightarrow> 'a Heap_scheme \<Rightarrow> vref \<times> 'a Heap_scheme" where
  "ReturnInst_new p h =
     construct_inst (case p of Some v \<Rightarrow> getType h v | None \<Rightarrow> None) VK_Return [] True (I_Return p) h"

definition UnreachableInst_new :: "'a Heap_scheme \<Rightarrow> vref \<times> 'a Heap_scheme" where
  "UnreachableInst_new = construct_inst None VK_Unreachable [] True I_None"

definition CallInst_new :: "ty \<Rightarrow> vref \<Rightarrow> vref list \<Rightarrow> 'a Heap_scheme \<Rightarrow> (vref \<times> 'a Heap_scheme) res" where
  "CallInst_new ft callee params h =
     bind_res (getReturnType h ft) (\<lambda>r.
     Ok (construct_inst (Some r) VK_Call (map Some params) False (I_Call callee) h))"

definition get_cmp_result_type :: "ty option \<Rightarrow> 'a Heap_scheme \<Rightarrow> (ty \<times> 'a Heap_scheme) res" where
  "get_cmp_result_type p h =
     bind_res (deref p) (\<lambda>t.
     case getInt1Ty h of (bool_type, h) \<Rightarrow>
     Ok (case type_at h t of VectorType n _ \<Rightarrow> VectorType_get n bool_type h | _ \<Rightarrow> (bool_type, h)))"

definition CmpInst_new :: "ValueKind \<Rightarrow> nat \<Rightarrow> vref \<Rightarrow> vref \<Rightarrow> 'a Heap_scheme \<Rightarrow> (vref \<times> 'a Heap_scheme) res" where
  "CmpInst_new kind pred lhs rhs h =
     bind_res (get_cmp_result_type (getType h lhs) h) (\<lambda>(t, h).
     Ok (construct_inst (Some t) kind [Some lhs, Some rhs] False (I_Cmp pred) h))"

definition CastInst_new :: "ty \<Rightarrow> vref \<Rightarrow> CastOps \<Rightarrow> 'a Heap_scheme \<Rightarrow> vref \<times> 'a Heap_scheme" where
  "CastInst_new t v op = construct_inst (Some t) VK_Cast [Some v] False (I_Cast op)"

definition SelectInst_new :: "vref \<Rightarrow> vref \<Rightarrow> vref option \<Rightarrow> 'a Heap_scheme \<Rightarrow> vref \<times> 'a Heap_scheme" where
  "SelectInst_new tv fv cond h = construct_inst (getType h tv) VK_Select [cond, Some tv, Some fv] False I_None h"

definition ExtractValueInst_new :: "ty option \<Rightarrow> vref \<Rightarrow> nat list \<Rightarrow> 'a Heap_scheme \<Rightarrow> vref \<times> 'a Heap_scheme" where
  "ExtractValueInst_new t agg indices = construct_inst t VK_ExtractValue [Some agg] False (I_ExtractValue indices)"

definition BranchInst_new :: "vref \<Rightarrow> 'a Heap_scheme \<Rightarrow> vref \<times> 'a Heap_scheme" where
  "BranchInst_new t = construct_inst None VK_Branch [] True (I_Branch [t] None)"

definition CondBranchInst_new :: "vref \<Rightarrow> vref \<Rightarrow> vref option \<Rightarrow> 'a Heap_scheme \<Rightarrow> vref \<times> 'a Heap_scheme" where
  "CondBranchInst_new t f cond = construct_inst None VK_Branch [] True (I_Branch [t, f] cond)"

definition SwitchInst_new :: "vref \<Rightarrow> vref \<Rightarrow> 'a Heap_scheme \<Rightarrow> (vref \<times> 'a Heap_scheme) res" where
  "SwitchInst_new cond default_block h =
     bind_res (deref (getType h cond)) (\<lambda>_.
     case getVoidTy h of (t, h) \<Rightarrow>
     Ok (construct_inst (Some t) VK_Switch [] True (I_Switch cond default_block []) h))"

definition addCase :: "vref \<Rightarrow> vref \<Rightarrow> vref \<Rightarrow> 'a Heap_scheme \<Rightarrow> 'a Heap_scheme" where
  "addCase sw v bb =
     update_body sw (\<lambda>b. case b of
        B_Instruction ops t at (I_Switch c d cs) \<Rightarrow> B_Instruction ops t at (I_Switch c d (cs @ [(v, bb)])) | _ \<Rightarrow> b)"

definition PHINode_new :: "ty option \<Rightarrow> 'a Heap_scheme \<Rightarrow> vref \<times> 'a Heap_scheme" where
  "PHINode_new t = construct_inst t VK_PHI [] False (I_PHI [])"

definition add_incoming :: "vref \<Rightarrow> vref \<Rightarrow> vref \<Rightarrow> 'a Heap_scheme \<Rightarrow> 'a Heap_scheme" where
  "add_incoming phi v bb =
     update_body phi (\<lambda>b. case b of
        B_Instruction ops t at (I_PHI vs) \<Rightarrow> B_Instruction ops t at (I_PHI (vs @ [(Some v, bb)])) | _ \<Rightarrow> b)"

definition AllocaInst_new :: "ty \<Rightarrow> vref \<Rightarrow> 'a Heap_scheme \<Rightarrow> vref \<times> 'a Heap_scheme" where
  "AllocaInst_new ptr_type n = construct_inst (Some ptr_type) VK_Alloca [] False (I_Alloca n)"

definition GetElementPtrInst_new :: "ty \<Rightarrow> vref list \<Rightarrow> bool \<Rightarrow> 'a Heap_scheme \<Rightarrow> vref \<times> 'a Heap_scheme" where
  "GetElementPtrInst_new t args inbounds = construct_inst (Some t) VK_GetElementPtr (map Some args) False (I_GetElementPtr inbounds)"

definition LoadInst_new :: "ty option \<Rightarrow> vref \<Rightarrow> 'a Heap_scheme \<Rightarrow> vref \<times> 'a Heap_scheme" where
  "LoadInst_new t p = construct_inst t VK_Load [Some p] False I_None"

definition StoreInst_new :: "vref \<Rightarrow> vref \<Rightarrow> 'a Heap_scheme \<Rightarrow> (vref \<times> 'a Heap_scheme) res" where
  "StoreInst_new p v h =
     bind_res (deref (getType h p)) (\<lambda>_.
     case getVoidTy h of (t, h) \<Rightarrow> Ok (construct_inst (Some t) VK_Store [Some v, Some p] False I_None h))"

definition AtomicRMWInst_new :: "ty option \<Rightarrow> vref \<Rightarrow> vref \<Rightarrow> AtomicBinOp \<Rightarrow> 'a Heap_scheme \<Rightarrow> vref \<times> 'a Heap_scheme" where
  "AtomicRMWInst_new t p v op = construct_inst t VK_AtomicRMW [Some p, Some v] False (I_AtomicRMW p v op)"

text \<open>
  The result of \<open>cmpxchg\<close> is the struct of the new value's type and a boolean; the
  constructor reads the new value before anyone has tested it.
\<close>

definition AtomicCmpXchgInst_new :: "vref \<Rightarrow> vref \<Rightarrow> vref option \<Rightarrow> 'a Heap_scheme \<Rightarrow> (vref \<times> 'a Heap_scheme) res" where
  "AtomicCmpXchgInst_new p cmp new_value h =
     bind_res (deref new_value) (\<lambda>nv.
     bind_res (deref (getType h nv)) (\<lambda>nt.
     case getInt1Ty h of (b, h) \<Rightarrow>
     case StructType_get [Some nt, Some b] [] h of (t, h) \<Rightarrow>
     Ok (construct_inst (Some t) VK_AtomicCmpXchg [Some p, Some nv, Some cmp] False (I_AtomicCmpXchg p nv cmp) h)))"

definition elements_of :: "'a Heap_scheme \<Rightarrow> vref \<Rightarrow> vref option list" where
  "elements_of h v = (case vbody (value_at h v) of B_Elements es \<Rightarrow> es | B_ConstantExpr _ es \<Rightarrow> es | _ \<Rightarrow> [])"

definition getElementAsConstant :: "'a Heap_scheme \<Rightarrow> vref \<Rightarrow> nat \<Rightarrow> vref res" where
  "getElementAsConstant h v i = bind_res (index (elements_of h v) i) (cast_value VK_ConstantBase h)"

text \<open>One entry of the shuffle mask: the sign-extended constant, truncated to \<open>int\<close>.\<close>

definition shuffle_entry :: "'a Heap_scheme \<Rightarrow> vref \<Rightarrow> nat \<Rightarrow> int list \<Rightarrow> int list res" where
  "shuffle_entry h masks i acc =
     bind_res (getElementAsConstant h masks i) (\<lambda>e.
     bind_res (cast_value VK_ConstantInt h (Some e)) (\<lambda>ci.
     case getUniqueInteger h ci of (t, x) \<Rightarrow>
     bind_res (getSExtValue h t x) (\<lambda>s.
     Ok (acc @ [sint (ucast s :: u32)]))))"

definition ShuffleVectorInst_new ::
  "ty \<Rightarrow> vref \<Rightarrow> vref \<Rightarrow> vref \<Rightarrow> 'a Heap_scheme \<Rightarrow> (vref \<times> 'a Heap_scheme) res" where
  "ShuffleVectorInst_new t a b shuf h =
     bind_res (deref (getType h shuf)) (\<lambda>st.
     bind_res (getVectorNumElements h st) (\<lambda>num_elements.
     bind_res (dyn_cast_value VK_ConstantDataVector h (Some shuf)) (\<lambda>masks.
     bind_res
       (case masks of
          Some m \<Rightarrow> fold_res (shuffle_entry h m) [0..<length (elements_of h m)] []
        | None \<Rightarrow> Ok (replicate num_elements 0)) (\<lambda>mask.
     Ok (construct_inst (Some t) VK_ShuffleVector [Some a, Some b] False (I_ShuffleVector mask) h)))))"

definition ExtractElementInst_new :: "vref \<Rightarrow> vref \<Rightarrow> 'a Heap_scheme \<Rightarrow> (vref \<times> 'a Heap_scheme) res" where
  "ExtractElementInst_new v i h =
     bind_res (cast_type VectorTyID h (getType h v)) (\<lambda>vt.
     bind_res (getVectorElementType h vt) (\<lambda>et.
     Ok (construct_inst (Some et) VK_ExtractElement [Some v, Some i] False (I_ExtractElement v i) h)))"

definition InsertElementInst_new :: "vref \<Rightarrow> vref \<Rightarrow> vref \<Rightarrow> 'a Heap_scheme \<Rightarrow> vref \<times> 'a Heap_scheme" where
  "InsertElementInst_new v x i h =
     construct_inst (getType h v) VK_InsertElement [Some v, Some x, Some i] False I_None h"

definition inst_operands :: "'a Heap_scheme \<Rightarrow> vref \<Rightarrow> vref option list" where
  "inst_operands h i = (case vbody (value_at h i) of B_Instruction ops _ _ _ \<Rightarrow> ops | _ \<Rightarrow> [])"

definition getOperand :: "'a Heap_scheme \<Rightarrow> vref \<Rightarrow> nat \<Rightarrow> vref option res" where
  "getOperand h i n =
     (if length (inst_operands h i) \<le> n then Ok None else resolve_proxy h (inst_operands h i ! n))"

definition alist_set :: "'k \<Rightarrow> 'v \<Rightarrow> ('k \<times> 'v) list \<Rightarrow> ('k \<times> 'v) list" where
  "alist_set k v xs = (k, v) # filter (\<lambda>(j, _). j \<noteq> k) xs"

definition setMetadata :: "vref \<Rightarrow> string \<Rightarrow> mdref \<Rightarrow> 'a Heap_scheme \<Rightarrow> 'a Heap_scheme" where
  "setMetadata i k m =
     update_body i (\<lambda>b. case b of B_Instruction ops t at sp \<Rightarrow> B_Instruction ops t (alist_set k m at) sp | _ \<Rightarrow> b)"

definition getMetadata :: "'a Heap_scheme \<Rightarrow> vref \<Rightarrow> string \<Rightarrow> mdref option" where
  "getMetadata h i k = (case vbody (value_at h i) of B_Instruction _ _ at _ \<Rightarrow> map_of at k | _ \<Rightarrow> None)"

text \<open>\<open>PHINode::resolve_proxy_values_incoming\<close> and \<open>Instruction::resolve_proxy_values\<close>.\<close>

fun resolve_list :: "'a Heap_scheme \<Rightarrow> vref option list \<Rightarrow> vref option list res" where
  "resolve_list h [] = Ok []"
| "resolve_list h (p # ps) =
     bind_res (resolve_proxy h p) (\<lambda>q. bind_res (resolve_list h ps) (\<lambda>qs. Ok (q # qs)))"

fun resolve_incoming :: "'a Heap_scheme \<Rightarrow> (vref option \<times> vref) list \<Rightarrow> (vref option \<times> vref) list res" where
  "resolve_incoming h [] = Ok []"
| "resolve_incoming h ((p, bb) # ps) =
     bind_res (resolve_proxy h p) (\<lambda>q.
     if p \<noteq> None \<and> q = None then Reject
     else bind_res (resolve_incoming h ps) (\<lambda>qs. Ok ((q, bb) # qs)))"

definition resolve_proxy_values :: "vref \<Rightarrow> 'a Heap_scheme \<Rightarrow> 'a Heap_scheme res" where
  "resolve_proxy_values i h =
     bind_res (resolve_list h (inst_operands h i)) (\<lambda>ops.
     let h = update_body i (\<lambda>b. case b of B_Instruction _ t at sp \<Rightarrow> B_Instruction ops t at sp | _ \<Rightarrow> b) h in
     case vbody (value_at h i) of
       B_Instruction _ _ _ (I_PHI vs) \<Rightarrow>
         if get_value_kind h i = VK_PHI then
           bind_res (resolve_incoming h vs) (\<lambda>vs.
           Ok (update_body i (\<lambda>b. case b of
                 B_Instruction ops t at (I_PHI _) \<Rightarrow> B_Instruction ops t at (I_PHI vs) | _ \<Rightarrow> b) h))
         else Ok h
     | _ \<Rightarrow> Ok h)"

end
