(* ===== verification/Bc_Context.thy ===== *)
theory Bc_Context
  imports Bc_Values
begin

text \<open>
  \<open>bc/module.cpp\<close>, \<open>ModuleParseContext\<close>: the state of the bitcode parser and the helpers
  every record handler calls: decoding of (relative) value numbers, forward-reference
  proxies, types, basic blocks, appending instructions. The tree of blocks and records comes
  from the bitstream reader.
\<close>

section \<open>Blocks and records\<close>

text \<open>\<open>BlockOrRecord\<close> of \<open>llvm_decoder.h\<close>; \<open>is_block\<close> is \<open>IsBlock()\<close>.\<close>

datatype BlockOrRecord = BlockOrRecord (rec_id: nat) (is_block: bool) (children: "BlockOrRecord list") (rec_ops: "u64 list")

definition getString :: "nat \<Rightarrow> BlockOrRecord \<Rightarrow> string" where
  "getString start e = map (\<lambda>op. char_of (unat op mod 256)) (drop start (rec_ops e))"

section \<open>Record codes\<close>

datatype KnownBlocks = BLOCKINFO | MODULE_BLOCK | PARAMATTR_BLOCK | PARAMATTR_GROUP_BLOCK | CONSTANTS_BLOCK
  | FUNCTION_BLOCK | TYPE_SYMTAB_BLOCK | VALUE_SYMTAB_BLOCK | METADATA_BLOCK | METADATA_ATTACHMENT
  | TYPE_BLOCK | Other_Block

definition KnownBlocks_of :: "nat \<Rightarrow> KnownBlocks" where
  "KnownBlocks_of i =
     (if i = 0 then BLOCKINFO else if i = 8 then MODULE_BLOCK else if i = 9 then PARAMATTR_BLOCK
      else if i = 10 then PARAMATTR_GROUP_BLOCK else if i = 11 then CONSTANTS_BLOCK
      else if i = 12 then FUNCTION_BLOCK else if i = 13 then TYPE_SYMTAB_BLOCK
      else if i = 14 then VALUE_SYMTAB_BLOCK else if i = 15 then METADATA_BLOCK
      else if i = 16 then METADATA_ATTACHMENT else if i = 17 then TYPE_BLOCK else Other_Block)"

definition SETTYPE :: nat where "SETTYPE = 1"
definition CONST_NULL :: nat where "CONST_NULL = 2"
definition CONST_UNDEF :: nat where "CONST_UNDEF = 3"
definition CONST_INTEGER :: nat where "CONST_INTEGER = 4"
definition CONST_FLOAT :: nat where "CONST_FLOAT = 6"
definition CONST_AGGREGATE :: nat where "CONST_AGGREGATE = 7"
definition CONST_BINOP :: nat where "CONST_BINOP = 10"
definition CE_CAST :: nat where "CE_CAST = 11"
definition CONST_GEP :: nat where "CONST_GEP = 12"
definition INBOUNDS_GEP :: nat where "INBOUNDS_GEP = 20"
definition CONST_DATA :: nat where "CONST_DATA = 22"
definition GEP_WITH_INRANGE_INDEX :: nat where "GEP_WITH_INRANGE_INDEX = 24"

section \<open>State\<close>

text \<open>\<open>Module\<close>: what the parser hands to the converter. Hash maps are association lists.\<close>

record Module =
  mod_functions :: "vref list"
  globals :: "vref list"
  value_symtab :: "(nat \<times> string) list"
  named_metadata :: "(string \<times> mdref) list"
  unnamed_metadata :: "mdref list"

record ModuleParseContext = Heap +
  cur_function :: "vref option"
  module :: Module
  basic_blocks :: "vref list"
  vvalues :: "vref list"
  instructions :: "vref list"
  types :: "ty list"
  functions_with_bodies :: "vref list"
  metadata :: "(nat \<times> mdref) list"
  metadata_kind_map :: "(nat \<times> string) list"
  attribute_lists :: "(string \<times> string) list list"
  attribute_groups :: "(nat \<times> (string \<times> string) list) list"
  constant_type :: "ty option"
  current_metadata_name :: string
  current_struct_name :: string
  current_bb :: "vref option"
  basic_block_index :: nat
  pending_forward_references :: "vref list"
  global_initializations :: "(vref \<times> u64) list"
  tween_id :: nat
  metadata_tween_id :: nat
  use_relative_id :: bool
  use_strtab :: bool
  seen_first_function_body :: bool

type_synonym mpc = ModuleParseContext

definition empty_module :: Module where
  "empty_module = \<lparr>mod_functions = [], globals = [], value_symtab = [], named_metadata = [], unnamed_metadata = []\<rparr>"

definition initial_context :: mpc where
  "initial_context =
     \<lparr>type_heap = [], type_cache = [], vheap = [], mheap = [],
      cur_function = None, module = empty_module, basic_blocks = [], vvalues = [], instructions = [],
      types = [], functions_with_bodies = [], metadata = [], metadata_kind_map = [],
      attribute_lists = [], attribute_groups = [], constant_type = None,
      current_metadata_name = [], current_struct_name = [], current_bb = None, basic_block_index = 0,
      pending_forward_references = [], global_initializations = [], tween_id = 1, metadata_tween_id = 1,
      use_relative_id = True, use_strtab = False, seen_first_function_body = False\<rparr>"

subsection \<open>Methods of \<open>Module\<close>\<close>

definition add_value_name :: "nat \<Rightarrow> string \<Rightarrow> Module \<Rightarrow> Module" where
  "add_value_name i name m = m\<lparr>value_symtab := alist_set i name (value_symtab m)\<rparr>"

definition add_function_implementation :: "vref \<Rightarrow> Module \<Rightarrow> Module" where
  "add_function_implementation f m = m\<lparr>mod_functions := mod_functions m @ [f]\<rparr>"

definition add_global_variable :: "vref \<Rightarrow> Module \<Rightarrow> Module" where
  "add_global_variable g m = m\<lparr>globals := globals m @ [g]\<rparr>"

definition add_named_metadata :: "string \<Rightarrow> mdref \<Rightarrow> Module \<Rightarrow> Module" where
  "add_named_metadata name n m = m\<lparr>named_metadata := alist_set name n (named_metadata m)\<rparr>"

definition add_unnamed_metadata :: "mdref \<Rightarrow> Module \<Rightarrow> Module" where
  "add_unnamed_metadata n m = m\<lparr>unnamed_metadata := unnamed_metadata m @ [n]\<rparr>"

definition get_value_name :: "Module \<Rightarrow> nat \<Rightarrow> string" where
  "get_value_name m i = (case map_of (value_symtab m) i of Some n \<Rightarrow> n | None \<Rightarrow> [])"

definition getName :: "mpc \<Rightarrow> vref \<Rightarrow> string" where
  "getName s f = (case vbody (value_at s f) of B_Function i _ _ _ _ \<Rightarrow> get_value_name (module s) i | _ \<Rightarrow> [])"

definition getFunction :: "mpc \<Rightarrow> string \<Rightarrow> vref option" where
  "getFunction s name = find (\<lambda>f. getName s f = name) (mod_functions (module s))"

definition getNamedMetadata :: "Module \<Rightarrow> string \<Rightarrow> mdref option" where
  "getNamedMetadata m name = map_of (named_metadata m) name"

section \<open>Number encodings\<close>

text \<open>Sign-rotated literals: bit 0 is the sign, \<open>-0\<close> stands for the smallest integer.\<close>

definition decode_sign_rotated_value :: "u64 \<Rightarrow> u64" where
  "decode_sign_rotated_value v =
     (let sign = (v AND 1 \<noteq> 0);
          v = drop_bit 1 v
      in if sign then (if v \<noteq> 0 then - v else push_bit 63 1) else v)"

definition absolute_id :: "mpc \<Rightarrow> bool \<Rightarrow> u64 \<Rightarrow> nat" where
  "absolute_id s force_absolute op =
     (if \<not> force_absolute \<and> use_relative_id s
      then unat (ucast (word_of_nat (length (vvalues s)) - op) :: u32)
      else unat op)"

section \<open>Values, types and blocks by number\<close>

definition get_type :: "mpc \<Rightarrow> u64 \<Rightarrow> ty option" where
  "get_type s i = (if unat i < length (types s) then Some (types s ! unat i) else None)"

definition add_type :: "ty \<Rightarrow> mpc \<Rightarrow> mpc" where
  "add_type t s = s\<lparr>types := types s @ [t]\<rparr>"

definition get_basic_block :: "mpc \<Rightarrow> u64 \<Rightarrow> vref option" where
  "get_basic_block s i =
     (if unat i < length (basic_blocks s) then Some (basic_blocks s ! unat i) else None)"

definition get_instruction :: "mpc \<Rightarrow> u64 \<Rightarrow> vref option" where
  "get_instruction s i =
     (if unat i < length (instructions s) then Some (instructions s ! unat i) else None)"

definition forward_reference :: "ty option \<Rightarrow> nat \<Rightarrow> mpc \<Rightarrow> vref \<times> mpc" where
  "forward_reference t i s =
     (case ValueProxy_new t i s of (v, s) \<Rightarrow>
      (v, s\<lparr>pending_forward_references := pending_forward_references s @ [v]\<rparr>))"

text \<open>A pointer to a function and a constant function match.\<close>

definition strip_function_pointer :: "mpc \<Rightarrow> ty option \<Rightarrow> ty option res" where
  "strip_function_pointer s expected =
     (case dyn_cast_type PointerTyID s expected of
        None \<Rightarrow> Ok expected
      | Some p \<Rightarrow>
          bind_res (getPointerElementType s p) (\<lambda>e.
          Ok (if type_id_of s e = FunctionTyID then Some e else expected)))"

definition get_value :: "u64 \<Rightarrow> ty option \<Rightarrow> bool \<Rightarrow> mpc \<Rightarrow> (vref option \<times> mpc) res" where
  "get_value op expected force_absolute s =
     (let i = absolute_id s force_absolute op in
      if length (vvalues s) \<le> i then
        (case expected of
           None \<Rightarrow> Ok (None, s)
         | Some t \<Rightarrow> (case forward_reference (Some t) i s of (v, s) \<Rightarrow> Ok (Some v, s)))
      else
        bind_res (strip_function_pointer s expected) (\<lambda>expected.
        if expected \<noteq> None \<and> expected \<noteq> getType s (vvalues s ! i) then Ok (None, s)
        else Ok (Some (vvalues s ! i), s)))"

definition get_value_next ::
  "u64 list \<Rightarrow> nat \<Rightarrow> ty option \<Rightarrow> mpc \<Rightarrow> (vref option \<times> nat \<times> mpc) res" where
  "get_value_next ops i expected s =
     (if length ops \<le> i then Ok (None, i, s)
      else bind_res (get_value (ops ! i) expected False s) (\<lambda>(v, s). Ok (v, i + 1, s)))"

definition get_value_and_type ::
  "u64 list \<Rightarrow> nat \<Rightarrow> mpc \<Rightarrow> (vref option \<times> ty option \<times> nat \<times> mpc) res" where
  "get_value_and_type ops i s =
     (if length ops \<le> i then Ok (None, None, i, s)
      else
        let op = absolute_id s False (ops ! i);
            i = i + 1
        in
        if op < length (vvalues s) then
          Ok (Some (vvalues s ! op), getType s (vvalues s ! op), i, s)
        else if length ops \<le> i then Ok (None, None, i, s)
        else
          let t = get_type s (ops ! i) in
          (case forward_reference t op s of (v, s) \<Rightarrow> Ok (Some v, t, i + 1, s)))"

definition get_value_signed :: "u64 \<Rightarrow> ty option \<Rightarrow> mpc \<Rightarrow> vref option \<times> mpc" where
  "get_value_signed op expected s =
     (let signed_op = decode_sign_rotated_value op;
          i = unat (if use_relative_id s then word_of_nat (length (vvalues s)) - signed_op else signed_op)
      in
      if length (vvalues s) \<le> i then
        (case expected of
           None \<Rightarrow> (None, s)
         | Some t \<Rightarrow> (case forward_reference (Some t) i s of (v, s) \<Rightarrow> (Some v, s)))
      else (Some (vvalues s ! i), s))"

definition get_metadata :: "nat \<Rightarrow> mpc \<Rightarrow> mdref \<times> mpc" where
  "get_metadata i s = (case map_of (metadata s) i of Some m \<Rightarrow> (m, s) | None \<Rightarrow> construct_md MDNone s)"

definition get_metadata_kind :: "mpc \<Rightarrow> u64 \<Rightarrow> string option" where
  "get_metadata_kind s i = map_of (metadata_kind_map s) (unat i)"

definition get_constant_type :: "mpc \<Rightarrow> ty \<times> mpc" where
  "get_constant_type s = (case constant_type s of Some t \<Rightarrow> (t, s) | None \<Rightarrow> getInt32Ty s)"

section \<open>Appending\<close>

definition push_value :: "vref \<Rightarrow> mpc \<Rightarrow> mpc" where
  "push_value v s = s\<lparr>vvalues := vvalues s @ [v]\<rparr>"

definition add_value :: "vref \<Rightarrow> mpc \<Rightarrow> mpc res" where
  "add_value v s =
     bind_res (deref (getType s v)) (\<lambda>t.
     Ok (if type_id_of s t \<noteq> VoidTyID
         then push_value v ((set_tween_id v (tween_id s) s)\<lparr>tween_id := tween_id s + 1\<rparr>)
         else s))"

definition finish_basic_block :: "mpc \<Rightarrow> mpc" where
  "finish_basic_block s =
     (let i = basic_block_index s + 1;
          s = s\<lparr>basic_block_index := i\<rparr>
      in
      if length (basic_blocks s) \<le> i then s\<lparr>current_bb := None\<rparr>
      else
        let bb = basic_blocks s ! i in
        (set_tween_id bb (tween_id s) (s\<lparr>current_bb := Some bb\<rparr>))\<lparr>tween_id := tween_id s + 1\<rparr>)"

definition add_successor :: "vref \<Rightarrow> mpc \<Rightarrow> mpc res" where
  "add_successor bb s =
     (case current_bb s of
        None \<Rightarrow> Reject
      | Some cur \<Rightarrow> Ok (BasicBlock_add_successor cur bb s))"

text \<open>The flag is the source's return value; the state changes even when it is false.\<close>

definition add_instruction :: "vref \<Rightarrow> mpc \<Rightarrow> (bool \<times> mpc) res" where
  "add_instruction inst s =
     (let s = s\<lparr>instructions := instructions s @ [inst]\<rparr> in
      case current_bb s of
        None \<Rightarrow> Ok (False, s)
      | Some bb \<Rightarrow>
          let s = BasicBlock_add_instruction bb inst s in
          if isTerminator s inst then Ok (True, finish_basic_block s)
          else bind_res (add_value inst s) (\<lambda>s. Ok (True, s)))"

text \<open>\<open>if (!add_instruction(value)) return false;\<close>\<close>

definition must_add_instruction :: "vref \<Rightarrow> mpc \<Rightarrow> mpc res" where
  "must_add_instruction inst s = bind_res (add_instruction inst s) (\<lambda>(ok, s). if ok then Ok s else Reject)"

section \<open>Resolving forward references\<close>

definition set_proxy :: "vref \<Rightarrow> vref option \<Rightarrow> 'a Heap_scheme \<Rightarrow> 'a Heap_scheme" where
  "set_proxy v p = update_body v (\<lambda>b. case b of B_Proxy i _ \<Rightarrow> B_Proxy i p | _ \<Rightarrow> b)"

text \<open>
  \<open>ValueProxy::resolve\<close> and its inner loop, which resolves what it meets. The flag is the
  return value.
\<close>

fun ValueProxy_resolve :: "nat \<Rightarrow> vref \<Rightarrow> mpc \<Rightarrow> (bool \<times> mpc) res"
  and resolve_loop :: "nat \<Rightarrow> vref \<Rightarrow> mpc \<Rightarrow> (bool \<times> mpc) res" where
  "ValueProxy_resolve 0 v s = Fault Out_Of_Fuel"
| "ValueProxy_resolve (Suc n) v s =
     (case vbody (value_at s v) of
        B_Proxy _ (Some _) \<Rightarrow> Ok (True, s)
      | B_Proxy i None \<Rightarrow>
          if length (vvalues s) \<le> i then Ok (False, s)
          else resolve_loop n v (set_proxy v (Some (vvalues s ! i)) s)
      | _ \<Rightarrow> Fault Bad_Cast)"
| "resolve_loop 0 v s = Fault Out_Of_Fuel"
| "resolve_loop (Suc n) v s =
     bind_res (get_proxy_value s v) (\<lambda>p.
     case p of
       None \<Rightarrow> Ok (False, s)
     | Some q \<Rightarrow>
         if get_value_kind s q = VK_Proxy then
           bind_res (ValueProxy_resolve n q s) (\<lambda>(_, s).
           bind_res (get_proxy_value s q) (\<lambda>p. resolve_loop n v (set_proxy v p s)))
         else Ok (True, s))"

definition resolve_one :: "vref \<Rightarrow> mpc \<Rightarrow> mpc res" where
  "resolve_one v s =
     bind_res (ValueProxy_resolve (2 * length (vheap s) + 2) v s) (\<lambda>(ok, s). if ok then Ok s else Reject)"

definition resolve_block :: "vref \<Rightarrow> mpc \<Rightarrow> mpc res" where
  "resolve_block bb s = fold_res resolve_proxy_values (block_instructions s bb) s"

definition resolve_forward_references :: "mpc \<Rightarrow> mpc res" where
  "resolve_forward_references s =
     bind_res (fold_res resolve_one (pending_forward_references s) s) (\<lambda>s.
     let s = s\<lparr>pending_forward_references := []\<rparr> in
     fold_res resolve_block (basic_blocks s) s)"

definition resolve_global :: "vref \<times> u64 \<Rightarrow> mpc \<Rightarrow> mpc res" where
  "resolve_global = (\<lambda>(g, i) s.
     bind_res (get_value i None True s) (\<lambda>(v, s).
     bind_res (require v) (\<lambda>v.
     bind_res (dyn_cast_value VK_ConstantBase s (Some v)) (\<lambda>c.
     bind_res (require c) (\<lambda>c.
     Ok (set_initializer g c s))))))"

definition resolve_global_initializations :: "mpc \<Rightarrow> mpc res" where
  "resolve_global_initializations s =
     bind_res (fold_res resolve_global (global_initializations s) s) (\<lambda>s.
     Ok (s\<lparr>global_initializations := []\<rparr>))"

section \<open>Walking aggregate types\<close>

text \<open>The loop of \<open>resolve_gep_element_type\<close> over the arguments from the third on.\<close>

fun gep_walk :: "mpc \<Rightarrow> ty option \<Rightarrow> vref option list \<Rightarrow> ty option res" where
  "gep_walk s t [] = Ok t"
| "gep_walk s t (arg # args) =
     bind_res (deref t) (\<lambda>t.
     if type_id_of s t = StructTyID then
       bind_res (dyn_cast_value VK_ConstantInt s arg) (\<lambda>const_int.
       case const_int of
         None \<Rightarrow> Ok None
       | Some ci \<Rightarrow>
           (case getUniqueInteger s ci of (it, x) \<Rightarrow>
            bind_res (getZExtValue s it x) (\<lambda>z.
            let i = u32_of (unat z) in
            bind_res (getStructNumElements s t) (\<lambda>n.
            if n \<le> i then Ok None
            else bind_res (getStructElementType s t i) (\<lambda>t. gep_walk s t args)))))
     else if type_id_of s t = ArrayTyID then
       bind_res (getArrayElementType s t) (\<lambda>t. gep_walk s (Some t) args)
     else if type_id_of s t = VectorTyID then
       bind_res (getVectorElementType s t) (\<lambda>t. gep_walk s (Some t) args)
     else Ok None)"

definition resolve_gep_element_type :: "mpc \<Rightarrow> ty option \<Rightarrow> vref option list \<Rightarrow> ty option res" where
  "resolve_gep_element_type s t args = gep_walk s t (drop 2 args)"

section \<open>Operator codes\<close>

definition translate_binop :: "mpc \<Rightarrow> nat \<Rightarrow> ty option \<Rightarrow> BinaryOps res" where
  "translate_binop s op t =
     bind_res
       (case dyn_cast_type VectorTyID s t of
          Some v \<Rightarrow> bind_res (getVectorElementType s v) (\<lambda>e. Ok (Some e))
        | None \<Rightarrow> Ok t) (\<lambda>t.
     bind_res (deref t) (\<lambda>t.
     let is_fp = isFloatingPointTy s t in
     Ok (if op = 0 then (if is_fp then FAdd else Add)
         else if op = 1 then (if is_fp then FSub else Sub)
         else if op = 2 then (if is_fp then FMul else Mul)
         else if op = 3 then (if is_fp then InvalidBinaryOp else UDiv)
         else if op = 4 then (if is_fp then FDiv else SDiv)
         else if op = 5 then (if is_fp then InvalidBinaryOp else URem)
         else if op = 6 then (if is_fp then FRem else SRem)
         else if op = 7 then (if is_fp then InvalidBinaryOp else Shl)
         else if op = 8 then (if is_fp then InvalidBinaryOp else LShr)
         else if op = 9 then (if is_fp then InvalidBinaryOp else AShr)
         else if op = 10 then (if is_fp then InvalidBinaryOp else And)
         else if op = 11 then (if is_fp then InvalidBinaryOp else Or)
         else if op = 12 then (if is_fp then InvalidBinaryOp else Xor)
         else InvalidBinaryOp)))"

definition translate_castop :: "nat \<Rightarrow> CastOps" where
  "translate_castop op =
     (if op = 0 then Trunc else if op = 1 then ZExt else if op = 2 then SExt
      else if op = 3 then FPToUI else if op = 4 then FPToSI else if op = 5 then UIToFP
      else if op = 6 then SIToFP else if op = 7 then FPTrunc else if op = 8 then FPExt
      else if op = 9 then PtrToInt else if op = 10 then IntToPtr else if op = 11 then BitCast
      else if op = 12 then AddrSpaceCast else InvalidCastOp)"

definition translate_uop :: "mpc \<Rightarrow> nat \<Rightarrow> ty option \<Rightarrow> UnaryOps res" where
  "translate_uop s op t =
     bind_res (deref t) (\<lambda>t. Ok (if op = 0 \<and> isFloatingPointTy s t then FNeg else UInvalid))"

definition translate_atomic_binop :: "nat \<Rightarrow> AtomicBinOp" where
  "translate_atomic_binop op =
     (if op = 0 then RMW_Xchg else if op = 1 then RMW_Add else if op = 2 then RMW_Sub
      else if op = 3 then RMW_And else if op = 4 then RMW_Nand else if op = 5 then RMW_Or
      else if op = 6 then RMW_Xor else if op = 7 then RMW_Max else if op = 8 then RMW_Min
      else if op = 9 then RMW_UMax else if op = 10 then RMW_UMin else if op = 11 then RMW_FAdd
      else if op = 12 then RMW_FSub else RMW_Invalid)"

text \<open>An enumeration with 32-bit underlying type made from a 64-bit operand.\<close>

definition code32 :: "u64 \<Rightarrow> nat" where
  "code32 op = u32_of (unat op)"

definition decode_linkage :: "u64 \<Rightarrow> LinkageTypes" where
  "decode_linkage v =
     (if v = 0 \<or> v = 5 \<or> v = 6 \<or> v = 15 then ExternalLinkage
      else if v = 2 then AppendingLinkage else InternalLinkage)"

end
