(* ===== verification/Bc_Constants.thy ===== *)
theory Bc_Constants
  imports Bc_Context
begin

text \<open>
  \<open>bc/module.cpp\<close>, \<open>parse_constants_record\<close> and \<open>parse_constants_block\<close>: one definition per
  record code. Operands the source reads without a size test are read with \<open>index\<close>, which
  faults outside the record.
\<close>

definition constants_settype :: "u64 list \<Rightarrow> mpc \<Rightarrow> mpc res" where
  "constants_settype ops s =
     (if length ops < 1 then Reject else Ok (s\<lparr>constant_type := get_type s (ops ! 0)\<rparr>))"

definition constants_null :: "mpc \<Rightarrow> mpc res" where
  "constants_null s =
     (case get_constant_type s of (t, s) \<Rightarrow>
      let i = type_id_of s t in
      if isIntegerTy s t then (case ConstantInt_get t 0 s of (v, s) \<Rightarrow> Ok (push_value v s))
      else if isFloatingPointTy s t then (case ConstantFP_get t 0 s of (v, s) \<Rightarrow> Ok (push_value v s))
      else if i = ArrayTyID \<or> i = StructTyID \<or> i = VectorTyID
      then (case ConstantAggregateZero_new t s of (v, s) \<Rightarrow> Ok (push_value v s))
      else if i = PointerTyID then (case ConstantPointerNull_new t s of (v, s) \<Rightarrow> Ok (push_value v s))
      else Reject)"

definition constants_undef :: "mpc \<Rightarrow> mpc res" where
  "constants_undef s =
     (case get_constant_type s of (t, s) \<Rightarrow>
      case UndefValue_get t s of (v, s) \<Rightarrow> Ok (push_value v s))"

definition constants_integer :: "u64 list \<Rightarrow> mpc \<Rightarrow> mpc res" where
  "constants_integer ops s =
     (if length ops < 1 then Reject
      else
        case get_constant_type s of (t, s) \<Rightarrow>
        if \<not> isIntegerTy s t then Reject
        else
          case ConstantInt_get t (decode_sign_rotated_value (ops ! 0)) s of (v, s) \<Rightarrow> Ok (push_value v s))"

definition constants_float :: "u64 list \<Rightarrow> mpc \<Rightarrow> mpc res" where
  "constants_float ops s =
     (if length ops < 1 then Reject
      else
        case get_constant_type s of (t, s) \<Rightarrow>
        if \<not> isFloatingPointTy s t then Reject
        else case ConstantFP_get t (ops ! 0) s of (v, s) \<Rightarrow> Ok (push_value v s))"

text \<open>The elements of an aggregate, looked up by absolute number; a mismatch leaves null.\<close>

fun get_elements :: "(u64 \<times> ty option) list \<Rightarrow> mpc \<Rightarrow> (vref option list \<times> mpc) res" where
  "get_elements [] s = Ok ([], s)"
| "get_elements ((op, t) # es) s =
     bind_res (get_value op t True s) (\<lambda>(v, s).
     bind_res (get_elements es s) (\<lambda>(vs, s). Ok (v # vs, s)))"

definition constants_aggregate :: "u64 list \<Rightarrow> mpc \<Rightarrow> mpc res" where
  "constants_aggregate ops s =
     (case get_constant_type s of (t, s) \<Rightarrow>
      case type_at s t of
        StructType ms _ \<Rightarrow>
          if length ops \<noteq> length ms then Reject
          else
            bind_res (get_elements (zip ops ms) s) (\<lambda>(es, s).
            case ConstantAggregate_new t es s of (v, s) \<Rightarrow> Ok (push_value v s))
      | ArrayType e _ \<Rightarrow>
          bind_res (get_elements (map (\<lambda>op. (op, Some e)) ops) s) (\<lambda>(es, s).
          case ConstantAggregate_new t es s of (v, s) \<Rightarrow> Ok (push_value v s))
      | VectorType _ e \<Rightarrow>
          bind_res (get_elements (map (\<lambda>op. (op, Some e)) ops) s) (\<lambda>(es, s).
          case ConstantAggregate_new t es s of (v, s) \<Rightarrow> Ok (push_value v s))
      | _ \<Rightarrow> (case UndefValue_get t s of (v, s) \<Rightarrow> Ok (push_value v s)))"

definition constants_binop :: "u64 list \<Rightarrow> mpc \<Rightarrow> mpc res" where
  "constants_binop ops s =
     (case get_constant_type s of (t, s) \<Rightarrow>
      bind_res (index ops 0) (\<lambda>o0.
      bind_res (translate_binop s (code32 o0) (Some t)) (\<lambda>op.
      bind_res (index ops 1) (\<lambda>o1.
      bind_res (get_value o1 (Some t) True s) (\<lambda>(a, s).
      bind_res (index ops 2) (\<lambda>o2.
      bind_res (get_value o2 (Some t) True s) (\<lambda>(b, s).
      case ConstantExpr_new (BinaryOps_code op) t [a, b] s of (v, s) \<Rightarrow> Ok (push_value v s))))))))"

definition constants_cast :: "u64 list \<Rightarrow> mpc \<Rightarrow> mpc res" where
  "constants_cast ops s =
     bind_res (index ops 0) (\<lambda>o0.
     let op = translate_castop (code32 o0) in
     case get_constant_type s of (t, s) \<Rightarrow>
     bind_res (index ops 1) (\<lambda>o1.
     bind_res (require (get_type s o1)) (\<lambda>input_value_type.
     bind_res (index ops 2) (\<lambda>o2.
     bind_res (get_value o2 (Some input_value_type) True s) (\<lambda>(a, s).
     case ConstantExpr_new (CastOps_code op) t [a] s of (v, s) \<Rightarrow> Ok (push_value v s))))))"

fun data_elements :: "(u64 \<Rightarrow> mpc \<Rightarrow> vref \<times> mpc) \<Rightarrow> u64 list \<Rightarrow> mpc \<Rightarrow> vref option list \<times> mpc" where
  "data_elements mk [] s = ([], s)"
| "data_elements mk (op # ops) s =
     (case mk op s of (v, s) \<Rightarrow> case data_elements mk ops s of (vs, s) \<Rightarrow> (Some v # vs, s))"

definition data_record :: "ty \<Rightarrow> ty \<Rightarrow> bool \<Rightarrow> u64 list \<Rightarrow> mpc \<Rightarrow> mpc res" where
  "data_record t element_type is_vector ops s =
     (if isFloatingPointTy s element_type \<or> isIntegerTy s element_type then
        (case data_elements (if isFloatingPointTy s element_type then ConstantFP_get element_type
                             else ConstantInt_get element_type) ops s of (es, s) \<Rightarrow>
         case (if is_vector then ConstantDataVector_new t es s else ConstantDataArray_new t es s) of (v, s) \<Rightarrow>
         Ok (push_value v s))
      else Reject)"

definition constants_data :: "u64 list \<Rightarrow> mpc \<Rightarrow> mpc res" where
  "constants_data ops s =
     (case get_constant_type s of (t, s) \<Rightarrow>
      case type_at s t of
        ArrayType e _ \<Rightarrow> data_record t e False ops s
      | VectorType _ e \<Rightarrow> data_record t e True ops s
      | _ \<Rightarrow> Reject)"

text \<open>The (type, value) pairs of a constant GEP; an odd one out is read past the end.\<close>

fun gep_pairs :: "u64 list \<Rightarrow> mpc \<Rightarrow> (vref option list \<times> mpc) res" where
  "gep_pairs [] s = Ok ([], s)"
| "gep_pairs [o1] s = Fault Out_Of_Bounds"
| "gep_pairs (o1 # o2 # ops) s =
     bind_res (get_value o2 (get_type s o1) True s) (\<lambda>(v, s).
     bind_res (gep_pairs ops s) (\<lambda>(vs, s). Ok (v # vs, s)))"

definition constants_gep :: "nat \<Rightarrow> u64 list \<Rightarrow> mpc \<Rightarrow> mpc res" where
  "constants_gep code ops s =
     (if length ops < 2 then Reject
      else
        let typed = (code = GEP_WITH_INRANGE_INDEX \<or> odd (length ops));
            pointee = (if typed then get_type s (ops ! 0) else None);
            i = (if typed then 1 else 0) + (if code = GEP_WITH_INRANGE_INDEX then 1 else 0)
        in
        bind_res (gep_pairs (drop i ops) s) (\<lambda>(es, s).
        if length es < 2 then Reject
        else
          bind_res
            (case pointee of
               Some p \<Rightarrow> Ok p
             | None \<Rightarrow>
                 bind_res (deref (es ! 0)) (\<lambda>base.
                 bind_res (deref (getType s base)) (getPointerElementType s))) (\<lambda>pointee.
          bind_res (resolve_gep_element_type s (Some pointee) es) (\<lambda>t.
          bind_res (require t) (\<lambda>t.
          bind_res (deref (es ! 0)) (\<lambda>base.
          bind_res (cast_type PointerTyID s (getType s base)) (\<lambda>bt.
          case PointerType_get t (getAddressSpace s bt) s of (pt, s) \<Rightarrow>
          case ConstantExpr_new GetElementPtr_code pt es s of (v, s) \<Rightarrow> Ok (push_value v s)))))))
     )"

definition parse_constants_record :: "BlockOrRecord \<Rightarrow> mpc \<Rightarrow> mpc res" where
  "parse_constants_record entry s =
     (if is_block entry then Ok s
      else
        let code = rec_id entry; ops = rec_ops entry in
        if code = SETTYPE then constants_settype ops s
        else if code = CONST_NULL then constants_null s
        else if code = CONST_UNDEF then constants_undef s
        else if code = CONST_INTEGER then constants_integer ops s
        else if code = CONST_FLOAT then constants_float ops s
        else if code = CONST_AGGREGATE then constants_aggregate ops s
        else if code = CONST_BINOP then constants_binop ops s
        else if code = CE_CAST then constants_cast ops s
        else if code = CONST_DATA then constants_data ops s
        else if code = CONST_GEP \<or> code = INBOUNDS_GEP \<or> code = GEP_WITH_INRANGE_INDEX
        then constants_gep code ops s
        else Reject)"

definition parse_constants_block :: "BlockOrRecord \<Rightarrow> mpc \<Rightarrow> mpc res" where
  "parse_constants_block entry s =
     fold_res parse_constants_record (children entry) (s\<lparr>constant_type := None\<rparr>)"

end
