(* ===== verification/Bc_Metadata.thy ===== *)
theory Bc_Metadata
  imports Bc_Context
begin

text \<open>
  \<open>bc/module.cpp\<close>: metadata records and attachments, attribute groups and lists, and the
  value symbol table.
\<close>

section \<open>Metadata\<close>

definition METADATA_NAME :: nat where "METADATA_NAME = 4"
definition METADATA_KIND :: nat where "METADATA_KIND = 6"
definition METADATA_STRING_OLD :: nat where "METADATA_STRING_OLD = 1"
definition METADATA_VALUE :: nat where "METADATA_VALUE = 2"
definition METADATA_NODE :: nat where "METADATA_NODE = 3"
definition METADATA_DISTINCT_NODE :: nat where "METADATA_DISTINCT_NODE = 5"
definition METADATA_NAMED_NODE :: nat where "METADATA_NAMED_NODE = 10"
definition METADATA_ATTACHMENT_CODE :: nat where "METADATA_ATTACHMENT_CODE = 11"

fun get_metadata_list :: "nat list \<Rightarrow> mpc \<Rightarrow> mdref list \<times> mpc" where
  "get_metadata_list [] s = ([], s)"
| "get_metadata_list (i # is) s =
     (case get_metadata i s of (m, s) \<Rightarrow>
      case get_metadata_list is s of (ms, s) \<Rightarrow> (m # ms, s))"

definition set_metadata :: "nat \<Rightarrow> mdref \<Rightarrow> mpc \<Rightarrow> mpc" where
  "set_metadata i m s = s\<lparr>metadata := alist_set i m (metadata s)\<rparr>"

definition metadata_named_node :: "u64 list \<Rightarrow> nat \<Rightarrow> mpc \<Rightarrow> mpc" where
  "metadata_named_node ops i s =
     (case get_metadata_list (map unat ops) s of (ms, s) \<Rightarrow>
      case construct_md (NamedMDNode (current_metadata_name s) (map (dyn_cast_MDNode s) ms)) s of (n, s) \<Rightarrow>
      set_metadata i n (s\<lparr>module := add_named_metadata (current_metadata_name s) n (module s)\<rparr>))"

text \<open>Operands of a node are numbered from one; zero wraps to a key no metadata has.\<close>

definition metadata_node :: "u64 list \<Rightarrow> nat \<Rightarrow> mpc \<Rightarrow> mpc" where
  "metadata_node ops i s =
     (case get_metadata_list (map (\<lambda>op. unat (op - 1)) ops) s of (ms, s) \<Rightarrow>
      case construct_md (MDNode ms (metadata_tween_id s)) s of (n, s) \<Rightarrow>
      set_metadata i n (s\<lparr>metadata_tween_id := metadata_tween_id s + 1,
                         module := add_unnamed_metadata n (module s)\<rparr>))"

definition metadata_value :: "u64 list \<Rightarrow> nat \<Rightarrow> mpc \<Rightarrow> mpc res" where
  "metadata_value ops i s =
     (if length ops < 2 then Reject
      else
        bind_res (get_value (ops ! 1) None True s) (\<lambda>(v, s).
        bind_res (require v) (\<lambda>v.
        bind_res (dyn_cast_value VK_ConstantBase s (Some v)) (\<lambda>c.
        bind_res (require c) (\<lambda>c.
        case construct_md (ConstantAsMetadata c) s of (n, s) \<Rightarrow> Ok (set_metadata i n s))))))"

definition parse_metadata_record :: "BlockOrRecord \<Rightarrow> nat \<Rightarrow> mpc \<Rightarrow> mpc res" where
  "parse_metadata_record entry i s =
     (let code = rec_id entry; ops = rec_ops entry in
      if code = METADATA_NAME then Ok (s\<lparr>current_metadata_name := getString 0 entry\<rparr>)
      else if code = METADATA_NAMED_NODE then Ok (metadata_named_node ops i s)
      else if code = METADATA_DISTINCT_NODE \<or> code = METADATA_NODE then Ok (metadata_node ops i s)
      else if code = METADATA_STRING_OLD then
        (case construct_md (MDString (getString 0 entry)) s of (n, s) \<Rightarrow> Ok (set_metadata i n s))
      else if code = METADATA_VALUE then metadata_value ops i s
      else if code = METADATA_KIND then
        (if length ops < 1 then Reject
         else Ok (s\<lparr>metadata_kind_map := alist_set (unat (ops ! 0)) (getString 1 entry) (metadata_kind_map s)\<rparr>))
      else Ok s)"

definition parse_metadata_block :: "BlockOrRecord \<Rightarrow> mpc \<Rightarrow> mpc res" where
  "parse_metadata_block entry s =
     fold_res (\<lambda>(child, i). parse_metadata_record child i)
       (zip (children entry) [0..<length (children entry)]) s"

definition attach :: "vref \<Rightarrow> u64 list \<Rightarrow> nat \<Rightarrow> mpc \<Rightarrow> mpc res" where
  "attach inst ops i s =
     bind_res (index ops (2 * i + 1)) (\<lambda>k.
     bind_res (index ops (2 * i + 2)) (\<lambda>m.
     let kind = get_metadata_kind s k in
     case get_metadata (unat m) s of (operand, s) \<Rightarrow>
     bind_res (require kind) (\<lambda>kind.
     bind_res (require (dyn_cast_MDNode s operand)) (\<lambda>node.
     Ok (setMetadata inst kind node s)))))"

definition parse_metadata_attachment_record :: "BlockOrRecord \<Rightarrow> mpc \<Rightarrow> mpc res" where
  "parse_metadata_attachment_record entry s =
     (let ops = rec_ops entry in
      if rec_id entry \<noteq> METADATA_ATTACHMENT_CODE then Ok s
      else if length ops < 1 then Reject
      else
        bind_res (require (get_instruction s (ops ! 0))) (\<lambda>inst.
        fold_res (attach inst ops) [0..<(length ops - 1) div 2] s))"

section \<open>Attributes\<close>

definition CodeEntry :: nat where "CodeEntry = 2"
definition GroupCodeEntry :: nat where "GroupCodeEntry = 3"

text \<open>\<open>attribute_groups[op]\<close> inserts an empty group when the key is new.\<close>

definition touch_group :: "nat \<Rightarrow> mpc \<Rightarrow> (string \<times> string) list \<times> mpc" where
  "touch_group k s =
     (case map_of (attribute_groups s) k of
        Some g \<Rightarrow> (g, s)
      | None \<Rightarrow> ([], s\<lparr>attribute_groups := (k, []) # attribute_groups s\<rparr>))"

fun collect_groups :: "nat list \<Rightarrow> mpc \<Rightarrow> (string \<times> string) list \<times> mpc" where
  "collect_groups [] s = ([], s)"
| "collect_groups (k # ks) s =
     (case touch_group k s of (g, s) \<Rightarrow> case collect_groups ks s of (gs, s) \<Rightarrow> (g @ gs, s))"

definition paramattr_entry :: "BlockOrRecord \<Rightarrow> mpc \<Rightarrow> mpc res" where
  "paramattr_entry child s =
     (if is_block child then Ok s
      else if rec_id child \<noteq> CodeEntry then Reject
      else
        case collect_groups (map unat (rec_ops child)) s of (pairs, s) \<Rightarrow>
        Ok (s\<lparr>attribute_lists := attribute_lists s @ [pairs]\<rparr>))"

definition parse_paramattr_block :: "BlockOrRecord \<Rightarrow> mpc \<Rightarrow> mpc res" where
  "parse_paramattr_block entry s = fold_res paramattr_entry (children entry) s"

text \<open>
  The string loops read \<open>child.ops[i]\<close> before they compare \<open>i\<close> with the count, so a string
  that is not terminated inside the record is read past its end.
\<close>

function read_cstring :: "u64 list \<Rightarrow> nat \<Rightarrow> (string \<times> nat) res" where
  "read_cstring ops i =
     (if length ops \<le> i then Fault Out_Of_Bounds
      else if ops ! i \<noteq> 0 then
        bind_res (read_cstring ops (i + 1)) (\<lambda>(str, j). Ok (char_of (unat (ops ! i) mod 256) # str, j))
      else Ok ([], i))"
  by auto
termination
  by (relation "measure (\<lambda>(ops, i). length ops - i)") auto

declare read_cstring.simps [simp del]

definition integer_attribute_has_value :: "nat \<Rightarrow> bool" where
  "integer_attribute_has_value k = (k = 1 \<or> k = 25 \<or> k = 51 \<or> k = 41 \<or> k = 42)"

text \<open>One turn of the loop over a group record: the new index and the attributes it adds.\<close>

definition attribute_step :: "u64 list \<Rightarrow> nat \<Rightarrow> (nat \<times> (string \<times> string) list) res" where
  "attribute_step ops i =
     bind_res (index ops i) (\<lambda>tag.
     if tag = 0 then Ok (i + 2, [])
     else if tag = 1 then
       (if length ops \<le> i + 1 then Reject
        else
          bind_res (index ops (i + 1)) (\<lambda>k.
          Ok (if integer_attribute_has_value (code32 k) then i + 3 else i + 2, [])))
     else if tag = 3 \<or> tag = 4 then
       bind_res (read_cstring ops (i + 1)) (\<lambda>(kind, j).
       if tag = 4 then
         bind_res (read_cstring ops (j + 1)) (\<lambda>(v, j). Ok (j + 1, [(kind, v)]))
       else Ok (j + 1, [(kind, [])]))
     else if tag = 5 \<or> tag = 6 then
       (if length ops \<le> i + 1 then Reject
        else
          bind_res (index ops (i + 1)) (\<lambda>k.
          Ok (if code32 k = 3 \<and> tag = 6 then i + 3 else i + 2, [])))
     else Reject)"

lemma read_cstring_index:
  "read_cstring ops i = Ok (str, j) \<Longrightarrow> i \<le> j \<and> j < length ops"
proof (induction ops i arbitrary: str j rule: read_cstring.induct)
  case (1 ops i)
  show ?case
  proof (cases "length ops \<le> i \<or> ops ! i = 0")
    case True
    then show ?thesis using 1(2) by (subst (asm) read_cstring.simps) (auto split: if_splits)
  next
    case False
    then obtain str' where "read_cstring ops (i + 1) = Ok (str', j)"
      using 1(2) by (subst (asm) read_cstring.simps) auto
    then show ?thesis using 1(1) False by fastforce
  qed
qed

lemma attribute_step_advances: "attribute_step ops i = Ok (j, as) \<Longrightarrow> i < j \<and> i < length ops"
  by (auto simp: attribute_step_def index_Ok_iff bind_res_Ok_iff dest!: read_cstring_index
      split: if_splits prod.splits)

function attribute_loop :: "u64 list \<Rightarrow> nat \<Rightarrow> (nat \<times> (string \<times> string) list) res" where
  "attribute_loop ops i =
     (if i < length ops then
        bind_res (attribute_step ops i) (\<lambda>(j, as).
        bind_res (attribute_loop ops j) (\<lambda>(k, bs). Ok (k, as @ bs)))
      else Ok (i, []))"
  by auto
termination
  by (relation "measure (\<lambda>(ops, i). length ops - i)") (auto dest: attribute_step_advances)

declare attribute_loop.simps [simp del]

definition paramattr_group_entry :: "BlockOrRecord \<Rightarrow> mpc \<Rightarrow> mpc res" where
  "paramattr_group_entry child s =
     (let ops = rec_ops child in
      if is_block child \<or> rec_id child \<noteq> GroupCodeEntry then Ok s
      else if length ops < 3 then Reject
      else if ops ! 1 \<noteq> 4294967295 then Ok s
      else
        case touch_group (unat (ops ! 0)) s of (grp, s) \<Rightarrow>
        bind_res (attribute_loop ops 2) (\<lambda>(i, as).
        if length ops < i then Reject
        else Ok (s\<lparr>attribute_groups := alist_set (unat (ops ! 0)) (grp @ as) (attribute_groups s)\<rparr>)))"

definition parse_paramattr_group_block :: "BlockOrRecord \<Rightarrow> mpc \<Rightarrow> mpc res" where
  "parse_paramattr_group_block entry s =
     (if attribute_groups s \<noteq> [] then Reject
      else fold_res paramattr_group_entry (children entry) s)"

section \<open>Value symbol table\<close>

definition symtab_entry :: "BlockOrRecord \<Rightarrow> mpc \<Rightarrow> mpc res" where
  "symtab_entry e s =
     (if rec_id e = 1 then
        (if length (rec_ops e) < 1 then Reject
         else Ok (s\<lparr>module := add_value_name (unat (rec_ops e ! 0)) (getString 1 e) (module s)\<rparr>))
      else Ok s)"

definition parse_value_symtab :: "BlockOrRecord \<Rightarrow> mpc \<Rightarrow> mpc res" where
  "parse_value_symtab entry s = fold_res symtab_entry (children entry) s"

end
