(* ===== verification/Bc_Instructions.thy ===== *)
theory Bc_Instructions
  imports Bc_Context
begin

text \<open>
  \<open>bc/module.cpp\<close>, \<open>parse_record\<close>: the records of a function body, one definition per case
  of the switch.
\<close>

definition CALL_FMF_BIT :: u64 where "CALL_FMF_BIT = push_bit 17 1"
definition CALL_EXPLICIT_TYPE_BIT :: u64 where "CALL_EXPLICIT_TYPE_BIT = push_bit 15 1"
definition FAST_MATH_UNSAFE_ALGEBRA_BIT :: u64 where "FAST_MATH_UNSAFE_ALGEBRA_BIT = 1"
definition FAST_MATH_ALLOW_CONTRACT_BIT :: u64 where "FAST_MATH_ALLOW_CONTRACT_BIT = push_bit 5 1"

fun new_blocks :: "nat \<Rightarrow> mpc \<Rightarrow> vref list \<times> mpc" where
  "new_blocks 0 s = ([], s)"
| "new_blocks (Suc n) s =
     (case BasicBlock_new s of (b, s) \<Rightarrow> case new_blocks n s of (bs, s) \<Rightarrow> (b # bs, s))"

definition record_declareblocks :: "u64 list \<Rightarrow> mpc \<Rightarrow> mpc res" where
  "record_declareblocks ops s =
     (if length ops < 1 then Reject
      else
        case new_blocks (unat (ops ! 0)) s of (bbs, s) \<Rightarrow>
        bind_res (index bbs 0) (\<lambda>front.
        Ok (s\<lparr>basic_blocks := bbs, basic_block_index := 0, current_bb := Some front\<rparr>)))"

fun call_params :: "(u64 \<times> ty option) list \<Rightarrow> mpc \<Rightarrow> (vref list \<times> mpc) res" where
  "call_params [] s = Ok ([], s)"
| "call_params ((op, t) # ps) s =
     bind_res (get_value op t False s) (\<lambda>(v, s).
     bind_res (require v) (\<lambda>v.
     bind_res (call_params ps s) (\<lambda>(vs, s). Ok (v # vs, s))))"

text \<open>The parameter types a function type declares; other types have none.\<close>

definition param_types :: "mpc \<Rightarrow> ty \<Rightarrow> ty option list" where
  "param_types s t = (case type_at s t of FunctionType _ ps \<Rightarrow> ps | _ \<Rightarrow> [])"

definition record_call :: "u64 list \<Rightarrow> mpc \<Rightarrow> mpc res" where
  "record_call ops s =
     (if length ops \<le> 1 then Reject
      else
        let cc = ops ! 1;
            i = 2
        in
        if cc AND CALL_FMF_BIT \<noteq> 0 \<and> length ops \<le> i then Reject
        else
          let i = (if cc AND CALL_FMF_BIT \<noteq> 0 then i + 1 else i);
              explicit = (cc AND CALL_EXPLICIT_TYPE_BIT \<noteq> 0)
          in
          if explicit \<and> length ops \<le> i then Reject
          else
            bind_res (if explicit then bind_res (cast_type FunctionTyID s (get_type s (ops ! i))) (\<lambda>t. Ok (Some t))
                      else Ok None) (\<lambda>function_type.
            let i = (if explicit then i + 1 else i) in
            if length ops \<le> i then Reject
            else
              bind_res (get_value (ops ! i) None False s) (\<lambda>(v, s).
              bind_res (dyn_cast_value VK_Function s v) (\<lambda>callee.
              bind_res (require callee) (\<lambda>callee.
              bind_res (case function_type of Some t \<Rightarrow> Ok t | None \<Rightarrow> getFunctionType s callee) (\<lambda>ft.
              let i = i + 1;
                  num_params = getNumParams s ft
              in
              if length ops \<noteq> i + num_params then Reject
              else
                bind_res (call_params (zip (drop i ops) (param_types s ft)) s) (\<lambda>(params, s).
                bind_res (CallInst_new ft callee params s) (\<lambda>(inst, s).
                must_add_instruction inst s)))))))
     )"

definition record_ret :: "u64 list \<Rightarrow> mpc \<Rightarrow> mpc res" where
  "record_ret ops s =
     bind_res (if ops \<noteq> [] then get_value (ops ! 0) None False s else Ok (None, s)) (\<lambda>(v, s).
     case ReturnInst_new v s of (inst, s) \<Rightarrow> must_add_instruction inst s)"

definition record_unreachable :: "mpc \<Rightarrow> mpc res" where
  "record_unreachable s = (case UnreachableInst_new s of (inst, s) \<Rightarrow> must_add_instruction inst s)"

definition record_unop :: "u64 list \<Rightarrow> mpc \<Rightarrow> mpc res" where
  "record_unop ops s =
     bind_res (get_value_and_type ops 0 s) (\<lambda>(v, t, i, s).
     bind_res (require v) (\<lambda>v.
     if i = length ops then Reject
     else
       bind_res (index ops i) (\<lambda>op.
       bind_res (translate_uop s (code32 op) t) (\<lambda>uop.
       case UnaryOperator_new uop v s of (inst, s) \<Rightarrow> must_add_instruction inst s))))"

definition record_cmp :: "u64 list \<Rightarrow> mpc \<Rightarrow> mpc res" where
  "record_cmp ops s =
     bind_res (get_value_and_type ops 0 s) (\<lambda>(lhs, lt, i, s).
     bind_res (require lhs) (\<lambda>lhs.
     bind_res (get_value_next ops i lt s) (\<lambda>(rhs, i, s).
     if i = length ops then Reject
     else
       bind_res (index ops i) (\<lambda>pred.
       bind_res (require rhs) (\<lambda>rhs.
       bind_res (deref lt) (\<lambda>t.
       bind_res (CmpInst_new (if isFloatingPointTy s t then VK_FCmp else VK_ICmp) (code32 pred) lhs rhs s) (\<lambda>(inst, s).
       must_add_instruction inst s)))))))"

definition phi_incoming :: "vref \<Rightarrow> ty option \<Rightarrow> u64 list \<Rightarrow> nat \<Rightarrow> mpc \<Rightarrow> mpc res" where
  "phi_incoming phi t ops i s =
     bind_res (index ops (2 * i + 1)) (\<lambda>o1.
     bind_res (if use_relative_id s then Ok (get_value_signed o1 t s) else get_value o1 t False s) (\<lambda>(v, s).
     bind_res (index ops (2 * i + 2)) (\<lambda>o2.
     bind_res (require v) (\<lambda>v.
     bind_res (require (get_basic_block s o2)) (\<lambda>bb.
     Ok (add_incoming phi v bb s))))))"

definition record_phi :: "u64 list \<Rightarrow> mpc \<Rightarrow> mpc res" where
  "record_phi ops s =
     (if length ops < 1 then Reject
      else
        let t = get_type s (ops ! 0);
            num_args = (length ops - 1) div 2
        in
        case PHINode_new t s of (phi, s) \<Rightarrow>
        bind_res (fold_res (phi_incoming phi t ops) [0..<num_args] s) (\<lambda>s.
        must_add_instruction phi s))"

definition record_binop :: "u64 list \<Rightarrow> mpc \<Rightarrow> mpc res" where
  "record_binop ops s =
     bind_res (get_value_and_type ops 0 s) (\<lambda>(lhs, lt, i, s).
     bind_res (require lhs) (\<lambda>lhs.
     bind_res (get_value_next ops i lt s) (\<lambda>(rhs, i, s).
     bind_res (require rhs) (\<lambda>rhs.
     if i = length ops then Reject
     else
       bind_res (index ops i) (\<lambda>op.
       bind_res (translate_binop s (code32 op) lt) (\<lambda>bop.
       case BinaryOperator_new lhs rhs bop s of (inst, s) \<Rightarrow>
       let s = (if i + 1 < length ops
                then setFast inst (ops ! (i + 1) AND (FAST_MATH_UNSAFE_ALGEBRA_BIT OR FAST_MATH_ALLOW_CONTRACT_BIT) \<noteq> 0) s
                else s)
       in must_add_instruction inst s))))))"

definition record_atomicrmw :: "u64 list \<Rightarrow> mpc \<Rightarrow> mpc res" where
  "record_atomicrmw ops s =
     bind_res (get_value_and_type ops 0 s) (\<lambda>(p, pt, i, s).
     bind_res (require p) (\<lambda>p.
     bind_res (isa_type PointerTyID s pt) (\<lambda>is_ptr.
     if \<not> is_ptr then Reject
     else
       bind_res (deref pt) (\<lambda>pt.
       bind_res (getPointerElementType s pt) (\<lambda>et.
       bind_res (get_value_next ops i (Some et) s) (\<lambda>(v, i, s).
       bind_res (require v) (\<lambda>v.
       if i = length ops then Reject
       else
         bind_res (index ops i) (\<lambda>op.
         case AtomicRMWInst_new (getType s v) p v (translate_atomic_binop (code32 op)) s of (inst, s) \<Rightarrow>
         must_add_instruction inst s))))))))"

definition record_cmpxchg :: "u64 list \<Rightarrow> mpc \<Rightarrow> mpc res" where
  "record_cmpxchg ops s =
     bind_res (get_value_and_type ops 0 s) (\<lambda>(p, pt, i, s).
     bind_res (get_value_and_type ops i s) (\<lambda>(cmp, ct, i, s).
     bind_res (require p) (\<lambda>p.
     bind_res (require cmp) (\<lambda>cmp.
     bind_res (isa_type PointerTyID s pt) (\<lambda>is_ptr.
     if \<not> is_ptr then Reject
     else
       bind_res (get_value_next ops i ct s) (\<lambda>(nv, i, s).
       bind_res (AtomicCmpXchgInst_new p cmp nv s) (\<lambda>(inst, s).
       must_add_instruction inst s)))))))"

definition record_cast :: "u64 list \<Rightarrow> mpc \<Rightarrow> mpc res" where
  "record_cast ops s =
     bind_res (get_value_and_type ops 0 s) (\<lambda>(v, vt, i, s).
     bind_res (require v) (\<lambda>v.
     if length ops < i + 2 then Reject
     else
       bind_res (require (get_type s (ops ! i))) (\<lambda>t.
       case CastInst_new t v (translate_castop (code32 (ops ! (i + 1)))) s of (inst, s) \<Rightarrow>
       must_add_instruction inst s)))"

text \<open>The condition's type is used before the condition is tested.\<close>

definition record_select :: "u64 list \<Rightarrow> mpc \<Rightarrow> mpc res" where
  "record_select ops s =
     bind_res (get_value_and_type ops 0 s) (\<lambda>(tv, tt, i, s).
     bind_res (require tv) (\<lambda>tv.
     if length ops < i + 2 then Reject
     else
       bind_res (get_value (ops ! i) tt False s) (\<lambda>(fv, s).
       bind_res (get_value_and_type ops (i + 1) s) (\<lambda>(cond, ct, i, s).
       bind_res (require fv) (\<lambda>fv.
       bind_res (deref ct) (\<lambda>ct.
       case getInt1Ty s of (b, s) \<Rightarrow>
       if getScalarType s ct \<noteq> b then Reject
       else
         case SelectInst_new tv fv cond s of (inst, s) \<Rightarrow> must_add_instruction inst s))))))"

fun extract_walk :: "mpc \<Rightarrow> ty option \<Rightarrow> u64 list \<Rightarrow> (ty option \<times> nat list) res" where
  "extract_walk s t [] = Ok (t, [])"
| "extract_walk s t (op # ops) =
     (let element = u32_of (unat op) in
      bind_res (deref t) (\<lambda>t.
      bind_res
        (if type_id_of s t = StructTyID then
           bind_res (getStructNumElements s t) (\<lambda>n.
           if n \<le> element then Reject else getStructElementType s t element)
         else if type_id_of s t = ArrayTyID then bind_res (getArrayElementType s t) (\<lambda>e. Ok (Some e))
         else if type_id_of s t = VectorTyID then bind_res (getVectorElementType s t) (\<lambda>e. Ok (Some e))
         else Reject) (\<lambda>t.
      bind_res (extract_walk s t ops) (\<lambda>(t, is). Ok (t, element # is)))))"

definition record_extractval :: "u64 list \<Rightarrow> mpc \<Rightarrow> mpc res" where
  "record_extractval ops s =
     bind_res (get_value_and_type ops 0 s) (\<lambda>(agg, t, i, s).
     bind_res (require agg) (\<lambda>agg.
     if i = length ops then Reject
     else
       bind_res (extract_walk s t (drop i ops)) (\<lambda>(t, indices).
       case ExtractValueInst_new t agg indices s of (inst, s) \<Rightarrow> must_add_instruction inst s)))"

definition record_br :: "u64 list \<Rightarrow> mpc \<Rightarrow> mpc res" where
  "record_br ops s =
     (if length ops < 1 then Reject
      else
        bind_res (require (get_basic_block s (ops ! 0))) (\<lambda>true_block.
        bind_res (add_successor true_block s) (\<lambda>s.
        if length ops = 1 then
          (case BranchInst_new true_block s of (inst, s) \<Rightarrow> must_add_instruction inst s)
        else if length ops = 3 then
          bind_res (require (get_basic_block s (ops ! 1))) (\<lambda>false_block.
          bind_res (add_successor false_block s) (\<lambda>s.
          case getInt1Ty s of (b, s) \<Rightarrow>
          bind_res (get_value (ops ! 2) (Some b) False s) (\<lambda>(cond, s).
          case CondBranchInst_new true_block false_block cond s of (inst, s) \<Rightarrow>
          must_add_instruction inst s)))
        else Reject)))"

definition switch_case :: "vref \<Rightarrow> ty \<Rightarrow> u64 list \<Rightarrow> nat \<Rightarrow> mpc \<Rightarrow> mpc res" where
  "switch_case inst t ops i s =
     bind_res (index ops (3 + 2 * i)) (\<lambda>o1.
     bind_res (get_value o1 (Some t) True s) (\<lambda>(v, s).
     bind_res (index ops (4 + 2 * i)) (\<lambda>o2.
     bind_res (require v) (\<lambda>v.
     bind_res (require (get_basic_block s o2)) (\<lambda>bb.
     bind_res (add_successor bb s) (\<lambda>s.
     Ok (addCase inst v bb s)))))))"

definition record_switch :: "u64 list \<Rightarrow> mpc \<Rightarrow> mpc res" where
  "record_switch ops s =
     (if length ops < 3 then Reject
      else
        let t = get_type s (ops ! 0) in
        bind_res (get_value (ops ! 1) None False s) (\<lambda>(cond, s).
        let default_block = get_basic_block s (ops ! 2) in
        bind_res (require t) (\<lambda>t.
        bind_res (require cond) (\<lambda>cond.
        bind_res (require default_block) (\<lambda>default_block.
        bind_res (add_successor default_block s) (\<lambda>s.
        bind_res (SwitchInst_new cond default_block s) (\<lambda>(inst, s).
        bind_res (fold_res (switch_case inst t ops) [0..<(length ops - 3) div 2] s) (\<lambda>s.
        must_add_instruction inst s))))))))"

definition record_alloca :: "u64 list \<Rightarrow> mpc \<Rightarrow> mpc res" where
  "record_alloca ops s =
     (if length ops < 3 then Reject
      else
        let allocated_type = get_type s (ops ! 0); t = get_type s (ops ! 1) in
        bind_res (get_value (ops ! 2) None True s) (\<lambda>(n, s).
        bind_res (require allocated_type) (\<lambda>allocated_type.
        bind_res (require t) (\<lambda>_.
        bind_res (require n) (\<lambda>n.
        case PointerType_get allocated_type 0 s of (pt, s) \<Rightarrow>
        case AllocaInst_new pt n s of (inst, s) \<Rightarrow> must_add_instruction inst s)))))"

function gep_args :: "u64 list \<Rightarrow> nat \<Rightarrow> mpc \<Rightarrow> (vref list \<times> mpc) res" where
  "gep_args ops i s =
     (if i < length ops then
        bind_res (get_value_and_type ops i s) (\<lambda>(v, t, j, s).
        bind_res (require v) (\<lambda>v.
        if i < j then bind_res (gep_args ops j s) (\<lambda>(vs, s). Ok (v # vs, s)) else Fault Out_Of_Fuel))
      else Ok ([], s))"
  by auto
termination
  by (relation "measure (\<lambda>(ops, i, s). length ops - i)") auto

declare gep_args.simps [simp del]

lemma get_value_and_type_advances:
  "get_value_and_type ops i s = Ok (v, t, j, s') \<Longrightarrow> i < length ops \<Longrightarrow> i < j"
  by (auto simp: get_value_and_type_def Let_def split: if_splits prod.splits)

definition record_gep :: "u64 list \<Rightarrow> mpc \<Rightarrow> mpc res" where
  "record_gep ops s =
     (if length ops < 3 then Reject
      else
        let inbounds = (ops ! 0 \<noteq> 0); t = get_type s (ops ! 1) in
        bind_res (gep_args ops 2 s) (\<lambda>(args, s).
        bind_res (resolve_gep_element_type s t (map Some args)) (\<lambda>t.
        bind_res (require t) (\<lambda>t.
        bind_res (index args 0) (\<lambda>base.
        bind_res (cast_type PointerTyID s (getType s base)) (\<lambda>bt.
        case PointerType_get t (getAddressSpace s bt) s of (pt, s) \<Rightarrow>
        case GetElementPtrInst_new pt args inbounds s of (inst, s) \<Rightarrow>
        must_add_instruction inst s))))))"

text \<open>The result of \<open>add_instruction\<close> is dropped here.\<close>

definition record_load :: "u64 list \<Rightarrow> mpc \<Rightarrow> mpc res" where
  "record_load ops s =
     bind_res (get_value_and_type ops 0 s) (\<lambda>(p, pt, i, s).
     if i + 2 \<noteq> length ops \<and> i + 3 \<noteq> length ops then Reject
     else
       bind_res (require p) (\<lambda>p.
       bind_res (isa_type PointerTyID s pt) (\<lambda>is_ptr.
       if \<not> is_ptr then Reject
       else
         bind_res
           (if i + 3 = length ops then Ok (get_type s (ops ! i))
            else bind_res (deref pt) (\<lambda>pt. bind_res (getPointerElementType s pt) (\<lambda>e. Ok (Some e)))) (\<lambda>loaded_type.
         case LoadInst_new loaded_type p s of (inst, s) \<Rightarrow>
         bind_res (add_instruction inst s) (\<lambda>(_, s). Ok s)))))"

definition record_store :: "u64 list \<Rightarrow> mpc \<Rightarrow> mpc res" where
  "record_store ops s =
     bind_res (get_value_and_type ops 0 s) (\<lambda>(p, pt, i, s).
     bind_res (get_value_and_type ops i s) (\<lambda>(v, vt, i, s).
     bind_res (require p) (\<lambda>p.
     bind_res (require v) (\<lambda>v.
     if i + 2 \<noteq> length ops then Reject
     else
       bind_res (StoreInst_new p v s) (\<lambda>(inst, s).
       must_add_instruction inst s)))))"

definition record_shufflevec :: "u64 list \<Rightarrow> mpc \<Rightarrow> mpc res" where
  "record_shufflevec ops s =
     bind_res (get_value_and_type ops 0 s) (\<lambda>(a, at, i, s).
     bind_res (get_value_next ops i at s) (\<lambda>(b, i, s).
     bind_res (get_value_and_type ops i s) (\<lambda>(shuf, st, i, s).
     bind_res (require a) (\<lambda>a.
     bind_res (require b) (\<lambda>b.
     bind_res (require shuf) (\<lambda>shuf.
     bind_res (isa_type VectorTyID s at) (\<lambda>is_vec.
     if \<not> is_vec then Reject
     else
       bind_res (deref (getType s shuf)) (\<lambda>sht.
       bind_res (getVectorNumElements s sht) (\<lambda>n.
       bind_res (cast_type VectorTyID s at) (\<lambda>vt.
       bind_res (getVectorElementType s vt) (\<lambda>et.
       case VectorType_get n et s of (rt, s) \<Rightarrow>
       bind_res (ShuffleVectorInst_new rt a b shuf s) (\<lambda>(inst, s).
       must_add_instruction inst s))))))))))))"

definition record_extractelt :: "u64 list \<Rightarrow> mpc \<Rightarrow> mpc res" where
  "record_extractelt ops s =
     bind_res (get_value_and_type ops 0 s) (\<lambda>(v, vt, i, s).
     bind_res (require v) (\<lambda>v.
     bind_res (isa_type VectorTyID s vt) (\<lambda>is_vec.
     if \<not> is_vec then Reject
     else
       bind_res (get_value_and_type ops i s) (\<lambda>(e, et, i, s).
       bind_res (require e) (\<lambda>e.
       bind_res (ExtractElementInst_new v e s) (\<lambda>(inst, s).
       must_add_instruction inst s))))))"

definition record_insertelt :: "u64 list \<Rightarrow> mpc \<Rightarrow> mpc res" where
  "record_insertelt ops s =
     bind_res (get_value_and_type ops 0 s) (\<lambda>(v, vt, i, s).
     bind_res (require v) (\<lambda>v.
     bind_res (isa_type VectorTyID s vt) (\<lambda>is_vec.
     if \<not> is_vec then Reject
     else
       bind_res (cast_type VectorTyID s vt) (\<lambda>vt.
       bind_res (getVectorElementType s vt) (\<lambda>et.
       bind_res (get_value_next ops i (Some et) s) (\<lambda>(x, i, s).
       bind_res (get_value_and_type ops i s) (\<lambda>(e, et, i, s).
       bind_res (require x) (\<lambda>x.
       bind_res (require e) (\<lambda>e.
       case InsertElementInst_new v x e s of (inst, s) \<Rightarrow> must_add_instruction inst s)))))))))"

definition parse_record :: "BlockOrRecord \<Rightarrow> mpc \<Rightarrow> mpc res" where
  "parse_record entry s =
     (let code = rec_id entry; ops = rec_ops entry in
      if code = 1 then record_declareblocks ops s
      else if code = 34 then record_call ops s
      else if code = 10 then record_ret ops s
      else if code = 15 then record_unreachable s
      else if code = 56 then record_unop ops s
      else if code = 9 \<or> code = 28 then record_cmp ops s
      else if code = 16 then record_phi ops s
      else if code = 2 then record_binop ops s
      else if code = 38 then record_atomicrmw ops s
      else if code = 46 then record_cmpxchg ops s
      else if code = 3 then record_cast ops s
      else if code = 5 \<or> code = 29 then record_select ops s
      else if code = 26 then record_extractval ops s
      else if code = 11 then record_br ops s
      else if code = 12 then record_switch ops s
      else if code = 19 then record_alloca ops s
      else if code = 43 then record_gep ops s
      else if code = 20 then record_load ops s
      else if code = 44 then record_store ops s
      else if code = 8 then record_shufflevec ops s
      else if code = 6 then record_extractelt ops s
      else if code = 7 then record_insertelt ops s
      else Reject)"

end
