(* ===== verification/Bc_Module.thy ===== *)
theory Bc_Module
  imports Bc_Constants Bc_Metadata Bc_Instructions
begin

text \<open>
  \<open>bc/module.cpp\<close>: types, module-level records, function bodies and \<open>parseIR\<close>.
\<close>

section \<open>Types\<close>

definition type_struct :: "nat \<Rightarrow> u64 list \<Rightarrow> mpc \<Rightarrow> mpc res" where
  "type_struct code ops s =
     (if length ops < 1 then Reject
      else
        let members = map (get_type s) (drop 1 ops);
            name = (if code = 20 then current_struct_name s else [])
        in case StructType_get members name s of (t, s) \<Rightarrow> Ok (add_type t s))"

definition type_function :: "u64 list \<Rightarrow> mpc \<Rightarrow> mpc res" where
  "type_function ops s =
     (if length ops < 2 then Reject
      else
        let argument_types = map (get_type s) (drop 2 ops) in
        bind_res (require (get_type s (ops ! 1))) (\<lambda>r.
        case construct_type (FunctionType r argument_types) s of (t, s) \<Rightarrow> Ok (add_type t s)))"

definition type_derived :: "nat \<Rightarrow> u64 list \<Rightarrow> mpc \<Rightarrow> mpc res" where
  "type_derived code ops s =
     (if length ops < 2 then Reject
      else
        bind_res (require (get_type s (ops ! (if code = 8 then 0 else 1)))) (\<lambda>e.
        case (if code = 8 then PointerType_get e (u32_of (unat (ops ! 1))) s
              else if code = 11 then ArrayType_get e (unat (ops ! 0)) s
              else VectorType_get (u32_of (unat (ops ! 0))) e s) of (t, s) \<Rightarrow>
        Ok (add_type t s)))"

definition type_integer :: "u64 list \<Rightarrow> mpc \<Rightarrow> mpc res" where
  "type_integer ops s =
     (if length ops < 1 then Reject
      else if unat (ops ! 0) \<le> 64 then (case getIntTy (unat (ops ! 0)) s of (t, s) \<Rightarrow> Ok (add_type t s))
      else Reject)"

definition basic_type_code :: "nat \<Rightarrow> TypeID option" where
  "basic_type_code code =
     (if code = 2 then Some VoidTyID else if code = 10 then Some HalfTyID
      else if code = 3 then Some FloatTyID else if code = 4 then Some DoubleTyID
      else if code = 5 then Some LabelTyID else if code = 16 then Some MetadataTyID
      else if code = 6 then Some OpaqueTyID else None)"

definition parse_type :: "BlockOrRecord \<Rightarrow> mpc \<Rightarrow> mpc res" where
  "parse_type child s =
     (let code = rec_id child; ops = rec_ops child in
      if code = 1 then Ok s
      else if code = 19 then Ok (s\<lparr>current_struct_name := getString 0 child\<rparr>)
      else if code = 8 \<or> code = 11 \<or> code = 12 then type_derived code ops s
      else if code = 7 then type_integer ops s
      else if code = 20 \<or> code = 18 then type_struct code ops s
      else if code = 21 then type_function ops s
      else
        case basic_type_code code of
          Some i \<Rightarrow> (case getTy i s of (t, s) \<Rightarrow> Ok (add_type t s))
        | None \<Rightarrow> Reject)"

definition parse_types :: "BlockOrRecord \<Rightarrow> mpc \<Rightarrow> mpc res" where
  "parse_types entry s = fold_res parse_type (children entry) s"

section \<open>Module records\<close>

definition parse_global_variable_record :: "BlockOrRecord \<Rightarrow> mpc \<Rightarrow> mpc res" where
  "parse_global_variable_record entry s =
     (let ops = rec_ops entry in
      if use_strtab s then Reject
      else if length ops < 4 then Reject
      else
        let t = get_type s (ops ! 0);
            is_const = (ops ! 1 AND 1 \<noteq> 0);
            explicit_type = (ops ! 1 AND 2 \<noteq> 0)
        in
        bind_res
          (if explicit_type then Ok (u32_of (unat (drop_bit 2 (ops ! 1))), t)
           else
             bind_res (cast_type PointerTyID s t) (\<lambda>p.
             bind_res (getPointerElementType s p) (\<lambda>e. Ok (getAddressSpace s p, Some e)))) (\<lambda>(address_space, t).
        bind_res (require t) (\<lambda>t.
        let linkage = decode_linkage (ops ! 3) in
        case PointerType_get t address_space s of (pt, s) \<Rightarrow>
        case GlobalVariable_new pt linkage is_const s of (g, s) \<Rightarrow>
        bind_res (add_value g (s\<lparr>module := add_global_variable g (module s)\<rparr>)) (\<lambda>s.
        Ok (if ops ! 2 \<noteq> 0
            then s\<lparr>global_initializations := global_initializations s @ [(g, ops ! 2 - 1)]\<rparr>
            else s)))))"

definition parse_function_record :: "BlockOrRecord \<Rightarrow> mpc \<Rightarrow> mpc res" where
  "parse_function_record entry s =
     (let ops = rec_ops entry in
      if use_strtab s then Reject
      else if length ops < 3 then Reject
      else
        bind_res (require (get_type s (ops ! 0))) (\<lambda>t.
        let is_proto = (ops ! 2 \<noteq> 0) in
        bind_res
          (case dyn_cast_type FunctionTyID s (Some t) of
             Some ft \<Rightarrow> Ok ft
           | None \<Rightarrow>
               bind_res (cast_type PointerTyID s (Some t)) (\<lambda>p.
               bind_res (getPointerElementType s p) (\<lambda>e. cast_type FunctionTyID s (Some e)))) (\<lambda>ft.
        case Function_new ft (length (vvalues s)) s of (f, s) \<Rightarrow>
        let s = (if 5 \<le> length ops \<and> ops ! 4 \<noteq> 0 \<and> unat (ops ! 4 - 1) < length (attribute_lists s)
                 then set_attributes f (attribute_lists s ! unat (ops ! 4 - 1)) s else s);
            s = push_value f s
        in Ok (if is_proto then s else s\<lparr>functions_with_bodies := functions_with_bodies s @ [f]\<rparr>))))"

definition parse_version_record :: "BlockOrRecord \<Rightarrow> mpc \<Rightarrow> mpc res" where
  "parse_version_record entry s =
     (let ops = rec_ops entry in
      if length ops < 1 then Reject
      else
        let version = u32_of (unat (ops ! 0)) in
        Ok (s\<lparr>use_relative_id := (1 \<le> version), use_strtab := (2 \<le> version)\<rparr>))"

section \<open>Function bodies\<close>

definition parse_function_child_block :: "BlockOrRecord \<Rightarrow> mpc \<Rightarrow> mpc res" where
  "parse_function_child_block entry s =
     (case KnownBlocks_of (rec_id entry) of
        CONSTANTS_BLOCK \<Rightarrow> fold_res parse_constants_record (children entry) s
      | METADATA_ATTACHMENT \<Rightarrow> fold_res parse_metadata_attachment_record (children entry) s
      | _ \<Rightarrow> Ok s)"

definition parse_body_child :: "BlockOrRecord \<Rightarrow> mpc \<Rightarrow> mpc res" where
  "parse_body_child child s = (if is_block child then parse_function_child_block child s else parse_record child s)"

definition add_param :: "vref \<Rightarrow> ty \<Rightarrow> nat \<Rightarrow> mpc \<Rightarrow> mpc res" where
  "add_param f ft i s =
     bind_res (getParamType s ft i) (\<lambda>t.
     case Argument_new t i s of (a, s) \<Rightarrow> add_value a (Function_add_argument f a s))"

text \<open>The next function with a body: the list is reversed once, then popped from the back.\<close>

definition next_function :: "mpc \<Rightarrow> (vref \<times> mpc) res" where
  "next_function s =
     (let s = (if seen_first_function_body s then s
               else s\<lparr>functions_with_bodies := rev (functions_with_bodies s), seen_first_function_body := True\<rparr>)
      in
      if functions_with_bodies s = [] then Reject
      else
        let f = last (functions_with_bodies s) in
        Ok (f, s\<lparr>cur_function := Some f, functions_with_bodies := butlast (functions_with_bodies s)\<rparr>))"

definition parse_function_body :: "BlockOrRecord \<Rightarrow> mpc \<Rightarrow> mpc res" where
  "parse_function_body entry s =
     (let global_values = vvalues s in
      bind_res (next_function s) (\<lambda>(f, s).
      bind_res (getFunctionType s f) (\<lambda>ft.
      bind_res (fold_res (add_param f ft) [0..<getNumParams s ft] s) (\<lambda>s.
      bind_res (fold_res parse_body_child (children entry) s) (\<lambda>s.
      bind_res (resolve_forward_references s) (\<lambda>s.
      bind_res (resolve_global_initializations s) (\<lambda>s.
      let s = set_basic_blocks f (basic_blocks s) s in
      Ok (s\<lparr>basic_blocks := [], basic_block_index := 0,
            module := add_function_implementation f (module s),
            vvalues := global_values, instructions := []\<rparr>))))))))"

section \<open>The module\<close>

definition parse_toplevel_child :: "BlockOrRecord \<Rightarrow> mpc \<Rightarrow> mpc res" where
  "parse_toplevel_child child s =
     (if is_block child then
        (case KnownBlocks_of (rec_id child) of
           VALUE_SYMTAB_BLOCK \<Rightarrow> parse_value_symtab child s
         | FUNCTION_BLOCK \<Rightarrow> parse_function_body child s
         | TYPE_BLOCK \<Rightarrow> parse_types child s
         | CONSTANTS_BLOCK \<Rightarrow> parse_constants_block child s
         | METADATA_BLOCK \<Rightarrow> parse_metadata_block child s
         | PARAMATTR_BLOCK \<Rightarrow> parse_paramattr_block child s
         | PARAMATTR_GROUP_BLOCK \<Rightarrow> parse_paramattr_group_block child s
         | _ \<Rightarrow> Ok s)
      else if rec_id child = 1 then parse_version_record child s
      else if rec_id child = 8 then parse_function_record child s
      else if rec_id child = 7 then parse_global_variable_record child s
      else Ok s)"

text \<open>
  \<open>reader\<close> is the vendored bitstream decoder: the top-level block and whether the stream
  was consumed.
\<close>

definition parseIR :: "('b \<Rightarrow> BlockOrRecord \<times> bool) \<Rightarrow> 'b \<Rightarrow> mpc res" where
  "parseIR reader data =
     (case reader data of (toplevel, at_end) \<Rightarrow>
      if KnownBlocks_of (rec_id toplevel) \<noteq> MODULE_BLOCK then Reject
      else if \<not> at_end then Reject
      else fold_res parse_toplevel_child (children toplevel) initial_context)"

end
