(* ===== verification/Bc_Heap_Invariant.thy ===== *)
theory Bc_Heap_Invariant
  imports Bc_Module
begin

text \<open>
  The representation invariant of the parsed module's object graph: every pointer is null or
  leads to an object of the class its holder expects, the payload of an object agrees with
  its \<open>ValueKind\<close>, a resolved proxy leads to a value that is no proxy, and types are
  hash-consed. The theory shows that allocation and the mutators of \<open>bc/instruction.cpp\<close> and
  \<open>bc/function.cpp\<close> keep it.
\<close>

section \<open>The heap inside a parser state\<close>

definition hp :: "'a Heap_scheme \<Rightarrow> Heap" where
  "hp s = \<lparr>type_heap = type_heap s, type_cache = type_cache s, vheap = vheap s, mheap = mheap s\<rparr>"

lemma hp_sel [simp]:
  "type_heap (hp s) = type_heap s" "type_cache (hp s) = type_cache s"
  "vheap (hp s) = vheap s" "mheap (hp s) = mheap s"
  by (simp_all add: hp_def)

lemma hp_id [simp]: "hp (h :: Heap) = h"
  by (simp add: hp_def)

lemma hp_upd [simp]:
  "hp (s\<lparr>cur_function := a1\<rparr>) = hp s" "hp (s\<lparr>module := a2\<rparr>) = hp s"
  "hp (s\<lparr>basic_blocks := a3\<rparr>) = hp s" "hp (s\<lparr>vvalues := a4\<rparr>) = hp s"
  "hp (s\<lparr>instructions := a5\<rparr>) = hp s" "hp (s\<lparr>types := a6\<rparr>) = hp s"
  "hp (s\<lparr>functions_with_bodies := a7\<rparr>) = hp s" "hp (s\<lparr>metadata := a8\<rparr>) = hp s"
  "hp (s\<lparr>metadata_kind_map := a9\<rparr>) = hp s" "hp (s\<lparr>attribute_lists := a10\<rparr>) = hp s"
  "hp (s\<lparr>attribute_groups := a11\<rparr>) = hp s" "hp (s\<lparr>constant_type := a12\<rparr>) = hp s"
  "hp (s\<lparr>current_metadata_name := a13\<rparr>) = hp s" "hp (s\<lparr>current_struct_name := a14\<rparr>) = hp s"
  "hp (s\<lparr>current_bb := a15\<rparr>) = hp s" "hp (s\<lparr>basic_block_index := a16\<rparr>) = hp s"
  "hp (s\<lparr>pending_forward_references := a17\<rparr>) = hp s" "hp (s\<lparr>global_initializations := a18\<rparr>) = hp s"
  "hp (s\<lparr>tween_id := a19\<rparr>) = hp s" "hp (s\<lparr>metadata_tween_id := a20\<rparr>) = hp s"
  "hp (s\<lparr>use_relative_id := a21\<rparr>) = hp s" "hp (s\<lparr>use_strtab := a22\<rparr>) = hp s"
  "hp (s\<lparr>seen_first_function_body := a23\<rparr>) = hp s"
  by (simp_all add: hp_def)

lemma hp_heap_upd [simp]:
  "hp (r\<lparr>vheap := vs\<rparr>) = (hp r)\<lparr>vheap := vs\<rparr>" "hp (r\<lparr>mheap := ms\<rparr>) = (hp r)\<lparr>mheap := ms\<rparr>"
  "hp (r\<lparr>type_heap := th\<rparr>) = (hp r)\<lparr>type_heap := th\<rparr>" "hp (r\<lparr>type_cache := tc\<rparr>) = (hp r)\<lparr>type_cache := tc\<rparr>"
  by (simp_all add: hp_def)

lemma hp_at [simp]:
  "value_at (hp s) = value_at s" "type_at (hp s) = type_at s" "md_at (hp s) = md_at s"
  "type_id_of (hp s) = type_id_of s"
  "type_ref (hp s) = type_ref s" "type_ref_opt (hp s) = type_ref_opt s" "types_ok (hp s) = types_ok s"
  by (simp_all add: fun_eq_iff value_at_def type_at_def md_at_def type_id_of_def type_ref_def type_ref_opt_def types_ok_def)

lemma type_at_upd [simp]:
  "type_at (r\<lparr>vheap := vs\<rparr>) = type_at r" "type_at (r\<lparr>mheap := ms\<rparr>) = type_at r"
  "type_id_of (r\<lparr>vheap := vs\<rparr>) = type_id_of r" "type_id_of (r\<lparr>mheap := ms\<rparr>) = type_id_of r"
  "type_ref (r\<lparr>vheap := vs\<rparr>) = type_ref r" "type_ref (r\<lparr>mheap := ms\<rparr>) = type_ref r"
  "type_ref_opt (r\<lparr>vheap := vs\<rparr>) = type_ref_opt r" "type_ref_opt (r\<lparr>mheap := ms\<rparr>) = type_ref_opt r"
  "types_ok (r\<lparr>vheap := vs\<rparr>) = types_ok r" "types_ok (r\<lparr>mheap := ms\<rparr>) = types_ok r"
  by (simp_all add: fun_eq_iff type_at_def type_id_of_def type_ref_def type_ref_opt_def types_ok_def)

section \<open>References\<close>

definition vok :: "Heap \<Rightarrow> vref \<Rightarrow> bool" where
  "vok h v \<longleftrightarrow> v < length (vheap h)"

definition kind_ref :: "Heap \<Rightarrow> ValueKind set \<Rightarrow> vref \<Rightarrow> bool" where
  "kind_ref h K v \<longleftrightarrow> v < length (vheap h) \<and> vkind (vheap h ! v) \<in> K"

abbreviation "inst_kinds \<equiv> {k. Instruction_is_base_of k}"
abbreviation "const_kinds \<equiv> {k. Constant_is_base_of k}"

definition mok :: "Heap \<Rightarrow> mdref \<Rightarrow> bool" where
  "mok h m \<longleftrightarrow> m < length (mheap h)"

abbreviation "all_opt P ps \<equiv> (\<forall>v. Some v \<in> set ps \<longrightarrow> P v)"

fun specific_ok :: "Heap \<Rightarrow> Specific \<Rightarrow> bool" where
  "specific_ok h (I_Return p) = (\<forall>v. p = Some v \<longrightarrow> vok h v)"
| "specific_ok h (I_Call f) = kind_ref h {VK_Function} f"
| "specific_ok h (I_Alloca v) = vok h v"
| "specific_ok h (I_Branch bbs p) = ((\<forall>b \<in> set bbs. kind_ref h {VK_BasicBlock} b) \<and> (\<forall>v. p = Some v \<longrightarrow> vok h v))"
| "specific_ok h (I_Switch c d cs) =
     (vok h c \<and> kind_ref h {VK_BasicBlock} d \<and> (\<forall>c \<in> set cs. vok h (fst c) \<and> kind_ref h {VK_BasicBlock} (snd c)))"
| "specific_ok h (I_PHI vs) = (all_opt (vok h) (map fst vs) \<and> (\<forall>b \<in> set (map snd vs). kind_ref h {VK_BasicBlock} b))"
| "specific_ok h (I_AtomicRMW p v _) = (vok h p \<and> vok h v)"
| "specific_ok h (I_AtomicCmpXchg p v c) = (vok h p \<and> vok h v \<and> vok h c)"
| "specific_ok h (I_ExtractElement v i) = (vok h v \<and> vok h i)"
| "specific_ok h _ = True"

text \<open>Which members go with which instruction kind.\<close>

fun specific_kinds :: "Specific \<Rightarrow> ValueKind set" where
  "specific_kinds I_None = {VK_Unreachable, VK_Select, VK_Load, VK_Store, VK_InsertElement}"
| "specific_kinds (I_Return _) = {VK_Return}"
| "specific_kinds (I_Call _) = {VK_Call}"
| "specific_kinds (I_Unary _) = {VK_UnaryOperator}"
| "specific_kinds (I_Binary _ _) = {VK_BinaryOperator}"
| "specific_kinds (I_Cast _) = {VK_Cast}"
| "specific_kinds (I_Cmp _) = {VK_FCmp, VK_ICmp}"
| "specific_kinds (I_ExtractValue _) = {VK_ExtractValue}"
| "specific_kinds (I_Alloca _) = {VK_Alloca}"
| "specific_kinds (I_GetElementPtr _) = {VK_GetElementPtr}"
| "specific_kinds (I_Branch _ _) = {VK_Branch}"
| "specific_kinds (I_Switch _ _ _) = {VK_Switch}"
| "specific_kinds (I_PHI _) = {VK_PHI}"
| "specific_kinds (I_AtomicRMW _ _ _) = {VK_AtomicRMW}"
| "specific_kinds (I_AtomicCmpXchg _ _ _) = {VK_AtomicCmpXchg}"
| "specific_kinds (I_ShuffleVector _) = {VK_ShuffleVector}"
| "specific_kinds (I_ExtractElement _ _) = {VK_ExtractElement}"

definition terminator_kinds :: "ValueKind set" where
  "terminator_kinds = {VK_Return, VK_Unreachable, VK_Branch, VK_Switch}"

fun body_ok :: "Heap \<Rightarrow> ValueKind \<Rightarrow> Body \<Rightarrow> bool" where
  "body_ok h k B_Plain = (k \<in> {VK_Undef, VK_ConstantAggregateZero, VK_ConstantPointerNull})"
| "body_ok h k (B_Argument _) = (k = VK_Argument)"
| "body_ok h k (B_Function i t bbs as at) =
     (k = VK_Function \<and> type_ref h t \<and> type_id_of h t = FunctionTyID \<and>
      (\<forall>b \<in> set bbs. kind_ref h {VK_BasicBlock} b) \<and> (\<forall>a \<in> set as. kind_ref h {VK_Argument} a))"
| "body_ok h k (B_BasicBlock is ss) =
     (k = VK_BasicBlock \<and> (\<forall>i \<in> set is. kind_ref h inst_kinds i) \<and> distinct ss \<and>
      (\<forall>b \<in> set ss. kind_ref h {VK_BasicBlock} b))"
| "body_ok h k (B_ConstantInt t x) = (k = VK_ConstantInt \<and> type_ref h t \<and> type_id_of h t = IntegerTyID)"
| "body_ok h k (B_ConstantFP t x) =
     (k = VK_ConstantFP \<and> type_ref h t \<and> type_id_of h t \<in> {HalfTyID, FloatTyID, DoubleTyID})"
| "body_ok h k (B_Elements es) =
     (k \<in> {VK_ConstantAggregate, VK_ConstantDataArray, VK_ConstantDataVector} \<and> all_opt (vok h) es)"
| "body_ok h k (B_ConstantExpr _ es) = (k = VK_ConstantExpr \<and> all_opt (vok h) es)"
| "body_ok h k (B_Global p _ _) = (k = VK_Global \<and> (\<forall>v. p = Some v \<longrightarrow> kind_ref h const_kinds v))"
| "body_ok h k (B_Proxy i p) = (k = VK_Proxy \<and> (\<forall>v. p = Some v \<longrightarrow> kind_ref h (- {VK_Proxy}) v))"
| "body_ok h k (B_Instruction ops t at sp) =
     (Instruction_is_base_of k \<and> k \<in> specific_kinds sp \<and> (t \<longleftrightarrow> k \<in> terminator_kinds) \<and>
      all_opt (vok h) ops \<and> (\<forall>m \<in> set (map snd at). mok h m) \<and> specific_ok h sp)"

definition value_ok :: "Heap \<Rightarrow> Value \<Rightarrow> bool" where
  "value_ok h x \<longleftrightarrow> type_ref_opt h (vtype x) \<and> body_ok h (vkind x) (vbody x)"

fun md_ok :: "Heap \<Rightarrow> MDOperand \<Rightarrow> bool" where
  "md_ok h MDNone = True"
| "md_ok h (MDNode ms _) = (\<forall>m \<in> set ms. mok h m)"
| "md_ok h (NamedMDNode _ ms) = all_opt (mok h) ms"
| "md_ok h (ConstantAsMetadata v) = kind_ref h const_kinds v"
| "md_ok h (MDString _) = True"

definition heap_ok :: "Heap \<Rightarrow> bool" where
  "heap_ok h \<longleftrightarrow> types_ok h \<and> (\<forall>x \<in> set (vheap h). value_ok h x) \<and> (\<forall>m \<in> set (mheap h). md_ok h m)"

section \<open>Growth\<close>

text \<open>Objects never go away, and never change their class or type.\<close>

definition hle :: "Heap \<Rightarrow> Heap \<Rightarrow> bool" where
  "hle h h' \<longleftrightarrow> extends h h' \<and> (\<exists>ms. mheap h' = mheap h @ ms) \<and> length (vheap h) \<le> length (vheap h') \<and>
     (\<forall>v < length (vheap h). vkind (vheap h' ! v) = vkind (vheap h ! v) \<and> vtype (vheap h' ! v) = vtype (vheap h ! v))"

lemma hle_refl [simp, intro]: "hle h h"
  by (auto simp: hle_def)

lemma hle_trans [trans]: "hle a b \<Longrightarrow> hle b c \<Longrightarrow> hle a c"
  by (auto simp: hle_def intro: extends_trans)

lemma hle_type_ref: "hle h h' \<Longrightarrow> type_ref h t \<Longrightarrow> type_ref h' t"
  and hle_type_ref_opt: "hle h h' \<Longrightarrow> type_ref_opt h p \<Longrightarrow> type_ref_opt h' p"
  by (auto simp: hle_def intro: extends_type_ref extends_type_ref_opt)

lemma hle_type_at: "hle h h' \<Longrightarrow> type_ref h t \<Longrightarrow> type_at h' t = type_at h t"
  by (simp add: hle_def)

lemma hle_vok: "hle h h' \<Longrightarrow> vok h v \<Longrightarrow> vok h' v"
  by (auto simp: hle_def vok_def)

lemma hle_kind_ref: "hle h h' \<Longrightarrow> kind_ref h K v \<Longrightarrow> kind_ref h' K v"
  by (auto simp: hle_def kind_ref_def)

lemma hle_mok: "hle h h' \<Longrightarrow> mok h m \<Longrightarrow> mok h' m"
  by (auto simp: hle_def mok_def)

lemmas hle_mono = hle_type_ref hle_type_ref_opt hle_vok hle_kind_ref hle_mok

lemma specific_ok_mono: "hle h h' \<Longrightarrow> specific_ok h sp \<Longrightarrow> specific_ok h' sp"
  by (cases sp) (auto intro: hle_mono)

lemma body_ok_mono: "hle h h' \<Longrightarrow> body_ok h k b \<Longrightarrow> body_ok h' k b"
  by (cases b) (auto simp: type_id_of_def hle_type_at intro: hle_mono specific_ok_mono)

lemma value_ok_mono: "hle h h' \<Longrightarrow> value_ok h x \<Longrightarrow> value_ok h' x"
  by (auto simp: value_ok_def intro: hle_mono body_ok_mono)

lemma md_ok_mono: "hle h h' \<Longrightarrow> md_ok h m \<Longrightarrow> md_ok h' m"
  by (cases m) (auto intro: hle_mono)

section \<open>Allocation\<close>

lemma hle_push_value: "hle h (h\<lparr>vheap := vheap h @ xs\<rparr>)"
  by (auto simp: hle_def extends_def nth_append)

lemma hle_push_md: "hle h (h\<lparr>mheap := mheap h @ ms\<rparr>)"
  by (auto simp: hle_def extends_def)

lemma heap_ok_push_value:
  assumes "heap_ok h" "value_ok h x"
  shows "heap_ok (h\<lparr>vheap := vheap h @ [x]\<rparr>)"
  using assms value_ok_mono [OF hle_push_value [of h "[x]"]] md_ok_mono [OF hle_push_value [of h "[x]"]]
  by (auto simp: heap_ok_def)

lemma heap_ok_push_md:
  assumes "heap_ok h" "md_ok h m"
  shows "heap_ok (h\<lparr>mheap := mheap h @ [m]\<rparr>)"
  using assms value_ok_mono [OF hle_push_md [of h "[m]"]] md_ok_mono [OF hle_push_md [of h "[m]"]]
  by (auto simp: heap_ok_def)

text \<open>A step that only builds types.\<close>

definition type_step :: "'a LLVMContext_scheme \<Rightarrow> 'a LLVMContext_scheme \<Rightarrow> bool" where
  "type_step s s' \<longleftrightarrow> types_ok s' \<and> extends s s' \<and>
     (\<exists>th tc. s' = s\<lparr>type_heap := th, type_cache := tc\<rparr>)"

lemma extends_hp: "extends s s' \<Longrightarrow> extends (hp s) (hp s')"
  by (simp add: extends_def)

lemma type_step_hle: "type_step s s' \<Longrightarrow> hle (hp s) (hp s')"
  by (auto simp: hle_def type_step_def dest: extends_hp)

lemma heap_ok_type_step:
  assumes "heap_ok (hp s)" "type_step s s'"
  shows "heap_ok (hp s')"
proof -
  have v: "vheap s' = vheap s" "mheap s' = mheap s" using assms(2) by (auto simp: type_step_def)
  show ?thesis
    using assms v value_ok_mono [OF type_step_hle [OF assms(2)]] md_ok_mono [OF type_step_hle [OF assms(2)]]
    by (auto simp: heap_ok_def type_step_def)
qed

lemma intern_frame:
  "intern p x s = (t, s') \<Longrightarrow> \<exists>th tc. s' = s\<lparr>type_heap := th, type_cache := tc\<rparr>"
  by (auto simp: intern_def construct_type_def split: option.splits) (metis LLVMContext.surjective LLVMContext.update_convs)+

section \<open>Mutation\<close>

lemma update_body_vheap:
  "vok (hp h) v \<Longrightarrow> hp (update_body v f h) =
     (hp h)\<lparr>vheap := (vheap h)[v := (vheap h ! v)\<lparr>vbody := f (vbody (vheap h ! v))\<rparr>]\<rparr>"
  by (simp add: update_body_def update_value_def vok_def)

lemma hle_update:
  fixes h :: Heap
  assumes "v < length (vheap h)" "vkind x = vkind (vheap h ! v)" "vtype x = vtype (vheap h ! v)"
  shows "hle h (h\<lparr>vheap := (vheap h)[v := x]\<rparr>)"
  using assms by (auto simp: hle_def extends_def nth_list_update)

lemma heap_ok_update:
  fixes h :: Heap
  assumes "heap_ok h" "v < length (vheap h)" "vkind x = vkind (vheap h ! v)" "vtype x = vtype (vheap h ! v)"
    and "body_ok h (vkind x) (vbody x)"
  shows "heap_ok (h\<lparr>vheap := (vheap h)[v := x]\<rparr>)"
proof -
  let ?h = "h\<lparr>vheap := (vheap h)[v := x]\<rparr>"
  have le: "hle h ?h" using hle_update assms by blast
  have "value_ok h (vheap h ! v)" using assms by (simp add: heap_ok_def)
  then have "value_ok h x" using assms by (simp add: value_ok_def)
  moreover have "\<And>y. y \<in> set (vheap ?h) \<Longrightarrow> y = x \<or> y \<in> set (vheap h)"
    using set_update_subset_insert [of "vheap h" v x] by auto
  ultimately show ?thesis
    using assms(1) value_ok_mono [OF le] md_ok_mono [OF le] by (auto simp: heap_ok_def)
qed

lemma heap_ok_value: "heap_ok h \<Longrightarrow> vok h v \<Longrightarrow> value_ok h (value_at h v)"
  by (simp add: heap_ok_def vok_def value_at_def)

lemma heap_ok_body: "heap_ok h \<Longrightarrow> vok h v \<Longrightarrow> body_ok h (vkind (vheap h ! v)) (vbody (vheap h ! v))"
  by (simp add: heap_ok_def vok_def value_ok_def)

text \<open>The shape of every mutator: the new body is as good as the old one.\<close>

lemma update_body_ok:
  assumes ok: "heap_ok (hp h)" and v: "vok (hp h) v"
    and f: "\<And>k b. body_ok (hp h) k b \<Longrightarrow> body_ok (hp h) k (f b)"
  shows "heap_ok (hp (update_body v f h))" "hle (hp h) (hp (update_body v f h))"
proof -
  have b: "body_ok (hp h) (vkind (vheap h ! v)) (vbody (vheap h ! v))" using heap_ok_body [OF ok v] by simp
  show "heap_ok (hp (update_body v f h))"
    using heap_ok_update [OF ok, of v "(vheap h ! v)\<lparr>vbody := f (vbody (vheap h ! v))\<rparr>"] v f [OF b]
    by (simp add: update_body_vheap vok_def)
  show "hle (hp h) (hp (update_body v f h))"
    using hle_update [of v "hp h" "(vheap h ! v)\<lparr>vbody := f (vbody (vheap h ! v))\<rparr>"] v
    by (simp add: update_body_vheap vok_def)
qed

lemma set_tween_id_ok:
  assumes ok: "heap_ok (hp h)"
  shows "heap_ok (hp (set_tween_id v n h))" "hle (hp h) (hp (set_tween_id v n h))"
proof -
  have "heap_ok (hp (set_tween_id v n h)) \<and> hle (hp h) (hp (set_tween_id v n h))"
  proof (cases "v < length (vheap h)")
    case True
    let ?x = "(vheap h ! v)\<lparr>vtween := n\<rparr>"
    have "body_ok (hp h) (vkind ?x) (vbody ?x)" using heap_ok_body [OF ok, of v] True by (simp add: vok_def)
    then show ?thesis
      using heap_ok_update [OF ok, of v ?x] hle_update [of v "hp h" ?x] True
      by (simp add: set_tween_id_def update_value_def)
  next
    case False
    then show ?thesis using ok by (simp add: set_tween_id_def update_value_def)
  qed
  then show "heap_ok (hp (set_tween_id v n h))" "hle (hp h) (hp (set_tween_id v n h))" by auto
qed

end
