(* ===== verification/Bc_Invariant.thy ===== *)
theory Bc_Invariant
  imports Bc_Heap_Invariant
begin

text \<open>
  The invariant of \<open>ModuleParseContext\<close> on top of the heap's: every table of the parser
  holds references of the right class (in particular the value table never holds a proxy),
  terminators close their blocks, and the successor list of a block is the set of targets of
  its terminator. \<open>pinv S s\<close> is the invariant in the middle of a branch or switch record, when
  the current block has received the successors \<open>S\<close> and its terminator is still to come.
\<close>

section \<open>Blocks\<close>

fun targets_of :: "Specific \<Rightarrow> vref set" where
  "targets_of (I_Branch bbs _) = set bbs"
| "targets_of (I_Switch _ d cs) = insert d (snd ` set cs)"
| "targets_of _ = {}"

definition targets :: "'a Heap_scheme \<Rightarrow> vref \<Rightarrow> vref set" where
  "targets h i = (case vbody (value_at h i) of B_Instruction _ _ _ sp \<Rightarrow> targets_of sp | _ \<Rightarrow> {})"

definition block_shape :: "'a Heap_scheme \<Rightarrow> vref set \<Rightarrow> vref \<Rightarrow> bool" where
  "block_shape h S b \<longleftrightarrow>
     (\<forall>i \<in> set (butlast (block_instructions h b)). \<not> isTerminator h i) \<and>
     set (block_succs h b) = (case getTerminator h b of Some t \<Rightarrow> targets h t | None \<Rightarrow> S)"

definition shapes :: "vref set \<Rightarrow> mpc \<Rightarrow> bool" where
  "shapes S s \<longleftrightarrow>
     (\<forall>b. kind_ref (hp s) {VK_BasicBlock} b \<longrightarrow> block_shape s (if current_bb s = Some b then S else {}) b)"

definition open_ok :: "mpc \<Rightarrow> bool" where
  "open_ok s \<longleftrightarrow>
     (\<forall>b. current_bb s = Some b \<longrightarrow> getTerminator s b = None) \<and>
     (\<forall>i. basic_block_index s < i \<longrightarrow> i < length (basic_blocks s) \<longrightarrow>
        block_instructions s (basic_blocks s ! i) = [] \<and> current_bb s \<noteq> Some (basic_blocks s ! i))"

definition module_ok :: "Heap \<Rightarrow> Module \<Rightarrow> bool" where
  "module_ok h m \<longleftrightarrow>
     (\<forall>f \<in> set (mod_functions m). kind_ref h {VK_Function} f) \<and>
     (\<forall>g \<in> set (globals m). kind_ref h {VK_Global} g) \<and>
     (\<forall>n \<in> snd ` set (named_metadata m). mok h n) \<and>
     (\<forall>n \<in> set (unnamed_metadata m). mok h n)"

definition roots_ok :: "mpc \<Rightarrow> bool" where
  "roots_ok s \<longleftrightarrow>
     (\<forall>v \<in> set (vvalues s). kind_ref (hp s) (- {VK_Proxy}) v) \<and>
     (\<forall>v \<in> set (instructions s). kind_ref (hp s) inst_kinds v) \<and>
     distinct (basic_blocks s) \<and> (\<forall>v \<in> set (basic_blocks s). kind_ref (hp s) {VK_BasicBlock} v) \<and>
     (\<forall>v. current_bb s = Some v \<longrightarrow> kind_ref (hp s) {VK_BasicBlock} v) \<and>
     (\<forall>t \<in> set (types s). type_ref s t) \<and> type_ref_opt s (constant_type s) \<and>
     (\<forall>v \<in> set (functions_with_bodies s). kind_ref (hp s) {VK_Function} v) \<and>
     (\<forall>v. cur_function s = Some v \<longrightarrow> kind_ref (hp s) {VK_Function} v) \<and>
     (\<forall>m \<in> snd ` set (metadata s). mok (hp s) m) \<and>
     (\<forall>v \<in> set (pending_forward_references s). kind_ref (hp s) {VK_Proxy} v) \<and>
     (\<forall>v \<in> fst ` set (global_initializations s). kind_ref (hp s) {VK_Global} v) \<and>
     module_ok (hp s) (module s)"

definition pinv :: "vref set \<Rightarrow> mpc \<Rightarrow> bool" where
  "pinv S s \<longleftrightarrow> heap_ok (hp s) \<and> roots_ok s \<and> shapes S s \<and> open_ok s"

lemma pinv_heap: "pinv S s \<Longrightarrow> heap_ok (hp s)"
  by (simp add: pinv_def)

lemma pinv_types: "pinv S s \<Longrightarrow> types_ok s"
  by (simp add: pinv_def heap_ok_def)

lemma module_ok_mono: "hle h h' \<Longrightarrow> module_ok h m \<Longrightarrow> module_ok h' m"
  unfolding module_ok_def by (blast intro: hle_mono)

section \<open>Steps that leave the code alone\<close>

text \<open>
  \<open>steady h h'\<close>: nothing the block structure depends on changed for objects of \<open>h\<close>, and a new
  basic block is empty.
\<close>

definition steady :: "'a Heap_scheme \<Rightarrow> 'a Heap_scheme \<Rightarrow> bool" where
  "steady h h' \<longleftrightarrow>
     (\<forall>v < length (vheap h). block_instructions h' v = block_instructions h v \<and>
        block_succs h' v = block_succs h v \<and> isTerminator h' v = isTerminator h v \<and> targets h' v = targets h v) \<and>
     (\<forall>v. length (vheap h) \<le> v \<longrightarrow> block_instructions h' v = [] \<and> block_succs h' v = [])"

text \<open>\<open>parser_same\<close>: the parser's own tables are as before, but for pending references.\<close>

definition parser_same :: "mpc \<Rightarrow> mpc \<Rightarrow> bool" where
  "parser_same s s' \<longleftrightarrow>
     cur_function s' = cur_function s \<and> module s' = module s \<and> basic_blocks s' = basic_blocks s \<and>
     vvalues s' = vvalues s \<and> instructions s' = instructions s \<and> types s' = types s \<and>
     functions_with_bodies s' = functions_with_bodies s \<and> metadata s' = metadata s \<and>
     metadata_kind_map s' = metadata_kind_map s \<and> attribute_lists s' = attribute_lists s \<and>
     attribute_groups s' = attribute_groups s \<and> constant_type s' = constant_type s \<and>
     current_bb s' = current_bb s \<and> basic_block_index s' = basic_block_index s \<and>
     global_initializations s' = global_initializations s \<and> use_relative_id s' = use_relative_id s \<and>
     use_strtab s' = use_strtab s \<and> seen_first_function_body s' = seen_first_function_body s"

definition quiet :: "mpc \<Rightarrow> mpc \<Rightarrow> bool" where
  "quiet s s' \<longleftrightarrow>
     hle (hp s) (hp s') \<and> heap_ok (hp s') \<and> steady s s' \<and> parser_same s s' \<and>
     (\<forall>v \<in> set (pending_forward_references s'). v \<in> set (pending_forward_references s) \<or> kind_ref (hp s') {VK_Proxy} v)"

lemma quiet_hle: "quiet s s' \<Longrightarrow> hle (hp s) (hp s')"
  by (simp add: quiet_def)

lemma quiet_heap_ok: "quiet s s' \<Longrightarrow> heap_ok (hp s')"
  by (simp add: quiet_def)

lemma quiet_refl: "heap_ok (hp s) \<Longrightarrow> quiet s s"
  by (auto simp: quiet_def steady_def parser_same_def block_instructions_def block_succs_def value_at_def mk_value_def)

lemma steady_trans:
  assumes "steady a b" "steady b c" "length (vheap a) \<le> length (vheap b)"
  shows "steady a c"
  using assms unfolding steady_def
  by (metis (no_types, lifting) linorder_not_less order_less_le_trans)

lemma quiet_trans:
  assumes "quiet a b" "quiet b c"
  shows "quiet a c"
proof -
  have "length (vheap a) \<le> length (vheap b)" using assms(1) by (simp add: quiet_def hle_def)
  then have "steady a c" using assms by (auto simp: quiet_def intro: steady_trans)
  moreover have "parser_same a c" using assms by (simp add: quiet_def parser_same_def)
  moreover have "\<forall>v \<in> set (pending_forward_references c).
      v \<in> set (pending_forward_references a) \<or> kind_ref (hp c) {VK_Proxy} v"
    using assms by (auto simp: quiet_def intro: hle_kind_ref)
  ultimately show ?thesis using assms by (auto simp: quiet_def intro: hle_trans)
qed

lemma steady_terminator:
  assumes st: "steady s s'" and b: "body_ok h VK_BasicBlock (vbody (value_at s b))" "length (vheap h) = length (vheap s)"
    and bl: "b < length (vheap s)"
  shows "getTerminator s' b = getTerminator s b"
    "block_shape s' S b \<longleftrightarrow> block_shape s S b"
proof -
  have ins: "block_instructions s' b = block_instructions s b" "block_succs s' b = block_succs s b"
    using st bl by (auto simp: steady_def)
  have "\<forall>i \<in> set (block_instructions s b). i < length (vheap s)"
    using b by (cases "vbody (value_at s b)") (auto simp: block_instructions_def kind_ref_def)
  then have same: "\<forall>i \<in> set (block_instructions s b). isTerminator s' i = isTerminator s i \<and> targets s' i = targets s i"
    using st by (auto simp: steady_def)
  then show g: "getTerminator s' b = getTerminator s b"
    using ins by (auto simp: getTerminator_def Let_def)
  have "\<And>t. getTerminator s b = Some t \<Longrightarrow> t \<in> set (block_instructions s b)"
    by (auto simp: getTerminator_def Let_def split: if_splits)
  then show "block_shape s' S b \<longleftrightarrow> block_shape s S b"
    using same ins g by (auto simp: block_shape_def dest: in_set_butlastD split: option.splits)
qed

lemma block_body:
  assumes "heap_ok (hp s)" "kind_ref (hp s) {VK_BasicBlock} b"
  shows "body_ok (hp s) VK_BasicBlock (vbody (value_at s b))"
  using heap_ok_value [OF assms(1), of b] assms(2) by (auto simp: value_ok_def kind_ref_def vok_def value_at_def)

lemma block_empty:
  "block_instructions s b = [] \<Longrightarrow> block_succs s b = [] \<Longrightarrow> block_shape s {} b"
  by (simp add: block_shape_def getTerminator_def)

lemma quiet_shapes:
  assumes ok: "heap_ok (hp s)" and q: "quiet s s'" and r: "roots_ok s" and sh: "shapes S s"
  shows "shapes S s'"
  unfolding shapes_def
proof (intro allI impI)
  fix b assume b: "kind_ref (hp s') {VK_BasicBlock} b"
  have cur: "current_bb s' = current_bb s" using q by (simp add: quiet_def parser_same_def)
  show "block_shape s' (if current_bb s' = Some b then S else {}) b"
  proof (cases "b < length (vheap s)")
    case True
    then have kb: "kind_ref (hp s) {VK_BasicBlock} b"
      using b q by (auto simp: quiet_def hle_def kind_ref_def)
    then have "block_shape s (if current_bb s = Some b then S else {}) b" using sh by (simp add: shapes_def)
    then show ?thesis
      using steady_terminator(2) [of s s' "hp s" b] q block_body [OF ok kb] True cur by (simp add: quiet_def)
  next
    case False
    then have "current_bb s \<noteq> Some b" using r by (auto simp: roots_ok_def kind_ref_def)
    moreover have "block_instructions s' b = [] \<and> block_succs s' b = []"
      using q False by (simp add: quiet_def steady_def)
    ultimately show ?thesis using cur by (simp add: block_empty)
  qed
qed

lemma quiet_open:
  assumes ok: "heap_ok (hp s)" and q: "quiet s s'" and r: "roots_ok s" and op: "open_ok s"
  shows "open_ok s'"
proof -
  have same: "getTerminator s' b = getTerminator s b \<and> block_instructions s' b = block_instructions s b"
    if "kind_ref (hp s) {VK_BasicBlock} b" for b
    using steady_terminator(1) [of s s' "hp s" b] q block_body [OF ok that] that
    by (auto simp: quiet_def steady_def kind_ref_def)
  have "\<And>i. i < length (basic_blocks s) \<Longrightarrow> kind_ref (hp s) {VK_BasicBlock} (basic_blocks s ! i)"
    using r by (simp add: roots_ok_def)
  moreover have "\<And>b. current_bb s = Some b \<Longrightarrow> kind_ref (hp s) {VK_BasicBlock} b"
    using r by (simp add: roots_ok_def)
  ultimately show ?thesis
    using op same q unfolding open_ok_def quiet_def parser_same_def by simp
qed

lemma quiet_roots:
  assumes q: "quiet s s'" and r: "roots_ok s"
  shows "roots_ok s'"
proof -
  have le: "hle (hp s) (hp s')" using q by (simp add: quiet_def)
  have tr: "\<And>t. type_ref s t \<Longrightarrow> type_ref s' t" "\<And>p. type_ref_opt s p \<Longrightarrow> type_ref_opt s' p"
    using hle_type_ref [OF le] hle_type_ref_opt [OF le] by auto
  show ?thesis
    using q r unfolding roots_ok_def quiet_def parser_same_def
    by (auto intro: tr hle_kind_ref [OF le] hle_mok [OF le] module_ok_mono [OF le])
qed

lemma quiet_pinv: "pinv S s \<Longrightarrow> quiet s s' \<Longrightarrow> pinv S s'"
  unfolding pinv_def
  by (auto intro: quiet_heap_ok elim: quiet_shapes quiet_open quiet_roots)

section \<open>Quiet operations\<close>

subsection \<open>Types\<close>

lemma same_vheap_code:
  "vheap s' = vheap s \<Longrightarrow> block_instructions s' = block_instructions s \<and> block_succs s' = block_succs s \<and>
     isTerminator s' = isTerminator s \<and> targets s' = targets s \<and> value_at s' = value_at s"
  by (simp add: fun_eq_iff block_instructions_def block_succs_def isTerminator_def targets_def value_at_def)

lemma same_vheap_shape:
  assumes "vheap s' = vheap s"
  shows "getTerminator s' = getTerminator s" "block_shape s' = block_shape s"
    "block_instructions s' = block_instructions s"
proof -
  have same: "block_instructions s' = block_instructions s" "block_succs s' = block_succs s"
    "isTerminator s' = isTerminator s" "targets s' = targets s"
    using same_vheap_code [OF assms] by auto
  show t: "getTerminator s' = getTerminator s"
    by (intro ext) (unfold getTerminator_def same, rule refl)
  show "block_shape s' = block_shape s"
    by (intro ext) (unfold block_shape_def t same, rule refl)
  show "block_instructions s' = block_instructions s" by (rule same)
qed

lemma fresh_code:
  "length (vheap s) \<le> v \<Longrightarrow> block_instructions s v = [] \<and> block_succs s v = []"
  by (simp add: block_instructions_def block_succs_def value_at_def mk_value_def)

lemma steady_same: "vheap s' = vheap s \<Longrightarrow> steady s s'"
  using same_vheap_code [of s' s] fresh_code [of s] by (simp add: steady_def)

lemma type_step_quiet:
  fixes s :: mpc
  assumes "heap_ok (hp s)" "type_step s s'"
  shows "quiet s s'"
proof -
  have "vheap s' = vheap s" using assms(2) by (auto simp: type_step_def)
  moreover have "parser_same s s'" "pending_forward_references s' = pending_forward_references s"
    using assms(2) by (auto simp: type_step_def parser_same_def)
  ultimately show ?thesis
    using type_step_hle [OF assms(2)] heap_ok_type_step [OF assms] steady_same by (auto simp: quiet_def)
qed

text \<open>What a client learns from asking for a type.\<close>

definition type_got :: "mpc \<Rightarrow> Type \<Rightarrow> ty \<times> mpc \<Rightarrow> bool" where
  "type_got s x = (\<lambda>(t, s'). quiet s s' \<and> type_ref s' t \<and> type_at s' t = x \<and>
     vheap s' = vheap s \<and> mheap s' = mheap s \<and> pending_forward_references s' = pending_forward_references s)"

lemma intern_got:
  assumes i: "type_interner p x" and ok: "heap_ok (hp s)" and rx: "\<forall>u \<in> refs x. type_ref s u"
  shows "type_got s x (intern p x s)"
proof -
  obtain t s' where run: "intern p x s = (t, s')" by fastforce
  have tok: "types_ok s" using ok by (simp add: heap_ok_def)
  note * = type_interner.intern_ok [OF i tok rx run]
  then have st: "type_step s s'" using intern_frame [OF run] by (auto simp: type_step_def)
  moreover have "vheap s' = vheap s" "mheap s' = mheap s"
      "pending_forward_references s' = pending_forward_references s"
    using intern_frame [OF run] by auto
  ultimately show ?thesis using * type_step_quiet [OF ok st] run by (simp add: type_got_def)
qed

lemma type_gets:
  assumes ok: "heap_ok (hp s)"
  shows "type_ref s e \<Longrightarrow> type_got s (PointerType e a) (PointerType_get e a s)"
    and "type_ref s e \<Longrightarrow> type_got s (ArrayType e n) (ArrayType_get e n s)"
    and "type_ref s e \<Longrightarrow> type_got s (VectorType n e) (VectorType_get n e s)"
    and "all_opt (type_ref s) ms \<Longrightarrow> type_got s (StructType ms nm) (StructType_get ms nm s)"
    and "type_got s (IntegerType w) (getIntTy w s)"
    and "simple_id i \<Longrightarrow> type_got s (BasicType i) (getTy i s)"
  using intern_got [OF ptr.type_interner_axioms ok] intern_got [OF arr.type_interner_axioms ok]
    intern_got [OF vec.type_interner_axioms ok] intern_got [OF str.type_interner_axioms ok]
    intern_got [OF int.type_interner_axioms ok] intern_got [OF has_type_id_match ok]
  by (simp_all add: PointerType_get_def ArrayType_get_def VectorType_get_def StructType_get_def
      getIntTy_def getTy_def)

subsection \<open>New values and metadata\<close>

definition code_free :: "Body \<Rightarrow> bool" where
  "code_free b \<longleftrightarrow> (case b of B_BasicBlock is ss \<Rightarrow> is = [] \<and> ss = [] | _ \<Rightarrow> True)"

lemma steady_push:
  assumes "code_free (vbody x)"
  shows "steady s (s\<lparr>vheap := vheap s @ [x]\<rparr>)"
  using assms
  by (auto simp: steady_def code_free_def block_instructions_def block_succs_def isTerminator_def targets_def
      value_at_def nth_append mk_value_def less_Suc_eq split: Body.splits)

lemma construct_value_quiet:
  fixes s :: mpc
  assumes "heap_ok (hp s)" "value_ok (hp s) x" "code_free (vbody x)" "construct_value x s = (v, s')"
  shows "quiet s s'" "vok (hp s') v" "value_at s' v = x" "v = length (vheap s)"
    "pending_forward_references s' = pending_forward_references s"
proof -
  have s': "s' = s\<lparr>vheap := vheap s @ [x]\<rparr>" and v: "v = length (vheap s)"
    using assms(4) by (auto simp: construct_value_def)
  have "parser_same s s'" using s' by (simp add: parser_same_def)
  then show "quiet s s'"
    using heap_ok_push_value [OF assms(1,2)] hle_push_value [of "hp s" "[x]"] steady_push [OF assms(3), of s] s'
    by (auto simp: quiet_def)
  show "vok (hp s') v" "value_at s' v = x" "v = length (vheap s)"
    "pending_forward_references s' = pending_forward_references s"
    using s' v by (auto simp: vok_def value_at_def)
qed

lemma construct_md_quiet:
  fixes s :: mpc
  assumes "heap_ok (hp s)" "md_ok (hp s) x" "construct_md x s = (m, s')"
  shows "quiet s s'" "mok (hp s') m"
proof -
  have s': "s' = s\<lparr>mheap := mheap s @ [x]\<rparr>" and m: "m = length (mheap s)"
    using assms(3) by (auto simp: construct_md_def)
  have "parser_same s s'" using s' by (simp add: parser_same_def)
  then show "quiet s s'"
    using heap_ok_push_md [OF assms(1,2)] hle_push_md [of "hp s" "[x]"] steady_same [of s' s] s'
    by (auto simp: quiet_def)
  show "mok (hp s') m" using s' m by (simp add: mok_def)
qed

lemma pending_quiet:
  assumes "quiet s s'" "kind_ref (hp s') {VK_Proxy} v"
  shows "quiet s (s'\<lparr>pending_forward_references := pending_forward_references s' @ [v]\<rparr>)"
proof -
  let ?t = "s'\<lparr>pending_forward_references := pending_forward_references s' @ [v]\<rparr>"
  have "steady s' ?t" by (rule steady_same) simp
  moreover have "length (vheap s) \<le> length (vheap s')" using assms(1) by (simp add: quiet_def hle_def)
  ultimately have "steady s ?t" using assms(1) by (auto simp: quiet_def intro: steady_trans)
  then show ?thesis using assms by (auto simp: quiet_def parser_same_def)
qed

subsection \<open>Mutators\<close>

definition code_of :: "Body \<Rightarrow> vref list \<times> vref list \<times> bool \<times> vref set" where
  "code_of b = (case b of
     B_BasicBlock is ss \<Rightarrow> (is, ss, False, {})
   | B_Instruction _ t _ sp \<Rightarrow> ([], [], t, targets_of sp)
   | _ \<Rightarrow> ([], [], False, {}))"

lemma code_of_parts:
  "block_instructions s v = fst (code_of (vbody (value_at s v)))"
  "block_succs s v = fst (snd (code_of (vbody (value_at s v))))"
  "isTerminator s v = fst (snd (snd (code_of (vbody (value_at s v)))))"
  "targets s v = snd (snd (snd (code_of (vbody (value_at s v)))))"
  by (auto simp: code_of_def block_instructions_def block_succs_def isTerminator_def targets_def split: Body.splits)

lemma value_at_update_body:
  "value_at (update_body v f s) w =
     (if w = v \<and> v < length (vheap s) then (value_at s v)\<lparr>vbody := f (vbody (value_at s v))\<rparr> else value_at s w)"
  by (auto simp: update_body_def update_value_def value_at_def)

lemma update_body_fields [simp]:
  fixes s :: mpc
  shows "cur_function (update_body v f s) = cur_function s" "module (update_body v f s) = module s"
    "basic_blocks (update_body v f s) = basic_blocks s" "vvalues (update_body v f s) = vvalues s"
    "instructions (update_body v f s) = instructions s" "types (update_body v f s) = types s"
    "functions_with_bodies (update_body v f s) = functions_with_bodies s"
    "metadata (update_body v f s) = metadata s" "metadata_kind_map (update_body v f s) = metadata_kind_map s"
    "attribute_lists (update_body v f s) = attribute_lists s"
    "attribute_groups (update_body v f s) = attribute_groups s"
    "constant_type (update_body v f s) = constant_type s" "current_bb (update_body v f s) = current_bb s"
    "basic_block_index (update_body v f s) = basic_block_index s"
    "pending_forward_references (update_body v f s) = pending_forward_references s"
    "global_initializations (update_body v f s) = global_initializations s"
    "tween_id (update_body v f s) = tween_id s"
    "use_relative_id (update_body v f s) = use_relative_id s" "use_strtab (update_body v f s) = use_strtab s"
    "seen_first_function_body (update_body v f s) = seen_first_function_body s"
    "length (vheap (update_body v f s)) = length (vheap s)" "mheap (update_body v f s) = mheap s"
  by (simp_all add: update_body_def update_value_def)

lemma update_body_types [simp]:
  "type_heap (update_body v f s) = type_heap s" "type_at (update_body v f s) = type_at s"
  "type_id_of (update_body v f s) = type_id_of s" "type_ref (update_body v f s) = type_ref s"
  by (simp_all add: update_body_def update_value_def)

lemma update_body_quiet:
  fixes s :: mpc
  assumes ok: "heap_ok (hp s)" and v: "vok (hp s) v"
    and f: "\<And>k b. body_ok (hp s) k b \<Longrightarrow> body_ok (hp s) k (f b)"
    and c: "code_of (f (vbody (value_at s v))) = code_of (vbody (value_at s v))"
  shows "quiet s (update_body v f s)"
proof -
  have "steady s (update_body v f s)"
    using c fresh_code [of "update_body v f s"]
    by (auto simp: steady_def code_of_parts value_at_update_body)
  then show ?thesis
    using update_body_ok [OF ok v f] by (auto simp: quiet_def parser_same_def)
qed

lemma set_tween_id_fields [simp]:
  fixes s :: mpc
  shows "parser_same s (set_tween_id v n s)"
    "pending_forward_references (set_tween_id v n s) = pending_forward_references s"
    "current_bb (set_tween_id v n s) = current_bb s" "basic_blocks (set_tween_id v n s) = basic_blocks s"
    "basic_block_index (set_tween_id v n s) = basic_block_index s" "vvalues (set_tween_id v n s) = vvalues s"
    "vbody (value_at (set_tween_id v n s) w) = vbody (value_at s w)"
  by (auto simp: set_tween_id_def update_value_def parser_same_def value_at_def nth_list_update)

lemma set_tween_id_quiet:
  fixes s :: mpc
  assumes "heap_ok (hp s)"
  shows "quiet s ((set_tween_id v n s)\<lparr>tween_id := m\<rparr>)"
proof -
  have len: "length (vheap (set_tween_id v n s)) = length (vheap s)"
    by (simp add: set_tween_id_def update_value_def)
  have "steady s (set_tween_id v n s)"
    using fresh_code [of "set_tween_id v n s"] len by (simp add: steady_def code_of_parts)
  moreover have "steady (set_tween_id v n s) ((set_tween_id v n s)\<lparr>tween_id := m\<rparr>)" by (rule steady_same) simp
  ultimately have "steady s ((set_tween_id v n s)\<lparr>tween_id := m\<rparr>)" using len by (auto intro: steady_trans)
  moreover have "parser_same s ((set_tween_id v n s)\<lparr>tween_id := m\<rparr>)"
    using set_tween_id_fields(1) [of s v n] by (simp add: parser_same_def)
  ultimately show ?thesis
    using set_tween_id_ok [OF assms, of v n] by (auto simp: quiet_def)
qed

end
