(* ===== verification/Bc_Steps.thy ===== *)
theory Bc_Steps
  imports Bc_Invariant
begin

text \<open>
  The helpers of \<open>ModuleParseContext\<close> keep the invariant: decoding a value number only
  allocates, appending an instruction keeps the shape of the blocks, and resolving forward
  references leads every proxy to a value that is no proxy.
\<close>

section \<open>Looking up\<close>

lemma kind_ref_vok: "kind_ref h K v \<Longrightarrow> vok h v"
  by (simp add: kind_ref_def vok_def)

lemma kind_ref_mono: "kind_ref h K v \<Longrightarrow> K \<subseteq> L \<Longrightarrow> kind_ref h L v"
  by (auto simp: kind_ref_def)

lemma kind_ref_value_at: "kind_ref (hp s) K v \<longleftrightarrow> vok (hp s) v \<and> get_value_kind s v \<in> K"
  by (auto simp: kind_ref_def vok_def value_at_def)

lemma getType_ref: "heap_ok (hp s) \<Longrightarrow> vok (hp s) v \<Longrightarrow> type_ref_opt s (getType s v)"
  using heap_ok_value [of "hp s" v] by (simp add: value_ok_def)

lemma get_type_ref: "pinv S s \<Longrightarrow> type_ref_opt s (get_type s i)"
  by (simp add: pinv_def roots_ok_def get_type_def)

lemma get_type_Some: "pinv S s \<Longrightarrow> get_type s i = Some t \<Longrightarrow> type_ref s t"
  using get_type_ref [of S s i] by simp

lemma get_basic_block_Some: "pinv S s \<Longrightarrow> get_basic_block s i = Some b \<Longrightarrow> kind_ref (hp s) {VK_BasicBlock} b"
  unfolding pinv_def roots_ok_def get_basic_block_def by (metis nth_mem option.distinct(1) option.inject)

lemma values_nth:
  "pinv S s \<Longrightarrow> i < length (vvalues s) \<Longrightarrow> kind_ref (hp s) (- {VK_Proxy}) (vvalues s ! i)"
  by (simp add: pinv_def roots_ok_def)

lemma values_vok: "pinv S s \<Longrightarrow> i < length (vvalues s) \<Longrightarrow> vok (hp s) (vvalues s ! i)"
  by (rule kind_ref_vok [OF values_nth])

lemma elem_type_refs:
  assumes "types_ok s" "type_ref s t"
  shows "getPointerElementType s t = Ok e \<Longrightarrow> type_ref s e"
    and "getArrayElementType s t = Ok e \<Longrightarrow> type_ref s e"
    and "getVectorElementType s t = Ok e \<Longrightarrow> type_ref s e"
    and "getStructElementType s t n = Ok p \<Longrightarrow> type_ref_opt s p"
    and "getReturnType s t = Ok e \<Longrightarrow> type_ref s e"
    and "getParamType s t n = Ok p \<Longrightarrow> type_ref_opt s p"
  using types_okD(3) [OF assms]
  by (auto simp: getPointerElementType_def getArrayElementType_def getVectorElementType_def
      getStructElementType_def getReturnType_def getParamType_def type_ref_opt_def
      split: Type.splits if_splits) (metis nth_mem)+

lemma forward_reference_quiet:
  assumes "heap_ok (hp s)" "type_ref_opt s t" "forward_reference t i s = (v, s')"
  shows "quiet s s'" "kind_ref (hp s') {VK_Proxy} v" "getType s' v = t"
proof -
  obtain w s1 where run: "construct_value (mk_value t VK_Proxy (B_Proxy i None)) s = (w, s1)" by fastforce
  have x: "value_ok (hp s) (mk_value t VK_Proxy (B_Proxy i None))"
    "code_free (vbody (mk_value t VK_Proxy (B_Proxy i None)))"
    using assms(2) by (auto simp: value_ok_def mk_value_def code_free_def)
  note * = construct_value_quiet [OF assms(1) x run]
  have s': "v = w" "s' = s1\<lparr>pending_forward_references := pending_forward_references s1 @ [w]\<rparr>"
    using assms(3) run by (auto simp: forward_reference_def ValueProxy_new_def)
  have k: "kind_ref (hp s1) {VK_Proxy} w" using * by (simp add: kind_ref_value_at mk_value_def)
  show "quiet s s'" using pending_quiet [OF *(1) k] s' by simp
  show "kind_ref (hp s') {VK_Proxy} v" using k s' by simp
  have "value_at s' v = value_at s1 w" using s' by (simp add: value_at_def)
  then show "getType s' v = t" using *(3) by (simp add: mk_value_def)
qed

definition got :: "mpc \<Rightarrow> vref option \<Rightarrow> mpc \<Rightarrow> bool" where
  "got s p s' \<longleftrightarrow> quiet s s' \<and> (\<forall>v. p = Some v \<longrightarrow> vok (hp s') v)"

lemma forward_reference_got:
  assumes "heap_ok (hp s)" "type_ref_opt s t" "forward_reference t i s = (v, s')"
  shows "got s (Some v) s'"
  using forward_reference_quiet [OF assms] kind_ref_vok by (simp add: got_def)

lemma got_None: "pinv S s \<Longrightarrow> got s None s"
  by (simp add: got_def quiet_refl pinv_heap)

lemma got_value: "pinv S s \<Longrightarrow> i < length (vvalues s) \<Longrightarrow> got s (Some (vvalues s ! i)) s"
  by (simp add: got_def quiet_refl values_vok pinv_heap)

lemma get_value_post:
  assumes "pinv S s" "type_ref_opt s t"
  shows "post (get_value op t f s) (\<lambda>(p, s'). got s p s')"
proof -
  have ok: "heap_ok (hp s)" using pinv_heap [OF assms(1)] .
  show ?thesis
    unfolding get_value_def Let_def
    using got_None [OF assms(1)] got_value [OF assms(1)] assms(2) forward_reference_got [OF ok]
    by (auto intro!: post_if post_bind_eq split: option.splits prod.splits)
qed

lemma get_value_next_post:
  assumes "pinv S s" "type_ref_opt s t"
  shows "post (get_value_next ops i t s) (\<lambda>(p, j, s'). got s p s' \<and> j \<le> i + 1)"
  using get_value_post [OF assms, of "ops ! i" False] got_None [OF assms(1)]
  by (auto simp: get_value_next_def intro: post_bind)

lemma get_value_and_type_post:
  assumes "pinv S s"
  shows "post (get_value_and_type ops i s) (\<lambda>(p, t, j, s'). got s p s' \<and> type_ref_opt s' t)"
proof -
  have ok: "heap_ok (hp s)" using pinv_heap [OF assms(1)] .
  have new: "got s (Some v) s' \<and> type_ref_opt s' (get_type s o1)"
    if f: "forward_reference (get_type s o1) k s = (v, s')" for o1 k v s'
  proof -
    have g: "got s (Some v) s'" by (rule forward_reference_got [OF ok get_type_ref [OF assms] f])
    then have "hle (hp s) (hp s')" by (simp add: got_def quiet_def)
    then show ?thesis using g hle_type_ref_opt [of "hp s" "hp s'"] get_type_ref [OF assms] by simp
  qed
  have old: "got s (Some (vvalues s ! k)) s \<and> type_ref_opt s (getType s (vvalues s ! k))"
    if "k < length (vvalues s)" for k
    using got_value [OF assms that] getType_ref [OF ok values_vok [OF assms that]] by simp
  show ?thesis
    using got_None [OF assms] new old
    by (auto simp: get_value_and_type_def Let_def split: prod.splits)
qed

lemma get_value_signed_got:
  assumes "pinv S s" "type_ref_opt s t"
  shows "(\<lambda>(p, s'). got s p s') (get_value_signed op t s)"
  using got_None [OF assms(1)] got_value [OF assms(1)] assms(2) forward_reference_got [OF pinv_heap [OF assms(1)]]
  by (auto simp: get_value_signed_def Let_def split: option.splits prod.splits)

lemma gotD:
  assumes "pinv S s" "got s p s'"
  shows "pinv S s'" "hle (hp s) (hp s')" "p = Some v \<Longrightarrow> vok (hp s') v" "heap_ok (hp s')" "parser_same s s'"
proof -
  have q: "quiet s s'" using assms(2) by (simp add: got_def)
  show "pinv S s'" by (rule quiet_pinv [OF assms(1) q])
  show "hle (hp s) (hp s')" "heap_ok (hp s')" "parser_same s s'" using q by (simp_all add: quiet_def)
  show "p = Some v \<Longrightarrow> vok (hp s') v" using assms(2) by (simp add: got_def)
qed

section \<open>Appending values and instructions\<close>

lemma push_value_inv:
  assumes "pinv S s" "kind_ref (hp s) (- {VK_Proxy}) v"
  shows "pinv S (push_value v s)"
proof -
  have "vheap (push_value v s) = vheap s" by (simp add: push_value_def)
  note code = same_vheap_shape [OF this]
  have "hp (push_value v s) = hp s" by (simp add: push_value_def)
  moreover have "shapes S (push_value v s)" using assms(1) code by (simp add: pinv_def shapes_def push_value_def)
  moreover have "open_ok (push_value v s)" using assms(1) code by (simp add: pinv_def open_ok_def push_value_def)
  moreover have "roots_ok (push_value v s)"
    using assms by (simp add: pinv_def roots_ok_def push_value_def type_ref_def type_ref_opt_def)
  ultimately show ?thesis using assms(1) by (simp add: pinv_def)
qed

lemma add_value_inv:
  assumes "pinv S s" "kind_ref (hp s) (- {VK_Proxy}) v"
  shows "post (add_value v s) (\<lambda>s'. pinv S s' \<and> hle (hp s) (hp s') \<and> current_bb s' = current_bb s)"
proof -
  let ?s = "(set_tween_id v (tween_id s) s)\<lparr>tween_id := tween_id s + 1\<rparr>"
  have q: "quiet s ?s" by (rule set_tween_id_quiet [OF pinv_heap [OF assms(1)]])
  have "pinv S (push_value v ?s)"
    by (rule push_value_inv [OF quiet_pinv [OF assms(1) q] hle_kind_ref [OF quiet_hle [OF q] assms(2)]])
  moreover have "hle (hp s) (hp (push_value v ?s))" using quiet_hle [OF q] by (simp add: push_value_def)
  moreover have "current_bb (push_value v ?s) = current_bb s" by (simp add: push_value_def)
  ultimately show ?thesis using assms(1) by (auto simp: add_value_def post_def bind_res_Ok_iff)
qed

definition later_ok :: "mpc \<Rightarrow> bool" where
  "later_ok s \<longleftrightarrow>
     (\<forall>i. basic_block_index s < i \<longrightarrow> i < length (basic_blocks s) \<longrightarrow>
        block_instructions s (basic_blocks s ! i) = [] \<and> current_bb s \<noteq> Some (basic_blocks s ! i))"

lemma finish_basic_block_inv:
  assumes ok: "heap_ok (hp s)" and r: "roots_ok s" and sh: "shapes {} s" and l: "later_ok s"
  shows "pinv {} (finish_basic_block s)" "hle (hp s) (hp (finish_basic_block s))"
proof -
  let ?i = "basic_block_index s + 1"
  have "pinv {} (finish_basic_block s) \<and> hle (hp s) (hp (finish_basic_block s))"
  proof (cases "length (basic_blocks s) \<le> ?i")
    case True
    let ?t = "s\<lparr>basic_block_index := ?i, current_bb := None\<rparr>"
    have t: "finish_basic_block s = ?t" using True by (simp add: finish_basic_block_def)
    have same: "block_shape ?t = block_shape s" by (rule same_vheap_shape) simp
    have "roots_ok ?t" using r by (simp add: roots_ok_def type_ref_def type_ref_opt_def)
    moreover have "shapes {} ?t" using sh same by (simp add: shapes_def)
    moreover have "open_ok ?t" using True by (simp add: open_ok_def)
    ultimately show ?thesis using ok t by (simp add: pinv_def)
  next
    case False
    let ?bb = "basic_blocks s ! ?i"
    let ?t = "s\<lparr>basic_block_index := ?i, current_bb := Some ?bb\<rparr>"
    have t: "finish_basic_block s = (set_tween_id ?bb (tween_id ?t) ?t)\<lparr>tween_id := tween_id ?t + 1\<rparr>"
      using False by (simp add: finish_basic_block_def Let_def)
    have code: "block_instructions ?t = block_instructions s" "getTerminator ?t = getTerminator s"
        "block_shape ?t = block_shape s"
      using same_vheap_shape [of ?t s] by simp_all
    have kb: "kind_ref (hp s) {VK_BasicBlock} ?bb" using r False by (simp add: roots_ok_def)
    have rt: "roots_ok ?t" using r kb by (simp add: roots_ok_def type_ref_def type_ref_opt_def)
    have "shapes {} ?t" using sh code by (simp add: shapes_def)
    moreover have "open_ok ?t"
    proof -
      have "block_instructions s ?bb = []" using l False by (simp add: later_ok_def)
      then have "getTerminator s ?bb = None" by (simp add: getTerminator_def)
      moreover have "\<And>j. ?i < j \<Longrightarrow> j < length (basic_blocks s) \<Longrightarrow> ?bb \<noteq> basic_blocks s ! j"
        using r False by (simp add: roots_ok_def nth_eq_iff_index_eq)
      ultimately show ?thesis using l code by (simp add: open_ok_def later_ok_def)
    qed
    ultimately have "pinv {} ?t" using rt ok by (simp add: pinv_def)
    moreover have "quiet ?t (finish_basic_block s)" using set_tween_id_quiet [of ?t] ok t by simp
    ultimately show ?thesis using quiet_pinv quiet_hle by fastforce
  qed
  then show "pinv {} (finish_basic_block s)" "hle (hp s) (hp (finish_basic_block s))" by auto
qed

lemma instructions_inv:
  assumes "pinv S s" "kind_ref (hp s) inst_kinds i"
  shows "pinv S (s\<lparr>instructions := instructions s @ [i]\<rparr>)"
proof -
  let ?t = "s\<lparr>instructions := instructions s @ [i]\<rparr>"
  have code: "block_instructions ?t = block_instructions s" "getTerminator ?t = getTerminator s"
      "block_shape ?t = block_shape s"
    using same_vheap_shape [of ?t s] by simp_all
  show ?thesis
    using assms code
    by (simp add: pinv_def roots_ok_def type_ref_def type_ref_opt_def shapes_def open_ok_def)
qed

subsection \<open>Changing the current block\<close>

lemma block_body_cases:
  assumes "heap_ok (hp s)" "kind_ref (hp s) {VK_BasicBlock} b"
  obtains iis ss where "vbody (value_at s b) = B_BasicBlock iis ss" "b < length (vheap s)"
proof -
  have "body_ok (hp s) VK_BasicBlock (vbody (value_at s b))" by (rule block_body [OF assms])
  then obtain iis ss where "vbody (value_at s b) = B_BasicBlock iis ss"
    by (cases "vbody (value_at s b)") (auto simp: Instruction_is_base_of_def)
  then show thesis using that assms(2) by (simp add: kind_ref_def)
qed

definition block_update :: "(vref list \<Rightarrow> vref list) \<Rightarrow> (vref list \<Rightarrow> vref list) \<Rightarrow> Body \<Rightarrow> Body" where
  "block_update f g b = (case b of B_BasicBlock iis ss \<Rightarrow> B_BasicBlock (f iis) (g ss) | _ \<Rightarrow> b)"

lemma add_as_block_update:
  "BasicBlock_add_instruction b i s = update_body b (block_update (\<lambda>iis. iis @ [i]) id) s"
  "BasicBlock_add_successor b c s = update_body b (block_update id (\<lambda>ss. push_unique ss c)) s"
  unfolding BasicBlock_add_instruction_def BasicBlock_add_successor_def
  by (rule arg_cong [where f = "\<lambda>f. update_body b f s"], rule ext, simp add: block_update_def split: Body.split)+

lemma shapes_current:
  "shapes S s \<Longrightarrow> kind_ref (hp s) {VK_BasicBlock} b \<Longrightarrow> current_bb s = Some b \<Longrightarrow> block_shape s S b"
  unfolding shapes_def by metis

lemma block_update_code:
  assumes "vbody (value_at s b) = B_BasicBlock iis ss" "b < length (vheap s)"
  shows "block_instructions (update_body b (block_update f g) s) c =
      (if c = b then f (block_instructions s b) else block_instructions s c)"
    "block_succs (update_body b (block_update f g) s) c =
      (if c = b then g (block_succs s b) else block_succs s c)"
    "isTerminator (update_body b (block_update f g) s) c = isTerminator s c"
    "targets (update_body b (block_update f g) s) c = targets s c"
  using assms
  by (auto simp: code_of_parts value_at_update_body block_update_def code_of_def)

lemma block_update_ok:
  assumes ok: "heap_ok (hp s)" and b: "kind_ref (hp s) {VK_BasicBlock} b"
    and f: "\<And>iis. \<forall>i \<in> set iis. kind_ref (hp s) inst_kinds i \<Longrightarrow> \<forall>i \<in> set (f iis). kind_ref (hp s) inst_kinds i"
    and g: "\<And>ss. distinct ss \<and> (\<forall>i \<in> set ss. kind_ref (hp s) {VK_BasicBlock} i) \<Longrightarrow>
        distinct (g ss) \<and> (\<forall>i \<in> set (g ss). kind_ref (hp s) {VK_BasicBlock} i)"
  shows "heap_ok (hp (update_body b (block_update f g) s))" "hle (hp s) (hp (update_body b (block_update f g) s))"
proof -
  have bo: "body_ok (hp s) k (block_update f g x)" if "body_ok (hp s) k x" for k x
    using that f g by (cases x) (auto simp: block_update_def)
  show "heap_ok (hp (update_body b (block_update f g) s))" "hle (hp s) (hp (update_body b (block_update f g) s))"
    by (rule update_body_ok [OF ok kind_ref_vok [OF b]], erule bo)+
qed

lemma roots_ok_update_body:
  fixes s :: mpc
  assumes "roots_ok s" "hle (hp s) (hp (update_body b f s))"
  shows "roots_ok (update_body b f s)"
  using assms(1) unfolding roots_ok_def
  by (auto intro: hle_kind_ref [OF assms(2)] hle_mok [OF assms(2)] module_ok_mono [OF assms(2)]
      simp: type_ref_opt_def)

lemma open_block:
  assumes "block_shape s S b" "getTerminator s b = None" "i \<in> set (block_instructions s b)"
  shows "\<not> isTerminator s i"
proof (cases "block_instructions s b" rule: rev_cases)
  case (snoc ys y)
  then show ?thesis using assms by (auto simp: block_shape_def getTerminator_def Let_def split: if_splits)
qed (use assms in simp)

lemma add_successor_pinv:
  assumes inv: "pinv S s" and bb: "kind_ref (hp s) {VK_BasicBlock} bb"
  shows "post (add_successor bb s) (\<lambda>t. pinv (insert bb S) t \<and> hle (hp s) (hp t) \<and> parser_same s t \<and>
    current_bb s \<noteq> None \<and> (\<forall>v. block_instructions t v = block_instructions s v) \<and>
    length (vheap t) = length (vheap s))"
proof (cases "current_bb s")
  case None
  then show ?thesis by (simp add: add_successor_def)
next
  case (Some b)
  let ?f = "block_update id (\<lambda>ss. push_unique ss bb)"
  let ?t = "update_body b ?f s"
  have ok: "heap_ok (hp s)" and r: "roots_ok s" and sh: "shapes S s" and op: "open_ok s"
    using inv by (auto simp: pinv_def)
  have b: "kind_ref (hp s) {VK_BasicBlock} b" using r Some by (simp add: roots_ok_def)
  obtain iis ss where body: "vbody (value_at s b) = B_BasicBlock iis ss" "b < length (vheap s)"
    using block_body_cases [OF ok b] .
  note code = block_update_code [OF body, of id "\<lambda>ss. push_unique ss bb"]
  have okt: "heap_ok (hp ?t)" "hle (hp s) (hp ?t)"
    by (rule block_update_ok [OF ok b]; use bb in auto)+
  have bi: "block_instructions ?t c = block_instructions s c" for c by (simp add: code)
  have gt: "getTerminator ?t c = getTerminator s c" for c by (simp add: getTerminator_def code)
  have kr: "kind_ref (hp ?t) {VK_BasicBlock} c \<Longrightarrow> kind_ref (hp s) {VK_BasicBlock} c" for c
    using okt(2) by (auto simp: hle_def kind_ref_def)
  have "getTerminator s b = None" using op Some by (simp add: open_ok_def)
  moreover have "block_shape s S b" by (rule shapes_current [OF sh b Some])
  ultimately have "block_shape ?t (insert bb S) b" by (simp add: block_shape_def code gt)
  moreover have "block_shape ?t {} c" if "kind_ref (hp s) {VK_BasicBlock} c" "c \<noteq> b" for c
    using sh that Some unfolding shapes_def block_shape_def
    by (auto simp: code gt split: option.splits)
  ultimately have "shapes (insert bb S) ?t" using kr Some by (auto simp: shapes_def)
  moreover have "open_ok ?t"
    using op unfolding open_ok_def update_body_fields gt bi .
  moreover have "roots_ok ?t" by (rule roots_ok_update_body [OF r okt(2)])
  ultimately have "pinv (insert bb S) ?t" using okt by (simp add: pinv_def)
  moreover have "add_successor bb s = Ok ?t"
    using Some by (simp add: add_successor_def add_as_block_update)
  moreover have "parser_same s ?t" by (simp add: parser_same_def)
  ultimately show ?thesis using okt Some code by simp
qed

text \<open>What an instruction must satisfy to be appended when successors \<open>S\<close> are pending.\<close>

definition appendable :: "vref set \<Rightarrow> mpc \<Rightarrow> vref \<Rightarrow> bool" where
  "appendable S s i \<longleftrightarrow> kind_ref (hp s) inst_kinds i \<and>
     (if isTerminator s i then targets s i = S else S = {})"

lemma append_to_block:
  assumes inv: "pinv S s" and i: "appendable S s i" and cur: "current_bb s = Some b"
  defines "t \<equiv> BasicBlock_add_instruction b i s"
  shows "heap_ok (hp t)" "hle (hp s) (hp t)" "roots_ok t" "shapes {} t" "later_ok t"
    "isTerminator t i = isTerminator s i" "\<not> isTerminator s i \<Longrightarrow> pinv {} t" "current_bb t = current_bb s"
proof -
  let ?f = "block_update (\<lambda>iis. iis @ [i]) id"
  have t: "t = update_body b ?f s"
    by (simp add: t_def add_as_block_update)
  have ok: "heap_ok (hp s)" and r: "roots_ok s" and sh: "shapes S s" and op: "open_ok s"
    using inv by (auto simp: pinv_def)
  have b: "kind_ref (hp s) {VK_BasicBlock} b" using r cur by (simp add: roots_ok_def)
  obtain iis ss where body: "vbody (value_at s b) = B_BasicBlock iis ss" "b < length (vheap s)"
    using block_body_cases [OF ok b] .
  note code = block_update_code [OF body, of "\<lambda>iis. iis @ [i]" id, folded t]
  have ki: "kind_ref (hp s) inst_kinds i" using i by (simp add: appendable_def)
  show okt: "heap_ok (hp t)" "hle (hp s) (hp t)"
    unfolding t by (rule block_update_ok [OF ok b]; use ki in auto)+
  show rt: "roots_ok t" using roots_ok_update_body [OF r] okt(2) t by simp
  have gt: "getTerminator t c = (if c = b then (if isTerminator s i then Some i else None) else getTerminator s c)" for c
    by (simp add: getTerminator_def code)
  have kr: "kind_ref (hp t) {VK_BasicBlock} c \<Longrightarrow> kind_ref (hp s) {VK_BasicBlock} c" for c
    using okt(2) by (auto simp: hle_def kind_ref_def t)
  have shb: "block_shape s S b" and none: "getTerminator s b = None"
    using shapes_current [OF sh b cur] cur op by (auto simp: open_ok_def)
  have "block_shape t {} b"
    using i open_block [OF shb none] shb none
    by (simp add: block_shape_def code gt appendable_def split: if_splits)
  moreover have "block_shape t {} c" if "kind_ref (hp s) {VK_BasicBlock} c" "c \<noteq> b" for c
    using sh that cur unfolding shapes_def block_shape_def
    by (auto simp: code gt split: option.splits)
  ultimately show sht: "shapes {} t" using kr by (auto simp: shapes_def)
  have fields: "current_bb t = current_bb s" "basic_blocks t = basic_blocks s" "basic_block_index t = basic_block_index s"
    by (simp_all add: t)
  have later: "block_instructions s (basic_blocks s ! j) = []" "basic_blocks s ! j \<noteq> b" "b \<noteq> basic_blocks s ! j"
    if "basic_block_index s < j" "j < length (basic_blocks s)" for j
    using op that cur by (auto simp: open_ok_def)
  show "later_ok t"
    unfolding later_ok_def fields using later cur by (simp add: code)
  show "isTerminator t i = isTerminator s i" by (simp add: code)
  show "current_bb t = current_bb s" by (rule fields)
  show "pinv {} t" if nt: "\<not> isTerminator s i"
  proof -
    have "open_ok t"
      unfolding open_ok_def fields using later cur nt by (simp add: code gt)
    then show ?thesis using okt rt sht by (simp add: pinv_def)
  qed
qed

lemma inst_not_proxy: "kind_ref h inst_kinds i \<Longrightarrow> kind_ref h (- {VK_Proxy}) i"
  by (auto simp: kind_ref_def Instruction_is_base_of_def)

lemma add_instruction_pinv:
  assumes inv: "pinv S s" and i: "appendable S s i" and cur: "S \<noteq> {} \<Longrightarrow> current_bb s \<noteq> None"
  shows "post (add_instruction i s) (\<lambda>(ok, s'). pinv {} s' \<and> hle (hp s) (hp s'))"
proof -
  let ?s = "s\<lparr>instructions := instructions s @ [i]\<rparr>"
  have ki: "kind_ref (hp s) inst_kinds i" using i by (simp add: appendable_def)
  have inv1: "pinv S ?s" by (rule instructions_inv [OF inv ki])
  have i1: "appendable S ?s i"
    using i same_vheap_code [of ?s s] by (simp add: appendable_def)
  show ?thesis
  proof (cases "current_bb s")
    case None
    then show ?thesis using inv1 cur by (cases "S = {}") (auto simp: add_instruction_def)
  next
    case (Some b)
    then have c1: "current_bb ?s = Some b" by simp
    note ab = append_to_block [OF inv1 i1 c1]
    let ?t = "BasicBlock_add_instruction b i ?s"
    have le: "hle (hp s) (hp ?t)" using ab(2) by simp
    show ?thesis
    proof (cases "isTerminator ?s i")
      case True
      then have "add_instruction i s = Ok (True, finish_basic_block ?t)"
        using Some ab(6) by (simp add: add_instruction_def Let_def)
      then show ?thesis
        using finish_basic_block_inv [OF ab(1,3,4,5)] le by (auto intro: hle_trans)
    next
      case False
      have kt: "kind_ref (hp ?t) (- {VK_Proxy}) i"
        by (rule hle_kind_ref [OF le inst_not_proxy [OF ki]])
      have "add_instruction i s = bind_res (add_value i ?t) (\<lambda>s. Ok (True, s))"
        using Some ab(6) False by (simp add: add_instruction_def Let_def)
      moreover have "post (add_value i ?t) (\<lambda>s'. pinv {} s' \<and> hle (hp ?t) (hp s') \<and> current_bb s' = current_bb ?t)"
        by (rule add_value_inv [OF ab(7) [OF False] kt])
      ultimately show ?thesis using le by (auto simp: post_def bind_res_Ok_iff intro: hle_trans)
    qed
  qed
qed

lemma must_add_instruction_pinv:
  assumes "pinv S s" "appendable S s i" "S \<noteq> {} \<Longrightarrow> current_bb s \<noteq> None"
  shows "post (must_add_instruction i s) (\<lambda>s'. pinv {} s' \<and> hle (hp s) (hp s'))"
  using add_instruction_pinv [OF assms] by (auto simp: must_add_instruction_def post_def bind_res_Ok_iff split: if_splits)

section \<open>Rules for record handlers\<close>

text \<open>
  \<open>advances s m\<close>: run in a good state \<open>s\<close>, a handler that returns leaves a good state that
  extends \<open>s\<close>. The rules below follow the shape of the handlers; a handler is verified by
  unfolding it and applying them.
\<close>

definition advances :: "mpc \<Rightarrow> mpc res \<Rightarrow> bool" where
  "advances s m \<longleftrightarrow> post m (\<lambda>s'. pinv {} s' \<and> hle (hp s) (hp s'))"

named_theorems adv_intro \<open>rules that decompose an advances obligation\<close>

lemma advances_lift: "hle (hp s) (hp s1) \<Longrightarrow> advances s1 m \<Longrightarrow> advances s m"
  by (auto simp: advances_def post_def intro: hle_trans)

lemma adv_done [adv_intro]: "pinv {} s' \<Longrightarrow> hle (hp s) (hp s') \<Longrightarrow> advances s (Ok s')"
  by (simp add: advances_def)

lemma adv_fail [adv_intro]: "advances s Reject" "advances s (Fault e)"
  by (simp_all add: advances_def)

lemma adv_if [adv_intro]:
  "(b \<Longrightarrow> advances s m) \<Longrightarrow> (\<not> b \<Longrightarrow> advances s n) \<Longrightarrow> advances s (if b then m else n)"
  by simp

lemma adv_require [adv_intro]: "(\<And>x. p = Some x \<Longrightarrow> advances s (f x)) \<Longrightarrow> advances s (bind_res (require p) f)"
  by (cases p) (auto simp: adv_fail)

lemma adv_deref [adv_intro]: "(\<And>x. p = Some x \<Longrightarrow> advances s (f x)) \<Longrightarrow> advances s (bind_res (deref p) f)"
  by (cases p) (auto simp: adv_fail)

lemma adv_index [adv_intro]:
  "(\<And>x. x = xs ! i \<Longrightarrow> i < length xs \<Longrightarrow> advances s (f x)) \<Longrightarrow> advances s (bind_res (index xs i) f)"
  by (auto simp: index_def adv_fail)

lemma adv_bind_eq: "(\<And>x. m = Ok x \<Longrightarrow> advances s (f x)) \<Longrightarrow> advances s (bind_res m f)"
  by (cases m) (auto simp: adv_fail)

lemmas adv_pure [adv_intro] =
  adv_bind_eq [where m = "isa_type i c p" for i c p]
  adv_bind_eq [where m = "cast_type i c p" for i c p]
  adv_bind_eq [where m = "getPointerElementType c t" for c t]
  adv_bind_eq [where m = "getVectorElementType c t" for c t]
  adv_bind_eq [where m = "getVectorNumElements c t" for c t]
  adv_bind_eq [where m = "getReturnType c t" for c t]
  adv_bind_eq [where m = "getFunctionType h f" for h f]
  adv_bind_eq [where m = "translate_uop s op t" for s op t]
  adv_bind_eq [where m = "translate_binop s op t" for s op t]
  adv_bind_eq [where m = "resolve_gep_element_type s t args" for s t args]
  adv_bind_eq [where m = "extract_walk s t ops" for s t ops]
  adv_bind_eq [where m = "dyn_cast_value k h p" for k h p]

lemma adv_got:
  assumes "pinv {} s" "got s v s1" "pinv {} s1 \<Longrightarrow> hle (hp s) (hp s1) \<Longrightarrow> advances s1 m"
  shows "advances s m"
  using gotD [OF assms(1,2)] assms(3) advances_lift by blast

lemma adv_get_value [adv_intro]:
  assumes "pinv {} s" "type_ref_opt s t"
    and "\<And>v s1. pinv {} s1 \<Longrightarrow> hle (hp s) (hp s1) \<Longrightarrow> (\<And>w. v = Some w \<Longrightarrow> vok (hp s1) w) \<Longrightarrow> advances s1 (f v s1)"
  shows "advances s (bind_res (get_value op t b s) (\<lambda>(v, s). f v s))"
proof (rule adv_bind_eq)
  fix x assume x: "get_value op t b s = Ok x"
  obtain v s1 where vs: "x = (v, s1)" by fastforce
  then have "got s v s1" using postD [OF get_value_post [OF assms(1,2)] x] by simp
  from adv_got [OF assms(1) this] show "advances s (case x of (v, s) \<Rightarrow> f v s)"
    using gotD(3) [OF assms(1) \<open>got s v s1\<close>] assms(3) vs by simp
qed

lemma adv_get_value_next [adv_intro]:
  assumes "pinv {} s" "type_ref_opt s t"
    and "\<And>v j s1. pinv {} s1 \<Longrightarrow> hle (hp s) (hp s1) \<Longrightarrow> (\<And>w. v = Some w \<Longrightarrow> vok (hp s1) w) \<Longrightarrow> advances s1 (f v j s1)"
  shows "advances s (bind_res (get_value_next ops i t s) (\<lambda>(v, j, s). f v j s))"
proof (rule adv_bind_eq)
  fix x assume x: "get_value_next ops i t s = Ok x"
  obtain v j s1 where vs: "x = (v, j, s1)" by (metis prod.exhaust)
  then have "got s v s1" using postD [OF get_value_next_post [OF assms(1,2)] x] by simp
  from adv_got [OF assms(1) this] show "advances s (case x of (v, j, s) \<Rightarrow> f v j s)"
    using gotD(3) [OF assms(1) \<open>got s v s1\<close>] assms(3) vs by simp
qed

lemma adv_get_value_and_type [adv_intro]:
  assumes "pinv {} s"
    and "\<And>v t j s1. pinv {} s1 \<Longrightarrow> hle (hp s) (hp s1) \<Longrightarrow> (\<And>w. v = Some w \<Longrightarrow> vok (hp s1) w) \<Longrightarrow> type_ref_opt s1 t \<Longrightarrow>
      advances s1 (f v t j s1)"
  shows "advances s (bind_res (get_value_and_type ops i s) (\<lambda>(v, t, j, s). f v t j s))"
proof (rule adv_bind_eq)
  fix x assume x: "get_value_and_type ops i s = Ok x"
  obtain v t j s1 where vs: "x = (v, t, j, s1)" by (metis prod.exhaust)
  then have g: "got s v s1" "type_ref_opt s1 t" using postD [OF get_value_and_type_post [OF assms(1)] x] by auto
  from adv_got [OF assms(1) g(1)] show "advances s (case x of (v, t, j, s) \<Rightarrow> f v t j s)"
    using gotD(3) [OF assms(1) g(1)] assms(2) vs g(2) by simp
qed

lemma adv_type_got:
  assumes "pinv {} s" "type_got s x g"
    and "\<And>t s1. pinv {} s1 \<Longrightarrow> hle (hp s) (hp s1) \<Longrightarrow> type_ref s1 t \<Longrightarrow> type_at s1 t = x \<Longrightarrow> advances s1 (f t s1)"
  shows "advances s (case g of (t, s) \<Rightarrow> f t s)"
proof -
  obtain t s1 where g: "g = (t, s1)" by fastforce
  then have q: "quiet s s1" "type_ref s1 t" "type_at s1 t = x" using assms(2) by (auto simp: type_got_def)
  have "advances s1 (f t s1)" by (rule assms(3) [OF quiet_pinv [OF assms(1) q(1)] quiet_hle [OF q(1)] q(2,3)])
  then show ?thesis using advances_lift [OF quiet_hle [OF q(1)]] g by simp
qed

lemmas adv_type_get [adv_intro] =
  adv_type_got [OF _ type_gets(1) [OF pinv_heap], where s = s and f = f for s f]
  adv_type_got [OF _ type_gets(3) [OF pinv_heap], where s = s and f = f for s f]
  adv_type_got [OF _ type_gets(5) [OF pinv_heap], where s = s and f = f for s f]
  adv_type_got [OF _ type_gets(6) [OF pinv_heap], where s = s and f = f for s f]

text \<open>The last step of most handlers: construct the instruction and append it.\<close>

lemma construct_inst_quiet:
  assumes "heap_ok (hp s)" "type_ref_opt s t" "body_ok (hp s) k (B_Instruction ops tm [] sp)"
    and run: "construct_inst t k ops tm sp s = (i, s')"
  shows "quiet s s'" "kind_ref (hp s') {k} i" "value_at s' i = mk_value t k (B_Instruction ops tm [] sp)"
    "i = length (vheap s)"
proof -
  let ?x = "mk_value t k (B_Instruction ops tm [] sp)"
  have v: "value_ok (hp s) ?x" using assms(2,3) by (simp add: value_ok_def mk_value_def)
  have c: "code_free (vbody ?x)" by (simp add: code_free_def mk_value_def)
  note * = construct_value_quiet [OF assms(1) v c run [unfolded construct_inst_def]]
  show "quiet s s'" "value_at s' i = ?x" "i = length (vheap s)" by (rule *)+
  show "kind_ref (hp s') {k} i" using *(2,3) by (simp add: kind_ref_value_at mk_value_def)
qed

lemma appendable_new:
  assumes "kind_ref (hp s') {k} i" "value_at s' i = mk_value t k (B_Instruction ops tm [] sp)"
    "Instruction_is_base_of k" "if tm then targets_of sp = S else S = {}"
  shows "appendable S s' i"
  using assms by (auto simp: appendable_def isTerminator_def targets_def mk_value_def intro: kind_ref_mono)

lemma adv_finish_pending:
  assumes "pinv S s" "S \<noteq> {} \<Longrightarrow> current_bb s \<noteq> None" "type_ref_opt s t"
    "body_ok (hp s) k (B_Instruction ops tm [] sp)" "if tm then targets_of sp = S else S = {}"
  shows "advances s (case construct_inst t k ops tm sp s of (i, s) \<Rightarrow> must_add_instruction i s)"
proof -
  obtain i s' where run: "construct_inst t k ops tm sp s = (i, s')" by fastforce
  note * = construct_inst_quiet [OF pinv_heap [OF assms(1)] assms(3,4) run]
  have "appendable S s' i" using appendable_new [OF *(2,3)] assms(4,5) by simp
  moreover have "current_bb s' = current_bb s" using *(1) by (simp add: quiet_def parser_same_def)
  ultimately have "advances s' (must_add_instruction i s')"
    using must_add_instruction_pinv [OF quiet_pinv [OF assms(1) *(1)]] assms(2) by (simp add: advances_def)
  then show ?thesis using run advances_lift [OF quiet_hle [OF *(1)]] by simp
qed

lemmas adv_finish [adv_intro] = adv_finish_pending [where S = "{}", simplified]

text \<open>References stay good in later states.\<close>

lemma later_type_ref: "hle (hp s) (hp s') \<Longrightarrow> type_ref s t \<Longrightarrow> type_ref s' t"
  and later_type_ref_opt: "hle (hp s) (hp s') \<Longrightarrow> type_ref_opt s p \<Longrightarrow> type_ref_opt s' p"
  and later_type_at: "hle (hp s) (hp s') \<Longrightarrow> type_ref s t \<Longrightarrow> type_at s' t = type_at s t"
  using hle_type_ref [of "hp s" "hp s'"] hle_type_ref_opt [of "hp s" "hp s'"] hle_type_at [of "hp s" "hp s'"]
  by simp_all

lemmas later = later_type_ref later_type_ref_opt hle_vok hle_kind_ref hle_mok

lemma pinv_getType: "pinv S s \<Longrightarrow> vok (hp s) v \<Longrightarrow> type_ref_opt s (getType s v)"
  by (rule getType_ref [OF pinv_heap])

lemma cast_type_Ok: "cast_type i c p = Ok t \<longleftrightarrow> p = Some t \<and> type_id_of c t = i"
  by (auto simp: cast_type_def bind_res_Ok_iff deref_def split: option.splits if_splits)

end
