(* ===== verification/Bc_Instructions_Invariant.thy ===== *)
theory Bc_Instructions_Invariant
  imports Bc_Steps
begin

text \<open>
  Every case of \<open>parse_record\<close> keeps the invariant: a function body record that is accepted
  leaves well-kinded objects, closed blocks and exact successor lists.
\<close>

lemmas inst_kind_simps [simp] =
  Instruction_is_base_of_def terminator_kinds_def

lemma adv_must [adv_intro]:
  "appendable {} s i \<Longrightarrow> pinv {} s \<Longrightarrow> advances s (must_add_instruction i s)"
  using must_add_instruction_pinv by (simp add: advances_def)

section \<open>Arithmetic and conversions\<close>

lemma record_unop_ok: "pinv {} s \<Longrightarrow> advances s (record_unop ops s)"
  unfolding record_unop_def UnaryOperator_new_def
  by (intro adv_intro) (auto intro: later pinv_getType)

lemma record_unreachable_ok: "pinv {} s \<Longrightarrow> advances s (record_unreachable s)"
  unfolding record_unreachable_def UnreachableInst_new_def
  by (intro adv_intro) auto

lemma record_cast_ok: "pinv {} s \<Longrightarrow> advances s (record_cast ops s)"
  unfolding record_cast_def CastInst_new_def
  by (intro adv_intro) (auto intro: later dest: get_type_Some)

lemma record_atomicrmw_ok: "pinv {} s \<Longrightarrow> advances s (record_atomicrmw ops s)"
  unfolding record_atomicrmw_def AtomicRMWInst_new_def
  by (intro adv_intro) (auto intro: later pinv_getType elem_type_refs(1) pinv_types)

section \<open>Constructors that ask for types\<close>

definition made :: "mpc \<Rightarrow> vref \<times> mpc \<Rightarrow> bool" where
  "made s = (\<lambda>(i, s'). quiet s s' \<and> appendable {} s' i)"

lemma made_construct:
  assumes "quiet s s1" "type_ref_opt s1 t" "body_ok (hp s1) k (B_Instruction ops False [] sp)"
  shows "made s (construct_inst t k ops False sp s1)"
proof -
  obtain i s' where run: "construct_inst t k ops False sp s1 = (i, s')" by fastforce
  note * = construct_inst_quiet [OF quiet_heap_ok [OF assms(1)] assms(2,3) run]
  have "Instruction_is_base_of k" using assms(3) by (simp del: inst_kind_simps)
  then have "appendable {} s' i" by (intro appendable_new [OF *(2,3)]) simp_all
  then show ?thesis using quiet_trans [OF assms(1) *(1)] run by (simp add: made_def)
qed

lemma adv_made [adv_intro]:
  assumes "pinv {} s" "post m (made s)"
  shows "advances s (bind_res m (\<lambda>(i, s). must_add_instruction i s))"
proof (rule adv_bind_eq)
  fix x assume x: "m = Ok x"
  obtain i s1 where vs: "x = (i, s1)" by fastforce
  then have m: "quiet s s1" "appendable {} s1 i" using assms(2) x by (auto simp: made_def)
  then have "advances s1 (must_add_instruction i s1)" using adv_must quiet_pinv [OF assms(1)] by blast
  then show "advances s (case x of (i, s) \<Rightarrow> must_add_instruction i s)"
    using advances_lift [OF quiet_hle [OF m(1)]] vs by simp
qed

lemma post_type_got:
  assumes "type_got s x g" and "\<And>t s1. quiet s s1 \<Longrightarrow> type_ref s1 t \<Longrightarrow> type_at s1 t = x \<Longrightarrow> post (f t s1) P"
  shows "post (case g of (t, s) \<Rightarrow> f t s) P"
  using assms by (cases g) (auto simp: type_got_def)

lemmas post_gets =
  post_type_got [OF type_gets(3)] post_type_got [OF type_gets(4)] post_type_got [OF type_gets(5)]
  post_type_got [OF type_gets(6)]

lemma quiet_later:
  "quiet s s1 \<Longrightarrow> vok (hp s) v \<Longrightarrow> vok (hp s1) v" "quiet s s1 \<Longrightarrow> type_ref s t \<Longrightarrow> type_ref s1 t"
  "quiet s s1 \<Longrightarrow> kind_ref (hp s) K v \<Longrightarrow> kind_ref (hp s1) K v"
  by (auto dest: quiet_hle intro: later)

lemma get_cmp_result_type_post:
  assumes "heap_ok (hp s)" "type_ref_opt s p"
  shows "post (get_cmp_result_type p s) (\<lambda>(t, s'). quiet s s' \<and> type_ref s' t)"
  unfolding get_cmp_result_type_def
proof (intro post_deref_bind post_gets(3) [OF assms(1)])
  fix t b s1 assume q: "quiet s s1" "type_ref s1 b"
  have "type_got s1 (VectorType n b) (VectorType_get n b s1)" for n
    by (rule type_gets(3) [OF quiet_heap_ok [OF q(1)] q(2)])
  then have "case VectorType_get n b s1 of (t, s') \<Rightarrow> quiet s s' \<and> type_ref s' t" for n
    using quiet_trans [OF q(1)] by (metis (no_types, lifting) type_got_def case_prod_conv surj_pair)
  then show "post (Ok (case type_at s1 t of VectorType n _ \<Rightarrow> VectorType_get n b s1 | _ \<Rightarrow> (b, s1)))
      (\<lambda>(t, s'). quiet s s' \<and> type_ref s' t)"
    using q by (auto split: Type.split)
qed

lemma CmpInst_made:
  assumes "pinv {} s" "vok (hp s) a" "vok (hp s) b" "k \<in> {VK_FCmp, VK_ICmp}"
  shows "post (CmpInst_new k pred a b s) (made s)"
  unfolding CmpInst_new_def
proof (rule post_bind [OF get_cmp_result_type_post [OF pinv_heap [OF assms(1)] pinv_getType [OF assms(1,2)]]])
  fix x assume "case x of (t, s') \<Rightarrow> quiet s s' \<and> type_ref s' t"
  moreover obtain t s1 where x: "x = (t, s1)" by fastforce
  ultimately have q: "quiet s s1" "type_ref s1 t" by auto
  show "post (case x of (t, h) \<Rightarrow> Ok (construct_inst (Some t) k [Some a, Some b] False (I_Cmp pred) h)) (made s)"
    using q x assms(4) quiet_later(1) [OF q(1) assms(2)] quiet_later(1) [OF q(1) assms(3)]
    by (auto intro!: made_construct)
qed

lemma StoreInst_made:
  assumes "pinv {} s" "vok (hp s) p" "vok (hp s) v"
  shows "post (StoreInst_new p v s) (made s)"
  unfolding StoreInst_new_def
  using assms(2,3)
  by (intro post_deref_bind post_gets(4) [OF pinv_heap [OF assms(1)]])
    (auto simp: simple_id_def intro!: made_construct intro: quiet_later)

lemma AtomicCmpXchgInst_made:
  assumes "pinv {} s" "vok (hp s) p" "vok (hp s) c" "\<And>v. nv = Some v \<Longrightarrow> vok (hp s) v"
  shows "post (AtomicCmpXchgInst_new p c nv s) (made s)"
  unfolding AtomicCmpXchgInst_new_def
proof (intro post_deref_bind post_gets(3) [OF pinv_heap [OF assms(1)]])
  fix v t b s1 assume v: "nv = Some v" "getType s v = Some t" and q: "quiet s s1" "type_ref s1 b"
  have "type_ref s t" using pinv_getType [OF assms(1) assms(4) [OF v(1)]] v(2) by simp
  then have "all_opt (type_ref s1) [Some t, Some b]" using q by (auto intro: quiet_later)
  then show "post (case StructType_get [Some t, Some b] [] s1 of
      (t, h) \<Rightarrow> Ok (construct_inst (Some t) VK_AtomicCmpXchg [Some p, Some v, Some c] False (I_AtomicCmpXchg p v c) h)) (made s)"
    using assms(2,3) [THEN quiet_later(1) [OF q(1)]] assms(4) [OF v(1), THEN quiet_later(1) [OF q(1)]]
    by (intro post_gets(2) [OF quiet_heap_ok [OF q(1)]])
      (auto intro!: made_construct intro: quiet_later(1) quiet_trans [OF q(1)])
qed

lemma ExtractElementInst_made:
  assumes "pinv {} s" "vok (hp s) v" "vok (hp s) i"
  shows "post (ExtractElementInst_new v i s) (made s)"
  unfolding ExtractElementInst_new_def
proof (intro post_bind_eq)
  fix vt et assume "cast_type VectorTyID s (getType s v) = Ok vt" "getVectorElementType s vt = Ok et"
  moreover from this have "type_ref s vt" using pinv_getType [OF assms(1,2)] by (simp add: cast_type_Ok)
  ultimately have "type_ref s et" using elem_type_refs(3) [OF pinv_types [OF assms(1)]] by blast
  then show "post (Ok (construct_inst (Some et) VK_ExtractElement [Some v, Some i] False (I_ExtractElement v i) s)) (made s)"
    using assms quiet_refl [OF pinv_heap [OF assms(1)]] by (auto intro!: made_construct)
qed

lemma ShuffleVectorInst_made:
  assumes "pinv {} s" "vok (hp s) a" "vok (hp s) b" "type_ref s t"
  shows "post (ShuffleVectorInst_new t a b shuf s) (made s)"
  unfolding ShuffleVectorInst_new_def
  using assms quiet_refl [OF pinv_heap [OF assms(1)]]
  by (intro post_bind_eq) (auto intro!: made_construct)

lemma CallInst_made:
  assumes "pinv {} s" "type_ref s ft" "kind_ref (hp s) {VK_Function} f" "\<forall>p \<in> set ps. vok (hp s) p"
  shows "post (CallInst_new ft f ps s) (made s)"
  unfolding CallInst_new_def
  using assms quiet_refl [OF pinv_heap [OF assms(1)]] elem_type_refs(5) [OF pinv_types [OF assms(1)] assms(2)]
  by (intro post_bind_eq) (auto intro!: made_construct)

section \<open>The records\<close>

lemma record_cmp_ok: "pinv {} s \<Longrightarrow> advances s (record_cmp ops s)"
  unfolding record_cmp_def
  by (intro adv_intro) (auto intro!: CmpInst_made intro: later)

lemma record_store_ok: "pinv {} s \<Longrightarrow> advances s (record_store ops s)"
  unfolding record_store_def
  by (intro adv_intro) (auto intro!: StoreInst_made intro: later)

lemma record_cmpxchg_ok: "pinv {} s \<Longrightarrow> advances s (record_cmpxchg ops s)"
  unfolding record_cmpxchg_def
  by (intro adv_intro) (auto intro!: AtomicCmpXchgInst_made intro: later hle_trans)

lemma record_extractelt_ok: "pinv {} s \<Longrightarrow> advances s (record_extractelt ops s)"
  unfolding record_extractelt_def
  by (intro adv_intro) (auto intro!: ExtractElementInst_made intro: later)

lemma record_insertelt_ok: "pinv {} s \<Longrightarrow> advances s (record_insertelt ops s)"
  unfolding record_insertelt_def InsertElementInst_new_def
  by (intro adv_intro) (auto intro: later hle_trans pinv_getType elem_type_refs(3) pinv_types simp: cast_type_Ok)

lemma record_shufflevec_ok: "pinv {} s \<Longrightarrow> advances s (record_shufflevec ops s)"
  unfolding record_shufflevec_def
  by (intro adv_intro)
    (auto intro!: ShuffleVectorInst_made intro: later hle_trans elem_type_refs(3) pinv_types simp: cast_type_Ok)

lemma record_select_ok: "pinv {} s \<Longrightarrow> advances s (record_select ops s)"
  unfolding record_select_def SelectInst_new_def
  by (intro adv_intro) (auto 4 8 intro: later pinv_getType)

lemma bind_res_if: "bind_res (if b then m else n) f = (if b then bind_res m f else bind_res n f)"
  by simp

lemma record_ret_ok: "pinv {} s \<Longrightarrow> advances s (record_ret ops s)"
  unfolding record_ret_def ReturnInst_new_def bind_res_if bind_res_simps prod.case
  by (intro adv_intro) (auto intro: later pinv_getType split: option.splits)

lemma record_alloca_ok: "pinv {} s \<Longrightarrow> advances s (record_alloca ops s)"
  unfolding record_alloca_def AllocaInst_new_def Let_def
  by (intro adv_intro) (auto intro: later hle_trans dest: get_type_Some)

lemma extract_walk_type:
  assumes "types_ok s"
  shows "type_ref_opt s t \<Longrightarrow> extract_walk s t ops = Ok (u, is) \<Longrightarrow> type_ref_opt s u"
proof (induction ops arbitrary: t u "is")
  case (Cons op ops)
  from Cons.prems(2) obtain t0 p is' where t0: "t = Some t0"
    and e: "getStructElementType s t0 (u32_of (unat op)) = Ok p \<or>
       (\<exists>e. p = Some e \<and> (getArrayElementType s t0 = Ok e \<or> getVectorElementType s t0 = Ok e))"
    and r: "extract_walk s p ops = Ok (u, is')"
    by (auto simp: Let_def bind_res_Ok_iff deref_def split: option.splits if_splits)
  have "type_ref s t0" using Cons.prems(1) t0 by simp
  from elem_type_refs(2-4) [OF assms this] e have "type_ref_opt s p" by auto
  then show ?case using Cons.IH r by blast
qed simp

lemma record_extractval_ok: "pinv {} s \<Longrightarrow> advances s (record_extractval ops s)"
  unfolding record_extractval_def ExtractValueInst_new_def
proof (intro adv_intro)
  fix v t j s1 agg x
  assume s1: "pinv {} s1" "type_ref_opt s1 t" and v: "\<And>w. v = Some w \<Longrightarrow> vok (hp s1) w" "v = Some agg"
    and x: "extract_walk s1 t (drop j ops) = Ok x"
  obtain u iis where u: "x = (u, iis)" by fastforce
  have "type_ref_opt s1 u" using extract_walk_type [OF pinv_types [OF s1(1)] s1(2)] x u by blast
  then show "advances s1 (case x of (t, indices) \<Rightarrow>
      case construct_inst t VK_ExtractValue [Some agg] False (I_ExtractValue indices) s1 of
        (i, s) \<Rightarrow> must_add_instruction i s)"
    unfolding u prod.case using s1 v by (intro adv_intro) auto
qed

lemma adv_bind_simp: "m = m' \<Longrightarrow> advances s m' \<Longrightarrow> advances s m"
  by simp

lemma gep_walk_type:
  assumes "types_ok s"
  shows "type_ref_opt s t \<Longrightarrow> gep_walk s t args = Ok u \<Longrightarrow> type_ref_opt s u"
proof (induction args arbitrary: t)
  case (Cons a args)
  then obtain t0 where t0: "t = Some t0" "type_ref s t0" by (cases t) auto
  have "u = None \<or> (\<exists>p i. gep_walk s p args = Ok u \<and> (getStructElementType s t0 i = Ok p \<or>
       (\<exists>e. p = Some e \<and> (getArrayElementType s t0 = Ok e \<or> getVectorElementType s t0 = Ok e))))"
    using Cons.prems(2) t0(1)
    by (auto simp: Let_def bind_res_Ok_iff case_prod_unfold split: option.splits if_splits)
  then consider "u = None" | p where "gep_walk s p args = Ok u" "type_ref_opt s p"
    using elem_type_refs(2-4) [OF assms t0(2)] by auto
  then show ?case using Cons.IH by cases auto
qed simp

lemma resolve_gep_type:
  "pinv S s \<Longrightarrow> type_ref_opt s t \<Longrightarrow> resolve_gep_element_type s t args = Ok (Some u) \<Longrightarrow> type_ref s u"
  using gep_walk_type [of s t "drop 2 args" "Some u"] by (simp add: resolve_gep_element_type_def pinv_types)

lemma gep_args_post:
  "pinv {} s \<Longrightarrow> post (gep_args ops i s) (\<lambda>(vs, s'). quiet s s' \<and> (\<forall>v \<in> set vs. vok (hp s') v))"
proof (induction ops i s rule: gep_args.induct)
  case (1 ops i s)
  show ?case
  proof (cases "i < length ops")
    case False
    then show ?thesis using 1 quiet_refl [OF pinv_heap] by (simp add: gep_args.simps)
  next
    case True
    show ?thesis
      unfolding gep_args.simps [of ops i s] if_P [OF True]
    proof (intro post_bind_eq)
      fix x assume x: "get_value_and_type ops i s = Ok x"
      obtain p t j s1 where xs: "x = (p, t, j, s1)" by (metis prod.exhaust)
      then have g: "got s p s1" using postD [OF get_value_and_type_post [OF 1(2)] x] by simp
      note d = gotD [OF 1(2) g]
      show "post (case x of (v, t, j, s) \<Rightarrow> bind_res (require v) (\<lambda>v.
          if i < j then bind_res (gep_args ops j s) (\<lambda>(vs, s). Ok (v # vs, s)) else Fault Out_Of_Fuel))
          (\<lambda>(vs, s'). quiet s s' \<and> (\<forall>v \<in> set vs. vok (hp s') v))"
        unfolding xs prod.case
      proof (intro post_require_bind post_if)
        fix v assume v: "p = Some v" "i < j"
        have IH: "post (gep_args ops j s1) (\<lambda>(vs, s'). quiet s1 s' \<and> (\<forall>v \<in> set vs. vok (hp s') v))"
          using 1(1) [OF True x xs [symmetric] refl refl] v d(1) by simp
        show "post (bind_res (gep_args ops j s1) (\<lambda>(vs, s). Ok (v # vs, s)))
            (\<lambda>(vs, s'). quiet s s' \<and> (\<forall>v \<in> set vs. vok (hp s') v))"
          using g d(3) [OF v(1)]
          by (intro post_bind [OF IH]) (auto simp: got_def intro: quiet_trans quiet_later)
      qed simp_all
    qed
  qed
qed

text \<open>A quiet step that returns a value.\<close>

lemma adv_quiet:
  assumes "pinv {} s" "post m (\<lambda>(r, s1). quiet s s1 \<and> P r s1)"
    and "\<And>r s1. pinv {} s1 \<Longrightarrow> hle (hp s) (hp s1) \<Longrightarrow> P r s1 \<Longrightarrow> advances s1 (f r s1)"
  shows "advances s (bind_res m (\<lambda>(r, s). f r s))"
proof (rule adv_bind_eq)
  fix x assume x: "m = Ok x"
  obtain r s1 where vs: "x = (r, s1)" by fastforce
  then have q: "quiet s s1" "P r s1" using assms(2) x by auto
  have "advances s1 (f r s1)"
    by (rule assms(3) [OF quiet_pinv [OF assms(1) q(1)] quiet_hle [OF q(1)] q(2)])
  then show "advances s (case x of (r, s) \<Rightarrow> f r s)"
    using advances_lift [OF quiet_hle [OF q(1)]] vs by simp
qed

lemma record_gep_ok: "pinv {} s \<Longrightarrow> advances s (record_gep ops s)"
  unfolding record_gep_def GetElementPtrInst_new_def Let_def
  apply (intro adv_intro adv_quiet [OF _ gep_args_post])
            apply (auto intro: later hle_trans simp: cast_type_Ok)
  subgoal for args s1 t
    using resolve_gep_type [of "{}" s1 "get_type s (ops ! Suc 0)" "map Some args" t]
      later_type_ref_opt [of s s1 "get_type s (ops ! Suc 0)"] get_type_ref [of "{}" s] by simp
  done

lemma record_load_ok: "pinv {} s \<Longrightarrow> advances s (record_load ops s)"
proof -
  have add: "advances s (case construct_inst t VK_Load [Some p] False I_None s of (i, s) \<Rightarrow>
      bind_res (add_instruction i s) (\<lambda>(_, s). Ok s))"
    if "pinv {} s" "type_ref_opt s t" "vok (hp s) p" for s t p
  proof -
    obtain i s' where run: "construct_inst t VK_Load [Some p] False I_None s = (i, s')" by fastforce
    have m: "made s (i, s')"
      using made_construct [OF quiet_refl [OF pinv_heap [OF that(1)]] that(2), of VK_Load "[Some p]" I_None] that(3) run
      by simp
    then have q: "quiet s s'" "appendable {} s' i" by (simp_all add: made_def)
    have "post (add_instruction i s') (\<lambda>(ok, t). pinv {} t \<and> hle (hp s') (hp t))"
      using add_instruction_pinv [OF quiet_pinv [OF that(1) q(1)] q(2)] by simp
    then have "advances s' (bind_res (add_instruction i s') (\<lambda>(_, s). Ok s))"
      by (auto simp: advances_def post_def bind_res_Ok_iff)
    then show ?thesis using run advances_lift [OF quiet_hle [OF q(1)]] by simp
  qed
  assume "pinv {} s"
  then show ?thesis
    unfolding record_load_def LoadInst_new_def bind_res_if bind_res_simps bind_res_assoc
    by (intro adv_intro add)
      (auto intro: later get_type_ref elem_type_refs(1) pinv_types)
qed

section \<open>Records that mutate a new instruction\<close>

lemma quiet_appendable:
  assumes "quiet s s'" "appendable S s i"
  shows "appendable S s' i"
proof -
  have "i < length (vheap s)" using assms(2) by (simp add: appendable_def kind_ref_def)
  then have "isTerminator s' i = isTerminator s i" "targets s' i = targets s i"
    using assms(1) by (auto simp: quiet_def steady_def)
  then show ?thesis using assms quiet_later(3) by (auto simp: appendable_def simp del: inst_kind_simps)
qed

lemma instruction_update_ok:
  assumes "body_ok h k x"
    and "\<And>ops t at sp. x = B_Instruction ops t at sp \<Longrightarrow> body_ok h k (B_Instruction ops t at sp) \<Longrightarrow> body_ok h k (F ops t at sp)"
  shows "body_ok h k (case x of B_Instruction ops t at sp \<Rightarrow> F ops t at sp | _ \<Rightarrow> x)"
  using assms by (cases x) simp_all

lemma setFast_quiet:
  fixes s :: mpc
  assumes "heap_ok (hp s)" "vok (hp s) v"
  shows "quiet s (setFast v b s)"
  unfolding setFast_def
proof (rule update_body_quiet [OF assms])
  fix k x assume "body_ok (hp s) k x"
  then show "body_ok (hp s) k (case x of
        B_Instruction ops t at (I_Binary op _) \<Rightarrow> B_Instruction ops t at (I_Binary op b) | _ \<Rightarrow> x)"
  proof (rule instruction_update_ok)
    fix ops t at sp assume "body_ok (hp s) k (B_Instruction ops t at sp)"
    then show "body_ok (hp s) k (case sp of I_Binary op _ \<Rightarrow> B_Instruction ops t at (I_Binary op b) | _ \<Rightarrow> x)"
      using \<open>body_ok (hp s) k x\<close> by (cases sp) simp_all
  qed
qed (simp add: code_of_def split: Body.split Specific.split)

lemma add_incoming_quiet:
  fixes s :: mpc
  assumes "heap_ok (hp s)" "vok (hp s) phi" "vok (hp s) v" "kind_ref (hp s) {VK_BasicBlock} bb"
  shows "quiet s (add_incoming phi v bb s)"
  unfolding add_incoming_def
proof (rule update_body_quiet [OF assms(1,2)])
  fix k x assume "body_ok (hp s) k x"
  then show "body_ok (hp s) k (case x of
        B_Instruction ops t at (I_PHI vs) \<Rightarrow> B_Instruction ops t at (I_PHI (vs @ [(Some v, bb)])) | _ \<Rightarrow> x)"
  proof (rule instruction_update_ok)
    fix ops t at sp assume o: "body_ok (hp s) k (B_Instruction ops t at sp)"
    show "body_ok (hp s) k (case sp of I_PHI vs \<Rightarrow> B_Instruction ops t at (I_PHI (vs @ [(Some v, bb)])) | _ \<Rightarrow> x)"
    proof (cases sp)
      case (I_PHI vs)
      then show ?thesis using o assms(3,4) by (simp del: inst_kind_simps) blast
    qed (use \<open>body_ok (hp s) k x\<close> in simp_all)
  qed
qed (simp add: code_of_def split: Body.split Specific.split)

lemma adv_made_then:
  assumes "pinv {} s" "made s g" and "\<And>i s1. pinv {} s1 \<Longrightarrow> appendable {} s1 i \<Longrightarrow> hle (hp s) (hp s1) \<Longrightarrow> quiet s s1 \<Longrightarrow> advances s1 (f i s1)"
  shows "advances s (case g of (i, s) \<Rightarrow> f i s)"
proof -
  obtain i s1 where g: "g = (i, s1)" by fastforce
  then have q: "quiet s s1" "appendable {} s1 i" using assms(2) by (auto simp: made_def)
  have "advances s1 (f i s1)"
    by (rule assms(3) [OF quiet_pinv [OF assms(1) q(1)] q(2) quiet_hle [OF q(1)] q(1)])
  then show ?thesis using g advances_lift [OF quiet_hle [OF q(1)]] by simp
qed

lemma appendable_vok: "appendable S s i \<Longrightarrow> vok (hp s) i"
  by (auto simp: appendable_def kind_ref_def vok_def)

lemma adv_must_after:
  assumes "pinv {} s" "appendable {} s i" "quiet s s'"
  shows "advances s (must_add_instruction i s')"
  by (rule advances_lift [OF quiet_hle [OF assms(3)]])
    (rule adv_must [OF quiet_appendable [OF assms(3,2)] quiet_pinv [OF assms(1,3)]])

lemma record_binop_ok: "pinv {} s \<Longrightarrow> advances s (record_binop ops s)"
proof -
  have fin: "advances s (case BinaryOperator_new a b op s of (inst, s) \<Rightarrow>
      must_add_instruction inst (if c then setFast inst fl s else s))"
    if "pinv {} s" "vok (hp s) a" "vok (hp s) b" for s a b op c fl
  proof (rule adv_made_then [OF that(1)])
    show "made s (BinaryOperator_new a b op s)"
      unfolding BinaryOperator_new_def using that quiet_refl [OF pinv_heap [OF that(1)]] pinv_getType [OF that(1,2)]
      by (intro made_construct) auto
    fix i s1 assume s1: "pinv {} s1" "appendable {} s1 i"
    then have "quiet s1 (if c then setFast i fl s1 else s1)"
      using setFast_quiet [OF pinv_heap [OF s1(1)] appendable_vok [OF s1(2)]] quiet_refl [OF pinv_heap [OF s1(1)]] by simp
    then show "advances s1 (must_add_instruction i (if c then setFast i fl s1 else s1))"
      using adv_must_after [OF s1] by simp
  qed
  assume "pinv {} s"
  then show ?thesis
    unfolding record_binop_def Let_def
    by (intro adv_intro fin) (auto intro: later)
qed

lemma phi_incoming_quiet:
  assumes s: "pinv {} s" and phi: "vok (hp s) phi" and t: "type_ref_opt s t"
  shows "post (phi_incoming phi t ops i s) (quiet s)"
proof -
  have gv: "post (if use_relative_id s then Ok (get_value_signed o1 t s) else get_value o1 t False s)
      (\<lambda>(p, s'). got s p s')" for o1
    using get_value_post [OF s t] get_value_signed_got [OF s t] by (intro post_if) auto
  have fin: "post (bind_res (require p) (\<lambda>v. bind_res (require (get_basic_block s' o2)) (\<lambda>bb.
      Ok (add_incoming phi v bb s')))) (quiet s)" if g: "got s p s'" for p s' o2
  proof (intro post_require_bind)
    fix v bb assume v: "p = Some v" "get_basic_block s' o2 = Some bb"
    note d = gotD [OF s g]
    have "quiet s' (add_incoming phi v bb s')"
      by (rule add_incoming_quiet [OF d(4) hle_vok [OF d(2) phi] d(3) [OF v(1)] get_basic_block_Some [OF d(1) v(2)]])
    then show "post (Ok (add_incoming phi v bb s')) (quiet s)"
      using g by (auto simp: got_def intro: quiet_trans)
  qed
  show ?thesis
    unfolding phi_incoming_def
    by (intro post_index_bind post_bind [OF gv]) (auto intro!: post_index_bind fin)
qed

lemma record_phi_ok: "pinv {} s \<Longrightarrow> advances s (record_phi ops s)"
  unfolding record_phi_def Let_def
proof (intro adv_if adv_made_then)
  assume s: "pinv {} s"
  show "made s (PHINode_new (get_type s (ops ! 0)) s)"
    unfolding PHINode_new_def using quiet_refl [OF pinv_heap [OF s]] get_type_ref [OF s]
    by (intro made_construct) auto
  fix phi s1 assume s1: "pinv {} s1" "appendable {} s1 phi" "hle (hp s) (hp s1)"
  let ?t = "get_type s (ops ! 0)"
  have t: "type_ref_opt s1 ?t" using later_type_ref_opt [OF s1(3)] get_type_ref [OF s] by blast
  have "post (fold_res (phi_incoming phi ?t ops) [0..<(length ops - 1) div 2] s1) (quiet s1)"
  proof (rule fold_res_post)
    fix i s2 assume q: "quiet s1 s2"
    show "post (phi_incoming phi ?t ops i s2) (quiet s1)"
      using phi_incoming_quiet [OF quiet_pinv [OF s1(1) q] quiet_later(1) [OF q appendable_vok [OF s1(2)]]
          later_type_ref_opt [OF quiet_hle [OF q] t], of ops i] quiet_trans [OF q]
      by (rule post_mono)
  qed (rule quiet_refl [OF pinv_heap [OF s1(1)]])
  then show "advances s1 (bind_res (fold_res (phi_incoming phi ?t ops) [0..<(length ops - 1) div 2] s1)
      (must_add_instruction phi))"
    using adv_must_after [OF s1(1,2)] by (intro adv_bind_eq) (auto simp: post_def)
qed (auto simp: adv_fail)

section \<open>Calls\<close>

lemma resolve_proxy_loop_vok:
  "heap_ok (hp h) \<Longrightarrow> (\<And>v. p = Some v \<Longrightarrow> vok (hp h) v) \<Longrightarrow> resolve_proxy_loop n h p = Ok (Some w) \<Longrightarrow>
    vok (hp h) w \<and> get_value_kind h w \<noteq> VK_Proxy"
proof (induction n h p rule: resolve_proxy_loop.induct)
  case (3 n h v)
  show ?case
  proof (cases "get_value_kind h v = VK_Proxy")
    case True
    then obtain q where q: "get_proxy_value h v = Ok q" "resolve_proxy_loop n h q = Ok (Some w)"
      using 3(4) by auto
    then have "\<And>u. q = Some u \<Longrightarrow> vok (hp h) u"
      using heap_ok_value [OF 3(2), of v] 3(3)
      by (auto simp: get_proxy_value_def value_ok_def kind_ref_def vok_def split: Body.splits)
    then show ?thesis using 3(1,2) True q by blast
  qed (use 3 in auto)
qed auto

lemma dyn_cast_value_kind:
  assumes "heap_ok (hp s)" "\<And>v. p = Some v \<Longrightarrow> vok (hp s) v" "T \<noteq> VK_Proxy"
    and "dyn_cast_value T s p = Ok (Some w)"
  shows "vok (hp s) w" "is_base_of_value_kind T (get_value_kind s w)"
proof -
  obtain q where q: "resolve_proxy s p = Ok (Some q)" "w = q" "is_base_of_value_kind T (get_value_kind s q)"
    using assms(3,4)
    by (auto simp: dyn_cast_value_def bind_res_Ok_iff deref_def split: if_splits option.splits)
  then show "vok (hp s) w" "is_base_of_value_kind T (get_value_kind s w)"
    using resolve_proxy_loop_vok [OF assms(1), of p] assms(2) by (auto simp: resolve_proxy_def)
qed

lemma adv_dyn_cast:
  assumes "pinv {} s" "\<And>v. p = Some v \<Longrightarrow> vok (hp s) v" "T \<noteq> VK_Proxy"
    and "\<And>r. (\<And>w. r = Some w \<Longrightarrow> vok (hp s) w \<and> is_base_of_value_kind T (get_value_kind s w)) \<Longrightarrow> advances s (f r)"
  shows "advances s (bind_res (dyn_cast_value T s p) f)"
proof (rule adv_bind_eq)
  fix r assume r: "dyn_cast_value T s p = Ok r"
  show "advances s (f r)"
  proof (rule assms(4))
    fix w assume w: "r = Some w"
    show "vok (hp s) w \<and> is_base_of_value_kind T (get_value_kind s w)"
      by (intro conjI dyn_cast_value_kind [OF pinv_heap [OF assms(1)] assms(2,3) r [unfolded w]])
  qed
qed

lemma getFunctionType_ref:
  assumes "pinv S s" "vok (hp s) f" "getFunctionType s f = Ok t"
  shows "type_ref s t" "type_id_of s t = FunctionTyID"
  using heap_ok_value [OF pinv_heap [OF assms(1)] assms(2)] assms(3)
  by (auto simp: getFunctionType_def value_ok_def split: Body.splits)

lemma call_params_post:
  "pinv {} s \<Longrightarrow> \<forall>p \<in> set ps. type_ref_opt s (snd p) \<Longrightarrow>
   post (call_params ps s) (\<lambda>(vs, s'). quiet s s' \<and> (\<forall>v \<in> set vs. vok (hp s') v))"
proof (induction ps arbitrary: s)
  case Nil
  then show ?case by (simp add: quiet_refl pinv_heap)
next
  case (Cons p ps)
  obtain op t where p: "p = (op, t)" by fastforce
  show ?case
    unfolding p call_params.simps
  proof (intro post_bind [OF get_value_post [OF Cons.prems(1), of t]])
    show "type_ref_opt s t" using Cons.prems(2) p by simp
    fix x assume "case x of (q, s') \<Rightarrow> got s q s'"
    then obtain q s1 where x: "x = (q, s1)" "got s q s1" by (cases x) auto
    note d = gotD [OF Cons.prems(1) x(2)]
    show "post (case x of (v, s) \<Rightarrow> bind_res (require v) (\<lambda>v.
        bind_res (call_params ps s) (\<lambda>(vs, s). Ok (v # vs, s))))
        (\<lambda>(vs, s'). quiet s s' \<and> (\<forall>v \<in> set vs. vok (hp s') v))"
      unfolding x prod.case
    proof (intro post_require_bind)
      fix v assume v: "q = Some v"
      have "\<forall>p \<in> set ps. type_ref_opt s1 (snd p)"
        using Cons.prems(2) later_type_ref_opt [OF d(2)] by simp
      note IH = Cons.IH [OF d(1) this]
      show "post (bind_res (call_params ps s1) (\<lambda>(vs, s). Ok (v # vs, s)))
          (\<lambda>(vs, s'). quiet s s' \<and> (\<forall>v \<in> set vs. vok (hp s') v))"
        using x(2) d(3) [OF v] by (intro post_bind [OF IH]) (auto simp: got_def intro: quiet_trans quiet_later)
    qed
  qed
qed

lemma param_types_ref:
  assumes "types_ok s" "type_ref s t" "p \<in> set (param_types s t)"
  shows "type_ref_opt s p"
  using types_okD(3) [OF assms(1,2)] assms(3)
  by (cases "type_at s t") (auto simp: param_types_def type_ref_opt_def)

lemma call_tail_ok:
  assumes s: "pinv {} s" and v: "\<And>w. v = Some w \<Longrightarrow> vok (hp s) w"
    and ft: "\<And>t. function_type = Some t \<Longrightarrow> type_ref s t"
  shows "advances s (bind_res (dyn_cast_value VK_Function s v) (\<lambda>callee.
      bind_res (require callee) (\<lambda>callee.
      bind_res (case function_type of Some t \<Rightarrow> Ok t | None \<Rightarrow> getFunctionType s callee) (\<lambda>ft.
      if length ops \<noteq> i + 1 + getNumParams s ft then Reject
      else
        bind_res (call_params (zip (drop (i + 1) ops) (param_types s ft)) s) (\<lambda>(params, s).
        bind_res (CallInst_new ft callee params s) (\<lambda>(inst, s). must_add_instruction inst s))))))"
proof (intro adv_dyn_cast [OF s] adv_require adv_bind_eq [where m = "case function_type of Some t \<Rightarrow> _ t | None \<Rightarrow> _"] adv_if)
  fix r c t assume r: "\<And>w. r = Some w \<Longrightarrow> vok (hp s) w \<and> is_base_of_value_kind VK_Function (get_value_kind s w)"
    and c: "r = Some c" and t: "(case function_type of Some t \<Rightarrow> Ok t | None \<Rightarrow> getFunctionType s c) = Ok t"
  have k: "kind_ref (hp s) {VK_Function} c" using r [OF c] by (simp add: kind_ref_value_at is_base_of_value_kind_def)
  have tr: "type_ref s t"
    using t ft getFunctionType_ref(1) [OF s] r [OF c] by (cases function_type) auto
  have ps: "\<forall>p \<in> set (zip (drop (i + 1) ops) (param_types s t)). type_ref_opt s (snd p)"
    using param_types_ref [OF pinv_types [OF s] tr] by (auto dest: set_zip_rightD)
  show "advances s (bind_res (call_params (zip (drop (i + 1) ops) (param_types s t)) s) (\<lambda>(params, s).
        bind_res (CallInst_new t c params s) (\<lambda>(inst, s). must_add_instruction inst s)))"
    by (intro adv_quiet [OF s call_params_post [OF s ps]] adv_made CallInst_made)
      (auto intro: hle_kind_ref k later_type_ref tr)
qed (use v adv_fail in auto)

lemma record_call_ok: "pinv {} s \<Longrightarrow> advances s (record_call ops s)"
proof -
  assume s: "pinv {} s"
  have ft: "advances s (bind_res (if e then bind_res (cast_type FunctionTyID s (get_type s o1)) (\<lambda>t. Ok (Some t)) else Ok None) f)"
    if "\<And>p. (\<And>t. p = Some t \<Longrightarrow> type_ref s t) \<Longrightarrow> advances s (f p)" for e o1 f
    using get_type_Some [OF s]
    by (intro adv_bind_eq that) (auto simp: bind_res_Ok_iff cast_type_Ok split: if_splits)
  show ?thesis
    unfolding record_call_def Let_def
    by (intro adv_if adv_fail ft adv_get_value [OF s] call_tail_ok) (auto intro: later)
qed

section \<open>Branches and switches\<close>

lemma adv_add_successor:
  assumes "pinv S s" "kind_ref (hp s) {VK_BasicBlock} bb"
    and "\<And>s1. pinv (insert bb S) s1 \<Longrightarrow> hle (hp s) (hp s1) \<Longrightarrow> parser_same s s1 \<Longrightarrow> current_bb s1 \<noteq> None \<Longrightarrow> advances s1 (f s1)"
  shows "advances s (bind_res (add_successor bb s) f)"
proof (rule adv_bind_eq)
  fix s1 assume "add_successor bb s = Ok s1"
  then have "pinv (insert bb S) s1 \<and> hle (hp s) (hp s1) \<and> parser_same s s1 \<and> current_bb s \<noteq> None"
    using postD [OF add_successor_pinv [OF assms(1,2)]] by blast
  then show "advances s (f s1)"
    using assms(3) [of s1] advances_lift by (auto simp: parser_same_def)
qed

lemma adv_got_pending:
  assumes "pinv S s" "type_ref_opt s t"
    and "\<And>v s1. pinv S s1 \<Longrightarrow> got s v s1 \<Longrightarrow> advances s1 (f v s1)"
  shows "advances s (bind_res (get_value op t b s) (\<lambda>(v, s). f v s))"
proof (rule adv_bind_eq)
  fix x assume x: "get_value op t b s = Ok x"
  obtain v s1 where vs: "x = (v, s1)" by fastforce
  then have g: "got s v s1" using postD [OF get_value_post [OF assms(1,2)] x] by simp
  show "advances s (case x of (v, s) \<Rightarrow> f v s)"
    using advances_lift [OF gotD(2) [OF assms(1) g]] assms(3) [OF gotD(1) [OF assms(1) g] g] vs by simp
qed

lemma parser_same_block: "parser_same s s' \<Longrightarrow> get_basic_block s' i = get_basic_block s i"
  "parser_same s s' \<Longrightarrow> get_type s' i = get_type s i" "parser_same s s' \<Longrightarrow> current_bb s' = current_bb s"
  by (simp_all add: parser_same_def get_basic_block_def get_type_def)

lemma record_br_ok: "pinv {} s \<Longrightarrow> advances s (record_br ops s)"
  unfolding record_br_def BranchInst_new_def CondBranchInst_new_def
proof (intro adv_if adv_fail adv_require)
  fix t assume s: "pinv {} s" and t: "get_basic_block s (ops ! 0) = Some t"
  show "advances s (bind_res (add_successor t s) (\<lambda>s.
        if length ops = 1 then
          (case construct_inst None VK_Branch [] True (I_Branch [t] None) s of (inst, s) \<Rightarrow> must_add_instruction inst s)
        else if length ops = 3 then
          bind_res (require (get_basic_block s (ops ! 1))) (\<lambda>false_block.
          bind_res (add_successor false_block s) (\<lambda>s.
          case getInt1Ty s of (b, s) \<Rightarrow>
          bind_res (get_value (ops ! 2) (Some b) False s) (\<lambda>(cond, s).
          case construct_inst None VK_Branch [] True (I_Branch [t, false_block] cond) s of (inst, s) \<Rightarrow>
          must_add_instruction inst s)))
        else Reject))"
  proof (intro adv_add_successor [OF s get_basic_block_Some [OF s t]] adv_if adv_fail adv_require)
    fix s1 assume s1: "pinv {t} s1" "hle (hp s) (hp s1)" "parser_same s s1" "current_bb s1 \<noteq> None"
    have kt: "kind_ref (hp s1) {VK_BasicBlock} t" using hle_kind_ref [OF s1(2) get_basic_block_Some [OF s t]] .
    show "advances s1 (case construct_inst None VK_Branch [] True (I_Branch [t] None) s1 of
        (inst, s) \<Rightarrow> must_add_instruction inst s)"
      using s1 kt by (intro adv_finish_pending [where S = "{t}"]) auto
    fix f assume f: "get_basic_block s1 (ops ! 1) = Some f"
    note kf = get_basic_block_Some [OF s1(1) f]
    show "advances s1 (bind_res (add_successor f s1) (\<lambda>s. case getInt1Ty s of (b, s) \<Rightarrow>
          bind_res (get_value (ops ! 2) (Some b) False s) (\<lambda>(cond, s).
          case construct_inst None VK_Branch [] True (I_Branch [t, f] cond) s of (inst, s) \<Rightarrow>
          must_add_instruction inst s)))"
    proof (rule adv_add_successor [OF s1(1) kf])
      fix s2 assume s2: "pinv {f, t} s2" "hle (hp s1) (hp s2)" "current_bb s2 \<noteq> None"
      obtain b s3 where b: "getInt1Ty s2 = (b, s3)" by fastforce
      then have q: "quiet s2 s3" "type_ref s3 b"
        using type_gets(5) [OF pinv_heap [OF s2(1)], of 1] by (auto simp: type_got_def)
      have "advances s3 (bind_res (get_value (ops ! 2) (Some b) False s3) (\<lambda>(cond, s).
          case construct_inst None VK_Branch [] True (I_Branch [t, f] cond) s of (inst, s) \<Rightarrow>
          must_add_instruction inst s))"
      proof (rule adv_got_pending [OF quiet_pinv [OF s2(1) q(1)]])
        fix v s4 assume s4: "pinv {f, t} s4" "got s3 v s4"
        have le: "hle (hp s1) (hp s4)"
          using s2(2) quiet_hle [OF q(1)] s4(2) by (auto simp: got_def quiet_def intro: hle_trans)
        have "current_bb s4 = current_bb s2"
          using q(1) s4(2) by (simp add: got_def quiet_def parser_same_def)
        then show "advances s4 (case construct_inst None VK_Branch [] True (I_Branch [t, f] v) s4 of
            (inst, s) \<Rightarrow> must_add_instruction inst s)"
          using s2(3) hle_kind_ref [OF le kt] hle_kind_ref [OF le kf] s4(2)
          by (intro adv_finish_pending [OF s4(1)]) (auto simp: got_def)
      qed (use q in simp)
      then show "advances s2 (case getInt1Ty s2 of (b, s) \<Rightarrow>
          bind_res (get_value (ops ! 2) (Some b) False s) (\<lambda>(cond, s).
          case construct_inst None VK_Branch [] True (I_Branch [t, f] cond) s of (inst, s) \<Rightarrow>
          must_add_instruction inst s))"
        using b advances_lift [OF quiet_hle [OF q(1)]] by simp
    qed
  qed
qed

text \<open>A switch collects its cases before it is placed in the block.\<close>

definition unplaced :: "mpc \<Rightarrow> vref \<Rightarrow> bool" where
  "unplaced s i \<longleftrightarrow> (\<forall>b. i \<notin> set (block_instructions s b))"

lemma unplaced_update_pinv:
  assumes inv: "pinv S s" and i: "vok (hp s) i" "unplaced s i"
    and f: "\<And>k b. body_ok (hp s) k b \<Longrightarrow> body_ok (hp s) k (f b)"
    and old: "fst (code_of (vbody (value_at s i))) = []" "fst (snd (code_of (vbody (value_at s i)))) = []"
    and new: "fst (code_of (f (vbody (value_at s i)))) = []" "fst (snd (code_of (f (vbody (value_at s i))))) = []"
  shows "pinv S (update_body i f s)" "hle (hp s) (hp (update_body i f s))" "unplaced (update_body i f s) i"
proof -
  let ?t = "update_body i f s"
  have ok: "heap_ok (hp s)" and r: "roots_ok s" and sh: "shapes S s" and op: "open_ok s"
    using inv by (auto simp: pinv_def)
  have okt: "heap_ok (hp ?t)" and le: "hle (hp s) (hp ?t)"
    by (rule update_body_ok [OF ok i(1)], erule f)+
  have bi: "block_instructions ?t v = block_instructions s v" "block_succs ?t v = block_succs s v" for v
    using old new by (auto simp: code_of_parts value_at_update_body)
  have nt: "isTerminator ?t j = isTerminator s j" "targets ?t j = targets s j" if "j \<noteq> i" for j
    using that by (auto simp: code_of_parts value_at_update_body)
  have ne: "j \<noteq> i" if "j \<in> set (block_instructions s b)" for j b
    using i(2) that by (auto simp: unplaced_def)
  have gt: "getTerminator ?t b = getTerminator s b" for b
    using nt(1) ne [of _ b] by (auto simp: getTerminator_def bi Let_def)
  have tn: "t \<noteq> i" if "getTerminator s b = Some t" for t b
  proof -
    have "block_instructions s b \<noteq> []" "t = last (block_instructions s b)"
      using that by (auto simp: getTerminator_def Let_def split: if_splits)
    then show ?thesis using ne last_in_set by metis
  qed
  have bl: "isTerminator ?t j = isTerminator s j" if "j \<in> set (butlast (block_instructions s b))" for j b
    by (rule nt(1) [OF ne [OF in_set_butlastD [OF that]]])
  have bs: "block_shape ?t X b = block_shape s X b" for X b
    using nt(2) tn [of b] by (simp add: block_shape_def bi gt bl split: option.split)
  have kr: "kind_ref (hp ?t) {VK_BasicBlock} c \<Longrightarrow> kind_ref (hp s) {VK_BasicBlock} c" for c
    using le by (auto simp: hle_def kind_ref_def)
  have "shapes S ?t" using sh kr by (auto simp: shapes_def bs)
  moreover have "open_ok ?t" using op by (simp add: open_ok_def gt bi)
  ultimately show "pinv S ?t" using okt roots_ok_update_body [OF r le] by (simp add: pinv_def)
  show "hle (hp s) (hp ?t)" by (rule le)
  show "unplaced ?t i" using i(2) by (simp add: unplaced_def bi)
qed

definition switching :: "mpc \<Rightarrow> vref \<Rightarrow> mpc \<Rightarrow> bool" where
  "switching s0 i s \<longleftrightarrow> pinv (targets s i) s \<and> hle (hp s0) (hp s) \<and> kind_ref (hp s) {VK_Switch} i \<and>
     unplaced s i \<and> isTerminator s i \<and> current_bb s \<noteq> None"

lemma switch_body:
  assumes "heap_ok (hp s)" "kind_ref (hp s) {VK_Switch} i"
  obtains ops at c d cs where "vbody (value_at s i) = B_Instruction ops True at (I_Switch c d cs)"
proof -
  have "body_ok (hp s) VK_Switch (vbody (value_at s i))"
    using heap_ok_value [OF assms(1), of i] assms(2) by (auto simp: value_ok_def kind_ref_value_at)
  then obtain ops at sp where b: "vbody (value_at s i) = B_Instruction ops True at sp" "VK_Switch \<in> specific_kinds sp"
    by (cases "vbody (value_at s i)") auto
  then show thesis using that by (cases sp) auto
qed

lemma quiet_unplaced: "quiet s s' \<Longrightarrow> i < length (vheap s) \<Longrightarrow> unplaced s i \<Longrightarrow> unplaced s' i"
  unfolding unplaced_def quiet_def steady_def by (metis empty_iff empty_set not_le_imp_less)

lemma quiet_code: "quiet s s' \<Longrightarrow> i < length (vheap s) \<Longrightarrow>
    targets s' i = targets s i \<and> isTerminator s' i = isTerminator s i \<and> current_bb s' = current_bb s"
  by (simp add: quiet_def steady_def parser_same_def)

lemma quiet_switching:
  assumes "switching s0 i s" "quiet s s'"
  shows "switching s0 i s'"
proof -
  have "i < length (vheap s)" using assms(1) by (simp add: switching_def kind_ref_def)
  then show ?thesis
    using assms quiet_unplaced quiet_code quiet_pinv quiet_later(3) quiet_hle [OF assms(2)]
    unfolding switching_def by (metis hle_trans)
qed

lemma addCase_switching:
  assumes sw: "switching s0 i s" and v: "vok (hp s) v" and bb: "kind_ref (hp s) {VK_BasicBlock} bb"
  shows "post (bind_res (add_successor bb s) (\<lambda>s. Ok (addCase i v bb s))) (switching s0 i)"
proof (rule post_bind_eq)
  fix t assume t: "add_successor bb s = Ok t"
  have s: "pinv (targets s i) s" "kind_ref (hp s) {VK_Switch} i" "unplaced s i" "isTerminator s i"
    using sw by (auto simp: switching_def)
  have t1: "pinv (insert bb (targets s i)) t" "hle (hp s) (hp t)" "parser_same s t"
      "\<And>v. block_instructions t v = block_instructions s v"
    using postD [OF add_successor_pinv [OF s(1) bb] t] by auto
  have ki: "kind_ref (hp t) {VK_Switch} i" by (rule hle_kind_ref [OF t1(2) s(2)])
  obtain ops at c d cs where body: "vbody (value_at t i) = B_Instruction ops True at (I_Switch c d cs)"
    using switch_body [OF pinv_heap [OF t1(1)] ki] .
  obtain b where b: "current_bb s = Some b" "t = update_body b (block_update id (\<lambda>ss. push_unique ss bb)) s"
    using t by (auto simp: add_successor_def add_as_block_update split: option.splits)
  have "kind_ref (hp s) {VK_BasicBlock} b" using s(1) b(1) by (simp add: pinv_def roots_ok_def)
  then have "b \<noteq> i" using s(2) by (auto simp: kind_ref_def)
  then have ti: "targets s i = targets t i" by (simp add: b(2) code_of_parts value_at_update_body)
  let ?f = "\<lambda>x. case x of B_Instruction ops t at (I_Switch c d cs) \<Rightarrow>
      B_Instruction ops t at (I_Switch c d (cs @ [(v, bb)])) | _ \<Rightarrow> x"
  have vt: "vok (hp t) v" "kind_ref (hp t) {VK_BasicBlock} bb"
    using hle_vok [OF t1(2) v] hle_kind_ref [OF t1(2) bb] .
  have f: "body_ok (hp t) k (?f x)" if o: "body_ok (hp t) k x" for k x
  proof (rule instruction_update_ok [OF o])
    fix ops t' at sp assume o': "body_ok (hp t) k (B_Instruction ops t' at sp)"
    show "body_ok (hp t) k (case sp of I_Switch c d cs \<Rightarrow> B_Instruction ops t' at (I_Switch c d (cs @ [(v, bb)])) | _ \<Rightarrow> x)"
    proof (cases sp)
      case (I_Switch c d cs)
      then show ?thesis using o' vt by simp
    qed (use o in simp_all)
  qed
  have un: "unplaced t i" using s(3) t1(4) by (simp add: unplaced_def)
  have vi: "vok (hp t) i" by (rule kind_ref_vok [OF ki])
  have ti': "targets (addCase i v bb t) i = insert bb (targets s i)" "isTerminator (addCase i v bb t) i"
    using vi body ti
    by (auto simp: addCase_def code_of_parts value_at_update_body code_of_def vok_def)
  have "pinv (insert bb (targets s i)) (addCase i v bb t)" "hle (hp t) (hp (addCase i v bb t))" "unplaced (addCase i v bb t) i"
    unfolding addCase_def
    by (rule unplaced_update_pinv [OF t1(1) vi un f]; simp add: body code_of_def)+
  moreover have "current_bb (addCase i v bb t) \<noteq> None"
    using sw t1(3) by (simp add: addCase_def switching_def parser_same_def)
  ultimately show "post (Ok (addCase i v bb t)) (switching s0 i)"
    using ti' sw t1(2) hle_kind_ref [OF _ ki] by (auto simp: switching_def intro: hle_trans)
qed

lemma switch_case_ok:
  assumes sw: "switching s0 i s" and t: "type_ref s0 t"
  shows "post (switch_case i t ops j s) (switching s0 i)"
proof -
  have s: "pinv (targets s i) s" "hle (hp s0) (hp s)" using sw by (auto simp: switching_def)
  have fin: "post (bind_res (require p) (\<lambda>v. bind_res (require (get_basic_block s' o2)) (\<lambda>bb.
      bind_res (add_successor bb s') (\<lambda>s. Ok (addCase i v bb s))))) (switching s0 i)" if g: "got s p s'" for p s' o2
  proof (intro post_require_bind addCase_switching)
    show sw': "switching s0 i s'" using quiet_switching [OF sw] g by (simp add: got_def)
    fix v bb assume v: "p = Some v" and bb: "get_basic_block s' o2 = Some bb"
    show "vok (hp s') v" by (rule gotD(3) [OF s(1) g v])
    show "kind_ref (hp s') {VK_BasicBlock} bb"
      using get_basic_block_Some [OF _ bb] sw' by (auto simp: switching_def)
  qed
  have "type_ref_opt s (Some t)" using later_type_ref [OF s(2) t] by simp
  then show ?thesis
    unfolding switch_case_def
    by (intro post_index_bind post_bind [OF get_value_post [OF s(1)]]) (auto intro!: post_index_bind fin)
qed

lemma new_inst_unplaced:
  assumes "heap_ok (hp s)"
  shows "unplaced s (length (vheap s))"
proof -
  have "\<forall>j \<in> set (block_instructions s b). j < length (vheap s)" for b
  proof (cases "b < length (vheap s)")
    case True
    then have "body_ok (hp s) (get_value_kind s b) (vbody (value_at s b))"
      using heap_ok_value [OF assms, of b] by (simp add: vok_def value_ok_def)
    then show ?thesis by (cases "vbody (value_at s b)") (auto simp: block_instructions_def kind_ref_def)
  qed (use fresh_code [of s b] in simp)
  then show ?thesis by (auto simp: unplaced_def)
qed

lemma SwitchInst_switching:
  assumes s: "pinv {d} s" "current_bb s \<noteq> None" and c: "vok (hp s) c" and d: "kind_ref (hp s) {VK_BasicBlock} d"
  shows "post (SwitchInst_new c d s) (\<lambda>(i, s'). switching s i s')"
  unfolding SwitchInst_new_def
proof (intro post_deref_bind post_gets(4) [OF pinv_heap [OF s(1)]])
  show "simple_id VoidTyID" by (simp add: simple_id_def)
  fix t s1 assume q: "quiet s s1" "type_ref s1 t"
  obtain i s2 where run: "construct_inst (Some t) VK_Switch [] True (I_Switch c d []) s1 = (i, s2)" by fastforce
  have "body_ok (hp s1) VK_Switch (B_Instruction [] True [] (I_Switch c d []))"
    using quiet_later(1) [OF q(1) c] quiet_later(3) [OF q(1) d] by simp
  note * = construct_inst_quiet [OF quiet_heap_ok [OF q(1)] _ this run]
  have q2: "quiet s1 s2" and i: "kind_ref (hp s2) {VK_Switch} i" "i = length (vheap s1)"
    and body: "value_at s2 i = mk_value (Some t) VK_Switch (B_Instruction [] True [] (I_Switch c d []))"
    using * q(2) by simp_all
  have qq: "quiet s s2" by (rule quiet_trans [OF q(1) q2])
  have ti: "targets s2 i = {d}" "isTerminator s2 i"
    using body by (simp_all add: targets_def isTerminator_def mk_value_def)
  have "unplaced s1 i" using new_inst_unplaced [OF quiet_heap_ok [OF q(1)]] i(2) by simp
  then have "unplaced s2 i"
    using q2 i(2) unfolding unplaced_def quiet_def steady_def by (metis empty_iff empty_set not_le_imp_less)
  moreover have "current_bb s2 \<noteq> None" using s(2) qq by (simp add: quiet_def parser_same_def)
  ultimately show "post (Ok (construct_inst (Some t) VK_Switch [] True (I_Switch c d []) s1)) (\<lambda>(i, s'). switching s i s')"
    using run quiet_pinv [OF s(1) qq] quiet_hle [OF qq] i(1) ti by (simp add: switching_def)
qed

lemma record_switch_ok: "pinv {} s \<Longrightarrow> advances s (record_switch ops s)"
  unfolding record_switch_def Let_def
proof (intro adv_if adv_fail adv_get_value adv_require)
  fix v s1 t c d
  assume s: "pinv {} s" and s1: "pinv {} s1" "hle (hp s) (hp s1)" and v: "\<And>w. v = Some w \<Longrightarrow> vok (hp s1) w" "v = Some c"
    and t: "get_type s (ops ! 0) = Some t" and d: "get_basic_block s1 (ops ! 2) = Some d"
  have kd: "kind_ref (hp s1) {VK_BasicBlock} d" by (rule get_basic_block_Some [OF s1(1) d])
  show "advances s1 (bind_res (add_successor d s1) (\<lambda>s. bind_res (SwitchInst_new c d s) (\<lambda>(inst, s).
      bind_res (fold_res (switch_case inst t ops) [0..<(length ops - 3) div 2] s) (must_add_instruction inst))))"
  proof (intro adv_add_successor [OF s1(1) kd] adv_bind_eq)
    fix s2 x assume s2: "pinv {d} s2" "hle (hp s1) (hp s2)" "current_bb s2 \<noteq> None" and x: "SwitchInst_new c d s2 = Ok x"
    obtain i s3 where xs: "x = (i, s3)" by fastforce
    have vc: "vok (hp s2) c" using hle_vok [OF s2(2)] v by blast
    have sw: "switching s2 i s3"
      using postD [OF SwitchInst_switching [OF s2(1,3) vc hle_kind_ref [OF s2(2) kd]] x] xs by simp
    have tt: "type_ref s2 t"
      using get_type_Some [OF s t] later_type_ref [OF s1(2)] later_type_ref [OF s2(2)] by blast
    have "advances s2 (bind_res (fold_res (switch_case i t ops) [0..<(length ops - 3) div 2] s3) (must_add_instruction i))"
    proof (rule adv_bind_eq)
      fix s4 assume run: "fold_res (switch_case i t ops) [0..<(length ops - 3) div 2] s3 = Ok s4"
      have sw4: "switching s2 i s4"
        by (rule postD [OF fold_res_post [OF switch_case_ok [OF _ tt] sw] run])
      then have "appendable (targets s4 i) s4 i"
        by (auto simp: switching_def appendable_def elim: kind_ref_mono)
      then have "advances s4 (must_add_instruction i s4)"
        using must_add_instruction_pinv [of "targets s4 i" s4 i] sw4 by (simp add: switching_def advances_def)
      then show "advances s2 (must_add_instruction i s4)"
        using advances_lift sw4 by (auto simp: switching_def)
    qed
    then show "advances s2 (case x of (inst, s) \<Rightarrow>
        bind_res (fold_res (switch_case inst t ops) [0..<(length ops - 3) div 2] s) (must_add_instruction inst))"
      by (simp add: xs)
  qed
qed simp_all

section \<open>Declaring the blocks\<close>

lemma new_blocks_quiet:
  "heap_ok (hp s) \<Longrightarrow> new_blocks n s = (bs, s') \<Longrightarrow>
   quiet s s' \<and> length bs = n \<and> distinct bs \<and>
   (\<forall>b \<in> set bs. kind_ref (hp s') {VK_BasicBlock} b \<and> length (vheap s) \<le> b \<and> block_instructions s' b = [])"
proof (induction n arbitrary: s bs s')
  case 0
  then show ?case by (simp add: quiet_refl)
next
  case (Suc n)
  obtain t s1 where ty: "getLabelTy s = (t, s1)" by fastforce
  then have q1: "quiet s s1" "type_ref s1 t" "vheap s1 = vheap s"
    using type_gets(6) [OF Suc.prems(1), of LabelTyID] by (auto simp: type_got_def simple_id_def)
  let ?x = "mk_value (Some t) VK_BasicBlock (B_BasicBlock [] [])"
  obtain b s2 where run: "construct_value ?x s1 = (b, s2)" by fastforce
  have x: "value_ok (hp s1) ?x" "code_free (vbody ?x)" using q1(2) by (simp_all add: value_ok_def mk_value_def code_free_def)
  note c = construct_value_quiet [OF quiet_heap_ok [OF q1(1)] x run]
  have q2: "quiet s s2" by (rule quiet_trans [OF q1(1) c(1)])
  obtain bs' where bs': "new_blocks n s2 = (bs', s')" "bs = b # bs'"
    using Suc.prems(2) ty run by (auto simp: BasicBlock_new_def split: prod.splits)
  note IH = Suc.IH [OF quiet_heap_ok [OF q2] bs'(1)]
  have bl: "b < length (vheap s2)" using c(2) by (simp add: vok_def)
  then have kb: "kind_ref (hp s2) {VK_BasicBlock} b" using c(3) by (simp add: kind_ref_value_at vok_def mk_value_def)
  have "block_instructions s' b = []"
    using IH bl c(3) by (simp add: quiet_def steady_def block_instructions_def mk_value_def)
  moreover have "b \<notin> set bs'" using IH bl by fastforce
  moreover have "length (vheap s) \<le> length (vheap s2)" using q2 by (simp add: quiet_def hle_def)
  ultimately show ?case
    using IH bs'(2) quiet_trans [OF q2] quiet_later(3) [OF _ kb] c(4) q1(3) by auto
qed

lemma record_declareblocks_ok: "pinv {} s \<Longrightarrow> advances s (record_declareblocks ops s)"
proof -
  assume s: "pinv {} s"
  obtain bs s1 where run: "new_blocks (unat (ops ! 0)) s = (bs, s1)" by fastforce
  note nb = new_blocks_quiet [OF pinv_heap [OF s] run]
  have s1: "pinv {} s1" using quiet_pinv [OF s] nb by blast
  let ?t = "s1\<lparr>basic_blocks := bs, basic_block_index := 0, current_bb := Some (bs ! 0)\<rparr>"
  have "pinv {} ?t" if "bs \<noteq> []"
  proof -
    note code = same_vheap_shape [of ?t s1, simplified]
    have "\<forall>b \<in> set bs. getTerminator s1 b = None" using nb by (simp add: getTerminator_def)
    moreover have front: "bs ! 0 \<in> set bs" using that nth_mem [of 0 bs] by simp
    moreover have "bs ! 0 \<noteq> bs ! i" if "0 < i" "i < length bs" for i
      using nb nth_eq_iff_index_eq [of bs 0 i] that by auto
    ultimately have "open_ok ?t" using nb code by (simp add: open_ok_def)
    moreover have "kind_ref (hp s1) {VK_BasicBlock} (bs ! 0)" using nb front by blast
    then have "roots_ok ?t" using s1 nb that by (simp add: pinv_def roots_ok_def type_ref_def type_ref_opt_def)
    moreover have "shapes {} ?t" using s1 code by (simp add: pinv_def shapes_def)
    ultimately show ?thesis using s1 by (simp add: pinv_def)
  qed
  moreover have "hle (hp s) (hp ?t)" using nb quiet_hle [of s s1] by simp
  ultimately have "advances s (Ok ?t)" if "bs \<noteq> []" using that by (intro adv_done)
  then have "advances s (bind_res (index bs 0) (\<lambda>front.
      Ok (s1\<lparr>basic_blocks := bs, basic_block_index := 0, current_bb := Some front\<rparr>)))"
    by (cases "bs = []") (simp_all add: index_def adv_fail)
  then show ?thesis using run by (simp add: record_declareblocks_def adv_fail)
qed

lemma parse_record_advances: "pinv {} s \<Longrightarrow> advances s (parse_record entry s)"
  unfolding parse_record_def Let_def
  by (intro adv_if record_declareblocks_ok record_call_ok record_ret_ok record_unreachable_ok record_unop_ok
      record_cmp_ok record_phi_ok record_binop_ok record_atomicrmw_ok record_cmpxchg_ok record_cast_ok
      record_select_ok record_extractval_ok record_br_ok record_switch_ok record_alloca_ok record_gep_ok
      record_load_ok record_store_ok record_shufflevec_ok record_extractelt_ok record_insertelt_ok adv_fail)

end
