(* ===== verification/Bc_Tables_Invariant.thy ===== *)
theory Bc_Tables_Invariant
  imports Bc_Instructions_Invariant
begin

text \<open>
  The records outside function bodies keep the invariant: constants, metadata, attributes,
  types, global variables and function declarations.
\<close>

section \<open>Composing handlers\<close>

lemma pinv_cong:
  fixes s t :: mpc
  assumes "hp t = hp s" "vvalues t = vvalues s" "instructions t = instructions s"
    "basic_blocks t = basic_blocks s" "current_bb t = current_bb s" "basic_block_index t = basic_block_index s"
    "types t = types s" "constant_type t = constant_type s" "functions_with_bodies t = functions_with_bodies s"
    "cur_function t = cur_function s" "metadata t = metadata s"
    "pending_forward_references t = pending_forward_references s"
    "global_initializations t = global_initializations s" "module t = module s"
  shows "pinv S t = pinv S s"
proof -
  have "vheap t = vheap s" using arg_cong [OF assms(1), of vheap] by simp
  note code = same_vheap_shape [OF this]
  have "type_ref t = type_ref s" "type_ref_opt t = type_ref_opt s"
    using arg_cong [OF assms(1), of type_ref] arg_cong [OF assms(1), of type_ref_opt] by simp_all
  then show ?thesis using assms code by (simp add: pinv_def roots_ok_def shapes_def open_ok_def)
qed

lemma pinv_upd [simp]:
  "pinv S (s\<lparr>metadata_kind_map := a\<rparr>) = pinv S s" "pinv S (s\<lparr>attribute_lists := b\<rparr>) = pinv S s"
  "pinv S (s\<lparr>attribute_groups := c\<rparr>) = pinv S s" "pinv S (s\<lparr>current_metadata_name := d\<rparr>) = pinv S s"
  "pinv S (s\<lparr>current_struct_name := d\<rparr>) = pinv S s" "pinv S (s\<lparr>metadata_tween_id := n\<rparr>) = pinv S s"
  "pinv S (s\<lparr>use_relative_id := e\<rparr>) = pinv S s" "pinv S (s\<lparr>use_strtab := e\<rparr>) = pinv S s"
  "pinv S (s\<lparr>seen_first_function_body := e\<rparr>) = pinv S s"
  by (rule pinv_cong; simp)+

lemma adv_bind:
  assumes "advances s m" "\<And>s'. pinv {} s' \<Longrightarrow> hle (hp s) (hp s') \<Longrightarrow> advances s' (f s')"
  shows "advances s (bind_res m f)"
proof (rule adv_bind_eq)
  fix s' assume "m = Ok s'"
  then have "pinv {} s'" "hle (hp s) (hp s')" using assms(1) by (auto simp: advances_def)
  then show "advances s (f s')" using assms(2) advances_lift by blast
qed

lemma adv_fold:
  assumes "pinv {} s" "\<And>x s'. x \<in> set xs \<Longrightarrow> pinv {} s' \<Longrightarrow> hle (hp s) (hp s') \<Longrightarrow> advances s' (f x s')"
  shows "advances s (fold_res f xs s)"
  unfolding advances_def
proof (rule fold_res_post)
  fix x s' assume x: "x \<in> set xs" and s': "pinv {} s' \<and> hle (hp s) (hp s')"
  then have "advances s' (f x s')" using assms(2) by blast
  then show "post (f x s') (\<lambda>s'. pinv {} s' \<and> hle (hp s) (hp s'))"
    using s' by (auto simp: advances_def post_def intro: hle_trans)
qed (use assms(1) in simp)

lemma adv_quiet_state: "pinv {} s \<Longrightarrow> quiet s s' \<Longrightarrow> advances s' m \<Longrightarrow> advances s m"
  by (rule advances_lift [OF quiet_hle])

section \<open>Constants\<close>

text \<open>A new value, not a proxy, goes to the end of the value table.\<close>

lemma adv_push:
  assumes "pinv {} s" "value_ok (hp s) x" "code_free (vbody x)" "vkind x \<noteq> VK_Proxy"
  shows "advances s (case construct_value x s of (v, s) \<Rightarrow> Ok (push_value v s))"
proof -
  obtain v s1 where run: "construct_value x s = (v, s1)" by fastforce
  note * = construct_value_quiet [OF pinv_heap [OF assms(1)] assms(2,3) run]
  have "kind_ref (hp s1) (- {VK_Proxy}) v" using *(2,3) assms(4) by (simp add: kind_ref_value_at)
  from push_value_inv [OF quiet_pinv [OF assms(1) *(1)] this]
  have "pinv {} (push_value v s1)" .
  then have "advances s1 (Ok (push_value v s1))" by (simp add: advances_def push_value_def)
  then show ?thesis using run advances_lift [OF quiet_hle [OF *(1)]] by simp
qed

lemma adv_constant_type:
  assumes "pinv {} s"
    and "\<And>t s1. pinv {} s1 \<Longrightarrow> hle (hp s) (hp s1) \<Longrightarrow> type_ref s1 t \<Longrightarrow> advances s1 (f t s1)"
  shows "advances s (case get_constant_type s of (t, s) \<Rightarrow> f t s)"
proof (cases "constant_type s")
  case None
  show ?thesis
    unfolding get_constant_type_def None option.case
    by (rule adv_type_got [OF assms(1) type_gets(5) [OF pinv_heap [OF assms(1)]]]) (rule assms(2))
next
  case (Some t)
  then have "type_ref s t" using assms(1) by (simp add: pinv_def roots_ok_def)
  then show ?thesis using assms Some by (simp add: get_constant_type_def)
qed

lemmas constant_news =
  ConstantInt_get_def ConstantFP_get_def UndefValue_get_def ConstantAggregateZero_new_def
  ConstantPointerNull_new_def ConstantAggregate_new_def ConstantDataArray_new_def
  ConstantDataVector_new_def ConstantExpr_new_def

lemmas constant_value = value_ok_def mk_value_def code_free_def

lemma constants_null_ok: "pinv {} s \<Longrightarrow> advances s (constants_null s)"
  unfolding constants_null_def constant_news Let_def
  by (intro adv_constant_type adv_if adv_push adv_fail)
    (auto simp: constant_value isIntegerTy_def isFloatingPointTy_def)

lemma constants_undef_ok: "pinv {} s \<Longrightarrow> advances s (constants_undef s)"
  unfolding constants_undef_def constant_news
  by (intro adv_constant_type adv_push) (auto simp: constant_value)

lemma constants_integer_ok: "pinv {} s \<Longrightarrow> advances s (constants_integer ops s)"
  unfolding constants_integer_def constant_news
  by (intro adv_constant_type adv_if adv_push adv_fail) (auto simp: constant_value isIntegerTy_def)

lemma constants_float_ok: "pinv {} s \<Longrightarrow> advances s (constants_float ops s)"
  unfolding constants_float_def constant_news
  by (intro adv_constant_type adv_if adv_push adv_fail) (auto simp: constant_value isFloatingPointTy_def)

lemma constants_settype_ok: "pinv {} s \<Longrightarrow> advances s (constants_settype ops s)"
proof -
  assume s: "pinv {} s"
  let ?t = "s\<lparr>constant_type := get_type s (ops ! 0)\<rparr>"
  have "pinv {} ?t"
    using s get_type_ref [OF s] same_vheap_shape [of ?t s]
    by (simp add: pinv_def roots_ok_def shapes_def open_ok_def type_ref_def type_ref_opt_def)
  then show ?thesis by (simp add: constants_settype_def advances_def)
qed

subsection \<open>Elements\<close>

definition got_list :: "mpc \<Rightarrow> vref option list \<times> mpc \<Rightarrow> bool" where
  "got_list s = (\<lambda>(vs, s'). quiet s s' \<and> all_opt (vok (hp s')) vs)"

lemma got_list_Cons:
  assumes "got s p s1" "got_list s1 (vs, s2)"
  shows "got_list s (p # vs, s2)"
  using assms by (auto simp: got_list_def got_def intro: quiet_trans quiet_later(1))

lemma get_elements_post:
  "pinv {} s \<Longrightarrow> \<forall>p \<in> set ps. type_ref_opt s (snd p) \<Longrightarrow> post (get_elements ps s) (got_list s)"
proof (induction ps arbitrary: s)
  case Nil
  then show ?case by (simp add: got_list_def quiet_refl pinv_heap)
next
  case (Cons p ps)
  obtain op t where p: "p = (op, t)" by fastforce
  show ?case
    unfolding p get_elements.simps
  proof (intro post_bind [OF get_value_post [OF Cons.prems(1), of t]])
    show "type_ref_opt s t" using Cons.prems(2) p by simp
    fix x assume "case x of (q, s') \<Rightarrow> got s q s'"
    then obtain q s1 where x: "x = (q, s1)" "got s q s1" by (cases x) auto
    note d = gotD [OF Cons.prems(1) x(2)]
    have "\<forall>p \<in> set ps. type_ref_opt s1 (snd p)" using Cons.prems(2) later_type_ref_opt [OF d(2)] by simp
    from Cons.IH [OF d(1) this]
    show "post (case x of (v, s) \<Rightarrow> bind_res (get_elements ps s) (\<lambda>(vs, s). Ok (v # vs, s))) (got_list s)"
      unfolding x prod.case by (rule post_bind) (auto intro: got_list_Cons [OF x(2)])
  qed
qed

lemma gep_pairs_post: "pinv {} s \<Longrightarrow> post (gep_pairs ops s) (got_list s)"
proof (induction ops s rule: gep_pairs.induct)
  case (3 o1 o2 ops s)
  show ?case
    unfolding gep_pairs.simps
  proof (intro post_bind_eq)
    fix x assume run: "get_value o2 (get_type s o1) True s = Ok x"
    obtain q s1 where x: "x = (q, s1)" by fastforce
    have g: "got s q s1" using postD [OF get_value_post [OF 3(2) get_type_ref [OF 3(2)]] run] x by simp
    note d = gotD [OF 3(2) g]
    from 3(1) [OF run x [symmetric] d(1)]
    show "post (case x of (v, s) \<Rightarrow> bind_res (gep_pairs ops s) (\<lambda>(vs, s). Ok (v # vs, s))) (got_list s)"
      unfolding x prod.case by (rule post_bind) (auto intro: got_list_Cons [OF g])
  qed
qed (simp_all add: got_list_def quiet_refl pinv_heap)

lemma data_elements_got:
  assumes "pinv {} s" "value_ok (hp s) (mk_value (Some t) k (B 0))"
    and "\<And>x h. value_ok h (mk_value (Some t) k (B 0)) \<Longrightarrow> value_ok h (mk_value (Some t) k (B x))" "\<And>x. code_free (B x)"
  shows "got_list s (data_elements (\<lambda>x. construct_value (mk_value (Some t) k (B x))) ops s)"
  using assms(1,2)
proof (induction ops arbitrary: s)
  case Nil
  then show ?case by (simp add: got_list_def quiet_refl pinv_heap)
next
  case (Cons op ops)
  obtain v s1 where run: "construct_value (mk_value (Some t) k (B op)) s = (v, s1)" by fastforce
  have cf: "code_free (vbody (mk_value (Some t) k (B op)))" using assms(4) by (simp add: mk_value_def)
  note * = construct_value_quiet [OF pinv_heap [OF Cons.prems(1)] assms(3) [OF Cons.prems(2)] cf run]
  have g: "got s (Some v) s1" using * by (simp add: got_def)
  note d = gotD [OF Cons.prems(1) g]
  obtain vs s2 where rest: "data_elements (\<lambda>x. construct_value (mk_value (Some t) k (B x))) ops s1 = (vs, s2)"
    by fastforce
  have "got_list s1 (vs, s2)" using Cons.IH [OF d(1) value_ok_mono [OF d(2) Cons.prems(2)]] rest by simp
  then show ?case using run rest got_list_Cons [OF g] by simp
qed

lemma adv_got_list:
  assumes "pinv {} s" "post m (got_list s)"
    and "\<And>vs s1. pinv {} s1 \<Longrightarrow> hle (hp s) (hp s1) \<Longrightarrow> all_opt (vok (hp s1)) vs \<Longrightarrow> advances s1 (f vs s1)"
  shows "advances s (bind_res m (\<lambda>(vs, s). f vs s))"
  using assms(3) by (intro adv_quiet [OF assms(1) assms(2) [unfolded got_list_def]]) auto

lemma adv_push_expr:
  assumes "pinv {} s" "type_ref s t" "all_opt (vok (hp s)) es"
  shows "advances s (case ConstantExpr_new c t es s of (v, s) \<Rightarrow> Ok (push_value v s))"
  unfolding constant_news using assms by (intro adv_push) (auto simp: constant_value)

lemma adv_push_elements:
  assumes "pinv {} s" "type_ref s t" "all_opt (vok (hp s)) es"
    "k \<in> {VK_ConstantAggregate, VK_ConstantDataArray, VK_ConstantDataVector}"
  shows "advances s (case construct_value (mk_value (Some t) k (B_Elements es)) s of (v, s) \<Rightarrow> Ok (push_value v s))"
  using assms by (intro adv_push) (auto simp: constant_value)

lemma constants_aggregate_ok: "pinv {} s \<Longrightarrow> advances s (constants_aggregate ops s)"
  unfolding constants_aggregate_def
proof (erule adv_constant_type)
  fix t s assume s: "pinv {} s" and t: "type_ref s t"
  have refs: "\<forall>u \<in> refs (type_at s t). type_ref s u" using types_okD(3) [OF pinv_types [OF s] t] by blast
  have fin: "advances s (bind_res (get_elements ps s) (\<lambda>(es, s).
      case ConstantAggregate_new t es s of (v, s) \<Rightarrow> Ok (push_value v s)))"
    if "\<forall>p \<in> set ps. type_ref_opt s (snd p)" for ps
    unfolding constant_news using get_elements_post [OF s that] t
    by (intro adv_got_list [OF s] adv_push_elements) (auto intro: later)
  have undef: "advances s (case UndefValue_get t s of (v, s) \<Rightarrow> Ok (push_value v s))"
    unfolding constant_news using s t by (intro adv_push) (auto simp: constant_value)
  show "advances s (case type_at s t of
        StructType ms _ \<Rightarrow>
          if length ops \<noteq> length ms then Reject
          else bind_res (get_elements (zip ops ms) s) (\<lambda>(es, s).
            case ConstantAggregate_new t es s of (v, s) \<Rightarrow> Ok (push_value v s))
      | ArrayType e _ \<Rightarrow> bind_res (get_elements (map (\<lambda>op. (op, Some e)) ops) s) (\<lambda>(es, s).
          case ConstantAggregate_new t es s of (v, s) \<Rightarrow> Ok (push_value v s))
      | VectorType _ e \<Rightarrow> bind_res (get_elements (map (\<lambda>op. (op, Some e)) ops) s) (\<lambda>(es, s).
          case ConstantAggregate_new t es s of (v, s) \<Rightarrow> Ok (push_value v s))
      | _ \<Rightarrow> (case UndefValue_get t s of (v, s) \<Rightarrow> Ok (push_value v s)))"
    using refs
    by (cases "type_at s t")
      (auto intro!: fin undef adv_fail simp: type_ref_opt_def dest!: set_zip_rightD)
qed

lemma constants_binop_ok: "pinv {} s \<Longrightarrow> advances s (constants_binop ops s)"
  unfolding constants_binop_def
  by (intro adv_constant_type adv_intro adv_push_expr) (auto intro: later hle_trans)

lemma constants_cast_ok: "pinv {} s \<Longrightarrow> advances s (constants_cast ops s)"
  unfolding constants_cast_def Let_def
  by (intro adv_index adv_constant_type adv_require adv_get_value adv_push_expr)
    (auto intro: later hle_trans dest: get_type_Some)

lemma data_record_ok:
  assumes "pinv {} s" "type_ref s t" "type_ref s e"
  shows "advances s (data_record t e b ops s)"
proof -
  have fin: "advances s (case g of (es, s) \<Rightarrow>
         case (if b then ConstantDataVector_new t es s else ConstantDataArray_new t es s) of (v, s) \<Rightarrow>
         Ok (push_value v s))" if "got_list s g" for g
  proof -
    obtain es s1 where g: "g = (es, s1)" by fastforce
    have q: "quiet s s1" "all_opt (vok (hp s1)) es" using that g by (auto simp: got_list_def)
    have "advances s1 (case construct_value (mk_value (Some t) k (B_Elements es)) s1 of (v, s) \<Rightarrow> Ok (push_value v s))"
      if "k \<in> {VK_ConstantDataArray, VK_ConstantDataVector}" for k
      using that q(2) quiet_later(2) [OF q(1) assms(2)]
      by (intro adv_push_elements [OF quiet_pinv [OF assms(1) q(1)]]) auto
    then show ?thesis
      unfolding g constant_news prod.case
      by (intro advances_lift [OF quiet_hle [OF q(1)]]) (cases b; simp)
  qed
  have "got_list s (data_elements (ConstantFP_get e) ops s)" if "isFloatingPointTy s e"
    unfolding ConstantFP_get_def using that assms
    by (intro data_elements_got) (auto simp: constant_value isFloatingPointTy_def)
  moreover have "got_list s (data_elements (ConstantInt_get e) ops s)" if "isIntegerTy s e"
    unfolding ConstantInt_get_def using that assms
    by (intro data_elements_got) (auto simp: constant_value isIntegerTy_def)
  ultimately show ?thesis
    unfolding data_record_def by (intro adv_if adv_fail fin) auto
qed

lemma constants_data_ok: "pinv {} s \<Longrightarrow> advances s (constants_data ops s)"
  unfolding constants_data_def
proof (erule adv_constant_type)
  fix t s assume s: "pinv {} s" and t: "type_ref s t"
  have "\<forall>u \<in> refs (type_at s t). type_ref s u" using types_okD(3) [OF pinv_types [OF s] t] by blast
  then show "advances s (case type_at s t of
        ArrayType e _ \<Rightarrow> data_record t e False ops s
      | VectorType _ e \<Rightarrow> data_record t e True ops s
      | _ \<Rightarrow> Reject)"
    using data_record_ok [OF s t] by (cases "type_at s t") (auto simp: adv_fail)
qed

lemma constants_gep_ok: "pinv {} s \<Longrightarrow> advances s (constants_gep code ops s)"
proof -
  assume s: "pinv {} s"
  let ?typed = "code = GEP_WITH_INRANGE_INDEX \<or> odd (length ops)"
  let ?pointee = "if ?typed then get_type s (ops ! 0) else None"
  have tail: "advances s1 (bind_res (case p of Some p \<Rightarrow> Ok p
       | None \<Rightarrow> bind_res (deref (es ! 0)) (\<lambda>base. bind_res (deref (getType s1 base)) (getPointerElementType s1))) (\<lambda>pointee.
      bind_res (resolve_gep_element_type s1 (Some pointee) es) (\<lambda>t.
      bind_res (require t) (\<lambda>t.
      bind_res (deref (es ! 0)) (\<lambda>base.
      bind_res (cast_type PointerTyID s1 (getType s1 base)) (\<lambda>bt.
      case PointerType_get t (getAddressSpace s1 bt) s1 of (pt, s) \<Rightarrow>
      case ConstantExpr_new GetElementPtr_code pt es s of (v, s) \<Rightarrow> Ok (push_value v s)))))))"
    if s1: "pinv {} s1" and es: "all_opt (vok (hp s1)) es" "0 < length es" and p: "type_ref_opt s1 p" for s1 es p
  proof (intro adv_bind_eq [where m = "case p of Some p \<Rightarrow> _ p | None \<Rightarrow> _"])
    fix pt assume pt: "(case p of Some p \<Rightarrow> Ok p
       | None \<Rightarrow> bind_res (deref (es ! 0)) (\<lambda>base. bind_res (deref (getType s1 base)) (getPointerElementType s1))) = Ok pt"
    have e0: "vok (hp s1) v" if "es ! 0 = Some v" for v
      using es nth_mem [OF es(2)] that by metis
    have tr: "type_ref s1 pt"
    proof (cases p)
      case None
      then obtain b u where bu: "es ! 0 = Some b" "getType s1 b = Some u" "getPointerElementType s1 u = Ok pt"
        using pt by (auto simp: bind_res_Ok_iff deref_def split: option.splits)
      have "type_ref s1 u" using pinv_getType [OF s1 e0 [OF bu(1)]] bu(2) by simp
      then show ?thesis using elem_type_refs(1) [OF pinv_types [OF s1]] bu(3) by blast
    qed (use pt p in simp)
    show "advances s1 (bind_res (resolve_gep_element_type s1 (Some pt) es) (\<lambda>t.
      bind_res (require t) (\<lambda>t.
      bind_res (deref (es ! 0)) (\<lambda>base.
      bind_res (cast_type PointerTyID s1 (getType s1 base)) (\<lambda>bt.
      case PointerType_get t (getAddressSpace s1 bt) s1 of (pt, s) \<Rightarrow>
      case ConstantExpr_new GetElementPtr_code pt es s of (v, s) \<Rightarrow> Ok (push_value v s))))))"
      using tr resolve_gep_type [OF s1, of "Some pt" es] es
      by (intro adv_intro adv_push_expr s1) (auto intro: later s1)
  qed
  show ?thesis
    unfolding constants_gep_def Let_def
  proof (intro adv_if adv_fail adv_got_list [OF s gep_pairs_post [OF s]])
    fix es s1 assume s1: "pinv {} s1" "hle (hp s) (hp s1)" "all_opt (vok (hp s1)) es" "\<not> length es < 2"
    have "0 < length es" using s1(4) by (cases es) auto
    moreover have "type_ref_opt s1 ?pointee" using later_type_ref_opt [OF s1(2)] get_type_ref [OF s] by simp
    ultimately show "advances s1 (bind_res (case ?pointee of Some p \<Rightarrow> Ok p
       | None \<Rightarrow> bind_res (deref (es ! 0)) (\<lambda>base. bind_res (deref (getType s1 base)) (getPointerElementType s1))) (\<lambda>pointee.
      bind_res (resolve_gep_element_type s1 (Some pointee) es) (\<lambda>t.
      bind_res (require t) (\<lambda>t.
      bind_res (deref (es ! 0)) (\<lambda>base.
      bind_res (cast_type PointerTyID s1 (getType s1 base)) (\<lambda>bt.
      case PointerType_get t (getAddressSpace s1 bt) s1 of (pt, s) \<Rightarrow>
      case ConstantExpr_new GetElementPtr_code pt es s of (v, s) \<Rightarrow> Ok (push_value v s)))))))"
      by (rule tail [OF s1(1,3)])
  qed
qed

lemma parse_constants_record_ok: "pinv {} s \<Longrightarrow> advances s (parse_constants_record entry s)"
  unfolding parse_constants_record_def Let_def
  by (intro adv_if adv_done constants_settype_ok constants_null_ok constants_undef_ok constants_integer_ok
      constants_float_ok constants_aggregate_ok constants_binop_ok constants_cast_ok constants_data_ok
      constants_gep_ok adv_fail) auto

lemma parse_constants_block_ok: "pinv {} s \<Longrightarrow> advances s (parse_constants_block entry s)"
proof -
  assume s: "pinv {} s"
  let ?t = "s\<lparr>constant_type := None\<rparr>"
  have t: "pinv {} ?t"
    using s same_vheap_shape [of ?t s]
    by (simp add: pinv_def roots_ok_def shapes_def open_ok_def type_ref_def type_ref_opt_def)
  have "advances ?t (parse_constants_block entry s)"
    unfolding parse_constants_block_def by (intro adv_fold t parse_constants_record_ok)
  then show ?thesis using advances_lift [of s ?t] by simp
qed

section \<open>Metadata\<close>

lemma metadata_mok: "pinv S s \<Longrightarrow> map_of (metadata s) i = Some m \<Longrightarrow> mok (hp s) m"
  unfolding pinv_def roots_ok_def by (metis imageI map_of_SomeD snd_conv)

lemma adv_get_metadata:
  assumes "pinv {} s"
    and "\<And>m s1. pinv {} s1 \<Longrightarrow> hle (hp s) (hp s1) \<Longrightarrow> parser_same s s1 \<Longrightarrow> mok (hp s1) m \<Longrightarrow> advances s1 (f m s1)"
  shows "advances s (case get_metadata i s of (m, s) \<Rightarrow> f m s)"
proof (cases "map_of (metadata s) i")
  case None
  obtain m s1 where run: "construct_md MDNone s = (m, s1)" by fastforce
  note * = construct_md_quiet [OF pinv_heap [OF assms(1)] _ run, simplified]
  have "advances s1 (f m s1)"
    using assms(2) [OF quiet_pinv [OF assms(1) *(1)] quiet_hle [OF *(1)]] * by (simp add: quiet_def)
  then show ?thesis using None run advances_lift [OF quiet_hle [OF *(1)]] by (simp add: get_metadata_def)
next
  case (Some m)
  then have "mok (hp s) m" by (rule metadata_mok [OF assms(1)])
  then show ?thesis using Some assms(2) [OF assms(1)] assms(1) by (simp add: get_metadata_def parser_same_def)
qed

lemma get_metadata_list_quiet:
  "pinv {} s \<Longrightarrow> get_metadata_list is s = (ms, s') \<Longrightarrow> quiet s s' \<and> (\<forall>m \<in> set ms. mok (hp s') m)"
proof (induction "is" arbitrary: s ms)
  case Nil
  then show ?case by (simp add: quiet_refl pinv_heap)
next
  case (Cons i "is")
  obtain m s1 where g: "get_metadata i s = (m, s1)" by fastforce
  have q: "quiet s s1 \<and> mok (hp s1) m"
  proof (cases "map_of (metadata s) i")
    case None
    then show ?thesis
      using construct_md_quiet [OF pinv_heap [OF Cons.prems(1)], of MDNone m s1] g by (simp add: get_metadata_def)
  next
    case (Some m')
    then show ?thesis
      using metadata_mok [OF Cons.prems(1)] g quiet_refl [OF pinv_heap [OF Cons.prems(1)]]
      by (auto simp: get_metadata_def)
  qed
  obtain ms' where rest: "get_metadata_list is s1 = (ms', s')" "ms = m # ms'"
    using Cons.prems(2) g by (auto split: prod.splits)
  then have "quiet s1 s' \<and> (\<forall>m \<in> set ms'. mok (hp s') m)"
    using Cons.IH [OF quiet_pinv [OF Cons.prems(1)]] q by blast
  then show ?case using q rest quiet_trans [of s s1 s'] hle_mok [OF quiet_hle] by auto
qed

lemma alist_set_all:
  "P v \<Longrightarrow> \<forall>x \<in> set al. P (snd x) \<Longrightarrow> \<forall>x \<in> set (alist_set k v al). P (snd x)"
  by (auto simp: alist_set_def)

lemma set_metadata_inv:
  assumes "pinv {} s" "mok (hp s) m"
  shows "pinv {} (set_metadata i m s)" "hp (set_metadata i m s) = hp s"
proof -
  let ?t = "set_metadata i m s"
  have "\<forall>x \<in> set (metadata s). mok (hp s) (snd x)" using assms(1) by (simp add: pinv_def roots_ok_def)
  then have "\<forall>x \<in> set (alist_set i m (metadata s)). mok (hp s) (snd x)" by (rule alist_set_all [where P = "mok (hp s)", OF assms(2)])
  moreover have "vheap ?t = vheap s" by (simp add: set_metadata_def)
  note code = same_vheap_shape [OF this]
  ultimately show "pinv {} ?t"
    using assms(1) code
    by (simp add: pinv_def roots_ok_def shapes_def open_ok_def set_metadata_def type_ref_def type_ref_opt_def)
  show "hp ?t = hp s" by (simp add: set_metadata_def)
qed

lemma module_inv:
  assumes "pinv S s" "module_ok (hp s) m"
  shows "pinv S (s\<lparr>module := m\<rparr>)"
  using assms same_vheap_shape [of "s\<lparr>module := m\<rparr>" s]
  by (simp add: pinv_def roots_ok_def shapes_def open_ok_def type_ref_def type_ref_opt_def)

lemma pinv_module: "pinv S s \<Longrightarrow> module_ok (hp s) (module s)"
  by (simp add: pinv_def roots_ok_def)

lemma adv_new_md:
  assumes "pinv {} s" "md_ok (hp s) x"
    and "\<And>m s1. pinv {} s1 \<Longrightarrow> hle (hp s) (hp s1) \<Longrightarrow> mok (hp s1) m \<Longrightarrow> advances s1 (f m s1)"
  shows "advances s (case construct_md x s of (m, s) \<Rightarrow> f m s)"
proof -
  obtain m s1 where run: "construct_md x s = (m, s1)" by fastforce
  note * = construct_md_quiet [OF pinv_heap [OF assms(1)] assms(2) run]
  have "advances s1 (f m s1)"
    by (rule assms(3) [OF quiet_pinv [OF assms(1) *(1)] quiet_hle [OF *(1)] *(2)])
  then show ?thesis using run advances_lift [OF quiet_hle [OF *(1)]] by simp
qed

lemma adv_metadata_list:
  assumes "pinv {} s"
    and "\<And>ms s1. pinv {} s1 \<Longrightarrow> hle (hp s) (hp s1) \<Longrightarrow> \<forall>m \<in> set ms. mok (hp s1) m \<Longrightarrow> advances s1 (f ms s1)"
  shows "advances s (case get_metadata_list is s of (ms, s) \<Rightarrow> f ms s)"
proof -
  obtain ms s1 where run: "get_metadata_list is s = (ms, s1)" by fastforce
  have q: "quiet s s1" "\<forall>m \<in> set ms. mok (hp s1) m" using get_metadata_list_quiet [OF assms(1) run] by auto
  have "advances s1 (f ms s1)"
    by (rule assms(2) [OF quiet_pinv [OF assms(1) q(1)] quiet_hle [OF q(1)] q(2)])
  then show ?thesis using run advances_lift [OF quiet_hle [OF q(1)]] by simp
qed

lemma adv_set_metadata:
  "pinv {} s \<Longrightarrow> mok (hp s) m \<Longrightarrow> advances s (Ok (set_metadata i m s))"
  using set_metadata_inv [of s m i] by (simp add: advances_def)

lemma prod_case_Ok: "(case x of (a, b) \<Rightarrow> Ok (f a b)) = Ok (case x of (a, b) \<Rightarrow> f a b)"
  by (cases x) simp

lemma metadata_named_node_ok: "pinv {} s \<Longrightarrow> advances s (Ok (metadata_named_node ops i s))"
  unfolding metadata_named_node_def prod_case_Ok [symmetric]
proof (erule adv_metadata_list, rule adv_new_md)
  fix ms n and s1 s2 :: mpc
  assume s2: "pinv {} s2" "mok (hp s2) n"
  let ?m = "add_named_metadata (current_metadata_name s1) n (module s2)"
  have "module_ok (hp s2) ?m"
    using pinv_module [OF s2(1)] alist_set_all [where P = "mok (hp s2)" and k = "current_metadata_name s1" and al = "named_metadata (module s2)", OF s2(2)]
    by (simp add: module_ok_def add_named_metadata_def)
  from module_inv [OF s2(1) this] s2(2)
  have "advances (s2\<lparr>module := ?m\<rparr>) (Ok (set_metadata i n (s2\<lparr>module := ?m\<rparr>)))" by (intro adv_set_metadata) simp_all
  then show "advances s2 (Ok (set_metadata i n (s2\<lparr>module := ?m\<rparr>)))" using advances_lift [of s2 "s2\<lparr>module := ?m\<rparr>"] by simp
qed (auto simp: dyn_cast_MDNode_def split: MDOperand.splits)

lemma metadata_node_ok: "pinv {} s \<Longrightarrow> advances s (Ok (metadata_node ops i s))"
  unfolding metadata_node_def prod_case_Ok [symmetric]
proof (erule adv_metadata_list, rule adv_new_md)
  fix ms n and s1 s2 :: mpc
  assume s2: "pinv {} s2" "mok (hp s2) n"
  let ?t = "s2\<lparr>metadata_tween_id := metadata_tween_id s2 + 1, module := add_unnamed_metadata n (module s2)\<rparr>"
  have "module_ok (hp s2) (add_unnamed_metadata n (module s2))"
    using pinv_module [OF s2(1)] s2(2) by (auto simp: module_ok_def add_unnamed_metadata_def)
  then have "pinv {} ?t" using module_inv [of "{}" "s2\<lparr>metadata_tween_id := metadata_tween_id s2 + 1\<rparr>"] s2(1) by simp
  then have "advances ?t (Ok (set_metadata i n ?t))" using s2(2) by (intro adv_set_metadata) simp_all
  then show "advances s2 (Ok (set_metadata i n ?t))" using advances_lift [of s2 ?t] by simp
qed simp_all

lemma metadata_value_ok: "pinv {} s \<Longrightarrow> advances s (metadata_value ops i s)"
  unfolding metadata_value_def
  by (intro adv_if adv_fail adv_get_value adv_require adv_dyn_cast adv_new_md adv_set_metadata)
    (auto simp: kind_ref_value_at is_base_of_value_kind_def)

lemma parse_metadata_record_ok: "pinv {} s \<Longrightarrow> advances s (parse_metadata_record entry i s)"
  unfolding parse_metadata_record_def Let_def
  by (intro adv_if adv_fail metadata_named_node_ok metadata_node_ok metadata_value_ok adv_new_md adv_set_metadata adv_done)
    auto

lemma parse_metadata_block_ok: "pinv {} s \<Longrightarrow> advances s (parse_metadata_block entry s)"
  unfolding parse_metadata_block_def
  by (rule adv_fold) (auto intro: parse_metadata_record_ok)

lemma setMetadata_quiet:
  fixes s :: mpc
  assumes "heap_ok (hp s)" "vok (hp s) v" "mok (hp s) m"
  shows "quiet s (setMetadata v kind m s)"
  unfolding setMetadata_def
proof (rule update_body_quiet [OF assms(1,2)])
  fix k x assume "body_ok (hp s) k x"
  then show "body_ok (hp s) k (case x of
        B_Instruction ops t at sp \<Rightarrow> B_Instruction ops t (alist_set kind m at) sp | _ \<Rightarrow> x)"
  proof (rule instruction_update_ok)
    fix ops t at sp assume "body_ok (hp s) k (B_Instruction ops t at sp)"
    then show "body_ok (hp s) k (B_Instruction ops t (alist_set kind m at) sp)"
      using alist_set_all [where P = "mok (hp s)" and k = kind and al = at, OF assms(3)] by simp
  qed
qed (simp add: code_of_def split: Body.split)

lemma dyn_cast_MDNode_Some: "dyn_cast_MDNode s m = Some n \<Longrightarrow> n = m"
  by (auto simp: dyn_cast_MDNode_def split: MDOperand.splits)

lemma parse_metadata_attachment_record_ok: "pinv {} s \<Longrightarrow> advances s (parse_metadata_attachment_record entry s)"
  unfolding parse_metadata_attachment_record_def Let_def
proof (intro adv_if adv_fail adv_done adv_require adv_fold)
  fix inst i s1
  assume s: "pinv {} s" "get_instruction s (rec_ops entry ! 0) = Some inst" and s1: "pinv {} s1" "hle (hp s) (hp s1)"
  have "kind_ref (hp s) inst_kinds inst"
    using s by (auto simp: get_instruction_def pinv_def roots_ok_def split: if_splits)
  then have v: "vok (hp s1) inst" by (rule kind_ref_vok [OF hle_kind_ref [OF s1(2)]])
  show "advances s1 (attach inst (rec_ops entry) i s1)"
    unfolding attach_def Let_def
  proof (intro adv_index adv_get_metadata [OF s1(1)] adv_require)
    fix k m node s2
    assume s2: "pinv {} s2" "hle (hp s1) (hp s2)" "mok (hp s2) m" and n: "dyn_cast_MDNode s2 m = Some node"
    have "quiet s2 (setMetadata inst k node s2)"
      using setMetadata_quiet [OF pinv_heap [OF s2(1)] hle_vok [OF s2(2) v] s2(3)] dyn_cast_MDNode_Some [OF n] by simp
    then show "advances s2 (Ok (setMetadata inst k node s2))"
      using quiet_pinv [OF s2(1)] quiet_hle by (intro adv_done)
  qed
qed auto

section \<open>Attributes and names\<close>

lemma touch_group_inv:
  "touch_group k s = (g, s') \<Longrightarrow> pinv {} s' = pinv {} s \<and> hp s' = hp s"
  by (auto simp: touch_group_def split: option.splits)

lemma collect_groups_inv:
  "collect_groups ks s = (g, s') \<Longrightarrow> pinv {} s' = pinv {} s \<and> hp s' = hp s"
proof (induction ks arbitrary: s g)
  case (Cons k ks)
  obtain g1 s1 where 1: "touch_group k s = (g1, s1)" by fastforce
  obtain g2 s2 where 2: "collect_groups ks s1 = (g2, s2)" by fastforce
  have "s2 = s'" using Cons.prems 1 2 by simp
  then show ?case using touch_group_inv [OF 1] Cons.IH 2 by simp
qed simp

lemma parse_paramattr_block_ok: "pinv {} s \<Longrightarrow> advances s (parse_paramattr_block entry s)"
  unfolding parse_paramattr_block_def
proof (erule adv_fold)
  fix x s1 assume s1: "pinv {} s1"
  obtain g s2 where g: "collect_groups (map unat (rec_ops x)) s1 = (g, s2)" by fastforce
  then show "advances s1 (paramattr_entry x s1)"
    using collect_groups_inv [OF g] s1 by (simp add: paramattr_entry_def advances_def)
qed

lemma parse_paramattr_group_block_ok: "pinv {} s \<Longrightarrow> advances s (parse_paramattr_group_block entry s)"
  unfolding parse_paramattr_group_block_def
proof (intro adv_if adv_fail adv_fold)
  fix x s1 assume s1: "pinv {} s1"
  obtain g s2 where g: "touch_group (unat (rec_ops x ! 0)) s1 = (g, s2)" by fastforce
  then show "advances s1 (paramattr_group_entry x s1)"
    unfolding paramattr_group_entry_def Let_def g prod.case
    using touch_group_inv [OF g] s1
    by (intro adv_if adv_fail adv_done adv_bind_eq) (auto simp: advances_def)
qed

lemma parse_value_symtab_ok: "pinv {} s \<Longrightarrow> advances s (parse_value_symtab entry s)"
  unfolding parse_value_symtab_def
proof (erule adv_fold)
  fix x s1 assume s1: "pinv {} s1"
  have "module_ok (hp s1) (add_value_name i n (module s1))" for i n
    using pinv_module [OF s1] by (simp add: module_ok_def add_value_name_def)
  then show "advances s1 (symtab_entry x s1)"
    using s1 by (auto simp: symtab_entry_def advances_def intro: module_inv)
qed

section \<open>Types\<close>

lemma add_type_inv:
  assumes "pinv {} s" "type_ref s t"
  shows "advances s (Ok (add_type t s))"
  using assms same_vheap_shape [of "add_type t s" s]
  by (simp add: advances_def pinv_def roots_ok_def shapes_def open_ok_def add_type_def type_ref_def type_ref_opt_def)

lemma adv_add_type:
  assumes "pinv {} s" "type_got s x g"
  shows "advances s (case g of (t, s) \<Rightarrow> Ok (add_type t s))"
  by (rule adv_type_got [OF assms]) (rule add_type_inv)

lemma get_types_ref:
  "pinv {} s \<Longrightarrow> all_opt (type_ref s) (map (get_type s) xs)"
  by (auto dest: get_type_Some [OF _ sym])

lemma type_function_ok: "pinv {} s \<Longrightarrow> advances s (type_function ops s)"
  unfolding type_function_def Let_def
proof (intro adv_if adv_fail adv_require)
  fix r assume s: "pinv {} s" and r: "get_type s (ops ! 1) = Some r"
  let ?x = "FunctionType r (map (get_type s) (drop 2 ops))"
  obtain t s1 where run: "construct_type ?x s = (t, s1)" by fastforce
  have refs: "\<forall>u \<in> refs ?x. type_ref s u"
    using get_type_Some [OF s] r by (auto dest: sym)
  note * = construct_type_ok [OF pinv_types [OF s] _ refs run]
  have "\<exists>th tc. s1 = s\<lparr>type_heap := th, type_cache := tc\<rparr>"
    using run by (auto simp: construct_type_def) (metis LLVMContext.surjective LLVMContext.update_convs(2))
  then have st: "type_step s s1" "type_ref s1 t"
    using * by (simp_all add: type_step_def is_function_def)
  have q: "quiet s s1" by (rule type_step_quiet [OF pinv_heap [OF s] st(1)])
  have "advances s1 (Ok (add_type t s1))" by (rule add_type_inv [OF quiet_pinv [OF s q] st(2)])
  then show "advances s (case construct_type ?x s of (t, s) \<Rightarrow> Ok (add_type t s))"
    using run advances_lift [OF quiet_hle [OF q]] by simp
qed

end
