(* ===== verification/Bc_Module_Invariant.thy ===== *)
theory Bc_Module_Invariant
  imports Bc_Tables_Invariant
begin

text \<open>
  The rest of the module: types, global variables, function declarations, the resolution of
  forward references, function bodies and \<open>parseIR\<close>. An accepted module satisfies the
  parser's invariant.
\<close>

section \<open>Types\<close>

lemma type_derived_ok: "pinv {} s \<Longrightarrow> advances s (type_derived code ops s)"
  unfolding type_derived_def
proof (intro adv_if adv_fail adv_require)
  fix e assume s: "pinv {} s" and e: "get_type s (ops ! (if code = 8 then 0 else 1)) = Some e"
  note t = get_type_Some [OF s e] and h = pinv_heap [OF s]
  show "advances s (case if code = 8 then PointerType_get e (u32_of (unat (ops ! 1))) s
              else if code = 11 then ArrayType_get e (unat (ops ! 0)) s
              else VectorType_get (u32_of (unat (ops ! 0))) e s of (t, s) \<Rightarrow> Ok (add_type t s))"
    using adv_add_type [OF s type_gets(1) [OF h t]] adv_add_type [OF s type_gets(2) [OF h t]]
      adv_add_type [OF s type_gets(3) [OF h t]] by simp
qed

lemma type_integer_ok: "pinv {} s \<Longrightarrow> advances s (type_integer ops s)"
  using adv_add_type [OF _ type_gets(5) [OF pinv_heap]] by (simp add: type_integer_def adv_fail)

lemma type_struct_ok: "pinv {} s \<Longrightarrow> advances s (type_struct code ops s)"
  using adv_add_type [OF _ type_gets(4) [OF pinv_heap get_types_ref]] by (simp add: type_struct_def Let_def adv_fail)

lemma basic_type_code_simple: "basic_type_code code = Some i \<Longrightarrow> simple_id i"
  by (auto simp: basic_type_code_def simple_id_def split: if_splits)

lemma parse_type_ok: "pinv {} s \<Longrightarrow> advances s (parse_type child s)"
proof -
  assume s: "pinv {} s"
  have "advances s (case basic_type_code code of
      Some i \<Rightarrow> (case getTy i s of (t, s) \<Rightarrow> Ok (add_type t s)) | None \<Rightarrow> Reject)" for code
    using adv_add_type [OF s type_gets(6) [OF pinv_heap [OF s] basic_type_code_simple]]
    by (auto simp: adv_fail split: option.split)
  then show ?thesis
    unfolding parse_type_def Let_def using s
    by (intro adv_if type_derived_ok type_integer_ok type_struct_ok type_function_ok adv_done) auto
qed

lemma parse_types_ok: "pinv {} s \<Longrightarrow> advances s (parse_types entry s)"
  unfolding parse_types_def by (rule adv_fold) (auto intro: parse_type_ok)

section \<open>Declarations\<close>

lemma global_initializations_inv:
  assumes "pinv {} s" "\<forall>p \<in> set gs. kind_ref (hp s) {VK_Global} (fst p)"
  shows "pinv {} (s\<lparr>global_initializations := gs\<rparr>)"
  using assms same_vheap_shape [of "s\<lparr>global_initializations := gs\<rparr>" s]
  by (simp add: pinv_def roots_ok_def shapes_def open_ok_def type_ref_def type_ref_opt_def)

lemma pinv_globals: "pinv S s \<Longrightarrow> \<forall>p \<in> set (global_initializations s). kind_ref (hp s) {VK_Global} (fst p)"
  by (simp add: pinv_def roots_ok_def)

lemma adv_add_value:
  assumes "pinv {} s" "kind_ref (hp s) (- {VK_Proxy}) v"
  shows "advances s (add_value v s)"
  using add_value_inv [OF assms] by (auto simp: advances_def post_def)

lemma adv_construct:
  assumes "pinv {} s" "value_ok (hp s) x" "code_free (vbody x)"
    and "\<And>v s1. pinv {} s1 \<Longrightarrow> hle (hp s) (hp s1) \<Longrightarrow> kind_ref (hp s1) {vkind x} v \<Longrightarrow> advances s1 (f v s1)"
  shows "advances s (case construct_value x s of (v, s) \<Rightarrow> f v s)"
proof -
  obtain v s1 where run: "construct_value x s = (v, s1)" by fastforce
  note * = construct_value_quiet [OF pinv_heap [OF assms(1)] assms(2,3) run]
  have "kind_ref (hp s1) {vkind x} v" using *(2,3) by (simp add: kind_ref_value_at)
  with assms(4) quiet_pinv [OF assms(1) *(1)] quiet_hle [OF *(1)] have "advances s1 (f v s1)" by blast
  then show ?thesis using run advances_lift [OF quiet_hle [OF *(1)]] by simp
qed

lemma parse_global_variable_record_ok: "pinv {} s \<Longrightarrow> advances s (parse_global_variable_record entry s)"
proof -
  assume s: "pinv {} s"
  let ?ops = "rec_ops entry"
  have fin: "advances s1 (bind_res (add_value g (s1\<lparr>module := add_global_variable g (module s1)\<rparr>)) (\<lambda>s.
        Ok (if ?ops ! 2 \<noteq> 0
            then s\<lparr>global_initializations := global_initializations s @ [(g, ?ops ! 2 - 1)]\<rparr> else s)))"
    if s1: "pinv {} s1" "kind_ref (hp s1) {VK_Global} g" for s1 g
  proof -
    let ?s = "s1\<lparr>module := add_global_variable g (module s1)\<rparr>"
    have m: "pinv {} ?s"
      using pinv_module [OF s1(1)] s1(2) by (intro module_inv [OF s1(1)]) (auto simp: module_ok_def add_global_variable_def)
    have "kind_ref (hp ?s) (- {VK_Proxy}) g" using s1(2) by (auto simp: kind_ref_def)
    then have "advances ?s (bind_res (add_value g ?s) (\<lambda>s.
        Ok (if ?ops ! 2 \<noteq> 0
            then s\<lparr>global_initializations := global_initializations s @ [(g, ?ops ! 2 - 1)]\<rparr> else s)))"
    proof (intro adv_bind adv_add_value m)
      fix s2 assume s2: "pinv {} s2" "hle (hp ?s) (hp s2)"
      have "kind_ref (hp s2) {VK_Global} g" using hle_kind_ref [OF s2(2)] s1(2) by simp
      then have "pinv {} (s2\<lparr>global_initializations := global_initializations s2 @ [(g, ?ops ! 2 - 1)]\<rparr>)"
        using pinv_globals [OF s2(1)] by (intro global_initializations_inv [OF s2(1)]) auto
      then show "advances s2 (Ok (if ?ops ! 2 \<noteq> 0
            then s2\<lparr>global_initializations := global_initializations s2 @ [(g, ?ops ! 2 - 1)]\<rparr> else s2))"
        using s2(1) by (simp add: advances_def)
    qed
    then show ?thesis using advances_lift [of s1 ?s] by simp
  qed
  have decl: "advances s (bind_res (require t) (\<lambda>t.
        case PointerType_get t a s of (pt, s) \<Rightarrow>
        case GlobalVariable_new pt l c s of (g, s) \<Rightarrow>
        bind_res (add_value g (s\<lparr>module := add_global_variable g (module s)\<rparr>)) (\<lambda>s.
        Ok (if ?ops ! 2 \<noteq> 0
            then s\<lparr>global_initializations := global_initializations s @ [(g, ?ops ! 2 - 1)]\<rparr> else s))))"
    if "type_ref_opt s t" for a t l c
    unfolding GlobalVariable_new_def
  proof (intro adv_require adv_type_got [OF s type_gets(1) [OF pinv_heap [OF s]]])
    fix u pt s1 assume "t = Some u"
    then show "type_ref s u" using that by simp
    assume s1: "pinv {} s1" "type_ref s1 pt"
    then show "advances s1 (case construct_value (mk_value (Some pt) VK_Global (B_Global None l c)) s1 of (g, s) \<Rightarrow>
        bind_res (add_value g (s\<lparr>module := add_global_variable g (module s)\<rparr>)) (\<lambda>s.
        Ok (if ?ops ! 2 \<noteq> 0
            then s\<lparr>global_initializations := global_initializations s @ [(g, ?ops ! 2 - 1)]\<rparr> else s)))"
      by (intro adv_construct fin) (auto simp: constant_value)
  qed
  have addr: "type_ref_opt s (snd x)"
    if "(if e then Ok (a, get_type s o0) else
        bind_res (cast_type PointerTyID s (get_type s o0)) (\<lambda>p.
        bind_res (getPointerElementType s p) (\<lambda>e. Ok (getAddressSpace s p, Some e)))) = Ok x" for e a o0 x
    using that get_type_ref [OF s] elem_type_refs(1) [OF pinv_types [OF s] get_type_Some [OF s]]
    by (auto simp: bind_res_Ok_iff cast_type_Ok split: if_splits)
  show ?thesis
    unfolding parse_global_variable_record_def Let_def
    using decl addr by (intro adv_if adv_fail adv_bind_eq) (auto split: prod.split)
qed

lemma function_update_quiet:
  fixes s :: mpc
  assumes "heap_ok (hp s)" "vok (hp s) f"
    and "\<And>i t bbs as at. body_ok (hp s) VK_Function (B_Function i t bbs as at) \<Longrightarrow>
      body_ok (hp s) VK_Function (B_Function i t (B bbs) (A as) (C at))"
  shows "quiet s (update_body f (\<lambda>b. case b of
    B_Function i t bbs as at \<Rightarrow> B_Function i t (B bbs) (A as) (C at) | _ \<Rightarrow> b) s)"
proof (rule update_body_quiet [OF assms(1,2)])
  fix k x assume o: "body_ok (hp s) k x"
  show "body_ok (hp s) k (case x of B_Function i t bbs as at \<Rightarrow> B_Function i t (B bbs) (A as) (C at) | _ \<Rightarrow> x)"
  proof (cases x)
    case (B_Function i t bbs as at)
    then have "k = VK_Function" using o by simp
    then show ?thesis using assms(3) [of i t bbs as at] o unfolding B_Function Body.case by blast
  qed (use o in simp_all)
qed (simp add: code_of_def split: Body.split)

lemma set_attributes_quiet:
  fixes s :: mpc
  assumes "heap_ok (hp s)" "vok (hp s) f"
  shows "quiet s (set_attributes f as s)"
  using function_update_quiet [OF assms, of "\<lambda>x. x" "\<lambda>x. x" "\<lambda>_. as"] by (simp add: set_attributes_def)

lemma functions_with_bodies_inv:
  assumes "pinv {} s" "\<forall>f \<in> set fs. kind_ref (hp s) {VK_Function} f"
  shows "pinv {} (s\<lparr>functions_with_bodies := fs\<rparr>)"
  using assms same_vheap_shape [of "s\<lparr>functions_with_bodies := fs\<rparr>" s]
  by (simp add: pinv_def roots_ok_def shapes_def open_ok_def type_ref_def type_ref_opt_def)

lemma pinv_bodies: "pinv S s \<Longrightarrow> \<forall>f \<in> set (functions_with_bodies s). kind_ref (hp s) {VK_Function} f"
  by (simp add: pinv_def roots_ok_def)

lemma declare_function_ok:
  assumes s1: "pinv {} s1" "kind_ref (hp s1) {VK_Function} f"
  shows "advances s1 (let s = (if c then set_attributes f as s1 else s1); s = push_value f s
     in Ok (if p then s else s\<lparr>functions_with_bodies := functions_with_bodies s @ [f]\<rparr>))"
proof -
  let ?s = "if c then set_attributes f as s1 else s1"
  have q: "quiet s1 ?s"
    using set_attributes_quiet [OF pinv_heap [OF s1(1)] kind_ref_vok [OF s1(2)]] quiet_refl [OF pinv_heap [OF s1(1)]] by simp
  note s2 = quiet_pinv [OF s1(1) q] and f2 = hle_kind_ref [OF quiet_hle [OF q] s1(2)]
  have "kind_ref (hp ?s) (- {VK_Proxy}) f" using f2 by (auto simp: kind_ref_def)
  then have s3: "pinv {} (push_value f ?s)" by (rule push_value_inv [OF s2])
  have hp3: "hp (push_value f ?s) = hp ?s" by (simp add: push_value_def)
  have "pinv {} ((push_value f ?s)\<lparr>functions_with_bodies := functions_with_bodies (push_value f ?s) @ [f]\<rparr>)"
    using pinv_bodies [OF s3] f2 by (intro functions_with_bodies_inv [OF s3]) (auto simp: push_value_def)
  then show ?thesis
    unfolding Let_def advances_def post_simps using s3 quiet_hle [OF q] hp3 by simp
qed

lemma function_type_of:
  assumes s: "pinv {} s" and t: "type_ref s t"
    and ft: "(case dyn_cast_type FunctionTyID s (Some t) of Some ft \<Rightarrow> Ok ft
       | None \<Rightarrow> bind_res (cast_type PointerTyID s (Some t)) (\<lambda>p.
           bind_res (getPointerElementType s p) (\<lambda>e. cast_type FunctionTyID s (Some e)))) = Ok ft"
  shows "type_ref s ft \<and> type_id_of s ft = FunctionTyID"
  using ft t elem_type_refs(1) [OF pinv_types [OF s] t]
  by (auto simp: dyn_cast_type_def bind_res_Ok_iff cast_type_Ok split: option.splits if_splits)

lemma parse_function_record_ok: "pinv {} s \<Longrightarrow> advances s (parse_function_record entry s)"
proof -
  assume s: "pinv {} s"
  let ?ops = "rec_ops entry"
  show ?thesis
    unfolding parse_function_record_def Let_def [of ?ops] Let_def [of "?ops ! 2 \<noteq> 0"] Function_new_def
  proof (intro adv_if adv_fail adv_require adv_bind_eq adv_construct)
    fix t ft assume t: "get_type s (?ops ! 0) = Some t"
      and ft: "(case dyn_cast_type FunctionTyID s (Some t) of Some ft \<Rightarrow> Ok ft
       | None \<Rightarrow> bind_res (cast_type PointerTyID s (Some t)) (\<lambda>p.
           bind_res (getPointerElementType s p) (\<lambda>e. cast_type FunctionTyID s (Some e)))) = Ok ft"
    show "value_ok (hp s) (mk_value (Some ft) VK_Function (B_Function (length (vvalues s)) ft [] [] []))"
      using function_type_of [OF s get_type_Some [OF s t] ft] by (simp add: constant_value)
  qed (use s declare_function_ok in \<open>auto simp: constant_value\<close>)
qed

lemma parse_version_record_ok: "pinv {} s \<Longrightarrow> advances s (parse_version_record entry s)"
  unfolding parse_version_record_def Let_def
  by (intro adv_if adv_fail adv_done) auto

end
