(* ===== verification/Bc_Forward.thy ===== *)
theory Bc_Forward
  imports Bc_Module_Invariant
begin

text \<open>
  Forward references (\<open>ValueProxy::resolve\<close>, \<open>Instruction::resolve_proxy_values\<close>,
  \<open>resolve_forward_references\<close>, \<open>resolve_global_initializations\<close>): because the value table
  never holds a proxy, one step resolves a proxy, and afterwards every operand can be
  replaced by the value it stands for.
\<close>

lemma fold_res_each:
  assumes "\<And>x s. x \<in> set xs \<Longrightarrow> I s \<Longrightarrow> \<exists>s'. f x s = Ok s' \<and> I s' \<and> D x s' \<and> (\<forall>y. D y s \<longrightarrow> D y s')"
    and "I s"
  shows "\<exists>s'. fold_res f xs s = Ok s' \<and> I s' \<and> (\<forall>x \<in> set xs. D x s') \<and> (\<forall>y. D y s \<longrightarrow> D y s')"
  using assms
proof (induction xs arbitrary: s)
  case (Cons x xs)
  obtain s1 where s1: "f x s = Ok s1" "I s1" "D x s1" "\<forall>y. D y s \<longrightarrow> D y s1"
    using Cons.prems by (meson list.set_intros(1))
  obtain s2 where s2: "fold_res f xs s1 = Ok s2" "I s2" "\<forall>x \<in> set xs. D x s2" "\<forall>y. D y s1 \<longrightarrow> D y s2"
    using Cons.IH [OF _ s1(2)] Cons.prems(1) by (metis (no_types, lifting) list.set_intros(2))
  then show ?case using s1 by auto
qed simp

section \<open>Proxies\<close>

definition unresolved :: "'a Heap_scheme \<Rightarrow> vref \<Rightarrow> bool" where
  "unresolved h v \<longleftrightarrow> (\<exists>i. vbody (value_at h v) = B_Proxy i None)"

definition resolved :: "'a Heap_scheme \<Rightarrow> vref \<Rightarrow> bool" where
  "resolved h v \<longleftrightarrow> (\<exists>i w. vbody (value_at h v) = B_Proxy i (Some w))"

text \<open>The value a reference stands for once its proxy is resolved.\<close>

definition stands_for :: "'a Heap_scheme \<Rightarrow> vref \<Rightarrow> vref" where
  "stands_for h v = (case vbody (value_at h v) of B_Proxy _ (Some w) \<Rightarrow> w | _ \<Rightarrow> v)"

lemma proxy_body:
  assumes "heap_ok (hp s)" "kind_ref (hp s) {VK_Proxy} v"
  obtains i p where "vbody (value_at s v) = B_Proxy i p" "\<And>w. p = Some w \<Longrightarrow> kind_ref (hp s) (- {VK_Proxy}) w"
proof -
  have "body_ok (hp s) VK_Proxy (vbody (value_at s v))"
    using heap_ok_value [OF assms(1) kind_ref_vok [OF assms(2)]] assms(2)
    by (simp add: value_ok_def kind_ref_value_at)
  then obtain i p where "vbody (value_at s v) = B_Proxy i p" "\<forall>w. p = Some w \<longrightarrow> kind_ref (hp s) (- {VK_Proxy}) w"
    by (cases "vbody (value_at s v)") auto
  then show thesis using that by blast
qed

lemma set_proxy_quiet:
  fixes s :: mpc
  assumes "heap_ok (hp s)" "vok (hp s) v" "kind_ref (hp s) (- {VK_Proxy}) w"
  shows "quiet s (set_proxy v (Some w) s)"
  unfolding set_proxy_def
proof (rule update_body_quiet [OF assms(1,2)])
  fix k x assume o: "body_ok (hp s) k x"
  then show "body_ok (hp s) k (case x of B_Proxy i _ \<Rightarrow> B_Proxy i (Some w) | _ \<Rightarrow> x)"
    using assms(3) by (cases x) (simp_all del: inst_kind_simps)
qed (simp add: code_of_def split: Body.split)

lemma value_at_set_proxy:
  "vok (hp s) v \<Longrightarrow> vbody (value_at s v) = B_Proxy i p \<Longrightarrow>
   value_at (set_proxy v q s) u = (if u = v then (value_at s v)\<lparr>vbody := B_Proxy i q\<rparr> else value_at s u)"
  by (simp add: set_proxy_def value_at_update_body vok_def)

lemma vvalues_set_proxy [simp]:
  fixes s :: mpc
  shows "vvalues (set_proxy v p s) = vvalues s" "length (vheap (set_proxy v p s)) = length (vheap s)"
    "basic_blocks (set_proxy v p s) = basic_blocks s"
    "pending_forward_references (set_proxy v p s) = pending_forward_references s"
  by (simp_all add: set_proxy_def)

lemma ValueProxy_resolve_unresolved:
  assumes s: "pinv S s" and v: "kind_ref (hp s) {VK_Proxy} v" "vbody (value_at s v) = B_Proxy i None"
    and i: "i < length (vvalues s)"
  shows "ValueProxy_resolve (Suc (Suc n)) v s = Ok (True, set_proxy v (Some (vvalues s ! i)) s)"
proof -
  let ?w = "vvalues s ! i" and ?t = "set_proxy v (Some (vvalues s ! i)) s"
  have vk: "vok (hp s) v" by (rule kind_ref_vok [OF v(1)])
  have w: "get_value_kind s ?w \<noteq> VK_Proxy" using values_nth [OF s i] by (simp add: kind_ref_value_at)
  then have "?w \<noteq> v" using v(1) by (auto simp: kind_ref_value_at)
  then have "get_proxy_value ?t v = Ok (Some ?w)" "get_value_kind ?t ?w \<noteq> VK_Proxy"
    using w by (simp_all add: get_proxy_value_def value_at_set_proxy [OF vk v(2)])
  then show ?thesis using v(2) i by simp
qed

lemma resolve_one_eq:
  assumes s: "pinv S s" and v: "kind_ref (hp s) {VK_Proxy} v"
  shows "resolve_one v s =
    (case vbody (value_at s v) of
       B_Proxy i None \<Rightarrow> if i < length (vvalues s) then Ok (set_proxy v (Some (vvalues s ! i)) s) else Reject
     | _ \<Rightarrow> Ok s)"
proof -
  have fuel: "2 * length (vheap s) + 2 = Suc (Suc (2 * length (vheap s)))" by simp
  obtain i p where b: "vbody (value_at s v) = B_Proxy i p" using proxy_body [OF pinv_heap [OF s] v] .
  show ?thesis
  proof (cases p)
    case None
    then show ?thesis
      using ValueProxy_resolve_unresolved [OF s v, of i] b by (cases "i < length (vvalues s)") (simp_all add: resolve_one_def fuel)
  qed (simp add: resolve_one_def fuel b)
qed

lemma resolve_one_quiet:
  assumes s: "pinv S s" and v: "kind_ref (hp s) {VK_Proxy} v" and run: "resolve_one v s = Ok s'"
  shows "quiet s s'" "resolved s' v" "\<And>u. resolved s u \<Longrightarrow> resolved s' u" "vvalues s' = vvalues s"
    "\<And>u. unresolved s' u \<Longrightarrow> unresolved s u \<and> u \<noteq> v" "basic_blocks s' = basic_blocks s"
    "pending_forward_references s' = pending_forward_references s"
    "\<And>u i. vbody (value_at s' u) = B_Proxy i None \<Longrightarrow> vbody (value_at s u) = B_Proxy i None"
proof -
  have vk: "vok (hp s) v" by (rule kind_ref_vok [OF v])
  obtain i p where b: "vbody (value_at s v) = B_Proxy i p" using proxy_body [OF pinv_heap [OF s] v] .
  have *: "quiet s s' \<and> resolved s' v \<and> (\<forall>u. resolved s u \<longrightarrow> resolved s' u) \<and> vvalues s' = vvalues s \<and>
    (\<forall>u. unresolved s' u \<longrightarrow> unresolved s u \<and> u \<noteq> v) \<and> basic_blocks s' = basic_blocks s \<and>
    pending_forward_references s' = pending_forward_references s \<and>
    (\<forall>u i. vbody (value_at s' u) = B_Proxy i None \<longrightarrow> vbody (value_at s u) = B_Proxy i None)"
  proof (cases p)
    case (Some w)
    then have "s' = s" using run b by (simp add: resolve_one_eq [OF s v])
    then show ?thesis using quiet_refl [OF pinv_heap [OF s]] b Some by (auto simp: resolved_def unresolved_def)
  next
    case None
    then have i: "i < length (vvalues s)" and s': "s' = set_proxy v (Some (vvalues s ! i)) s"
      using run b by (simp_all add: resolve_one_eq [OF s v] split: if_splits)
    have "quiet s s'" unfolding s' by (rule set_proxy_quiet [OF pinv_heap [OF s] vk values_nth [OF s i]])
    then show ?thesis
      by (auto simp: s' resolved_def unresolved_def value_at_set_proxy [OF vk b])
  qed
  then show "quiet s s'" "resolved s' v" "\<And>u. resolved s u \<Longrightarrow> resolved s' u" "vvalues s' = vvalues s"
    "\<And>u. unresolved s' u \<Longrightarrow> unresolved s u \<and> u \<noteq> v" "basic_blocks s' = basic_blocks s"
    "pending_forward_references s' = pending_forward_references s"
    "\<And>u i. vbody (value_at s' u) = B_Proxy i None \<Longrightarrow> vbody (value_at s u) = B_Proxy i None"
    by auto
qed

section \<open>Operands\<close>

lemma resolve_proxy_eq:
  assumes ok: "heap_ok (hp s)" and v: "vok (hp s) v" "\<not> unresolved s v"
  shows "resolve_proxy s (Some v) = Ok (Some (stands_for s v))" "get_value_kind s (stands_for s v) \<noteq> VK_Proxy"
    "vok (hp s) (stands_for s v)"
proof -
  have "resolve_proxy s (Some v) = Ok (Some (stands_for s v)) \<and> get_value_kind s (stands_for s v) \<noteq> VK_Proxy \<and>
    vok (hp s) (stands_for s v)"
  proof (cases "get_value_kind s v = VK_Proxy")
    case False
    then have "stands_for s v = v"
      using heap_ok_value [OF ok v(1)] by (auto simp: stands_for_def value_ok_def split: Body.split option.split)
    then show ?thesis using False v(1) by (simp add: resolve_proxy_def numeral_2_eq_2)
  next
    case True
    then have "kind_ref (hp s) {VK_Proxy} v" using v(1) by (simp add: kind_ref_value_at)
    then obtain i p where b: "vbody (value_at s v) = B_Proxy i p"
      and p: "\<And>w. p = Some w \<Longrightarrow> kind_ref (hp s) (- {VK_Proxy}) w"
      using proxy_body [OF ok] by metis
    then obtain w where w: "p = Some w" using v(2) by (cases p) (auto simp: unresolved_def)
    have "kind_ref (hp s) (- {VK_Proxy}) w" by (rule p [OF w])
    then have k: "get_value_kind s w \<noteq> VK_Proxy" "vok (hp s) w" by (auto simp: kind_ref_value_at)
    have "resolve_proxy s (Some v) = Ok (Some w)"
      using True b w k(1) by (simp add: resolve_proxy_def numeral_2_eq_2 get_proxy_value_def)
    then show ?thesis using b w k by (simp add: stands_for_def)
  qed
  then show "resolve_proxy s (Some v) = Ok (Some (stands_for s v))"
    "get_value_kind s (stands_for s v) \<noteq> VK_Proxy" "vok (hp s) (stands_for s v)" by auto
qed

lemma resolve_proxy_None: "resolve_proxy s None = Ok None"
  by (simp add: resolve_proxy_def)

lemma resolve_list_vok:
  "heap_ok (hp s) \<Longrightarrow> all_opt (vok (hp s)) ps \<Longrightarrow> resolve_list s ps = Ok qs \<Longrightarrow> all_opt (vok (hp s)) qs"
proof (induction ps arbitrary: qs)
  case (Cons p ps)
  obtain q qs' where q: "resolve_proxy s p = Ok q" "resolve_list s ps = Ok qs'" "qs = q # qs'"
    using Cons.prems(3) by (auto simp: bind_res_Ok_iff)
  have "\<And>w. q = Some w \<Longrightarrow> vok (hp s) w"
    using resolve_proxy_loop_vok [OF Cons.prems(1), of p] q(1) Cons.prems(2) by (auto simp: resolve_proxy_def)
  then show ?case using Cons.IH [OF Cons.prems(1)] Cons.prems(2) q by auto
qed simp

lemma resolve_list_eq:
  "heap_ok (hp s) \<Longrightarrow> \<forall>v. Some v \<in> set ps \<longrightarrow> vok (hp s) v \<and> \<not> unresolved s v \<Longrightarrow>
   resolve_list s ps = Ok (map (map_option (stands_for s)) ps)"
proof (induction ps)
  case (Cons p ps)
  then show ?case using resolve_proxy_eq(1) [of s] by (cases p) (auto simp: resolve_proxy_None)
qed simp

lemma resolve_incoming_ok:
  "heap_ok (hp s) \<Longrightarrow> specific_ok (hp s) (I_PHI vs) \<Longrightarrow> resolve_incoming s vs = Ok ws \<Longrightarrow> specific_ok (hp s) (I_PHI ws)"
proof (induction vs arbitrary: ws)
  case (Cons x vs)
  obtain p b where x: "x = (p, b)" by fastforce
  obtain q ws' where q: "resolve_proxy s p = Ok q" "resolve_incoming s vs = Ok ws'" "ws = (q, b) # ws'"
    using Cons.prems(3) x by (auto simp: bind_res_Ok_iff split: if_splits)
  have "\<And>w. q = Some w \<Longrightarrow> vok (hp s) w"
    using resolve_proxy_loop_vok [OF Cons.prems(1), of p] q(1) Cons.prems(2) x by (auto simp: resolve_proxy_def)
  moreover have "specific_ok (hp s) (I_PHI vs)" "kind_ref (hp s) {VK_BasicBlock} b" using Cons.prems(2) x by simp_all
  then have "specific_ok (hp s) (I_PHI ws')" by (intro Cons.IH [OF Cons.prems(1) _ q(2)])
  ultimately show ?case using \<open>kind_ref (hp s) {VK_BasicBlock} b\<close> unfolding q(3) specific_ok.simps by force
qed simp

lemma resolve_incoming_eq:
  "heap_ok (hp s) \<Longrightarrow> \<forall>v. Some v \<in> set (map fst vs) \<longrightarrow> vok (hp s) v \<and> \<not> unresolved s v \<Longrightarrow>
   resolve_incoming s vs = Ok (map (map_prod (map_option (stands_for s)) id) vs)"
proof (induction vs)
  case (Cons x vs)
  obtain p b where x: "x = (p, b)" by fastforce
  show ?case using Cons resolve_proxy_eq(1) [of s] x by (cases p) (auto simp: resolve_proxy_None)
qed simp

section \<open>Instructions\<close>

lemma update_body_twice: "update_body v g (update_body v f s) = update_body v (\<lambda>b. g (f b)) s"
  by (simp add: update_body_def update_value_def)

lemma update_body_cong:
  "(vok (hp s) v \<Longrightarrow> f (vbody (value_at s v)) = g (vbody (value_at s v))) \<Longrightarrow> update_body v f s = update_body v g s"
  by (simp add: update_body_def update_value_def vok_def value_at_def)

lemma instruction_body:
  assumes "heap_ok (hp s)" "kind_ref (hp s) inst_kinds i"
  obtains ops t at sp where "vbody (value_at s i) = B_Instruction ops t at sp"
    "body_ok (hp s) (get_value_kind s i) (B_Instruction ops t at sp)"
proof -
  have b: "body_ok (hp s) (get_value_kind s i) (vbody (value_at s i))"
    using heap_ok_value [OF assms(1) kind_ref_vok [OF assms(2)]] by (simp add: value_ok_def del: inst_kind_simps)
  moreover have "Instruction_is_base_of (get_value_kind s i)"
    using assms(2) by (simp add: kind_ref_value_at del: inst_kind_simps)
  ultimately obtain ops t at sp where "vbody (value_at s i) = B_Instruction ops t at sp"
    by (cases "vbody (value_at s i)") auto
  then show thesis using that b by metis
qed

text \<open>The operands and incoming values of an instruction replaced through \<open>f\<close>.\<close>

definition subst_body :: "(vref \<Rightarrow> vref) \<Rightarrow> Body \<Rightarrow> Body" where
  "subst_body f b = (case b of
     B_Instruction ops t at sp \<Rightarrow> B_Instruction (map (map_option f) ops) t at
       (case sp of I_PHI vs \<Rightarrow> I_PHI (map (map_prod (map_option f) id) vs) | _ \<Rightarrow> sp)
   | _ \<Rightarrow> b)"

definition incoming_values :: "'a Heap_scheme \<Rightarrow> vref \<Rightarrow> vref option list" where
  "incoming_values h i = (case vbody (value_at h i) of B_Instruction _ _ _ (I_PHI vs) \<Rightarrow> map fst vs | _ \<Rightarrow> [])"

text \<open>No operand or incoming value of the instruction is a proxy.\<close>

definition proxy_free :: "'a Heap_scheme \<Rightarrow> vref \<Rightarrow> bool" where
  "proxy_free h i \<longleftrightarrow>
     (\<forall>v. Some v \<in> set (inst_operands h i) \<union> set (incoming_values h i) \<longrightarrow> get_value_kind h v \<noteq> VK_Proxy)"

lemma phi_kind: "body_ok h k (B_Instruction ops t at (I_PHI vs)) \<Longrightarrow> k = VK_PHI"
  by simp

lemma same_stands_for:
  assumes "vbody (value_at s i) = B_Instruction ops t at sp"
  shows "stands_for (update_body i (\<lambda>b. case b of B_Instruction _ t at sp \<Rightarrow> B_Instruction ops' t at sp | _ \<Rightarrow> b) s) = stands_for s"
    "unresolved (update_body i (\<lambda>b. case b of B_Instruction _ t at sp \<Rightarrow> B_Instruction ops' t at sp | _ \<Rightarrow> b) s) = unresolved s"
  using assms by (auto simp: fun_eq_iff stands_for_def unresolved_def value_at_update_body)

lemma operand_update_quiet:
  fixes s :: mpc
  assumes "heap_ok (hp s)" "vok (hp s) i" "all_opt (vok (hp s)) ops'"
  shows "quiet s (update_body i (\<lambda>b. case b of B_Instruction _ t at sp \<Rightarrow> B_Instruction ops' t at sp | _ \<Rightarrow> b) s)"
proof (rule update_body_quiet [OF assms(1,2)])
  fix k x assume "body_ok (hp s) k x"
  then show "body_ok (hp s) k (case x of B_Instruction _ t at sp \<Rightarrow> B_Instruction ops' t at sp | _ \<Rightarrow> x)"
    using assms(3) by (intro instruction_update_ok) (simp_all del: inst_kind_simps)
qed (simp add: code_of_def split: Body.split)

lemma incoming_update_quiet:
  fixes s :: mpc
  assumes "heap_ok (hp s)" "vok (hp s) i" "specific_ok (hp s) (I_PHI ws)"
  shows "quiet s (update_body i (\<lambda>b. case b of
    B_Instruction ops t at (I_PHI _) \<Rightarrow> B_Instruction ops t at (I_PHI ws) | _ \<Rightarrow> b) s)"
proof (rule update_body_quiet [OF assms(1,2)])
  fix k x assume o: "body_ok (hp s) k x"
  then show "body_ok (hp s) k (case x of
      B_Instruction ops t at (I_PHI _) \<Rightarrow> B_Instruction ops t at (I_PHI ws) | _ \<Rightarrow> x)"
  proof (rule instruction_update_ok)
    fix ops t at sp assume o': "body_ok (hp s) k (B_Instruction ops t at sp)"
    show "body_ok (hp s) k (case sp of I_PHI _ \<Rightarrow> B_Instruction ops t at (I_PHI ws) | _ \<Rightarrow> x)"
    proof (cases sp)
      case (I_PHI vs)
      then show ?thesis using o' assms(3) by (simp del: specific_ok.simps)
    qed (use o in simp_all)
  qed
qed (simp add: code_of_def split: Body.split Specific.split)

lemma inst_operands_ok:
  assumes "heap_ok (hp s)" "vok (hp s) i"
  shows "all_opt (vok (hp s)) (inst_operands s i)"
  using heap_ok_value [OF assms]
  by (cases "vbody (value_at s i)") (auto simp: inst_operands_def value_ok_def)

lemma resolve_proxy_values_quiet:
  fixes s :: mpc
  assumes ok: "heap_ok (hp s)" and i: "vok (hp s) i"
  shows "post (resolve_proxy_values i s) (quiet s)"
  unfolding resolve_proxy_values_def Let_def
proof (rule post_bind_eq)
  fix ops assume "resolve_list s (inst_operands s i) = Ok ops"
  then have "all_opt (vok (hp s)) ops" by (rule resolve_list_vok [OF ok inst_operands_ok [OF ok i]])
  let ?t = "update_body i (\<lambda>b. case b of B_Instruction _ t at sp \<Rightarrow> B_Instruction ops t at sp | _ \<Rightarrow> b) s"
  have q: "quiet s ?t" by (rule operand_update_quiet [OF ok i]) fact
  note okt = quiet_heap_ok [OF q] and it = hle_vok [OF quiet_hle [OF q] i]
  have phi: "post (bind_res (resolve_incoming ?t vs) (\<lambda>vs. Ok (update_body i (\<lambda>b. case b of
      B_Instruction ops t at (I_PHI _) \<Rightarrow> B_Instruction ops t at (I_PHI vs) | _ \<Rightarrow> b) ?t))) (quiet s)"
    if b: "vbody (value_at ?t i) = B_Instruction os tm at (I_PHI vs)" for os tm at vs
  proof (rule post_bind_eq)
    fix ws assume ws: "resolve_incoming ?t vs = Ok ws"
    have "value_ok (hp ?t) (value_at ?t i)" using heap_ok_value [OF okt it] by simp
    then have "specific_ok (hp ?t) (I_PHI vs)" using b by (simp add: value_ok_def)
    then have "specific_ok (hp ?t) (I_PHI ws)" by (rule resolve_incoming_ok [OF okt _ ws])
    from quiet_trans [OF q incoming_update_quiet [OF okt it this]]
    show "post (Ok (update_body i (\<lambda>b. case b of
      B_Instruction ops t at (I_PHI _) \<Rightarrow> B_Instruction ops t at (I_PHI ws) | _ \<Rightarrow> b) ?t)) (quiet s)" by simp
  qed
  then show "post (case vbody (value_at ?t i) of
      B_Instruction _ _ _ (I_PHI vs) \<Rightarrow>
        if get_value_kind ?t i = VK_PHI then
          bind_res (resolve_incoming ?t vs) (\<lambda>vs. Ok (update_body i (\<lambda>b. case b of
            B_Instruction ops t at (I_PHI _) \<Rightarrow> B_Instruction ops t at (I_PHI vs) | _ \<Rightarrow> b) ?t))
        else Ok ?t
    | _ \<Rightarrow> Ok ?t) (quiet s)"
    using q by (auto split: Body.split Specific.split)
qed

lemma resolve_proxy_values_eq:
  fixes s :: mpc
  assumes ok: "heap_ok (hp s)" and i: "kind_ref (hp s) inst_kinds i" and r: "\<And>v. \<not> unresolved s v"
  shows "resolve_proxy_values i s = Ok (update_body i (subst_body (stands_for s)) s)"
proof -
  obtain ops t at sp where b: "vbody (value_at s i) = B_Instruction ops t at sp"
    and bo: "body_ok (hp s) (get_value_kind s i) (B_Instruction ops t at sp)"
    using instruction_body [OF ok i] by metis
  note iv = kind_ref_vok [OF i]
  let ?os = "map (map_option (stands_for s)) ops"
  let ?t = "update_body i (\<lambda>b. case b of B_Instruction _ t at sp \<Rightarrow> B_Instruction ?os t at sp | _ \<Rightarrow> b) s"
  have vops: "all_opt (vok (hp s)) ops" using inst_operands_ok [OF ok iv] b by (simp add: inst_operands_def)
  have ops: "resolve_list s (inst_operands s i) = Ok ?os"
    using resolve_list_eq [OF ok, of ops] r vops b by (simp add: inst_operands_def)
  have bt: "vbody (value_at ?t i) = B_Instruction ?os t at sp"
    using iv b by (simp add: value_at_update_body vok_def)
  have kt: "get_value_kind ?t i = get_value_kind s i" by (simp add: value_at_update_body)
  have "all_opt (vok (hp s)) ?os" using resolve_list_vok [OF ok vops, of ?os] ops b by (simp add: inst_operands_def)
  then have okt: "heap_ok (hp ?t)" using quiet_heap_ok [OF operand_update_quiet [OF ok iv]] by blast
  note sf = same_stands_for [OF b, of ?os]
  show ?thesis
  proof (cases "\<exists>vs. sp = I_PHI vs")
    case True
    then obtain vs where sp: "sp = I_PHI vs" by blast
    have k: "get_value_kind s i = VK_PHI" by (rule phi_kind [OF bo [unfolded sp]])
    have "all_opt (vok (hp s)) (map fst vs)" using bo sp by simp
    then have inc: "resolve_incoming ?t vs = Ok (map (map_prod (map_option (stands_for s)) id) vs)"
      using resolve_incoming_eq [OF okt, of vs] r sf by (simp add: vok_def)
    have "resolve_proxy_values i s = Ok (update_body i (\<lambda>b. case b of
      B_Instruction ops t at (I_PHI _) \<Rightarrow>
        B_Instruction ops t at (I_PHI (map (map_prod (map_option (stands_for s)) id) vs)) | _ \<Rightarrow> b) ?t)"
      using ops bt kt k inc sp by (simp add: resolve_proxy_values_def Let_def)
    also have "\<dots> = Ok (update_body i (subst_body (stands_for s)) s)"
      unfolding update_body_twice using b sp by (intro arg_cong [where f = Ok] update_body_cong) (simp add: subst_body_def)
    finally show ?thesis .
  next
    case False
    then have "resolve_proxy_values i s = Ok ?t"
      using ops bt by (auto simp: resolve_proxy_values_def Let_def split: Specific.split)
    also have "?t = update_body i (subst_body (stands_for s)) s"
      using b False by (intro update_body_cong) (auto simp: subst_body_def split: Specific.split)
    finally show ?thesis .
  qed
qed

lemma kind_update_body [simp]: "get_value_kind (update_body v f s) u = get_value_kind s u"
  by (simp add: value_at_update_body)

lemma subst_body_proxy_free:
  fixes s :: mpc
  assumes ok: "heap_ok (hp s)" and i: "kind_ref (hp s) inst_kinds i" and r: "\<And>v. \<not> unresolved s v"
  defines "t \<equiv> update_body i (subst_body (stands_for s)) s"
  shows "proxy_free t i" "\<And>j. proxy_free s j \<Longrightarrow> proxy_free t j" "\<And>v. \<not> unresolved t v"
proof -
  obtain ops tm at sp where b: "vbody (value_at s i) = B_Instruction ops tm at sp"
    and bo: "body_ok (hp s) (get_value_kind s i) (B_Instruction ops tm at sp)"
    using instruction_body [OF ok i] by metis
  note iv = kind_ref_vok [OF i]
  have sf: "get_value_kind s (stands_for s v) \<noteq> VK_Proxy" if "vok (hp s) v" for v
    by (rule resolve_proxy_eq(2) [OF ok that r])
  have bt: "vbody (value_at t i) = subst_body (stands_for s) (B_Instruction ops tm at sp)"
    using iv b by (simp add: t_def value_at_update_body vok_def)
  have other: "value_at t j = value_at s j" if "j \<noteq> i" for j
    using that by (simp add: t_def value_at_update_body)
  have k: "get_value_kind t v = get_value_kind s v" for v by (simp add: t_def)
  have ops: "\<forall>v. Some v \<in> set ops \<longrightarrow> vok (hp s) v" using bo by simp
  have inc: "\<forall>v. Some v \<in> set (map fst vs) \<longrightarrow> vok (hp s) v" if "sp = I_PHI vs" for vs using bo that by simp
  have m: "get_value_kind s v \<noteq> VK_Proxy"
    if h: "Some v \<in> set (map (map_option (stands_for s)) ps)" "\<forall>v. Some v \<in> set ps \<longrightarrow> vok (hp s) v" for v ps
  proof -
    obtain p where p: "p \<in> set ps" "Some v = map_option (stands_for s) p" using h(1) by auto
    obtain x where "p = Some x" "v = stands_for s x" using p(2) by (cases p) auto
    then show ?thesis using sf h(2) p(1) by blast
  qed
  have "inst_operands t i = map (map_option (stands_for s)) ops" by (simp add: inst_operands_def bt subst_body_def)
  moreover have "incoming_values t i = map (map_option (stands_for s)) (case sp of I_PHI vs \<Rightarrow> map fst vs | _ \<Rightarrow> [])"
    by (simp add: incoming_values_def bt subst_body_def split: Specific.split)
  ultimately show fi: "proxy_free t i"
    using m [OF _ ops] m [of _ "case sp of I_PHI vs \<Rightarrow> map fst vs | _ \<Rightarrow> []"] inc
    unfolding proxy_free_def k by (auto split: Specific.split_asm)
  show "proxy_free t j" if "proxy_free s j" for j
    using that fi other [of j]
    by (cases "j = i") (auto simp: proxy_free_def inst_operands_def incoming_values_def k)
  show "\<not> unresolved t v" for v
    using r [of v] other [of v] bt by (cases "v = i") (auto simp: unresolved_def subst_body_def)
qed

lemma resolve_block_free:
  fixes s :: mpc
  assumes ok: "heap_ok (hp s)" and b: "kind_ref (hp s) {VK_BasicBlock} b" and r: "\<forall>v. \<not> unresolved s v"
  shows "\<exists>t. resolve_block b s = Ok t \<and>
    (quiet s t \<and> (\<forall>v. \<not> unresolved t v) \<and> pending_forward_references t = pending_forward_references s) \<and>
    (\<forall>i \<in> set (block_instructions s b). proxy_free t i) \<and> (\<forall>j. proxy_free s j \<longrightarrow> proxy_free t j)"
  unfolding resolve_block_def
proof (rule fold_res_each)
  show "quiet s s \<and> (\<forall>v. \<not> unresolved s v) \<and> pending_forward_references s = pending_forward_references s"
    using quiet_refl [OF ok] r by blast
  fix i s1 assume i: "i \<in> set (block_instructions s b)"
    and I: "quiet s s1 \<and> (\<forall>v. \<not> unresolved s1 v) \<and> pending_forward_references s1 = pending_forward_references s"
  obtain iis ss where "vbody (value_at s b) = B_BasicBlock iis ss" using block_body_cases [OF ok b] by metis
  then have "kind_ref (hp s) inst_kinds i"
    using block_body [OF ok b] i by (simp add: block_instructions_def del: inst_kind_simps)
  then have i1: "kind_ref (hp s1) inst_kinds i" using quiet_later(3) I by blast
  have ok1: "heap_ok (hp s1)" using I by (blast intro: quiet_heap_ok)
  let ?t = "update_body i (subst_body (stands_for s1)) s1"
  have eq: "resolve_proxy_values i s1 = Ok ?t" using resolve_proxy_values_eq [OF ok1 i1] I by blast
  then have "quiet s1 ?t" using postD [OF resolve_proxy_values_quiet [OF ok1 kind_ref_vok [OF i1]]] by blast
  then have "quiet s ?t" using I quiet_trans by blast
  moreover have "pending_forward_references ?t = pending_forward_references s" using I by simp
  ultimately show "\<exists>s'. resolve_proxy_values i s1 = Ok s' \<and>
      (quiet s s' \<and> (\<forall>v. \<not> unresolved s' v) \<and> pending_forward_references s' = pending_forward_references s) \<and>
      proxy_free s' i \<and> (\<forall>j. proxy_free s1 j \<longrightarrow> proxy_free s' j)"
    using eq subst_body_proxy_free [OF ok1 i1] I by blast
qed

section \<open>The whole step\<close>

lemma resolve_one_frame:
  assumes s: "pinv S s" and v: "kind_ref (hp s) {VK_Proxy} v" and run: "resolve_one v s = Ok s'" and u: "u \<noteq> v"
  shows "value_at s' u = value_at s u"
proof -
  obtain i p where b: "vbody (value_at s v) = B_Proxy i p" using proxy_body [OF pinv_heap [OF s] v] .
  show ?thesis
    using run b u value_at_set_proxy [OF kind_ref_vok [OF v] b]
    by (auto simp: resolve_one_eq [OF s v] split: option.splits if_splits)
qed

text \<open>Every proxy of the list refers to a value the table already has.\<close>

definition in_range :: "vref list \<Rightarrow> mpc \<Rightarrow> bool" where
  "in_range vs s \<longleftrightarrow> (\<forall>v \<in> set vs. \<forall>i. vbody (value_at s v) = B_Proxy i None \<longrightarrow> i < length (vvalues s))"

lemma resolve_pending_ok:
  assumes s: "pinv S s" and vs: "\<forall>v \<in> set vs. kind_ref (hp s) {VK_Proxy} v" and r: "in_range vs s"
  shows "\<exists>t. fold_res resolve_one vs s = Ok t \<and>
    (quiet s t \<and> vvalues t = vvalues s \<and> (\<forall>u i. vbody (value_at t u) = B_Proxy i None \<longrightarrow> vbody (value_at s u) = B_Proxy i None)) \<and>
    (\<forall>v \<in> set vs. resolved t v) \<and> (\<forall>v. resolved s v \<longrightarrow> resolved t v)"
proof (rule fold_res_each)
  fix v s1 assume v: "v \<in> set vs"
    and I: "quiet s s1 \<and> vvalues s1 = vvalues s \<and> (\<forall>u i. vbody (value_at s1 u) = B_Proxy i None \<longrightarrow> vbody (value_at s u) = B_Proxy i None)"
  have s1: "pinv S s1" using quiet_pinv [OF s] I by blast
  have v1: "kind_ref (hp s1) {VK_Proxy} v" using quiet_later(3) I vs v by blast
  obtain i p where b: "vbody (value_at s1 v) = B_Proxy i p" using proxy_body [OF pinv_heap [OF s1] v1] .
  then have "\<exists>s'. resolve_one v s1 = Ok s'"
    using I r v by (auto simp: resolve_one_eq [OF s1 v1] in_range_def split: option.split)
  then obtain s2 where s2: "resolve_one v s1 = Ok s2" by blast
  note * = resolve_one_quiet [OF s1 v1 s2]
  show "\<exists>s'. resolve_one v s1 = Ok s' \<and>
      (quiet s s' \<and> vvalues s' = vvalues s \<and> (\<forall>u i. vbody (value_at s' u) = B_Proxy i None \<longrightarrow> vbody (value_at s u) = B_Proxy i None)) \<and>
      resolved s' v \<and> (\<forall>v. resolved s1 v \<longrightarrow> resolved s' v)"
    using s2 * I quiet_trans [of s s1 s2] by (intro exI [of _ s2]) simp
qed (use quiet_refl [OF pinv_heap [OF s]] in simp)

lemma resolve_pending_reject:
  "pinv S s \<Longrightarrow> \<forall>v \<in> set vs. kind_ref (hp s) {VK_Proxy} v \<Longrightarrow> \<not> in_range vs s \<Longrightarrow> fold_res resolve_one vs s = Reject"
proof (induction vs arbitrary: s)
  case (Cons v vs)
  note s = Cons.prems(1)
  have v: "kind_ref (hp s) {VK_Proxy} v" using Cons.prems(2) by simp
  obtain i p where b: "vbody (value_at s v) = B_Proxy i p" using proxy_body [OF pinv_heap [OF s] v] .
  show ?case
  proof (cases "resolve_one v s")
    case (Ok s1)
    note * = resolve_one_quiet [OF s v Ok]
    have "\<not> in_range vs s1"
    proof
      assume r: "in_range vs s1"
      obtain u j where u: "u \<in> insert v (set vs)" "vbody (value_at s u) = B_Proxy j None" "\<not> j < length (vvalues s)"
        using Cons.prems(3) by (auto simp: in_range_def)
      have "u \<noteq> v" using Ok u(2,3) by (auto simp: resolve_one_eq [OF s v])
      then have "vbody (value_at s1 u) = B_Proxy j None" "u \<in> set vs" using resolve_one_frame [OF s v Ok] u by auto
      then show False using r u(3) *(4) by (auto simp: in_range_def)
    qed
    then have "fold_res resolve_one vs s1 = Reject"
      using Cons.IH [OF quiet_pinv [OF s *(1)]] Cons.prems(2) quiet_later(3) [OF *(1)] by simp
    then show ?thesis using Ok by simp
  qed (use b in \<open>auto simp: resolve_one_eq [OF s v] split: option.splits if_splits\<close>)
qed (simp add: in_range_def)

lemma pending_inv:
  assumes "pinv {} s"
  shows "pinv {} (s\<lparr>pending_forward_references := []\<rparr>)"
  using assms same_vheap_shape [of "s\<lparr>pending_forward_references := []\<rparr>" s]
  by (simp add: pinv_def roots_ok_def shapes_def open_ok_def type_ref_def type_ref_opt_def)

lemma pinv_pending: "pinv S s \<Longrightarrow> \<forall>v \<in> set (pending_forward_references s). kind_ref (hp s) {VK_Proxy} v"
  by (simp add: pinv_def roots_ok_def)

lemma pinv_blocks: "pinv S s \<Longrightarrow> \<forall>v \<in> set (basic_blocks s). kind_ref (hp s) {VK_BasicBlock} v"
  by (simp add: pinv_def roots_ok_def)

lemma resolve_forward_references_ok:
  assumes s: "pinv {} s" and r: "in_range (pending_forward_references s) s"
    and all: "\<And>v. unresolved s v \<Longrightarrow> v \<in> set (pending_forward_references s)"
  shows "\<exists>t. resolve_forward_references s = Ok t \<and> pinv {} t \<and> pending_forward_references t = [] \<and>
    basic_blocks t = basic_blocks s \<and> (\<forall>v. \<not> unresolved t v) \<and>
    (\<forall>b \<in> set (basic_blocks s). block_instructions t b = block_instructions s b \<and>
       (\<forall>i \<in> set (block_instructions s b). proxy_free t i))"
proof -
  obtain s1 where s1: "fold_res resolve_one (pending_forward_references s) s = Ok s1" "quiet s s1"
      "\<forall>u i. vbody (value_at s1 u) = B_Proxy i None \<longrightarrow> vbody (value_at s u) = B_Proxy i None"
      "\<forall>v \<in> set (pending_forward_references s). resolved s1 v"
    using resolve_pending_ok [OF s pinv_pending [OF s] r] by blast
  let ?s2 = "s1\<lparr>pending_forward_references := []\<rparr>"
  have un: "\<not> unresolved s1 v" for v
  proof
    assume u: "unresolved s1 v"
    then have "unresolved s v" using s1(3) unfolding unresolved_def by blast
    then have "resolved s1 v" using all s1(4) by blast
    then show False using u by (auto simp: unresolved_def resolved_def)
  qed
  have val: "value_at ?s2 = value_at s1" by (auto simp: fun_eq_iff value_at_def)
  have un2: "\<forall>v. \<not> unresolved ?s2 v" using un by (simp add: unresolved_def val)
  have i2: "pinv {} ?s2" by (rule pending_inv [OF quiet_pinv [OF s s1(2)]])
  have bb: "basic_blocks ?s2 = basic_blocks s" using s1(2) by (simp add: quiet_def parser_same_def)
  have kb: "kind_ref (hp ?s2) {VK_BasicBlock} b" if "b \<in> set (basic_blocks s)" for b
    using pinv_blocks [OF i2] that bb by auto
  let ?D = "\<lambda>b t. \<forall>i \<in> set (block_instructions ?s2 b). proxy_free t i"
  let ?I = "\<lambda>t. quiet ?s2 t \<and> (\<forall>v. \<not> unresolved t v) \<and> pending_forward_references t = []"
  have "\<exists>t. fold_res resolve_block (basic_blocks s) ?s2 = Ok t \<and> ?I t \<and>
      (\<forall>b \<in> set (basic_blocks s). ?D b t) \<and> (\<forall>b. ?D b ?s2 \<longrightarrow> ?D b t)"
  proof (rule fold_res_each)
    show "?I ?s2" using quiet_refl [OF pinv_heap [OF i2]] un2 by simp
    fix b t assume b: "b \<in> set (basic_blocks s)" and I: "?I t"
    have okt: "heap_ok (hp t)" and bt: "kind_ref (hp t) {VK_BasicBlock} b"
      using I quiet_heap_ok quiet_later(3) kb [OF b] by blast+
    obtain t' where t': "resolve_block b t = Ok t'" "quiet t t'" "\<forall>v. \<not> unresolved t' v"
        "pending_forward_references t' = pending_forward_references t"
        "\<forall>i \<in> set (block_instructions t b). proxy_free t' i" "\<forall>j. proxy_free t j \<longrightarrow> proxy_free t' j"
      using resolve_block_free [OF okt bt] I by blast
    have "block_instructions t b = block_instructions ?s2 b"
      using I kb [OF b] by (simp add: quiet_def steady_def kind_ref_def)
    then have "?D b t'" "\<forall>c. ?D c t \<longrightarrow> ?D c t'" using t'(5,6) by auto
    moreover have "?I t'" using t' I quiet_trans by metis
    ultimately show "\<exists>t'. resolve_block b t = Ok t' \<and> ?I t' \<and> ?D b t' \<and> (\<forall>c. ?D c t \<longrightarrow> ?D c t')"
      using t'(1) by blast
  qed
  then obtain t where t: "fold_res resolve_block (basic_blocks s) ?s2 = Ok t" "quiet ?s2 t"
      "\<forall>v. \<not> unresolved t v" "\<forall>b \<in> set (basic_blocks s). ?D b t" "pending_forward_references t = []" by blast
  have "resolve_forward_references s = Ok t"
    using s1(1) t(1) bb by (simp add: resolve_forward_references_def Let_def)
  moreover have "block_instructions t b = block_instructions s b \<and> block_instructions ?s2 b = block_instructions s b"
    if "b \<in> set (basic_blocks s)" for b
  proof -
    have "block_instructions t b = block_instructions ?s2 b"
      using t(2) kb [OF that] by (simp add: quiet_def steady_def kind_ref_def)
    moreover have "block_instructions ?s2 b = block_instructions s1 b" by (simp add: block_instructions_def val)
    moreover have "block_instructions s1 b = block_instructions s b"
      using s1(2) pinv_blocks [OF s] that by (auto simp: quiet_def steady_def kind_ref_def)
    ultimately show ?thesis by simp
  qed
  moreover have "basic_blocks t = basic_blocks s" using t(2) bb by (simp add: quiet_def parser_same_def)
  ultimately show ?thesis using quiet_pinv [OF i2 t(2)] t(3-5) by auto
qed

end
