(* ===== verification/Bc_Body.thy ===== *)
theory Bc_Body
  imports Bc_Forward
begin

text \<open>
  Function bodies and \<open>parseIR\<close>: the invariant holds of every accepted module, and the
  properties of the bitcode parser that rest on it.
\<close>

section \<open>Resolution keeps the invariant\<close>

lemma resolve_block_ok:
  assumes s: "pinv {} s" and b: "kind_ref (hp s) {VK_BasicBlock} b"
  shows "advances s (resolve_block b s)"
  unfolding resolve_block_def
proof (rule adv_fold [OF s])
  fix i s1 assume i: "i \<in> set (block_instructions s b)" and s1: "pinv {} s1" "hle (hp s) (hp s1)"
  obtain iis ss where "vbody (value_at s b) = B_BasicBlock iis ss"
    using block_body_cases [OF pinv_heap [OF s] b] by metis
  then have "kind_ref (hp s) inst_kinds i"
    using block_body [OF pinv_heap [OF s] b] i by (simp add: block_instructions_def del: inst_kind_simps)
  then have "vok (hp s1) i" by (rule kind_ref_vok [OF hle_kind_ref [OF s1(2)]])
  from resolve_proxy_values_quiet [OF pinv_heap [OF s1(1)] this]
  show "advances s1 (resolve_proxy_values i s1)"
    using quiet_pinv [OF s1(1)] quiet_hle by (auto simp: advances_def post_def)
qed

lemma resolve_one_ok:
  assumes "pinv {} s" "kind_ref (hp s) {VK_Proxy} v"
  shows "advances s (resolve_one v s)"
  using resolve_one_quiet(1) [OF assms] quiet_pinv [OF assms(1)] quiet_hle by (auto simp: advances_def post_def)

lemma resolve_forward_references_advances: "pinv {} s \<Longrightarrow> advances s (resolve_forward_references s)"
  unfolding resolve_forward_references_def Let_def
proof (intro adv_bind adv_fold resolve_one_ok)
  fix v s1 assume "pinv {} s" "v \<in> set (pending_forward_references s)" "hle (hp s) (hp s1)"
  then show "kind_ref (hp s1) {VK_Proxy} v" using pinv_pending hle_kind_ref by blast
next
  fix s1 assume s1: "pinv {} s1"
  let ?t = "s1\<lparr>pending_forward_references := []\<rparr>"
  have t: "pinv {} ?t" by (rule pending_inv [OF s1])
  have "advances ?t (fold_res resolve_block (basic_blocks ?t) ?t)"
    by (intro adv_fold [OF t] resolve_block_ok) (use pinv_blocks [OF t] hle_kind_ref in blast)+
  then show "advances s1 (fold_res resolve_block (basic_blocks ?t) ?t)" using advances_lift [of s1 ?t] by simp
qed

lemma set_initializer_quiet:
  fixes s :: mpc
  assumes "heap_ok (hp s)" "vok (hp s) g" "kind_ref (hp s) const_kinds c"
  shows "quiet s (set_initializer g c s)"
  unfolding set_initializer_def
proof (rule update_body_quiet [OF assms(1,2)])
  fix k x assume "body_ok (hp s) k x"
  then show "body_ok (hp s) k (case x of B_Global _ l k \<Rightarrow> B_Global (Some c) l k | _ \<Rightarrow> x)"
    using assms(3) by (cases x) (simp_all del: inst_kind_simps)
qed (simp add: code_of_def split: Body.split)

lemma resolve_global_ok:
  assumes s: "pinv {} s" and g: "kind_ref (hp s) {VK_Global} (fst p)"
  shows "advances s (resolve_global p s)"
proof -
  obtain v i where p: "p = (v, i)" by fastforce
  show ?thesis
    unfolding resolve_global_def p prod.case
  proof (intro adv_get_value [OF s] adv_require adv_dyn_cast)
    fix w s1 u r c
    assume s1: "pinv {} s1" "hle (hp s) (hp s1)" and c: "r = Some c"
      and r: "\<And>w. r = Some w \<Longrightarrow> vok (hp s1) w \<and> is_base_of_value_kind VK_ConstantBase (get_value_kind s1 w)"
    have "kind_ref (hp s1) const_kinds c" using r [OF c] by (simp add: kind_ref_value_at is_base_of_value_kind_def)
    moreover have "vok (hp s1) v" using hle_vok [OF s1(2) kind_ref_vok [OF g]] p by simp
    ultimately have "quiet s1 (set_initializer v c s1)" by (intro set_initializer_quiet pinv_heap [OF s1(1)])
    then show "advances s1 (Ok (set_initializer v c s1))"
      using quiet_pinv [OF s1(1)] quiet_hle by (intro adv_done)
  qed auto
qed

lemma resolve_global_initializations_advances: "pinv {} s \<Longrightarrow> advances s (resolve_global_initializations s)"
  unfolding resolve_global_initializations_def
proof (intro adv_bind adv_fold resolve_global_ok)
  fix p s1 assume "pinv {} s" "p \<in> set (global_initializations s)" "hle (hp s) (hp s1)"
  then show "kind_ref (hp s1) {VK_Global} (fst p)" using pinv_globals hle_kind_ref by blast
next
  fix s1 assume "pinv {} s1"
  then have "pinv {} (s1\<lparr>global_initializations := []\<rparr>)" by (intro global_initializations_inv) auto
  then show "advances s1 (Ok (s1\<lparr>global_initializations := []\<rparr>))" by (simp add: advances_def)
qed

section \<open>Bodies\<close>

lemma cur_function_inv:
  assumes "pinv {} s" "kind_ref (hp s) {VK_Function} f"
  shows "pinv {} (s\<lparr>cur_function := Some f\<rparr>)"
  using assms same_vheap_shape [of "s\<lparr>cur_function := Some f\<rparr>" s]
  by (simp add: pinv_def roots_ok_def shapes_def open_ok_def type_ref_def type_ref_opt_def)

lemma next_function_post:
  assumes s: "pinv {} s"
  shows "post (next_function s) (\<lambda>(f, s'). pinv {} s' \<and> hp s' = hp s \<and> kind_ref (hp s') {VK_Function} f)"
proof -
  define t where "t = (if seen_first_function_body s then s
    else s\<lparr>functions_with_bodies := rev (functions_with_bodies s), seen_first_function_body := True\<rparr>)"
  have "pinv {} (s\<lparr>functions_with_bodies := rev (functions_with_bodies s)\<rparr>)"
    by (rule functions_with_bodies_inv [OF s]) (use pinv_bodies [OF s] in simp)
  then have t: "pinv {} t" "hp t = hp s" using s by (simp_all add: t_def)
  have "post (if functions_with_bodies t = [] then Reject
      else let f = last (functions_with_bodies t) in
        Ok (f, t\<lparr>cur_function := Some f, functions_with_bodies := butlast (functions_with_bodies t)\<rparr>))
      (\<lambda>(f, s'). pinv {} s' \<and> hp s' = hp s \<and> kind_ref (hp s') {VK_Function} f)"
  proof (cases "functions_with_bodies t = []")
    case False
    let ?f = "last (functions_with_bodies t)"
    have f: "kind_ref (hp t) {VK_Function} ?f" using pinv_bodies [OF t(1)] last_in_set [OF False] by blast
    have "pinv {} (t\<lparr>cur_function := Some ?f\<rparr>)" by (rule cur_function_inv [OF t(1) f])
    then have "pinv {} ((t\<lparr>cur_function := Some ?f\<rparr>)\<lparr>functions_with_bodies := butlast (functions_with_bodies t)\<rparr>)"
      by (rule functions_with_bodies_inv) (use pinv_bodies [OF t(1)] in \<open>auto dest: in_set_butlastD\<close>)
    then show ?thesis using False f t(2) by (simp add: Let_def)
  qed simp
  then show ?thesis unfolding next_function_def Let_def t_def [symmetric] .
qed

lemma Function_add_argument_quiet:
  fixes s :: mpc
  assumes "heap_ok (hp s)" "vok (hp s) f" "kind_ref (hp s) {VK_Argument} a"
  shows "quiet s (Function_add_argument f a s)"
  using function_update_quiet [OF assms(1,2), of "\<lambda>x. x" "\<lambda>as. as @ [a]" "\<lambda>x. x"] assms(3)
  by (simp add: Function_add_argument_def)

lemma add_param_ok:
  assumes s: "pinv {} s" and f: "vok (hp s) f" and ft: "type_ref s ft"
  shows "advances s (add_param f ft i s)"
  unfolding add_param_def Argument_new_def
proof (intro adv_bind_eq adv_construct [OF s])
  fix p a s1 assume p: "getParamType s ft i = Ok p"
  have "type_ref_opt s p" by (rule elem_type_refs(6) [OF pinv_types [OF s] ft p])
  then show "value_ok (hp s) (mk_value p VK_Argument (B_Argument i))" by (simp add: constant_value)
  assume s1: "pinv {} s1" "hle (hp s) (hp s1)" "kind_ref (hp s1) {vkind (mk_value p VK_Argument (B_Argument i))} a"
  have ka: "kind_ref (hp s1) {VK_Argument} a" using s1(3) by (simp add: mk_value_def)
  have q: "quiet s1 (Function_add_argument f a s1)"
    by (rule Function_add_argument_quiet [OF pinv_heap [OF s1(1)] hle_vok [OF s1(2) f] ka])
  have "kind_ref (hp (Function_add_argument f a s1)) (- {VK_Proxy}) a"
    using hle_kind_ref [OF quiet_hle [OF q] ka] by (auto simp: kind_ref_def)
  then have "advances (Function_add_argument f a s1) (add_value a (Function_add_argument f a s1))"
    by (rule adv_add_value [OF quiet_pinv [OF s1(1) q]])
  then show "advances s1 (add_value a (Function_add_argument f a s1))" by (rule advances_lift [OF quiet_hle [OF q]])
qed (simp add: code_free_def mk_value_def)

lemma parse_body_child_ok: "pinv {} s \<Longrightarrow> advances s (parse_body_child child s)"
proof -
  assume s: "pinv {} s"
  have "advances s (parse_function_child_block child s)"
    unfolding parse_function_child_block_def
    using adv_fold [OF s, of "children child" parse_constants_record] parse_constants_record_ok
      adv_fold [OF s, of "children child" parse_metadata_attachment_record] parse_metadata_attachment_record_ok
      adv_done [OF s, of s]
    by (auto split: KnownBlocks.split)
  then show ?thesis
    unfolding parse_body_child_def by (intro adv_if parse_record_advances [OF s])
qed

lemma set_basic_blocks_quiet:
  fixes s :: mpc
  assumes "heap_ok (hp s)" "vok (hp s) f" "\<forall>b \<in> set bbs. kind_ref (hp s) {VK_BasicBlock} b"
  shows "quiet s (set_basic_blocks f bbs s)"
  using function_update_quiet [OF assms(1,2), of "\<lambda>_. bbs" "\<lambda>x. x" "\<lambda>x. x"] assms(3)
  by (simp add: set_basic_blocks_def)

text \<open>The end of a body: the function receives its blocks and the tables are reset.\<close>

definition finish_body :: "vref \<Rightarrow> vref list \<Rightarrow> mpc \<Rightarrow> mpc" where
  "finish_body f global_values s =
     (let s = set_basic_blocks f (basic_blocks s) s in
      s\<lparr>basic_blocks := [], basic_block_index := 0, module := add_function_implementation f (module s),
        vvalues := global_values, instructions := []\<rparr>)"

lemma finish_body_ok:
  assumes s: "pinv {} s" and f: "kind_ref (hp s) {VK_Function} f"
    and vs: "\<forall>v \<in> set vs. kind_ref (hp s) (- {VK_Proxy}) v"
  shows "advances s (Ok (finish_body f vs s))"
proof -
  let ?s = "set_basic_blocks f (basic_blocks s) s"
  let ?t = "?s\<lparr>basic_blocks := [], basic_block_index := 0, module := add_function_implementation f (module ?s),
        vvalues := vs, instructions := []\<rparr>"
  have q: "quiet s ?s" by (rule set_basic_blocks_quiet [OF pinv_heap [OF s] kind_ref_vok [OF f] pinv_blocks [OF s]])
  note s1 = quiet_pinv [OF s q] and later = hle_kind_ref [OF quiet_hle [OF q]]
  have m: "module_ok (hp ?s) (add_function_implementation f (module ?s))"
    using pinv_module [OF s1] later [OF f] by (simp add: module_ok_def add_function_implementation_def)
  have "pinv {} ?t"
    using s1 m later vs same_vheap_shape [of ?t ?s]
    by (simp add: pinv_def roots_ok_def shapes_def open_ok_def type_ref_def type_ref_opt_def)
  then show ?thesis using quiet_hle [OF q] by (simp add: advances_def finish_body_def Let_def)
qed

lemma parse_function_body_unfold:
  "parse_function_body entry s =
     bind_res (next_function s) (\<lambda>(f, t).
     bind_res (getFunctionType t f) (\<lambda>ft.
     bind_res (fold_res (add_param f ft) [0..<getNumParams t ft] t) (\<lambda>t.
     bind_res (fold_res parse_body_child (children entry) t) (\<lambda>t.
     bind_res (resolve_forward_references t) (\<lambda>t.
     bind_res (resolve_global_initializations t) (\<lambda>t. Ok (finish_body f (vvalues s) t)))))))"
  by (simp add: parse_function_body_def finish_body_def Let_def)

lemma parse_function_body_ok:
  assumes s: "pinv {} s"
  shows "advances s (parse_function_body entry s)"
  unfolding parse_function_body_unfold
proof (rule adv_bind_eq)
  fix x assume x: "next_function s = Ok x"
  obtain f s1 where fs: "x = (f, s1)" by fastforce
  then have s1: "pinv {} s1" "hp s1 = hp s" "kind_ref (hp s1) {VK_Function} f"
    using postD [OF next_function_post [OF s] x] by auto
  have vs: "\<forall>v \<in> set (vvalues s). kind_ref (hp s1) (- {VK_Proxy}) v" using s s1(2) by (simp add: pinv_def roots_ok_def)
  note kf = kind_ref_vok [OF s1(3)]
  have "advances s1 (bind_res (getFunctionType s1 f) (\<lambda>ft.
     bind_res (fold_res (add_param f ft) [0..<getNumParams s1 ft] s1) (\<lambda>t.
     bind_res (fold_res parse_body_child (children entry) t) (\<lambda>t.
     bind_res (resolve_forward_references t) (\<lambda>t.
     bind_res (resolve_global_initializations t) (\<lambda>t. Ok (finish_body f (vvalues s) t)))))))"
  proof (rule adv_bind_eq)
    fix ft assume ft: "getFunctionType s1 f = Ok ft"
    note tr = getFunctionType_ref(1) [OF s1(1) kf ft]
    show "advances s1 (bind_res (fold_res (add_param f ft) [0..<getNumParams s1 ft] s1) (\<lambda>t.
       bind_res (fold_res parse_body_child (children entry) t) (\<lambda>t.
       bind_res (resolve_forward_references t) (\<lambda>t.
       bind_res (resolve_global_initializations t) (\<lambda>t. Ok (finish_body f (vvalues s) t))))))"
    proof (intro adv_bind adv_fold [OF s1(1)])
      fix i t assume t: "pinv {} t" "hle (hp s1) (hp t)"
      show "advances t (add_param f ft i t)"
        by (rule add_param_ok [OF t(1) hle_vok [OF t(2) kf] later_type_ref [OF t(2) tr]])
    next
      fix t1 t2 t3 t4 :: mpc
      assume t: "pinv {} t1" "hle (hp s1) (hp t1)" "pinv {} t2" "hle (hp t1) (hp t2)" "pinv {} t3" "hle (hp t2) (hp t3)"
        "pinv {} t4" "hle (hp t3) (hp t4)"
      have "hle (hp s1) (hp t4)" using t(2,4,6,8) by (blast intro: hle_trans)
      then show "advances t4 (Ok (finish_body f (vvalues s) t4))"
        using hle_kind_ref vs s1(3) by (intro finish_body_ok [OF t(7)]) blast+
    qed (auto intro: adv_fold parse_body_child_ok resolve_forward_references_advances resolve_global_initializations_advances)
  qed
  then show "advances s (case x of (f, t) \<Rightarrow>
     bind_res (getFunctionType t f) (\<lambda>ft.
     bind_res (fold_res (add_param f ft) [0..<getNumParams t ft] t) (\<lambda>t.
     bind_res (fold_res parse_body_child (children entry) t) (\<lambda>t.
     bind_res (resolve_forward_references t) (\<lambda>t.
     bind_res (resolve_global_initializations t) (\<lambda>t. Ok (finish_body f (vvalues s) t)))))))"
    using advances_lift [of s s1] fs s1(2) by simp
qed

section \<open>The module\<close>

lemma parse_toplevel_child_ok: "pinv {} s \<Longrightarrow> advances s (parse_toplevel_child child s)"
proof -
  assume s: "pinv {} s"
  note oks = parse_value_symtab_ok [OF s] parse_function_body_ok [OF s] parse_types_ok [OF s]
    parse_constants_block_ok [OF s] parse_metadata_block_ok [OF s] parse_paramattr_block_ok [OF s]
    parse_paramattr_group_block_ok [OF s] parse_version_record_ok [OF s] parse_function_record_ok [OF s]
    parse_global_variable_record_ok [OF s] adv_done [OF s, of s]
  then show ?thesis
    unfolding parse_toplevel_child_def by (auto split: KnownBlocks.split)
qed

lemma initial_context_pinv: "pinv {} initial_context"
  by (simp add: pinv_def heap_ok_def types_ok_def roots_ok_def shapes_def open_ok_def kind_ref_def
      module_ok_def initial_context_def empty_module_def)

lemma parseIR_pinv: "parseIR reader data = Ok s \<Longrightarrow> pinv {} s"
proof -
  assume run: "parseIR reader data = Ok s"
  obtain top e where rd: "reader data = (top, e)" by fastforce
  then have "fold_res parse_toplevel_child (children top) initial_context = Ok s"
    using run by (auto simp: parseIR_def split: if_splits)
  moreover have "advances initial_context (fold_res parse_toplevel_child (children top) initial_context)"
    by (rule adv_fold [OF initial_context_pinv]) (rule parse_toplevel_child_ok)
  ultimately show ?thesis by (simp add: advances_def)
qed

end
