(* ===== verification/Bc_Properties.thy ===== *)
theory Bc_Properties
  imports Bc_Body
begin

text \<open>
  The properties of the bitcode parser: what an accepted module looks like, the resolution of
  forward references and the walk through proxies.
\<close>

section \<open>A module to run the model on\<close>

text \<open>Types \<open>void\<close>, \<open>i32\<close> and \<open>void ()\<close>, one function, and a body of two blocks: a branch, a return.\<close>

definition sample_body :: BlockOrRecord where
  "sample_body = BlockOrRecord 12 True
     [BlockOrRecord 1 False [] [2], BlockOrRecord 11 False [] [1], BlockOrRecord 10 False [] []] []"

definition sample_module :: BlockOrRecord where
  "sample_module = BlockOrRecord 8 True
     [BlockOrRecord 17 True
        [BlockOrRecord 2 False [] [], BlockOrRecord 7 False [] [32], BlockOrRecord 21 False [] [0, 0]] [],
      BlockOrRecord 8 False [] [2, 0, 0], sample_body] []"

lemma new_blocks_numeral:
  "new_blocks (numeral k) s =
     (case BasicBlock_new s of (b, s) \<Rightarrow> case new_blocks (pred_numeral k) s of (bs, s) \<Rightarrow> (b # bs, s))"
  by (simp add: numeral_eq_Suc)

lemmas run_types = parse_toplevel_child_def KnownBlocks_of_def parse_types_def parse_type_def type_function_def
  type_integer_def basic_type_code_def add_type_def initial_context_def get_type_def type_get_eval

lemmas run_declarations = parse_function_record_def Function_new_def construct_value_def dyn_cast_type_def
  type_id_of_def push_value_def mk_value_def empty_module_def

lemmas run_blocks = new_blocks_numeral BasicBlock_new_def BranchInst_new_def ReturnInst_new_def construct_inst_def
  must_add_instruction_def add_instruction_def get_basic_block_def add_successor_def BasicBlock_add_successor_def
  BasicBlock_add_instruction_def update_body_def update_value_def isTerminator_def finish_basic_block_def
  set_tween_id_def push_unique_def value_at_def block_instructions_def

lemmas run_body = parse_function_body_def next_function_def getFunctionType_def getNumParams_def
  parse_body_child_def parse_record_def record_declareblocks_def record_br_def record_ret_def
  resolve_forward_references_def resolve_block_def resolve_proxy_values_def inst_operands_def
  resolve_global_initializations_def set_basic_blocks_def add_function_implementation_def index_def

lemma sample_module_accepted:
  "\<exists>s. parseIR (\<lambda>b. (b, True)) sample_module = Ok s \<and> mod_functions (module s) = [0] \<and>
     kind_ref (hp s) {VK_BasicBlock} 1 \<and> block_succs s 1 = [2]"
  by (simp add: parseIR_def sample_module_def sample_body_def run_types run_declarations run_blocks run_body Let_def
      kind_ref_def block_succs_def)

section \<open>Accepted modules\<close>

text \<open>
  C30. Whatever the bitstream reader delivers, a module that \<open>parseIR\<close> accepts is well formed:
  every pointer in its object graph is null or leads to an object of the class its holder
  expects, payloads agree with value kinds, types are hash-consed, and the value table holds
  no forward-reference proxy.
\<close>

theorem parseIR_well_formed:
  assumes "parseIR reader data = Ok s"
  shows "heap_ok (hp s) \<and> module_ok (hp s) (module s) \<and>
    (\<forall>v \<in> set (vvalues s). kind_ref (hp s) (- {VK_Proxy}) v)"
  using parseIR_pinv [OF assms] by (simp add: pinv_def roots_ok_def)

theorem parseIR_well_formed_witness:
  "\<exists>s. parseIR (\<lambda>b. (b, True)) sample_module = Ok s \<and> mod_functions (module s) = [0] \<and>
     heap_ok (hp s) \<and> module_ok (hp s) (module s) \<and>
     (\<forall>v \<in> set (vvalues s). kind_ref (hp s) (- {VK_Proxy}) v)"
proof -
  obtain s where s: "parseIR (\<lambda>b. (b, True)) sample_module = Ok s" "mod_functions (module s) = [0]"
    using sample_module_accepted by metis
  then show ?thesis using parseIR_well_formed [OF s(1)] by (intro exI [of _ s] conjI) simp_all
qed

text \<open>
  C31. Control flow of accepted modules is exact: a terminator only stands at the end of a
  block, the successor list of a block has no duplicates, and it is the set of targets of
  the terminator (empty for a block without one).
\<close>

theorem parseIR_blocks_closed:
  assumes "parseIR reader data = Ok s" and "kind_ref (hp s) {VK_BasicBlock} b"
  shows "(\<forall>i \<in> set (butlast (block_instructions s b)). \<not> isTerminator s i) \<and>
    distinct (block_succs s b) \<and>
    set (block_succs s b) = (case getTerminator s b of Some t \<Rightarrow> targets s t | None \<Rightarrow> {})"
proof -
  note inv = parseIR_pinv [OF assms(1)]
  obtain iis ss where "vbody (value_at s b) = B_BasicBlock iis ss"
    using block_body_cases [OF pinv_heap [OF inv] assms(2)] by metis
  then have "distinct (block_succs s b)"
    using block_body [OF pinv_heap [OF inv] assms(2)] by (simp add: block_succs_def)
  then show ?thesis
    using inv assms(2) by (auto simp: pinv_def shapes_def block_shape_def split: option.splits)
qed

theorem parseIR_blocks_closed_witness:
  "\<exists>s. parseIR (\<lambda>b. (b, True)) sample_module = Ok s \<and> block_succs s 1 = [2] \<and>
    (\<forall>i \<in> set (butlast (block_instructions s 1)). \<not> isTerminator s i) \<and>
    distinct (block_succs s 1) \<and>
    set (block_succs s 1) = (case getTerminator s 1 of Some t \<Rightarrow> targets s t | None \<Rightarrow> {})"
proof -
  obtain s where s: "parseIR (\<lambda>b. (b, True)) sample_module = Ok s" "kind_ref (hp s) {VK_BasicBlock} 1" "block_succs s 1 = [2]"
    using sample_module_accepted by metis
  then show ?thesis using parseIR_blocks_closed [OF s(1,2)] by (intro exI [of _ s] conjI) simp_all
qed

section \<open>Forward references\<close>

text \<open>
  C32. Resolving forward references succeeds exactly when every pending reference is to a
  value the table has. Then no proxy is left unresolved, the blocks keep their instructions,
  and no operand or incoming value of an instruction in the function's blocks is a proxy;
  otherwise the parser rejects the module. The loops over chains of proxies end.
\<close>

theorem resolve_forward_references_complete:
  assumes "pinv {} s" and "\<forall>v. unresolved s v \<longrightarrow> v \<in> set (pending_forward_references s)"
  shows "if \<forall>v \<in> set (pending_forward_references s). \<forall>i.
            vbody (value_at s v) = B_Proxy i None \<longrightarrow> i < length (vvalues s)
    then \<exists>t. resolve_forward_references s = Ok t \<and> (\<forall>v. \<not> unresolved t v) \<and> pending_forward_references t = [] \<and>
      (\<forall>b \<in> set (basic_blocks s). block_instructions t b = block_instructions s b \<and>
         (\<forall>i \<in> set (block_instructions s b). proxy_free t i))
    else resolve_forward_references s = Reject"
proof -
  have "resolve_forward_references s = Reject" if "\<not> in_range (pending_forward_references s) s"
    using resolve_pending_reject [OF assms(1) pinv_pending [OF assms(1)] that]
    by (simp add: resolve_forward_references_def)
  then show ?thesis
    using resolve_forward_references_ok [OF assms(1)] assms(2) unfolding in_range_def [symmetric] by auto
qed

text \<open>A state with a constant 7 and an operand that refers to it before it exists.\<close>

definition forward_state :: mpc where
  "forward_state =
     (case getInt32Ty initial_context of (t, s) \<Rightarrow>
      case forward_reference (Some t) 0 s of (p, s) \<Rightarrow>
      case ConstantInt_get t 7 s of (v, s) \<Rightarrow> push_value v s)"

lemma forward_state_eval:
  "vheap forward_state = [mk_value (Some 0) VK_Proxy (B_Proxy 0 None), mk_value (Some 0) VK_ConstantInt (B_ConstantInt 0 7)]"
  "vvalues forward_state = [1]" "pending_forward_references forward_state = [0]"
  by (simp_all add: forward_state_def type_get_eval initial_context_def forward_reference_def ValueProxy_new_def
      construct_value_def ConstantInt_get_def push_value_def)

lemma forward_state_pinv: "pinv {} forward_state"
proof -
  obtain t s1 where 1: "getInt32Ty initial_context = (t, s1)" by fastforce
  then have q1: "quiet initial_context s1" "type_ref s1 t" "type_at s1 t = IntegerType 32"
    using type_gets(5) [OF pinv_heap [OF initial_context_pinv], of 32] by (auto simp: type_got_def)
  note s1 = quiet_pinv [OF initial_context_pinv q1(1)]
  obtain p s2 where 2: "forward_reference (Some t) 0 s1 = (p, s2)" by fastforce
  have q2: "quiet s1 s2" using forward_reference_quiet [OF pinv_heap [OF s1] _ 2] q1(2) by simp
  note s2 = quiet_pinv [OF s1 q2]
  have "type_ref s2 t" "type_at s2 t = IntegerType 32"
    using q1(2,3) later_type_ref [OF quiet_hle [OF q2]] later_type_at [OF quiet_hle [OF q2]] by auto
  then have "advances s2 (case ConstantInt_get t 7 s2 of (v, s) \<Rightarrow> Ok (push_value v s))"
    unfolding ConstantInt_get_def by (intro adv_push [OF s2]) (auto simp: constant_value type_id_of_def)
  then show ?thesis using 1 2 by (auto simp: forward_state_def advances_def split: prod.splits)
qed

theorem resolve_forward_references_complete_witness:
  "pinv {} forward_state \<and>
   (\<exists>t. resolve_forward_references forward_state = Ok t \<and> (\<forall>v. \<not> unresolved t v) \<and> pending_forward_references t = [] \<and>
      (\<forall>b \<in> set (basic_blocks forward_state). block_instructions t b = block_instructions forward_state b \<and>
         (\<forall>i \<in> set (block_instructions forward_state b). proxy_free t i)))"
proof -
  have u: "\<forall>v. unresolved forward_state v \<longrightarrow> v \<in> set (pending_forward_references forward_state)"
    by (auto simp: unresolved_def value_at_def forward_state_eval mk_value_def nth_Cons less_Suc_eq split: nat.splits if_splits)
  have "\<forall>v \<in> set (pending_forward_references forward_state). \<forall>i.
      vbody (value_at forward_state v) = B_Proxy i None \<longrightarrow> i < length (vvalues forward_state)"
    by (simp add: value_at_def forward_state_eval mk_value_def)
  then show ?thesis
    using resolve_forward_references_complete [OF forward_state_pinv u] forward_state_pinv by (simp only: if_True)
qed

section \<open>The walk through proxies\<close>

text \<open>
  What a reference stands for: a proxy stands for what its value stands for. Every proxy carries a
  proxy's payload; nothing is said about chains of proxies, which may be long or closed.
\<close>

inductive leads_to :: "'a Heap_scheme \<Rightarrow> vref option \<Rightarrow> vref option \<Rightarrow> bool" for h where
  leads_to_null: "leads_to h None None"
| leads_to_value: "get_value_kind h v \<noteq> VK_Proxy \<Longrightarrow> leads_to h (Some v) (Some v)"
| leads_to_proxy: "get_value_kind h v = VK_Proxy \<Longrightarrow> vbody (value_at h v) = B_Proxy i p \<Longrightarrow> leads_to h p q \<Longrightarrow>
    leads_to h (Some v) q"

inductive_simps leads_to_simps: "leads_to h None q" "leads_to h (Some v) q"

definition proxy_bodies :: "'a Heap_scheme \<Rightarrow> bool" where
  "proxy_bodies h \<longleftrightarrow> (\<forall>v. get_value_kind h v = VK_Proxy \<longrightarrow> (\<exists>i p. vbody (value_at h v) = B_Proxy i p))"

definition is_proxy :: "'a Heap_scheme \<Rightarrow> vref option \<Rightarrow> bool" where
  "is_proxy h p \<longleftrightarrow> (case p of None \<Rightarrow> False | Some v \<Rightarrow> get_value_kind h v = VK_Proxy)"

definition follow :: "'a Heap_scheme \<Rightarrow> vref option \<Rightarrow> vref option" where
  "follow h p = (case p of None \<Rightarrow> None
     | Some v \<Rightarrow> (case vbody (value_at h v) of B_Proxy _ q \<Rightarrow> q | _ \<Rightarrow> None))"

lemma leads_to_Ok:
  "leads_to h p q \<Longrightarrow> resolve_proxy_loop n h p = Ok q \<or> resolve_proxy_loop n h p = Fault Out_Of_Fuel"
proof (induction n arbitrary: p)
  case (Suc n)
  from Suc.prems show ?case by cases (use Suc.IH in \<open>auto simp: get_proxy_value_def\<close>)
qed simp

lemma loop_leads_to:
  "proxy_bodies h \<Longrightarrow> resolve_proxy_loop n h p = Ok q \<Longrightarrow> leads_to h p q"
proof (induction n arbitrary: p)
  case (Suc n)
  show ?case
  proof (cases "is_proxy h p")
    case True
    then obtain v i p' where p: "p = Some v" "get_value_kind h v = VK_Proxy" "vbody (value_at h v) = B_Proxy i p'"
      using Suc.prems(1) by (auto simp: is_proxy_def proxy_bodies_def split: option.splits)
    then have "leads_to h p' q" using Suc.IH [OF Suc.prems(1)] Suc.prems(2) by (simp add: get_proxy_value_def)
    then show ?thesis using leads_to_proxy [OF p(2,3)] p(1) by simp
  next
    case False
    then show ?thesis using Suc.prems(2) by (cases p) (auto simp: is_proxy_def leads_to_simps)
  qed
qed simp

lemma out_of_fuel_chain:
  assumes "proxy_bodies h"
  shows "(\<exists>q. resolve_proxy_loop n h p = Ok q) \<or>
    resolve_proxy_loop n h p = Fault Out_Of_Fuel \<and> (\<forall>k < n. is_proxy h ((follow h ^^ k) p))"
proof (induction n arbitrary: p)
  case (Suc n)
  show ?case
  proof (cases "is_proxy h p")
    case True
    then obtain v i q where p: "p = Some v" "get_value_kind h v = VK_Proxy" "vbody (value_at h v) = B_Proxy i q"
      using assms by (auto simp: is_proxy_def proxy_bodies_def split: option.splits)
    then have loop: "resolve_proxy_loop (Suc n) h p = resolve_proxy_loop n h q" by (simp add: get_proxy_value_def)
    have "is_proxy h ((follow h ^^ k) p)" if "\<forall>k < n. is_proxy h ((follow h ^^ k) q)" "k < Suc n" for k
      using that True p by (cases k) (auto simp: funpow_Suc_right follow_def simp del: funpow.simps)
    then show ?thesis using Suc.IH [of q] loop by auto
  next
    case False
    then show ?thesis by (cases p) (auto simp: is_proxy_def)
  qed
qed simp

lemma proxy_in_heap: "is_proxy h p \<Longrightarrow> p \<in> Some ` {..<length (vheap h)}"
  by (auto simp: is_proxy_def value_at_def mk_value_def split: option.splits if_splits)

lemma leads_to_follow: "leads_to h p q \<Longrightarrow> \<exists>k. \<not> is_proxy h ((follow h ^^ k) p)"
proof (induction rule: leads_to.induct)
  case (leads_to_proxy v i p q)
  then obtain k where "\<not> is_proxy h ((follow h ^^ k) p)" by blast
  then have "\<not> is_proxy h ((follow h ^^ Suc k) (Some v))"
    using leads_to_proxy(2) by (simp add: funpow_Suc_right follow_def del: funpow.simps)
  then show ?case by blast
qed (auto intro: exI [of _ 0] simp: is_proxy_def)

text \<open>A chain longer than the heap meets a proxy twice, and then it never ends.\<close>

lemma long_chain_is_closed:
  assumes "\<forall>k \<le> length (vheap h). is_proxy h ((follow h ^^ k) p)"
  shows "is_proxy h ((follow h ^^ k) p)"
proof -
  let ?f = "\<lambda>k. (follow h ^^ k) p"
  have "\<not> inj_on ?f {..length (vheap h)}"
  proof
    assume "inj_on ?f {..length (vheap h)}"
    moreover have "?f ` {..length (vheap h)} \<subseteq> Some ` {..<length (vheap h)}"
      using assms proxy_in_heap [of h] by blast
    ultimately have "card {..length (vheap h)} \<le> card (Some ` {..<length (vheap h)})"
      using card_inj_on_le by blast
    moreover have "card (Some ` {..<length (vheap h)}) = length (vheap h)" by (simp add: card_image)
    ultimately show False by simp
  qed
  then obtain i j where ij: "i < j" "j \<le> length (vheap h)" "?f i = ?f j"
    by (metis (mono_tags) atMost_iff inj_onI linorder_neqE_nat)
  have turn: "?f (m + j) = ?f (m + i)" for m by (simp add: funpow_add ij(3))
  show ?thesis
  proof (induction k rule: less_induct)
    case (less k)
    show ?case
    proof (cases "k < j")
      case True
      then show ?thesis using assms ij(2) by simp
    next
      case False
      then have "?f k = ?f (k - j + i)" using turn [of "k - j"] by simp
      then show ?thesis using less.IH [of "k - j + i"] ij(1) False by simp
    qed
  qed
qed

lemma heap_ok_leads_to:
  assumes "heap_ok (hp s)"
  shows "\<exists>q. leads_to s p q"
proof (cases "is_proxy s p")
  case True
  then obtain v where v: "p = Some v" "get_value_kind s v = VK_Proxy" by (auto simp: is_proxy_def split: option.splits)
  then have "kind_ref (hp s) {VK_Proxy} v"
    using proxy_in_heap [OF True] by (auto simp: kind_ref_value_at vok_def)
  then obtain i q where b: "vbody (value_at s v) = B_Proxy i q" "\<And>w. q = Some w \<Longrightarrow> kind_ref (hp s) (- {VK_Proxy}) w"
    using proxy_body [OF assms] by metis
  have "leads_to s q q"
    using b(2) by (cases q) (auto simp: kind_ref_value_at intro: leads_to.intros)
  then show ?thesis using leads_to_proxy [OF v(2) b(1)] v(1) by blast
next
  case False
  then show ?thesis by (cases p) (auto simp: is_proxy_def leads_to_simps)
qed

text \<open>
  C33. Reading an operand through proxies (\<open>Internal::resolve_proxy\<close>, which every \<open>cast\<close>,
  \<open>dyn_cast\<close> and \<open>getOperand\<close> calls), on chains of any length: it returns exactly the null or the
  value that is no proxy the chain leads to, and it fails to return only on a chain that leads
  nowhere because it is closed. On a well-formed graph every chain leads somewhere.
\<close>

theorem resolve_proxy_total:
  fixes s :: "'a Heap_scheme"
  assumes "proxy_bodies s"
  shows "(\<forall>q. resolve_proxy s p = Ok q \<longleftrightarrow> leads_to s p q) \<and>
    (resolve_proxy s p = Fault Out_Of_Fuel \<longleftrightarrow> (\<nexists>q. leads_to s p q)) \<and>
    (heap_ok (hp s) \<longrightarrow> (\<exists>q. leads_to s p q))"
proof -
  have ends: "resolve_proxy s p \<noteq> Fault Out_Of_Fuel" if "leads_to s p q" for q
  proof
    assume "resolve_proxy s p = Fault Out_Of_Fuel"
    then have "\<forall>k < length (vheap s) + 2. is_proxy s ((follow s ^^ k) p)"
      using out_of_fuel_chain [OF assms, of "length (vheap s) + 2" p] by (auto simp: resolve_proxy_def)
    then have "\<forall>k. is_proxy s ((follow s ^^ k) p)" using long_chain_is_closed [of s p] by simp
    then show False using leads_to_follow [OF that] by blast
  qed
  have "resolve_proxy s p = Ok q \<longleftrightarrow> leads_to s p q" for q
    using ends leads_to_Ok [of s p q] loop_leads_to [OF assms] unfolding resolve_proxy_def by blast
  moreover have "resolve_proxy s p = Fault Out_Of_Fuel \<longleftrightarrow> (\<nexists>q. leads_to s p q)"
    using ends loop_leads_to [OF assms] out_of_fuel_chain [OF assms, of "length (vheap s) + 2" p]
    unfolding resolve_proxy_def by blast
  ultimately show ?thesis using heap_ok_leads_to by blast
qed

definition proxy_chain :: mpc where
  "proxy_chain = initial_context\<lparr>vheap := [mk_value None VK_Proxy (B_Proxy 0 (Some 1)),
     mk_value None VK_Proxy (B_Proxy 1 (Some 2)), mk_value None VK_ConstantInt (B_ConstantInt 0 7),
     mk_value None VK_Proxy (B_Proxy 2 (Some 3))]\<rparr>"

theorem resolve_proxy_total_witness:
  "proxy_bodies proxy_chain \<and> resolve_proxy proxy_chain (Some 0) = Ok (Some 2) \<and> leads_to proxy_chain (Some 0) (Some 2) \<and>
   resolve_proxy proxy_chain (Some 3) = Fault Out_Of_Fuel \<and> (\<nexists>q. leads_to proxy_chain (Some 3) q)"
proof -
  have b: "proxy_bodies proxy_chain"
    by (auto simp: proxy_bodies_def proxy_chain_def value_at_def mk_value_def nth_Cons split: nat.splits if_splits)
  have "resolve_proxy proxy_chain (Some 0) = Ok (Some 2)" "resolve_proxy proxy_chain (Some 3) = Fault Out_Of_Fuel"
    by (simp_all add: resolve_proxy_def get_proxy_value_def value_at_def mk_value_def proxy_chain_def eval_nat_numeral)
  then show ?thesis
    using b resolve_proxy_total [OF b, of "Some 0"] resolve_proxy_total [OF b, of "Some 3"] by blast
qed

end
