(* ===== verification/Bc_Encodings.thy ===== *)
theory Bc_Encodings
  imports Bc_Properties
begin

text \<open>
  Encodings the bitcode parser reads: sign-rotated literals, relative value numbers, integers of
  a given width and attribute group records. Each decoder is related to the encoding it inverts.
\<close>

unbundle bit_operations_syntax

section \<open>Sign-rotated literals\<close>

text \<open>The writer's side: the sign in bit 0, the magnitude above it.\<close>

definition encode_sign_rotated :: "u64 \<Rightarrow> u64" where
  "encode_sign_rotated v = (if bit v 63 then push_bit 1 (- v) OR 1 else push_bit 1 v)"

lemma unat_lt: "unat (x :: u64) < 2 ^ 64"
  using unsigned_less [of x, where ?'a = nat] by simp

lemma bit_unat: "bit (unat (x :: u64)) n \<longleftrightarrow> bit x n"
  by (auto simp: bit_unsigned_iff dest: bit_imp_le_length)

lemma odd_unat: "odd (unat x) \<longleftrightarrow> odd x" for x :: u64
  using bit_unat [of x 0] by (simp add: bit_0)

lemma bit_63_iff: "bit x 63 \<longleftrightarrow> 2 ^ 63 \<le> unat x" for x :: u64
proof -
  have "bit x 63 \<longleftrightarrow> odd (unat x div 2 ^ 63)"
    unfolding bit_unat [of x, symmetric] by (rule bit_iff_odd)
  also have "\<dots> \<longleftrightarrow> 2 ^ 63 \<le> unat x"
  proof (cases "2 ^ 63 \<le> unat x")
    case True
    then have "unat x div 2 ^ 63 = 1"
      using unat_lt [of x] by simp
    then show ?thesis using True by simp
  qed simp
  finally show ?thesis .
qed

lemma unat_neg_word: "unat (- x) = (if x = 0 then 0 else 2 ^ 64 - unat x)" for x :: u64
proof (cases "x = 0")
  case False
  have "(unat x + unat (- x)) mod 2 ^ 64 = 0"
    using unat_word_ariths(1) [of x "- x"] by simp
  moreover have "0 < unat x" "unat x < 2 ^ 64" "unat (- x) < 2 ^ 64"
    using False unat_lt [of x] unat_lt [of "- x"] by (auto simp: unat_gt_0)
  moreover have "m = 2 ^ 64" if "m mod 2 ^ 64 = 0" "0 < m" "m < 2 ^ 64 + 2 ^ 64" for m :: nat
    using that by auto
  ultimately have "unat x + unat (- x) = 2 ^ 64" by auto
  then show ?thesis using False by simp
qed simp

lemma unat_double: "unat (push_bit 1 x) = 2 * unat x mod 2 ^ 64" for x :: u64
  using unat_word_ariths(2) [of 2 x] by (simp add: mult.commute)

lemma unat_half: "unat (drop_bit 1 x) = unat x div 2" for x :: u64
  unfolding drop_bit_eq_div power_one_right by (simp add: unat_div_distrib)

lemma unat_even_Suc: "unat (y + 1) = unat y + 1" if "even y" for y :: u64
proof -
  have "unat y \<noteq> 2 ^ 64 - 1" using that odd_unat [of y] by auto
  then show ?thesis using unat_lt [of y] unat_word_ariths(1) [of y 1] by simp
qed

lemma unat_push_or: "unat (push_bit 1 x OR 1) = 2 * unat x mod 2 ^ 64 + 1" for x :: u64
proof -
  have "even (push_bit 1 x)" by simp
  then have "push_bit 1 x OR 1 = push_bit 1 x + 1" by (simp only: or_one_eq of_bool_eq)
  then show ?thesis using unat_even_Suc [OF \<open>even (push_bit 1 x)\<close>] unat_double [of x] by (simp only:)
qed

lemma unat_encode:
  "unat (encode_sign_rotated v) =
     (if unat v < 2 ^ 63 then 2 * unat v else if unat v = 2 ^ 63 then 1 else 2 * (2 ^ 64 - unat v) + 1)"
proof (cases "2 ^ 63 \<le> unat v")
  case True
  then have "unat (- v) = 2 ^ 64 - unat v" by (auto simp: unat_neg_word)
  moreover have "encode_sign_rotated v = push_bit 1 (- v) OR 1"
    unfolding encode_sign_rotated_def bit_63_iff using True by (simp only: if_True)
  ultimately have "unat (encode_sign_rotated v) = 2 * (2 ^ 64 - unat v) mod 2 ^ 64 + 1"
    by (simp only: unat_push_or)
  then show ?thesis using True unat_lt [of v] by auto
next
  case False
  then have "encode_sign_rotated v = push_bit 1 v"
    unfolding encode_sign_rotated_def bit_63_iff by (simp only: if_False)
  then show ?thesis using False unat_double [of v] by simp
qed

lemma unat_decode:
  "unat (decode_sign_rotated_value x) =
     (if odd (unat x) then if 2 \<le> unat x then 2 ^ 64 - unat x div 2 else 2 ^ 63 else unat x div 2)"
proof -
  have odd: "x AND 1 \<noteq> 0 \<longleftrightarrow> odd (unat x)"
    unfolding odd_unat by (simp add: and_one_eq odd_iff_mod_2_eq_one)
  have half: "unat (drop_bit 1 x) = unat x div 2" by (rule unat_half)
  then have zero: "drop_bit 1 x \<noteq> 0 \<longleftrightarrow> 2 \<le> unat x"
    using unat_eq_zero [of "drop_bit 1 x"] by auto
  show ?thesis
    unfolding decode_sign_rotated_value_def Let_def odd zero
    using half zero unat_neg_word [of "drop_bit 1 x"] by auto
qed

lemma sign_rotated: "decode_sign_rotated_value (encode_sign_rotated v) = v"
  using unat_lt [of v] by (intro word_unat_eq_iff [THEN iffD2]) (auto simp: unat_decode unat_encode)

text \<open>
  C34. Sign-rotated literals: the decoder and the writer's encoding are inverse to each other on
  all 64-bit words, the smallest integer (written as minus zero) included.
\<close>

theorem sign_rotated_bijective:
  "decode_sign_rotated_value (encode_sign_rotated v) = v \<and>
   encode_sign_rotated (decode_sign_rotated_value x) = x"
proof
  show "decode_sign_rotated_value (encode_sign_rotated v) = v"
    by (rule sign_rotated)
  show "encode_sign_rotated (decode_sign_rotated_value x) = x"
    using unat_lt [of x] by (intro word_unat_eq_iff [THEN iffD2]) (auto simp: unat_decode unat_encode elim!: oddE evenE)
qed

section \<open>Integers of a given width\<close>

lemma mask_word: "push_bit w 1 - 1 = (mask w :: u64)"
  by (simp add: mask_eq_decr_exp push_bit_eq_mult)

lemma and_mask: "v AND mask w = take_bit w (v :: u64)"
  by (simp add: take_bit_eq_mask)

lemma sign_extend:
  assumes "0 < w" "w < 64"
  shows "take_bit w v OR (if drop_bit (w - 1) v AND 1 \<noteq> 0 then NOT (mask w) else 0) = signed_take_bit (w - 1) (v :: u64)"
proof -
  have "drop_bit (w - 1) v AND 1 \<noteq> 0 \<longleftrightarrow> bit v (w - 1)"
    by (simp add: and_one_eq bit_iff_odd_drop_bit odd_iff_mod_2_eq_one)
  moreover have "take_bit w v OR (if bit v (w - 1) then NOT (mask w) else 0) = signed_take_bit (w - 1) v"
  proof (rule bit_word_eqI)
    fix n assume "n < LENGTH(64)"
    moreover have "n = w - 1" if "n < w" "\<not> n < w - 1" using that by simp
    ultimately show "bit (take_bit w v OR (if bit v (w - 1) then NOT (mask w) else 0)) n = bit (signed_take_bit (w - 1) v) n"
      using assms by (cases "n < w - 1"; cases "n < w") (auto simp: bit_simps min_def)
  qed
  ultimately show ?thesis by simp
qed

text \<open>
  C37. Constants of a \<open>w\<close>-bit integer type: \<open>getSExtValue\<close> is the two's complement value of the
  low \<open>w\<close> bits and \<open>getZExtValue\<close> the unsigned one, for the whole range of widths; a width outside
  it is an undefined shift.
\<close>

theorem integer_accessors:
  assumes "type_at c t = IntegerType w"
  shows "getSExtValue c (Some t) v = (if 1 \<le> w \<and> w \<le> 64 then Ok (signed_take_bit (w - 1) v) else Fault Bad_Shift) \<and>
    getZExtValue c (Some t) v = (if w \<le> 64 then Ok (take_bit w v) else Fault Bad_Shift)"
proof
  have w: "getIntegerBitWidth c t = Ok w" "cast_type IntegerTyID c (Some t) = Ok t"
    using assms by (simp_all add: getIntegerBitWidth_def cast_type_def type_id_of_def)
  have 64: "signed_take_bit 63 v = v" "take_bit 64 v = v"
    by (rule bit_word_eqI, auto simp: bit_simps min_def dest: le_antisym)+
  have ext: "take_bit w v OR (if drop_bit (w - 1) v AND 1 \<noteq> 0 then NOT (mask w) else 0) = signed_take_bit (w - 1) v"
    if "w \<noteq> 64" "\<not> (w = 0 \<or> 64 < w)" using that sign_extend [of w v] by simp
  have "getSExtValue c (Some t) v = (if w = 64 then Ok v else if w = 0 \<or> 64 < w then Fault Bad_Shift
      else Ok (take_bit w v OR (if drop_bit (w - 1) v AND 1 \<noteq> 0 then NOT (mask w) else 0)))"
    unfolding getSExtValue_def w mask_word and_mask Let_def by (simp only: w bind_res_simps)
  then show "getSExtValue c (Some t) v = (if 1 \<le> w \<and> w \<le> 64 then Ok (signed_take_bit (w - 1) v) else Fault Bad_Shift)"
    using ext 64 by auto
  have "getZExtValue c (Some t) v = (if w = 64 then Ok v else if 64 < w then Fault Bad_Shift else Ok (take_bit w v))"
    unfolding getZExtValue_def mask_word and_mask by (simp only: w bind_res_simps)
  then show "getZExtValue c (Some t) v = (if w \<le> 64 then Ok (take_bit w v) else Fault Bad_Shift)"
    using 64 by auto
qed

theorem integer_accessors_witness:
  "type_at (\<lparr>type_heap = [IntegerType 8], type_cache = [0]\<rparr>) 0 = IntegerType 8 \<and>
   getSExtValue \<lparr>type_heap = [IntegerType 8], type_cache = [0]\<rparr> (Some 0) 255 = Ok (- 1)"
  using integer_accessors [of "\<lparr>type_heap = [IntegerType 8], type_cache = [0]\<rparr>" 0 8 255]
  by (simp add: type_at_def)

section \<open>Relative value numbers\<close>

text \<open>
  What a writer puts into a record for value number \<open>v\<close>. A relative number is the difference of
  two 32-bit numbers, so that a forward reference wraps at 32 bits; it is stored without sign
  extension. A signed operand is the 64-bit difference, sign-rotated.
\<close>

definition write_id :: "mpc \<Rightarrow> bool \<Rightarrow> nat \<Rightarrow> u64" where
  "write_id s force_absolute v =
     (if \<not> force_absolute \<and> use_relative_id s
      then ucast (word_of_nat (length (vvalues s)) - word_of_nat v :: u32) else word_of_nat v)"

definition write_signed_id :: "mpc \<Rightarrow> nat \<Rightarrow> u64" where
  "write_signed_id s v =
     encode_sign_rotated
       (if use_relative_id s then word_of_nat (length (vvalues s)) - word_of_nat v else word_of_nat v)"

lemma absolute_id_written:
  assumes "v < 2 ^ 32"
  shows "absolute_id s force_absolute (write_id s force_absolute v) = v"
proof -
  have 1: "ucast (word_of_nat n - ucast (word_of_nat n - word_of_nat v :: u32) :: u64) = (word_of_nat v :: u32)" for n
  proof transfer
    show "take_bit LENGTH(32) (take_bit LENGTH(64) (int n - take_bit LENGTH(32) (int n - int v))) = take_bit LENGTH(32) (int v)"
      for n v
      by (simp add: take_bit_take_bit) (metis diff_diff_eq2 add_diff_cancel_left' take_bit_diff take_bit_take_bit min.idem)
  qed
  show ?thesis
    using assms by (auto simp: absolute_id_def write_id_def 1 unsigned_of_nat take_bit_nat_eq_self)
qed

text \<open>
  C35. Value numbers: whatever the table's size and the encoding in force, the number the writer
  means is the one the parser looks up. An operand with its type, after any others, gives the value
  of that number, or a forward reference of the written type to that number when the table does not
  hold it yet; a sign-rotated operand does the same with the expected type.
\<close>

theorem value_id_roundtrip:
  assumes "v < 2 ^ 32"
  shows "absolute_id s force_absolute (write_id s force_absolute v) = v \<and>
    get_value_and_type (xs @ write_id s False v # t # ys) (length xs) s =
      Ok (if v < length (vvalues s)
          then (Some (vvalues s ! v), getType s (vvalues s ! v), length xs + 1, s)
          else case forward_reference (get_type s t) v s of (p, s') \<Rightarrow> (Some p, get_type s t, length xs + 2, s')) \<and>
    get_value_signed (write_signed_id s v) expected s =
      (if v < length (vvalues s) then (Some (vvalues s ! v), s)
       else case expected of None \<Rightarrow> (None, s)
         | Some t \<Rightarrow> case forward_reference (Some t) v s of (p, s') \<Rightarrow> (Some p, s'))"
proof (intro conjI)
  show 1: "absolute_id s force_absolute (write_id s force_absolute v) = v" for force_absolute
    using assms by (rule absolute_id_written)
  show "get_value_and_type (xs @ write_id s False v # t # ys) (length xs) s =
      Ok (if v < length (vvalues s)
          then (Some (vvalues s ! v), getType s (vvalues s ! v), length xs + 1, s)
          else case forward_reference (get_type s t) v s of (p, s') \<Rightarrow> (Some p, get_type s t, length xs + 2, s'))"
    using 1 [of False] by (auto simp: get_value_and_type_def nth_append split: prod.split)
  have v: "unat (word_of_nat v :: u64) = v"
    using assms by (simp add: unsigned_of_nat take_bit_nat_eq_self)
  have "(if use_relative_id s then word_of_nat (length (vvalues s)) - decode_sign_rotated_value (write_signed_id s v)
      else decode_sign_rotated_value (write_signed_id s v)) = word_of_nat v"
    by (simp add: write_signed_id_def sign_rotated)
  then show "get_value_signed (write_signed_id s v) expected s =
      (if v < length (vvalues s) then (Some (vvalues s ! v), s)
       else case expected of None \<Rightarrow> (None, s)
         | Some t \<Rightarrow> case forward_reference (Some t) v s of (p, s') \<Rightarrow> (Some p, s'))"
    unfolding get_value_signed_def Let_def by (simp only: v not_less [symmetric] if_not_P split: option.split) auto
qed

theorem value_id_roundtrip_witness:
  "(5 :: nat) < 2 ^ 32 \<and>
   write_id (initial_context\<lparr>vvalues := [5, 6, 7], use_relative_id := True\<rparr>) False 5 = 2 ^ 32 - 2 \<and>
   absolute_id (initial_context\<lparr>vvalues := [5, 6, 7], use_relative_id := True\<rparr>) False
     (write_id (initial_context\<lparr>vvalues := [5, 6, 7], use_relative_id := True\<rparr>) False 5) = 5 \<and>
   get_value_signed (write_signed_id (initial_context\<lparr>vvalues := [5, 6, 7], use_relative_id := True\<rparr>) 5) (Some 0)
     (initial_context\<lparr>vvalues := [5, 6, 7], use_relative_id := True\<rparr>) =
   (case forward_reference (Some 0) 5 (initial_context\<lparr>vvalues := [5, 6, 7], use_relative_id := True\<rparr>) of
      (p, s) \<Rightarrow> (Some p, s))"
  using value_id_roundtrip [of 5 "initial_context\<lparr>vvalues := [5, 6, 7], use_relative_id := True\<rparr>" False "[]" 0 "[]" "Some 0"]
  by (simp add: write_id_def)

section \<open>Attribute groups\<close>

text \<open>A string in a record: one operand per character, ended by a zero.\<close>

definition char_op :: "char \<Rightarrow> u64" where
  "char_op c = word_of_nat (of_char c)"

definition encode_attribute :: "string \<times> string \<Rightarrow> u64 list" where
  "encode_attribute = (\<lambda>(k, v). 4 # map char_op k @ 0 # map char_op v @ [0])"

definition no_nul :: "string \<Rightarrow> bool" where
  "no_nul str \<longleftrightarrow> (CHR 0x00) \<notin> set str"

lemma of_nat_of_char_lt: "(of_char c :: nat) < 256"
  using nat_of_char_less_256 [of c] by simp

lemma unat_char_op: "unat (char_op c) = of_char c"
proof -
  have "(of_char c :: nat) < 2 ^ 64" by (rule less_trans [OF of_nat_of_char_lt]) simp
  then show ?thesis by (simp add: char_op_def unsigned_of_nat take_bit_nat_eq_self)
qed

lemma char_op_eq_0: "char_op c = 0 \<longleftrightarrow> c = CHR 0x00"
  using unat_char_op [of c] of_char_eq_iff [of c "CHR 0x00", where ?'a = nat] by (simp flip: unat_eq_zero)

lemma read_cstring_encoded:
  "no_nul str \<Longrightarrow> read_cstring (xs @ map char_op str @ 0 # ys) (length xs) = Ok (str, length xs + length str)"
proof (induction str arbitrary: xs)
  case Nil
  then show ?case by (subst read_cstring.simps) simp
next
  case (Cons c str)
  have "read_cstring ((xs @ [char_op c]) @ map char_op str @ 0 # ys) (length (xs @ [char_op c])) =
      Ok (str, length (xs @ [char_op c]) + length str)"
    by (rule Cons.IH) (use Cons.prems in \<open>simp add: no_nul_def\<close>)
  then show ?case
    using Cons.prems
    by (subst read_cstring.simps) (auto simp: no_nul_def char_op_eq_0 unat_char_op nth_append)
qed

lemma read_cstring_unterminated:
  "no_nul str \<Longrightarrow> read_cstring (xs @ map char_op str) (length xs) = Fault Out_Of_Bounds"
proof (induction str arbitrary: xs)
  case Nil
  then show ?case by (subst read_cstring.simps) simp
next
  case (Cons c str)
  have "read_cstring ((xs @ [char_op c]) @ map char_op str) (length (xs @ [char_op c])) = Fault Out_Of_Bounds"
    by (rule Cons.IH) (use Cons.prems in \<open>simp add: no_nul_def\<close>)
  then show ?case
    using Cons.prems by (subst read_cstring.simps) (auto simp: no_nul_def char_op_eq_0 nth_append)
qed

lemma attribute_step_encoded:
  assumes "no_nul k" "no_nul v"
  shows "attribute_step (xs @ encode_attribute (k, v) @ ys) (length xs) =
    Ok (length (xs @ encode_attribute (k, v)), [(k, v)])"
proof -
  note 1 = read_cstring_encoded [OF assms(1), of "xs @ [4]" "map char_op v @ 0 # ys"]
  note 2 = read_cstring_encoded [OF assms(2), of "xs @ 4 # map char_op k @ [0]" ys]
  show ?thesis using 1 2 by (simp add: attribute_step_def encode_attribute_def nth_append add.assoc)
qed

lemma attribute_loop_encoded:
  assumes "\<forall>(k, v) \<in> set as. no_nul k \<and> no_nul v"
  shows "attribute_loop (xs @ concat (map encode_attribute as)) (length xs) =
    Ok (length (xs @ concat (map encode_attribute as)), as)"
  using assms
proof (induction as arbitrary: xs)
  case Nil
  then show ?case by (subst attribute_loop.simps) simp
next
  case (Cons a as)
  obtain k v where a: "a = (k, v)" by fastforce
  note step = attribute_step_encoded [of k v xs "concat (map encode_attribute as)"]
  have "attribute_loop ((xs @ encode_attribute a) @ concat (map encode_attribute as)) (length (xs @ encode_attribute a)) =
    Ok (length ((xs @ encode_attribute a) @ concat (map encode_attribute as)), as)"
    by (rule Cons.IH) (use Cons.prems in auto)
  moreover have "length xs < length (xs @ concat (map encode_attribute (a # as)))"
    by (simp add: a encode_attribute_def)
  ultimately show ?case using step Cons.prems a by (subst attribute_loop.simps) simp
qed

lemma attribute_loop_prefix:
  assumes "\<forall>(k, v) \<in> set as. no_nul k \<and> no_nul v"
    and "attribute_loop ((xs @ concat (map encode_attribute as)) @ ys) (length (xs @ concat (map encode_attribute as))) =
      Fault f"
  shows "attribute_loop (xs @ concat (map encode_attribute as) @ ys) (length xs) = Fault f"
  using assms
proof (induction as arbitrary: xs)
  case (Cons a as)
  obtain k v where a: "a = (k, v)" by fastforce
  note step = attribute_step_encoded [of k v xs "concat (map encode_attribute as) @ ys"]
  have "attribute_loop ((xs @ encode_attribute a) @ concat (map encode_attribute as) @ ys) (length (xs @ encode_attribute a)) = Fault f"
    by (rule Cons.IH) (use Cons.prems in auto)
  moreover have "length xs < length (xs @ concat (map encode_attribute (a # as)) @ ys)"
    by (simp add: a encode_attribute_def)
  ultimately show ?case using step Cons.prems(1) a by (subst attribute_loop.simps) simp
qed simp

lemma attribute_step_unterminated:
  assumes "no_nul str" and "no_nul key"
    and "tail_ops = 3 # map char_op str \<or> tail_ops = 4 # map char_op str \<or> tail_ops = 4 # map char_op key @ 0 # map char_op str"
  shows "attribute_step (xs @ tail_ops) (length xs) = Fault Out_Of_Bounds"
proof -
  note str = read_cstring_unterminated [OF assms(1)]
  have 3: "read_cstring (xs @ 3 # map char_op str) (Suc (length xs)) = Fault Out_Of_Bounds"
    using str [of "xs @ [3]"] by simp
  have 4: "read_cstring (xs @ 4 # map char_op str) (Suc (length xs)) = Fault Out_Of_Bounds"
    using str [of "xs @ [4]"] by simp
  have key: "read_cstring (xs @ 4 # map char_op key @ 0 # map char_op str) (Suc (length xs)) =
      Ok (key, Suc (length xs + length key))"
    using read_cstring_encoded [OF assms(2), of "xs @ [4]" "map char_op str"] by simp
  have v: "read_cstring (xs @ 4 # map char_op key @ 0 # map char_op str) (Suc (Suc (length xs + length key))) =
      Fault Out_Of_Bounds"
    using str [of "xs @ 4 # map char_op key @ [0]"] by (simp add: add.commute add.left_commute)
  show ?thesis using assms(3) 3 4 key v by (auto simp: attribute_step_def nth_append)
qed

lemma map_of_alist_set: "map_of (alist_set k v xs) = (map_of xs)(k \<mapsto> v)"
proof -
  have "map_of (filter (\<lambda>(j, _). j \<noteq> k) xs) j = map_of xs j" if "j \<noteq> k" for j
    using that by (induction xs) auto
  then show ?thesis by (auto simp: alist_set_def fun_eq_iff)
qed

definition attribute_group :: "nat \<Rightarrow> mpc \<Rightarrow> (string \<times> string) list" where
  "attribute_group g s = (case map_of (attribute_groups s) g of Some as \<Rightarrow> as | None \<Rightarrow> [])"

text \<open>
  C36. Attribute groups: from a record written for a list of string attributes the parser reads
  back exactly that list, appended to the group's earlier attributes; other groups stay.
\<close>

theorem attribute_group_roundtrip:
  assumes "as \<noteq> []" and "\<forall>(k, v) \<in> set as. no_nul k \<and> no_nul v"
  shows "\<exists>t. paramattr_group_entry
      (BlockOrRecord GroupCodeEntry False [] (g # 4294967295 # concat (map encode_attribute as))) s = Ok t \<and>
    attribute_group (unat g) t = attribute_group (unat g) s @ as \<and>
    (\<forall>h. h \<noteq> unat g \<longrightarrow> attribute_group h t = attribute_group h s)"
proof -
  let ?ops = "g # 4294967295 # concat (map encode_attribute as)"
  have loop: "attribute_loop ?ops 2 = Ok (length ?ops, as)"
    using attribute_loop_encoded [OF assms(2), of "[g, 4294967295]"] by (simp add: eval_nat_numeral)
  have short: "\<not> length ?ops < 3" using assms(1) by (cases as) (auto simp: encode_attribute_def split: prod.splits)
  obtain grp s1 where touch: "touch_group (unat g) s = (grp, s1)" by fastforce
  have "paramattr_group_entry (BlockOrRecord GroupCodeEntry False [] ?ops) s =
      Ok (s1\<lparr>attribute_groups := alist_set (unat g) (grp @ as) (attribute_groups s1)\<rparr>)"
    unfolding paramattr_group_entry_def BlockOrRecord.sel Let_def nth_Cons_0 touch
    using short loop by simp
  moreover have "grp = attribute_group (unat g) s" "\<forall>h. h \<noteq> unat g \<longrightarrow> attribute_group h s1 = attribute_group h s"
    using touch by (auto simp: touch_group_def attribute_group_def split: option.splits)
  ultimately show ?thesis by (auto simp: attribute_group_def map_of_alist_set)
qed

theorem attribute_group_roundtrip_witness:
  "\<exists>t. paramattr_group_entry
      (BlockOrRecord GroupCodeEntry False [] (1 # 4294967295 # concat (map encode_attribute [(''ab'', ''1'')]))) initial_context = Ok t \<and>
    attribute_group (unat 1) t = attribute_group (unat 1) initial_context @ [(''ab'', ''1'')] \<and>
    (\<forall>h. h \<noteq> unat 1 \<longrightarrow> attribute_group h t = attribute_group h initial_context)"
  using attribute_group_roundtrip [of "[(''ab'', ''1'')]" 1 initial_context] by (simp add: no_nul_def)

text \<open>
  C38. After any list of terminated string attributes, a string attribute that is not terminated
  inside its record makes the parser read past the end of the operand vector, be it the key that is
  not terminated or the value: the loops test the operand before they test the index.
\<close>

theorem attribute_string_overrun:
  assumes "\<forall>(k, v) \<in> set as. no_nul k \<and> no_nul v" and "no_nul str" and "no_nul key"
    and "tail_ops = 3 # map char_op str \<or> tail_ops = 4 # map char_op str \<or> tail_ops = 4 # map char_op key @ 0 # map char_op str"
  shows "paramattr_group_entry
      (BlockOrRecord GroupCodeEntry False [] (g # 4294967295 # concat (map encode_attribute as) @ tail_ops)) s =
    Fault Out_Of_Bounds"
proof -
  let ?pre = "[g, 4294967295] @ concat (map encode_attribute as)"
  have "attribute_step (?pre @ tail_ops) (length ?pre) = Fault Out_Of_Bounds"
    using assms(2-4) by (rule attribute_step_unterminated)
  then have "attribute_loop (?pre @ tail_ops) (length ?pre) = Fault Out_Of_Bounds"
    using assms(4) by (subst attribute_loop.simps) auto
  then have "attribute_loop (?pre @ tail_ops) 2 = Fault Out_Of_Bounds"
    using attribute_loop_prefix [OF assms(1), of "[g, 4294967295]" tail_ops] by (simp add: eval_nat_numeral)
  moreover have "\<not> length (?pre @ tail_ops) < 3" using assms(4) by auto
  ultimately show ?thesis by (simp add: paramattr_group_entry_def Let_def split: prod.split)
qed

theorem attribute_string_overrun_witness:
  "paramattr_group_entry
      (BlockOrRecord GroupCodeEntry False []
        (1 # 4294967295 # concat (map encode_attribute [(''a'', ''b'')]) @ 4 # map char_op ''fp'' @ 0 # map char_op ''x''))
      initial_context = Fault Out_Of_Bounds"
  by (rule attribute_string_overrun [where str = "''x''" and key = "''fp''"]) (simp_all add: no_nul_def)

end
