(* ===== verification/Cfg_Node.thy ===== *)
theory Cfg_Node
  imports Prelude
begin

text \<open>
  \<open>node.cpp\<close>, \<open>node.hpp\<close>, \<open>node_pool.cpp\<close> and the block part of \<open>ir.hpp\<close>: the nodes of the
  control flow graph and their operations. A \<open>CFGNode *\<close> is an index into the pool, which
  only grows; a pointer that may be null is an option. Loops that follow pointers take fuel
  from the size of the pool and end in \<open>Fault Out_Of_Fuel\<close> when the pointers form a cycle.
\<close>

section \<open>Blocks of the intermediate representation\<close>

type_synonym nref = nat

datatype MergeType = Merge_None | Merge_Loop | Merge_Selection

record MergeInfo =
  merge_type :: MergeType
  merge_block :: "nref option"
  continue_block :: "nref option"
  loop_control_mask :: u32
  selection_control_mask :: u32

record IncomingValue =
  incoming_block :: "nref option"
  incoming_id :: u32

record PHI =
  phi_id :: u32
  phi_type_id :: u32
  relaxed :: bool
  incoming :: "IncomingValue list"

datatype TerminatorType = Term_Unreachable | Term_Branch | Term_Condition | Term_Switch | Term_Return | Term_Kill

record Case =
  case_node :: "nref option"
  global_order :: u64
  case_value :: u32
  is_default :: bool

record Terminator =
  conditional_id :: u32
  term_type :: TerminatorType
  direct_block :: "nref option"
  true_block :: "nref option"
  false_block :: "nref option"
  cases :: "Case list"
  return_value :: u32
  force_unroll :: bool
  force_loop :: bool
  force_flatten :: bool
  force_branch :: bool

text \<open>An \<open>Operation *\<close> of a block is a number; the operations themselves are not looked into.\<close>

record IRBlock =
  phi :: "PHI list"
  operations :: "nat list"
  merge_info :: MergeInfo
  terminator :: Terminator

definition MergeInfo_new :: MergeInfo where
  "MergeInfo_new = \<lparr>merge_type = Merge_None, merge_block = None, continue_block = None,
     loop_control_mask = 0, selection_control_mask = 0\<rparr>"

definition Terminator_new :: Terminator where
  "Terminator_new = \<lparr>conditional_id = 0, term_type = Term_Unreachable, direct_block = None, true_block = None,
     false_block = None, cases = [], return_value = 0, force_unroll = False, force_loop = False,
     force_flatten = False, force_branch = False\<rparr>"

definition IRBlock_new :: IRBlock where
  "IRBlock_new = \<lparr>phi = [], operations = [], merge_info = MergeInfo_new, terminator = Terminator_new\<rparr>"

section \<open>Nodes and the pool\<close>

text \<open>
  The two post-visit orders are \<open>uint32_t\<close>, here natural numbers below \<open>2 ^ 32\<close>: they are only
  assigned (through \<open>u32_of\<close>) and compared.
\<close>

record CFGNode =
  node_name :: string
  node_id :: u32
  ir :: IRBlock
  forward_order :: nat
  backward_order :: nat
  visited :: bool
  backward_visited :: bool
  traversing :: bool
  freeze_structured_analysis :: bool
  is_pseudo_back_edge :: bool
  merge :: MergeType
  loop_merge_block :: "nref option"
  loop_ladder_block :: "nref option"
  selection_merge_block :: "nref option"
  headers :: "nref list"
  immediate_dominator :: "nref option"
  immediate_post_dominator :: "nref option"
  succ :: "nref list"
  pred :: "nref list"
  fake_succ :: "nref list"
  fake_pred :: "nref list"
  pred_back_edge :: "nref option"
  succ_back_edge :: "nref option"
  dominance_frontier :: "nref list"
  post_dominance_frontier :: "nref list"

definition CFGNode_new :: CFGNode where
  "CFGNode_new = \<lparr>node_name = [], node_id = 0, ir = IRBlock_new, forward_order = 0, backward_order = 0,
     visited = False, backward_visited = False, traversing = False, freeze_structured_analysis = False,
     is_pseudo_back_edge = False, merge = Merge_None, loop_merge_block = None, loop_ladder_block = None,
     selection_merge_block = None, headers = [], immediate_dominator = None, immediate_post_dominator = None,
     succ = [], pred = [], fake_succ = [], fake_pred = [], pred_back_edge = None, succ_back_edge = None,
     dominance_frontier = [], post_dominance_frontier = []\<rparr>"

record CFGNodePool =
  nodes :: "CFGNode list"

definition node_at :: "'a CFGNodePool_scheme \<Rightarrow> nref \<Rightarrow> CFGNode" where
  "node_at p n = (if n < length (nodes p) then nodes p ! n else CFGNode_new)"

definition update_node :: "nref \<Rightarrow> (CFGNode \<Rightarrow> CFGNode) \<Rightarrow> 'a CFGNodePool_scheme \<Rightarrow> 'a CFGNodePool_scheme" where
  "update_node n f p = p\<lparr>nodes := (nodes p)[n := f (node_at p n)]\<rparr>"

definition create_node :: "'a CFGNodePool_scheme \<Rightarrow> nref \<times> 'a CFGNodePool_scheme" where
  "create_node p = (length (nodes p), p\<lparr>nodes := nodes p @ [CFGNode_new]\<rparr>)"

definition for_each_node :: "(CFGNode \<Rightarrow> CFGNode) \<Rightarrow> 'a CFGNodePool_scheme \<Rightarrow> 'a CFGNodePool_scheme" where
  "for_each_node f p = p\<lparr>nodes := map f (nodes p)\<rparr>"

text \<open>Following pointers can make at most as many different stops as there are nodes.\<close>

definition walk_fuel :: "'a CFGNodePool_scheme \<Rightarrow> nat" where
  "walk_fuel p = length (nodes p) + 1"

section \<open>Edges\<close>

definition add_unique_pred :: "nref \<Rightarrow> nref \<Rightarrow> 'a CFGNodePool_scheme \<Rightarrow> 'a CFGNodePool_scheme" where
  "add_unique_pred this n = update_node this (\<lambda>x. x\<lparr>pred := push_unique (pred x) n\<rparr>)"

definition add_unique_fake_pred :: "nref \<Rightarrow> nref \<Rightarrow> 'a CFGNodePool_scheme \<Rightarrow> 'a CFGNodePool_scheme" where
  "add_unique_fake_pred this n = update_node this (\<lambda>x. x\<lparr>fake_pred := push_unique (fake_pred x) n\<rparr>)"

definition add_unique_header :: "nref \<Rightarrow> nref \<Rightarrow> 'a CFGNodePool_scheme \<Rightarrow> 'a CFGNodePool_scheme" where
  "add_unique_header this n = update_node this (\<lambda>x. x\<lparr>headers := push_unique (headers x) n\<rparr>)"

definition add_unique_succ :: "nref \<Rightarrow> nref \<Rightarrow> 'a CFGNodePool_scheme \<Rightarrow> 'a CFGNodePool_scheme res" where
  "add_unique_succ this n p =
     (if n \<in> set (fake_succ (node_at p this)) then Fault Assertion_Failed
      else Ok (update_node this (\<lambda>x. x\<lparr>succ := push_unique (succ x) n\<rparr>) p))"

definition add_unique_fake_succ :: "nref \<Rightarrow> nref \<Rightarrow> 'a CFGNodePool_scheme \<Rightarrow> 'a CFGNodePool_scheme" where
  "add_unique_fake_succ this n = update_node this (\<lambda>x. x\<lparr>fake_succ := push_unique (fake_succ x) n\<rparr>)"

definition add_branch :: "nref \<Rightarrow> nref \<Rightarrow> 'a CFGNodePool_scheme \<Rightarrow> 'a CFGNodePool_scheme res" where
  "add_branch this to p = bind_res (add_unique_succ this to p) (\<lambda>p. Ok (add_unique_pred to this p))"

definition add_fake_branch :: "nref \<Rightarrow> nref \<Rightarrow> 'a CFGNodePool_scheme \<Rightarrow> 'a CFGNodePool_scheme" where
  "add_fake_branch this to p =
     (if to \<in> set (succ (node_at p this)) then p
      else add_unique_fake_pred to this (add_unique_fake_succ this to p))"

definition remove_pred :: "nref \<Rightarrow> nref \<Rightarrow> 'a CFGNodePool_scheme \<Rightarrow> 'a CFGNodePool_scheme" where
  "remove_pred this s = update_node s (\<lambda>x. x\<lparr>pred := remove1 this (pred x)\<rparr>)"

definition clear_branches :: "nref \<Rightarrow> 'a CFGNodePool_scheme \<Rightarrow> 'a CFGNodePool_scheme" where
  "clear_branches this p =
     update_node this (\<lambda>x. x\<lparr>succ := []\<rparr>) (fold (remove_pred this) (succ (node_at p this)) p)"

section \<open>Dominance queries\<close>

text \<open>The walk up the dominator (or post dominator) links: it stops at the target, at a null link or at a self link.\<close>

fun climb :: "nat \<Rightarrow> (nref \<Rightarrow> nref option) \<Rightarrow> nref \<Rightarrow> nref \<Rightarrow> nref res" where
  "climb 0 up this other = Fault Out_Of_Fuel"
| "climb (Suc k) up this other =
     (if this = other then Ok other
      else case up other of
        None \<Rightarrow> Ok other
      | Some d \<Rightarrow> if d = other then Ok other else climb k up this d)"

definition idom :: "'a CFGNodePool_scheme \<Rightarrow> nref \<Rightarrow> nref option" where
  "idom p n = immediate_dominator (node_at p n)"

definition ipdom :: "'a CFGNodePool_scheme \<Rightarrow> nref \<Rightarrow> nref option" where
  "ipdom p n = immediate_post_dominator (node_at p n)"

definition dominates :: "'a CFGNodePool_scheme \<Rightarrow> nref \<Rightarrow> nref \<Rightarrow> bool res" where
  "dominates p this other = bind_res (climb (walk_fuel p) (idom p) this other) (\<lambda>o'. Ok (this = o'))"

definition post_dominates :: "'a CFGNodePool_scheme \<Rightarrow> nref \<Rightarrow> nref \<Rightarrow> bool res" where
  "post_dominates p this start_node =
     bind_res (climb (walk_fuel p) (ipdom p) this start_node) (\<lambda>o'. Ok (this = o'))"

text \<open>A loop that returns at the first element for which the test holds.\<close>

fun any_res :: "('a \<Rightarrow> bool res) \<Rightarrow> 'a list \<Rightarrow> bool res" where
  "any_res f [] = Ok False"
| "any_res f (x # xs) = bind_res (f x) (\<lambda>b. if b then Ok True else any_res f xs)"

definition reaches_domination_frontier_before_merge :: "'a CFGNodePool_scheme \<Rightarrow> nref \<Rightarrow> nref \<Rightarrow> bool res" where
  "reaches_domination_frontier_before_merge p this m =
     any_res (\<lambda>frontier. if m \<noteq> frontier then post_dominates p m frontier else Ok False)
       (dominance_frontier (node_at p this))"

fun outer_continue_loop :: "nat \<Rightarrow> 'a CFGNodePool_scheme \<Rightarrow> nref \<Rightarrow> nref option \<Rightarrow> bool res" where
  "outer_continue_loop 0 p this h = Fault Out_Of_Fuel"
| "outer_continue_loop (Suc k) p this h =
     (case h of
        None \<Rightarrow> Ok False
      | Some h \<Rightarrow>
          bind_res
            (case pred_back_edge (node_at p h) of
               None \<Rightarrow> Ok False
             | Some c \<Rightarrow> dominates p this c) (\<lambda>b.
          if b then Ok True
          else if pred (node_at p h) = [] then Ok False
          else outer_continue_loop k p this (idom p h)))"

definition dominates_outer_continue :: "'a CFGNodePool_scheme \<Rightarrow> nref \<Rightarrow> nref \<Rightarrow> bool res" where
  "dominates_outer_continue p this loop_header =
     (if pred (node_at p loop_header) = [] then Ok False
      else outer_continue_loop (walk_fuel p + 1) p this (idom p loop_header))"

definition can_loop_merge_to :: "'a CFGNodePool_scheme \<Rightarrow> nref \<Rightarrow> nref \<Rightarrow> bool res" where
  "can_loop_merge_to p this other =
     bind_res (dominates p this other) (\<lambda>d.
     if \<not> d then Ok False
     else Ok (case pred_back_edge (node_at p this) of
         None \<Rightarrow> True
       | Some c \<Rightarrow>
           let cs = succ (node_at p c); fs = fake_succ (node_at p c)
           in if cs \<noteq> [] \<and> other \<notin> set cs then False
              else if cs = [] \<and> length fs = 1 \<and> hd fs \<noteq> other then False
              else True))"

definition post_dominates_perfect_structured_construct :: "'a CFGNodePool_scheme \<Rightarrow> nref \<Rightarrow> bool res" where
  "post_dominates_perfect_structured_construct p this =
     bind_res (deref (idom p this)) (\<lambda>d.
     bind_res (post_dominates p this d) (\<lambda>b.
     if \<not> b then Ok False
     else bind_res (any_res (\<lambda>q. bind_res (post_dominates p this q) (\<lambda>b. Ok (\<not> b))) (pred (node_at p this)))
            (\<lambda>bad. Ok (\<not> bad))))"

section \<open>Searches over the graph\<close>

text \<open>
  The recursive searches of \<open>CFGNode\<close> share one shape: a node in the cache answers no; a new
  node enters the cache, may answer by itself (\<open>check\<close>), and else asks its neighbours, each of
  which can count as found at once (\<open>hit\<close>) before it is searched. The fuel bounds the depth.
\<close>

fun search :: "nat \<Rightarrow> (nref \<Rightarrow> bool option res) \<Rightarrow> (nref \<Rightarrow> bool res) \<Rightarrow> (nref \<Rightarrow> nref list) \<Rightarrow>
    nref \<Rightarrow> nref set \<Rightarrow> (bool \<times> nref set) res"
  and search_list :: "nat \<Rightarrow> (nref \<Rightarrow> bool option res) \<Rightarrow> (nref \<Rightarrow> bool res) \<Rightarrow> (nref \<Rightarrow> nref list) \<Rightarrow>
    nref list \<Rightarrow> nref set \<Rightarrow> (bool \<times> nref set) res" where
  "search 0 check hit adj n cache = Fault Out_Of_Fuel"
| "search (Suc k) check hit adj n cache =
     (if n \<in> cache then Ok (False, cache)
      else bind_res (check n) (\<lambda>c.
        case c of
          Some b \<Rightarrow> Ok (b, insert n cache)
        | None \<Rightarrow> search_list k check hit adj (adj n) (insert n cache)))"
| "search_list k check hit adj [] cache = Ok (False, cache)"
| "search_list k check hit adj (x # xs) cache =
     bind_res (hit x) (\<lambda>h.
     if h then Ok (True, cache)
     else bind_res (search k check hit adj x cache) (\<lambda>(r, cache).
       if r then Ok (True, cache) else search_list k check hit adj xs cache))"

definition backtrace_search :: "'a CFGNodePool_scheme \<Rightarrow> nref \<Rightarrow> nref \<Rightarrow> nref set \<Rightarrow> (bool \<times> nref set) res" where
  "backtrace_search p this parent =
     search (walk_fuel p) (\<lambda>_. Ok None) (\<lambda>q. Ok (q = parent)) (\<lambda>n. pred (node_at p n)) this"

definition can_backtrace_to :: "'a CFGNodePool_scheme \<Rightarrow> nref \<Rightarrow> nref \<Rightarrow> bool res" where
  "can_backtrace_to p this parent =
     (if forward_order (node_at p parent) < forward_order (node_at p this) then Ok False
      else bind_res (backtrace_search p this parent {}) (\<lambda>(r, _). Ok r))"

definition backtrace_search_with_blockers ::
  "'a CFGNodePool_scheme \<Rightarrow> nref \<Rightarrow> nref \<Rightarrow> nref list \<Rightarrow> nref set \<Rightarrow> (bool \<times> nref set) res" where
  "backtrace_search_with_blockers p this parent block_nodes =
     search (walk_fuel p) (\<lambda>n. Ok (if n \<in> set block_nodes then Some False else None))
       (\<lambda>q. Ok (q = parent)) (\<lambda>n. pred (node_at p n)) this"

definition can_backtrace_to_with_blockers :: "'a CFGNodePool_scheme \<Rightarrow> nref \<Rightarrow> nref \<Rightarrow> nref list \<Rightarrow> bool res" where
  "can_backtrace_to_with_blockers p this parent block_nodes =
     (if forward_order (node_at p parent) < forward_order (node_at p this) then Ok False
      else bind_res (backtrace_search_with_blockers p this parent block_nodes {}) (\<lambda>(r, _). Ok r))"

definition has_work :: "CFGNode \<Rightarrow> bool" where
  "has_work x \<longleftrightarrow> operations (ir x) \<noteq> [] \<or> phi (ir x) \<noteq> []"

definition post_dominates_any_work_search ::
  "'a CFGNodePool_scheme \<Rightarrow> nref \<Rightarrow> nref \<Rightarrow> nref set \<Rightarrow> (bool \<times> nref set) res" where
  "post_dominates_any_work_search p this =
     search (walk_fuel p)
       (\<lambda>n. if has_work (node_at p n) then bind_res (post_dominates p this n) (\<lambda>b. Ok (Some b)) else Ok None)
       (\<lambda>_. Ok False) (\<lambda>n. pred (node_at p n))"

fun trivial_backtrace :: "nat \<Rightarrow> 'a CFGNodePool_scheme \<Rightarrow> nref \<Rightarrow> nref res" where
  "trivial_backtrace 0 p n = Fault Out_Of_Fuel"
| "trivial_backtrace (Suc k) p n =
     (case pred (node_at p n) of
        [q] \<Rightarrow>
          if has_work (node_at p n) then Ok n
          else bind_res (post_dominates p n q) (\<lambda>b. if b then trivial_backtrace k p q else Ok n)
      | _ \<Rightarrow> Ok n)"

fun count_work_preds :: "'a CFGNodePool_scheme \<Rightarrow> nref \<Rightarrow> nref list \<Rightarrow> nref set \<Rightarrow> nat res" where
  "count_work_preds p n [] cache = Ok 0"
| "count_work_preds p n (q # qs) cache =
     bind_res (post_dominates_any_work_search p n q cache) (\<lambda>(r, cache).
     bind_res (count_work_preds p n qs cache) (\<lambda>c. Ok (if r then c + 1 else c)))"

definition count_post_dominates_work_from_incoming_preds :: "'a CFGNodePool_scheme \<Rightarrow> nref \<Rightarrow> nat res" where
  "count_post_dominates_work_from_incoming_preds p this =
     bind_res (trivial_backtrace (walk_fuel p) p this) (\<lambda>start_node.
     if has_work (node_at p start_node) then Ok 1
     else count_work_preds p start_node (pred (node_at p start_node)) {})"

definition post_dominates_any_work :: "'a CFGNodePool_scheme \<Rightarrow> nref \<Rightarrow> bool res" where
  "post_dominates_any_work p this =
     bind_res (count_post_dominates_work_from_incoming_preds p this) (\<lambda>c. Ok (c \<noteq> 0))"

text \<open>The search for a counterexample: an exit the header does not dominate.\<close>

definition dominates_all_reachable_exits_search ::
  "'a CFGNodePool_scheme \<Rightarrow> nref \<Rightarrow> nref \<Rightarrow> nref set \<Rightarrow> (bool \<times> nref set) res" where
  "dominates_all_reachable_exits_search p header =
     search (walk_fuel p)
       (\<lambda>n. case succ_back_edge (node_at p n) of
          None \<Rightarrow> Ok None
        | Some b \<Rightarrow> bind_res (dominates p header b) (\<lambda>d. Ok (if d then None else Some True)))
       (\<lambda>x. bind_res (dominates p header x) (\<lambda>d. Ok (\<not> d))) (\<lambda>n. succ (node_at p n))"

definition dominates_all_reachable_exits :: "'a CFGNodePool_scheme \<Rightarrow> nref \<Rightarrow> bool res" where
  "dominates_all_reachable_exits p this =
     bind_res (dominates_all_reachable_exits_search p this this {}) (\<lambda>(bad, _). Ok (\<not> bad))"

definition reaches_backward_visited_node :: "'a CFGNodePool_scheme \<Rightarrow> nref \<Rightarrow> bool res" where
  "reaches_backward_visited_node p this =
     bind_res (search (walk_fuel p) (\<lambda>n. Ok (if backward_visited (node_at p n) then Some True else None))
       (\<lambda>_. Ok False) (\<lambda>n. succ (node_at p n) @ fake_succ (node_at p n)) this {}) (\<lambda>(r, _). Ok r)"

section \<open>Common dominators\<close>

text \<open>
  \<open>find_common_dominator\<close> and \<open>recompute_immediate_dominator\<close> call each other: the loop takes the
  recomputation as an argument, and the recomputation is a function of the nesting depth.
\<close>

definition ensure_idom ::
  "(nref \<Rightarrow> 'a CFGNodePool_scheme \<Rightarrow> 'a CFGNodePool_scheme res) \<Rightarrow> nref \<Rightarrow> 'a CFGNodePool_scheme \<Rightarrow> 'a CFGNodePool_scheme res" where
  "ensure_idom recompute a p =
     (if idom p a = None then bind_res (fold_res recompute (pred (node_at p a)) p) (recompute a) else Ok p)"

fun common_dominator_loop ::
  "(nref \<Rightarrow> 'a CFGNodePool_scheme \<Rightarrow> 'a CFGNodePool_scheme res) \<Rightarrow> nat \<Rightarrow> nref \<Rightarrow> nref \<Rightarrow> 'a CFGNodePool_scheme \<Rightarrow>
   (nref \<times> 'a CFGNodePool_scheme) res" where
  "common_dominator_loop recompute 0 a b p = Fault Out_Of_Fuel"
| "common_dominator_loop recompute (Suc k) a b p =
     (if a = b then Ok (a, p)
      else
        bind_res (ensure_idom recompute a p) (\<lambda>p.
        bind_res (ensure_idom recompute b p) (\<lambda>p.
        let oa = forward_order (node_at p a); ob = forward_order (node_at p b) in
        if oa = ob then
          bind_res (dominates p b a) (\<lambda>ba.
          if ba then Ok (b, p)
          else bind_res (dominates p a b) (\<lambda>ab.
          if ab then Ok (a, p)
          else case idom p a of None \<Rightarrow> Fault Assertion_Failed | Some da \<Rightarrow>
          case idom p b of None \<Rightarrow> Fault Assertion_Failed | Some db \<Rightarrow>
          if a = da then Ok (b, p)
          else if b = db then Ok (a, p)
          else common_dominator_loop recompute k da db p))
        else if oa < ob then
          bind_res (deref (idom p a)) (\<lambda>da.
          if a = da then Ok (b, p) else common_dominator_loop recompute k da b p)
        else
          bind_res (deref (idom p b)) (\<lambda>db.
          if b = db then Ok (a, p) else common_dominator_loop recompute k a db p))))"

definition set_idom :: "nref \<Rightarrow> nref option \<Rightarrow> 'a CFGNodePool_scheme \<Rightarrow> 'a CFGNodePool_scheme" where
  "set_idom n d = update_node n (\<lambda>x. x\<lparr>immediate_dominator := d\<rparr>)"

definition meet_fuel :: "'a CFGNodePool_scheme \<Rightarrow> nat" where
  "meet_fuel p = 2 * length (nodes p) + 2"

definition meet_edge ::
  "(nref \<Rightarrow> 'a CFGNodePool_scheme \<Rightarrow> 'a CFGNodePool_scheme res) \<Rightarrow> nref \<Rightarrow> nref \<Rightarrow> 'a CFGNodePool_scheme \<Rightarrow>
   'a CFGNodePool_scheme res" where
  "meet_edge recompute this edge p =
     (case idom p this of
        None \<Rightarrow> Ok (set_idom this (Some edge) p)
      | Some d \<Rightarrow>
          bind_res (common_dominator_loop recompute (meet_fuel p) d edge p) (\<lambda>(d, p).
          Ok (set_idom this (Some d) p)))"

fun recompute_idom_at :: "nat \<Rightarrow> nref \<Rightarrow> 'a CFGNodePool_scheme \<Rightarrow> 'a CFGNodePool_scheme res" where
  "recompute_idom_at 0 this p = Fault Out_Of_Fuel"
| "recompute_idom_at (Suc k) this p =
     (if pred (node_at p this) = [] then Ok (set_idom this (Some this) p)
      else fold_res (meet_edge (recompute_idom_at k) this) (pred (node_at p this)) (set_idom this None p))"

definition recompute_immediate_dominator :: "nref \<Rightarrow> 'a CFGNodePool_scheme \<Rightarrow> 'a CFGNodePool_scheme res" where
  "recompute_immediate_dominator this p = recompute_idom_at (walk_fuel p) this p"

definition find_common_dominator ::
  "nref \<Rightarrow> nref \<Rightarrow> 'a CFGNodePool_scheme \<Rightarrow> (nref \<times> 'a CFGNodePool_scheme) res" where
  "find_common_dominator a b p = common_dominator_loop (recompute_idom_at (walk_fuel p)) (meet_fuel p) a b p"

section \<open>Common post dominators\<close>

definition ensure_ipdom ::
  "(nref \<Rightarrow> 'a CFGNodePool_scheme \<Rightarrow> 'a CFGNodePool_scheme res) \<Rightarrow> nref \<Rightarrow> 'a CFGNodePool_scheme \<Rightarrow> 'a CFGNodePool_scheme res" where
  "ensure_ipdom recompute a p =
     (if ipdom p a = None then bind_res (fold_res recompute (succ (node_at p a)) p) (recompute a) else Ok p)"

fun common_post_dominator_loop ::
  "(nref \<Rightarrow> 'a CFGNodePool_scheme \<Rightarrow> 'a CFGNodePool_scheme res) \<Rightarrow> nat \<Rightarrow> nref \<Rightarrow> nref \<Rightarrow> 'a CFGNodePool_scheme \<Rightarrow>
   (nref \<times> 'a CFGNodePool_scheme) res" where
  "common_post_dominator_loop recompute 0 a b p = Fault Out_Of_Fuel"
| "common_post_dominator_loop recompute (Suc k) a b p =
     (if a = b then Ok (a, p)
      else
        bind_res (ensure_ipdom recompute a p) (\<lambda>p.
        bind_res (ensure_ipdom recompute b p) (\<lambda>p.
        let oa = backward_order (node_at p a); ob = backward_order (node_at p b) in
        if oa = ob then
          bind_res (post_dominates p b a) (\<lambda>ba.
          if ba then Ok (b, p)
          else bind_res (post_dominates p a b) (\<lambda>ab.
          if ab then Ok (a, p)
          else case ipdom p a of None \<Rightarrow> Fault Assertion_Failed | Some da \<Rightarrow>
          case ipdom p b of None \<Rightarrow> Fault Assertion_Failed | Some db \<Rightarrow>
          common_post_dominator_loop recompute k da db p))
        else if oa < ob then
          (case ipdom p a of None \<Rightarrow> Fault Assertion_Failed
           | Some da \<Rightarrow> common_post_dominator_loop recompute k da b p)
        else
          (case ipdom p b of None \<Rightarrow> Fault Assertion_Failed
           | Some db \<Rightarrow> common_post_dominator_loop recompute k a db p))))"

definition set_ipdom :: "nref \<Rightarrow> nref option \<Rightarrow> 'a CFGNodePool_scheme \<Rightarrow> 'a CFGNodePool_scheme" where
  "set_ipdom n d = update_node n (\<lambda>x. x\<lparr>immediate_post_dominator := d\<rparr>)"

definition post_meet_edge ::
  "(nref \<Rightarrow> 'a CFGNodePool_scheme \<Rightarrow> 'a CFGNodePool_scheme res) \<Rightarrow> nref \<Rightarrow> nref \<Rightarrow> 'a CFGNodePool_scheme \<Rightarrow>
   'a CFGNodePool_scheme res" where
  "post_meet_edge recompute this edge p =
     (case ipdom p this of
        None \<Rightarrow> Ok (set_ipdom this (Some edge) p)
      | Some d \<Rightarrow>
          bind_res (common_post_dominator_loop recompute (meet_fuel p) d edge p) (\<lambda>(d, p).
          Ok (set_ipdom this (Some d) p)))"

fun recompute_ipdom_at :: "nat \<Rightarrow> nref \<Rightarrow> 'a CFGNodePool_scheme \<Rightarrow> 'a CFGNodePool_scheme res" where
  "recompute_ipdom_at 0 this p = Fault Out_Of_Fuel"
| "recompute_ipdom_at (Suc k) this p =
     (if succ (node_at p this) = [] \<and> fake_succ (node_at p this) = [] then Ok p
      else
        bind_res (fold_res (post_meet_edge (recompute_ipdom_at k) this) (succ (node_at p this)) (set_ipdom this None p))
          (fold_res (post_meet_edge (recompute_ipdom_at k) this) (fake_succ (node_at p this))))"

definition recompute_immediate_post_dominator :: "nref \<Rightarrow> 'a CFGNodePool_scheme \<Rightarrow> 'a CFGNodePool_scheme res" where
  "recompute_immediate_post_dominator this p = recompute_ipdom_at (walk_fuel p) this p"

definition find_common_post_dominator ::
  "nref \<Rightarrow> nref \<Rightarrow> 'a CFGNodePool_scheme \<Rightarrow> (nref \<times> 'a CFGNodePool_scheme) res" where
  "find_common_post_dominator a b p = common_post_dominator_loop (recompute_ipdom_at (walk_fuel p)) (meet_fuel p) a b p"

section \<open>Enclosing constructs\<close>

fun loop_header_walk :: "nat \<Rightarrow> 'a CFGNodePool_scheme \<Rightarrow> nref \<Rightarrow> nref option res" where
  "loop_header_walk 0 p n = Fault Out_Of_Fuel"
| "loop_header_walk (Suc k) p n =
     (if pred_back_edge (node_at p n) \<noteq> None then Ok (Some n)
      else if pred (node_at p n) = [] then Ok None
      else case idom p n of None \<Rightarrow> Fault Assertion_Failed | Some d \<Rightarrow> loop_header_walk k p d)"

definition get_immediate_dominator_loop_header :: "'a CFGNodePool_scheme \<Rightarrow> nref \<Rightarrow> nref option res" where
  "get_immediate_dominator_loop_header p this =
     (if idom p this = None then Fault Assertion_Failed else loop_header_walk (walk_fuel p) p this)"

fun skip_headers :: "nat \<Rightarrow> 'a CFGNodePool_scheme \<Rightarrow> nref \<Rightarrow> nref res" where
  "skip_headers 0 p n = Fault Out_Of_Fuel"
| "skip_headers (Suc k) p n =
     (case idom p n of
        Some d \<Rightarrow> if d \<in> set (headers (node_at p n)) then skip_headers k p d else Ok n
      | None \<Rightarrow> Ok n)"

fun outer_selection_loop :: "nat \<Rightarrow> 'a CFGNodePool_scheme \<Rightarrow> nref \<Rightarrow> nref \<Rightarrow> nref res" where
  "outer_selection_loop 0 p this n = Fault Out_Of_Fuel"
| "outer_selection_loop (Suc k) p this n =
     (if term_type (terminator (ir (node_at p n))) = Term_Switch then Ok n
      else bind_res (post_dominates p this n) (\<lambda>b.
      if \<not> b then Ok n
      else if pred (node_at p n) = [] then Ok n
      else bind_res (skip_headers (walk_fuel p) p n) (\<lambda>n.
      bind_res (post_dominates p this n) (\<lambda>b.
      if b then case idom p n of None \<Rightarrow> Fault Assertion_Failed | Some d \<Rightarrow> outer_selection_loop k p this d
      else outer_selection_loop k p this n))))"

definition get_outer_selection_dominator :: "'a CFGNodePool_scheme \<Rightarrow> nref \<Rightarrow> nref res" where
  "get_outer_selection_dominator p this =
     (case idom p this of None \<Rightarrow> Fault Assertion_Failed
      | Some d \<Rightarrow> outer_selection_loop (walk_fuel p + 1) p this d)"

fun outer_header_loop :: "nat \<Rightarrow> 'a CFGNodePool_scheme \<Rightarrow> nref \<Rightarrow> nref res" where
  "outer_header_loop 0 p n = Fault Out_Of_Fuel"
| "outer_header_loop (Suc k) p n =
     (if length (succ (node_at p n)) = 1 \<and> term_type (terminator (ir (node_at p n))) \<noteq> Term_Switch \<and>
         pred_back_edge (node_at p n) = None
      then if pred (node_at p n) = [] then Ok n
           else case idom p n of None \<Rightarrow> Fault Assertion_Failed | Some d \<Rightarrow> outer_header_loop k p d
      else Ok n)"

definition get_outer_header_dominator :: "'a CFGNodePool_scheme \<Rightarrow> nref \<Rightarrow> nref res" where
  "get_outer_header_dominator p this =
     (case idom p this of None \<Rightarrow> Fault Assertion_Failed | Some d \<Rightarrow> outer_header_loop (walk_fuel p) p d)"

definition block_is_jump_thread_ladder :: "CFGNode \<Rightarrow> bool" where
  "block_is_jump_thread_ladder x =
     (if operations (ir x) \<noteq> [] \<or> term_type (terminator (ir x)) \<noteq> Term_Condition \<or> length (phi (ir x)) \<noteq> 1 then False
      else conditional_id (terminator (ir x)) = phi_id (hd (phi (ir x))))"

section \<open>Rewriting branches\<close>

definition retarget_block :: "nref \<Rightarrow> nref \<Rightarrow> nref option \<Rightarrow> nref option" where
  "retarget_block to_prev to_next b = (if b = Some to_prev then Some to_next else b)"

definition retarget_terminator :: "nref \<Rightarrow> nref \<Rightarrow> Terminator \<Rightarrow> Terminator" where
  "retarget_terminator to_prev to_next t =
     t\<lparr>direct_block := retarget_block to_prev to_next (direct_block t),
       true_block := retarget_block to_prev to_next (true_block t),
       false_block := retarget_block to_prev to_next (false_block t),
       cases := map (\<lambda>c. c\<lparr>case_node := retarget_block to_prev to_next (case_node c)\<rparr>) (cases t)\<rparr>"

definition retarget_branch_pre_traversal ::
  "nref \<Rightarrow> nref \<Rightarrow> nref \<Rightarrow> 'a CFGNodePool_scheme \<Rightarrow> 'a CFGNodePool_scheme res" where
  "retarget_branch_pre_traversal this to_prev to_next p =
     (if to_prev \<notin> set (succ (node_at p this)) \<or> this \<notin> set (pred (node_at p to_prev)) \<or>
         to_next \<in> set (succ (node_at p this)) \<or> this \<in> set (pred (node_at p to_next))
      then Fault Assertion_Failed
      else
        let p = remove_pred this to_prev p;
            p = update_node this (\<lambda>x. x\<lparr>succ := replace1 to_prev to_next (succ x)\<rparr>) p;
            p = (if pred (node_at p to_prev) = [] \<and> pred_back_edge (node_at p to_prev) = None \<and>
                    to_prev \<in> set (pred (node_at p to_next))
                 then update_node to_next (\<lambda>x. x\<lparr>pred := replace1 to_prev this (pred x)\<rparr>) p
                 else add_unique_pred to_next this p)
        in Ok (update_node this (\<lambda>x. x\<lparr>ir := (ir x)\<lparr>terminator := retarget_terminator to_prev to_next (terminator (ir x))\<rparr>\<rparr>) p))"

definition retarget_branch :: "nref \<Rightarrow> nref \<Rightarrow> nref \<Rightarrow> 'a CFGNodePool_scheme \<Rightarrow> 'a CFGNodePool_scheme res" where
  "retarget_branch this to_prev to_next p =
     bind_res (retarget_branch_pre_traversal this to_prev to_next p) (\<lambda>p.
     bind_res
       (if forward_order (node_at p to_prev) > forward_order (node_at p to_next)
        then bind_res (recompute_immediate_dominator to_prev p) (recompute_immediate_dominator to_next)
        else bind_res (recompute_immediate_dominator to_next p) (recompute_immediate_dominator to_prev))
       (recompute_immediate_post_dominator this))"

definition set_branch_to :: "nref \<Rightarrow> CFGNode \<Rightarrow> CFGNode" where
  "set_branch_to t x =
     x\<lparr>ir := (ir x)\<lparr>terminator := (terminator (ir x))\<lparr>term_type := Term_Branch, direct_block := Some t\<rparr>\<rparr>\<rparr>"

definition rewrite_branch_through_intermediate_node ::
  "nref \<Rightarrow> nref \<Rightarrow> nref \<Rightarrow> 'a CFGNodePool_scheme \<Rightarrow> (nref \<times> 'a CFGNodePool_scheme) res" where
  "rewrite_branch_through_intermediate_node this to_prev to_next p =
     (if to_next \<notin> set (succ (node_at p this)) then Fault Assertion_Failed
      else
        case create_node p of (intermediate, p) \<Rightarrow>
        let name = node_name (node_at p this) @ ''.intermediate.'' @ node_name (node_at p to_next);
            p = update_node intermediate (\<lambda>x. set_branch_to to_next (x\<lparr>node_name := name\<rparr>)) p
        in
        bind_res (add_branch intermediate to_next p) (\<lambda>p.
        let p = update_node intermediate (\<lambda>x. x\<lparr>immediate_post_dominator := Some to_next,
                  immediate_dominator := Some this, forward_order := forward_order (node_at p this),
                  backward_order := backward_order (node_at p this)\<rparr>) p
        in
        bind_res (retarget_branch this to_prev intermediate p) (\<lambda>p.
        bind_res (recompute_immediate_dominator to_next p) (\<lambda>p. Ok (intermediate, p)))))"

definition retarget_branch_with_intermediate_node ::
  "nref \<Rightarrow> nref \<Rightarrow> nref \<Rightarrow> 'a CFGNodePool_scheme \<Rightarrow> 'a CFGNodePool_scheme res" where
  "retarget_branch_with_intermediate_node this to_prev to_next p =
     (if to_next \<notin> set (succ (node_at p this)) then retarget_branch this to_prev to_next p
      else bind_res (rewrite_branch_through_intermediate_node this to_prev to_next p) (\<lambda>(_, p). Ok p))"

definition retarget_fake_succ :: "nref \<Rightarrow> nref \<Rightarrow> nref \<Rightarrow> 'a CFGNodePool_scheme \<Rightarrow> 'a CFGNodePool_scheme res" where
  "retarget_fake_succ this to_prev to_next p =
     (let fs = fake_succ (node_at p this) in
      if this \<notin> set (fake_pred (node_at p to_prev)) \<or> to_prev \<notin> set fs then Fault Assertion_Failed
      else
        bind_res
          (if to_next \<notin> set fs then
             let p = update_node this (\<lambda>x. x\<lparr>fake_succ := replace1 to_prev to_next (fake_succ x)\<rparr>) p
             in if this \<in> set (fake_pred (node_at p to_next)) then Fault Assertion_Failed else Ok p
           else Ok (update_node this (\<lambda>x. x\<lparr>fake_succ := remove1 to_prev (fake_succ x)\<rparr>) p)) (\<lambda>p.
        recompute_immediate_post_dominator this (add_unique_fake_pred to_next this p)))"

definition fixup_merge_info_after_branch_rewrite ::
  "nref \<Rightarrow> nref \<Rightarrow> nref \<Rightarrow> 'a CFGNodePool_scheme \<Rightarrow> 'a CFGNodePool_scheme" where
  "fixup_merge_info_after_branch_rewrite this f t p =
     (if this \<notin> set (headers (node_at p f)) then p
      else
        update_node this (\<lambda>x. x\<lparr>selection_merge_block := retarget_block f t (selection_merge_block x),
             loop_merge_block := retarget_block f t (loop_merge_block x),
             loop_ladder_block := retarget_block f t (loop_ladder_block x)\<rparr>)
          (add_unique_header t this p))"

section \<open>Walks with a callback\<close>

text \<open>The callback has a state of its own and says whether to go on below the node.\<close>

fun walk_cfg_at :: "nat \<Rightarrow> 'a CFGNodePool_scheme \<Rightarrow> (nref \<Rightarrow> 's \<Rightarrow> (bool \<times> 's) res) \<Rightarrow> nref \<Rightarrow> 's \<Rightarrow> 's res" where
  "walk_cfg_at 0 p opr n s = Fault Out_Of_Fuel"
| "walk_cfg_at (Suc k) p opr n s =
     bind_res (opr n s) (\<lambda>(go, s).
     if \<not> go then Ok s else fold_res (walk_cfg_at k p opr) (succ (node_at p n)) s)"

definition walk_cfg_from :: "'a CFGNodePool_scheme \<Rightarrow> nref \<Rightarrow> (nref \<Rightarrow> 's \<Rightarrow> (bool \<times> 's) res) \<Rightarrow> 's \<Rightarrow> 's res" where
  "walk_cfg_from p this opr = walk_cfg_at (walk_fuel p) p opr this"

fun traverse_dominated_at ::
  "nat \<Rightarrow> 'a CFGNodePool_scheme \<Rightarrow> nref \<Rightarrow> (nref \<Rightarrow> 's \<Rightarrow> (bool \<times> 's) res) \<Rightarrow> nref list \<Rightarrow> nref set \<times> 's \<Rightarrow>
   (nref set \<times> 's) res" where
  "traverse_dominated_at 0 p header opr ns cs = Fault Out_Of_Fuel"
| "traverse_dominated_at (Suc k) p header opr ns cs =
     fold_res (\<lambda>n (completed, s).
       if n \<in> completed then Ok (completed, s)
       else
         bind_res (dominates p header n) (\<lambda>d.
         if \<not> d then Ok (insert n completed, s)
         else
           bind_res (opr n s) (\<lambda>(go, s).
           if go then traverse_dominated_at k p header opr (succ (node_at p n)) (insert n completed, s)
           else Ok (insert n completed, s)))) ns cs"

definition traverse_dominated_blocks ::
  "'a CFGNodePool_scheme \<Rightarrow> nref \<Rightarrow> (nref \<Rightarrow> 's \<Rightarrow> (bool \<times> 's) res) \<Rightarrow> 's \<Rightarrow> 's res" where
  "traverse_dominated_blocks p this opr s =
     bind_res (traverse_dominated_at (walk_fuel p) p this opr (succ (node_at p this)) ({}, s)) (\<lambda>(_, s). Ok s)"

end
