(* ===== verification/Cfg_Structurizer.thy ===== *)
theory Cfg_Structurizer
  imports Cfg_Node
begin

text \<open>
  \<open>cfg_structurizer.cpp\<close>: the analysis \<open>recompute_cfg\<close> that every rewriting pass of the
  structurizer starts from (depth-first visit with back edges taken out, pruning, dominators,
  reachability bits, the backward visit with fake edges out of infinite loops, post dominators
  and dominance frontiers), and the queries and helper blocks the passes build on.
\<close>

section \<open>State\<close>

text \<open>\<open>reachability_stride\<close> is an \<open>unsigned\<close> count of words.\<close>

record CFGStructurizer = CFGNodePool +
  entry_block :: nref
  exit_block :: nref
  forward_post_visit_order :: "nref list"
  backward_post_visit_order :: "nref list"
  reachability_bitset :: "u32 list"
  reachability_stride :: nat
  reachable_nodes :: "nref set"

definition CFGStructurizer_new :: "nref \<Rightarrow> CFGNodePool \<Rightarrow> CFGStructurizer" where
  "CFGStructurizer_new entry pool =
     (case create_node pool of (exit, pool) \<Rightarrow>
      let pool = update_node exit (\<lambda>x. x\<lparr>node_name := ''EXIT''\<rparr>) pool
      in \<lparr>nodes = nodes pool, entry_block = entry, exit_block = exit, forward_post_visit_order = [],
          backward_post_visit_order = [], reachability_bitset = [], reachability_stride = 0,
          reachable_nodes = {}\<rparr>)"

section \<open>The forward visit\<close>

definition reset_node :: "CFGNode \<Rightarrow> CFGNode" where
  "reset_node x =
     (let x = x\<lparr>visited := False, backward_visited := False, traversing := False, immediate_dominator := None,
                immediate_post_dominator := None, fake_pred := [], fake_succ := [], headers := []\<rparr>;
          x = (if freeze_structured_analysis x then x
               else x\<lparr>merge := Merge_None, loop_merge_block := None, loop_ladder_block := None,
                      selection_merge_block := None\<rparr>);
          x = (case succ_back_edge x of None \<Rightarrow> x | Some b \<Rightarrow> x\<lparr>succ := succ x @ [b]\<rparr>);
          x = (case pred_back_edge x of None \<Rightarrow> x | Some b \<Rightarrow> x\<lparr>pred := pred x @ [b]\<rparr>)
      in x\<lparr>succ_back_edge := None, pred_back_edge := None\<rparr>)"

definition reset_traversal :: "CFGStructurizer \<Rightarrow> CFGStructurizer" where
  "reset_traversal s =
     for_each_node reset_node
       (s\<lparr>reachable_nodes := {}, forward_post_visit_order := [], backward_post_visit_order := []\<rparr>)"

definition begin_visit :: "nref \<Rightarrow> CFGStructurizer \<Rightarrow> CFGStructurizer" where
  "begin_visit e s =
     (update_node e (\<lambda>x. x\<lparr>visited := True, traversing := True\<rparr>) s)\<lparr>reachable_nodes := insert e (reachable_nodes s)\<rparr>"

definition visit_edge ::
  "(nref \<Rightarrow> CFGStructurizer \<Rightarrow> CFGStructurizer res) \<Rightarrow> nref \<Rightarrow> nref \<Rightarrow> CFGStructurizer \<Rightarrow> CFGStructurizer res" where
  "visit_edge rec e c s =
     (if traversing (node_at s c) then
        (if succ_back_edge (node_at s e) \<noteq> None \<and> succ_back_edge (node_at s e) \<noteq> Some c then Fault Assertion_Failed
         else
           let s = update_node e (\<lambda>x. x\<lparr>succ_back_edge := Some c\<rparr>) s in
           if pred_back_edge (node_at s c) \<noteq> None \<and> pred_back_edge (node_at s c) \<noteq> Some e then Fault Assertion_Failed
           else Ok (update_node c (\<lambda>x. x\<lparr>pred_back_edge := Some e\<rparr>) s))
      else if \<not> visited (node_at s c) then rec c s
      else Ok s)"

definition drop_back_edges :: "CFGNode \<Rightarrow> CFGNode" where
  "drop_back_edges x =
     (let x = (case succ_back_edge x of None \<Rightarrow> x | Some b \<Rightarrow> x\<lparr>succ := remove1 b (succ x)\<rparr>)
      in case pred_back_edge x of None \<Rightarrow> x | Some b \<Rightarrow> x\<lparr>pred := remove1 b (pred x)\<rparr>)"

definition finish_visit :: "nref \<Rightarrow> CFGStructurizer \<Rightarrow> CFGStructurizer" where
  "finish_visit e s =
     (let i = u32_of (length (forward_post_visit_order s));
          s = update_node e (\<lambda>x. (drop_back_edges x)\<lparr>traversing := False, forward_order := i\<rparr>) s
      in s\<lparr>forward_post_visit_order := forward_post_visit_order s @ [e]\<rparr>)"

fun visit_at :: "nat \<Rightarrow> nref \<Rightarrow> CFGStructurizer \<Rightarrow> CFGStructurizer res" where
  "visit_at 0 e s = Fault Out_Of_Fuel"
| "visit_at (Suc k) e s =
     bind_res (fold_res (visit_edge (visit_at k) e) (succ (node_at s e)) (begin_visit e s)) (\<lambda>s.
     Ok (finish_visit e s))"

definition visit :: "nref \<Rightarrow> CFGStructurizer \<Rightarrow> CFGStructurizer res" where
  "visit e s = visit_at (walk_fuel s) e s"

definition prune_node :: "nref \<Rightarrow> CFGStructurizer \<Rightarrow> CFGStructurizer" where
  "prune_node n s = update_node n (\<lambda>x. x\<lparr>pred := filter (\<lambda>q. q \<in> reachable_nodes s) (pred x)\<rparr>) s"

definition prune_dead_preds :: "CFGStructurizer \<Rightarrow> CFGStructurizer" where
  "prune_dead_preds s = fold prune_node (forward_post_visit_order s) s"

definition build_immediate_dominators :: "CFGStructurizer \<Rightarrow> CFGStructurizer res" where
  "build_immediate_dominators s = fold_res recompute_immediate_dominator (rev (forward_post_visit_order s)) s"

section \<open>Reachability bits\<close>

text \<open>The row of a node starts at a product of two \<open>uint32_t\<close>.\<close>

definition reach_row :: "CFGStructurizer \<Rightarrow> nref \<Rightarrow> nat" where
  "reach_row s n = u32_mul (forward_order (node_at s n)) (reachability_stride s)"

definition reach_bit :: "nat \<Rightarrow> u32" where
  "reach_bit i = push_bit (i mod 32) 1"

definition query_reachability :: "CFGStructurizer \<Rightarrow> nref \<Rightarrow> nref \<Rightarrow> bool res" where
  "query_reachability s f t =
     (if f = t then Ok True
      else
        bind_res (index (reachability_bitset s) (reach_row s f + forward_order (node_at s t) div 32)) (\<lambda>w.
        Ok (w AND reach_bit (forward_order (node_at s t)) \<noteq> 0)))"

definition or_word :: "nat \<Rightarrow> u32 \<Rightarrow> u32 list \<Rightarrow> u32 list res" where
  "or_word i w bits = bind_res (index bits i) (\<lambda>x. Ok (bits[i := x OR w]))"

definition inherit_row :: "nat \<Rightarrow> nat \<Rightarrow> nat \<Rightarrow> u32 list \<Rightarrow> u32 list res" where
  "inherit_row stride dst src =
     fold_res (\<lambda>i bits. bind_res (index bits (src + i)) (\<lambda>w. or_word (dst + i) w bits)) [0..<stride]"

definition visit_reachability :: "nref \<Rightarrow> CFGStructurizer \<Rightarrow> CFGStructurizer res" where
  "visit_reachability n s =
     (let dst = reach_row s n; i = forward_order (node_at s n) in
      bind_res (fold_res (\<lambda>c. inherit_row (reachability_stride s) dst (reach_row s c)) (succ (node_at s n))
                  (reachability_bitset s)) (\<lambda>bits.
      bind_res (or_word (dst + i div 32) (reach_bit i) bits) (\<lambda>bits.
      Ok (s\<lparr>reachability_bitset := bits\<rparr>))))"

definition build_reachability :: "CFGStructurizer \<Rightarrow> CFGStructurizer res" where
  "build_reachability s =
     (let n = length (forward_post_visit_order s); stride = (n + 31) div 32 in
      fold_res visit_reachability (forward_post_visit_order s)
        (s\<lparr>reachability_stride := stride, reachability_bitset := replicate (stride * n) 0\<rparr>))"

definition query_reachability_through_back_edges :: "CFGStructurizer \<Rightarrow> nref \<Rightarrow> nref \<Rightarrow> bool res" where
  "query_reachability_through_back_edges s f t =
     bind_res (dominates s t f) (\<lambda>d.
     if d then (case pred_back_edge (node_at s t) of None \<Rightarrow> Ok False | Some c \<Rightarrow> query_reachability s f c)
     else query_reachability s f t)"

definition query_reachability_split_loop_header :: "CFGStructurizer \<Rightarrow> nref \<Rightarrow> nref \<Rightarrow> nref \<Rightarrow> bool res" where
  "query_reachability_split_loop_header s f t end_node =
     (if pred_back_edge (node_at s end_node) = None then query_reachability s f t
      else
        bind_res (query_reachability s f end_node) (\<lambda>a.
        bind_res (query_reachability s t end_node) (\<lambda>b.
        if a \<noteq> b then Ok False else query_reachability s f t)))"

definition is_strictly_dominance_ordered :: "CFGStructurizer \<Rightarrow> nref \<Rightarrow> nref \<Rightarrow> nref \<Rightarrow> bool res" where
  "is_strictly_dominance_ordered s a b c =
     (if a = b then Ok False
      else bind_res (dominates s a b) (\<lambda>d. if \<not> d \<or> b = c then Ok False else dominates s b c))"

definition is_reachability_ordered :: "CFGStructurizer \<Rightarrow> nref \<Rightarrow> nref \<Rightarrow> nref \<Rightarrow> bool res" where
  "is_reachability_ordered s a b c =
     (if a = b then Ok False
      else bind_res (query_reachability s a b) (\<lambda>d. if \<not> d \<or> b = c then Ok False else query_reachability s b c))"

section \<open>Loops around a node\<close>

fun innermost_loop_walk :: "nat \<Rightarrow> CFGStructurizer \<Rightarrow> nref \<Rightarrow> nref \<Rightarrow> nref \<Rightarrow> nref res" where
  "innermost_loop_walk 0 s header n other = Fault Out_Of_Fuel"
| "innermost_loop_walk (Suc k) s header n other =
     (if header = other then Ok other
      else if pred (node_at s other) = [] then Ok other
      else
        bind_res
          (case pred_back_edge (node_at s other) of
             None \<Rightarrow> Ok False
           | Some c \<Rightarrow> if c = n then Ok True else bind_res (query_reachability s c n) (\<lambda>r. Ok (\<not> r))) (\<lambda>found.
        if found then Ok other
        else case idom s other of None \<Rightarrow> Fault Assertion_Failed | Some d \<Rightarrow> innermost_loop_walk k s header n d))"

definition get_innermost_loop_header_for :: "CFGStructurizer \<Rightarrow> nref \<Rightarrow> nref \<Rightarrow> nref res" where
  "get_innermost_loop_header_for s header other = innermost_loop_walk (walk_fuel s) s header other other"

definition loop_exit_supports_infinite_loop :: "CFGStructurizer \<Rightarrow> nref \<Rightarrow> nref \<Rightarrow> bool res" where
  "loop_exit_supports_infinite_loop s header loop_exit =
     bind_res (get_innermost_loop_header_for s header loop_exit) (\<lambda>inner_header.
     bind_res (dominates s inner_header header) (\<lambda>d.
     if d then Ok False else dominates_all_reachable_exits s loop_exit))"

text \<open>\<open>LoopBacktracer\<close>: everything between the back edge and the header.\<close>

fun trace_to_parent :: "nat \<Rightarrow> CFGStructurizer \<Rightarrow> nref \<Rightarrow> nref \<Rightarrow> nref set \<Rightarrow> nref set res" where
  "trace_to_parent 0 s header block traced = Fault Out_Of_Fuel"
| "trace_to_parent (Suc k) s header block traced =
     (if block = header then Ok (insert block traced)
      else if block \<in> traced then Ok traced
      else
        bind_res (fold_res (trace_to_parent k s header) (pred (node_at s block)) (insert block traced)) (\<lambda>traced.
        case pred_back_edge (node_at s block) of
          None \<Rightarrow> Ok traced
        | Some c \<Rightarrow> trace_to_parent k s header c traced))"

text \<open>\<open>LoopMergeTracer\<close>: the exits, in the order they are met. A node is marked after it was traced.\<close>

fun trace_from_parent ::
  "nat \<Rightarrow> CFGStructurizer \<Rightarrow> nref set \<Rightarrow> nref \<Rightarrow> nref list \<times> nref set \<Rightarrow> (nref list \<times> nref set) res" where
  "trace_from_parent 0 s loop header t = Fault Out_Of_Fuel"
| "trace_from_parent (Suc k) s loop header t =
     (if header \<notin> loop then Ok (push_unique (fst t) header, snd t)
      else
        fold_res (\<lambda>c t.
          if c \<in> snd t then Ok t
          else bind_res (trace_from_parent k s loop c t) (\<lambda>(exits, traced). Ok (exits, insert c traced)))
          (succ (node_at s header)) t)"

definition loop_exits :: "CFGStructurizer \<Rightarrow> nref \<Rightarrow> nref \<Rightarrow> nref list res" where
  "loop_exits s header c =
     bind_res (trace_to_parent (walk_fuel s) s header c {}) (\<lambda>loop.
     bind_res (trace_from_parent (walk_fuel s) s loop header ([], {})) (\<lambda>(exits, _).
     Ok (rev (sort_key (\<lambda>n. forward_order (node_at s n)) exits))))"

section \<open>The backward visit\<close>

definition begin_backwards :: "nref \<Rightarrow> CFGStructurizer \<Rightarrow> CFGStructurizer" where
  "begin_backwards e = update_node e (\<lambda>x. x\<lparr>backward_visited := True\<rparr>)"

definition finish_backwards :: "nref \<Rightarrow> CFGStructurizer \<Rightarrow> CFGStructurizer" where
  "finish_backwards e s =
     (let i = u32_of (length (backward_post_visit_order s));
          s = update_node e (\<lambda>x. x\<lparr>backward_order := i\<rparr>) s
      in s\<lparr>backward_post_visit_order := backward_post_visit_order s @ [e]\<rparr>)"

definition backwards_edge ::
  "(nref \<Rightarrow> CFGStructurizer \<Rightarrow> CFGStructurizer res) \<Rightarrow> nref \<Rightarrow> CFGStructurizer \<Rightarrow> CFGStructurizer res" where
  "backwards_edge rec q s = (if backward_visited (node_at s q) then Ok s else rec q s)"

fun backwards_visit_at :: "nat \<Rightarrow> nref \<Rightarrow> CFGStructurizer \<Rightarrow> CFGStructurizer res" where
  "backwards_visit_at 0 e s = Fault Out_Of_Fuel"
| "backwards_visit_at (Suc k) e s =
     bind_res (fold_res (backwards_edge (backwards_visit_at k)) (pred (node_at s e)) (begin_backwards e s)) (\<lambda>s.
     bind_res (fold_res (backwards_edge (backwards_visit_at k)) (fake_pred (node_at s e)) s) (\<lambda>s.
     Ok (finish_backwards e s)))"

definition backwards_visit_from :: "nref \<Rightarrow> CFGStructurizer \<Rightarrow> CFGStructurizer res" where
  "backwards_visit_from e s = backwards_visit_at (walk_fuel s) e s"

definition clear_backwards :: "(CFGNode \<Rightarrow> CFGNode) \<Rightarrow> CFGStructurizer \<Rightarrow> CFGStructurizer" where
  "clear_backwards f s = fold (\<lambda>n. update_node n f) (forward_post_visit_order s) s"

definition backwards_leaves :: "CFGStructurizer \<Rightarrow> nref list" where
  "backwards_leaves s =
     filter (\<lambda>n. succ (node_at s n) = [] \<and> succ_back_edge (node_at s n) = None) (forward_post_visit_order s)"

definition is_switch_label_exit :: "CFGStructurizer \<Rightarrow> nref \<Rightarrow> nref \<Rightarrow> bool res" where
  "is_switch_label_exit s n f =
     (case idom s f of
        None \<Rightarrow> Ok False
      | Some d \<Rightarrow>
          if term_type (terminator (ir (node_at s d))) = Term_Switch then dominates s n d else Ok False)"

definition should_transpose_loop_exit :: "CFGStructurizer \<Rightarrow> nref \<Rightarrow> nref list \<Rightarrow> bool res" where
  "should_transpose_loop_exit s n exits =
     (case exits of
        [e] \<Rightarrow>
          bind_res (dominates_all_reachable_exits s e) (\<lambda>t.
          if t then bind_res (get_innermost_loop_header_for s n e) (\<lambda>h. Ok (h = n)) else Ok False)
      | _ \<Rightarrow> Ok False)"

definition link_transposed_exit :: "nref \<Rightarrow> nref \<Rightarrow> nref \<Rightarrow> CFGStructurizer \<Rightarrow> CFGStructurizer res" where
  "link_transposed_exit n c f s =
     bind_res (is_switch_label_exit s n f) (\<lambda>own.
     if own then add_branch c f s else Ok (add_fake_branch c f s))"

definition link_reachable_exit :: "nref \<Rightarrow> nref \<Rightarrow> CFGStructurizer \<Rightarrow> CFGStructurizer res" where
  "link_reachable_exit c f s =
     bind_res (reaches_backward_visited_node s f) (\<lambda>r. Ok (if r then add_fake_branch c f s else s))"

text \<open>One loop header of the scan. The flag is \<open>need_revisit\<close>.\<close>

definition link_infinite_loop :: "nref \<Rightarrow> bool \<times> CFGStructurizer \<Rightarrow> (bool \<times> CFGStructurizer) res" where
  "link_infinite_loop n = (\<lambda>(need_revisit, s).
     case pred_back_edge (node_at s n) of
       None \<Rightarrow> Ok (need_revisit, s)
     | Some c \<Rightarrow>
         if backward_visited (node_at s c) then Ok (need_revisit, s)
         else
           bind_res (loop_exits s n c) (\<lambda>exits.
           bind_res (should_transpose_loop_exit s n exits) (\<lambda>t.
           bind_res (fold_res (if t then link_transposed_exit n c else link_reachable_exit c) exits s) (\<lambda>s.
           let s = (if succ (node_at s c) \<noteq> [] \<or> fake_succ (node_at s c) \<noteq> []
                    then update_node c (\<lambda>x. x\<lparr>backward_visited := True\<rparr>) s else s)
           in Ok (True, s)))))"

definition revisit :: "nref list \<Rightarrow> bool \<times> CFGStructurizer \<Rightarrow> CFGStructurizer res" where
  "revisit leaf_nodes = (\<lambda>(need_revisit, s).
     if need_revisit
     then fold_res backwards_visit_from leaf_nodes
            (clear_backwards (\<lambda>x. x\<lparr>backward_visited := False, traversing := False, backward_order := 0\<rparr>) s)
     else Ok s)"

definition finish_exit :: "nref list \<Rightarrow> CFGStructurizer \<Rightarrow> CFGStructurizer" where
  "finish_exit leaf_nodes s =
     (let e = exit_block s;
          i = u32_of (length (backward_post_visit_order s));
          s = update_node e (\<lambda>x. x\<lparr>backward_order := i, immediate_post_dominator := Some e, backward_visited := True\<rparr>) s
      in fold (\<lambda>l. update_node l (\<lambda>x. x\<lparr>immediate_post_dominator := Some e\<rparr>)) leaf_nodes s)"

definition backwards_visit :: "CFGStructurizer \<Rightarrow> CFGStructurizer res" where
  "backwards_visit s =
     (let leaf_nodes = backwards_leaves s;
          s = clear_backwards (\<lambda>x. x\<lparr>backward_visited := False, traversing := False\<rparr>) s
      in
      bind_res (fold_res backwards_visit_from leaf_nodes s) (\<lambda>s.
      bind_res (fold_res link_infinite_loop (rev (forward_post_visit_order s)) (False, s)) (\<lambda>ns.
      bind_res (revisit leaf_nodes ns) (\<lambda>s.
      Ok (finish_exit leaf_nodes s)))))"

definition build_immediate_post_dominators :: "CFGStructurizer \<Rightarrow> CFGStructurizer res" where
  "build_immediate_post_dominators s = fold_res recompute_immediate_post_dominator (rev (backward_post_visit_order s)) s"

section \<open>Dominance frontiers\<close>

definition frontier_to_idom :: "nref \<Rightarrow> nref \<Rightarrow> CFGStructurizer \<Rightarrow> CFGStructurizer res" where
  "frontier_to_idom d f s =
     bind_res (dominates s d f) (\<lambda>b.
     Ok (if b then s else update_node d (\<lambda>x. x\<lparr>dominance_frontier := push_unique (dominance_frontier x) f\<rparr>) s))"

definition dominance_frontier_edge :: "nref \<Rightarrow> nref \<Rightarrow> CFGStructurizer \<Rightarrow> CFGStructurizer res" where
  "dominance_frontier_edge n c s =
     (let s = (if idom s c \<noteq> Some n
               then update_node n (\<lambda>x. x\<lparr>dominance_frontier := push_unique (dominance_frontier x) c\<rparr>) s else s)
      in case idom s n of
        None \<Rightarrow> Ok s
      | Some d \<Rightarrow> fold_res (frontier_to_idom d) (dominance_frontier (node_at s n)) s)"

definition recompute_dominance_frontier :: "nref \<Rightarrow> CFGStructurizer \<Rightarrow> CFGStructurizer res" where
  "recompute_dominance_frontier n s = fold_res (dominance_frontier_edge n) (succ (node_at s n)) s"

definition compute_dominance_frontier :: "CFGStructurizer \<Rightarrow> CFGStructurizer res" where
  "compute_dominance_frontier s =
     fold_res recompute_dominance_frontier (forward_post_visit_order s)
       (fold (\<lambda>n. update_node n (\<lambda>x. x\<lparr>dominance_frontier := []\<rparr>)) (forward_post_visit_order s) s)"

definition frontier_to_ipdom :: "nref \<Rightarrow> nref \<Rightarrow> CFGStructurizer \<Rightarrow> CFGStructurizer res" where
  "frontier_to_ipdom d f s =
     bind_res (post_dominates s d f) (\<lambda>b.
     Ok (if b then s
         else update_node d (\<lambda>x. x\<lparr>post_dominance_frontier := push_unique (post_dominance_frontier x) f\<rparr>) s))"

definition post_dominance_frontier_edge :: "nref \<Rightarrow> nref \<Rightarrow> CFGStructurizer \<Rightarrow> CFGStructurizer res" where
  "post_dominance_frontier_edge n q s =
     (let s = (if ipdom s q \<noteq> Some n
               then update_node n (\<lambda>x. x\<lparr>post_dominance_frontier := push_unique (post_dominance_frontier x) q\<rparr>) s else s)
      in case ipdom s n of
        None \<Rightarrow> Ok s
      | Some d \<Rightarrow> fold_res (frontier_to_ipdom d) (post_dominance_frontier (node_at s n)) s)"

definition recompute_post_dominance_frontier :: "nref \<Rightarrow> CFGStructurizer \<Rightarrow> CFGStructurizer res" where
  "recompute_post_dominance_frontier n s = fold_res (post_dominance_frontier_edge n) (pred (node_at s n)) s"

definition compute_post_dominance_frontier :: "CFGStructurizer \<Rightarrow> CFGStructurizer res" where
  "compute_post_dominance_frontier s =
     fold_res recompute_post_dominance_frontier (backward_post_visit_order s)
       (fold (\<lambda>n. update_node n (\<lambda>x. x\<lparr>post_dominance_frontier := []\<rparr>)) (backward_post_visit_order s) s)"

definition earliest_dominance_frontier_post_visit_order :: "CFGStructurizer \<Rightarrow> nref \<Rightarrow> nat" where
  "earliest_dominance_frontier_post_visit_order s n =
     fold (\<lambda>df m. max (forward_order (node_at s df)) m) (dominance_frontier (node_at s n)) 0"

section \<open>The whole analysis\<close>

text \<open>The forward half ends with the reachability bits.\<close>

definition analyze_forward :: "CFGStructurizer \<Rightarrow> CFGStructurizer res" where
  "analyze_forward s =
     bind_res (visit (entry_block s) (reset_traversal s)) (\<lambda>s.
     bind_res (build_immediate_dominators (prune_dead_preds s)) build_reachability)"

definition recompute_cfg :: "CFGStructurizer \<Rightarrow> CFGStructurizer res" where
  "recompute_cfg s =
     bind_res (analyze_forward s) (\<lambda>s.
     bind_res (backwards_visit s) (\<lambda>s.
     bind_res (build_immediate_post_dominators s) (\<lambda>s.
     bind_res (compute_dominance_frontier s) compute_post_dominance_frontier)))"

end
