(* ===== verification/Cfg_Links.thy ===== *)
theory Cfg_Links
  imports Cfg_Structurizer
begin

text \<open>
  Trees of links, and how one pass over an ordered list builds them. Dominators and post
  dominators are computed the same way: each node meets the links of its neighbours on the
  entry (or exit) side. The interface is stated once, in three locales over an arbitrary state,
  and interpreted for both directions of the control flow graph.
\<close>

section \<open>Trees of links\<close>

text \<open>Links lead from every node of \<open>S\<close> to a node of \<open>S\<close> with a greater number, up to the root.\<close>

definition link_tree :: "(nref \<Rightarrow> nref option) \<Rightarrow> (nref \<Rightarrow> nat) \<Rightarrow> nref set \<Rightarrow> nref \<Rightarrow> bool" where
  "link_tree up ord S root \<longleftrightarrow>
     finite S \<and> root \<in> S \<and> up root = Some root \<and> inj_on ord S \<and>
     (\<forall>n \<in> S. n \<noteq> root \<longrightarrow> (\<exists>d. up n = Some d \<and> d \<in> S \<and> ord n < ord d))"

inductive above :: "(nref \<Rightarrow> nref option) \<Rightarrow> nref \<Rightarrow> nref \<Rightarrow> bool" for up where
  above_refl: "above up n n"
| above_step: "up n = Some d \<Longrightarrow> d \<noteq> n \<Longrightarrow> above up d a \<Longrightarrow> above up n a"

text \<open>How many nodes are numbered higher: the bound on a walk from a node to the root.\<close>

definition height :: "(nref \<Rightarrow> nat) \<Rightarrow> nref set \<Rightarrow> nref \<Rightarrow> nat" where
  "height ord S n = card {m \<in> S. ord n < ord m}"

lemma link_tree_step:
  assumes "link_tree up ord S root" "n \<in> S" "n \<noteq> root"
  obtains d where "up n = Some d" "d \<in> S" "ord n < ord d" "d \<noteq> n"
  using assms by (auto simp: link_tree_def)

lemma link_treeD:
  assumes "link_tree up ord S root"
  shows "finite S" "root \<in> S" "up root = Some root" "inj_on ord S"
  using assms by (auto simp: link_tree_def)

lemma link_tree_inj: "link_tree up ord S root \<Longrightarrow> a \<in> S \<Longrightarrow> b \<in> S \<Longrightarrow> ord a = ord b \<longleftrightarrow> a = b"
  by (auto simp: link_tree_def inj_on_def)

lemma link_tree_set: "link_tree up ord S root \<Longrightarrow> n \<in> S \<Longrightarrow> up n \<noteq> None"
  using link_tree_step link_treeD(3) by (metis option.distinct(1))

lemma link_tree_closed: "link_tree up ord S root \<Longrightarrow> m \<in> S \<Longrightarrow> up m = Some d \<Longrightarrow> d \<in> S"
  using link_tree_step link_treeD(2,3) by (metis option.inject)

lemma height_less:
  assumes "finite S" and "d \<in> S" and "ord n < ord d"
  shows "height ord S d < height ord S n"
  unfolding height_def using assms by (intro psubset_card_mono) auto

lemma height_card: "finite S \<Longrightarrow> n \<in> S \<Longrightarrow> height ord S n < card S"
  unfolding height_def by (intro psubset_card_mono) auto

lemma link_tree_root_max:
  assumes "link_tree up ord S root" and "n \<in> S"
  shows "ord n \<le> ord root"
  using assms(2)
proof (induction "height ord S n" arbitrary: n rule: less_induct)
  case less
  show ?case
  proof (cases "n = root")
    case False
    then obtain d where "d \<in> S" "ord n < ord d" using link_tree_step [OF assms(1) less.prems] by metis
    then show ?thesis using less.hyps [of d] height_less link_treeD(1) [OF assms(1)] by fastforce
  qed simp
qed

lemma link_tree_higher:
  assumes "link_tree up ord S root" and "x \<in> S" and "y \<in> S" and "ord x < ord y"
  obtains d where "up x = Some d" "d \<in> S" "ord x < ord d" "d \<noteq> x"
proof -
  have "x \<noteq> root" using link_tree_root_max [OF assms(1,3)] assms(4) by auto
  then show thesis using link_tree_step [OF assms(1,2)] that by metis
qed

lemma above_iff: "above up n a \<longleftrightarrow> a = n \<or> (\<exists>d. up n = Some d \<and> d \<noteq> n \<and> above up d a)"
  by (subst above.simps) auto

lemma above_root: "up r = Some r \<Longrightarrow> above up r a \<longleftrightarrow> a = r"
  by (subst above_iff) auto

lemma above_link: "up n = Some d \<Longrightarrow> d \<noteq> n \<Longrightarrow> above up n a \<longleftrightarrow> a = n \<or> above up d a"
  by (subst above_iff) auto

lemma above_order:
  assumes "link_tree up ord S root"
  shows "above up n a \<Longrightarrow> n \<in> S \<Longrightarrow> a \<in> S \<and> ord n \<le> ord a"
proof (induction rule: above.induct)
  case (above_step n d a)
  show ?case
  proof (cases "n = root")
    case True
    then show ?thesis using above_step link_treeD(3) [OF assms] by simp
  next
    case False
    obtain e where "up n = Some e" "e \<in> S" "ord n < ord e"
      using link_tree_step [OF assms above_step.prems False] .
    then show ?thesis using above_step.hyps(1) above_step.IH by simp
  qed
qed simp

lemma above_below: "link_tree up ord S root \<Longrightarrow> b \<in> S \<Longrightarrow> ord a < ord b \<Longrightarrow> \<not> above up b a"
  using above_order by fastforce

lemma above_antisym:
  assumes "link_tree up ord S root" and "a \<in> S" and "b \<in> S" and "above up a b" and "above up b a"
  shows "a = b"
proof -
  have "ord a = ord b" using above_order [OF assms(1)] assms(2-5) by (meson le_antisym)
  then show ?thesis using link_tree_inj [OF assms(1-3)] by simp
qed

lemma above_cong:
  assumes "\<And>m. m \<in> S \<Longrightarrow> up' m = up m" and "\<And>m d. m \<in> S \<Longrightarrow> up m = Some d \<Longrightarrow> d \<in> S" and "n \<in> S"
  shows "above up' n a \<longleftrightarrow> above up n a"
proof
  show "above up' n a" if "above up n a"
    using that assms(3)
  proof (induction rule: above.induct)
    case (above_step n d a)
    then show ?case using assms(1,2) by (metis above.above_step)
  qed (rule above.above_refl)
  show "above up n a" if "above up' n a"
    using that assms(3)
  proof (induction rule: above.induct)
    case (above_step n d a)
    then show ?case using assms(1,2) by (metis above.above_step)
  qed (rule above.above_refl)
qed

lemma above_update:
  assumes "link_tree up ord S root" and "n \<notin> S" and "m \<in> S"
  shows "above (up(n := d)) m a \<longleftrightarrow> above up m a"
  by (rule above_cong [of S]) (use assms link_tree_closed [OF assms(1)] in auto)

text \<open>A subset closed upwards is a tree again, a node below the others a new leaf.\<close>

lemma link_tree_upper:
  assumes "link_tree up ord S root" and "x \<in> S" and "x \<noteq> root"
  shows "link_tree up ord {m \<in> S. ord x < ord m} root"
proof -
  have "ord x < ord root"
    using link_tree_root_max [OF assms(1,2)] link_tree_inj [OF assms(1,2) link_treeD(2) [OF assms(1)]] assms(3) by auto
  moreover have "\<exists>d. up n = Some d \<and> d \<in> {m \<in> S. ord x < ord m} \<and> ord n < ord d"
    if n: "n \<in> {m \<in> S. ord x < ord m}" "n \<noteq> root" for n
  proof -
    have nS: "n \<in> S" using n(1) by simp
    obtain d where "up n = Some d" "d \<in> S" "ord n < ord d" using link_tree_step [OF assms(1) nS n(2)] .
    then show ?thesis using n(1) by auto
  qed
  moreover have "inj_on ord {m \<in> S. ord x < ord m}" by (rule inj_on_subset [OF link_treeD(4) [OF assms(1)]]) auto
  ultimately show ?thesis using link_treeD [OF assms(1)] by (simp add: link_tree_def)
qed

lemma link_tree_insert:
  assumes "link_tree up ord S root" and "n \<notin> S" and "d \<in> S" and "ord n < ord d" and "inj_on ord (insert n S)"
  shows "link_tree (up(n := Some d)) ord (insert n S) root"
proof -
  have "\<exists>e. (up(n := Some d)) m = Some e \<and> e \<in> insert n S \<and> ord m < ord e"
    if m: "m \<in> insert n S" "m \<noteq> root" for m
  proof (cases "m = n")
    case False
    then have mS: "m \<in> S" using m(1) by simp
    obtain e where "up m = Some e" "e \<in> S" "ord m < ord e" using link_tree_step [OF assms(1) mS m(2)] .
    then show ?thesis using False by auto
  qed (use assms(3,4) in auto)
  then show ?thesis using link_treeD [OF assms(1)] assms(2,5) by (auto simp: link_tree_def)
qed

lemma climb_above:
  assumes "link_tree up ord S root" and "n \<in> S" and "height ord S n < k"
  shows "\<exists>r. climb k up a n = Ok r \<and> (a = r \<longleftrightarrow> above up n a)"
  using assms(2,3)
proof (induction k arbitrary: n)
  case (Suc k)
  show ?case
  proof (cases "a = n")
    case True
    then show ?thesis by (simp add: above_refl)
  next
    case False
    show ?thesis
    proof (cases "n = root")
      case True
      then show ?thesis using False link_treeD [OF assms(1)] by (simp add: above_root)
    next
      case nr: False
      obtain d where d: "up n = Some d" "d \<in> S" "ord n < ord d" "d \<noteq> n"
        using link_tree_step [OF assms(1) Suc.prems(1) nr] .
      then show ?thesis
        using Suc.IH [of d] Suc.prems(2) False height_less [OF link_treeD(1) [OF assms(1)] d(2,3)] by (simp add: above_link)
    qed
  qed
qed simp

section \<open>Paths\<close>

text \<open>A path from \<open>e\<close> is a list of nodes in which each follows from the one after it by \<open>adj\<close>.\<close>

inductive path_from :: "(nref \<Rightarrow> nref list) \<Rightarrow> nref \<Rightarrow> nref list \<Rightarrow> nref \<Rightarrow> bool" for adj e where
  path_start: "path_from adj e [e] e"
| path_edge: "path_from adj e ns m \<Longrightarrow> m \<in> set (adj n) \<Longrightarrow> path_from adj e (ns @ [n]) n"

definition on_all_paths :: "(nref \<Rightarrow> nref list) \<Rightarrow> nref \<Rightarrow> nref \<Rightarrow> nref \<Rightarrow> bool" where
  "on_all_paths adj e a n \<longleftrightarrow> (\<forall>ns. path_from adj e ns n \<longrightarrow> a \<in> set ns)"

lemma path_from_last: "path_from adj e ns n \<Longrightarrow> n \<in> set ns"
  by (induction rule: path_from.induct) auto

lemma on_all_paths_start: "on_all_paths adj e a e \<longleftrightarrow> a = e"
  unfolding on_all_paths_def using path_from_last path_start by fastforce

lemma on_all_paths_step:
  assumes "n \<noteq> e"
  shows "on_all_paths adj e a n \<longleftrightarrow> a = n \<or> (\<forall>m \<in> set (adj n). on_all_paths adj e a m)"
proof
  assume l: "on_all_paths adj e a n"
  have "on_all_paths adj e a m" if "a \<noteq> n" "m \<in> set (adj n)" for m
    using l that path_edge [of adj e _ m n] by (fastforce simp: on_all_paths_def)
  then show "a = n \<or> (\<forall>m \<in> set (adj n). on_all_paths adj e a m)" by blast
next
  assume r: "a = n \<or> (\<forall>m \<in> set (adj n). on_all_paths adj e a m)"
  have "a \<in> set ns" if path: "path_from adj e ns n" for ns
    using path
  proof cases
    case (path_edge ms m)
    then show ?thesis using r by (auto simp: on_all_paths_def)
  qed (use assms in simp)
  then show "on_all_paths adj e a n" by (simp add: on_all_paths_def)
qed

section \<open>Interfaces\<close>

text \<open>A state with one link per node; \<open>same\<close> relates states that differ in links only.\<close>

locale link_pool =
  fixes link :: "'p \<Rightarrow> nref \<Rightarrow> nref option"
    and ord :: "'p \<Rightarrow> nref \<Rightarrow> nat"
    and size :: "'p \<Rightarrow> nat"
    and set_link :: "nref \<Rightarrow> nref option \<Rightarrow> 'p \<Rightarrow> 'p"
    and same :: "'p \<Rightarrow> 'p \<Rightarrow> bool"
  assumes link_set: "n < size p \<Longrightarrow> link (set_link n d p) = (link p)(n := d)"
    and set_set: "set_link n d (set_link n d' p) = set_link n d p"
    and set_same: "set_link n (link p n) p = p"
    and same_set: "same p (set_link n d p)"
    and same_refl: "same p p"
    and same_trans: "same p q \<Longrightarrow> same q r \<Longrightarrow> same p r"
    and same_ord: "same p q \<Longrightarrow> ord q = ord p"
    and same_size: "same p q \<Longrightarrow> size q = size p"
begin

lemma ord_set: "ord (set_link n d p) = ord p" and size_set: "size (set_link n d p) = size p"
  using same_ord same_size same_set by blast+

end

text \<open>The loop that walks two nodes up until they meet, and the step that meets one edge.\<close>

locale meet_loop = link_pool +
  fixes loop :: "nat \<Rightarrow> nref \<Rightarrow> nref \<Rightarrow> 'a \<Rightarrow> (nref \<times> 'a) res"
    and fuel :: "'a \<Rightarrow> nat"
    and edge_step :: "nref \<Rightarrow> nref \<Rightarrow> 'a \<Rightarrow> 'a res"
  assumes loop_same: "loop (Suc k) a a p = Ok (a, p)"
    and loop_left: "a \<noteq> b \<Longrightarrow> link p a = Some d \<Longrightarrow> link p b \<noteq> None \<Longrightarrow> d \<noteq> a \<Longrightarrow> ord p a < ord p b \<Longrightarrow>
      loop (Suc k) a b p = loop k d b p"
    and loop_right: "a \<noteq> b \<Longrightarrow> link p a \<noteq> None \<Longrightarrow> link p b = Some d \<Longrightarrow> d \<noteq> b \<Longrightarrow> ord p b < ord p a \<Longrightarrow>
      loop (Suc k) a b p = loop k a d p"
    and enough: "2 * size p \<le> fuel p"
    and first_edge: "link p n = None \<Longrightarrow> edge_step n m p = Ok (set_link n (Some m) p)"
    and next_edge: "link p n = Some d \<Longrightarrow>
      edge_step n m p = bind_res (loop (fuel p) d m p) (\<lambda>(d, p). Ok (set_link n (Some d) p))"
begin

lemma meet:
  assumes tree: "link_tree (link p) (ord p) S root"
  shows "a \<in> S \<Longrightarrow> b \<in> S \<Longrightarrow> height (ord p) S a + height (ord p) S b < k \<Longrightarrow>
    \<exists>d. loop k a b p = Ok (d, p) \<and> d \<in> S \<and> (\<forall>x. above (link p) d x \<longleftrightarrow> above (link p) a x \<and> above (link p) b x)"
proof (induction k arbitrary: a b)
  case (Suc k)
  note fin = link_treeD(1) [OF tree]
  show ?case
  proof (cases "a = b")
    case True
    then show ?thesis using Suc.prems by (simp add: loop_same)
  next
    case ne: False
    then have no: "ord p a \<noteq> ord p b" using link_tree_inj [OF tree] Suc.prems by blast
    show ?thesis
    proof (cases "ord p a < ord p b")
      case True
      obtain d where d: "link p a = Some d" "d \<in> S" "ord p a < ord p d" "d \<noteq> a"
        using link_tree_higher [OF tree Suc.prems(1,2) True] .
      have "loop (Suc k) a b p = loop k d b p"
        using loop_left [OF ne d(1) link_tree_set [OF tree Suc.prems(2)] d(4) True] .
      moreover obtain r where "loop k d b p = Ok (r, p)" "r \<in> S"
        "\<forall>x. above (link p) r x \<longleftrightarrow> above (link p) d x \<and> above (link p) b x"
        using Suc.IH [OF d(2) Suc.prems(2)] Suc.prems(3) height_less [where ord = "ord p", OF fin d(2,3)] by auto
      moreover have "\<not> above (link p) b a" by (rule above_below [OF tree Suc.prems(2) True])
      ultimately show ?thesis using d by (auto simp: above_link)
    next
      case False
      then have less: "ord p b < ord p a" using no by simp
      obtain d where d: "link p b = Some d" "d \<in> S" "ord p b < ord p d" "d \<noteq> b"
        using link_tree_higher [OF tree Suc.prems(2,1) less] .
      have "loop (Suc k) a b p = loop k a d p"
        using loop_right [OF ne link_tree_set [OF tree Suc.prems(1)] d(1,4) less] .
      moreover obtain r where "loop k a d p = Ok (r, p)" "r \<in> S"
        "\<forall>x. above (link p) r x \<longleftrightarrow> above (link p) a x \<and> above (link p) d x"
        using Suc.IH [OF Suc.prems(1) d(2)] Suc.prems(3) height_less [where ord = "ord p", OF fin d(2,3)] by auto
      moreover have "\<not> above (link p) a b" by (rule above_below [OF tree Suc.prems(1) less])
      ultimately show ?thesis using d by (auto simp: above_link)
    qed
  qed
qed simp

lemma meet_fuel_enough:
  assumes "link_tree (link p) (ord p) S root" and "card S \<le> size p" and "a \<in> S" and "b \<in> S"
  shows "height (ord p) S a + height (ord p) S b < fuel p"
  using height_card [OF link_treeD(1) [OF assms(1)] assms(3), of "ord p"]
    height_card [OF link_treeD(1) [OF assms(1)] assms(4), of "ord p"] assms(2) enough [of p] by linarith

lemma meet_edges:
  assumes tree: "link_tree (link p) (ord p) S root" and card: "card S \<le> size p" and n: "n \<notin> S" "n < size p"
  shows "d0 \<in> S \<Longrightarrow> set ms \<subseteq> S \<Longrightarrow>
    \<exists>d. fold_res (edge_step n) ms (set_link n (Some d0) p) = Ok (set_link n (Some d) p) \<and> d \<in> S \<and>
      (\<forall>a. above (link p) d a \<longleftrightarrow> above (link p) d0 a \<and> (\<forall>m \<in> set ms. above (link p) m a))"
proof (induction ms arbitrary: d0)
  case Nil
  then show ?case by (intro exI [of _ d0]) simp
next
  case (Cons m ms)
  let ?p = "set_link n (Some d0) p"
  have link: "link ?p = (link p)(n := Some d0)" by (rule link_set [OF n(2)])
  have tree': "link_tree (link ?p) (ord ?p) S root"
  proof -
    have "n \<noteq> root" using n(1) link_treeD(2) [OF tree] by auto
    moreover have "link_tree (link p) (ord p) S root" by (rule tree)
    ultimately show ?thesis using n(1) unfolding link ord_set link_tree_def by auto
  qed
  have same: "above (link ?p) k a = above (link p) k a" if "k \<in> S" for k a
    unfolding link by (rule above_update [OF tree n(1) that])
  have m: "m \<in> S" and ms: "set ms \<subseteq> S" using Cons.prems(2) by auto
  have "height (ord ?p) S d0 + height (ord ?p) S m < fuel ?p"
    using meet_fuel_enough [OF tree' _ Cons.prems(1) m] card by (simp add: size_set)
  then obtain d where d: "loop (fuel ?p) d0 m ?p = Ok (d, ?p)" "d \<in> S"
    "\<forall>x. above (link p) d x \<longleftrightarrow> above (link p) d0 x \<and> above (link p) m x"
    using meet [OF tree' Cons.prems(1) m] same m Cons.prems(1) by metis
  have "edge_step n m ?p = Ok (set_link n (Some d) p)"
    using next_edge [of ?p n d0 m] d(1) by (simp add: link set_set)
  moreover obtain d' where "fold_res (edge_step n) ms (set_link n (Some d) p) = Ok (set_link n (Some d') p)" "d' \<in> S"
    "\<forall>a. above (link p) d' a \<longleftrightarrow> above (link p) d a \<and> (\<forall>m \<in> set ms. above (link p) m a)"
    using Cons.IH [OF d(2) ms] by blast
  ultimately show ?case using d(3) by (intro exI [of _ d']) auto
qed

text \<open>The whole recomputation of one link: cleared, set by the first edge, met with the others.\<close>

lemma meet_all:
  assumes tree: "link_tree (link p) (ord p) S root" and card: "card S \<le> size p" and n: "n \<notin> S" "n < size p"
    and ms: "ms \<noteq> []" "set ms \<subseteq> S"
  shows "\<exists>d. fold_res (edge_step n) ms (set_link n None p) = Ok (set_link n (Some d) p) \<and> d \<in> S \<and>
      (\<forall>a. above (link p) d a \<longleftrightarrow> (\<forall>m \<in> set ms. above (link p) m a))"
proof -
  obtain m ks where mk: "ms = m # ks" using ms(1) by (cases ms) auto
  have "edge_step n m (set_link n None p) = Ok (set_link n (Some m) p)"
    using first_edge [of "set_link n None p" n m] by (simp add: link_set [OF n(2)] set_set)
  then show ?thesis using meet_edges [OF tree card n, of m ks] ms(2) by (auto simp: mk)
qed

end

text \<open>
  One pass: \<open>recompute\<close> gives a node the meet of its edges, when the edges lead to nodes whose
  links are built. \<open>ready\<close> is what a node needs besides.
\<close>

locale link_builder = link_pool +
  fixes edges :: "'a \<Rightarrow> nref \<Rightarrow> nref list"
    and recompute :: "nref \<Rightarrow> 'a \<Rightarrow> 'a res"
    and ready :: "'a \<Rightarrow> nref \<Rightarrow> bool"
  assumes same_edges: "same p q \<Longrightarrow> edges q = edges p"
    and ready_set: "ready p m \<Longrightarrow> m \<noteq> n \<Longrightarrow> ready (set_link n d p) m"
    and ready_after: "ready p n \<Longrightarrow> recompute n p = Ok (set_link n d p) \<Longrightarrow> ready (set_link n d p) n"
    and recompute: "link_tree (link p) (ord p) S root \<Longrightarrow> card S \<le> size p \<Longrightarrow> n \<notin> S \<Longrightarrow> n < size p \<Longrightarrow>
      edges p n \<noteq> [] \<Longrightarrow> set (edges p n) \<subseteq> S \<Longrightarrow> ready p n \<Longrightarrow>
      \<exists>d. recompute n p = Ok (set_link n (Some d) p) \<and> d \<in> S \<and>
        (\<forall>a. above (link p) d a \<longleftrightarrow> (\<forall>m \<in> set (edges p n). above (link p) m a))"

text \<open>The links of \<open>S\<close> are built: their ancestors are the nodes on all paths.\<close>

definition built :: "(nref \<Rightarrow> nref option) \<Rightarrow> (nref \<Rightarrow> nat) \<Rightarrow> (nref \<Rightarrow> nref list) \<Rightarrow> nref \<Rightarrow> nref set \<Rightarrow> bool" where
  "built up ord adj e S \<longleftrightarrow> link_tree up ord S e \<and> (\<forall>n \<in> S. \<forall>a. above up n a \<longleftrightarrow> on_all_paths adj e a n)"

lemma climb_built:
  assumes "built up ord adj e S" and "card S < k" and "n \<in> S"
  shows "bind_res (climb k up a n) (\<lambda>r. Ok (a = r)) = Ok (on_all_paths adj e a n)"
proof -
  have tree: "link_tree up ord S e" using assms(1) by (simp add: built_def)
  have "height ord S n < k" using height_card [OF link_treeD(1) [OF tree] assms(3), of ord] assms(2) by simp
  then obtain r where "climb k up a n = Ok r" "a = r \<longleftrightarrow> above up n a" using climb_above [OF tree assms(3)] by blast
  then show ?thesis using assms(1,3) by (simp add: built_def)
qed

text \<open>What a list of nodes must satisfy to be built after \<open>S\<close>, within \<open>A\<close>.\<close>

fun buildable :: "(nref \<Rightarrow> nat) \<Rightarrow> (nref \<Rightarrow> nref list) \<Rightarrow> nref \<Rightarrow> nref set \<Rightarrow> nref list \<Rightarrow> bool" where
  "buildable ord adj e S [] \<longleftrightarrow> True"
| "buildable ord adj e S (x # xs) \<longleftrightarrow>
     x \<noteq> e \<and> adj x \<noteq> [] \<and> (\<forall>m \<in> set (adj x). m \<in> S \<and> ord x < ord m) \<and> buildable ord adj e (insert x S) xs"

text \<open>A list in increasing order whose edges go to later elements is buildable from its end.\<close>

lemma buildable_rev:
  assumes "sorted_wrt (\<lambda>a b. ord a < ord b) L" and "k \<le> length L"
    and "\<forall>n \<in> set (take k L). n \<noteq> e \<and> adj n \<noteq> [] \<and> (\<forall>m \<in> set (adj n). m \<in> set L \<and> ord n < (ord m :: nat))"
  shows "buildable ord adj e (set (drop k L)) (rev (take k L))"
  using assms(2,3)
proof (induction k)
  case (Suc k)
  let ?n = "L ! k"
  have k: "k < length L" "take (Suc k) L = take k L @ [?n]" using Suc.prems(1) by (simp_all add: take_Suc_conv_app_nth)
  have "m \<in> set (drop (Suc k) L)" if m: "m \<in> set (adj ?n)" for m
  proof -
    have "m \<in> set L" "ord ?n < ord m" using Suc.prems(2) m k(2) by auto
    then obtain j where j: "j < length L" "L ! j = m" by (auto simp: in_set_conv_nth)
    have "k < j"
    proof (rule ccontr)
      assume "\<not> k < j"
      then consider "j < k" | "j = k" by linarith
      then have "j = k \<or> ord (L ! j) < ord ?n" using sorted_wrt_nth_less [OF assms(1), of j k] k(1) by cases auto
      then show False using j(2) \<open>ord ?n < ord m\<close> by auto
    qed
    then have "drop (Suc k) L ! (j - Suc k) = m" "j - Suc k < length (drop (Suc k) L)" using j by auto
    then show ?thesis by (metis nth_mem)
  qed
  moreover have "set (drop k L) = insert ?n (set (drop (Suc k) L))"
    using Cons_nth_drop_Suc [OF k(1)] by (metis list.simps(15))
  ultimately show ?case using Suc k(2) by simp
qed simp

lemma buildable_append:
  "buildable ord adj e S (xs @ ys) \<longleftrightarrow> buildable ord adj e S xs \<and> buildable ord adj e (S \<union> set xs) ys"
  by (induction xs arbitrary: S) auto

lemma buildable_inside:
  "set xs \<subseteq> S \<Longrightarrow> \<forall>x \<in> set xs. x \<noteq> e \<and> adj x \<noteq> [] \<and> (\<forall>m \<in> set (adj x). m \<in> S \<and> ord x < ord m) \<Longrightarrow>
   buildable ord adj e S xs"
  by (induction xs) (simp_all add: insert_absorb)

context link_builder
begin

lemma build_new:
  assumes b: "built (link p) (ord p) (edges p) e S" and card: "card S \<le> size p" and n: "n \<notin> S" "n < size p" "n \<noteq> e"
    and edges: "edges p n \<noteq> []" "\<forall>m \<in> set (edges p n). m \<in> S \<and> ord p n < ord p m" and ready: "ready p n"
    and inj: "inj_on (ord p) (insert n S)"
  shows "\<exists>d. recompute n p = Ok (set_link n (Some d) p) \<and>
    built (link (set_link n (Some d) p)) (ord p) (edges p) e (insert n S)"
proof -
  have tree: "link_tree (link p) (ord p) S e" and paths: "\<And>m a. m \<in> S \<Longrightarrow> above (link p) m a \<longleftrightarrow> on_all_paths (edges p) e a m"
    using b by (auto simp: built_def)
  obtain d where d: "recompute n p = Ok (set_link n (Some d) p)" "d \<in> S"
    "\<forall>a. above (link p) d a \<longleftrightarrow> (\<forall>m \<in> set (edges p n). above (link p) m a)"
    using recompute [OF tree card n(1,2) edges(1) _ ready] edges(2) by blast
  let ?q = "set_link n (Some d) p"
  have link: "link ?q = (link p)(n := Some d)" by (rule link_set [OF n(2)])
  obtain m where m: "m \<in> set (edges p n)" using edges(1) by (cases "edges p n") auto
  then have "above (link p) m d" using d(3) above_refl [of "link p" d] by blast
  then have less: "ord p n < ord p d" using above_order [OF tree, of m d] edges(2) m by fastforce
  have "link_tree (link ?q) (ord p) (insert n S) e"
    unfolding link by (rule link_tree_insert [OF tree n(1) d(2) less inj])
  moreover have "above (link ?q) k a \<longleftrightarrow> on_all_paths (edges p) e a k" if "k \<in> S" for k a
    unfolding link using above_update [OF tree n(1) that] paths [OF that] by simp
  moreover have "above (link ?q) n a \<longleftrightarrow> on_all_paths (edges p) e a n" for a
  proof -
    have "d \<noteq> n" using d(2) n(1) by auto
    then have "above (link ?q) n a \<longleftrightarrow> a = n \<or> above (link ?q) d a" by (intro above_link) (simp_all add: link)
    also have "above (link ?q) d a \<longleftrightarrow> above (link p) d a" unfolding link by (rule above_update [OF tree n(1) d(2)])
    also have "\<dots> \<longleftrightarrow> (\<forall>m \<in> set (edges p n). on_all_paths (edges p) e a m)" using d(3) paths edges(2) by simp
    finally show ?thesis using on_all_paths_step [OF n(3)] by metis
  qed
  ultimately show ?thesis using d(1) by (auto simp: built_def)
qed

lemma build_again:
  assumes b: "built (link p) (ord p) (edges p) e S" and card: "card S \<le> size p" and n: "n \<in> S" "n < size p" "n \<noteq> e"
    and edges: "edges p n \<noteq> []" "\<forall>m \<in> set (edges p n). m \<in> S \<and> ord p n < ord p m" and ready: "ready p n"
  shows "recompute n p = Ok p"
proof -
  have tree: "link_tree (link p) (ord p) S e" and paths: "\<And>m a. m \<in> S \<Longrightarrow> above (link p) m a \<longleftrightarrow> on_all_paths (edges p) e a m"
    using b by (auto simp: built_def)
  let ?T = "{m \<in> S. ord p n < ord p m}"
  have treeT: "link_tree (link p) (ord p) ?T e" by (rule link_tree_upper [OF tree n(1,3)])
  have cardT: "card ?T \<le> size p" using card card_mono [of S ?T] link_treeD(1) [OF tree] by simp
  have subT: "set (edges p n) \<subseteq> ?T" using edges(2) by auto
  obtain d where d: "recompute n p = Ok (set_link n (Some d) p)" "d \<in> ?T"
    "\<forall>a. above (link p) d a \<longleftrightarrow> (\<forall>m \<in> set (edges p n). above (link p) m a)"
    using recompute [OF treeT cardT _ n(2) edges(1) subT ready] by auto
  obtain d' where d': "link p n = Some d'" "d' \<in> S" "ord p n < ord p d'" "d' \<noteq> n"
    using link_tree_step [OF tree n(1,3)] .
  have "above (link p) d a \<longleftrightarrow> above (link p) d' a" for a
  proof (cases "a = n")
    case True
    then show ?thesis using above_below [OF tree] d(2) d'(2,3) by blast
  next
    case False
    have "above (link p) n a \<longleftrightarrow> above (link p) d' a" using False above_link [of "link p" n d' a] d' by simp
    moreover have "on_all_paths (edges p) e a n \<longleftrightarrow> (\<forall>m \<in> set (edges p n). above (link p) m a)"
      using on_all_paths_step [OF n(3), of "edges p" a] False paths edges(2) by auto
    ultimately show ?thesis using d(3) paths [OF n(1)] by simp
  qed
  then have "above (link p) d d'" "above (link p) d' d" using above_refl by auto
  then have "d = d'" using above_antisym [OF tree _ d'(2)] d(2) by blast
  then show ?thesis using d(1) set_same [of n p] d'(1) by simp
qed

lemma build_pass:
  assumes "built (link p) (ord p) (edges p) e S" and "buildable (ord p) (edges p) e S xs"
    and "S \<union> set xs \<subseteq> A" and "finite A" and "card A \<le> size p" and "inj_on (ord p) A"
    and "\<forall>x \<in> set xs. x < size p \<and> ready p x"
  shows "\<exists>q. fold_res recompute xs p = Ok q \<and> same p q \<and> built (link q) (ord q) (edges q) e (S \<union> set xs)"
  using assms
proof (induction xs arbitrary: p S)
  case Nil
  then show ?case using same_refl by auto
next
  case (Cons x xs)
  have x: "x \<noteq> e" "edges p x \<noteq> []" "\<forall>m \<in> set (edges p x). m \<in> S \<and> ord p x < ord p m" "x < size p" "ready p x"
    and rest: "buildable (ord p) (edges p) e (insert x S) xs" using Cons.prems(2,7) by simp_all
  have card: "card S \<le> size p" using Cons.prems(3-5) card_mono [of A S] by simp
  have "\<exists>d. recompute x p = Ok (set_link x d p) \<and> built (link (set_link x d p)) (ord p) (edges p) e (insert x S)"
  proof (cases "x \<in> S")
    case True
    have "recompute x p = Ok p" by (rule build_again [OF Cons.prems(1) card True x(4,1,2,3,5)])
    then show ?thesis using Cons.prems(1) True set_same [of x p] by (intro exI [of _ "link p x"]) (simp add: insert_absorb)
  next
    case False
    have "inj_on (ord p) (insert x S)" by (rule inj_on_subset [OF Cons.prems(6)]) (use Cons.prems(3) in auto)
    then show ?thesis using build_new [OF Cons.prems(1) card False x(4,1,2,3,5)] by blast
  qed
  then obtain d where run: "recompute x p = Ok (set_link x d p)"
    and b: "built (link (set_link x d p)) (ord p) (edges p) e (insert x S)" by blast
  let ?q = "set_link x d p"
  have eq: "ord ?q = ord p" "size ?q = size p" "edges ?q = edges p"
    using ord_set size_set same_edges [OF same_set] by simp_all
  have ready: "\<forall>y \<in> set xs. y < size ?q \<and> ready ?q y"
    using Cons.prems(7) ready_set [of p _ x d] ready_after [OF x(5) run] eq(2) by (metis list.set_intros(2))
  obtain r where r: "fold_res recompute xs ?q = Ok r" "same ?q r" "built (link r) (ord r) (edges r) e (insert x S \<union> set xs)"
    using Cons.IH [of ?q "insert x S"] b rest Cons.prems(3-6) ready by (auto simp: eq)
  have "same p r" using same_set r(2) by (rule same_trans)
  then show ?case using run r(1,3) by auto
qed

end

end
