(* ===== verification/Cfg_Dominance.thy ===== *)
theory Cfg_Dominance
  imports Cfg_Links
begin

text \<open>
  Dominators. The forward direction provides the interfaces of \<open>Cfg_Links\<close>: the links built in one
  pass over the post-visit order of an acyclic graph are the dominators in the sense of paths
  from the entry, and the meet of two nodes is their nearest common dominator.
\<close>

section \<open>Pools\<close>

lemma length_update_node [simp]: "length (nodes (update_node n f p)) = length (nodes p)"
  by (simp add: update_node_def)

lemma node_at_update:
  "node_at (update_node n f p) m = (if m = n \<and> n < length (nodes p) then f (node_at p n) else node_at p m)"
  by (auto simp: node_at_def update_node_def)

lemma update_node_more [simp]: "CFGNodePool.more (update_node n f p) = CFGNodePool.more p"
  by (simp add: update_node_def)

lemma update_node_twice: "update_node n f (update_node n g p) = update_node n (\<lambda>x. f (g x)) p"
  by (cases "n < length (nodes p)") (simp_all add: update_node_def node_at_def list_update_beyond)

lemma update_node_id: "f (node_at p n) = node_at p n \<Longrightarrow> update_node n f p = p"
  by (cases "n < length (nodes p)") (simp_all add: update_node_def node_at_def list_update_beyond)

text \<open>Two pools that differ in dominator links only.\<close>

definition links_only :: "'a CFGNodePool_scheme \<Rightarrow> 'a CFGNodePool_scheme \<Rightarrow> bool" where
  "links_only p q \<longleftrightarrow>
     length (nodes q) = length (nodes p) \<and> CFGNodePool.more q = CFGNodePool.more p \<and>
     (\<forall>m. (node_at q m)\<lparr>immediate_dominator := None\<rparr> = (node_at p m)\<lparr>immediate_dominator := None\<rparr>)"

lemma links_only_refl [simp, intro]: "links_only p p"
  by (simp add: links_only_def)

lemma links_only_trans [trans]: "links_only p q \<Longrightarrow> links_only q r \<Longrightarrow> links_only p r"
  by (simp add: links_only_def)

lemma links_only_set_idom [simp]: "links_only p (set_idom n d p)"
  by (simp add: links_only_def set_idom_def node_at_update)

lemma links_only_node:
  assumes "links_only p q"
  shows "pred (node_at q m) = pred (node_at p m)" "succ (node_at q m) = succ (node_at p m)"
    "forward_order (node_at q m) = forward_order (node_at p m)" "length (nodes q) = length (nodes p)"
    "succ_back_edge (node_at q m) = succ_back_edge (node_at p m)" "pred_back_edge (node_at q m) = pred_back_edge (node_at p m)"
proof -
  have eq: "(node_at q m)\<lparr>immediate_dominator := None\<rparr> = (node_at p m)\<lparr>immediate_dominator := None\<rparr>"
    using assms by (simp add: links_only_def)
  show "pred (node_at q m) = pred (node_at p m)" using arg_cong [OF eq, of pred] by simp
  show "succ (node_at q m) = succ (node_at p m)" using arg_cong [OF eq, of succ] by simp
  show "forward_order (node_at q m) = forward_order (node_at p m)" using arg_cong [OF eq, of forward_order] by simp
  show "succ_back_edge (node_at q m) = succ_back_edge (node_at p m)" using arg_cong [OF eq, of succ_back_edge] by simp
  show "pred_back_edge (node_at q m) = pred_back_edge (node_at p m)" using arg_cong [OF eq, of pred_back_edge] by simp
  show "length (nodes q) = length (nodes p)" using assms by (simp add: links_only_def)
qed

section \<open>The forward direction\<close>

interpretation dom_links: link_pool idom "\<lambda>p n. forward_order (node_at p n)" "\<lambda>p. length (nodes p)" set_idom links_only
proof
  fix p q :: "'b CFGNodePool_scheme" and n d d'
  show "n < length (nodes p) \<Longrightarrow> idom (set_idom n d p) = (idom p)(n := d)"
    by (simp add: idom_def set_idom_def node_at_update fun_eq_iff)
  show "set_idom n d (set_idom n d' p) = set_idom n d p" by (simp add: set_idom_def update_node_twice)
  show "set_idom n (idom p n) p = p" by (simp add: set_idom_def idom_def update_node_id)
  show "links_only p q \<Longrightarrow> (\<lambda>n. forward_order (node_at q n)) = (\<lambda>n. forward_order (node_at p n))"
    by (simp add: links_only_node)
  show "links_only p q \<Longrightarrow> length (nodes q) = length (nodes p)" by (rule links_only_node(4))
qed (simp_all, rule links_only_trans)

lemma ensure_idom_set: "idom p a \<noteq> None \<Longrightarrow> ensure_idom rec a p = Ok p"
  by (auto simp: ensure_idom_def)

interpretation dom_meet: meet_loop idom "\<lambda>p n. forward_order (node_at p n)" "\<lambda>p. length (nodes p)" set_idom links_only
  "common_dominator_loop rec" meet_fuel "meet_edge rec" for rec
proof
  fix p :: "'a CFGNodePool_scheme" and a b d k n m
  show "a \<noteq> b \<Longrightarrow> idom p a = Some d \<Longrightarrow> idom p b \<noteq> None \<Longrightarrow> d \<noteq> a \<Longrightarrow> forward_order (node_at p a) < forward_order (node_at p b) \<Longrightarrow>
      common_dominator_loop rec (Suc k) a b p = common_dominator_loop rec k d b p"
    by (simp add: ensure_idom_set)
  show "a \<noteq> b \<Longrightarrow> idom p a \<noteq> None \<Longrightarrow> idom p b = Some d \<Longrightarrow> d \<noteq> b \<Longrightarrow> forward_order (node_at p b) < forward_order (node_at p a) \<Longrightarrow>
      common_dominator_loop rec (Suc k) a b p = common_dominator_loop rec k a d p"
    by (simp add: ensure_idom_set)
qed (simp_all add: meet_fuel_def meet_edge_def)

interpretation dom_builder: link_builder idom "\<lambda>p n. forward_order (node_at p n)" "\<lambda>p. length (nodes p)" set_idom links_only
  "\<lambda>p n. pred (node_at p n)" recompute_immediate_dominator "\<lambda>_ _. True"
proof
  fix p :: "'b CFGNodePool_scheme" and q S root n
  show "links_only p q \<Longrightarrow> (\<lambda>n. pred (node_at q n)) = (\<lambda>n. pred (node_at p n))" by (simp add: links_only_node)
  assume "link_tree (idom p) (\<lambda>n. forward_order (node_at p n)) S root" "card S \<le> length (nodes p)" "n \<notin> S"
    "n < length (nodes p)" "pred (node_at p n) \<noteq> []" "set (pred (node_at p n)) \<subseteq> S"
  from dom_meet.meet_all [OF this, of "recompute_idom_at (length (nodes p))"] this(5)
  show "\<exists>d. recompute_immediate_dominator n p = Ok (set_idom n (Some d) p) \<and> d \<in> S \<and>
      (\<forall>a. above (idom p) d a \<longleftrightarrow> (\<forall>m \<in> set (pred (node_at p n)). above (idom p) m a))"
    by (simp add: recompute_immediate_dominator_def walk_fuel_def)
qed simp_all

section \<open>Dominance by paths\<close>

text \<open>Every path from the entry \<open>e\<close> to \<open>n\<close> goes through \<open>a\<close>.\<close>

definition path_dominates :: "'a CFGNodePool_scheme \<Rightarrow> nref \<Rightarrow> nref \<Rightarrow> nref \<Rightarrow> bool" where
  "path_dominates p e a n \<longleftrightarrow> on_all_paths (\<lambda>n. pred (node_at p n)) e a n"

text \<open>
  What a forward analysis leaves: the order list \<open>L\<close> without repetitions, each node numbered by
  its position, the entry last, and every predecessor of a node later in the list.
\<close>

definition ranked :: "'a CFGNodePool_scheme \<Rightarrow> nref \<Rightarrow> nref list \<Rightarrow> bool" where
  "ranked p e L \<longleftrightarrow>
     distinct L \<and> set L \<subseteq> {..<length (nodes p)} \<and> L \<noteq> [] \<and> last L = e \<and> pred (node_at p e) = [] \<and>
     (\<forall>i < length L. forward_order (node_at p (L ! i)) = i) \<and>
     (\<forall>n \<in> set L. n \<noteq> e \<longrightarrow> pred (node_at p n) \<noteq> [] \<and>
        (\<forall>m \<in> set (pred (node_at p n)). m \<in> set L \<and> forward_order (node_at p n) < forward_order (node_at p m)))"

lemma links_only_path: "links_only p q \<Longrightarrow> path_dominates q e a n = path_dominates p e a n"
  by (simp add: path_dominates_def links_only_node)

lemma links_only_ranked: "links_only p q \<Longrightarrow> ranked q e L = ranked p e L"
  by (simp add: ranked_def links_only_node)

lemma ranked_length: "ranked p e L \<Longrightarrow> length L \<le> length (nodes p)"
  using card_mono [of "{..<length (nodes p)}" "set L"] by (auto simp: ranked_def distinct_card)

lemma ranked_inj: "ranked p e L \<Longrightarrow> inj_on (\<lambda>n. forward_order (node_at p n)) (set L)"
  by (auto simp: ranked_def inj_on_def in_set_conv_nth)

theorem build_dominators:
  fixes p :: "'a CFGNodePool_scheme"
  assumes "ranked p e L"
  shows "\<exists>q. fold_res recompute_immediate_dominator (rev L) p = Ok q \<and> links_only p q \<and>
    built (idom q) (\<lambda>n. forward_order (node_at q n)) (\<lambda>n. pred (node_at q n)) e (set L) \<and>
    (\<forall>n \<in> set L. \<forall>a. dominates q a n = Ok (path_dominates p e a n))"
proof -
  let ?ord = "\<lambda>n. forward_order (node_at p n)" and ?adj = "\<lambda>n. pred (node_at p n)"
  let ?p = "set_idom e (Some e) p"
  obtain M where M: "L = M @ [e]"
  proof (rule that)
    show "L = butlast L @ [e]" using assms unfolding ranked_def by (metis append_butlast_last_id)
  qed
  have L: "distinct L" "pred (node_at p e) = []" "set L \<subseteq> {..<length (nodes p)}" "\<forall>i < length L. ?ord (L ! i) = i"
    using assms by (auto simp: ranked_def)
  have all: "{e} \<union> set (rev M) = set L" and eM: "e \<notin> set M" using L(1) M by auto
  have tk: "take (length M) L = M" "drop (length M) L = [e]" using M by simp_all
  have e: "e < length (nodes p)" using L(3) M by auto
  have "buildable ?ord ?adj e (set (drop (length M) L)) (rev (take (length M) L))"
  proof (rule buildable_rev)
    show "\<forall>n \<in> set (take (length M) L). n \<noteq> e \<and> ?adj n \<noteq> [] \<and> (\<forall>m \<in> set (?adj n). m \<in> set L \<and> ?ord n < ?ord m)"
      unfolding tk(1)
    proof
      fix n assume n: "n \<in> set M"
      then have "n \<in> set L" "n \<noteq> e" using eM M by auto
      then show "n \<noteq> e \<and> ?adj n \<noteq> [] \<and> (\<forall>m \<in> set (?adj n). m \<in> set L \<and> ?ord n < ?ord m)"
        using assms unfolding ranked_def by blast
    qed
    show "sorted_wrt (\<lambda>a b. ?ord a < ?ord b) L" using L(4) by (simp add: sorted_wrt_iff_nth_less)
  qed (simp add: M)
  then have able: "buildable ?ord ?adj e {e} (rev M)" by (simp only: tk list.set)
  have eq: "idom ?p = (idom p)(e := Some e)" "(\<lambda>n. forward_order (node_at ?p n)) = ?ord" "(\<lambda>n. pred (node_at ?p n)) = ?adj"
    "length (nodes ?p) = length (nodes p)"
    using dom_links.link_set [OF e] dom_links.ord_set dom_builder.same_edges [OF links_only_set_idom] dom_links.size_set by simp_all
  have start: "built (idom ?p) (\<lambda>n. forward_order (node_at ?p n)) (\<lambda>n. pred (node_at ?p n)) e {e}"
    unfolding eq using L(2) by (simp add: built_def link_tree_def above_root on_all_paths_start)
  have card: "card (set L) \<le> length (nodes p)" using ranked_length [OF assms] L(1) by (simp add: distinct_card)
  moreover have "\<forall>x \<in> set (rev M). x < length (nodes p) \<and> True" using L(3) all by auto
  ultimately obtain q where q: "fold_res recompute_immediate_dominator (rev M) ?p = Ok q" "links_only ?p q"
    "built (idom q) (\<lambda>n. forward_order (node_at q n)) (\<lambda>n. pred (node_at q n)) e ({e} \<union> set (rev M))"
    using dom_builder.build_pass [of ?p e "{e}" "rev M" "set L", OF start] able all ranked_inj [OF assms] unfolding eq by auto
  have "recompute_immediate_dominator e p = Ok ?p" using L(2) by (simp add: recompute_immediate_dominator_def walk_fuel_def)
  moreover have "rev L = e # rev M" by (simp add: M)
  ultimately have run: "fold_res recompute_immediate_dominator (rev L) p = Ok q"
    using q(1) by (simp only: fold_res.simps bind_res_simps)
  have lo: "links_only p q" using links_only_set_idom q(2) by (rule links_only_trans)
  have "card (set L) < walk_fuel q"
    using card links_only_node(4) [OF lo] by (simp add: walk_fuel_def)
  then have "dominates q a n = Ok (path_dominates q e a n)" if "n \<in> set L" for n a
    using climb_built [OF q(3) [unfolded all] _ that] by (simp add: dominates_def path_dominates_def)
  then show ?thesis using run lo links_only_path [OF lo] q(3) all by auto
qed

end
