(* ===== verification/Cfg_Visit.thy ===== *)
theory Cfg_Visit
  imports Cfg_Dominance
begin

text \<open>
  The forward visit (\<open>CFGStructurizer::visit\<close>): a depth-first search that numbers the nodes in
  post order, records at most one back edge out of and into each node and takes it out of the
  edge lists. What it leaves is a ranked graph: every remaining edge goes down in the order.
\<close>

section \<open>Fields\<close>

lemma node_at_fields [simp]:
  "node_at (s\<lparr>forward_post_visit_order := a\<rparr>) = node_at s"
  "node_at (s\<lparr>backward_post_visit_order := a\<rparr>) = node_at s"
  "node_at (s\<lparr>reachability_bitset := c\<rparr>) = node_at s"
  "node_at (s\<lparr>reachability_stride := d\<rparr>) = node_at s"
  "node_at (s\<lparr>reachable_nodes := f\<rparr>) = node_at s"
  by (simp_all add: node_at_def fun_eq_iff)

lemma update_node_fields [simp]:
  fixes s :: CFGStructurizer
  shows "forward_post_visit_order (update_node n f s) = forward_post_visit_order s"
    "backward_post_visit_order (update_node n f s) = backward_post_visit_order s"
    "reachable_nodes (update_node n f s) = reachable_nodes s"
    "entry_block (update_node n f s) = entry_block s"
    "exit_block (update_node n f s) = exit_block s"
    "reachability_bitset (update_node n f s) = reachability_bitset s"
    "reachability_stride (update_node n f s) = reachability_stride s"
  by (simp_all add: update_node_def)

lemma node_at_begin:
  "node_at (begin_visit e s) n =
     (if n = e \<and> e < length (nodes s) then (node_at s e)\<lparr>visited := True, traversing := True\<rparr> else node_at s n)"
  by (simp add: begin_visit_def node_at_update)

definition drop_edge :: "nref option \<Rightarrow> nref list \<Rightarrow> nref list" where
  "drop_edge b xs = (case b of None \<Rightarrow> xs | Some x \<Rightarrow> remove1 x xs)"

lemma drop_back_edges_fields [simp]:
  "succ (drop_back_edges x) = drop_edge (succ_back_edge x) (succ x)"
  "pred (drop_back_edges x) = drop_edge (pred_back_edge x) (pred x)"
  "visited (drop_back_edges x) = visited x" "traversing (drop_back_edges x) = traversing x"
  "succ_back_edge (drop_back_edges x) = succ_back_edge x" "pred_back_edge (drop_back_edges x) = pred_back_edge x"
  by (simp_all add: drop_back_edges_def drop_edge_def Let_def split: option.split)

lemma set_drop_edge: "distinct xs \<Longrightarrow> set (drop_edge b xs) = {x \<in> set xs. b \<noteq> Some x}"
  by (auto simp: drop_edge_def split: option.split)

section \<open>Outcomes\<close>

text \<open>A routine that ends, with a result or on one of its assertions.\<close>

definition asserts :: "'a res \<Rightarrow> ('a \<Rightarrow> bool) \<Rightarrow> bool" where
  "asserts m P \<longleftrightarrow> (case m of Ok x \<Rightarrow> P x | Reject \<Rightarrow> False | Fault e \<Rightarrow> e = Assertion_Failed)"

lemma asserts_simps [simp]:
  "asserts (Ok x) P = P x" "\<not> asserts Reject P" "asserts (Fault e) P = (e = Assertion_Failed)"
  by (simp_all add: asserts_def)

lemma asserts_bind: "asserts m Q \<Longrightarrow> (\<And>x. Q x \<Longrightarrow> asserts (f x) P) \<Longrightarrow> asserts (bind_res m f) P"
  by (cases m) auto

lemma asserts_mono: "asserts m Q \<Longrightarrow> (\<And>x. Q x \<Longrightarrow> P x) \<Longrightarrow> asserts m P"
  by (cases m) auto

lemma assertsD: "asserts m P \<Longrightarrow> m = Ok x \<Longrightarrow> P x"
  by simp

text \<open>The loop over a list, with what holds after each prefix.\<close>

lemma asserts_fold:
  assumes "P [] s" and "\<And>ys x t. P ys t \<Longrightarrow> (\<exists>zs. xs = ys @ x # zs) \<Longrightarrow> asserts (f x t) (P (ys @ [x]))"
  shows "asserts (fold_res f xs s) (P xs)"
proof -
  have "asserts (fold_res f zs t) (P xs)" if "xs = ys @ zs" "P ys t" for ys zs t
    using that
  proof (induction zs arbitrary: ys t)
    case (Cons z zs)
    have "asserts (f z t) (P (ys @ [z]))" using assms(2) Cons.prems by blast
    then show ?case using Cons.IH [of "ys @ [z]"] Cons.prems(1) by (auto intro: asserts_bind)
  qed simp
  from this [of "[]" xs s] show ?thesis using assms(1) by simp
qed

section \<open>The search\<close>

text \<open>
  The graph before the visit: every edge is in both lists, none twice, and the lists stay in
  the pool.
\<close>

definition edges_ok :: "'a CFGNodePool_scheme \<Rightarrow> bool" where
  "edges_ok p \<longleftrightarrow>
     (\<forall>n < length (nodes p). distinct (succ (node_at p n)) \<and> distinct (pred (node_at p n)) \<and>
        (\<forall>m \<in> set (succ (node_at p n)) \<union> set (pred (node_at p n)). m < length (nodes p)) \<and>
        (\<forall>m < length (nodes p). m \<in> set (succ (node_at p n)) \<longleftrightarrow> n \<in> set (pred (node_at p m))))"

definition succ_rel :: "'a CFGNodePool_scheme \<Rightarrow> (nref \<times> nref) set" where
  "succ_rel p = {(a, b). b \<in> set (succ (node_at p a))}"

text \<open>
  The invariant, relative to the graph \<open>g\<close> before the visit and its entry \<open>r\<close>: finished nodes
  are listed and numbered, their edge lists have lost the back edges, and their remaining
  successors are finished and numbered lower; the other nodes have the lists they started with.
\<close>

definition searching :: "CFGStructurizer \<Rightarrow> nref \<Rightarrow> CFGStructurizer \<Rightarrow> bool" where
  "searching g r s \<longleftrightarrow>
     length (nodes s) = length (nodes g) \<and> distinct (forward_post_visit_order s) \<and>
     set (forward_post_visit_order s) \<subseteq> {..<length (nodes g)} \<and>
     (\<forall>n. visited (node_at s n) \<longleftrightarrow> n \<in> set (forward_post_visit_order s) \<or> traversing (node_at s n)) \<and>
     (\<forall>n. traversing (node_at s n) \<longrightarrow> n \<notin> set (forward_post_visit_order s)) \<and>
     (\<forall>n. visited (node_at s n) \<longrightarrow> n < length (nodes g) \<and> (r, n) \<in> (succ_rel g)\<^sup>*) \<and>
     reachable_nodes s = {n. visited (node_at s n)} \<and>
     (\<forall>i < length (forward_post_visit_order s). forward_order (node_at s (forward_post_visit_order s ! i)) = i) \<and>
     (\<forall>n. n \<notin> set (forward_post_visit_order s) \<longrightarrow>
        succ (node_at s n) = succ (node_at g n) \<and> pred (node_at s n) = pred (node_at g n)) \<and>
     (\<forall>n \<in> set (forward_post_visit_order s).
        succ (node_at s n) = drop_edge (succ_back_edge (node_at s n)) (succ (node_at g n)) \<and>
        pred (node_at s n) = drop_edge (pred_back_edge (node_at s n)) (pred (node_at g n)) \<and>
        (\<forall>c \<in> set (succ (node_at s n)). c \<in> set (forward_post_visit_order s) \<and>
           forward_order (node_at s c) < forward_order (node_at s n))) \<and>
     (\<forall>n h. succ_back_edge (node_at s n) = Some h \<longleftrightarrow> pred_back_edge (node_at s h) = Some n) \<and>
     (\<forall>n h. succ_back_edge (node_at s n) = Some h \<longrightarrow> h \<in> set (succ (node_at g n)) \<and> visited (node_at s n) \<and> visited (node_at s h))"

text \<open>What a step of the search keeps; \<open>E\<close> are the nodes whose outgoing back edge it may set.\<close>

definition extends_search :: "nref set \<Rightarrow> CFGStructurizer \<Rightarrow> CFGStructurizer \<Rightarrow> bool" where
  "extends_search E s t \<longleftrightarrow>
     (\<exists>xs. forward_post_visit_order t = forward_post_visit_order s @ xs) \<and>
     (\<forall>n. visited (node_at s n) \<longrightarrow> visited (node_at t n)) \<and>
     (\<forall>n. traversing (node_at t n) = traversing (node_at s n)) \<and>
     (\<forall>n \<in> set (forward_post_visit_order s). node_at t n = node_at s n) \<and>
     (\<forall>n. visited (node_at s n) \<and> n \<notin> E \<longrightarrow> succ_back_edge (node_at t n) = succ_back_edge (node_at s n)) \<and>
     (\<forall>n h. succ_back_edge (node_at t n) = Some h \<and> h \<in> set (forward_post_visit_order s) \<longrightarrow>
        succ_back_edge (node_at s n) = Some h)"

text \<open>A finished node other than the root of the search has a tree edge into it.\<close>

definition has_parent :: "CFGStructurizer \<Rightarrow> CFGStructurizer \<Rightarrow> nref \<Rightarrow> bool" where
  "has_parent g s n \<longleftrightarrow>
     (\<exists>m. visited (node_at s m) \<and> n \<in> set (succ (node_at g m)) \<and> succ_back_edge (node_at s m) \<noteq> Some n)"

abbreviation order_of :: "CFGStructurizer \<Rightarrow> nref list" where
  "order_of \<equiv> forward_post_visit_order"

lemma searchingD:
  assumes "searching g r s"
  shows "length (nodes s) = length (nodes g)" "distinct (order_of s)" "set (order_of s) \<subseteq> {..<length (nodes g)}"
    "visited (node_at s n) \<longleftrightarrow> n \<in> set (order_of s) \<or> traversing (node_at s n)"
    "traversing (node_at s n) \<Longrightarrow> n \<notin> set (order_of s)"
    "visited (node_at s n) \<Longrightarrow> n < length (nodes g)" "visited (node_at s n) \<Longrightarrow> (r, n) \<in> (succ_rel g)\<^sup>*"
    "reachable_nodes s = {n. visited (node_at s n)}"
    "i < length (order_of s) \<Longrightarrow> forward_order (node_at s (order_of s ! i)) = i"
    "n \<notin> set (order_of s) \<Longrightarrow> succ (node_at s n) = succ (node_at g n)"
    "n \<notin> set (order_of s) \<Longrightarrow> pred (node_at s n) = pred (node_at g n)"
    "n \<in> set (order_of s) \<Longrightarrow> succ (node_at s n) = drop_edge (succ_back_edge (node_at s n)) (succ (node_at g n))"
    "n \<in> set (order_of s) \<Longrightarrow> pred (node_at s n) = drop_edge (pred_back_edge (node_at s n)) (pred (node_at g n))"
    "n \<in> set (order_of s) \<Longrightarrow> c \<in> set (succ (node_at s n)) \<Longrightarrow>
       c \<in> set (order_of s) \<and> forward_order (node_at s c) < forward_order (node_at s n)"
    "succ_back_edge (node_at s n) = Some h \<longleftrightarrow> pred_back_edge (node_at s h) = Some n"
    "succ_back_edge (node_at s n) = Some h \<Longrightarrow> h \<in> set (succ (node_at g n)) \<and> visited (node_at s n) \<and> visited (node_at s h)"
  using assms unfolding searching_def by - (elim conjE, (assumption | blast))+

lemma searchingI:
  assumes "length (nodes s) = length (nodes g)" "distinct (order_of s)" "set (order_of s) \<subseteq> {..<length (nodes g)}"
    "\<And>n. visited (node_at s n) \<longleftrightarrow> n \<in> set (order_of s) \<or> traversing (node_at s n)"
    "\<And>n. traversing (node_at s n) \<Longrightarrow> n \<notin> set (order_of s)"
    "\<And>n. visited (node_at s n) \<Longrightarrow> n < length (nodes g)" "\<And>n. visited (node_at s n) \<Longrightarrow> (r, n) \<in> (succ_rel g)\<^sup>*"
    "reachable_nodes s = {n. visited (node_at s n)}"
    "\<And>i. i < length (order_of s) \<Longrightarrow> forward_order (node_at s (order_of s ! i)) = i"
    "\<And>n. n \<notin> set (order_of s) \<Longrightarrow> succ (node_at s n) = succ (node_at g n)"
    "\<And>n. n \<notin> set (order_of s) \<Longrightarrow> pred (node_at s n) = pred (node_at g n)"
    "\<And>n. n \<in> set (order_of s) \<Longrightarrow> succ (node_at s n) = drop_edge (succ_back_edge (node_at s n)) (succ (node_at g n))"
    "\<And>n. n \<in> set (order_of s) \<Longrightarrow> pred (node_at s n) = drop_edge (pred_back_edge (node_at s n)) (pred (node_at g n))"
    "\<And>n c. n \<in> set (order_of s) \<Longrightarrow> c \<in> set (succ (node_at s n)) \<Longrightarrow>
       c \<in> set (order_of s) \<and> forward_order (node_at s c) < forward_order (node_at s n)"
    "\<And>n h. succ_back_edge (node_at s n) = Some h \<longleftrightarrow> pred_back_edge (node_at s h) = Some n"
    "\<And>n h. succ_back_edge (node_at s n) = Some h \<Longrightarrow> h \<in> set (succ (node_at g n)) \<and> visited (node_at s n) \<and> visited (node_at s h)"
  shows "searching g r s"
  unfolding searching_def
  by (intro conjI allI ballI impI; (rule assms; assumption)?) (use assms(14,16) in blast)+

lemma extendsD:
  assumes "extends_search E s t"
  shows "\<exists>xs. order_of t = order_of s @ xs" "visited (node_at s n) \<Longrightarrow> visited (node_at t n)"
    "traversing (node_at t n) = traversing (node_at s n)" "n \<in> set (order_of s) \<Longrightarrow> node_at t n = node_at s n"
    "visited (node_at s n) \<Longrightarrow> n \<notin> E \<Longrightarrow> succ_back_edge (node_at t n) = succ_back_edge (node_at s n)"
    "succ_back_edge (node_at t n) = Some h \<Longrightarrow> h \<in> set (order_of s) \<Longrightarrow> succ_back_edge (node_at s n) = Some h"
    "n \<in> set (order_of s) \<Longrightarrow> n \<in> set (order_of t)"
proof -
  note ext = assms [unfolded extends_search_def]
  show *: "\<exists>xs. order_of t = order_of s @ xs" using ext by blast
  show "n \<in> set (order_of s) \<Longrightarrow> n \<in> set (order_of t)" using * by auto
qed (use assms in \<open>unfold extends_search_def, blast+\<close>)

lemma extends_search_refl [simp]: "extends_search E s s"
  by (simp add: extends_search_def)

lemma extends_search_trans:
  assumes "extends_search E s t" and "extends_search E t u"
  shows "extends_search E s u"
  unfolding extends_search_def
proof (intro conjI allI ballI impI)
  show "\<exists>xs. order_of u = order_of s @ xs" using extendsD(1) [OF assms(1)] extendsD(1) [OF assms(2)] by auto
  show "visited (node_at u n)" if "visited (node_at s n)" for n
    using that extendsD(2) [OF assms(1)] extendsD(2) [OF assms(2)] by blast
  show "traversing (node_at u n) = traversing (node_at s n)" for n
    using extendsD(3) [OF assms(1)] extendsD(3) [OF assms(2)] by simp
  show "node_at u n = node_at s n" if "n \<in> set (order_of s)" for n
    using that extendsD(4) [OF assms(2), of n] extendsD(4,7) [OF assms(1), of n] by simp
  show "succ_back_edge (node_at u n) = succ_back_edge (node_at s n)" if "visited (node_at s n) \<and> n \<notin> E" for n
    using that extendsD(2,5) [OF assms(1), of n] extendsD(5) [OF assms(2), of n] by simp
  show "succ_back_edge (node_at s n) = Some h" if "succ_back_edge (node_at u n) = Some h \<and> h \<in> set (order_of s)" for n h
    using that extendsD(6) [OF assms(1), of n h] extendsD(6) [OF assms(2), of n h] extendsD(7) [OF assms(1), of h] by simp
qed

lemma extends_search_mono: "extends_search E s t \<Longrightarrow> E \<subseteq> F \<Longrightarrow> extends_search F s t"
  unfolding extends_search_def by blast

lemma has_parent_extends:
  "has_parent g s n \<Longrightarrow> n \<in> set (order_of s) \<Longrightarrow> extends_search E s t \<Longrightarrow> has_parent g t n"
  unfolding has_parent_def using extendsD(2,6) by blast

section \<open>The steps\<close>

lemma begin_searching:
  assumes s: "searching g r s" and e: "\<not> visited (node_at s e)" "e < length (nodes g)" "(r, e) \<in> (succ_rel g)\<^sup>*"
  shows "searching g r (begin_visit e s)"
proof -
  let ?t = "begin_visit e s"
  have len: "e < length (nodes s)" using e(2) searchingD(1) [OF s] by simp
  have at: "node_at ?t n = (if n = e then (node_at s e)\<lparr>visited := True, traversing := True\<rparr> else node_at s n)" for n
    using len by (simp add: node_at_begin)
  have ord: "order_of ?t = order_of s" "length (nodes ?t) = length (nodes s)" by (simp_all add: begin_visit_def)
  have eL: "e \<notin> set (order_of s)" using e(1) searchingD(4) [OF s] by blast
  have same: "node_at ?t n = node_at s n" if "n \<in> set (order_of s)" for n using that eL by (auto simp: at)
  have fields: "succ (node_at ?t n) = succ (node_at s n)" "pred (node_at ?t n) = pred (node_at s n)"
    "succ_back_edge (node_at ?t n) = succ_back_edge (node_at s n)" "pred_back_edge (node_at ?t n) = pred_back_edge (node_at s n)"
    "forward_order (node_at ?t n) = forward_order (node_at s n)"
    "visited (node_at ?t n) \<longleftrightarrow> n = e \<or> visited (node_at s n)" "traversing (node_at ?t n) \<longleftrightarrow> n = e \<or> traversing (node_at s n)" for n
    by (auto simp: at)
  have "reachable_nodes ?t = insert e (reachable_nodes s)" by (simp add: begin_visit_def)
  then have "reachable_nodes ?t = {n. visited (node_at ?t n)}" using searchingD(8) [OF s] fields by auto
  show ?thesis
  proof (rule searchingI; (unfold fields(1-5) ord)?)
    show "reachable_nodes ?t = {n. visited (node_at ?t n)}" by fact
    show "visited (node_at ?t n) \<longleftrightarrow> n \<in> set (order_of s) \<or> traversing (node_at ?t n)" for n
      using searchingD(4) [OF s, of n] fields by auto
    show "n \<notin> set (order_of s)" if "traversing (node_at ?t n)" for n
      using that searchingD(5) [OF s, of n] eL fields by auto
    show "n < length (nodes g)" "(r, n) \<in> (succ_rel g)\<^sup>*" if "visited (node_at ?t n)" for n
      using that searchingD(6,7) [OF s, of n] e(2,3) fields by auto
    show "h \<in> set (succ (node_at g n)) \<and> visited (node_at ?t n) \<and> visited (node_at ?t h)"
      if "succ_back_edge (node_at s n) = Some h" for n h
      using searchingD(16) [OF s that] fields by simp
  qed (use searchingD(1-3) [OF s] in assumption | (rule searchingD [OF s]; assumption))+
qed

text \<open>A successor on the current path closes a back edge.\<close>

lemma back_edge_searching:
  assumes s: "searching g r s" and e: "traversing (node_at s e)" "traversing (node_at s c)" "c \<in> set (succ (node_at g e))"
    and sb: "succ_back_edge (node_at s e) \<in> {None, Some c}" and pb: "pred_back_edge (node_at s c) \<in> {None, Some e}"
    and t: "t = update_node c (\<lambda>x. x\<lparr>pred_back_edge := Some e\<rparr>) (update_node e (\<lambda>x. x\<lparr>succ_back_edge := Some c\<rparr>) s)"
  shows "searching g r t \<and> extends_search {e} s t \<and> succ_back_edge (node_at t e) = Some c"
proof -
  have vis: "visited (node_at s e)" "visited (node_at s c)" using e searchingD(4) [OF s] by blast+
  then have len: "e < length (nodes s)" "c < length (nodes s)"
    using searchingD(6) [OF s] searchingD(1) [OF s] by auto
  have ord: "order_of t = order_of s" "length (nodes t) = length (nodes s)" "reachable_nodes t = reachable_nodes s"
    using t by simp_all
  have same: "node_at t n = node_at s n" if "n \<noteq> e" "n \<noteq> c" for n
    using that t by (simp add: node_at_update)
  have fields: "succ (node_at t n) = succ (node_at s n)" "pred (node_at t n) = pred (node_at s n)"
    "forward_order (node_at t n) = forward_order (node_at s n)"
    "visited (node_at t n) = visited (node_at s n)" "traversing (node_at t n) = traversing (node_at s n)" for n
    using t by (auto simp: node_at_update)
  have sbe: "succ_back_edge (node_at t n) = (if n = e then Some c else succ_back_edge (node_at s n))" for n
    using t len by (auto simp: node_at_update)
  have pbe: "pred_back_edge (node_at t n) = (if n = c then Some e else pred_back_edge (node_at s n))" for n
    using t len by (auto simp: node_at_update)
  have black: "e \<notin> set (order_of s)" "c \<notin> set (order_of s)" using e(1,2) searchingD(5) [OF s] by blast+
  then have sbe_black: "succ_back_edge (node_at t n) = succ_back_edge (node_at s n)"
    "pred_back_edge (node_at t n) = pred_back_edge (node_at s n)" if "n \<in> set (order_of s)" for n
    using that sbe pbe by auto
  note inv = searchingD(15) [OF s]
  have pair: "succ_back_edge (node_at t n) = Some h \<longleftrightarrow> pred_back_edge (node_at t h) = Some n" for n h
    unfolding sbe pbe using inv [of e h] inv [of n c] inv [of n h] sb pb by (cases "n = e"; cases "h = c") auto
  have target: "h \<in> set (succ (node_at g n)) \<and> visited (node_at t n) \<and> visited (node_at t h)"
    if "succ_back_edge (node_at t n) = Some h" for n h
    using that searchingD(16) [OF s, of n h] e(3) vis unfolding sbe fields by (cases "n = e") auto
  have lists: "succ (node_at s n) = drop_edge (succ_back_edge (node_at t n)) (succ (node_at g n))"
    "pred (node_at s n) = drop_edge (pred_back_edge (node_at t n)) (pred (node_at g n))" if "n \<in> set (order_of s)" for n
    using searchingD(12,13) [OF s that] sbe_black [OF that] by simp_all
  have "searching g r t"
  proof (rule searchingI, unfold fields ord)
    show "length (nodes s) = length (nodes g)" "distinct (order_of s)" "set (order_of s) \<subseteq> {..<length (nodes g)}"
      "reachable_nodes s = {n. visited (node_at s n)}" by (rule searchingD [OF s])+
    show "visited (node_at s n) \<longleftrightarrow> n \<in> set (order_of s) \<or> traversing (node_at s n)" for n by (rule searchingD [OF s])
    show "n \<notin> set (order_of s)" if "traversing (node_at s n)" for n using that by (rule searchingD [OF s])
    show "n < length (nodes g)" if "visited (node_at s n)" for n using that by (rule searchingD [OF s])
    show "(r, n) \<in> (succ_rel g)\<^sup>*" if "visited (node_at s n)" for n using that by (rule searchingD [OF s])
    show "forward_order (node_at s (order_of s ! i)) = i" if "i < length (order_of s)" for i using that by (rule searchingD [OF s])
    show "succ (node_at s n) = succ (node_at g n)" if "n \<notin> set (order_of s)" for n using that by (rule searchingD [OF s])
    show "pred (node_at s n) = pred (node_at g n)" if "n \<notin> set (order_of s)" for n using that by (rule searchingD [OF s])
    show "c \<in> set (order_of s) \<and> forward_order (node_at s c) < forward_order (node_at s n)"
      if "n \<in> set (order_of s)" "c \<in> set (succ (node_at s n))" for n c using that by (rule searchingD [OF s])
  qed (fact lists pair target [unfolded fields])+
  moreover have "extends_search {e} s t"
    unfolding extends_search_def fields ord
  proof (intro conjI allI ballI impI)
    show "node_at t n = node_at s n" if "n \<in> set (order_of s)" for n
      using that black by (intro same) auto
  qed (use black in \<open>auto simp: sbe split: if_splits\<close>)
  ultimately show ?thesis using sbe by simp
qed

text \<open>The end of a visit.\<close>

lemma finish_searching:
  assumes t: "searching g r t" and e: "traversing (node_at t e)" and g: "edges_ok g" "length (nodes g) \<le> 2 ^ 32"
    and children: "\<forall>c \<in> set (succ (node_at g e)). c \<in> set (order_of t) \<or> succ_back_edge (node_at t e) = Some c"
  shows "searching g r (finish_visit e t) \<and> order_of (finish_visit e t) = order_of t @ [e] \<and>
    (\<forall>n. n \<noteq> e \<longrightarrow> node_at (finish_visit e t) n = node_at t n) \<and>
    succ_back_edge (node_at (finish_visit e t) e) = succ_back_edge (node_at t e) \<and>
    visited (node_at (finish_visit e t) e) \<and> \<not> traversing (node_at (finish_visit e t) e)"
proof -
  let ?s = "finish_visit e t" and ?L = "order_of t"
  have vis: "visited (node_at t e)" using e searchingD(4) [OF t] by blast
  then have len: "e < length (nodes t)" "e < length (nodes g)" using searchingD(6) [OF t] searchingD(1) [OF t] by auto
  have eL: "e \<notin> set ?L" using e searchingD(5) [OF t] by blast
  have sub: "insert e (set ?L) \<subseteq> {..<length (nodes g)}" using searchingD(3) [OF t] len(2) by simp
  have "length ?L < length (nodes g)"
    using card_mono [OF _ sub] eL distinct_card [OF searchingD(2) [OF t]] by simp
  then have num: "u32_of (length ?L) = length ?L" using g(2) by simp
  have at: "node_at ?s n = (if n = e then (drop_back_edges (node_at t e))\<lparr>traversing := False, forward_order := length ?L\<rparr> else node_at t n)" for n
    using len by (simp add: finish_visit_def Let_def node_at_update num)
  have ord: "order_of ?s = ?L @ [e]" "length (nodes ?s) = length (nodes t)" "reachable_nodes ?s = reachable_nodes t"
    by (simp_all add: finish_visit_def Let_def)
  have fields: "visited (node_at ?s n) = visited (node_at t n)"
    "traversing (node_at ?s n) = (n \<noteq> e \<and> traversing (node_at t n))"
    "succ_back_edge (node_at ?s n) = succ_back_edge (node_at t n)" "pred_back_edge (node_at ?s n) = pred_back_edge (node_at t n)" for n
    by (simp_all add: at)
  have old: "node_at ?s n = node_at t n" if "n \<in> set ?L" for n using that eL by (auto simp: at)
  have lists: "succ (node_at ?s e) = drop_edge (succ_back_edge (node_at t e)) (succ (node_at g e))"
    "pred (node_at ?s e) = drop_edge (pred_back_edge (node_at t e)) (pred (node_at g e))"
    "forward_order (node_at ?s e) = length ?L"
    using searchingD(10,11) [OF t eL] by (simp_all add: at)
  have "distinct (succ (node_at g e))" using g(1) len(2) by (simp add: edges_ok_def)
  then have kids: "c \<in> set ?L" if "c \<in> set (succ (node_at ?s e))" for c
    using that children unfolding lists by (auto simp: set_drop_edge)
  have low: "forward_order (node_at ?s c) < length ?L" if "c \<in> set ?L" for c
    using that searchingD(9) [OF t] old [OF that] by (auto simp: in_set_conv_nth)
  have numbers: "\<forall>i < length (?L @ [e]). forward_order (node_at ?s ((?L @ [e]) ! i)) = i"
    using searchingD(9) [OF t] old lists(3) by (auto simp: nth_append less_Suc_eq)
  have done_lists: "\<forall>n \<in> set (?L @ [e]). succ (node_at ?s n) = drop_edge (succ_back_edge (node_at ?s n)) (succ (node_at g n)) \<and>
      pred (node_at ?s n) = drop_edge (pred_back_edge (node_at ?s n)) (pred (node_at g n)) \<and>
      (\<forall>c \<in> set (succ (node_at ?s n)). c \<in> set (?L @ [e]) \<and> forward_order (node_at ?s c) < forward_order (node_at ?s n))"
  proof
    fix n assume n: "n \<in> set (?L @ [e])"
    show "succ (node_at ?s n) = drop_edge (succ_back_edge (node_at ?s n)) (succ (node_at g n)) \<and>
      pred (node_at ?s n) = drop_edge (pred_back_edge (node_at ?s n)) (pred (node_at g n)) \<and>
      (\<forall>c \<in> set (succ (node_at ?s n)). c \<in> set (?L @ [e]) \<and> forward_order (node_at ?s c) < forward_order (node_at ?s n))"
    proof (cases "n = e")
      case True
      then show ?thesis using lists kids low fields by simp
    next
      case False
      then have nL: "n \<in> set ?L" using n by simp
      have "c \<in> set ?L \<and> forward_order (node_at ?s c) < forward_order (node_at ?s n)" if "c \<in> set (succ (node_at ?s n))" for c
        using searchingD(14) [OF t nL, of c] that old nL by simp
      then show ?thesis using searchingD(12,13) [OF t nL] old [OF nL] by auto
    qed
  qed
  have "searching g r ?s"
  proof (rule searchingI, unfold ord fields)
    show "length (nodes t) = length (nodes g)" "reachable_nodes t = {n. visited (node_at t n)}" by (rule searchingD [OF t])+
    show "distinct (?L @ [e])" "set (?L @ [e]) \<subseteq> {..<length (nodes g)}" using searchingD(2) [OF t] eL sub by auto
    show "visited (node_at t n) \<longleftrightarrow> n \<in> set (?L @ [e]) \<or> n \<noteq> e \<and> traversing (node_at t n)" for n
      using searchingD(4) [OF t, of n] vis by auto
    show "n \<notin> set (?L @ [e])" if "n \<noteq> e \<and> traversing (node_at t n)" for n using searchingD(5) [OF t, of n] that by auto
    show "n < length (nodes g)" if "visited (node_at t n)" for n using that by (rule searchingD [OF t])
    show "(r, n) \<in> (succ_rel g)\<^sup>*" if "visited (node_at t n)" for n using that by (rule searchingD [OF t])
    show "succ (node_at ?s n) = succ (node_at g n)" "pred (node_at ?s n) = pred (node_at g n)" if "n \<notin> set (?L @ [e])" for n
      using that searchingD(10,11) [OF t, of n] by (simp_all add: at)
    show "succ_back_edge (node_at t n) = Some h \<longleftrightarrow> pred_back_edge (node_at t h) = Some n" for n h by (rule searchingD [OF t])
    show "h \<in> set (succ (node_at g n)) \<and> visited (node_at t n) \<and> visited (node_at t h)"
      if "succ_back_edge (node_at t n) = Some h" for n h using that by (rule searchingD [OF t])
    show "forward_order (node_at ?s ((?L @ [e]) ! i)) = i" if "i < length (?L @ [e])" for i
      using numbers that by blast
    show "succ (node_at ?s n) = drop_edge (succ_back_edge (node_at t n)) (succ (node_at g n))"
      "pred (node_at ?s n) = drop_edge (pred_back_edge (node_at t n)) (pred (node_at g n))" if "n \<in> set (?L @ [e])" for n
      using bspec [OF done_lists that] unfolding fields by blast+
    show "c \<in> set (?L @ [e]) \<and> forward_order (node_at ?s c) < forward_order (node_at ?s n)"
      if "n \<in> set (?L @ [e])" "c \<in> set (succ (node_at ?s n))" for n c
      using bspec [OF done_lists that(1)] that(2) by blast
  qed
  then show ?thesis using ord at fields vis by simp
qed

section \<open>The search as a whole\<close>

definition unvisited :: "CFGStructurizer \<Rightarrow> nref set" where
  "unvisited s = {n. n < length (nodes s) \<and> \<not> visited (node_at s n)}"

lemma finite_unvisited [simp]: "finite (unvisited s)"
  by (simp add: unvisited_def)

lemma unvisited_extends:
  "extends_search E s t \<Longrightarrow> length (nodes t) = length (nodes s) \<Longrightarrow> unvisited t \<subseteq> unvisited s"
  unfolding unvisited_def using extendsD(2) by fastforce

text \<open>What a visit of \<open>e\<close> from state \<open>s\<close> achieves.\<close>

definition visited_from :: "CFGStructurizer \<Rightarrow> nref \<Rightarrow> nref \<Rightarrow> CFGStructurizer \<Rightarrow> CFGStructurizer \<Rightarrow> bool" where
  "visited_from g r e s t \<longleftrightarrow>
     searching g r t \<and> extends_search {} s t \<and> e \<in> set (order_of t) \<and> entry_block t = entry_block s \<and>
     (\<forall>n \<in> set (order_of t) - set (order_of s). n \<noteq> e \<longrightarrow> has_parent g t n)"

text \<open>What the loop over the successors of \<open>e\<close> has achieved after the prefix \<open>cs\<close>.\<close>

definition visited_children :: "CFGStructurizer \<Rightarrow> nref \<Rightarrow> nref \<Rightarrow> CFGStructurizer \<Rightarrow> nref list \<Rightarrow> CFGStructurizer \<Rightarrow> bool" where
  "visited_children g r e s cs t \<longleftrightarrow>
     searching g r t \<and> extends_search {e} s t \<and> entry_block t = entry_block s \<and>
     (\<forall>c \<in> set cs. c \<in> set (order_of t) \<or> succ_back_edge (node_at t e) = Some c) \<and>
     (\<forall>n \<in> set (order_of t) - set (order_of s). has_parent g t n)"

lemma visit_edge_step:
  assumes rec: "\<And>c t. searching g r t \<Longrightarrow> \<not> visited (node_at t c) \<Longrightarrow> c < length (nodes g) \<Longrightarrow>
      (r, c) \<in> (succ_rel g)\<^sup>* \<Longrightarrow> card (unvisited t) \<le> k \<Longrightarrow> asserts (rec c t) (visited_from g r c t)"
    and g: "edges_ok g" and e: "traversing (node_at s e)" "e < length (nodes g)" "c \<in> set (succ (node_at g e))"
    and k: "card (unvisited s) \<le> k" and len: "length (nodes s) = length (nodes g)"
    and t: "visited_children g r e s cs t"
  shows "asserts (visit_edge rec e c t) (visited_children g r e s (cs @ [c]))"
proof -
  have st: "searching g r t" "extends_search {e} s t" "entry_block t = entry_block s"
    "\<forall>c \<in> set cs. c \<in> set (order_of t) \<or> succ_back_edge (node_at t e) = Some c"
    "\<forall>n \<in> set (order_of t) - set (order_of s). has_parent g t n"
    using t by (simp_all add: visited_children_def)
  have gray: "traversing (node_at t e)" using e(1) extendsD(3) [OF st(2)] by simp
  then have vis: "visited (node_at t e)" using searchingD(4) [OF st(1)] by blast
  have c: "c < length (nodes g)" using g e(2,3) unfolding edges_ok_def by blast
  have reach: "(r, c) \<in> (succ_rel g)\<^sup>*"
    using rtrancl_into_rtrancl [OF searchingD(7) [OF st(1) vis], of c] e(3) by (simp add: succ_rel_def)
  consider (onpath) "traversing (node_at t c)" | (new) "\<not> traversing (node_at t c)" "\<not> visited (node_at t c)"
    | (past) "\<not> traversing (node_at t c)" "visited (node_at t c)" by blast
  then show ?thesis
  proof cases
    case onpath
    let ?t1 = "update_node e (\<lambda>x. x\<lparr>succ_back_edge := Some c\<rparr>) t"
    let ?t2 = "update_node c (\<lambda>x. x\<lparr>pred_back_edge := Some e\<rparr>) ?t1"
    have pb: "pred_back_edge (node_at ?t1 c) = pred_back_edge (node_at t c)" by (simp add: node_at_update)
    show ?thesis
    proof (cases "succ_back_edge (node_at t e) \<in> {None, Some c} \<and> pred_back_edge (node_at t c) \<in> {None, Some e}")
      case True
      then have ok: "searching g r ?t2 \<and> extends_search {e} t ?t2 \<and> succ_back_edge (node_at ?t2 e) = Some c"
        using back_edge_searching [OF st(1) gray onpath e(3) _ _ refl] by blast
      have run: "visit_edge rec e c t = Ok ?t2"
        using onpath True pb unfolding visit_edge_def Let_def by auto
      have ord: "order_of ?t2 = order_of t" by simp
      have old: "d \<in> set (order_of ?t2) \<or> succ_back_edge (node_at ?t2 e) = Some d" if "d \<in> set cs" for d
        using st(4) that ok True ord by auto
      have "has_parent g ?t2 n" if "n \<in> set (order_of ?t2) - set (order_of s)" for n
        using st(5) that ok has_parent_extends [of g t n "{e}" ?t2] by simp
      then show ?thesis
        using run ok old extends_search_trans [OF st(2)] st(3) by (simp add: visited_children_def)
    next
      case False
      then have "visit_edge rec e c t = Fault Assertion_Failed"
        using onpath pb unfolding visit_edge_def Let_def by auto
      then show ?thesis by simp
    qed
  next
    case new
    have "unvisited t \<subseteq> unvisited s" using st(2) by (rule unvisited_extends) (simp add: searchingD(1) [OF st(1)] len)
    then have "card (unvisited t) \<le> k" using card_mono [of "unvisited s" "unvisited t"] k by simp
    then have "asserts (rec c t) (visited_from g r c t)" by (rule rec [OF st(1) new(2) c reach])
    then have "asserts (rec c t) (visited_children g r e s (cs @ [c]))"
    proof (rule asserts_mono)
      fix u assume u: "visited_from g r c t u"
      then have su: "searching g r u" "extends_search {} t u" "c \<in> set (order_of u)" "entry_block u = entry_block t"
        "\<forall>n \<in> set (order_of u) - set (order_of t). n \<noteq> c \<longrightarrow> has_parent g u n"
        by (simp_all add: visited_from_def)
      have sbe: "succ_back_edge (node_at u e) = succ_back_edge (node_at t e)" using extendsD(5) [OF su(2) vis] by simp
      have visu: "visited (node_at u e)" using extendsD(2) [OF su(2) vis] .
      have "succ_back_edge (node_at t e) \<noteq> Some c" using searchingD(16) [OF st(1), of e c] new(2) by blast
      then have "has_parent g u c" unfolding has_parent_def using visu e(3) sbe by metis
      moreover have "has_parent g u n" if "n \<in> set (order_of t)" "n \<notin> set (order_of s)" for n
        using st(5) that su(2) has_parent_extends [of g t n "{}" u] by simp
      ultimately have "\<forall>n \<in> set (order_of u) - set (order_of s). has_parent g u n"
        using su(5) by (metis DiffE DiffI)
      moreover have "\<forall>d \<in> set (cs @ [c]). d \<in> set (order_of u) \<or> succ_back_edge (node_at u e) = Some d"
        using st(4) su(3) sbe extendsD(7) [OF su(2)] by auto
      moreover have "extends_search {e} s u"
        using extends_search_trans [OF st(2) extends_search_mono [OF su(2)]] by simp
      ultimately show "visited_children g r e s (cs @ [c]) u"
        using su(1,4) st(3) by (simp add: visited_children_def)
    qed
    moreover have "visit_edge rec e c t = rec c t" using new by (simp add: visit_edge_def)
    ultimately show ?thesis by simp
  next
    case past
    then have "c \<in> set (order_of t)" using searchingD(4) [OF st(1)] by blast
    moreover have "visit_edge rec e c t = Ok t" using past by (simp add: visit_edge_def)
    ultimately show ?thesis using st by (auto simp: visited_children_def)
  qed
qed

text \<open>The visit ends within its fuel, on a ranked graph or on one of its assertions.\<close>

lemma visit_at_ok:
  assumes g: "edges_ok g" "length (nodes g) \<le> 2 ^ 32"
  shows "searching g r s \<Longrightarrow> \<not> visited (node_at s e) \<Longrightarrow> e < length (nodes g) \<Longrightarrow> (r, e) \<in> (succ_rel g)\<^sup>* \<Longrightarrow>
    card (unvisited s) \<le> k \<Longrightarrow> asserts (visit_at k e s) (visited_from g r e s)"
proof (induction k arbitrary: e s)
  case 0
  then have "e \<in> unvisited s" using searchingD(1) [OF 0(1)] by (simp add: unvisited_def)
  then show ?case using 0(5) by (auto simp: card_eq_0_iff)
next
  case (Suc k)
  let ?b = "begin_visit e s"
  note s = Suc.prems(1)
  have len: "length (nodes ?b) = length (nodes g)" "e < length (nodes s)"
    using searchingD(1) [OF s] Suc.prems(3) by (simp_all add: begin_visit_def)
  have at: "node_at ?b n = (if n = e then (node_at s e)\<lparr>visited := True, traversing := True\<rparr> else node_at s n)" for n
    using len(2) by (simp add: node_at_begin)
  have b: "searching g r ?b" by (rule begin_searching [OF s Suc.prems(2-4)])
  have gray: "traversing (node_at ?b e)" by (simp add: at)
  have eL: "e \<notin> set (order_of s)" using Suc.prems(2) searchingD(4) [OF s] by blast
  have ord: "order_of ?b = order_of s" "entry_block ?b = entry_block s" by (simp_all add: begin_visit_def)
  have "e \<in> unvisited s" "unvisited ?b = unvisited s - {e}"
    using Suc.prems(2) len searchingD(1) [OF s] unfolding unvisited_def at by auto
  then have card: "card (unvisited ?b) \<le> k" using Suc.prems(5) by simp
  have succs: "succ (node_at s e) = succ (node_at g e)" by (rule searchingD(10) [OF s eL])
  have "asserts (fold_res (visit_edge (visit_at k) e) (succ (node_at g e)) ?b)
      (visited_children g r e ?b (succ (node_at g e)))"
  proof (rule asserts_fold)
    show "visited_children g r e ?b [] ?b" using b by (simp add: visited_children_def)
  next
    fix cs c t assume t: "visited_children g r e ?b cs t" and c: "\<exists>zs. succ (node_at g e) = cs @ c # zs"
    have kid: "c \<in> set (succ (node_at g e))" using c by auto
    show "asserts (visit_edge (visit_at k) e c t) (visited_children g r e ?b (cs @ [c]))"
      by (rule visit_edge_step [OF Suc.IH g(1) gray Suc.prems(3) kid card len(1) t])
  qed
  then have "asserts (bind_res (fold_res (visit_edge (visit_at k) e) (succ (node_at g e)) ?b) (\<lambda>t. Ok (finish_visit e t)))
      (visited_from g r e s)"
  proof (rule asserts_bind)
    fix t assume "visited_children g r e ?b (succ (node_at g e)) t"
    then have t: "searching g r t" "extends_search {e} ?b t" "entry_block t = entry_block s"
      "\<forall>c \<in> set (succ (node_at g e)). c \<in> set (order_of t) \<or> succ_back_edge (node_at t e) = Some c"
      "\<forall>n \<in> set (order_of t) - set (order_of s). has_parent g t n"
      using ord by (simp_all add: visited_children_def)
    let ?u = "finish_visit e t"
    have gt: "traversing (node_at t e)" using gray extendsD(3) [OF t(2)] by simp
    have u: "searching g r ?u" "order_of ?u = order_of t @ [e]" "\<forall>n. n \<noteq> e \<longrightarrow> node_at ?u n = node_at t n"
      "succ_back_edge (node_at ?u e) = succ_back_edge (node_at t e)" "visited (node_at ?u e)" "\<not> traversing (node_at ?u e)"
      using finish_searching [OF t(1) gt g t(4)] by simp_all
    have sbe: "succ_back_edge (node_at ?u n) = succ_back_edge (node_at t n)" for n using u(3,4) by (cases "n = e") auto
    have visu: "visited (node_at ?u n)" if "visited (node_at t n)" for n using that u(3,5) by (cases "n = e") auto
    have old: "node_at ?b n = node_at s n" if "n \<noteq> e" for n using that by (simp add: at)
    have "extends_search {} s ?u"
      unfolding extends_search_def
    proof (intro conjI allI ballI impI)
      show "\<exists>xs. order_of ?u = order_of s @ xs" using extendsD(1) [OF t(2)] u(2) ord by auto
      show "visited (node_at ?u n)" if "visited (node_at s n)" for n
        using that visu extendsD(2) [OF t(2), of n] by (cases "n = e") (auto simp: at)
      show "traversing (node_at ?u n) = traversing (node_at s n)" for n
        using extendsD(3) [OF t(2), of n] u(3,6) Suc.prems(2) searchingD(4) [OF s, of e] by (cases "n = e") (auto simp: at)
      show "node_at ?u n = node_at s n" if "n \<in> set (order_of s)" for n
      proof -
        have "n \<noteq> e" using that eL by auto
        then show ?thesis using extendsD(4) [OF t(2), of n] that ord(1) u(3) old by simp
      qed
      show "succ_back_edge (node_at ?u n) = succ_back_edge (node_at s n)" if n: "visited (node_at s n) \<and> n \<notin> {}" for n
      proof -
        have "n \<noteq> e" using n Suc.prems(2) by auto
        then show ?thesis using extendsD(5) [OF t(2), of n] n old sbe by simp
      qed
      show "succ_back_edge (node_at s n) = Some h" if "succ_back_edge (node_at ?u n) = Some h \<and> h \<in> set (order_of s)" for n h
        using that extendsD(6) [OF t(2), of n h] ord(1) sbe by (cases "n = e") (simp_all add: at)
    qed
    moreover have "has_parent g ?u n" if "has_parent g t n" for n
      using that sbe visu by (auto simp: has_parent_def)
    moreover have "entry_block ?u = entry_block s" using t(3) by (simp add: finish_visit_def Let_def)
    ultimately show "asserts (Ok ?u) (visited_from g r e s)"
      using u(1,2) t(5) by (auto simp: visited_from_def)
  qed
  then show ?case using succs by simp
qed

section \<open>What the visit leaves\<close>

text \<open>The state after \<open>reset_traversal\<close>.\<close>

definition fresh_graph :: "CFGStructurizer \<Rightarrow> bool" where
  "fresh_graph g \<longleftrightarrow>
     edges_ok g \<and> length (nodes g) \<le> 2 ^ 32 \<and> entry_block g < length (nodes g) \<and>
     order_of g = [] \<and> reachable_nodes g = {} \<and>
     (\<forall>n. \<not> visited (node_at g n) \<and> \<not> traversing (node_at g n) \<and>
        succ_back_edge (node_at g n) = None \<and> pred_back_edge (node_at g n) = None)"

lemma fresh_searching: "fresh_graph g \<Longrightarrow> searching g (entry_block g) g"
  by (intro searchingI) (simp_all add: fresh_graph_def)

text \<open>
  After the visit the listed nodes are those reachable from the entry, every edge left leads to
  a node numbered lower, and the edges taken out are the paired back edges.
\<close>

definition visited_graph :: "CFGStructurizer \<Rightarrow> CFGStructurizer \<Rightarrow> bool" where
  "visited_graph g s \<longleftrightarrow>
     length (nodes s) = length (nodes g) \<and> entry_block s = entry_block g \<and>
     distinct (order_of s) \<and> order_of s \<noteq> [] \<and> last (order_of s) = entry_block g \<and>
     set (order_of s) = {n. (entry_block g, n) \<in> (succ_rel g)\<^sup>*} \<and>
     reachable_nodes s = set (order_of s) \<and> set (order_of s) \<subseteq> {..<length (nodes g)} \<and>
     (\<forall>i < length (order_of s). forward_order (node_at s (order_of s ! i)) = i) \<and>
     (\<forall>n h. succ_back_edge (node_at s n) = Some h \<longleftrightarrow> pred_back_edge (node_at s h) = Some n) \<and>
     (\<forall>n h. succ_back_edge (node_at s n) = Some h \<longrightarrow>
        n \<in> set (order_of s) \<and> h \<in> set (order_of s) \<and> h \<in> set (succ (node_at g n))) \<and>
     (\<forall>n \<in> set (order_of s).
        set (succ (node_at s n)) = {c \<in> set (succ (node_at g n)). succ_back_edge (node_at s n) \<noteq> Some c} \<and>
        set (pred (node_at s n)) = {m \<in> set (pred (node_at g n)). succ_back_edge (node_at s m) \<noteq> Some n} \<and>
        distinct (succ (node_at s n)) \<and>
        (\<forall>c \<in> set (succ (node_at s n)). c \<in> set (order_of s) \<and> forward_order (node_at s c) < forward_order (node_at s n)) \<and>
        (n \<noteq> entry_block g \<longrightarrow> (\<exists>m \<in> set (order_of s). n \<in> set (succ (node_at s m)))))"

lemma visit_at_last: "visit_at k e s = Ok t \<Longrightarrow> \<exists>L. order_of t = L @ [e]"
  by (cases k) (auto simp: bind_res_Ok_iff finish_visit_def Let_def)

theorem visit_graph:
  assumes "fresh_graph g"
  shows "asserts (visit (entry_block g) g) (visited_graph g)"
proof -
  let ?r = "entry_block g"
  have g: "edges_ok g" "length (nodes g) \<le> 2 ^ 32" "?r < length (nodes g)" "\<not> visited (node_at g ?r)" "order_of g = []"
    "\<And>n. \<not> traversing (node_at g n)"
    using assms by (auto simp: fresh_graph_def)
  have "unvisited g \<subseteq> {..<length (nodes g)}" by (auto simp: unvisited_def)
  then have card: "card (unvisited g) \<le> walk_fuel g"
    using card_mono [of "{..<length (nodes g)}" "unvisited g"] by (simp add: walk_fuel_def)
  have run: "asserts (visit ?r g) (visited_from g ?r ?r g)"
    unfolding visit_def using visit_at_ok [OF g(1,2) fresh_searching [OF assms] g(4,3) _ card] by simp
  show ?thesis
  proof (cases "visit ?r g")
    case (Ok s)
    then have s: "searching g ?r s" "extends_search {} g s" "?r \<in> set (order_of s)" "entry_block s = ?r"
      "\<And>n. n \<in> set (order_of s) \<Longrightarrow> n \<noteq> ?r \<Longrightarrow> has_parent g s n"
      using assertsD [OF run] g(5) by (auto simp: visited_from_def)
    have "\<not> traversing (node_at s n)" for n using extendsD(3) [OF s(2)] g(6) by simp
    then have vis: "visited (node_at s n) \<longleftrightarrow> n \<in> set (order_of s)" for n using searchingD(4) [OF s(1), of n] by blast
    have last: "order_of s \<noteq> []" "last (order_of s) = ?r"
      using visit_at_last [of "walk_fuel g" ?r g s] Ok by (auto simp: visit_def)
    have dist: "distinct (succ (node_at g n))" "distinct (pred (node_at g n))" if "n \<in> set (order_of s)" for n
      using g(1) that searchingD(3) [OF s(1)] by (auto simp: edges_ok_def)
    have succs: "succ (node_at s n) = drop_edge (succ_back_edge (node_at s n)) (succ (node_at g n))"
      "set (succ (node_at s n)) = {c \<in> set (succ (node_at g n)). succ_back_edge (node_at s n) \<noteq> Some c}"
      if "n \<in> set (order_of s)" for n
      using searchingD(12) [OF s(1) that] set_drop_edge [OF dist(1) [OF that]] by simp_all
    have preds: "set (pred (node_at s n)) = {m \<in> set (pred (node_at g n)). succ_back_edge (node_at s m) \<noteq> Some n}"
      if "n \<in> set (order_of s)" for n
      unfolding searchingD(13) [OF s(1) that] set_drop_edge [OF dist(2) [OF that]] searchingD(15) [OF s(1)] by (rule refl)
    have closed: "c \<in> set (order_of s)" if "n \<in> set (order_of s)" "c \<in> set (succ (node_at g n))" for n c
    proof (cases "succ_back_edge (node_at s n) = Some c")
      case True
      then show ?thesis using searchingD(16) [OF s(1) True] vis by simp
    next
      case False
      then show ?thesis using searchingD(14) [OF s(1) that(1), of c] succs(2) [OF that(1)] that(2) by simp
    qed
    have "n \<in> set (order_of s)" if "(?r, n) \<in> (succ_rel g)\<^sup>*" for n
      using that by (induction rule: rtrancl_induct) (use s(3) closed in \<open>auto simp: succ_rel_def\<close>)
    then have reach: "set (order_of s) = {n. (?r, n) \<in> (succ_rel g)\<^sup>*}"
      using searchingD(7) [OF s(1)] vis by blast
    have parent: "\<exists>m \<in> set (order_of s). n \<in> set (succ (node_at s m))" if "n \<in> set (order_of s)" "n \<noteq> ?r" for n
      using s(5) [OF that] vis succs(2) unfolding has_parent_def by blast
    have dist_succ: "distinct (succ (node_at s n))" if "n \<in> set (order_of s)" for n
      using dist(1) [OF that] by (simp add: succs(1) [OF that] drop_edge_def split: option.split)
    have backs: "n \<in> set (order_of s) \<and> h \<in> set (order_of s) \<and> h \<in> set (succ (node_at g n))"
      if "succ_back_edge (node_at s n) = Some h" for n h
      using searchingD(16) [OF s(1) that] vis by simp
    have "visited_graph g s"
      unfolding visited_graph_def
    proof (intro conjI allI ballI impI)
      show "length (nodes s) = length (nodes g)" "distinct (order_of s)" "set (order_of s) \<subseteq> {..<length (nodes g)}"
        by (rule searchingD(1-3) [OF s(1)])+
      show "entry_block s = ?r" "order_of s \<noteq> []" "last (order_of s) = ?r" by (fact s(4) last)+
      show "set (order_of s) = {n. (?r, n) \<in> (succ_rel g)\<^sup>*}" by (rule reach)
      show "reachable_nodes s = set (order_of s)" using searchingD(8) [OF s(1)] vis by simp
      show "forward_order (node_at s (order_of s ! i)) = i" if "i < length (order_of s)" for i
        using searchingD(9) [OF s(1) that] .
      show "succ_back_edge (node_at s n) = Some h \<longleftrightarrow> pred_back_edge (node_at s h) = Some n" for n h
        by (rule searchingD(15) [OF s(1)])
      show "n \<in> set (order_of s)" "h \<in> set (order_of s)" "h \<in> set (succ (node_at g n))"
        if "succ_back_edge (node_at s n) = Some h" for n h
        using backs [OF that] by blast+
      fix n assume n: "n \<in> set (order_of s)"
      show "set (succ (node_at s n)) = {c \<in> set (succ (node_at g n)). succ_back_edge (node_at s n) \<noteq> Some c}"
        "set (pred (node_at s n)) = {m \<in> set (pred (node_at g n)). succ_back_edge (node_at s m) \<noteq> Some n}"
        "distinct (succ (node_at s n))"
        by (rule succs(2) preds dist_succ, rule n)+
      show "c \<in> set (order_of s)" "forward_order (node_at s c) < forward_order (node_at s n)"
        if "c \<in> set (succ (node_at s n))" for c
        using searchingD(14) [OF s(1) n that] by blast+
      show "\<exists>m \<in> set (order_of s). n \<in> set (succ (node_at s m))" if "n \<noteq> ?r" using parent [OF n that] .
    qed
    then show ?thesis using Ok by simp
  qed (use run in \<open>auto simp: asserts_def\<close>)
qed

end
