(* ===== verification/Cfg_Forward.thy ===== *)
theory Cfg_Forward
  imports Cfg_Visit
begin

text \<open>
  The forward half of \<open>recompute_cfg\<close>: after the visit and the pruning of unreachable
  predecessors the dominator links are dominance by paths and the reachability bits are the
  reflexive transitive closure of the edges left.
\<close>

section \<open>Pruning\<close>

lemma visited_graphD:
  assumes "visited_graph g s"
  shows "set (order_of s) = {n. (entry_block g, n) \<in> (succ_rel g)\<^sup>*}"
    "\<forall>n h. succ_back_edge (node_at s n) = Some h \<longleftrightarrow> pred_back_edge (node_at s h) = Some n"
    "\<forall>n h. succ_back_edge (node_at s n) = Some h \<longrightarrow> n \<in> set (order_of s) \<and> h \<in> set (order_of s) \<and> h \<in> set (succ (node_at g n))"
    "\<forall>n \<in> set (order_of s). set (succ (node_at s n)) = {c \<in> set (succ (node_at g n)). succ_back_edge (node_at s n) \<noteq> Some c}"
    "length (nodes s) = length (nodes g)" "distinct (order_of s)" "reachable_nodes s = set (order_of s)"
    "set (order_of s) \<subseteq> {..<length (nodes g)}"
proof -
  note v = assms [unfolded visited_graph_def]
  show "length (nodes s) = length (nodes g)" "distinct (order_of s)" "reachable_nodes s = set (order_of s)"
    "set (order_of s) \<subseteq> {..<length (nodes g)}"
    using v by - (elim conjE, assumption)+
  show "set (order_of s) = {n. (entry_block g, n) \<in> (succ_rel g)\<^sup>*}"
    "\<forall>n h. succ_back_edge (node_at s n) = Some h \<longleftrightarrow> pred_back_edge (node_at s h) = Some n"
    "\<forall>n h. succ_back_edge (node_at s n) = Some h \<longrightarrow> n \<in> set (order_of s) \<and> h \<in> set (order_of s) \<and> h \<in> set (succ (node_at g n))"
    using v by - (elim conjE, assumption)+
  have "\<forall>n \<in> set (order_of s). set (succ (node_at s n)) = {c \<in> set (succ (node_at g n)). succ_back_edge (node_at s n) \<noteq> Some c} \<and>
      set (pred (node_at s n)) = {m \<in> set (pred (node_at g n)). succ_back_edge (node_at s m) \<noteq> Some n} \<and>
      distinct (succ (node_at s n)) \<and>
      (\<forall>c \<in> set (succ (node_at s n)). c \<in> set (order_of s) \<and> forward_order (node_at s c) < forward_order (node_at s n)) \<and>
      (n \<noteq> entry_block g \<longrightarrow> (\<exists>m \<in> set (order_of s). n \<in> set (succ (node_at s m))))"
    using v by - (elim conjE, assumption)
  then show "\<forall>n \<in> set (order_of s). set (succ (node_at s n)) = {c \<in> set (succ (node_at g n)). succ_back_edge (node_at s n) \<noteq> Some c}"
    by (meson bspec ballI conjunct1)
qed

lemma prune_fold:
  "distinct ns \<Longrightarrow> set ns \<subseteq> {..<length (nodes s)} \<Longrightarrow>
   order_of (fold prune_node ns s) = order_of s \<and> reachable_nodes (fold prune_node ns s) = reachable_nodes s \<and>
   entry_block (fold prune_node ns s) = entry_block s \<and> length (nodes (fold prune_node ns s)) = length (nodes s) \<and>
   (\<forall>n. node_at (fold prune_node ns s) n =
      (if n \<in> set ns then (node_at s n)\<lparr>pred := filter (\<lambda>q. q \<in> reachable_nodes s) (pred (node_at s n))\<rparr> else node_at s n))"
proof (induction ns arbitrary: s)
  case (Cons m ns)
  have "m < length (nodes s)" using Cons.prems(2) by simp
  then have at: "node_at (prune_node m s) n =
      (if n = m then (node_at s m)\<lparr>pred := filter (\<lambda>q. q \<in> reachable_nodes s) (pred (node_at s m))\<rparr> else node_at s n)" for n
    by (simp add: prune_node_def node_at_update)
  have keep: "order_of (prune_node m s) = order_of s" "reachable_nodes (prune_node m s) = reachable_nodes s"
    "entry_block (prune_node m s) = entry_block s" "length (nodes (prune_node m s)) = length (nodes s)"
    by (simp_all add: prune_node_def)
  show ?case using Cons.IH [of "prune_node m s"] Cons.prems by (simp add: at keep)
qed simp

lemma prune_at:
  assumes "visited_graph g s"
  shows "order_of (prune_dead_preds s) = order_of s" "reachable_nodes (prune_dead_preds s) = reachable_nodes s"
    "entry_block (prune_dead_preds s) = entry_block s" "length (nodes (prune_dead_preds s)) = length (nodes s)"
    "node_at (prune_dead_preds s) n =
       (if n \<in> set (order_of s) then (node_at s n)\<lparr>pred := filter (\<lambda>q. q \<in> set (order_of s)) (pred (node_at s n))\<rparr>
        else node_at s n)"
proof -
  have "distinct (order_of s)" "set (order_of s) \<subseteq> {..<length (nodes s)}" "reachable_nodes s = set (order_of s)"
    using visited_graphD(5-8) [OF assms] by simp_all
  from prune_fold [OF this(1,2)] this(3)
  show "order_of (prune_dead_preds s) = order_of s" "reachable_nodes (prune_dead_preds s) = reachable_nodes s"
    "entry_block (prune_dead_preds s) = entry_block s" "length (nodes (prune_dead_preds s)) = length (nodes s)"
    "node_at (prune_dead_preds s) n =
       (if n \<in> set (order_of s) then (node_at s n)\<lparr>pred := filter (\<lambda>q. q \<in> set (order_of s)) (pred (node_at s n))\<rparr>
        else node_at s n)"
    by (simp_all add: prune_dead_preds_def)
qed

lemma prune_edges:
  assumes g: "edges_ok g" and s: "visited_graph g s" and n: "n \<in> set (order_of s)"
  shows "m \<in> set (pred (node_at (prune_dead_preds s) n)) \<longleftrightarrow> m \<in> set (order_of s) \<and> n \<in> set (succ (node_at s m))"
proof -
  have L: "set (order_of s) \<subseteq> {..<length (nodes g)}" using s unfolding visited_graph_def by blast
  have "m \<in> set (pred (node_at g n)) \<longleftrightarrow> n \<in> set (succ (node_at g m))" if "m \<in> set (order_of s)"
    using g that n L unfolding edges_ok_def by blast
  moreover have "set (pred (node_at s n)) = {m \<in> set (pred (node_at g n)). succ_back_edge (node_at s m) \<noteq> Some n}"
    using s n unfolding visited_graph_def by blast
  moreover have "set (succ (node_at s m)) = {c \<in> set (succ (node_at g m)). succ_back_edge (node_at s m) \<noteq> Some c}"
    if "m \<in> set (order_of s)"
    using s that unfolding visited_graph_def by blast
  ultimately show ?thesis using n by (auto simp: prune_at(5) [OF s])
qed

lemma prune_ranked:
  assumes g: "edges_ok g" and s: "visited_graph g s"
  shows "ranked (prune_dead_preds s) (entry_block g) (order_of s)"
proof -
  let ?p = "prune_dead_preds s" and ?L = "order_of s" and ?e = "entry_block g"
  have L: "distinct ?L" "?L \<noteq> []" "last ?L = ?e" "set ?L \<subseteq> {..<length (nodes g)}" "length (nodes s) = length (nodes g)"
    "\<forall>i < length ?L. forward_order (node_at s (?L ! i)) = i"
    using s by (auto simp: visited_graph_def)
  have node: "set (succ (node_at s n)) = {c \<in> set (succ (node_at g n)). succ_back_edge (node_at s n) \<noteq> Some c}"
    "set (pred (node_at s n)) = {m \<in> set (pred (node_at g n)). succ_back_edge (node_at s m) \<noteq> Some n}"
    "\<forall>c \<in> set (succ (node_at s n)). c \<in> set ?L \<and> forward_order (node_at s c) < forward_order (node_at s n)"
    "n \<noteq> ?e \<longrightarrow> (\<exists>m \<in> set ?L. n \<in> set (succ (node_at s m)))" if "n \<in> set ?L" for n
    using s that unfolding visited_graph_def by blast+
  note edge = prune_edges [OF g s]
  have order: "forward_order (node_at ?p n) = forward_order (node_at s n)" for n by (simp add: prune_at(5) [OF s])
  have eL: "?e \<in> set ?L" using L(2,3) last_in_set by metis
  have top: "forward_order (node_at s m) \<le> forward_order (node_at s ?e)" if m: "m \<in> set ?L" for m
  proof -
    obtain i where "i < length ?L" "?L ! i = m" using m by (auto simp: in_set_conv_nth)
    moreover have "forward_order (node_at s ?e) = length ?L - 1" 
      using L(2,3) L(6) [rule_format, of "length ?L - 1"] by (simp add: last_conv_nth)
    ultimately show ?thesis using L(6) by auto
  qed
  have "pred (node_at ?p ?e) = []"
  proof (rule ccontr)
    assume "pred (node_at ?p ?e) \<noteq> []"
    then obtain m where "m \<in> set ?L" "?e \<in> set (succ (node_at s m))" using edge [OF eL] by (metis list.set_intros(1) neq_Nil_conv)
    then show False using node(3) [of m] top [of m] by fastforce
  qed
  moreover have "pred (node_at ?p n) \<noteq> [] \<and>
      (\<forall>m \<in> set (pred (node_at ?p n)). m \<in> set ?L \<and> forward_order (node_at ?p n) < forward_order (node_at ?p m))"
    if "n \<in> set ?L" "n \<noteq> ?e" for n
    using edge [OF that(1)] node(4) [OF that(1)] that(2) node(3) unfolding order by (metis list.set(1) empty_iff)
  ultimately show ?thesis using L prune_at(4) [OF s] order by (simp add: ranked_def)
qed

section \<open>Reachability rows\<close>

lemma reach_bit_test: "w AND reach_bit i \<noteq> 0 \<longleftrightarrow> bit w (i mod 32)"
proof -
  have "w AND push_bit j 1 = (if bit w j then push_bit j 1 else 0)" if "j < 32" for j and w :: u32
    by (rule bit_word_eqI) (auto simp: bit_simps)
  moreover have "push_bit j (1 :: u32) \<noteq> 0" if "j < 32" for j
  proof -
    have "bit (push_bit j (1 :: u32)) j" using that by (simp add: bit_simps)
    moreover have "\<not> bit (0 :: u32) j" by simp
    ultimately show ?thesis by metis
  qed
  moreover have "i mod 32 < 32" by simp
  ultimately show ?thesis unfolding reach_bit_def by metis
qed

lemma reach_bit_bit: "k < 32 \<Longrightarrow> bit (reach_bit i) k \<longleftrightarrow> k = i mod 32"
  by (auto simp: reach_bit_def bit_simps)

lemma or_word_eq: "i < length bits \<Longrightarrow> or_word i w bits = Ok (bits[i := bits ! i OR w])"
  by (simp add: or_word_def)

lemma inherit_row_prefix:
  assumes "dst + stride \<le> length bits" and "src + stride \<le> dst" and "j \<le> stride"
  shows "\<exists>bits'. fold_res (\<lambda>i bits. bind_res (index bits (src + i)) (\<lambda>w. or_word (dst + i) w bits)) [0..<j] bits = Ok bits' \<and>
    length bits' = length bits \<and>
    (\<forall>x < length bits. bits' ! x = (if dst \<le> x \<and> x < dst + j then bits ! x OR bits ! (src + (x - dst)) else bits ! x))"
  using assms(3)
proof (induction j)
  case (Suc j)
  then obtain b where b: "fold_res (\<lambda>i bits. bind_res (index bits (src + i)) (\<lambda>w. or_word (dst + i) w bits)) [0..<j] bits = Ok b"
    "length b = length bits"
    "\<forall>x < length bits. b ! x = (if dst \<le> x \<and> x < dst + j then bits ! x OR bits ! (src + (x - dst)) else bits ! x)"
    by auto
  have "b ! (src + j) = bits ! (src + j)" "b ! (dst + j) = bits ! (dst + j)"
    using b(3) assms(1,2) Suc.prems by auto
  then have "bind_res (index b (src + j)) (\<lambda>w. or_word (dst + j) w b) = Ok (b[dst + j := bits ! (dst + j) OR bits ! (src + j)])"
    using b(2) assms(1,2) Suc.prems by (simp add: or_word_eq)
  then show ?case
    using b assms(1,2) Suc.prems by (auto simp: fold_res_append nth_list_update)
qed auto

lemma inherit_row_eq:
  assumes "dst + stride \<le> length bits" and "src + stride \<le> dst"
  shows "\<exists>bits'. inherit_row stride dst src bits = Ok bits' \<and> length bits' = length bits \<and>
    (\<forall>x < length bits. bits' ! x = (if dst \<le> x \<and> x < dst + stride then bits ! x OR bits ! (src + (x - dst)) else bits ! x))"
  unfolding inherit_row_def using inherit_row_prefix [OF assms, of stride] by simp

text \<open>Or-ing several earlier rows into one.\<close>

lemma inherit_rows:
  assumes "dst + stride \<le> length bits" and "\<forall>c \<in> set cs. row c + stride \<le> dst"
  shows "\<exists>bits'. fold_res (\<lambda>c. inherit_row stride dst (row c)) cs bits = Ok bits' \<and> length bits' = length bits \<and>
    (\<forall>x < length bits. \<not> (dst \<le> x \<and> x < dst + stride) \<longrightarrow> bits' ! x = bits ! x) \<and>
    (\<forall>w < stride. \<forall>k. bit (bits' ! (dst + w)) k \<longleftrightarrow>
       bit (bits ! (dst + w)) k \<or> (\<exists>c \<in> set cs. bit (bits ! (row c + w)) k))"
  using assms
proof (induction cs arbitrary: bits)
  case (Cons c cs)
  obtain b where b: "inherit_row stride dst (row c) bits = Ok b" "length b = length bits"
    "\<forall>x < length bits. b ! x = (if dst \<le> x \<and> x < dst + stride then bits ! x OR bits ! (row c + (x - dst)) else bits ! x)"
    using inherit_row_eq [of dst stride bits "row c"] Cons.prems by auto
  obtain b' where b': "fold_res (\<lambda>c. inherit_row stride dst (row c)) cs b = Ok b'" "length b' = length b"
    "\<forall>x < length b. \<not> (dst \<le> x \<and> x < dst + stride) \<longrightarrow> b' ! x = b ! x"
    "\<forall>w < stride. \<forall>k. bit (b' ! (dst + w)) k \<longleftrightarrow>
       bit (b ! (dst + w)) k \<or> (\<exists>c \<in> set cs. bit (b ! (row c + w)) k)"
    using Cons.IH [of b] Cons.prems b(2) by auto
  have low: "b ! (row d + w) = bits ! (row d + w)" if "d \<in> set cs" "w < stride" for d w
    using b(3) Cons.prems that by fastforce
  have own: "b ! (dst + w) = bits ! (dst + w) OR bits ! (row c + w)" if "w < stride" for w
    using b(3) Cons.prems(1) that by simp
  have "bit (b' ! (dst + w)) k \<longleftrightarrow> bit (bits ! (dst + w)) k \<or> (\<exists>c \<in> set (c # cs). bit (bits ! (row c + w)) k)"
    if w: "w < stride" for w k
    using b'(4) w own [OF w] low [OF _ w] by (auto simp: bit_or_iff)
  moreover have "b' ! x = bits ! x" if "x < length bits" "\<not> (dst \<le> x \<and> x < dst + stride)" for x
    using b'(3) b(2,3) that by auto
  ultimately show ?case using b(1,2) b'(1,2) by auto
qed simp

text \<open>A numbered list closed under the edges left, each of which goes down.\<close>

definition numbered :: "CFGStructurizer \<Rightarrow> bool" where
  "numbered s \<longleftrightarrow>
     (\<forall>i < length (order_of s). forward_order (node_at s (order_of s ! i)) = i) \<and>
     (\<forall>n \<in> set (order_of s). \<forall>c \<in> set (succ (node_at s n)).
        c \<in> set (order_of s) \<and> forward_order (node_at s c) < forward_order (node_at s n))"

lemma numbered_index:
  assumes "numbered s" and "n \<in> set (order_of s)"
  shows "forward_order (node_at s n) < length (order_of s)" "order_of s ! forward_order (node_at s n) = n"
  using assms by (auto simp: numbered_def in_set_conv_nth)

lemma succ_rel_closed:
  assumes "numbered s"
  shows "(n, m) \<in> (succ_rel s)\<^sup>* \<Longrightarrow> n \<in> set (order_of s) \<Longrightarrow>
    m \<in> set (order_of s) \<and> forward_order (node_at s m) \<le> forward_order (node_at s n)"
proof (induction rule: rtrancl_induct)
  case (step y z)
  then have "y \<in> set (order_of s)" "z \<in> set (succ (node_at s y))" "forward_order (node_at s y) \<le> forward_order (node_at s n)"
    by (auto simp: succ_rel_def)
  then show ?case using assms unfolding numbered_def by fastforce
qed simp

lemma reach_unfold:
  "(n, m) \<in> (succ_rel s)\<^sup>* \<longleftrightarrow> m = n \<or> (\<exists>c \<in> set (succ (node_at s n)). (c, m) \<in> (succ_rel s)\<^sup>*)"
  by (auto simp: succ_rel_def intro: converse_rtrancl_into_rtrancl elim: converse_rtranclE)

text \<open>The bits after the first \<open>j\<close> nodes: their rows are right, the later ones empty.\<close>

definition rows_done :: "CFGStructurizer \<Rightarrow> nat \<Rightarrow> u32 list \<Rightarrow> bool" where
  "rows_done s j bits \<longleftrightarrow>
     (let L = order_of s; stride = (length L + 31) div 32 in
      length bits = stride * length L \<and>
      (\<forall>i < length L. \<forall>w < stride. \<forall>k < 32.
         bit (bits ! (i * stride + w)) k \<longleftrightarrow>
           i < j \<and> w * 32 + k < length L \<and> (L ! i, L ! (w * 32 + k)) \<in> (succ_rel s)\<^sup>*))"

lemma row_in:
  fixes i :: nat
  assumes "i < n" and "w < stride"
  shows "i * stride + w < stride * n" "i * stride + stride \<le> stride * n"
proof -
  have "(i + 1) * stride \<le> n * stride" using assms(1) by (intro mult_le_mono1) simp
  then show "i * stride + w < stride * n" "i * stride + stride \<le> stride * n"
    using assms(2) by (simp_all add: algebra_simps)
qed

lemma row_below:
  fixes c i :: nat
  assumes "c < i"
  shows "c * stride + stride \<le> i * stride"
  using mult_le_mono1 [of "c + 1" i stride] assms by (simp add: algebra_simps)

lemma visit_reachability_step:
  assumes s: "numbered s" and size: "length (order_of s) * ((length (order_of s) + 31) div 32) < 2 ^ 32"
    and stride: "reachability_stride s = (length (order_of s) + 31) div 32"
    and j: "j < length (order_of s)" and done_j: "rows_done s j (reachability_bitset s)"
  shows "\<exists>bits. visit_reachability (order_of s ! j) s = Ok (s\<lparr>reachability_bitset := bits\<rparr>) \<and> rows_done s (Suc j) bits"
proof -
  let ?L = "order_of s" and ?st = "(length (order_of s) + 31) div 32" and ?n = "order_of s ! j"
  let ?bits = "reachability_bitset s" and ?ord = "\<lambda>n. forward_order (node_at s n)"
  have nL: "?n \<in> set ?L" "?ord ?n = j" using j s by (auto simp: numbered_def)
  have st: "0 < ?st" "j div 32 < ?st" using j by (auto simp: div_less_iff_less_mult)
  have row: "reach_row s n = ?ord n * ?st" if "n \<in> set ?L" for n
  proof -
    have "?ord n * ?st \<le> length ?L * ?st" using numbered_index(1) [OF s that] by (intro mult_le_mono1) simp
    then have "?ord n * ?st < 2 ^ 32" using size by (rule le_less_trans)
    then show ?thesis by (simp only: reach_row_def stride u32_mul_def mod_less)
  qed
  have kids: "c \<in> set ?L \<and> ?ord c < j" if "c \<in> set (succ (node_at s ?n))" for c
    using s nL that unfolding numbered_def by metis
  have len: "length ?bits = ?st * length ?L" and before: "\<And>i w k. i < length ?L \<Longrightarrow> w < ?st \<Longrightarrow> k < 32 \<Longrightarrow>
      bit (?bits ! (i * ?st + w)) k \<longleftrightarrow> i < j \<and> w * 32 + k < length ?L \<and> (?L ! i, ?L ! (w * 32 + k)) \<in> (succ_rel s)\<^sup>*"
    using done_j by (simp_all add: rows_done_def Let_def)
  have "j * ?st + ?st \<le> length ?bits" using row_in(2) [OF j st(1)] len by simp
  moreover have "\<forall>c \<in> set (succ (node_at s ?n)). reach_row s c + ?st \<le> j * ?st"
    using row kids row_below by simp
  ultimately obtain b where b: "fold_res (\<lambda>c. inherit_row ?st (j * ?st) (reach_row s c)) (succ (node_at s ?n)) ?bits = Ok b"
    "length b = length ?bits" "\<forall>x < length ?bits. \<not> (j * ?st \<le> x \<and> x < j * ?st + ?st) \<longrightarrow> b ! x = ?bits ! x"
    "\<forall>w < ?st. \<forall>k. bit (b ! (j * ?st + w)) k \<longleftrightarrow>
       bit (?bits ! (j * ?st + w)) k \<or> (\<exists>c \<in> set (succ (node_at s ?n)). bit (?bits ! (reach_row s c + w)) k)"
    using inherit_rows [of "j * ?st" ?st ?bits "succ (node_at s ?n)" "reach_row s"] by blast
  let ?x = "j * ?st + j div 32"
  let ?b' = "b[?x := b ! ?x OR reach_bit j]"
  have x: "?x < length b" using row_in(1) [OF j st(2)] len b(2) by simp
  have run: "visit_reachability ?n s = Ok (s\<lparr>reachability_bitset := ?b'\<rparr>)"
    using b(1) or_word_eq [OF x] row [OF nL(1)] by (simp add: visit_reachability_def stride nL(2) Let_def)
  have "rows_done s (Suc j) ?b'"
    unfolding rows_done_def Let_def
  proof (intro conjI allI impI)
    show "length ?b' = ?st * length ?L" using b(2) len by simp
    fix i w k assume i: "i < length ?L" and w: "w < ?st" and k: "k < (32 :: nat)"
    let ?t = "w * 32 + k"
    show "bit (?b' ! (i * ?st + w)) k \<longleftrightarrow> i < Suc j \<and> ?t < length ?L \<and> (?L ! i, ?L ! ?t) \<in> (succ_rel s)\<^sup>*"
    proof (cases "i = j")
      case True
      have own: "bit (?b' ! (j * ?st + w)) k \<longleftrightarrow> bit (b ! (j * ?st + w)) k \<or> ?t = j"
      proof (cases "w = j div 32")
        case True
        then show ?thesis using x k by (simp add: bit_or_iff reach_bit_bit) (metis add.commute div_mult_mod_eq add_left_cancel)
      next
        case False
        then have "?t \<noteq> j" using k by auto
        then show ?thesis using False by simp
      qed
      have "bit (?bits ! (reach_row s c + w)) k \<longleftrightarrow> ?t < length ?L \<and> (c, ?L ! ?t) \<in> (succ_rel s)\<^sup>*"
        if "c \<in> set (succ (node_at s ?n))" for c
        using before [of "?ord c" w k] kids [OF that] row numbered_index [OF s] w k by auto
      moreover have "\<not> bit (?bits ! (j * ?st + w)) k" using before [OF j w k] by simp
      ultimately have "bit (b ! (j * ?st + w)) k \<longleftrightarrow>
          ?t < length ?L \<and> (\<exists>c \<in> set (succ (node_at s ?n)). (c, ?L ! ?t) \<in> (succ_rel s)\<^sup>*)"
        using b(4) w by auto
      moreover have "?L ! ?t = ?n \<longleftrightarrow> ?t = j" if "?t < length ?L"
        using that j s unfolding numbered_def by metis
      ultimately show ?thesis
        using own reach_unfold [of ?n "?L ! ?t" s] True j by auto
    next
      case False
      have "\<not> (j * ?st \<le> i * ?st + w \<and> i * ?st + w < j * ?st + ?st)"
        using row_below [of i j ?st] row_below [of j i ?st] False w by linarith
      moreover have "i * ?st + w < length ?bits" using row_in(1) [OF i w] len by simp
      ultimately have "?b' ! (i * ?st + w) = ?bits ! (i * ?st + w)"
        using b(2,3) st(2) by (auto simp: nth_list_update)
      then show ?thesis using before [OF i w k] False by auto
    qed
  qed
  then show ?thesis using run by blast
qed

lemma numbered_bitset [simp]: "numbered (s\<lparr>reachability_bitset := b\<rparr>) = numbered s"
  and succ_rel_bitset [simp]: "succ_rel (s\<lparr>reachability_bitset := b\<rparr>) = succ_rel s"
  and rows_done_bitset [simp]: "rows_done (s\<lparr>reachability_bitset := b\<rparr>) = rows_done s"
  by (simp_all add: numbered_def succ_rel_def rows_done_def fun_eq_iff)

lemma build_reachability_rows:
  assumes s: "numbered s" and size: "length (order_of s) * ((length (order_of s) + 31) div 32) < 2 ^ 32"
  shows "\<exists>bits. build_reachability s =
      Ok (s\<lparr>reachability_stride := (length (order_of s) + 31) div 32, reachability_bitset := bits\<rparr>) \<and>
    rows_done s (length (order_of s)) bits"
proof -
  let ?L = "order_of s" and ?st = "(length (order_of s) + 31) div 32"
  let ?s = "s\<lparr>reachability_stride := ?st, reachability_bitset := replicate (?st * length ?L) 0\<rparr>"
  have same: "numbered (s\<lparr>reachability_stride := ?st, reachability_bitset := b\<rparr>)"
    "rows_done (s\<lparr>reachability_stride := ?st, reachability_bitset := b\<rparr>) = rows_done s" for b
    using s by (simp_all add: numbered_def rows_done_def succ_rel_def fun_eq_iff)
  have start: "rows_done s 0 (replicate (?st * length ?L) 0)"
    using row_in(1) by (auto simp: rows_done_def Let_def)
  have "\<exists>bits. fold_res visit_reachability (take j ?L) ?s = Ok (?s\<lparr>reachability_bitset := bits\<rparr>) \<and> rows_done s j bits"
    if "j \<le> length ?L" for j
    using that
  proof (induction j)
    case 0
    show ?case using start by (intro exI [of _ "replicate (?st * length ?L) 0"]) simp
  next
    case (Suc j)
    then obtain b where b: "fold_res visit_reachability (take j ?L) ?s = Ok (?s\<lparr>reachability_bitset := b\<rparr>)" "rows_done s j b"
      by auto
    let ?t = "?s\<lparr>reachability_bitset := b\<rparr>"
    have t: "numbered ?t" "rows_done ?t = rows_done s" "order_of ?t = ?L" "reachability_stride ?t = ?st"
      using same [of b] by simp_all
    obtain b' where "visit_reachability (?L ! j) ?t = Ok (?t\<lparr>reachability_bitset := b'\<rparr>)" "rows_done s (Suc j) b'"
      using visit_reachability_step [of ?t j] t size b(2) Suc.prems by auto
    then show ?case using b(1) Suc.prems by (auto simp: take_Suc_conv_app_nth fold_res_append)
  qed
  from this [of "length ?L"] show ?thesis by (auto simp: build_reachability_def Let_def)
qed

lemma query_rows:
  assumes s: "numbered s" and size: "length (order_of s) * ((length (order_of s) + 31) div 32) < 2 ^ 32"
    and built: "build_reachability s = Ok t" and f: "f \<in> set (order_of s)" and m: "m \<in> set (order_of s)"
  shows "query_reachability t f m = Ok ((f, m) \<in> (succ_rel s)\<^sup>*)"
proof (cases "f = m")
  case False
  let ?L = "order_of s" and ?st = "(length (order_of s) + 31) div 32" and ?ord = "\<lambda>n. forward_order (node_at s n)"
  obtain bits where bits: "t = s\<lparr>reachability_stride := ?st, reachability_bitset := bits\<rparr>" "rows_done s (length ?L) bits"
    using build_reachability_rows [OF s size] built by auto
  have at: "node_at t = node_at s" "reachability_bitset t = bits" "reachability_stride t = ?st" using bits(1) by simp_all
  note ixf = numbered_index [OF s f] and ixm = numbered_index [OF s m]
  have "?ord f * ?st \<le> length ?L * ?st" using ixf(1) by (intro mult_le_mono1) simp
  then have "?ord f * ?st < 2 ^ 32" using size by (rule le_less_trans)
  then have row: "reach_row t f = ?ord f * ?st" by (simp only: reach_row_def at u32_mul_def mod_less)
  have w: "?ord m div 32 < ?st" using ixm(1) by (auto simp: div_less_iff_less_mult)
  have pos: "?ord f * ?st + ?ord m div 32 < length bits"
    using row_in(1) [OF ixf(1) w] bits(2) by (simp add: rows_done_def Let_def)
  have "bit (bits ! (?ord f * ?st + ?ord m div 32)) (?ord m mod 32) \<longleftrightarrow> (f, m) \<in> (succ_rel s)\<^sup>*"
    using bits(2) ixf ixm w by (simp add: rows_done_def Let_def)
  then show ?thesis
    using False pos by (simp add: query_reachability_def row at reach_bit_test)
qed (simp add: query_reachability_def)

section \<open>The forward analysis\<close>

lemma links_only_numbered:
  fixes p q :: CFGStructurizer
  assumes "links_only p q"
  shows "order_of q = order_of p" "entry_block q = entry_block p" "reachable_nodes q = reachable_nodes p"
    "numbered q = numbered p" "succ_rel q = succ_rel p"
proof -
  have more: "CFGNodePool.more q = CFGNodePool.more p" using assms by (simp add: links_only_def)
  show order: "order_of q = order_of p" "entry_block q = entry_block p" "reachable_nodes q = reachable_nodes p"
    using more by (cases p, cases q, simp)+
  show "numbered q = numbered p" "succ_rel q = succ_rel p"
    unfolding numbered_def succ_rel_def order links_only_node [OF assms] by (rule refl)+
qed

text \<open>What the forward analysis does not touch.\<close>

definition kept :: "CFGNode \<Rightarrow> CFGNode" where
  "kept x = x\<lparr>visited := False, traversing := False, forward_order := 0, succ := [], pred := [],
     succ_back_edge := None, pred_back_edge := None, immediate_dominator := None\<rparr>"

lemma kept_fields:
  assumes "kept x = kept y"
  shows "fake_succ x = fake_succ y" "fake_pred x = fake_pred y" "backward_visited x = backward_visited y"
    "immediate_post_dominator x = immediate_post_dominator y" "ir x = ir y"
  using arg_cong [OF assms, of fake_succ] arg_cong [OF assms, of fake_pred] arg_cong [OF assms, of backward_visited]
    arg_cong [OF assms, of immediate_post_dominator] arg_cong [OF assms, of ir]
  by (simp_all add: kept_def)

definition forward_frame :: "CFGStructurizer \<Rightarrow> CFGStructurizer \<Rightarrow> bool" where
  "forward_frame g t \<longleftrightarrow>
     entry_block t = entry_block g \<and> exit_block t = exit_block g \<and> length (nodes t) = length (nodes g) \<and>
     backward_post_visit_order t = backward_post_visit_order g \<and> (\<forall>n. kept (node_at t n) = kept (node_at g n))"

lemma forward_frame_refl [simp]: "forward_frame g g"
  by (simp add: forward_frame_def)

lemma forward_frame_trans: "forward_frame a b \<Longrightarrow> forward_frame b c \<Longrightarrow> forward_frame a c"
  by (simp add: forward_frame_def)

lemma forward_frame_update:
  "forward_frame g s \<Longrightarrow> (\<And>x. kept (f x) = kept x) \<Longrightarrow> forward_frame g (update_node n f s)"
  by (simp add: forward_frame_def node_at_update)

lemma kept_updates [simp]:
  "kept (x\<lparr>visited := a\<rparr>) = kept x" "kept (x\<lparr>traversing := b\<rparr>) = kept x" "kept (x\<lparr>forward_order := i\<rparr>) = kept x"
  "kept (x\<lparr>succ := c\<rparr>) = kept x" "kept (x\<lparr>pred := d\<rparr>) = kept x" "kept (x\<lparr>succ_back_edge := e\<rparr>) = kept x"
  "kept (x\<lparr>pred_back_edge := h\<rparr>) = kept x"
  by (simp_all add: kept_def)

lemma visit_frame: "visit_at k e s = Ok t \<Longrightarrow> forward_frame s t"
proof (induction k arbitrary: e s t)
  case (Suc k)
  obtain u where u: "fold_res (visit_edge (visit_at k) e) (succ (node_at s e)) (begin_visit e s) = Ok u" "t = finish_visit e u"
    using Suc.prems by (auto simp: bind_res_Ok_iff)
  have start: "forward_frame s (begin_visit e s)"
    using forward_frame_update [of s s "\<lambda>x. x\<lparr>visited := True, traversing := True\<rparr>" e]
    by (simp add: begin_visit_def forward_frame_def)
  have "forward_frame s u"
  proof (rule fold_res_invariant [where I = "forward_frame s", OF _ start u(1)])
    fix c p q assume p: "forward_frame s p" and q: "visit_edge (visit_at k) e c p = Ok q"
    show "forward_frame s q"
    proof (cases "traversing (node_at p c)")
      case True
      then have "q = update_node c (\<lambda>x. x\<lparr>pred_back_edge := Some e\<rparr>) (update_node e (\<lambda>x. x\<lparr>succ_back_edge := Some c\<rparr>) p)"
        using q by (auto simp: visit_edge_def Let_def split: if_splits)
      then show ?thesis using p by (simp add: forward_frame_update)
    next
      case False
      then show ?thesis
        using p q Suc.IH [of c p q] forward_frame_trans by (cases "visited (node_at p c)") (auto simp: visit_edge_def)
    qed
  qed
  moreover have "kept (drop_back_edges x) = kept x" for x
    by (simp add: drop_back_edges_def Let_def split: option.split)
  ultimately show ?case
    using forward_frame_update [of s u "\<lambda>x. (drop_back_edges x)\<lparr>traversing := False, forward_order := i\<rparr>" e for i]
    by (simp add: u(2) finish_visit_def Let_def forward_frame_def)
qed simp

lemma prune_frame: "forward_frame s (prune_dead_preds s)"
proof -
  have "forward_frame s (fold prune_node ns t)" if "forward_frame s t" for ns t
    using that by (induction ns arbitrary: t) (simp_all add: prune_node_def forward_frame_update)
  then show ?thesis by (simp add: prune_dead_preds_def)
qed

lemma links_only_frame:
  fixes p q :: CFGStructurizer
  assumes "links_only p q"
  shows "forward_frame p q"
proof -
  have more: "CFGNodePool.more q = CFGNodePool.more p" using assms by (simp add: links_only_def)
  have "kept (node_at q n) = kept (node_at p n)" for n
  proof -
    have "(node_at q n)\<lparr>immediate_dominator := None\<rparr> = (node_at p n)\<lparr>immediate_dominator := None\<rparr>"
      using assms by (simp add: links_only_def)
    then have "kept ((node_at q n)\<lparr>immediate_dominator := None\<rparr>) = kept ((node_at p n)\<lparr>immediate_dominator := None\<rparr>)" by simp
    then show ?thesis by (simp add: kept_def)
  qed
  then show ?thesis using more links_only_node(4) [OF assms] by (cases p, cases q) (simp add: forward_frame_def)
qed

text \<open>
  What \<open>analyze_forward\<close> establishes: the listed nodes are the reachable ones, numbered so that
  edges go down, with both edge lists in agreement and the back edges paired; dominance is
  dominance by paths and the reachability bits are the closure of the edges.
\<close>

definition forward_correct :: "CFGStructurizer \<Rightarrow> CFGStructurizer \<Rightarrow> bool" where
  "forward_correct g t \<longleftrightarrow>
     set (order_of t) = {n. (entry_block g, n) \<in> (succ_rel g)\<^sup>*} \<and> reachable_nodes t = set (order_of t) \<and>
     ranked t (entry_block g) (order_of t) \<and> numbered t \<and>
     (\<forall>n \<in> set (order_of t). \<forall>m. m \<in> set (pred (node_at t n)) \<longleftrightarrow> m \<in> set (order_of t) \<and> n \<in> set (succ (node_at t m))) \<and>
     (\<forall>n h. succ_back_edge (node_at t n) = Some h \<longleftrightarrow> pred_back_edge (node_at t h) = Some n) \<and>
     (\<forall>n h. succ_back_edge (node_at t n) = Some h \<longrightarrow>
        n \<in> set (order_of t) \<and> h \<in> set (order_of t) \<and> h \<in> set (succ (node_at g n))) \<and>
     (\<forall>n \<in> set (order_of t). set (succ (node_at t n)) = {c \<in> set (succ (node_at g n)). succ_back_edge (node_at t n) \<noteq> Some c}) \<and>
     built (idom t) (\<lambda>n. forward_order (node_at t n)) (\<lambda>n. pred (node_at t n)) (entry_block g) (set (order_of t)) \<and>
     (\<forall>n \<in> set (order_of t). \<forall>a. dominates t a n = Ok (path_dominates t (entry_block g) a n)) \<and>
     (\<forall>f \<in> set (order_of t). \<forall>m \<in> set (order_of t). query_reachability t f m = Ok ((f, m) \<in> (succ_rel t)\<^sup>*)) \<and>
     forward_frame g t"

lemma visited_graph_numbered: "visited_graph g s \<Longrightarrow> numbered s"
  unfolding visited_graph_def numbered_def by blast

lemma stride_small:
  fixes n :: nat
  assumes "n \<le> 2 ^ 18"
  shows "n * ((n + 31) div 32) < 2 ^ 32"
proof -
  have "(n + 31) div 32 \<le> (2 ^ 18 + 31) div 32" using assms by (intro div_le_mono) simp
  then have "n * ((n + 31) div 32) \<le> 2 ^ 18 * ((2 ^ 18 + 31) div 32)" using assms by (intro mult_le_mono) simp_all
  then show ?thesis by simp
qed

lemma analyze_visited:
  assumes g: "edges_ok g" "length (nodes g) \<le> 2 ^ 18" and s: "visited_graph g s" and frame: "forward_frame g s"
  shows "\<exists>t. bind_res (build_immediate_dominators (prune_dead_preds s)) build_reachability = Ok t \<and> forward_correct g t \<and>
    order_of t = order_of s \<and>
    (\<forall>n. succ (node_at t n) = succ (node_at s n) \<and> succ_back_edge (node_at t n) = succ_back_edge (node_at s n))"
proof -
  let ?p = "prune_dead_preds s" and ?e = "entry_block g"
  have rk: "ranked ?p ?e (order_of s)" by (rule prune_ranked [OF g(1) s])
  obtain q where q: "fold_res recompute_immediate_dominator (rev (order_of s)) ?p = Ok q" "links_only ?p q"
    "built (idom q) (\<lambda>n. forward_order (node_at q n)) (\<lambda>n. pred (node_at q n)) ?e (set (order_of s))"
    "\<forall>n \<in> set (order_of s). \<forall>a. dominates q a n = Ok (path_dominates ?p ?e a n)"
    using build_dominators [OF rk] by blast
  note lo = links_only_numbered [OF q(2)]
  have "numbered ?p"
    using visited_graph_numbered [OF s] prune_at(1,5) [OF s] by (simp add: numbered_def)
  then have nq: "numbered q" using lo by simp
  have ord: "order_of q = order_of s" using lo prune_at(1) [OF s] by simp
  have "length (order_of s) \<le> 2 ^ 18"
    using ranked_length [OF rk] g(2) prune_at(4) [OF s] s by (simp add: visited_graph_def)
  then have size: "length (order_of q) * ((length (order_of q) + 31) div 32) < 2 ^ 32"
    unfolding ord by (rule stride_small)
  obtain bits where t: "build_reachability q =
      Ok (q\<lparr>reachability_stride := (length (order_of q) + 31) div 32, reachability_bitset := bits\<rparr>)"
    using build_reachability_rows [OF nq size] by blast
  let ?t = "q\<lparr>reachability_stride := (length (order_of q) + 31) div 32, reachability_bitset := bits\<rparr>"
  have run: "bind_res (build_immediate_dominators ?p) build_reachability = Ok ?t"
    using q(1) t prune_at(1) [OF s] by (simp add: build_immediate_dominators_def)
  have nodes: "nodes ?t = nodes q" "node_at ?t = node_at q" "order_of ?t = order_of s" using ord by simp_all
  have dom: "dominates ?t a n = dominates q a n" "path_dominates ?t ?e a n = path_dominates q ?e a n" for a n
  proof -
    have idom: "idom ?t = idom q" by (rule ext) (simp add: idom_def)
    then show "dominates ?t a n = dominates q a n" by (simp add: dominates_def walk_fuel_def)
    show "path_dominates ?t ?e a n = path_dominates q ?e a n"
      by (simp add: path_dominates_def nodes)
  qed
  have same: "path_dominates q ?e a n = path_dominates ?p ?e a n" for a n by (rule links_only_path [OF q(2)])
  have fields: "succ (node_at q n) = succ (node_at s n)" "pred (node_at q n) = pred (node_at ?p n)"
    "succ_back_edge (node_at q n) = succ_back_edge (node_at s n)" "pred_back_edge (node_at q n) = pred_back_edge (node_at s n)" for n
    using links_only_node [OF q(2)] by (simp_all add: prune_at(5) [OF s])
  have rel: "succ_rel ?t = succ_rel q" by (simp add: succ_rel_def)
  have "forward_correct g ?t"
    unfolding forward_correct_def nodes fields rel
  proof (intro conjI)
    show "set (order_of s) = {n. (?e, n) \<in> (succ_rel g)\<^sup>*}"
      "\<forall>n h. succ_back_edge (node_at s n) = Some h \<longleftrightarrow> pred_back_edge (node_at s h) = Some n"
      "\<forall>n h. succ_back_edge (node_at s n) = Some h \<longrightarrow> n \<in> set (order_of s) \<and> h \<in> set (order_of s) \<and> h \<in> set (succ (node_at g n))"
      "\<forall>n \<in> set (order_of s). set (succ (node_at s n)) = {c \<in> set (succ (node_at g n)). succ_back_edge (node_at s n) \<noteq> Some c}"
      by (rule visited_graphD [OF s])+
    have "ranked q ?e (order_of s)" using rk links_only_ranked [OF q(2)] by simp
    then show "ranked ?t ?e (order_of s)" unfolding ranked_def nodes .
    show "numbered ?t" using nq by (simp add: numbered_def)
    have "reachable_nodes s = set (order_of s)" using s unfolding visited_graph_def by blast
    then show "reachable_nodes ?t = set (order_of s)" using lo prune_at(2) [OF s] by simp
    show "\<forall>n \<in> set (order_of s). \<forall>m. m \<in> set (pred (node_at ?p n)) \<longleftrightarrow> m \<in> set (order_of s) \<and> n \<in> set (succ (node_at s m))"
      using prune_edges [OF g(1) s] by blast
    show "\<forall>n \<in> set (order_of s). \<forall>a. dominates ?t a n = Ok (path_dominates ?t ?e a n)" using q(4) by (simp add: dom same)
    show "built (idom ?t) (\<lambda>n. forward_order (node_at q n)) (\<lambda>n. pred (node_at ?p n)) ?e (set (order_of s))"
      using q(3) unfolding fields(2) by (simp add: idom_def [abs_def])
    show "\<forall>f \<in> set (order_of s). \<forall>m \<in> set (order_of s). query_reachability ?t f m = Ok ((f, m) \<in> (succ_rel q)\<^sup>*)"
      using query_rows [OF nq size t] ord by simp
    show "forward_frame g ?t"
      using forward_frame_trans [OF frame prune_frame] links_only_frame [OF q(2)] forward_frame_trans [of g ?p q]
      by (simp add: forward_frame_def nodes)
  qed
  moreover have "succ (node_at ?t n) = succ (node_at s n) \<and> succ_back_edge (node_at ?t n) = succ_back_edge (node_at s n)" for n
    unfolding nodes fields by simp
  ultimately show ?thesis using run nodes(3) by blast
qed

text \<open>The state the analysis starts in.\<close>

lemma reset_traversal_node: "node_at (reset_traversal s) n = reset_node (node_at s n)"
  by (simp add: reset_traversal_def for_each_node_def node_at_def reset_node_def CFGNode_new_def)

lemma reset_node_fields [simp]:
  "\<not> visited (reset_node x)" "\<not> traversing (reset_node x)" "\<not> backward_visited (reset_node x)"
  "succ_back_edge (reset_node x) = None" "pred_back_edge (reset_node x) = None"
  "fake_succ (reset_node x) = []" "fake_pred (reset_node x) = []" "ir (reset_node x) = ir x"
  "succ (reset_node x) = succ x @ (case succ_back_edge x of None \<Rightarrow> [] | Some b \<Rightarrow> [b])"
  "pred (reset_node x) = pred x @ (case pred_back_edge x of None \<Rightarrow> [] | Some b \<Rightarrow> [b])"
  by (simp_all add: reset_node_def Let_def split: option.split)

lemma reset_traversal_fields [simp]:
  "length (nodes (reset_traversal s)) = length (nodes s)" "entry_block (reset_traversal s) = entry_block s"
  "exit_block (reset_traversal s) = exit_block s" "order_of (reset_traversal s) = []"
  "backward_post_visit_order (reset_traversal s) = []" "reachable_nodes (reset_traversal s) = {}"
  by (simp_all add: reset_traversal_def for_each_node_def)

lemma reset_fresh:
  assumes "edges_ok (reset_traversal s)" and "entry_block s < length (nodes s)" and "length (nodes s) \<le> 2 ^ 18"
  shows "fresh_graph (reset_traversal s)"
  using assms by (simp add: fresh_graph_def reset_traversal_node)

lemma analyze_forward_visit:
  assumes g: "edges_ok (reset_traversal s)" "entry_block s < length (nodes s)" "length (nodes s) \<le> 2 ^ 18"
    and v: "visit (entry_block s) (reset_traversal s) = Ok v"
  shows "\<exists>t. analyze_forward s = Ok t \<and> forward_correct (reset_traversal s) t \<and> order_of t = order_of v \<and>
    (\<forall>n. succ (node_at t n) = succ (node_at v n) \<and> succ_back_edge (node_at t n) = succ_back_edge (node_at v n))"
proof -
  have "visited_graph (reset_traversal s) v"
    using visit_graph [OF reset_fresh [OF g]] v by simp
  moreover have "forward_frame (reset_traversal s) v" using v visit_frame by (simp add: visit_def)
  ultimately show ?thesis using analyze_visited [OF g(1)] g(3) v by (simp add: analyze_forward_def)
qed

lemma analyze_forward_ok:
  assumes g: "edges_ok (reset_traversal s)" "entry_block s < length (nodes s)" "length (nodes s) \<le> 2 ^ 18"
  shows "asserts (analyze_forward s) (forward_correct (reset_traversal s))"
proof (cases "visit (entry_block s) (reset_traversal s)")
  case (Ok v)
  then show ?thesis using analyze_forward_visit [OF g] by auto
next
  case (Fault x)
  then show ?thesis using visit_graph [OF reset_fresh [OF g]] by (simp add: analyze_forward_def)
next
  case Reject
  then show ?thesis using visit_graph [OF reset_fresh [OF g]] by simp
qed

end
