(* ===== verification/Cfg_Search.thy ===== *)
theory Cfg_Search
  imports Cfg_Forward
begin

text \<open>
  The recursive searches with a cache (\<open>can_backtrace_to\<close>, \<open>dominates_all_reachable_exits\<close>,
  \<open>reaches_backward_visited_node\<close>): one lemma on their common shape says that the answer is
  whether a deciding node can be reached and that the depth bound is never met.
\<close>

section \<open>The shape of the searches\<close>

text \<open>The search goes on below a node when its test gives no answer.\<close>

definition goes_on :: "(nref \<Rightarrow> bool option) \<Rightarrow> (nref \<Rightarrow> nref list) \<Rightarrow> (nref \<times> nref) set" where
  "goes_on c adj = {(a, b). c a = None \<and> b \<in> set (adj a)}"

text \<open>A deciding node answers yes itself or has a neighbour that counts as found.\<close>

definition decides :: "(nref \<Rightarrow> bool option) \<Rightarrow> (nref \<Rightarrow> bool) \<Rightarrow> (nref \<Rightarrow> nref list) \<Rightarrow> nref \<Rightarrow> bool" where
  "decides c h adj y \<longleftrightarrow> c y = Some True \<or> c y = None \<and> (\<exists>x \<in> set (adj y). h x)"

definition explored ::
  "(nref \<Rightarrow> bool option) \<Rightarrow> (nref \<Rightarrow> bool) \<Rightarrow> (nref \<Rightarrow> nref list) \<Rightarrow> nref set \<Rightarrow> nref set \<Rightarrow> bool" where
  "explored c h adj cache cache' \<longleftrightarrow>
     cache \<subseteq> cache' \<and> (\<forall>y \<in> cache' - cache. \<not> decides c h adj y \<and> (\<forall>x. (y, x) \<in> goes_on c adj \<longrightarrow> x \<in> cache'))"

lemma explored_refl [simp]: "explored c h adj cache cache"
  by (simp add: explored_def)

lemma exploredI:
  assumes "A \<subseteq> B" and "\<And>y. y \<in> B \<Longrightarrow> y \<notin> A \<Longrightarrow> \<not> decides c h adj y"
    and "\<And>y x. y \<in> B \<Longrightarrow> y \<notin> A \<Longrightarrow> (y, x) \<in> goes_on c adj \<Longrightarrow> x \<in> B"
  shows "explored c h adj A B"
  unfolding explored_def using assms by blast

lemma exploredD:
  assumes "explored c h adj A B"
  shows "A \<subseteq> B" "y \<in> B \<Longrightarrow> y \<notin> A \<Longrightarrow> \<not> decides c h adj y"
    "y \<in> B \<Longrightarrow> y \<notin> A \<Longrightarrow> (y, x) \<in> goes_on c adj \<Longrightarrow> x \<in> B"
  using assms unfolding explored_def by blast+

lemma explored_trans:
  assumes "explored c h adj A B" and "explored c h adj B C"
  shows "explored c h adj A C"
proof (rule exploredI)
  note D1 = exploredD [OF assms(1)] and D2 = exploredD [OF assms(2)]
  show "A \<subseteq> C" using D1(1) D2(1) by (rule subset_trans)
  show "\<not> decides c h adj y" if "y \<in> C" "y \<notin> A" for y
    using that D1(2) [of y] D2(2) [of y] by (cases "y \<in> B") simp_all
  show "x \<in> C" if "y \<in> C" "y \<notin> A" "(y, x) \<in> goes_on c adj" for y x
    using that D1(3) [of y x] D2(3) [of y x] D2(1) by (cases "y \<in> B") auto
qed

lemma explored_insert:
  assumes "explored c h adj (insert n A) B" and "\<not> decides c h adj n" and "\<forall>x. (n, x) \<in> goes_on c adj \<longrightarrow> x \<in> B"
  shows "explored c h adj A B"
  using exploredD [OF assms(1)] assms(2,3) by (intro exploredI) blast+

text \<open>The outcomes of a search from a node and of the loop over some neighbours.\<close>

definition searched ::
  "(nref \<Rightarrow> bool option) \<Rightarrow> (nref \<Rightarrow> bool) \<Rightarrow> (nref \<Rightarrow> nref list) \<Rightarrow> nref \<Rightarrow> nref set \<Rightarrow> (bool \<times> nref set) res \<Rightarrow> bool" where
  "searched c h adj n cache m \<longleftrightarrow>
     (\<exists>r cache'. m = Ok (r, cache') \<and>
        (r \<longrightarrow> (\<exists>y. (n, y) \<in> (goes_on c adj)\<^sup>* \<and> decides c h adj y)) \<and>
        (\<not> r \<longrightarrow> n \<in> cache' \<and> explored c h adj cache cache'))"

definition searched_list ::
  "(nref \<Rightarrow> bool option) \<Rightarrow> (nref \<Rightarrow> bool) \<Rightarrow> (nref \<Rightarrow> nref list) \<Rightarrow> nref list \<Rightarrow> nref set \<Rightarrow> (bool \<times> nref set) res \<Rightarrow> bool" where
  "searched_list c h adj xs cache m \<longleftrightarrow>
     (\<exists>r cache'. m = Ok (r, cache') \<and>
        (r \<longrightarrow> (\<exists>x \<in> set xs. h x \<or> (\<exists>y. (x, y) \<in> (goes_on c adj)\<^sup>* \<and> decides c h adj y))) \<and>
        (\<not> r \<longrightarrow> (\<forall>x \<in> set xs. \<not> h x) \<and> set xs \<subseteq> cache' \<and> explored c h adj cache cache'))"

lemma searched_Ok [simp]:
  "searched c h adj n cache (Ok (r, cache')) \<longleftrightarrow>
     (r \<longrightarrow> (\<exists>y. (n, y) \<in> (goes_on c adj)\<^sup>* \<and> decides c h adj y)) \<and>
     (\<not> r \<longrightarrow> n \<in> cache' \<and> explored c h adj cache cache')"
  by (simp add: searched_def)

lemma searched_list_Ok [simp]:
  "searched_list c h adj xs cache (Ok (r, cache')) \<longleftrightarrow>
     (r \<longrightarrow> (\<exists>x \<in> set xs. h x \<or> (\<exists>y. (x, y) \<in> (goes_on c adj)\<^sup>* \<and> decides c h adj y))) \<and>
     (\<not> r \<longrightarrow> (\<forall>x \<in> set xs. \<not> h x) \<and> set xs \<subseteq> cache' \<and> explored c h adj cache cache')"
  by (simp add: searched_list_def)

text \<open>The tests have results on a finite set of nodes closed under the neighbours.\<close>

definition searchable ::
  "nref set \<Rightarrow> (nref \<Rightarrow> bool option res) \<Rightarrow> (nref \<Rightarrow> bool res) \<Rightarrow> (nref \<Rightarrow> nref list) \<Rightarrow>
   (nref \<Rightarrow> bool option) \<Rightarrow> (nref \<Rightarrow> bool) \<Rightarrow> bool" where
  "searchable U check hit adj c h \<longleftrightarrow>
     finite U \<and> (\<forall>a \<in> U. check a = Ok (c a) \<and> hit a = Ok (h a) \<and> (c a = None \<longrightarrow> set (adj a) \<subseteq> U))"

lemma search_list_step:
  assumes U: "searchable U check hit adj c h"
    and one: "\<And>n cache. n \<in> U \<Longrightarrow> card (U - cache) < k \<Longrightarrow> searched c h adj n cache (search k check hit adj n cache)"
  shows "set xs \<subseteq> U \<Longrightarrow> card (U - cache) < k \<Longrightarrow> searched_list c h adj xs cache (search_list k check hit adj xs cache)"
proof (induction xs arbitrary: cache)
  case (Cons x xs)
  have x: "x \<in> U" "hit x = Ok (h x)" using U Cons.prems(1) by (auto simp: searchable_def)
  show ?case
  proof (cases "h x")
    case True
    then show ?thesis using x by simp
  next
    case nh: False
    obtain r B where r: "search k check hit adj x cache = Ok (r, B)"
      "r \<Longrightarrow> \<exists>y. (x, y) \<in> (goes_on c adj)\<^sup>* \<and> decides c h adj y"
      "\<not> r \<Longrightarrow> x \<in> B \<and> explored c h adj cache B"
      using one [OF x(1) Cons.prems(2)] unfolding searched_def by blast
    show ?thesis
    proof (cases r)
      case True
      then show ?thesis using r nh x by auto
    next
      case False
      then have B: "x \<in> B" "explored c h adj cache B" using r(3) by simp_all
      have "card (U - B) \<le> card (U - cache)"
        using U B(2) by (intro card_mono) (auto simp: searchable_def explored_def)
      then have "searched_list c h adj xs B (search_list k check hit adj xs B)"
        using Cons.IH [of B] Cons.prems by simp
      then obtain r' C where r': "search_list k check hit adj xs B = Ok (r', C)"
        "r' \<Longrightarrow> \<exists>x \<in> set xs. h x \<or> (\<exists>y. (x, y) \<in> (goes_on c adj)\<^sup>* \<and> decides c h adj y)"
        "\<not> r' \<Longrightarrow> (\<forall>x \<in> set xs. \<not> h x) \<and> set xs \<subseteq> C \<and> explored c h adj B C"
        unfolding searched_list_def by blast
      have "search_list k check hit adj (x # xs) cache = Ok (r', C)" using nh x(2) r(1) r'(1) False by simp
      moreover have "\<exists>x \<in> set (x # xs). h x \<or> (\<exists>y. (x, y) \<in> (goes_on c adj)\<^sup>* \<and> decides c h adj y)" if r'
        using r'(2) [OF that] by simp
      moreover have "(\<forall>x \<in> set (x # xs). \<not> h x) \<and> set (x # xs) \<subseteq> C \<and> explored c h adj cache C" if "\<not> r'"
      proof -
        note C = r'(3) [OF that]
        have "explored c h adj B C" using C by blast
        then show ?thesis using explored_trans [OF B(2)] exploredD(1) [of c h adj B C] B(1) C nh by auto
      qed
      ultimately show ?thesis unfolding searched_list_def by blast
    qed
  qed
qed simp

lemma search_ok:
  assumes U: "searchable U check hit adj c h"
  shows "n \<in> U \<Longrightarrow> card (U - cache) < k \<Longrightarrow> searched c h adj n cache (search k check hit adj n cache)"
proof (induction k arbitrary: n cache)
  case (Suc k)
  have n: "check n = Ok (c n)" "c n = None \<Longrightarrow> set (adj n) \<subseteq> U" using U Suc.prems(1) by (auto simp: searchable_def)
  show ?case
  proof (cases "n \<in> cache")
    case True
    then show ?thesis by simp
  next
    case nc: False
    show ?thesis
    proof (cases "c n")
      case (Some b)
      have "(n, n) \<in> (goes_on c adj)\<^sup>*" by simp
      then show ?thesis
        using Some n(1) nc by (auto simp: decides_def explored_def goes_on_def)
    next
      case None
      have fin: "finite (U - cache)" using U by (simp add: searchable_def)
      have "U - insert n cache = (U - cache) - {n}" by auto
      then have "card (U - insert n cache) < k"
        using Suc.prems nc fin card_Diff1_less [of "U - cache" n] by auto
      then have "searched_list c h adj (adj n) (insert n cache) (search_list k check hit adj (adj n) (insert n cache))"
        using search_list_step [OF U Suc.IH n(2) [OF None]] by simp
      then obtain r C where r: "search_list k check hit adj (adj n) (insert n cache) = Ok (r, C)"
        "r \<Longrightarrow> \<exists>x \<in> set (adj n). h x \<or> (\<exists>y. (x, y) \<in> (goes_on c adj)\<^sup>* \<and> decides c h adj y)"
        "\<not> r \<Longrightarrow> (\<forall>x \<in> set (adj n). \<not> h x) \<and> set (adj n) \<subseteq> C \<and> explored c h adj (insert n cache) C"
        unfolding searched_list_def by blast
      have yes: "\<exists>y. (n, y) \<in> (goes_on c adj)\<^sup>* \<and> decides c h adj y" if "r"
      proof -
        have "\<exists>x \<in> set (adj n). h x \<or> (\<exists>y. (x, y) \<in> (goes_on c adj)\<^sup>* \<and> decides c h adj y)" by (rule r(2)) (rule that)
        then obtain x where x: "x \<in> set (adj n)" "h x \<or> (\<exists>y. (x, y) \<in> (goes_on c adj)\<^sup>* \<and> decides c h adj y)" by blast
        have edge: "(n, x) \<in> goes_on c adj" using None x(1) by (simp add: goes_on_def)
        show ?thesis
        proof (cases "h x")
          case True
          then have "decides c h adj n" using None x(1) by (auto simp: decides_def)
          then show ?thesis by blast
        next
          case False
          then show ?thesis using x(2) converse_rtrancl_into_rtrancl [OF edge] by blast
        qed
      qed
      have no: "n \<in> C \<and> explored c h adj cache C" if "\<not> r"
      proof -
        note C = r(3) [OF that]
        have "\<not> decides c h adj n" using None C by (auto simp: decides_def)
        moreover have "\<forall>x. (n, x) \<in> goes_on c adj \<longrightarrow> x \<in> C" using C by (auto simp: goes_on_def)
        moreover have "explored c h adj (insert n cache) C" using C by blast
        ultimately show ?thesis using explored_insert exploredD(1) by blast
      qed
      show ?thesis using r(1) yes no n(1) nc None by simp
    qed
  qed
qed simp

text \<open>A search with an empty cache decides whether a deciding node can be reached.\<close>

lemma search_decides:
  assumes U: "searchable U check hit adj c h" and n: "n \<in> U" and k: "card U < k"
  shows "\<exists>cache. search k check hit adj n {} = Ok (\<exists>y. (n, y) \<in> (goes_on c adj)\<^sup>* \<and> decides c h adj y, cache)"
proof -
  obtain r C where r: "search k check hit adj n {} = Ok (r, C)"
    "r \<Longrightarrow> \<exists>y. (n, y) \<in> (goes_on c adj)\<^sup>* \<and> decides c h adj y"
    "\<not> r \<Longrightarrow> n \<in> C \<and> explored c h adj {} C"
    using search_ok [OF U n, of "{}" k] k unfolding searched_def by auto
  have "y \<in> C" if "\<not> r" "(n, y) \<in> (goes_on c adj)\<^sup>*" for y
    using that(2) by (induction rule: rtrancl_induct) (use r(3) [OF that(1)] in \<open>auto simp: explored_def\<close>)
  then have "\<not> r \<Longrightarrow> \<not> (\<exists>y. (n, y) \<in> (goes_on c adj)\<^sup>* \<and> decides c h adj y)"
    using r(3) by (auto simp: explored_def)
  then show ?thesis using r(1,2) by (cases r) auto
qed

section \<open>The searches of the node class\<close>

definition pred_rel :: "'a CFGNodePool_scheme \<Rightarrow> (nref \<times> nref) set" where
  "pred_rel p = {(a, b). b \<in> set (pred (node_at p a))}"

text \<open>The backward search with blockers follows predecessor edges and stops at the blockers.\<close>

definition unblocked_rel :: "'a CFGNodePool_scheme \<Rightarrow> nref list \<Rightarrow> (nref \<times> nref) set" where
  "unblocked_rel p bs = {(a, b). a \<notin> set bs \<and> b \<in> set (pred (node_at p a))}"

text \<open>Predecessors are numbered higher: the test on the numbers is then no restriction.\<close>

definition preds_higher :: "'a CFGNodePool_scheme \<Rightarrow> nref set \<Rightarrow> bool" where
  "preds_higher p S \<longleftrightarrow> S \<subseteq> {..<length (nodes p)} \<and>
     (\<forall>n \<in> S. \<forall>m \<in> set (pred (node_at p n)). m \<in> S \<and> forward_order (node_at p n) < forward_order (node_at p m))"

lemma preds_higher_fuel:
  assumes "preds_higher p S"
  shows "finite S" "card S < walk_fuel p"
proof -
  have sub: "S \<subseteq> {..<length (nodes p)}" using assms by (simp add: preds_higher_def)
  show "finite S" by (rule finite_subset [OF sub]) simp
  show "card S < walk_fuel p" using card_mono [OF _ sub] by (simp add: walk_fuel_def)
qed

lemma backtrace_search_path:
  assumes S: "preds_higher p S" and n: "n \<in> S"
  shows "\<exists>cache. backtrace_search_with_blockers p n parent bs {} = Ok ((n, parent) \<in> (unblocked_rel p bs)\<^sup>+, cache)"
proof -
  let ?c = "\<lambda>n. if n \<in> set bs then Some False else None" and ?adj = "\<lambda>n. pred (node_at p n)"
  have R: "goes_on ?c ?adj = unblocked_rel p bs" by (auto simp: goes_on_def unblocked_rel_def)
  have D: "decides ?c (\<lambda>q. q = parent) ?adj y \<longleftrightarrow> (y, parent) \<in> unblocked_rel p bs" for y
    by (auto simp: decides_def unblocked_rel_def)
  have "searchable S (\<lambda>n. Ok (?c n)) (\<lambda>q. Ok (q = parent)) ?adj ?c (\<lambda>q. q = parent)"
    using S preds_higher_fuel(1) [OF S] by (auto simp: searchable_def preds_higher_def)
  from search_decides [OF this n preds_higher_fuel(2) [OF S]]
  obtain cache where "search (walk_fuel p) (\<lambda>n. Ok (?c n)) (\<lambda>q. Ok (q = parent)) ?adj n {} =
      Ok (\<exists>y. (n, y) \<in> (unblocked_rel p bs)\<^sup>* \<and> (y, parent) \<in> unblocked_rel p bs, cache)"
    unfolding R D by blast
  moreover have "(\<exists>y. (n, y) \<in> (unblocked_rel p bs)\<^sup>* \<and> (y, parent) \<in> unblocked_rel p bs) \<longleftrightarrow> (n, parent) \<in> (unblocked_rel p bs)\<^sup>+"
    by (auto simp: trancl_unfold_right)
  ultimately show ?thesis by (simp add: backtrace_search_with_blockers_def)
qed

lemma backtrace_no_blockers: "backtrace_search p n parent = backtrace_search_with_blockers p n parent []"
  by (simp add: backtrace_search_def backtrace_search_with_blockers_def)

lemma unblocked_none: "unblocked_rel p [] = pred_rel p"
  by (simp add: unblocked_rel_def pred_rel_def)

lemma preds_higher_path:
  assumes "preds_higher p S"
  shows "(a, b) \<in> (unblocked_rel p bs)\<^sup>+ \<Longrightarrow> a \<in> S \<Longrightarrow> b \<in> S \<and> forward_order (node_at p a) < forward_order (node_at p b)"
proof (induction rule: trancl_induct)
  case (base y)
  then show ?case using assms by (auto simp: preds_higher_def unblocked_rel_def)
next
  case (step y z)
  then have "z \<in> set (pred (node_at p y))" "y \<in> S" "forward_order (node_at p a) < forward_order (node_at p y)"
    by (auto simp: unblocked_rel_def)
  then show ?case using assms by (fastforce simp: preds_higher_def)
qed

lemma blockers_path:
  assumes "preds_higher p S" and "n \<in> S"
  shows "can_backtrace_to_with_blockers p n parent bs = Ok ((n, parent) \<in> (unblocked_rel p bs)\<^sup>+)"
  using backtrace_search_path [OF assms, of parent bs] preds_higher_path [OF assms(1) _ assms(2), of parent bs]
  by (auto simp: can_backtrace_to_with_blockers_def)

lemma backtrace_path:
  assumes "preds_higher p S" and "n \<in> S"
  shows "can_backtrace_to p n parent = Ok ((n, parent) \<in> (pred_rel p)\<^sup>+)"
  using blockers_path [OF assms, of parent "[]"]
  unfolding can_backtrace_to_def can_backtrace_to_with_blockers_def backtrace_no_blockers unblocked_none .

lemma ranked_preds_higher:
  assumes "ranked p e L"
  shows "preds_higher p (set L)"
  unfolding preds_higher_def
proof (intro conjI ballI)
  show "set L \<subseteq> {..<length (nodes p)}" using assms by (simp add: ranked_def)
  fix n m assume nm: "n \<in> set L" "m \<in> set (pred (node_at p n))"
  have "n \<noteq> e" using assms nm(2) by (auto simp: ranked_def)
  then show "m \<in> set L" "forward_order (node_at p n) < forward_order (node_at p m)"
    using assms nm unfolding ranked_def by blast+
qed

text \<open>All exits: the search is for an edge, forward or back, to a node the header does not dominate.\<close>

definition targets :: "'a CFGNodePool_scheme \<Rightarrow> nref \<Rightarrow> nref set" where
  "targets p n = set (succ (node_at p n)) \<union> {b. succ_back_edge (node_at p n) = Some b}"

lemma exits_search:
  assumes S: "S \<subseteq> {..<length (nodes p)}" "\<And>n. n \<in> S \<Longrightarrow> targets p n \<subseteq> S" and n0: "h \<in> S"
    and dom: "\<And>m. m \<in> S \<Longrightarrow> dominates p h m = Ok (D m)"
  shows "dominates_all_reachable_exits p h = Ok (\<forall>n. (h, n) \<in> (succ_rel p)\<^sup>* \<longrightarrow> (\<forall>m \<in> targets p n. D m))"
proof -
  let ?c = "\<lambda>n. case succ_back_edge (node_at p n) of None \<Rightarrow> None | Some b \<Rightarrow> if D b then None else Some True"
  let ?hit = "\<lambda>m. \<not> D m" and ?adj = "\<lambda>n. succ (node_at p n)"
  have fin: "finite S" by (rule finite_subset [OF S(1)]) simp
  have card: "card S \<le> length (nodes p)" using card_mono [OF _ S(1)] by simp
  have found: "\<exists>cache. dominates_all_reachable_exits_search p h h {} =
      Ok (\<exists>y. (h, y) \<in> (goes_on ?c ?adj)\<^sup>* \<and> decides ?c ?hit ?adj y, cache)"
    unfolding dominates_all_reachable_exits_search_def
  proof (rule search_decides [OF _ n0])
    have "succ_back_edge (node_at p a) = Some b \<Longrightarrow> dominates p h b = Ok (D b)" if "a \<in> S" for a b
      using S(2) [OF that] dom by (auto simp: targets_def)
    then show "searchable S (\<lambda>n. case succ_back_edge (node_at p n) of None \<Rightarrow> Ok None
          | Some b \<Rightarrow> bind_res (dominates p h b) (\<lambda>d. Ok (if d then None else Some True)))
        (\<lambda>x. bind_res (dominates p h x) (\<lambda>d. Ok (\<not> d))) ?adj ?c ?hit"
      using fin dom S(2) by (auto simp: searchable_def targets_def split: option.split)
  qed (use card in \<open>simp add: walk_fuel_def\<close>)
  have bad: "decides ?c ?hit ?adj n \<longleftrightarrow> (\<exists>m \<in> targets p n. \<not> D m)" for n
    by (auto simp: decides_def targets_def split: option.splits)
  have sub: "goes_on ?c ?adj \<subseteq> succ_rel p" by (auto simp: goes_on_def succ_rel_def)
  have hit: "\<exists>y. (h, y) \<in> (goes_on ?c ?adj)\<^sup>* \<and> decides ?c ?hit ?adj y"
    if "(h, n) \<in> (succ_rel p)\<^sup>*" "\<exists>m \<in> targets p n. \<not> D m" for n
  proof (rule ccontr)
    assume none: "\<not> ?thesis"
    have "(h, n) \<in> (goes_on ?c ?adj)\<^sup>*"
      using that(1)
    proof (induction rule: rtrancl_induct)
      case (step y z)
      then have "\<forall>m \<in> targets p y. D m" using none bad by blast
      then have "(y, z) \<in> goes_on ?c ?adj" using step.hyps(2) by (auto simp: goes_on_def succ_rel_def targets_def split: option.split)
      then show ?case using step.IH by (rule rtrancl_into_rtrancl [rotated])
    qed simp
    then show False using none bad that(2) by blast
  qed
  have iff: "(\<exists>y. (h, y) \<in> (goes_on ?c ?adj)\<^sup>* \<and> decides ?c ?hit ?adj y) \<longleftrightarrow>
      \<not> (\<forall>n. (h, n) \<in> (succ_rel p)\<^sup>* \<longrightarrow> (\<forall>m \<in> targets p n. D m))"
    using rtrancl_mono [OF sub] bad hit by blast
  then show ?thesis
    using found iff by (auto simp: dominates_all_reachable_exits_def)
qed

end
