(* ===== verification/Cfg_Backward.thy ===== *)
theory Cfg_Backward
  imports Cfg_Search
begin

text \<open>
  The backward visit (\<open>CFGStructurizer::backwards_visit(CFGNode \&)\<close>): a depth-first search from the
  leaves against the edges, fake edges included. On a graph without cycles it numbers a node
  after every node that leads to it, and it reaches everything that leads to a leaf.
\<close>

definition back_edges :: "'a CFGNodePool_scheme \<Rightarrow> nref \<Rightarrow> nref list" where
  "back_edges p n = pred (node_at p n) @ fake_pred (node_at p n)"

definition back_rel :: "'a CFGNodePool_scheme \<Rightarrow> (nref \<times> nref) set" where
  "back_rel p = {(a, b). b \<in> set (back_edges p a)}"

text \<open>A node without what the backward visit writes.\<close>

definition unmarked :: "CFGNode \<Rightarrow> CFGNode" where
  "unmarked x = x\<lparr>backward_visited := False, backward_order := 0\<rparr>"

lemma unmarked_fields:
  assumes "unmarked x = unmarked y"
  shows "pred x = pred y" "succ x = succ y" "fake_pred x = fake_pred y" "fake_succ x = fake_succ y"
    "immediate_post_dominator x = immediate_post_dominator y" "forward_order x = forward_order y"
    "immediate_dominator x = immediate_dominator y" "pred_back_edge x = pred_back_edge y"
    "succ_back_edge x = succ_back_edge y"
  using arg_cong [OF assms, of pred] arg_cong [OF assms, of succ] arg_cong [OF assms, of fake_pred]
    arg_cong [OF assms, of fake_succ] arg_cong [OF assms, of immediate_post_dominator] arg_cong [OF assms, of forward_order]
    arg_cong [OF assms, of immediate_dominator] arg_cong [OF assms, of pred_back_edge] arg_cong [OF assms, of succ_back_edge]
  by (simp_all add: unmarked_def)

text \<open>
  The state of the search, started in \<open>s0\<close>: \<open>K\<close> are the nodes on the stack, \<open>xs\<close> the finished
  ones in order, each after all that lead to it.
\<close>

definition retreating :: "CFGStructurizer \<Rightarrow> nref set \<Rightarrow> nref list \<Rightarrow> CFGStructurizer \<Rightarrow> bool" where
  "retreating s0 K xs s \<longleftrightarrow>
     s\<lparr>nodes := [], backward_post_visit_order := []\<rparr> = s0\<lparr>nodes := [], backward_post_visit_order := []\<rparr> \<and>
     length (nodes s) = length (nodes s0) \<and>
     backward_post_visit_order s = backward_post_visit_order s0 @ xs \<and>
     (\<forall>n. unmarked (node_at s n) = unmarked (node_at s0 n)) \<and>
     (\<forall>n. backward_visited (node_at s n) \<longleftrightarrow> n \<in> K \<or> n \<in> set xs) \<and>
     (\<forall>i < length xs. backward_order (node_at s (xs ! i)) = length (backward_post_visit_order s0) + i) \<and>
     distinct xs \<and> set xs \<inter> K = {} \<and> set xs \<union> K \<subseteq> {..<length (nodes s0)} \<and>
     (\<forall>i < length xs. set (back_edges s0 (xs ! i)) \<subseteq> set (take i xs))"

lemma retreatingD:
  assumes "retreating s0 K xs s"
  shows "s\<lparr>nodes := [], backward_post_visit_order := []\<rparr> = s0\<lparr>nodes := [], backward_post_visit_order := []\<rparr>"
    "length (nodes s) = length (nodes s0)"
    "backward_post_visit_order s = backward_post_visit_order s0 @ xs"
    "unmarked (node_at s n) = unmarked (node_at s0 n)"
    "backward_visited (node_at s n) \<longleftrightarrow> n \<in> K \<or> n \<in> set xs"
    "i < length xs \<Longrightarrow> backward_order (node_at s (xs ! i)) = length (backward_post_visit_order s0) + i"
    "distinct xs" "set xs \<inter> K = {}" "set xs \<union> K \<subseteq> {..<length (nodes s0)}"
    "i < length xs \<Longrightarrow> set (back_edges s0 (xs ! i)) \<subseteq> set (take i xs)"
    "back_edges s n = back_edges s0 n" "fake_pred (node_at s n) = fake_pred (node_at s0 n)" "pred (node_at s n) = pred (node_at s0 n)"
proof -
  note d = assms [unfolded retreating_def]
  show "s\<lparr>nodes := [], backward_post_visit_order := []\<rparr> = s0\<lparr>nodes := [], backward_post_visit_order := []\<rparr>"
    "length (nodes s) = length (nodes s0)"
    "backward_post_visit_order s = backward_post_visit_order s0 @ xs"
    "backward_visited (node_at s n) \<longleftrightarrow> n \<in> K \<or> n \<in> set xs"
    "i < length xs \<Longrightarrow> backward_order (node_at s (xs ! i)) = length (backward_post_visit_order s0) + i"
    "distinct xs" "set xs \<inter> K = {}" "set xs \<union> K \<subseteq> {..<length (nodes s0)}"
    "i < length xs \<Longrightarrow> set (back_edges s0 (xs ! i)) \<subseteq> set (take i xs)"
    using d by blast+
  show eq: "unmarked (node_at s n) = unmarked (node_at s0 n)" using d by blast
  show "fake_pred (node_at s n) = fake_pred (node_at s0 n)" "pred (node_at s n) = pred (node_at s0 n)"
    using unmarked_fields [OF eq] by simp_all
  then show "back_edges s n = back_edges s0 n" by (simp add: back_edges_def)
qed

lemma begin_retreating:
  assumes s: "retreating s0 K xs s" and e: "e \<notin> set xs" "e < length (nodes s0)"
  shows "retreating s0 (insert e K) xs (begin_backwards e s)"
proof -
  let ?t = "begin_backwards e s"
  note D = retreatingD [OF s]
  have at: "node_at ?t n = (if n = e then (node_at s e)\<lparr>backward_visited := True\<rparr> else node_at s n)" for n
    using e(2) D(2) by (simp add: begin_backwards_def node_at_update)
  have frame: "?t\<lparr>nodes := [], backward_post_visit_order := []\<rparr> = s\<lparr>nodes := [], backward_post_visit_order := []\<rparr>"
    "length (nodes ?t) = length (nodes s)" "backward_post_visit_order ?t = backward_post_visit_order s"
    by (simp_all add: begin_backwards_def update_node_def)
  show ?thesis
    unfolding retreating_def
  proof (intro conjI allI impI)
    show "unmarked (node_at ?t n) = unmarked (node_at s0 n)" for n
    proof -
      have "unmarked (node_at ?t n) = unmarked (node_at s n)" by (simp add: at unmarked_def)
      then show ?thesis using D(4) by simp
    qed
    show "backward_visited (node_at ?t n) \<longleftrightarrow> n \<in> insert e K \<or> n \<in> set xs" for n using D(5) [of n] by (simp add: at)
    show "backward_order (node_at ?t (xs ! i)) = length (backward_post_visit_order s0) + i" if "i < length xs" for i
      using D(6) [OF that] e(1) that by (auto simp: at)
  qed (use frame D(1-3,7-10) e in auto)
qed

lemma finish_retreating:
  assumes s: "retreating s0 (insert e K) xs s" and e: "e \<notin> K" "e < length (nodes s0)"
    and small: "length (backward_post_visit_order s0) + length (nodes s0) \<le> 2 ^ 32"
    and edges: "set (back_edges s0 e) \<subseteq> set xs"
  shows "retreating s0 K (xs @ [e]) (finish_backwards e s)"
proof -
  let ?t = "finish_backwards e s" and ?b = "length (backward_post_visit_order s0)"
  note D = retreatingD [OF s]
  have ex: "e \<notin> set xs" using D(8) by auto
  have "set (xs @ [e]) \<subseteq> {..<length (nodes s0)}" using D(9) e(2) by auto
  then have "length (xs @ [e]) \<le> length (nodes s0)"
    using card_mono [of "{..<length (nodes s0)}" "set (xs @ [e])"] distinct_card [of "xs @ [e]"] D(7) ex by simp
  then have num: "u32_of (?b + length xs) = ?b + length xs" using small by (simp add: u32_of_def)
  have at: "node_at ?t n = (if n = e then (node_at s e)\<lparr>backward_order := ?b + length xs\<rparr> else node_at s n)" for n
    using e(2) D(2,3) num by (simp add: finish_backwards_def Let_def node_at_update)
  have frame: "?t\<lparr>nodes := [], backward_post_visit_order := []\<rparr> = s\<lparr>nodes := [], backward_post_visit_order := []\<rparr>"
    "length (nodes ?t) = length (nodes s)" "backward_post_visit_order ?t = backward_post_visit_order s @ [e]"
    by (simp_all add: finish_backwards_def Let_def update_node_def)
  show ?thesis
    unfolding retreating_def
  proof (intro conjI allI impI)
    show "unmarked (node_at ?t n) = unmarked (node_at s0 n)" for n
    proof -
      have "unmarked (node_at ?t n) = unmarked (node_at s n)" by (simp add: at unmarked_def)
      then show ?thesis using D(4) by simp
    qed
    show "backward_visited (node_at ?t n) \<longleftrightarrow> n \<in> K \<or> n \<in> set (xs @ [e])" for n using D(5) [of n] by (auto simp: at)
    show "backward_order (node_at ?t ((xs @ [e]) ! i)) = ?b + i" if "i < length (xs @ [e])" for i
      using D(6) [of i] ex that by (auto simp: at nth_append)
    show "set (back_edges s0 ((xs @ [e]) ! i)) \<subseteq> set (take i (xs @ [e]))" if "i < length (xs @ [e])" for i
      using D(10) [of i] edges that by (auto simp: nth_append)
  qed (use frame D(1-3,7-9) e ex in auto)
qed

section \<open>The search\<close>

text \<open>Ranks that grow along the edges followed: there is no cycle.\<close>

definition climbing :: "'a CFGNodePool_scheme \<Rightarrow> (nref \<Rightarrow> nat) \<Rightarrow> nref set \<Rightarrow> bool" where
  "climbing p r A \<longleftrightarrow> A \<subseteq> {..<length (nodes p)} \<and> (\<forall>n \<in> A. \<forall>m \<in> set (back_edges p n). m \<in> A \<and> r n < r m)"

definition retreated :: "CFGStructurizer \<Rightarrow> nref set \<Rightarrow> nref list \<Rightarrow> nref list \<Rightarrow> CFGStructurizer \<Rightarrow> bool" where
  "retreated s0 K xs es t \<longleftrightarrow>
     (\<exists>ys. retreating s0 K (xs @ ys) t \<and> set es \<subseteq> set (xs @ ys) \<and> (\<forall>y \<in> set ys. \<exists>e \<in> set es. (e, y) \<in> (back_rel s0)\<^sup>*))"

lemma backwards_edges_ok:
  assumes step: "\<And>q xs s. q \<in> Q \<Longrightarrow> retreating s0 K xs s \<Longrightarrow> q \<notin> set xs \<Longrightarrow> n \<le> length xs \<Longrightarrow>
      \<exists>t. rec q s = Ok t \<and> retreated s0 K xs [q] t"
    and K: "Q \<inter> K = {}"
  shows "set qs \<subseteq> Q \<Longrightarrow> retreating s0 K xs s \<Longrightarrow> n \<le> length xs \<Longrightarrow>
    \<exists>t. fold_res (backwards_edge rec) qs s = Ok t \<and> retreated s0 K xs qs t"
proof (induction qs arbitrary: xs s)
  case Nil
  then show ?case by (auto simp: retreated_def intro!: exI [of _ "[]"])
next
  case (Cons q qs)
  have q: "q \<in> Q" "q \<notin> K" using Cons.prems(1) K by auto
  have "\<exists>t. backwards_edge rec q s = Ok t \<and> retreated s0 K xs [q] t"
  proof (cases "q \<in> set xs")
    case True
    then show ?thesis
      using retreatingD(5) [OF Cons.prems(2), of q] Cons.prems(2)
      by (auto simp: backwards_edge_def retreated_def intro!: exI [of _ "[]"])
  next
    case False
    then have "\<not> backward_visited (node_at s q)" using retreatingD(5) [OF Cons.prems(2), of q] q(2) by simp
    then show ?thesis using step [OF q(1) Cons.prems(2) False Cons.prems(3)] by (simp add: backwards_edge_def)
  qed
  then obtain t ys where t: "backwards_edge rec q s = Ok t" "retreating s0 K (xs @ ys) t" "q \<in> set (xs @ ys)"
    "\<forall>y \<in> set ys. (q, y) \<in> (back_rel s0)\<^sup>*"
    by (auto simp: retreated_def)
  have "n \<le> length (xs @ ys)" using Cons.prems(3) by simp
  then obtain u zs where u: "fold_res (backwards_edge rec) qs t = Ok u" "retreating s0 K ((xs @ ys) @ zs) u"
    "set qs \<subseteq> set ((xs @ ys) @ zs)" "\<forall>y \<in> set zs. \<exists>e \<in> set qs. (e, y) \<in> (back_rel s0)\<^sup>*"
    using Cons.IH [of "xs @ ys" t] Cons.prems(1) t(2) by (auto simp: retreated_def)
  have "retreated s0 K xs (q # qs) u"
    unfolding retreated_def using u(2-4) t(3,4) by (intro exI [of _ "ys @ zs"]) auto
  then show ?case using t(1) u(1) by simp
qed

lemma backwards_visit_at_ok:
  assumes A: "climbing s0 r A" and small: "length (backward_post_visit_order s0) + length (nodes s0) \<le> 2 ^ 32"
  shows "retreating s0 K xs s \<Longrightarrow> e \<in> A \<Longrightarrow> e \<notin> set xs \<Longrightarrow> e \<notin> K \<Longrightarrow> \<forall>x \<in> K. r x < r e \<Longrightarrow>
    length (nodes s0) < k + length xs + card K \<Longrightarrow>
    \<exists>t. backwards_visit_at k e s = Ok t \<and> retreated s0 K xs [e] t"
proof (induction k arbitrary: K xs s e)
  case 0
  note D = retreatingD [OF 0(1)]
  have "finite K" using D(9) finite_subset by blast
  then have "card (set xs \<union> K) = length xs + card K" using D(7,8) by (simp add: card_Un_disjoint distinct_card)
  moreover have "card (set xs \<union> K) \<le> length (nodes s0)" using card_mono [OF _ D(9)] by simp
  ultimately show ?case using 0 by simp
next
  case (Suc k)
  let ?K = "insert e K" and ?s = "begin_backwards e s"
  have e: "e < length (nodes s0)" using A Suc.prems(2) by (auto simp: climbing_def)
  have s: "retreating s0 ?K xs ?s" by (rule begin_retreating [OF Suc.prems(1,3) e])
  have finK: "finite K" using retreatingD(9) [OF Suc.prems(1)] finite_subset by blast
  have Q: "q \<in> A" "q \<notin> ?K" "\<forall>x \<in> ?K. r x < r q" if "q \<in> set (back_edges s0 e)" for q
    using A Suc.prems(2,5) that unfolding climbing_def by (auto, fastforce+)
  have step: "\<exists>t. backwards_visit_at k q t0 = Ok t \<and> retreated s0 ?K ys [q] t"
    if "q \<in> set (back_edges s0 e)" "retreating s0 ?K ys t0" "q \<notin> set ys" "length xs \<le> length ys" for q ys t0
    by (rule Suc.IH [OF that(2) Q(1) [OF that(1)] that(3) Q(2,3) [OF that(1)] ])
       (use that(4) Suc.prems(4,6) finK in auto)
  have off: "set (back_edges s0 e) \<inter> ?K = {}" using Q(2) by blast
  have run: "\<exists>t. fold_res (backwards_edge (backwards_visit_at k)) qs ?s = Ok t \<and> retreated s0 ?K xs qs t"
    if "set qs \<subseteq> set (back_edges s0 e)" for qs
    by (rule backwards_edges_ok [where n = "length xs", OF step off that s order.refl])
  from run [OF order.refl] obtain t ys where t: "fold_res (backwards_edge (backwards_visit_at k)) (back_edges s0 e) ?s = Ok t"
    "retreating s0 ?K (xs @ ys) t" "set (back_edges s0 e) \<subseteq> set (xs @ ys)"
    "\<forall>y \<in> set ys. \<exists>q \<in> set (back_edges s0 e). (q, y) \<in> (back_rel s0)\<^sup>*"
    by (auto simp: retreated_def)
  have fin: "retreating s0 K ((xs @ ys) @ [e]) (finish_backwards e t)"
    by (rule finish_retreating [OF t(2) Suc.prems(4) e small t(3)])
  have "(e, y) \<in> (back_rel s0)\<^sup>*" if "y \<in> set (ys @ [e])" for y
    using that t(4) converse_rtrancl_into_rtrancl [of e _ "back_rel s0" y] by (auto simp: back_rel_def)
  then have "retreated s0 K xs [e] (finish_backwards e t)"
    unfolding retreated_def using fin by (intro exI [of _ "ys @ [e]"]) simp
  moreover have "backwards_visit_at (Suc k) e s = Ok (finish_backwards e t)"
  proof -
    obtain u where u: "fold_res (backwards_edge (backwards_visit_at k)) (pred (node_at s0 e)) ?s = Ok u"
      "fold_res (backwards_edge (backwards_visit_at k)) (fake_pred (node_at s0 e)) u = Ok t"
      using t(1) by (auto simp: back_edges_def fold_res_append bind_res_Ok_iff)
    have "set (pred (node_at s0 e)) \<subseteq> set (back_edges s0 e)" by (simp add: back_edges_def)
    from run [OF this] obtain zs where "retreating s0 ?K (xs @ zs) u" using u(1) by (auto simp: retreated_def)
    then have "fake_pred (node_at u e) = fake_pred (node_at s0 e)" by (rule retreatingD(12))
    then show ?thesis using u retreatingD(13) [OF Suc.prems(1), of e] by simp
  qed
  ultimately show ?case by blast
qed

text \<open>The visits from the leaves, one after the other.\<close>

lemma backwards_leaves_ok:
  assumes A: "climbing s0 r A" and small: "length (backward_post_visit_order s0) + length (nodes s0) \<le> 2 ^ 32"
  shows "retreating s0 {} xs s \<Longrightarrow> distinct ls \<Longrightarrow> set ls \<subseteq> A \<Longrightarrow> set ls \<inter> set xs = {} \<Longrightarrow>
    (\<forall>n \<in> A. set (back_edges s0 n) \<inter> set ls = {}) \<Longrightarrow>
    \<exists>t. fold_res backwards_visit_from ls s = Ok t \<and> retreated s0 {} xs ls t"
proof (induction ls arbitrary: xs s)
  case Nil
  then show ?case by (auto simp: retreated_def intro!: exI [of _ "[]"])
next
  case (Cons l ls)
  have l: "l \<in> A" "l \<notin> set xs" using Cons.prems by auto
  obtain t ys where t: "backwards_visit_from l s = Ok t" "retreating s0 {} (xs @ ys) t" "l \<in> set (xs @ ys)"
    "\<forall>y \<in> set ys. (l, y) \<in> (back_rel s0)\<^sup>*"
    using backwards_visit_at_ok [OF A small Cons.prems(1) l, of "walk_fuel s"] retreatingD(2) [OF Cons.prems(1)]
    by (auto simp: backwards_visit_from_def walk_fuel_def retreated_def)
  have "y \<notin> set ls" if "y \<in> set ys" for y
  proof -
    have "y = l \<or> (\<exists>n \<in> A. y \<in> set (back_edges s0 n))"
      using t(4) [rule_format, OF that]
    proof (induction rule: rtrancl_induct)
      case (step y z)
      have "y \<in> A" using step.IH l(1) A by (auto simp: climbing_def)
      then show ?case using step.hyps(2) by (auto simp: back_rel_def)
    qed simp
    then show ?thesis using Cons.prems(2,5) by auto
  qed
  then have "set ls \<inter> set (xs @ ys) = {}" using Cons.prems(4) by auto
  then obtain u zs where u: "fold_res backwards_visit_from ls t = Ok u" "retreating s0 {} ((xs @ ys) @ zs) u"
    "set ls \<subseteq> set ((xs @ ys) @ zs)" "\<forall>y \<in> set zs. \<exists>e \<in> set ls. (e, y) \<in> (back_rel s0)\<^sup>*"
    using Cons.IH [OF t(2)] Cons.prems by (auto simp: retreated_def)
  have "retreated s0 {} xs (l # ls) u"
    unfolding retreated_def using u(2-4) t(3,4) by (intro exI [of _ "ys @ zs"]) auto
  then show ?case using t(1) u(1) by simp
qed

text \<open>
  All together: started with no node marked, the visits list exactly the nodes that lead to a
  leaf, in an order in which every node stands after those that lead to it.
\<close>

lemma backwards_pass:
  assumes A: "climbing s r A" and small: "length (backward_post_visit_order s) + length (nodes s) \<le> 2 ^ 32"
    and fresh: "\<And>n. \<not> backward_visited (node_at s n)"
    and ls: "distinct ls" "set ls \<subseteq> A" "\<forall>n \<in> A. set (back_edges s n) \<inter> set ls = {}"
  shows "\<exists>t xs. fold_res backwards_visit_from ls s = Ok t \<and> retreating s {} xs t \<and>
    set xs = {n. \<exists>l \<in> set ls. (l, n) \<in> (back_rel s)\<^sup>*}"
proof -
  have "retreating s {} [] s" using fresh by (simp add: retreating_def)
  then obtain t xs where t: "fold_res backwards_visit_from ls s = Ok t" "retreating s {} xs t" "set ls \<subseteq> set xs"
    "\<forall>y \<in> set xs. \<exists>e \<in> set ls. (e, y) \<in> (back_rel s)\<^sup>*"
    using backwards_leaves_ok [OF A small _ ls(1,2) _ ls(3), of "[]" s] by (auto simp: retreated_def)
  have "b \<in> set xs" if "(l, b) \<in> (back_rel s)\<^sup>*" "l \<in> set ls" for l b
    using that
  proof (induction rule: rtrancl_induct)
    case (step y z)
    then obtain i where "i < length xs" "xs ! i = y" by (auto simp: in_set_conv_nth)
    then show ?case using retreatingD(10) [OF t(2), of i] step.hyps(2) set_take_subset [of i xs] by (auto simp: back_rel_def)
  qed (use t(3) in auto)
  then have "set xs = {n. \<exists>l \<in> set ls. (l, n) \<in> (back_rel s)\<^sup>*}" using t(4) by blast
  then show ?thesis using t(1,2) by blast
qed

end
