(* ===== verification/Cfg_Postdominance.thy ===== *)
theory Cfg_Postdominance
  imports Cfg_Backward
begin

text \<open>
  Post dominators. The backward direction provides the interfaces of \<open>Cfg_Links\<close> as well: the
  links built in one pass over the reversed backward order, fake edges included, are the post
  dominators in the sense of paths to the exit. A second entry of a node in the order, left by
  a visit that was repeated, changes nothing.
\<close>

section \<open>The backward direction\<close>

definition post_links_only :: "'a CFGNodePool_scheme \<Rightarrow> 'a CFGNodePool_scheme \<Rightarrow> bool" where
  "post_links_only p q \<longleftrightarrow>
     length (nodes q) = length (nodes p) \<and> CFGNodePool.more q = CFGNodePool.more p \<and>
     (\<forall>m. (node_at q m)\<lparr>immediate_post_dominator := None\<rparr> = (node_at p m)\<lparr>immediate_post_dominator := None\<rparr>)"

lemma post_links_only_node:
  assumes "post_links_only p q"
  shows "succ (node_at q m) = succ (node_at p m)" "fake_succ (node_at q m) = fake_succ (node_at p m)"
    "backward_order (node_at q m) = backward_order (node_at p m)" "length (nodes q) = length (nodes p)"
proof -
  have eq: "(node_at q m)\<lparr>immediate_post_dominator := None\<rparr> = (node_at p m)\<lparr>immediate_post_dominator := None\<rparr>"
    using assms by (simp add: post_links_only_def)
  show "succ (node_at q m) = succ (node_at p m)" using arg_cong [OF eq, of succ] by simp
  show "fake_succ (node_at q m) = fake_succ (node_at p m)" using arg_cong [OF eq, of fake_succ] by simp
  show "backward_order (node_at q m) = backward_order (node_at p m)" using arg_cong [OF eq, of backward_order] by simp
  show "length (nodes q) = length (nodes p)" using assms by (simp add: post_links_only_def)
qed

text \<open>The way out of a node: its edges, and the exit \<open>x\<close> for a leaf.\<close>

definition out_edges :: "'a CFGNodePool_scheme \<Rightarrow> nref \<Rightarrow> nref list" where
  "out_edges p n = succ (node_at p n) @ fake_succ (node_at p n)"

definition post_edges :: "nref \<Rightarrow> 'a CFGNodePool_scheme \<Rightarrow> nref \<Rightarrow> nref list" where
  "post_edges x p n = (if out_edges p n = [] then [x] else out_edges p n)"

definition leaf_linked :: "nref \<Rightarrow> 'a CFGNodePool_scheme \<Rightarrow> nref \<Rightarrow> bool" where
  "leaf_linked x p n \<longleftrightarrow> out_edges p n = [] \<longrightarrow> ipdom p n = Some x"

lemma out_edges_same: "post_links_only p q \<Longrightarrow> out_edges q = out_edges p"
  by (simp add: out_edges_def post_links_only_node fun_eq_iff)

interpretation post_links: link_pool ipdom "\<lambda>p n. backward_order (node_at p n)" "\<lambda>p. length (nodes p)" set_ipdom post_links_only
proof
  fix p q r :: "'b CFGNodePool_scheme" and n d d'
  show "n < length (nodes p) \<Longrightarrow> ipdom (set_ipdom n d p) = (ipdom p)(n := d)"
    by (simp add: ipdom_def set_ipdom_def node_at_update fun_eq_iff)
  show "set_ipdom n d (set_ipdom n d' p) = set_ipdom n d p" by (simp add: set_ipdom_def update_node_twice)
  show "set_ipdom n (ipdom p n) p = p" by (simp add: set_ipdom_def ipdom_def update_node_id)
  show "post_links_only p (set_ipdom n d p)" by (simp add: post_links_only_def set_ipdom_def node_at_update)
  show "post_links_only p p" by (simp add: post_links_only_def)
  show "post_links_only p q \<Longrightarrow> post_links_only q r \<Longrightarrow> post_links_only p r" by (simp add: post_links_only_def)
  show "post_links_only p q \<Longrightarrow> (\<lambda>n. backward_order (node_at q n)) = (\<lambda>n. backward_order (node_at p n))"
    by (simp add: post_links_only_node)
  show "post_links_only p q \<Longrightarrow> length (nodes q) = length (nodes p)" by (rule post_links_only_node(4))
qed

lemma ensure_ipdom_set: "ipdom p a \<noteq> None \<Longrightarrow> ensure_ipdom rec a p = Ok p"
  by (auto simp: ensure_ipdom_def)

interpretation post_meet: meet_loop ipdom "\<lambda>p n. backward_order (node_at p n)" "\<lambda>p. length (nodes p)" set_ipdom post_links_only
  "common_post_dominator_loop rec" meet_fuel "post_meet_edge rec" for rec
proof
  fix p :: "'a CFGNodePool_scheme" and a b d k n m
  show "a \<noteq> b \<Longrightarrow> ipdom p a = Some d \<Longrightarrow> ipdom p b \<noteq> None \<Longrightarrow> d \<noteq> a \<Longrightarrow> backward_order (node_at p a) < backward_order (node_at p b) \<Longrightarrow>
      common_post_dominator_loop rec (Suc k) a b p = common_post_dominator_loop rec k d b p"
    by (simp add: ensure_ipdom_set)
  show "a \<noteq> b \<Longrightarrow> ipdom p a \<noteq> None \<Longrightarrow> ipdom p b = Some d \<Longrightarrow> d \<noteq> b \<Longrightarrow> backward_order (node_at p b) < backward_order (node_at p a) \<Longrightarrow>
      common_post_dominator_loop rec (Suc k) a b p = common_post_dominator_loop rec k a d p"
    by (simp add: ensure_ipdom_set)
qed (simp_all add: meet_fuel_def post_meet_edge_def)

lemma recompute_leaf: "out_edges p n = [] \<Longrightarrow> recompute_immediate_post_dominator n p = Ok p"
  by (simp add: recompute_immediate_post_dominator_def walk_fuel_def out_edges_def)

lemma recompute_inner_post:
  "out_edges p n \<noteq> [] \<Longrightarrow> recompute_immediate_post_dominator n p =
     fold_res (post_meet_edge (recompute_ipdom_at (length (nodes p))) n) (out_edges p n) (set_ipdom n None p)"
  by (auto simp: recompute_immediate_post_dominator_def walk_fuel_def out_edges_def fold_res_append)

interpretation post_builder: link_builder ipdom "\<lambda>p n. backward_order (node_at p n)" "\<lambda>p. length (nodes p)" set_ipdom post_links_only
  "post_edges x" recompute_immediate_post_dominator "leaf_linked x" for x
proof
  fix p q :: "'b CFGNodePool_scheme" and S root n m d
  show "post_links_only p q \<Longrightarrow> post_edges x q = post_edges x p" by (simp add: post_edges_def out_edges_same fun_eq_iff)
  have out: "out_edges (set_ipdom n d p) = out_edges p" for n d by (rule out_edges_same [OF post_links.same_set])
  have other: "ipdom (set_ipdom n d p) m = ipdom p m" if "m \<noteq> n" for m n d
    using that by (simp add: ipdom_def set_ipdom_def node_at_update)
  show "leaf_linked x p m \<Longrightarrow> m \<noteq> n \<Longrightarrow> leaf_linked x (set_ipdom n d p) m"
    by (simp add: leaf_linked_def out other)
  show "leaf_linked x p n \<Longrightarrow> recompute_immediate_post_dominator n p = Ok (set_ipdom n d p) \<Longrightarrow> leaf_linked x (set_ipdom n d p) n"
    using recompute_leaf [of p n] by (cases "out_edges p n = []") (simp_all add: leaf_linked_def out)
  assume h: "link_tree (ipdom p) (\<lambda>n. backward_order (node_at p n)) S root" "card S \<le> length (nodes p)" "n \<notin> S"
    "n < length (nodes p)" "post_edges x p n \<noteq> []" "set (post_edges x p n) \<subseteq> S" "leaf_linked x p n"
  show "\<exists>d. recompute_immediate_post_dominator n p = Ok (set_ipdom n (Some d) p) \<and> d \<in> S \<and>
      (\<forall>a. above (ipdom p) d a \<longleftrightarrow> (\<forall>m \<in> set (post_edges x p n). above (ipdom p) m a))"
  proof (cases "out_edges p n = []")
    case True
    then have "ipdom p n = Some x" "post_edges x p n = [x]" using h(7) by (simp_all add: leaf_linked_def post_edges_def)
    then show ?thesis
      using recompute_leaf [OF True] post_links.set_same [of n p] h(6) by (intro exI [of _ x]) simp
  next
    case False
    then have "post_edges x p n = out_edges p n" by (simp add: post_edges_def)
    then show ?thesis using post_meet.meet_all [OF h(1-4)] h(5,6) recompute_inner_post [OF False] by simp
  qed
qed

section \<open>Post dominance by paths\<close>

text \<open>Every path from \<open>n\<close> along the edges, fake ones included, to a leaf and the exit goes through \<open>a\<close>.\<close>

definition path_post_dominates :: "'a CFGNodePool_scheme \<Rightarrow> nref \<Rightarrow> nref \<Rightarrow> nref \<Rightarrow> bool" where
  "path_post_dominates p x a n \<longleftrightarrow> on_all_paths (post_edges x p) x a n"

text \<open>
  What a backward visit leaves: \<open>B2\<close> are all nodes in increasing order, the exit above them, each
  with its edges going up; \<open>B1\<close> are leftovers of an earlier visit.
\<close>

definition post_ranked :: "'a CFGNodePool_scheme \<Rightarrow> nref \<Rightarrow> nref list \<Rightarrow> nref list \<Rightarrow> bool" where
  "post_ranked p x B1 B2 \<longleftrightarrow>
     sorted_wrt (\<lambda>a b. backward_order (node_at p a) < backward_order (node_at p b)) (B2 @ [x]) \<and>
     set B1 \<subseteq> set B2 \<and> insert x (set B2) \<subseteq> {..<length (nodes p)} \<and> ipdom p x = Some x \<and>
     (\<forall>n \<in> set B2. leaf_linked x p n \<and> (\<forall>m \<in> set (out_edges p n). m \<in> set B2 \<and>
        backward_order (node_at p n) < backward_order (node_at p m)))"

lemma inj_on_sorted:
  assumes "sorted_wrt (\<lambda>a b. ord a < (ord b :: nat)) xs"
  shows "inj_on ord (set xs)" "distinct xs"
proof -
  have "sorted_wrt (<) (map ord xs)" using assms by (simp add: sorted_wrt_map)
  then have "distinct (map ord xs)" by (simp add: strict_sorted_iff)
  then show "inj_on ord (set xs)" "distinct xs" by (simp_all add: distinct_map)
qed

lemma build_post_dominators:
  fixes p :: "'a CFGNodePool_scheme"
  assumes "post_ranked p x B1 B2"
  shows "\<exists>q. fold_res recompute_immediate_post_dominator (rev (B1 @ B2)) p = Ok q \<and> post_links_only p q \<and>
    built (ipdom q) (\<lambda>n. backward_order (node_at q n)) (post_edges x q) x (insert x (set B2)) \<and>
    (\<forall>n \<in> insert x (set B2). \<forall>a. post_dominates q a n = Ok (path_post_dominates p x a n))"
proof -
  let ?ord = "\<lambda>n. backward_order (node_at p n)" and ?adj = "post_edges x p" and ?A = "insert x (set B2)"
  have B: "sorted_wrt (\<lambda>a b. ?ord a < ?ord b) (B2 @ [x])" "set B1 \<subseteq> set B2" "?A \<subseteq> {..<length (nodes p)}" "ipdom p x = Some x"
    using assms by (simp_all add: post_ranked_def)
  have node: "n \<noteq> x \<and> ?adj n \<noteq> [] \<and> (\<forall>m \<in> set (?adj n). m \<in> ?A \<and> ?ord n < ?ord m)" "leaf_linked x p n" if n: "n \<in> set B2" for n
  proof -
    have "?ord n < ?ord x" using B(1) n by (auto simp: sorted_wrt_append)
    then show "n \<noteq> x \<and> ?adj n \<noteq> [] \<and> (\<forall>m \<in> set (?adj n). m \<in> ?A \<and> ?ord n < ?ord m)" "leaf_linked x p n"
      using assms n by (auto simp: post_ranked_def post_edges_def)
  qed
  have inj: "inj_on ?ord ?A" using inj_on_sorted(1) [OF B(1)] by simp
  have start: "built (ipdom p) ?ord ?adj x {x}"
    using B(4) by (simp add: built_def link_tree_def above_root on_all_paths_start)
  have "buildable ?ord ?adj x (set (drop (length B2) (B2 @ [x]))) (rev (take (length B2) (B2 @ [x])))"
    by (rule buildable_rev [OF B(1)]) (use node(1) in auto)
  then have "buildable ?ord ?adj x {x} (rev B2)" by simp
  moreover have "buildable ?ord ?adj x ?A (rev B1)" by (rule buildable_inside) (use B(2) node(1) in auto)
  ultimately have able: "buildable ?ord ?adj x {x} (rev (B1 @ B2))" by (simp add: buildable_append)
  have all: "{x} \<union> set (rev (B1 @ B2)) = ?A" using B(2) by auto
  have card: "card ?A \<le> length (nodes p)" using card_mono [OF _ B(3)] by simp
  have "\<forall>n \<in> set (rev (B1 @ B2)). n < length (nodes p) \<and> leaf_linked x p n" using B(2,3) node(2) by auto
  then obtain q where q: "fold_res recompute_immediate_post_dominator (rev (B1 @ B2)) p = Ok q" "post_links_only p q"
    "built (ipdom q) (\<lambda>n. backward_order (node_at q n)) (post_edges x q) x ?A"
    using post_builder.build_pass [of p x x "{x}" "rev (B1 @ B2)" ?A, OF start able _ _ card inj] all by auto
  have "card ?A < walk_fuel q" using card post_links_only_node(4) [OF q(2)] by (simp add: walk_fuel_def)
  then have "post_dominates q a n = Ok (on_all_paths (post_edges x q) x a n)" if "n \<in> ?A" for n a
    using climb_built [OF q(3) _ that] by (simp add: post_dominates_def)
  moreover have "post_edges x q = ?adj" using post_builder.same_edges [OF q(2)] .
  ultimately show ?thesis using q by (auto simp: path_post_dominates_def)
qed

section \<open>From the backward visit to post dominators\<close>

text \<open>What the backward phase does not touch.\<close>

definition back_kept :: "CFGNode \<Rightarrow> CFGNode" where
  "back_kept x = x\<lparr>backward_visited := False, traversing := False, backward_order := 0, immediate_post_dominator := None\<rparr>"

definition backward_frame :: "CFGStructurizer \<Rightarrow> CFGStructurizer \<Rightarrow> bool" where
  "backward_frame s t \<longleftrightarrow>
     s\<lparr>nodes := [], backward_post_visit_order := []\<rparr> = t\<lparr>nodes := [], backward_post_visit_order := []\<rparr> \<and>
     length (nodes t) = length (nodes s) \<and> (\<forall>n. back_kept (node_at t n) = back_kept (node_at s n))"

lemma backward_frame_refl [simp]: "backward_frame s s"
  by (simp add: backward_frame_def)

lemma backward_frame_trans: "backward_frame a b \<Longrightarrow> backward_frame b c \<Longrightarrow> backward_frame a c"
  by (simp add: backward_frame_def)

lemma backward_frame_update:
  "backward_frame g s \<Longrightarrow> (\<And>x. back_kept (f x) = back_kept x) \<Longrightarrow> backward_frame g (update_node n f s)"
proof -
  assume g: "backward_frame g s" and f: "\<And>x. back_kept (f x) = back_kept x"
  have "back_kept (node_at (update_node n f s) m) = back_kept (node_at s m)" for m by (simp add: node_at_update f)
  moreover have "(update_node n f s)\<lparr>nodes := [], backward_post_visit_order := []\<rparr> = s\<lparr>nodes := [], backward_post_visit_order := []\<rparr>"
    by (simp add: update_node_def)
  ultimately show "backward_frame g (update_node n f s)" using g by (simp add: backward_frame_def)
qed

lemma backward_frame_order [simp]: "backward_frame g (s\<lparr>backward_post_visit_order := x\<rparr>) = backward_frame g s"
  by (simp add: backward_frame_def)

lemma back_kept_updates [simp]:
  "back_kept (x\<lparr>backward_visited := a\<rparr>) = back_kept x" "back_kept (x\<lparr>traversing := b\<rparr>) = back_kept x"
  "back_kept (x\<lparr>backward_order := i\<rparr>) = back_kept x" "back_kept (x\<lparr>immediate_post_dominator := d\<rparr>) = back_kept x"
  by (simp_all add: back_kept_def)

lemma back_kept_fields:
  assumes "back_kept x = back_kept y"
  shows "succ x = succ y" "pred x = pred y" "fake_succ x = fake_succ y" "fake_pred x = fake_pred y"
    "forward_order x = forward_order y" "immediate_dominator x = immediate_dominator y"
    "succ_back_edge x = succ_back_edge y" "pred_back_edge x = pred_back_edge y"
  using arg_cong [OF assms, of succ] arg_cong [OF assms, of pred] arg_cong [OF assms, of fake_succ]
    arg_cong [OF assms, of fake_pred] arg_cong [OF assms, of forward_order] arg_cong [OF assms, of immediate_dominator]
    arg_cong [OF assms, of succ_back_edge] arg_cong [OF assms, of pred_back_edge]
  by (simp_all add: back_kept_def)

lemma backward_frame_eq:
  assumes "backward_frame p q"
  shows "length (nodes q) = length (nodes p)" "idom q = idom p" "dominates q = dominates p"
    "succ (node_at q n) = succ (node_at p n)" "pred (node_at q n) = pred (node_at p n)"
    "out_edges q n = out_edges p n" "forward_order (node_at q n) = forward_order (node_at p n)"
    "order_of q = order_of p" "exit_block q = exit_block p" "query_reachability q = query_reachability p"
proof -
  show len: "length (nodes q) = length (nodes p)" using assms by (simp add: backward_frame_def)
  have eq: "back_kept (node_at q n) = back_kept (node_at p n)" for n using assms by (simp add: backward_frame_def)
  note at = back_kept_fields [OF eq]
  show i: "idom q = idom p" by (simp add: idom_def [abs_def] at)
  show "dominates q = dominates p" by (simp add: dominates_def fun_eq_iff walk_fuel_def i len)
  show "succ (node_at q n) = succ (node_at p n)" "pred (node_at q n) = pred (node_at p n)"
    "out_edges q n = out_edges p n" "forward_order (node_at q n) = forward_order (node_at p n)"
    by (simp_all add: at out_edges_def)
  have more: "p\<lparr>nodes := [], backward_post_visit_order := []\<rparr> = q\<lparr>nodes := [], backward_post_visit_order := []\<rparr>"
    using assms by (simp add: backward_frame_def)
  show "order_of q = order_of p" "exit_block q = exit_block p" using more by (cases p, cases q, simp)+
  have "reachability_bitset q = reachability_bitset p" "reachability_stride q = reachability_stride p"
    using more by (cases p, cases q, simp)+
  then show "query_reachability q = query_reachability p"
    by (simp add: query_reachability_def reach_row_def fun_eq_iff at)
qed

lemma frame_fold:
  "(\<And>x. back_kept (f x) = back_kept x) \<Longrightarrow> backward_frame g s \<Longrightarrow> backward_frame g (fold (\<lambda>n. update_node n f) ns s)"
  by (induction ns arbitrary: s) (simp_all add: backward_frame_update)

lemma frame_retreating: "retreating s K xs t \<Longrightarrow> backward_frame s t"
proof -
  assume r: "retreating s K xs t"
  have "back_kept (node_at t n) = back_kept (node_at s n)" for n
  proof -
    have "back_kept (unmarked (node_at t n)) = back_kept (unmarked (node_at s n))" by (simp only: retreatingD(4) [OF r])
    then show ?thesis by (simp add: unmarked_def)
  qed
  then show ?thesis using retreatingD(1,2) [OF r] by (simp add: backward_frame_def)
qed

lemma frame_finish_exit: "backward_frame s (finish_exit ls s)"
  unfolding finish_exit_def Let_def by (rule frame_fold, simp, rule backward_frame_update) simp_all

lemma frame_clear: "(\<And>x. back_kept (f x) = back_kept x) \<Longrightarrow> backward_frame s (clear_backwards f s)"
  unfolding clear_backwards_def by (rule frame_fold) simp_all

lemma frame_post_links:
  fixes p q :: CFGStructurizer
  assumes "post_links_only p q"
  shows "backward_frame p q" "backward_post_visit_order q = backward_post_visit_order p"
proof -
  have more: "CFGNodePool.more q = CFGNodePool.more p" using assms by (simp add: post_links_only_def)
  have "back_kept (node_at q n) = back_kept (node_at p n)" for n
  proof -
    have "(node_at q n)\<lparr>immediate_post_dominator := None\<rparr> = (node_at p n)\<lparr>immediate_post_dominator := None\<rparr>"
      using assms by (simp add: post_links_only_def)
    then have "back_kept ((node_at q n)\<lparr>immediate_post_dominator := None\<rparr>) = back_kept ((node_at p n)\<lparr>immediate_post_dominator := None\<rparr>)" by simp
    then show ?thesis by simp
  qed
  then show "backward_frame p q" "backward_post_visit_order q = backward_post_visit_order p"
    using more post_links_only_node(4) [OF assms] by (cases p, cases q, simp add: backward_frame_def)+
qed

text \<open>
  A graph ready for the backward visit: \<open>A\<close> are its nodes, \<open>ls\<close> its leaves; the edge lists of both
  directions agree, the edges have no cycle, and no node is marked.
\<close>

definition back_graph :: "CFGStructurizer \<Rightarrow> nref set \<Rightarrow> nref list \<Rightarrow> bool" where
  "back_graph s A ls \<longleftrightarrow>
     (\<exists>r. climbing s r A) \<and> exit_block s < length (nodes s) \<and> exit_block s \<notin> A \<and>
     distinct ls \<and> set ls = {n \<in> A. out_edges s n = []} \<and>
     (\<forall>n \<in> A. \<forall>m \<in> set (out_edges s n). m \<in> A \<and> n \<in> set (back_edges s m)) \<and>
     (\<forall>n \<in> A. \<forall>m \<in> set (back_edges s n). n \<in> set (out_edges s m)) \<and>
     set (backward_post_visit_order s) \<subseteq> A \<and>
     length (backward_post_visit_order s) + length (nodes s) \<le> 2 ^ 32 \<and>
     (\<forall>n. \<not> backward_visited (node_at s n))"

lemma back_graphD:
  assumes "back_graph s A ls"
  shows "exit_block s < length (nodes s)" "exit_block s \<notin> A" "distinct ls" "set ls = {n \<in> A. out_edges s n = []}"
    "set (backward_post_visit_order s) \<subseteq> A" "length (backward_post_visit_order s) + length (nodes s) \<le> 2 ^ 32"
    "\<forall>n. \<not> backward_visited (node_at s n)"
    "\<forall>n \<in> A. \<forall>m \<in> set (out_edges s n). m \<in> A \<and> n \<in> set (back_edges s m)"
    "\<forall>n \<in> A. \<forall>m \<in> set (back_edges s n). n \<in> set (out_edges s m)" "\<exists>r. climbing s r A"
  using assms unfolding back_graph_def by - (elim conjE, assumption)+

text \<open>Every node leads to a leaf, so the backward visit reaches all of them.\<close>

lemma leads_to_leaf:
  assumes "back_graph s A ls" and "n \<in> A"
  shows "\<exists>l \<in> set ls. (l, n) \<in> (back_rel s)\<^sup>*"
proof -
  obtain r where r: "climbing s r A" using back_graphD(10) [OF assms(1)] by blast
  show ?thesis
    using assms(2)
  proof (induction "r n" arbitrary: n rule: less_induct)
    case less
    show ?case
    proof (cases "out_edges s n = []")
      case True
      then have "n \<in> set ls" using back_graphD(4) [OF assms(1)] less.prems by simp
      then show ?thesis by blast
    next
      case False
      then obtain m where "m \<in> set (out_edges s n)" by (cases "out_edges s n") auto
      then have m: "m \<in> A" "n \<in> set (back_edges s m)" using back_graphD(8) [OF assms(1)] less.prems by simp_all
      then have "r m < r n" using r by (auto simp: climbing_def)
      then obtain l where "l \<in> set ls" "(l, m) \<in> (back_rel s)\<^sup>*" using less.hyps [of m] m(1) by blast
      then show ?thesis using m(2) rtrancl_into_rtrancl [of l m "back_rel s" n] by (auto simp: back_rel_def)
    qed
  qed
qed

lemma reached_in:
  assumes "back_graph s A ls" and "(l, n) \<in> (back_rel s)\<^sup>*" and "l \<in> set ls"
  shows "n \<in> A"
  using assms(2)
proof (induction rule: rtrancl_induct)
  case base
  then show ?case using back_graphD(4) [OF assms(1)] assms(3) by simp
next
  case (step y z)
  obtain r where "climbing s r A" using back_graphD(10) [OF assms(1)] by blast
  then show ?case using step by (auto simp: climbing_def back_rel_def)
qed

lemma fold_set_ipdom:
  fixes s :: CFGStructurizer
  assumes "set ls \<subseteq> {..<length (nodes s)}"
  shows "node_at (fold (\<lambda>l. update_node l (\<lambda>x. x\<lparr>immediate_post_dominator := d\<rparr>)) ls s) n =
      (if n \<in> set ls then (node_at s n)\<lparr>immediate_post_dominator := d\<rparr> else node_at s n) \<and>
    length (nodes (fold (\<lambda>l. update_node l (\<lambda>x. x\<lparr>immediate_post_dominator := d\<rparr>)) ls s)) = length (nodes s) \<and>
    backward_post_visit_order (fold (\<lambda>l. update_node l (\<lambda>x. x\<lparr>immediate_post_dominator := d\<rparr>)) ls s) = backward_post_visit_order s"
  using assms by (induction ls arbitrary: s) (auto simp: node_at_update)

text \<open>One visit from the leaves, the exit numbered last, and the pass over the reversed order.\<close>

definition post_pass :: "nref list \<Rightarrow> CFGStructurizer \<Rightarrow> CFGStructurizer res" where
  "post_pass ls s = bind_res (fold_res backwards_visit_from ls s) (\<lambda>s. build_immediate_post_dominators (finish_exit ls s))"

lemma post_pass_ok:
  assumes g: "back_graph s A ls"
  shows "\<exists>t xs. post_pass ls s = Ok t \<and> backward_frame s t \<and> set xs = A \<and>
    backward_post_visit_order t = backward_post_visit_order s @ xs \<and>
    sorted_wrt (\<lambda>a b. backward_order (node_at t a) < backward_order (node_at t b)) (xs @ [exit_block s]) \<and>
    (\<forall>n \<in> A. \<forall>m \<in> set (out_edges s n). backward_order (node_at t n) < backward_order (node_at t m)) \<and>
    built (ipdom t) (\<lambda>n. backward_order (node_at t n)) (post_edges (exit_block s) t) (exit_block s) (insert (exit_block s) A) \<and>
    (\<forall>n \<in> insert (exit_block s) A. \<forall>a. post_dominates t a n = Ok (path_post_dominates s (exit_block s) a n))"
proof -
  let ?x = "exit_block s" and ?B1 = "backward_post_visit_order s"
  obtain r where r: "climbing s r A" using back_graphD(10) [OF g] by blast
  have G: "?x < length (nodes s)" "?x \<notin> A" "distinct ls" "set ls = {n \<in> A. out_edges s n = []}" "set ?B1 \<subseteq> A"
    "length ?B1 + length (nodes s) \<le> 2 ^ 32" "\<And>n. \<not> backward_visited (node_at s n)" "A \<subseteq> {..<length (nodes s)}"
    using back_graphD(1-7) [OF g] r by (simp_all add: climbing_def)
  have out: "m \<in> A" "n \<in> set (back_edges s m)" if "n \<in> A" "m \<in> set (out_edges s n)" for n m
    using back_graphD(8) [OF g] that by simp_all
  have inn: "n \<in> set (out_edges s m)" if "n \<in> A" "m \<in> set (back_edges s n)" for n m
    using back_graphD(9) [OF g] that by simp
  have off: "\<forall>n \<in> A. set (back_edges s n) \<inter> set ls = {}" using inn G(4) by fastforce
  obtain t xs where t: "fold_res backwards_visit_from ls s = Ok t" "retreating s {} xs t"
    "set xs = {n. \<exists>l \<in> set ls. (l, n) \<in> (back_rel s)\<^sup>*}"
    using backwards_pass [OF r G(6,7,3) _ off] G(4) by auto
  have A: "set xs = A" unfolding t(3) using leads_to_leaf [OF g] reached_in [OF g] by blast
  note D = retreatingD [OF t(2)]
  have len: "length (?B1 @ xs) < 2 ^ 32"
  proof -
    have "card A < length (nodes s)" using psubset_card_mono [of "{..<length (nodes s)}" A] G(1,2,8) by auto
    then show ?thesis using distinct_card [OF D(7)] A G(6) by simp
  qed
  have exit: "exit_block t = ?x" using D(1) by (cases s, cases t) simp
  let ?u = "finish_exit ls t"
  let ?e = "\<lambda>y. y\<lparr>backward_order := length (?B1 @ xs), immediate_post_dominator := Some ?x, backward_visited := True\<rparr>"
  have u: "node_at ?u n = (if n \<in> set ls then (node_at t n)\<lparr>immediate_post_dominator := Some ?x\<rparr>
        else if n = ?x then ?e (node_at t n) else node_at t n)"
    and u_len: "length (nodes ?u) = length (nodes s)" and u_ord: "backward_post_visit_order ?u = ?B1 @ xs" for n
  proof -
    let ?v = "update_node ?x ?e t"
    have num: "u32_of (length (?B1 @ xs)) = length (?B1 @ xs)" using len by (simp add: u32_of_def)
    have u_eq: "?u = fold (\<lambda>l. update_node l (\<lambda>x. x\<lparr>immediate_post_dominator := Some ?x\<rparr>)) ls ?v"
      unfolding finish_exit_def Let_def D(3) num exit ..
    have v: "node_at ?v n = (if n = ?x then ?e (node_at t n) else node_at t n)" "length (nodes ?v) = length (nodes s)"
      "backward_post_visit_order ?v = ?B1 @ xs" for n
      using G(1) D(2,3) by (simp_all add: node_at_update)
    have sub: "set ls \<subseteq> {..<length (nodes ?v)}" unfolding v(2) using G(4,8) by auto
    note f = fold_set_ipdom [OF sub, of "Some ?x", folded u_eq]
    show "length (nodes ?u) = length (nodes s)" "backward_post_visit_order ?u = ?B1 @ xs" using f v(2,3) by simp_all
    have "?x \<notin> set ls" using G(2,4) by simp
    then show "node_at ?u n = (if n \<in> set ls then (node_at t n)\<lparr>immediate_post_dominator := Some ?x\<rparr>
        else if n = ?x then ?e (node_at t n) else node_at t n)" for n
      using f [of n] v(1) [of n] by auto
  qed
  have same: "out_edges ?u n = out_edges s n" for n
    using unmarked_fields [OF D(4), of n] by (auto simp: u out_edges_def)
  have ordx: "backward_order (node_at ?u ?x) = length (?B1 @ xs)" using G(2,4) by (simp add: u)
  have ord: "backward_order (node_at ?u (xs ! i)) = length ?B1 + i" if i: "i < length xs" for i
  proof -
    have "xs ! i \<noteq> ?x" using i A G(2) nth_mem by metis
    then show ?thesis using D(6) [OF i] by (simp add: u)
  qed
  have edge: "backward_order (node_at ?u n) < backward_order (node_at ?u m)" if n: "n \<in> A" "m \<in> set (out_edges s n)" for n m
  proof -
    obtain j where j: "j < length xs" "xs ! j = m" using out(1) [OF n] A by (metis in_set_conv_nth)
    then have "n \<in> set (take j xs)" using D(10) [OF j(1)] out(2) [OF n] by auto
    then obtain i where "i < j" "xs ! i = n" by (auto simp: in_set_conv_nth)
    then show ?thesis using ord [of i] ord [OF j(1)] j by auto
  qed
  have ranked: "post_ranked ?u ?x ?B1 xs"
    unfolding post_ranked_def
  proof (intro conjI ballI)
    show "sorted_wrt (\<lambda>a b. backward_order (node_at ?u a) < backward_order (node_at ?u b)) (xs @ [?x])"
      unfolding sorted_wrt_append by (auto simp: sorted_wrt_iff_nth_less ord ordx in_set_conv_nth)
    show "ipdom ?u ?x = Some ?x" using G(2,4) by (simp add: ipdom_def u)
    show "leaf_linked ?x ?u n" if "n \<in> set xs" for n
      using that G(4) unfolding leaf_linked_def same A by (simp add: ipdom_def u)
  qed (use A G(1,5,8) u_len same edge out in auto)
  from build_post_dominators [OF this]
  obtain q where q: "fold_res recompute_immediate_post_dominator (rev (?B1 @ xs)) ?u = Ok q" "post_links_only ?u q"
    "built (ipdom q) (\<lambda>n. backward_order (node_at q n)) (post_edges ?x q) ?x (insert ?x A)"
    "\<forall>n \<in> insert ?x A. \<forall>a. post_dominates q a n = Ok (path_post_dominates ?u ?x a n)"
    using A by auto
  have "post_edges ?x ?u = post_edges ?x s" by (rule ext) (simp add: post_edges_def same)
  then have "path_post_dominates ?u ?x a n = path_post_dominates s ?x a n" for a n by (simp add: path_post_dominates_def)
  then have "\<forall>n \<in> insert ?x A. \<forall>a. post_dominates q a n = Ok (path_post_dominates s ?x a n)" using q(4) by simp
  moreover have "backward_frame s q"
    using backward_frame_trans [OF frame_retreating [OF t(2)] frame_finish_exit] frame_post_links(1) [OF q(2)]
    by (rule backward_frame_trans)
  moreover have "sorted_wrt (\<lambda>a b. backward_order (node_at q a) < backward_order (node_at q b)) (xs @ [?x])"
    using ranked unfolding post_ranked_def post_links_only_node(3) [OF q(2)] by blast
  moreover have "\<forall>n \<in> A. \<forall>m \<in> set (out_edges s n). backward_order (node_at q n) < backward_order (node_at q m)"
    using edge unfolding post_links_only_node(3) [OF q(2)] by blast
  moreover have "backward_post_visit_order q = ?B1 @ xs" using frame_post_links(2) [OF q(2)] u_ord by simp
  moreover have "post_pass ls s = Ok q" using t(1) u_ord q(1) by (simp add: post_pass_def build_immediate_post_dominators_def)
  ultimately show ?thesis using A q(3) by blast
qed

section \<open>The whole backward phase\<close>

lemma clear_backwards_at:
  assumes "set (order_of s) \<subseteq> {..<length (nodes s)}" and "\<And>x. f (f x) = f x"
  shows "node_at (clear_backwards f s) n = (if n \<in> set (order_of s) then f (node_at s n) else node_at s n)"
    "length (nodes (clear_backwards f s)) = length (nodes s)" "order_of (clear_backwards f s) = order_of s"
    "exit_block (clear_backwards f s) = exit_block s"
    "backward_post_visit_order (clear_backwards f s) = backward_post_visit_order s"
proof -
  have "node_at (fold (\<lambda>n. update_node n f) ns u) n = (if n \<in> set ns then f (node_at u n) else node_at u n) \<and>
      length (nodes (fold (\<lambda>n. update_node n f) ns u)) = length (nodes u) \<and>
      order_of (fold (\<lambda>n. update_node n f) ns u) = order_of u \<and>
      exit_block (fold (\<lambda>n. update_node n f) ns u) = exit_block u \<and>
      backward_post_visit_order (fold (\<lambda>n. update_node n f) ns u) = backward_post_visit_order u"
    if "set ns \<subseteq> {..<length (nodes u)}" for ns u
    using that by (induction ns arbitrary: u) (auto simp: node_at_update assms(2))
  from this [OF assms(1)] show "node_at (clear_backwards f s) n = (if n \<in> set (order_of s) then f (node_at s n) else node_at s n)"
    "length (nodes (clear_backwards f s)) = length (nodes s)" "order_of (clear_backwards f s) = order_of s"
    "exit_block (clear_backwards f s) = exit_block s"
    "backward_post_visit_order (clear_backwards f s) = backward_post_visit_order s"
    by (simp_all add: clear_backwards_def)
qed

text \<open>No loop is linked when all its continue blocks were reached.\<close>

lemma scan_visited:
  assumes "\<forall>n \<in> set ns. \<forall>c. pred_back_edge (node_at t n) = Some c \<longrightarrow> backward_visited (node_at t c)"
  shows "fold_res link_infinite_loop ns (b, t) = Ok (b, t)"
  using assms by (induction ns) (auto simp: link_infinite_loop_def split: option.split)

text \<open>The first clearing.\<close>

abbreviation first_clear :: "CFGStructurizer \<Rightarrow> CFGStructurizer" where
  "first_clear \<equiv> clear_backwards (\<lambda>x. x\<lparr>backward_visited := False, traversing := False\<rparr>)"

abbreviation second_clear :: "CFGStructurizer \<Rightarrow> CFGStructurizer" where
  "second_clear \<equiv> clear_backwards (\<lambda>x. x\<lparr>backward_visited := False, traversing := False, backward_order := 0\<rparr>)"

lemma backwards_visit_direct:
  assumes g: "back_graph (first_clear s) (set (order_of s)) (backwards_leaves s)"
    and order: "set (order_of s) \<subseteq> {..<length (nodes s)}"
    and backs: "\<And>n c. pred_back_edge (node_at s n) = Some c \<Longrightarrow> c \<in> set (order_of s)"
  shows "bind_res (backwards_visit s) build_immediate_post_dominators = post_pass (backwards_leaves s) (first_clear s)"
proof -
  let ?s = "first_clear s" and ?ls = "backwards_leaves s" and ?A = "set (order_of s)"
  have idem: "\<And>x. (\<lambda>x. x\<lparr>backward_visited := False, traversing := False\<rparr>) ((\<lambda>x. x\<lparr>backward_visited := False, traversing := False\<rparr>) x) =
      (\<lambda>x. x\<lparr>backward_visited := False, traversing := False\<rparr>) x" by simp
  note c = clear_backwards_at [OF order idem]
  obtain r where r: "climbing ?s r ?A" using back_graphD(10) [OF g] by blast
  have off: "\<forall>n \<in> ?A. set (back_edges ?s n) \<inter> set ?ls = {}"
    using back_graphD(9,4) [OF g] by fastforce
  have sub: "set ?ls \<subseteq> ?A" using back_graphD(4) [OF g] by simp
  obtain t xs where t: "fold_res backwards_visit_from ?ls ?s = Ok t" "retreating ?s {} xs t"
    "set xs = {n. \<exists>l \<in> set ?ls. (l, n) \<in> (back_rel ?s)\<^sup>*}"
    using backwards_pass [OF r back_graphD(6) [OF g] _ back_graphD(3) [OF g] sub off] back_graphD(7) [OF g] by blast
  have A: "?A \<subseteq> set xs" unfolding t(3) using leads_to_leaf [OF g] by blast
  note D = retreatingD [OF t(2)]
  have "backward_visited (node_at t c)" if "pred_back_edge (node_at t n) = Some c" for n c
  proof -
    have "pred_back_edge (node_at ?s n) = pred_back_edge (node_at t n)" using unmarked_fields(8) [OF D(4), of n] by simp
    then have "pred_back_edge (node_at s n) = Some c" using that c(1) [of n] by (simp split: if_splits)
    then show ?thesis using backs A D(5) by blast
  qed
  then have scan: "fold_res link_infinite_loop (rev ns) (False, t) = Ok (False, t)" for ns by (intro scan_visited) blast
  have "order_of t = order_of s" using D(1) c(3) by (cases t, cases ?s) simp
  then show ?thesis
    by (simp add: backwards_visit_def post_pass_def Let_def t(1) scan revisit_def bind_res_assoc)
qed

text \<open>With fake edges linked in, the second visit starts over from what the scan left.\<close>

lemma backwards_visit_relinked:
  assumes visits: "fold_res backwards_visit_from (backwards_leaves s) (first_clear s) = Ok s1"
    and scan: "fold_res link_infinite_loop (rev (order_of s1)) (False, s1) = Ok (True, s2)"
  shows "bind_res (backwards_visit s) build_immediate_post_dominators = post_pass (backwards_leaves s) (second_clear s2)"
  by (simp add: backwards_visit_def post_pass_def Let_def visits scan revisit_def bind_res_assoc)

text \<open>After the forward analysis, when every loop can be left through its continue block.\<close>

lemma forward_back_graph:
  assumes f: "forward_correct g t"
    and g: "\<And>n. fake_succ (node_at g n) = [] \<and> fake_pred (node_at g n) = [] \<and> \<not> backward_visited (node_at g n)"
      "backward_post_visit_order g = []" "length (nodes g) \<le> 2 ^ 18"
    and exit: "exit_block g < length (nodes g)" "(entry_block g, exit_block g) \<notin> (succ_rel g)\<^sup>*"
    and loops: "\<And>n. succ_back_edge (node_at t n) \<noteq> None \<Longrightarrow> succ (node_at t n) \<noteq> []"
  shows "back_graph (first_clear t) (set (order_of t)) (backwards_leaves t)"
proof -
  let ?A = "set (order_of t)" and ?s = "first_clear t" and ?e = "entry_block g"
  note d = f [unfolded forward_correct_def]
  have rk: "ranked t ?e (order_of t)" and num: "numbered t" and reach: "?A = {n. (?e, n) \<in> (succ_rel g)\<^sup>*}"
    and frame: "forward_frame g t"
    and preds: "\<forall>n \<in> ?A. \<forall>m. m \<in> set (pred (node_at t n)) \<longleftrightarrow> m \<in> ?A \<and> n \<in> set (succ (node_at t m))"
    using d by - (elim conjE, assumption)+
  have order: "?A \<subseteq> {..<length (nodes t)}" "distinct (order_of t)" using rk by (auto simp: ranked_def)
  have kept: "fake_succ (node_at t n) = []" "fake_pred (node_at t n) = []" "\<not> backward_visited (node_at t n)" for n
    using g(1) [of n] frame kept_fields [of "node_at t n" "node_at g n"] by (auto simp: forward_frame_def)
  have idem: "\<And>x. (\<lambda>x. x\<lparr>backward_visited := False, traversing := False\<rparr>) ((\<lambda>x. x\<lparr>backward_visited := False, traversing := False\<rparr>) x) =
      (\<lambda>x. x\<lparr>backward_visited := False, traversing := False\<rparr>) x" by simp
  note c = clear_backwards_at [OF order(1) idem]
  have fields: "succ (node_at ?s n) = succ (node_at t n)" "pred (node_at ?s n) = pred (node_at t n)"
    "fake_succ (node_at ?s n) = []" "fake_pred (node_at ?s n) = []" "\<not> backward_visited (node_at ?s n)" for n
    using kept by (simp_all add: c(1))
  have edges: "out_edges ?s n = succ (node_at t n)" "back_edges ?s n = pred (node_at t n)" for n
    by (simp_all add: out_edges_def back_edges_def fields)
  have up: "m \<in> ?A \<and> forward_order (node_at t n) < forward_order (node_at t m)"
    if "n \<in> ?A" "m \<in> set (pred (node_at t n))" for n m
  proof (cases "n = ?e")
    case True
    then show ?thesis using rk that(2) by (simp add: ranked_def)
  next
    case False
    then show ?thesis using rk that unfolding ranked_def by blast
  qed
  have down: "m \<in> ?A" if "n \<in> ?A" "m \<in> set (succ (node_at t n))" for n m
    using num that unfolding numbered_def by blast
  have "climbing ?s (\<lambda>n. forward_order (node_at t n)) ?A"
    unfolding climbing_def edges using up order(1) c(2) by auto
  moreover have "set (backwards_leaves t) = {n \<in> ?A. out_edges ?s n = []}"
    using loops unfolding edges backwards_leaves_def by (simp add: set_eq_iff) (metis option.exhaust)
  moreover have "exit_block ?s < length (nodes ?s)" "exit_block ?s \<notin> ?A" "backward_post_visit_order ?s = []"
    "length (nodes ?s) \<le> 2 ^ 18"
    using c(2,4,5) frame exit g(2,3) reach by (auto simp: forward_frame_def)
  moreover have "distinct (backwards_leaves t)" using order(2) by (simp add: backwards_leaves_def)
  ultimately show ?thesis
    unfolding back_graph_def edges using down preds fields(5) by (intro conjI) auto
qed

end
