(* ===== verification/Cfg_Frontier.thy ===== *)
theory Cfg_Frontier
  imports Cfg_Postdominance
begin

text \<open>
  Dominance frontiers. One pass over the order list gives every node its frontier: the local
  edges it does not link, and what its children in the tree hand up. The pass is stated once for
  both directions.
\<close>

section \<open>Frontiers of a tree in a graph\<close>

text \<open>Edges go down in the order, and the links are those of dominators: above a node are exactly
  the nodes above all its neighbours on the root side.\<close>

definition frontier_graph :: "(nref \<Rightarrow> nref option) \<Rightarrow> (nref \<Rightarrow> nat) \<Rightarrow> (nref \<Rightarrow> nref list) \<Rightarrow> nref set \<Rightarrow> nref \<Rightarrow> bool" where
  "frontier_graph link ord adj A e \<longleftrightarrow>
     link_tree link ord A e \<and>
     (\<forall>n \<in> A. \<forall>c \<in> set (adj n). c \<in> A \<and> ord c < ord n) \<and>
     (\<forall>c \<in> A. c \<noteq> e \<longrightarrow> (\<exists>q \<in> A. c \<in> set (adj q)) \<and>
        (\<forall>a. above link c a \<longleftrightarrow> a = c \<or> (\<forall>q \<in> A. c \<in> set (adj q) \<longrightarrow> above link q a)))"

text \<open>The frontier of \<open>n\<close>: edges from below \<open>n\<close> to nodes not strictly below it.\<close>

definition frontier_of :: "(nref \<Rightarrow> nref option) \<Rightarrow> (nref \<Rightarrow> nref list) \<Rightarrow> nref set \<Rightarrow> nref \<Rightarrow> nref set" where
  "frontier_of link adj A n = {c. \<exists>q \<in> A. above link q n \<and> c \<in> set (adj q) \<and> \<not> (c \<noteq> n \<and> above link c n)}"

definition local_edges :: "(nref \<Rightarrow> nref option) \<Rightarrow> nref \<Rightarrow> nref list \<Rightarrow> nref set" where
  "local_edges link n cs = {c \<in> set cs. link c \<noteq> Some n}"

definition handed_up :: "(nref \<Rightarrow> nref option) \<Rightarrow> (nref \<Rightarrow> nref list) \<Rightarrow> nref set \<Rightarrow> nref set \<Rightarrow> nref \<Rightarrow> nref set" where
  "handed_up link adj A P n = {f. \<exists>m \<in> P. m \<noteq> n \<and> link m = Some n \<and> f \<in> frontier_of link adj A m \<and> \<not> above link f n}"

lemma above_trans: "above up a b \<Longrightarrow> above up b c \<Longrightarrow> above up a c"
  by (induction rule: above.induct) (auto intro: above_step)

lemma frontier_graphD:
  assumes "frontier_graph link ord adj A e"
  shows "link_tree link ord A e" "n \<in> A \<Longrightarrow> c \<in> set (adj n) \<Longrightarrow> c \<in> A \<and> ord c < ord n"
    "c \<in> A \<Longrightarrow> c \<noteq> e \<Longrightarrow> \<exists>q \<in> A. c \<in> set (adj q)"
    "c \<in> A \<Longrightarrow> c \<noteq> e \<Longrightarrow> above link c a \<longleftrightarrow> a = c \<or> (\<forall>q \<in> A. c \<in> set (adj q) \<longrightarrow> above link q a)"
proof -
  note d = assms [unfolded frontier_graph_def]
  show "link_tree link ord A e" using d by blast
  show "n \<in> A \<Longrightarrow> c \<in> set (adj n) \<Longrightarrow> c \<in> A \<and> ord c < ord n" using d by blast
  show "c \<in> A \<Longrightarrow> c \<noteq> e \<Longrightarrow> \<exists>q \<in> A. c \<in> set (adj q)" using d by blast
  show "c \<in> A \<Longrightarrow> c \<noteq> e \<Longrightarrow> above link c a \<longleftrightarrow> a = c \<or> (\<forall>q \<in> A. c \<in> set (adj q) \<longrightarrow> above link q a)"
    using d by (elim conjE) (drule (1) bspec, blast)
qed

text \<open>The child of \<open>n\<close> on the way up from a node below.\<close>

lemma child_towards:
  "above link q n \<Longrightarrow> q \<noteq> n \<Longrightarrow> \<exists>m. m \<noteq> n \<and> link m = Some n \<and> above link q m"
proof (induction rule: above.induct)
  case (above_step q d n)
  show ?case
  proof (cases "d = n")
    case True
    then show ?thesis using above_step.hyps(1,2) above_refl by metis
  next
    case False
    then show ?thesis using above_step above.above_step by metis
  qed
qed simp

text \<open>Above a node that is not the root are the nodes above its link.\<close>

lemma link_meets:
  assumes g: "frontier_graph link ord adj A e" and c: "c \<in> A" "link c = Some d" "d \<noteq> c" and q: "q \<in> A" "c \<in> set (adj q)"
  shows "above link q d"
proof -
  have "c \<noteq> e" using c(2,3) link_treeD(3) [OF frontier_graphD(1) [OF g]] by auto
  moreover have "above link c d" using above_step [of link c d d] above_refl c(2,3) by blast
  ultimately show ?thesis using frontier_graphD(4) [OF g c(1), of d] c(3) q by blast
qed

lemma local_edge_iff:
  assumes g: "frontier_graph link ord adj A e" and n: "n \<in> A" "c \<in> set (adj n)"
  shows "link c = Some n \<longleftrightarrow> c \<noteq> n \<and> above link c n"
proof
  note tree = frontier_graphD(1) [OF g]
  have c: "c \<in> A" "ord c < ord n" using frontier_graphD(2) [OF g n] by simp_all
  show "link c = Some n \<Longrightarrow> c \<noteq> n \<and> above link c n"
    using c(2) above_step [of link c n n] above_refl by auto
  assume a: "c \<noteq> n \<and> above link c n"
  have "c \<noteq> e" using a above_root [of link e n] link_treeD(3) [OF tree] by auto
  then obtain d where d: "link c = Some d" "d \<in> A" "d \<noteq> c" using link_tree_step [OF tree c(1)] by metis
  have "above link n d" by (rule link_meets [OF g c(1) d(1,3) n])
  moreover have "above link d n" using a d(1,3) above_link [of link c d n] by auto
  ultimately show "link c = Some n" using above_antisym [OF tree n(1) d(2)] d(1) by simp
qed

lemma frontier_in:
  assumes "frontier_graph link ord adj A e" and "f \<in> frontier_of link adj A n"
  shows "f \<in> A" "ord f < ord n" "f \<noteq> n"
proof -
  obtain q where q: "q \<in> A" "above link q n" "f \<in> set (adj q)" using assms(2) by (auto simp: frontier_of_def)
  note d = frontier_graphD(2) [OF assms(1) q(1,3)]
  then show "f \<in> A" by simp
  show "ord f < ord n" using d above_order [OF frontier_graphD(1) [OF assms(1)] q(2,1)] by simp
  then show "f \<noteq> n" by auto
qed

text \<open>The frontier is the local edges together with what the children hand up.\<close>

lemma frontier_step:
  assumes g: "frontier_graph link ord adj A e" and n: "n \<in> A"
  shows "frontier_of link adj A n = local_edges link n (adj n) \<union> handed_up link adj A A n" (is "?F = ?L \<union> ?H")
proof
  note tree = frontier_graphD(1) [OF g]
  show "?F \<subseteq> ?L \<union> ?H"
  proof
    fix c assume c: "c \<in> ?F"
    then obtain q where q: "q \<in> A" "above link q n" "c \<in> set (adj q)" "\<not> (c \<noteq> n \<and> above link c n)"
      by (auto simp: frontier_of_def)
    note cn = frontier_in [OF g c]
    show "c \<in> ?L \<union> ?H"
    proof (cases "q = n")
      case True
      then show ?thesis using q(3,4) local_edge_iff [OF g n, of c] by (simp add: local_edges_def)
    next
      case False
      then obtain m where m: "m \<noteq> n" "link m = Some n" "above link q m" using child_towards [OF q(2)] by blast
      have mA: "m \<in> A" using above_order [OF tree m(3) q(1)] by simp
      have "above link m n" using above_step [of link m n n] m(1,2) above_refl by metis
      then have "\<not> (c \<noteq> m \<and> above link c m)" using above_trans [of link c m n] cn(3) q(4) by blast
      then have "c \<in> frontier_of link adj A m" using q(1,3) m(3) by (auto simp: frontier_of_def)
      then show ?thesis using m(1,2) mA q(4) cn(3) by (auto simp: handed_up_def)
    qed
  qed
  show "?L \<union> ?H \<subseteq> ?F"
  proof
    fix c assume "c \<in> ?L \<union> ?H"
    then consider "c \<in> ?L" | "c \<in> ?H" by blast
    then show "c \<in> ?F"
    proof cases
      case 1
      then show ?thesis using local_edge_iff [OF g n, of c] n above_refl [of link n] by (auto simp: local_edges_def frontier_of_def)
    next
      case 2
      then obtain m q where m: "m \<noteq> n" "link m = Some n" "\<not> above link c n" "q \<in> A" "above link q m" "c \<in> set (adj q)"
        by (auto simp: handed_up_def frontier_of_def)
      have "above link q n" using above_trans [OF m(5)] above_step [of link m n n] m(1,2) above_refl by metis
      then show ?thesis using m(3,4,6) by (auto simp: frontier_of_def)
    qed
  qed
qed

text \<open>A node with something strictly below it has an edge.\<close>

lemma below_has_edge:
  assumes g: "frontier_graph link ord adj A e"
  shows "x \<in> A \<Longrightarrow> above link x n \<Longrightarrow> x \<noteq> n \<Longrightarrow> adj n \<noteq> []"
proof (induction "height ord A x" arbitrary: x rule: less_induct)
  case less
  note tree = frontier_graphD(1) [OF g]
  have "x \<noteq> e" using less.prems(2,3) above_root [of link e n] link_treeD(3) [OF tree] by auto
  then obtain q where q: "q \<in> A" "x \<in> set (adj q)" using frontier_graphD(3) [OF g less.prems(1)] by blast
  have "above link q n" using frontier_graphD(4) [OF g less.prems(1) \<open>x \<noteq> e\<close>, of n] less.prems(2,3) q by blast
  show ?case
  proof (cases "q = n")
    case True
    then show ?thesis using q(2) by auto
  next
    case False
    have "ord x < ord q" using frontier_graphD(2) [OF g q] by simp
    then have "height ord A q < height ord A x" by (rule height_less [OF link_treeD(1) [OF tree] q(1)])
    then show ?thesis using less.hyps q(1) \<open>above link q n\<close> False by blast
  qed
qed

lemma no_edge_nothing_handed:
  assumes "frontier_graph link ord adj A e" and "P \<subseteq> A" and "adj n = []"
  shows "handed_up link adj A P n = {}"
proof -
  have "m \<notin> P" if "m \<noteq> n" "link m = Some n" for m
  proof
    assume "m \<in> P"
    moreover have "above link m n" using above_step [of link m n n] that above_refl by metis
    ultimately show False using below_has_edge [OF assms(1), of m n] assms(2,3) that(1) by blast
  qed
  then show ?thesis by (auto simp: handed_up_def)
qed

section \<open>The pass\<close>

text \<open>A state with a frontier list per node; \<open>same\<close> relates states that differ in frontiers only.\<close>

locale frontier_pool =
  fixes link :: "'p \<Rightarrow> nref \<Rightarrow> nref option"
    and frontier :: "'p \<Rightarrow> nref \<Rightarrow> nref list"
    and query :: "'p \<Rightarrow> nref \<Rightarrow> nref \<Rightarrow> bool res"
    and size :: "'p \<Rightarrow> nat"
    and push :: "nref \<Rightarrow> nref \<Rightarrow> 'p \<Rightarrow> 'p"
    and edges :: "'p \<Rightarrow> nref \<Rightarrow> nref list"
    and edge_step :: "nref \<Rightarrow> nref \<Rightarrow> 'p \<Rightarrow> 'p res"
    and same :: "'p \<Rightarrow> 'p \<Rightarrow> bool"
  assumes push_frontier: "n < size p \<Longrightarrow> frontier (push n f p) = (frontier p)(n := push_unique (frontier p n) f)"
    and same_push: "same p (push n f p)"
    and same_refl: "same p p"
    and same_trans: "same p q \<Longrightarrow> same q r \<Longrightarrow> same p r"
    and same_link: "same p q \<Longrightarrow> link q = link p"
    and same_query: "same p q \<Longrightarrow> query q = query p"
    and same_size: "same p q \<Longrightarrow> size q = size p"
    and same_edges: "same p q \<Longrightarrow> edges q = edges p"
    and edge_step: "edge_step n c p =
      (let p = (if link p c \<noteq> Some n then push n c p else p)
       in case link p n of
         None \<Rightarrow> Ok p
       | Some d \<Rightarrow> fold_res (\<lambda>f p. bind_res (query p d f) (\<lambda>b. Ok (if b then p else push d f p))) (frontier p n) p)"
begin

lemma hand_up:
  assumes "d < size p" and "\<And>f. f \<in> set fs \<Longrightarrow> query p d f = Ok (D f)"
  shows "\<exists>q. fold_res (\<lambda>f p. bind_res (query p d f) (\<lambda>b. Ok (if b then p else push d f p))) fs p = Ok q \<and> same p q \<and>
    (\<forall>m. set (frontier q m) = set (frontier p m) \<union> (if m = d then {f \<in> set fs. \<not> D f} else {}))"
  using assms
proof (induction fs arbitrary: p)
  case Nil
  then show ?case using same_refl by auto
next
  case (Cons f fs)
  let ?p = "if D f then p else push d f p"
  have p: "same p ?p" using same_refl same_push by simp
  have "d < size ?p" "\<And>f. f \<in> set fs \<Longrightarrow> query ?p d f = Ok (D f)"
    using Cons.prems same_size [OF p] same_query [OF p] by simp_all
  then obtain q where q: "fold_res (\<lambda>f p. bind_res (query p d f) (\<lambda>b. Ok (if b then p else push d f p))) fs ?p = Ok q" "same ?p q"
    "\<forall>m. set (frontier q m) = set (frontier ?p m) \<union> (if m = d then {f \<in> set fs. \<not> D f} else {})"
    using Cons.IH by blast
  have "same p q" using p q(2) by (rule same_trans)
  moreover have "set (frontier ?p m) = set (frontier p m) \<union> (if m = d \<and> \<not> D f then {f} else {})" for m
    using push_frontier [OF Cons.prems(1)] by auto
  ultimately show ?case using q(1,3) Cons.prems(2) by auto
qed

text \<open>The edges of one node.\<close>

lemma node_edges:
  assumes n: "n < size p" "link p n = Some d" "d < size p" "d \<noteq> n \<or> (\<forall>f \<in> A. D f)"
    and dom: "\<And>f. f \<in> A \<Longrightarrow> query p d f = Ok (D f)" and A: "set (frontier p n) \<subseteq> A" "set cs \<subseteq> A"
  shows "\<exists>q. fold_res (edge_step n) cs p = Ok q \<and> same p q \<and>
    (\<forall>m. m \<noteq> n \<longrightarrow> m \<noteq> d \<longrightarrow> set (frontier q m) = set (frontier p m)) \<and>
    set (frontier q n) = set (frontier p n) \<union> local_edges (link p) n cs \<and>
    (d \<noteq> n \<longrightarrow> set (frontier q d) = set (frontier p d) \<union> (if cs = [] then {} else {f \<in> set (frontier q n). \<not> D f}))"
  using assms
proof (induction cs arbitrary: p)
  case Nil
  then show ?case using same_refl by (auto simp: local_edges_def)
next
  case (Cons c cs)
  let ?p = "if link p c \<noteq> Some n then push n c p else p"
  have p: "same p ?p" using same_refl same_push by simp
  have fr: "set (frontier ?p m) = set (frontier p m) \<union> (if m = n then local_edges (link p) n [c] else {})" for m
    using push_frontier [OF Cons.prems(1)] by (auto simp: local_edges_def)
  have "query ?p d f = Ok (D f)" if "f \<in> set (frontier ?p n)" for f
    using that fr [of n] Cons.prems(6,7) Cons.prems(5) [of f] same_query [OF p] by (auto simp: local_edges_def split: if_splits)
  moreover have "d < size ?p" "link ?p n = Some d" using Cons.prems(2,3) same_size [OF p] same_link [OF p] by simp_all
  ultimately obtain u where u: "edge_step n c p = Ok u" "same ?p u"
    "\<forall>m. set (frontier u m) = set (frontier ?p m) \<union> (if m = d then {f \<in> set (frontier ?p n). \<not> D f} else {})"
    using hand_up [of d ?p "frontier ?p n" D] by (auto simp: edge_step Let_def)
  have pu: "same p u" using p u(2) by (rule same_trans)
  note eq = same_size [OF pu] same_link [OF pu] same_query [OF pu]
  have un: "set (frontier u n) = set (frontier p n) \<union> local_edges (link p) n [c]"
    using u(3) fr [of n] Cons.prems(4,6,7) by (auto simp: local_edges_def split: if_splits)
  then have "set (frontier u n) \<subseteq> A" using Cons.prems(6,7) by (auto simp: local_edges_def)
  then obtain q where q: "fold_res (edge_step n) cs u = Ok q" "same u q"
    "\<forall>m. m \<noteq> n \<longrightarrow> m \<noteq> d \<longrightarrow> set (frontier q m) = set (frontier u m)"
    "set (frontier q n) = set (frontier u n) \<union> local_edges (link p) n cs"
    "d \<noteq> n \<longrightarrow> set (frontier q d) = set (frontier u d) \<union> (if cs = [] then {} else {f \<in> set (frontier q n). \<not> D f})"
    using Cons.IH [of u] Cons.prems eq by auto
  have "set (frontier q n) = set (frontier p n) \<union> local_edges (link p) n (c # cs)"
    using q(4) un by (auto simp: local_edges_def)
  moreover have "set (frontier q d) = set (frontier p d) \<union> {f \<in> set (frontier q n). \<not> D f}" if dn: "d \<noteq> n"
  proof -
    have "set (frontier u d) = set (frontier p d) \<union> {f \<in> set (frontier u n). \<not> D f}"
      using u(3) [rule_format, of d] u(3) [rule_format, of n] fr [of d] dn by auto
    then show ?thesis using q(4,5) dn by (cases cs) (auto simp: local_edges_def)
  qed
  moreover have "set (frontier q m) = set (frontier p m)" if "m \<noteq> n" "m \<noteq> d" for m
    using q(3) u(3) fr [of m] that by auto
  moreover have "same p q" using pu q(2) by (rule same_trans)
  ultimately show ?case using u(1) q(1) by simp
qed

text \<open>The state after the nodes \<open>P\<close>, for the nodes \<open>N\<close> of the list.\<close>

lemma frontier_pass:
  assumes g: "frontier_graph (link p0) ord adj A e" and N: "A = insert e N" "A \<subseteq> {..<size p0}"
    and dom: "\<And>d f. d \<in> A \<Longrightarrow> f \<in> A \<Longrightarrow> query p0 d f = Ok (above (link p0) f d)"
    and edges: "\<And>n. n \<in> N \<Longrightarrow> edges p0 n = adj n"
  shows "same p0 p \<Longrightarrow> P \<union> set xs = N \<Longrightarrow> P \<inter> set xs = {} \<Longrightarrow>
    sorted_wrt (\<lambda>a b. ord a < ord b) xs \<Longrightarrow> (\<forall>a \<in> P. \<forall>b \<in> set xs. ord a < ord b) \<Longrightarrow>
    (\<forall>n \<in> N. set (frontier p n) = (if n \<in> P then local_edges (link p0) n (adj n) else {}) \<union> handed_up (link p0) adj A P n) \<Longrightarrow>
    \<exists>q. fold_res (\<lambda>n p. fold_res (edge_step n) (edges p n) p) xs p = Ok q \<and> same p0 q \<and>
      (\<forall>n \<in> N. set (frontier q n) = frontier_of (link p0) adj A n)"
proof (induction xs arbitrary: p P)
  case Nil
  note tree = frontier_graphD(1) [OF g]
  have "handed_up (link p0) adj A P n = handed_up (link p0) adj A A n" if "n \<in> N" for n
  proof -
    have "m \<in> P" if "m \<in> A" "m \<noteq> n" "link p0 m = Some n" for m
      using that Nil.prems(2) N(1) link_treeD(3) [OF tree] by auto
    then show ?thesis using Nil.prems(2) N(1) by (auto simp: handed_up_def)
  qed
  then show ?case using Nil.prems(1,2,6) frontier_step [OF g] N(1) by auto
next
  case (Cons x xs)
  let ?L = "link p0"
  note tree = frontier_graphD(1) [OF g]
  have xA: "x \<in> A" "x \<in> N" "x \<notin> P" and PA: "P \<subseteq> A" using Cons.prems(2,3) N(1) by auto
  have child: "m \<in> P" if m: "m \<in> A" "m \<noteq> x" "?L m = Some x" for m
  proof -
    have "m \<noteq> e" using m(2,3) link_treeD(3) [OF tree] by auto
    then obtain d where "?L m = Some d" "ord m < ord d" using link_tree_step [OF tree m(1)] by metis
    then have "ord m < ord x" using m(3) by simp
    moreover have "m \<in> P \<union> set (x # xs)" using m(1) N(1) Cons.prems(2) \<open>m \<noteq> e\<close> by auto
    ultimately show ?thesis using m(2) Cons.prems(4) by fastforce
  qed
  have hx: "handed_up ?L adj A P x = handed_up ?L adj A A x" using child PA by (auto simp: handed_up_def)
  have fx: "set (frontier p x) = handed_up ?L adj A A x" using Cons.prems(6) xA hx by auto
  have fA: "handed_up ?L adj A A x \<subseteq> A" using frontier_in(1) [OF g] by (auto simp: handed_up_def)
  obtain d where d: "?L x = Some d" "d \<in> A" using link_tree_set [OF tree xA(1)] link_tree_closed [OF tree xA(1)] by blast
  have root: "d \<noteq> x \<or> (\<forall>f \<in> A. above ?L f d)"
  proof (rule disjCI)
    assume "\<not> (\<forall>f \<in> A. above ?L f d)"
    moreover have "\<forall>f \<in> A. above ?L f e"
    proof
      fix f assume "f \<in> A"
      then show "above ?L f e"
      proof (induction "height ord A f" arbitrary: f rule: less_induct)
        case less
        show ?case
        proof (cases "f = e")
          case False
          then obtain k where "?L f = Some k" "k \<in> A" "ord f < ord k" "k \<noteq> f" using link_tree_step [OF tree less.prems] by metis
          then show ?thesis using less.hyps [of k] height_less [OF link_treeD(1) [OF tree]] above_step by metis
        qed (simp add: above_refl)
      qed
    qed
    ultimately have "d \<noteq> e" by blast
    then have "x \<noteq> e" using d(1) link_treeD(3) [OF tree] by auto
    then show "d \<noteq> x" using link_tree_step [OF tree xA(1)] d(1) by (metis option.inject)
  qed
  note eq = same_size [OF Cons.prems(1)] same_link [OF Cons.prems(1)] same_query [OF Cons.prems(1)]
  have adjA: "set (adj x) \<subseteq> A" using frontier_graphD(2) [OF g xA(1)] by blast
  obtain q where q: "fold_res (edge_step x) (adj x) p = Ok q" "same p q"
    "\<forall>m. m \<noteq> x \<longrightarrow> m \<noteq> d \<longrightarrow> set (frontier q m) = set (frontier p m)"
    "set (frontier q x) = set (frontier p x) \<union> local_edges ?L x (adj x)"
    "d \<noteq> x \<longrightarrow> set (frontier q d) = set (frontier p d) \<union> (if adj x = [] then {} else {f \<in> set (frontier q x). \<not> above ?L f d})"
  proof -
    have "x < size p" "link p x = Some d" "d < size p" "\<And>f. f \<in> A \<Longrightarrow> query p d f = Ok (above ?L f d)" "set (frontier p x) \<subseteq> A"
      using xA(1) d N(2) dom [OF d(2)] fx fA eq by auto
    from node_edges [OF this(1-3) root this(4,5) adjA] show thesis using that eq(2) by auto
  qed
  have qx: "set (frontier q x) = frontier_of ?L adj A x" using q(4) fx frontier_step [OF g xA(1)] by auto
  have empty: "frontier_of ?L adj A x = {}" if "adj x = []"
    using that frontier_step [OF g xA(1)] no_edge_nothing_handed [OF g _ that, of A] by (simp add: local_edges_def)
  have inv: "set (frontier q n) = (if n \<in> insert x P then local_edges ?L n (adj n) else {}) \<union> handed_up ?L adj A (insert x P) n"
    if n: "n \<in> N" for n
  proof -
    have add: "handed_up ?L adj A (insert x P) n = handed_up ?L adj A P n \<union>
        (if x \<noteq> n \<and> d = n then {f \<in> frontier_of ?L adj A x. \<not> above ?L f n} else {})"
      using d(1) by (auto simp: handed_up_def)
    consider "n = x" | "n \<noteq> x" "n = d" | "n \<noteq> x" "n \<noteq> d" by blast
    then show ?thesis
    proof cases
      case 1
      then show ?thesis using add q(4) fx hx by auto
    next
      case 2
      then show ?thesis using add q(5) qx empty Cons.prems(6) n by (auto split: if_splits)
    next
      case 3
      then show ?thesis using add q(3) Cons.prems(6) n by auto
    qed
  qed
  have "same p0 q" using Cons.prems(1) q(2) by (rule same_trans)
  moreover have "insert x P \<union> set xs = N" using Cons.prems(2) by auto
  moreover have "insert x P \<inter> set xs = {}" using Cons.prems(3,4) by fastforce
  moreover have "\<forall>a \<in> insert x P. \<forall>b \<in> set xs. ord a < ord b" using Cons.prems(4,5) by auto
  moreover have "sorted_wrt (\<lambda>a b. ord a < ord b) xs" using Cons.prems(4) by simp
  ultimately obtain r where "fold_res (\<lambda>n p. fold_res (edge_step n) (edges p n) p) xs q = Ok r" "same p0 r"
    "\<forall>n \<in> N. set (frontier r n) = frontier_of ?L adj A n"
    using Cons.IH [of q "insert x P"] inv by blast
  moreover have "edges p x = adj x" using same_edges [OF Cons.prems(1)] edges [OF xA(2)] by simp
  ultimately show ?case using q(1) by auto
qed

end

end
