(* ===== verification/Cfg_Analysis.thy ===== *)
theory Cfg_Analysis
  imports Cfg_Frontier
begin

text \<open>
  The whole of \<open>recompute_cfg\<close>: both directions provide the frontier interface, and the stages
  are put together on graphs whose loops can be left through their continue blocks.
\<close>

section \<open>Both directions provide frontiers\<close>

definition fronts :: "CFGNode \<Rightarrow> CFGNode" where
  "fronts x = x\<lparr>dominance_frontier := [], post_dominance_frontier := []\<rparr>"

definition frontiers_only :: "CFGStructurizer \<Rightarrow> CFGStructurizer \<Rightarrow> bool" where
  "frontiers_only p q \<longleftrightarrow>
     p\<lparr>nodes := []\<rparr> = q\<lparr>nodes := []\<rparr> \<and> length (nodes q) = length (nodes p) \<and>
     (\<forall>n. fronts (node_at q n) = fronts (node_at p n))"

lemma frontiers_only_refl [simp]: "frontiers_only p p"
  by (simp add: frontiers_only_def)

lemma frontiers_only_trans: "frontiers_only p q \<Longrightarrow> frontiers_only q r \<Longrightarrow> frontiers_only p r"
  by (simp add: frontiers_only_def)

lemma frontiers_only_update: "(\<And>x. fronts (f x) = fronts x) \<Longrightarrow> frontiers_only p (update_node n f p)"
proof -
  assume f: "\<And>x. fronts (f x) = fronts x"
  have "fronts (node_at (update_node n f p) m) = fronts (node_at p m)" for m by (simp add: node_at_update f)
  then show ?thesis by (simp add: frontiers_only_def update_node_def)
qed

lemma fronts_fields:
  assumes "fronts x = fronts y"
  shows "succ x = succ y" "pred x = pred y" "fake_succ x = fake_succ y" "immediate_dominator x = immediate_dominator y"
    "immediate_post_dominator x = immediate_post_dominator y" "forward_order x = forward_order y"
    "backward_order x = backward_order y"
  using arg_cong [OF assms, of succ] arg_cong [OF assms, of pred] arg_cong [OF assms, of fake_succ]
    arg_cong [OF assms, of immediate_dominator] arg_cong [OF assms, of immediate_post_dominator]
    arg_cong [OF assms, of forward_order] arg_cong [OF assms, of backward_order]
  by (simp_all add: fronts_def)

lemma frontiers_only_eq:
  assumes "frontiers_only p q"
  shows "length (nodes q) = length (nodes p)" "idom q = idom p" "ipdom q = ipdom p" "dominates q = dominates p"
    "post_dominates q = post_dominates p" "(\<lambda>n. succ (node_at q n)) = (\<lambda>n. succ (node_at p n))"
    "(\<lambda>n. pred (node_at q n)) = (\<lambda>n. pred (node_at p n))" "post_edges x q = post_edges x p"
    "(\<lambda>n. forward_order (node_at q n)) = (\<lambda>n. forward_order (node_at p n))"
    "(\<lambda>n. backward_order (node_at q n)) = (\<lambda>n. backward_order (node_at p n))"
    "order_of q = order_of p" "backward_post_visit_order q = backward_post_visit_order p" "exit_block q = exit_block p"
    "query_reachability q = query_reachability p"
proof -
  show len: "length (nodes q) = length (nodes p)" using assms by (simp add: frontiers_only_def)
  have eq: "fronts (node_at q n) = fronts (node_at p n)" for n using assms by (simp add: frontiers_only_def)
  note at = fronts_fields [OF eq]
  show i: "idom q = idom p" and j: "ipdom q = ipdom p" by (simp_all add: idom_def [abs_def] ipdom_def [abs_def] at)
  show "dominates q = dominates p" "post_dominates q = post_dominates p"
    by (simp_all add: dominates_def post_dominates_def fun_eq_iff walk_fuel_def i j len)
  show "(\<lambda>n. succ (node_at q n)) = (\<lambda>n. succ (node_at p n))" "(\<lambda>n. pred (node_at q n)) = (\<lambda>n. pred (node_at p n))"
    "(\<lambda>n. forward_order (node_at q n)) = (\<lambda>n. forward_order (node_at p n))"
    "(\<lambda>n. backward_order (node_at q n)) = (\<lambda>n. backward_order (node_at p n))" "post_edges x q = post_edges x p"
    by (simp_all add: at fun_eq_iff post_edges_def out_edges_def)
  have more: "p\<lparr>nodes := []\<rparr> = q\<lparr>nodes := []\<rparr>" using assms by (simp add: frontiers_only_def)
  show "order_of q = order_of p" "backward_post_visit_order q = backward_post_visit_order p" "exit_block q = exit_block p"
    using more by (cases p, cases q, simp)+
  have "reachability_bitset q = reachability_bitset p" "reachability_stride q = reachability_stride p"
    using more by (cases p, cases q, simp)+
  then show "query_reachability q = query_reachability p" by (simp add: query_reachability_def reach_row_def fun_eq_iff at)
qed

abbreviation push_frontier :: "nref \<Rightarrow> nref \<Rightarrow> CFGStructurizer \<Rightarrow> CFGStructurizer" where
  "push_frontier n f \<equiv> update_node n (\<lambda>x. x\<lparr>dominance_frontier := push_unique (dominance_frontier x) f\<rparr>)"

abbreviation push_post_frontier :: "nref \<Rightarrow> nref \<Rightarrow> CFGStructurizer \<Rightarrow> CFGStructurizer" where
  "push_post_frontier n f \<equiv> update_node n (\<lambda>x. x\<lparr>post_dominance_frontier := push_unique (post_dominance_frontier x) f\<rparr>)"

interpretation dom_frontier: frontier_pool idom "\<lambda>p n. dominance_frontier (node_at p n)" dominates "\<lambda>p. length (nodes p)"
  push_frontier "\<lambda>p n. succ (node_at p n)" dominance_frontier_edge frontiers_only
proof
  fix p q r :: CFGStructurizer and n f c
  show "n < length (nodes p) \<Longrightarrow> (\<lambda>m. dominance_frontier (node_at (push_frontier n f p) m)) =
      (\<lambda>m. dominance_frontier (node_at p m))(n := push_unique (dominance_frontier (node_at p n)) f)"
    by (simp add: node_at_update fun_eq_iff)
  show "frontiers_only p (push_frontier n f p)" by (rule frontiers_only_update) (simp add: fronts_def)
  show "frontiers_only p p" by simp
  show "frontiers_only p q \<Longrightarrow> frontiers_only q r \<Longrightarrow> frontiers_only p r" by (rule frontiers_only_trans)
  show "dominance_frontier_edge n c p = (let p = if idom p c \<noteq> Some n then push_frontier n c p else p
      in case idom p n of None \<Rightarrow> Ok p
         | Some d \<Rightarrow> fold_res (\<lambda>f p. bind_res (dominates p d f) (\<lambda>b. Ok (if b then p else push_frontier d f p)))
             (dominance_frontier (node_at p n)) p)"
    by (simp only: dominance_frontier_edge_def frontier_to_idom_def [abs_def])
qed (use frontiers_only_eq in simp_all)

text \<open>The post frontiers are computed last and leave the others alone.\<close>

definition post_frontiers_only :: "CFGStructurizer \<Rightarrow> CFGStructurizer \<Rightarrow> bool" where
  "post_frontiers_only p q \<longleftrightarrow>
     frontiers_only p q \<and> (\<forall>n. dominance_frontier (node_at q n) = dominance_frontier (node_at p n))"

interpretation post_frontier: frontier_pool ipdom "\<lambda>p n. post_dominance_frontier (node_at p n)" post_dominates "\<lambda>p. length (nodes p)"
  push_post_frontier "\<lambda>p n. pred (node_at p n)" post_dominance_frontier_edge post_frontiers_only
proof
  fix p q r :: CFGStructurizer and n f c
  show "n < length (nodes p) \<Longrightarrow> (\<lambda>m. post_dominance_frontier (node_at (push_post_frontier n f p) m)) =
      (\<lambda>m. post_dominance_frontier (node_at p m))(n := push_unique (post_dominance_frontier (node_at p n)) f)"
    by (simp add: node_at_update fun_eq_iff)
  have "frontiers_only p (push_post_frontier n f p)" by (rule frontiers_only_update) (simp add: fronts_def)
  then show "post_frontiers_only p (push_post_frontier n f p)" by (simp add: post_frontiers_only_def node_at_update)
  show "post_frontiers_only p p" by (simp add: post_frontiers_only_def)
  show "post_frontiers_only p q \<Longrightarrow> post_frontiers_only q r \<Longrightarrow> post_frontiers_only p r"
    using frontiers_only_trans by (simp add: post_frontiers_only_def) blast
  show "post_dominance_frontier_edge n c p = (let p = if ipdom p c \<noteq> Some n then push_post_frontier n c p else p
      in case ipdom p n of None \<Rightarrow> Ok p
         | Some d \<Rightarrow> fold_res (\<lambda>f p. bind_res (post_dominates p d f) (\<lambda>b. Ok (if b then p else push_post_frontier d f p)))
             (post_dominance_frontier (node_at p n)) p)"
    by (simp only: post_dominance_frontier_edge_def frontier_to_ipdom_def [abs_def])
qed (use frontiers_only_eq in \<open>simp_all add: post_frontiers_only_def\<close>)

lemma recompute_frontier_fold:
  "recompute_dominance_frontier = (\<lambda>n p. fold_res (dominance_frontier_edge n) (succ (node_at p n)) p)"
  "recompute_post_dominance_frontier = (\<lambda>n p. fold_res (post_dominance_frontier_edge n) (pred (node_at p n)) p)"
  by (simp_all add: fun_eq_iff recompute_dominance_frontier_def recompute_post_dominance_frontier_def)

section \<open>Frontiers after the tree is built\<close>

lemma built_query:
  assumes "built up ord adj e S" and "card S < k" and "n \<in> S"
  shows "bind_res (climb k up a n) (\<lambda>r. Ok (a = r)) = Ok (above up n a)"
  using climb_built [OF assms, of a] assms(1,3) by (simp add: built_def)

text \<open>Built links in a graph whose edges agree in both directions make a frontier graph.\<close>

lemma built_frontier_graph:
  assumes b: "built up ord edges e A"
    and down: "\<And>n c. n \<in> A \<Longrightarrow> c \<in> set (adj n) \<Longrightarrow> c \<in> A \<and> ord c < ord n"
    and agree: "\<And>n q. n \<in> A \<Longrightarrow> n \<noteq> e \<Longrightarrow> q \<in> set (edges n) \<longleftrightarrow> q \<in> A \<and> n \<in> set (adj q)"
    and some: "\<And>n. n \<in> A \<Longrightarrow> n \<noteq> e \<Longrightarrow> edges n \<noteq> []"
  shows "frontier_graph up ord adj A e"
  unfolding frontier_graph_def
proof (intro conjI ballI impI allI)
  show "link_tree up ord A e" using b by (simp add: built_def)
  show "c \<in> A" "ord c < ord n" if "n \<in> A" "c \<in> set (adj n)" for n c using down [OF that] by simp_all
  fix c assume c: "c \<in> A" "c \<noteq> e"
  show "\<exists>q \<in> A. c \<in> set (adj q)"
    using agree [OF c] some [OF c] by (metis list.set_intros(1) neq_Nil_conv)
  show "above up c a \<longleftrightarrow> a = c \<or> (\<forall>q \<in> A. c \<in> set (adj q) \<longrightarrow> above up q a)" for a
  proof -
    have "above up c a \<longleftrightarrow> a = c \<or> (\<forall>q \<in> set (edges c). on_all_paths edges e a q)"
      using b c on_all_paths_step [OF c(2), of edges a] by (simp add: built_def)
    also have "\<dots> \<longleftrightarrow> a = c \<or> (\<forall>q \<in> set (edges c). above up q a)"
      using b agree [OF c] by (auto simp: built_def)
    finally show ?thesis using agree [OF c] by auto
  qed
qed

text \<open>A dominance frontier by paths.\<close>

lemma frontier_of_built:
  assumes "built up ord edges e A" and "frontier_graph up ord adj A e" and "n \<in> A"
  shows "frontier_of up adj A n =
    {c. \<exists>q \<in> A. c \<in> set (adj q) \<and> on_all_paths edges e n q \<and> \<not> (c \<noteq> n \<and> on_all_paths edges e n c)}"
proof -
  have "above up q n \<longleftrightarrow> on_all_paths edges e n q" if "q \<in> A" for q using assms(1) that by (simp add: built_def)
  moreover have "c \<in> A" if "q \<in> A" "c \<in> set (adj q)" for q c using frontier_graphD(2) [OF assms(2) that] by simp
  ultimately show ?thesis unfolding frontier_of_def by blast
qed

lemma handed_up_none: "handed_up link adj A {} n = {}"
  by (simp add: handed_up_def)

lemma clear_frontier:
  assumes "set ns \<subseteq> {..<length (nodes s)}" and "\<And>x. fronts (f x) = fronts x" and "\<And>x. f (f x) = f x"
  shows "frontiers_only s (fold (\<lambda>n. update_node n f) ns s)"
    "node_at (fold (\<lambda>n. update_node n f) ns s) n = (if n \<in> set ns then f (node_at s n) else node_at s n)"
proof -
  show "frontiers_only s (fold (\<lambda>n. update_node n f) ns s)"
  proof -
    have "frontiers_only s t \<Longrightarrow> frontiers_only s (fold (\<lambda>n. update_node n f) ns t)" for t
      by (induction ns arbitrary: t) (use frontiers_only_update [OF assms(2)] frontiers_only_trans in auto)
    then show ?thesis by simp
  qed
  have "node_at (fold (\<lambda>n. update_node n f) ns t) n = (if n \<in> set ns then f (node_at t n) else node_at t n)"
    if "length (nodes t) = length (nodes s)" for t
    using that assms(1) by (induction ns arbitrary: t) (auto simp: node_at_update assms(3))
  from this [OF refl]
  show "node_at (fold (\<lambda>n. update_node n f) ns s) n = (if n \<in> set ns then f (node_at s n) else node_at s n)" .
qed

lemma compute_dominance_frontier_ok:
  assumes g: "frontier_graph (idom s) (\<lambda>n. forward_order (node_at s n)) (\<lambda>n. succ (node_at s n)) (set (order_of s)) e"
    and b: "built (idom s) (\<lambda>n. forward_order (node_at s n)) edges e (set (order_of s))"
    and L: "set (order_of s) \<subseteq> {..<length (nodes s)}"
      "sorted_wrt (\<lambda>a b. forward_order (node_at s a) < forward_order (node_at s b)) (order_of s)"
  shows "\<exists>t. compute_dominance_frontier s = Ok t \<and> frontiers_only s t \<and>
    (\<forall>n \<in> set (order_of s). set (dominance_frontier (node_at t n)) = frontier_of (idom s) (\<lambda>n. succ (node_at s n)) (set (order_of s)) n)"
proof -
  let ?A = "set (order_of s)" and ?p = "fold (\<lambda>n. update_node n (\<lambda>x. x\<lparr>dominance_frontier := []\<rparr>)) (order_of s) s"
  have p: "frontiers_only s ?p" "\<And>n. n \<in> ?A \<Longrightarrow> dominance_frontier (node_at ?p n) = []"
    using clear_frontier [OF L(1), of "\<lambda>x. x\<lparr>dominance_frontier := []\<rparr>"] by (simp_all add: fronts_def)
  note eq = frontiers_only_eq [OF p(1)]
  have e: "e \<in> ?A" using link_treeD(2) [OF frontier_graphD(1) [OF g]] .
  have card: "card ?A < walk_fuel s" using card_mono [OF _ L(1)] by (simp add: walk_fuel_def)
  have "\<exists>q. fold_res (\<lambda>n p. fold_res (dominance_frontier_edge n) (succ (node_at p n)) p) (order_of s) ?p = Ok q \<and>
      frontiers_only ?p q \<and> (\<forall>n \<in> ?A. set (dominance_frontier (node_at q n)) = frontier_of (idom ?p) (\<lambda>n. succ (node_at s n)) ?A n)"
  proof (rule dom_frontier.frontier_pass [of ?p "\<lambda>n. forward_order (node_at s n)" "\<lambda>n. succ (node_at s n)" ?A e ?A ?p "{}" "order_of s"])
    show "frontier_graph (idom ?p) (\<lambda>n. forward_order (node_at s n)) (\<lambda>n. succ (node_at s n)) ?A e" using g by (simp only: eq)
    show "dominates ?p d f = Ok (above (idom ?p) f d)" if "f \<in> ?A" for d f
      unfolding eq(2,4) using built_query [OF b card that] by (simp add: dominates_def)
    show "succ (node_at ?p n) = succ (node_at s n)" for n using eq(6) by meson
    show "\<forall>n \<in> ?A. set (dominance_frontier (node_at ?p n)) =
        (if n \<in> {} then local_edges (idom ?p) n (succ (node_at s n)) else {}) \<union> handed_up (idom ?p) (\<lambda>n. succ (node_at s n)) ?A {} n"
      using p(2) by (simp add: handed_up_none)
  qed (use e L eq(1) in auto)
  then show ?thesis
    using frontiers_only_trans [OF p(1)] unfolding compute_dominance_frontier_def recompute_frontier_fold eq(2) by blast
qed

lemma compute_post_dominance_frontier_ok:
  assumes g: "frontier_graph (ipdom s) (\<lambda>n. backward_order (node_at s n)) adj (insert x (set (backward_post_visit_order s))) x"
    and b: "built (ipdom s) (\<lambda>n. backward_order (node_at s n)) edges x (insert x (set (backward_post_visit_order s)))"
    and L: "insert x (set (backward_post_visit_order s)) \<subseteq> {..<length (nodes s)}"
      "sorted_wrt (\<lambda>a b. backward_order (node_at s a) < backward_order (node_at s b)) (backward_post_visit_order s)"
    and adj: "\<And>n. n \<in> set (backward_post_visit_order s) \<Longrightarrow> pred (node_at s n) = adj n"
  shows "\<exists>t. compute_post_dominance_frontier s = Ok t \<and> frontiers_only s t \<and>
    (\<forall>n \<in> set (backward_post_visit_order s). set (post_dominance_frontier (node_at t n)) =
       frontier_of (ipdom s) adj (insert x (set (backward_post_visit_order s))) n) \<and>
    (\<forall>n. dominance_frontier (node_at t n) = dominance_frontier (node_at s n))"
proof -
  let ?N = "set (backward_post_visit_order s)" and ?f = "\<lambda>x. x\<lparr>post_dominance_frontier := []\<rparr>"
  let ?p = "fold (\<lambda>n. update_node n ?f) (backward_post_visit_order s) s" and ?ord = "\<lambda>n. backward_order (node_at s n)"
  have N: "?N \<subseteq> {..<length (nodes s)}" using L(1) by simp
  have p: "frontiers_only s ?p" "\<And>n. node_at ?p n = (if n \<in> ?N then ?f (node_at s n) else node_at s n)"
    by (rule clear_frontier [OF N]; simp add: fronts_def)+
  note eq = frontiers_only_eq [OF p(1)]
  have sp: "post_frontiers_only s ?p" using p by (simp add: post_frontiers_only_def)
  have card: "card (insert x ?N) < walk_fuel s" using card_mono [OF _ L(1)] by (simp add: walk_fuel_def)
  have "\<exists>q. fold_res (\<lambda>n p. fold_res (post_dominance_frontier_edge n) (pred (node_at p n)) p) (backward_post_visit_order s) ?p = Ok q \<and>
      post_frontiers_only ?p q \<and> (\<forall>n \<in> ?N. set (post_dominance_frontier (node_at q n)) = frontier_of (ipdom ?p) adj (insert x ?N) n)"
  proof (rule post_frontier.frontier_pass [of ?p ?ord adj "insert x ?N" x ?N ?p "{}" "backward_post_visit_order s"])
    show "frontier_graph (ipdom ?p) ?ord adj (insert x ?N) x" using g by (simp only: eq)
    show "post_dominates ?p d f = Ok (above (ipdom ?p) f d)" if "f \<in> insert x ?N" for d f
      unfolding eq(3,5) using built_query [OF b card that] by (simp add: post_dominates_def)
    show "pred (node_at ?p n) = adj n" if "n \<in> ?N" for n using adj [OF that] by (simp add: p(2))
    show "\<forall>n \<in> ?N. set (post_dominance_frontier (node_at ?p n)) =
        (if n \<in> {} then local_edges (ipdom ?p) n (adj n) else {}) \<union> handed_up (ipdom ?p) adj (insert x ?N) {} n"
      by (simp add: p(2) handed_up_none)
    show "post_frontiers_only ?p ?p" by (simp add: post_frontiers_only_def)
  qed (use L eq(1) in auto)
  then obtain q where q: "fold_res (\<lambda>n p. fold_res (post_dominance_frontier_edge n) (pred (node_at p n)) p) (backward_post_visit_order s) ?p = Ok q"
    "post_frontiers_only ?p q" "\<forall>n \<in> ?N. set (post_dominance_frontier (node_at q n)) = frontier_of (ipdom ?p) adj (insert x ?N) n"
    by blast
  have "post_frontiers_only s q" using sp q(2) frontiers_only_trans by (simp add: post_frontiers_only_def) blast
  then show ?thesis
    using q(1,3) unfolding compute_post_dominance_frontier_def recompute_frontier_fold eq(3) by (auto simp: post_frontiers_only_def)
qed

section \<open>The stages together\<close>

text \<open>A frontier, given what dominates what.\<close>

definition frontier_by :: "(nref \<Rightarrow> nref \<Rightarrow> bool) \<Rightarrow> (nref \<Rightarrow> nref list) \<Rightarrow> nref set \<Rightarrow> nref \<Rightarrow> nref set" where
  "frontier_by D adj A n = {c. \<exists>q \<in> A. c \<in> set (adj q) \<and> D n q \<and> \<not> (c \<noteq> n \<and> D n c)}"

text \<open>What a recomputed graph answers, on its listed nodes.\<close>

definition analysis_correct :: "CFGStructurizer \<Rightarrow> nref \<Rightarrow> bool" where
  "analysis_correct u e \<longleftrightarrow>
     (let A = set (order_of u); x = exit_block u in
      \<forall>n \<in> A.
        (\<forall>a. dominates u a n = Ok (path_dominates u e a n)) \<and>
        (\<forall>a. post_dominates u a n = Ok (path_post_dominates u x a n)) \<and>
        (\<forall>m \<in> A. query_reachability u n m = Ok ((n, m) \<in> (succ_rel u)\<^sup>*)) \<and>
        set (dominance_frontier (node_at u n)) = frontier_by (path_dominates u e) (\<lambda>q. succ (node_at u q)) A n \<and>
        set (post_dominance_frontier (node_at u n)) = frontier_by (path_post_dominates u x) (\<lambda>q. pred (node_at u q)) A n)"

lemma forward_correctD:
  assumes "forward_correct g t"
  shows "set (order_of t) = {n. (entry_block g, n) \<in> (succ_rel g)\<^sup>*}" "ranked t (entry_block g) (order_of t)" "numbered t"
    "\<forall>n \<in> set (order_of t). \<forall>m. m \<in> set (pred (node_at t n)) \<longleftrightarrow> m \<in> set (order_of t) \<and> n \<in> set (succ (node_at t m))"
    "\<forall>n h. succ_back_edge (node_at t n) = Some h \<longleftrightarrow> pred_back_edge (node_at t h) = Some n"
    "\<forall>n h. succ_back_edge (node_at t n) = Some h \<longrightarrow>
       n \<in> set (order_of t) \<and> h \<in> set (order_of t) \<and> h \<in> set (succ (node_at g n))"
    "built (idom t) (\<lambda>n. forward_order (node_at t n)) (\<lambda>n. pred (node_at t n)) (entry_block g) (set (order_of t))"
    "\<forall>n \<in> set (order_of t). \<forall>a. dominates t a n = Ok (path_dominates t (entry_block g) a n)"
    "\<forall>f \<in> set (order_of t). \<forall>m \<in> set (order_of t). query_reachability t f m = Ok ((f, m) \<in> (succ_rel t)\<^sup>*)"
    "forward_frame g t"
  using assms unfolding forward_correct_def by - (elim conjE, assumption)+

lemma forward_frontier_graph:
  assumes f: "forward_correct g t"
  shows "frontier_graph (idom t) (\<lambda>n. forward_order (node_at t n)) (\<lambda>n. succ (node_at t n)) (set (order_of t)) (entry_block g)"
proof (rule built_frontier_graph [OF forward_correctD(7) [OF f]])
  let ?A = "set (order_of t)"
  show "c \<in> ?A \<and> forward_order (node_at t c) < forward_order (node_at t n)" if "n \<in> ?A" "c \<in> set (succ (node_at t n))" for n c
    using forward_correctD(3) [OF f] that unfolding numbered_def by blast
  show "q \<in> set (pred (node_at t n)) \<longleftrightarrow> q \<in> ?A \<and> n \<in> set (succ (node_at t q))" if "n \<in> ?A" for n q
    using forward_correctD(4) [OF f] that by blast
  show "pred (node_at t n) \<noteq> []" if "n \<in> ?A" "n \<noteq> entry_block g" for n
    using forward_correctD(2) [OF f] that unfolding ranked_def by blast
qed

lemma forward_sorted:
  assumes "forward_correct g t"
  shows "sorted_wrt (\<lambda>a b. forward_order (node_at t a) < forward_order (node_at t b)) (order_of t)"
  using forward_correctD(2) [OF assms] by (auto simp: ranked_def sorted_wrt_iff_nth_less)

lemma post_frontier_graph:
  assumes b: "built (ipdom u) (\<lambda>n. backward_order (node_at u n)) (post_edges x u) x (insert x A)" and x: "x \<notin> A"
    and up: "\<And>n m. n \<in> A \<Longrightarrow> m \<in> set (succ (node_at u n)) \<Longrightarrow> m \<in> A \<and> backward_order (node_at u n) < backward_order (node_at u m)"
    and last: "\<And>n. n \<in> A \<Longrightarrow> backward_order (node_at u n) < backward_order (node_at u x)"
    and preds: "\<And>n m. n \<in> A \<Longrightarrow> m \<in> set (pred (node_at u n)) \<longleftrightarrow> m \<in> A \<and> n \<in> set (succ (node_at u m))"
    and fakes: "\<And>n. fake_succ (node_at u n) = []"
    and ls: "set ls = {n \<in> A. succ (node_at u n) = []}"
  shows "frontier_graph (ipdom u) (\<lambda>n. backward_order (node_at u n)) (\<lambda>n. if n = x then ls else pred (node_at u n)) (insert x A) x"
proof (rule built_frontier_graph [OF b])
  let ?adj = "\<lambda>n. if n = x then ls else pred (node_at u n)"
  have out: "out_edges u n = succ (node_at u n)" for n by (simp add: out_edges_def fakes)
  show "c \<in> insert x A \<and> backward_order (node_at u c) < backward_order (node_at u n)"
    if "n \<in> insert x A" "c \<in> set (?adj n)" for n c
    using that ls last preds [of n c] up [of c n] x by (auto split: if_splits)
  show "q \<in> set (post_edges x u n) \<longleftrightarrow> q \<in> insert x A \<and> n \<in> set (?adj q)" if n: "n \<in> insert x A" "n \<noteq> x" for n q
  proof -
    have nA: "n \<in> A" using n by simp
    show ?thesis
    proof (cases "q = x")
      case True
      then show ?thesis using ls nA up [OF nA, of x] x by (auto simp: post_edges_def out)
    next
      case False
      then show ?thesis using nA up [OF nA, of q] preds [of q n] by (auto simp: post_edges_def out)
    qed
  qed
  show "post_edges x u n \<noteq> []" for n by (simp add: post_edges_def)
qed

text \<open>What the backward half leaves when no edge had to be faked.\<close>

definition back_correct :: "CFGStructurizer \<Rightarrow> nref \<Rightarrow> CFGStructurizer \<Rightarrow> bool" where
  "back_correct t x u \<longleftrightarrow>
     (let A = set (order_of t) in
      backward_frame t u \<and> set (backward_post_visit_order u) = A \<and>
      sorted_wrt (\<lambda>a b. backward_order (node_at u a) < backward_order (node_at u b)) (backward_post_visit_order u @ [x]) \<and>
      (\<forall>n \<in> A. \<forall>m \<in> set (succ (node_at u n)). backward_order (node_at u n) < backward_order (node_at u m)) \<and>
      (\<forall>n. fake_succ (node_at u n) = []) \<and>
      built (ipdom u) (\<lambda>n. backward_order (node_at u n)) (post_edges x u) x (insert x A) \<and>
      (\<forall>n \<in> A. \<forall>a. post_dominates u a n = Ok (path_post_dominates u x a n)))"

lemma back_correctD:
  assumes "back_correct t x u"
  shows "backward_frame t u" "set (backward_post_visit_order u) = set (order_of t)"
    "sorted_wrt (\<lambda>a b. backward_order (node_at u a) < backward_order (node_at u b)) (backward_post_visit_order u @ [x])"
    "\<forall>n \<in> set (order_of t). \<forall>m \<in> set (succ (node_at u n)). backward_order (node_at u n) < backward_order (node_at u m)"
    "\<forall>n. fake_succ (node_at u n) = []"
    "built (ipdom u) (\<lambda>n. backward_order (node_at u n)) (post_edges x u) x (insert x (set (order_of t)))"
    "\<forall>n \<in> set (order_of t). \<forall>a. post_dominates u a n = Ok (path_post_dominates u x a n)"
  using assms unfolding back_correct_def Let_def by - (elim conjE, assumption)+

lemma backward_half:
  assumes f: "forward_correct (reset_traversal s) t" and small: "length (nodes s) \<le> 2 ^ 18"
    and exit: "exit_block s < length (nodes s)" "(entry_block s, exit_block s) \<notin> (succ_rel (reset_traversal s))\<^sup>*"
    and loops: "\<And>n. succ_back_edge (node_at t n) \<noteq> None \<Longrightarrow> succ (node_at t n) \<noteq> []"
  shows "\<exists>u. bind_res (backwards_visit t) build_immediate_post_dominators = Ok u \<and> back_correct t (exit_block s) u"
proof -
  let ?g = "reset_traversal s" and ?A = "set (order_of t)" and ?x = "exit_block s"
  note F = forward_correctD [OF f]
  have g0: "\<And>n. fake_succ (node_at ?g n) = [] \<and> fake_pred (node_at ?g n) = [] \<and> \<not> backward_visited (node_at ?g n)"
    by (simp add: reset_traversal_node)
  have fakes: "fake_succ (node_at t n) = []" for n
    using F(10) g0 [of n] kept_fields(1) [of "node_at t n" "node_at ?g n"] by (auto simp: forward_frame_def)
  have tf: "exit_block t = ?x" "backward_post_visit_order t = []"
    using F(10) by (simp_all add: forward_frame_def)
  have A: "?A \<subseteq> {..<length (nodes t)}" using F(2) by (auto simp: ranked_def)
  let ?s = "first_clear t" and ?ls = "backwards_leaves t"
  have bg: "back_graph ?s ?A ?ls"
    by (rule forward_back_graph [OF f g0]) (use small exit loops in simp_all)
  have fr: "backward_frame t ?s" by (rule frame_clear) simp
  have ord: "backward_post_visit_order ?s = []"
    using clear_backwards_at(5) [OF A, of "\<lambda>x. x\<lparr>backward_visited := False, traversing := False\<rparr>"] tf(2) by simp
  have direct: "bind_res (backwards_visit t) build_immediate_post_dominators = post_pass ?ls ?s"
    by (rule backwards_visit_direct [OF bg A]) (use F(5,6) in blast)
  note feq = backward_frame_eq [OF fr]
  obtain u xs where u: "post_pass ?ls ?s = Ok u" "backward_frame ?s u" "set xs = ?A" "backward_post_visit_order u = xs"
    "sorted_wrt (\<lambda>a b. backward_order (node_at u a) < backward_order (node_at u b)) (xs @ [?x])"
    "\<forall>n \<in> ?A. \<forall>m \<in> set (out_edges ?s n). backward_order (node_at u n) < backward_order (node_at u m)"
    "built (ipdom u) (\<lambda>n. backward_order (node_at u n)) (post_edges ?x u) ?x (insert ?x ?A)"
    "\<forall>n \<in> insert ?x ?A. \<forall>a. post_dominates u a n = Ok (path_post_dominates ?s ?x a n)"
    using post_pass_ok [OF bg] ord feq(9) tf(1) by auto
  have fu: "backward_frame t u" using fr u(2) by (rule backward_frame_trans)
  have fake: "fake_succ (node_at u n) = []" for n
    using fu fakes [of n] back_kept_fields(3) [of "node_at u n" "node_at t n"] by (auto simp: backward_frame_def)
  have "post_edges ?x u = post_edges ?x ?s"
    by (simp add: post_edges_def fun_eq_iff backward_frame_eq(6) [OF u(2)])
  then have ppd: "path_post_dominates u ?x = path_post_dominates ?s ?x"
    by (intro ext) (simp only: path_post_dominates_def)
  have "back_correct t ?x u"
    unfolding back_correct_def Let_def ppd u(4)
  proof (intro conjI)
    show "\<forall>n \<in> ?A. \<forall>m \<in> set (succ (node_at u n)). backward_order (node_at u n) < backward_order (node_at u m)"
      using u(6) by (simp add: out_edges_def backward_frame_eq(4) [OF u(2)])
    show "\<forall>n \<in> ?A. \<forall>a. post_dominates u a n = Ok (path_post_dominates ?s ?x a n)" using u(8) by simp
  qed (use fu u(3,5,7) fake in simp_all)
  then show ?thesis using direct u(1) by simp
qed

text \<open>Both frontiers from a state whose dominator links are right.\<close>

lemma frontier_half:
  assumes f: "forward_correct g t" and b: "back_correct t x u" and x: "x < length (nodes t)" "x \<notin> set (order_of t)"
  shows "\<exists>v. bind_res (compute_dominance_frontier u) compute_post_dominance_frontier = Ok v \<and> frontiers_only u v \<and>
    (\<forall>n \<in> set (order_of t). set (dominance_frontier (node_at v n)) =
       frontier_by (path_dominates u (entry_block g)) (\<lambda>q. succ (node_at u q)) (set (order_of t)) n \<and>
     set (post_dominance_frontier (node_at v n)) =
       frontier_by (path_post_dominates u x) (\<lambda>q. pred (node_at u q)) (set (order_of t)) n)"
proof -
  let ?A = "set (order_of t)" and ?e = "entry_block g"
  note F = forward_correctD [OF f] and B = back_correctD [OF b]
  note e1 = backward_frame_eq [OF B(1)]
  have A: "?A \<subseteq> {..<length (nodes t)}" using F(2) by (auto simp: ranked_def)
  have g1: "frontier_graph (idom u) (\<lambda>n. forward_order (node_at u n)) (\<lambda>n. succ (node_at u n)) (set (order_of u)) ?e"
    using forward_frontier_graph [OF f] by (simp add: e1)
  have b1: "built (idom u) (\<lambda>n. forward_order (node_at u n)) (\<lambda>n. pred (node_at u n)) ?e (set (order_of u))"
    using F(7) by (simp add: e1)
  obtain u2 where u2: "compute_dominance_frontier u = Ok u2" "frontiers_only u u2"
    "\<forall>n \<in> ?A. set (dominance_frontier (node_at u2 n)) = frontier_of (idom u) (\<lambda>n. succ (node_at u n)) ?A n"
    using compute_dominance_frontier_ok [OF g1 b1] A forward_sorted [OF f] by (auto simp: e1)
  note e2 = frontiers_only_eq [OF u2(2)]
  have at2: "pred (node_at u2 n) = pred (node_at u n)" "backward_order (node_at u2 n) = backward_order (node_at u n)" for n
    using e2(7,10) by meson+
  let ?ls = "filter (\<lambda>n. succ (node_at u n) = []) (order_of t)"
  let ?adj = "\<lambda>n. if n = x then ?ls else pred (node_at u n)"
  have gp: "frontier_graph (ipdom u) (\<lambda>n. backward_order (node_at u n)) ?adj (insert x ?A) x"
  proof (rule post_frontier_graph [OF B(6) x(2)])
    show "m \<in> ?A \<and> backward_order (node_at u n) < backward_order (node_at u m)"
      if "n \<in> ?A" "m \<in> set (succ (node_at u n))" for n m
      using F(3) B(4) that unfolding numbered_def e1 by auto
    show "backward_order (node_at u n) < backward_order (node_at u x)" if "n \<in> ?A" for n
      using B(2,3) that by (auto simp: sorted_wrt_append)
    show "m \<in> set (pred (node_at u n)) \<longleftrightarrow> m \<in> ?A \<and> n \<in> set (succ (node_at u m))" if "n \<in> ?A" for n m
      using F(4) that by (simp add: e1)
  qed (use B(5) in auto)
  have adj: "pred (node_at u2 n) = ?adj n" if "n \<in> ?A" for n using that x(2) at2(1) by auto
  have "\<exists>t. compute_post_dominance_frontier u2 = Ok t \<and> frontiers_only u2 t \<and>
      (\<forall>n \<in> ?A. set (post_dominance_frontier (node_at t n)) = frontier_of (ipdom u) ?adj (insert x ?A) n) \<and>
      (\<forall>n. dominance_frontier (node_at t n) = dominance_frontier (node_at u2 n))"
    using compute_post_dominance_frontier_ok [of u2 ?adj x "post_edges x u", unfolded e2(1,3,12) at2(2) B(2) e1(1)]
      gp B(3,6) A x(1) adj by (simp add: sorted_wrt_append)
  then obtain v where v: "compute_post_dominance_frontier u2 = Ok v" "frontiers_only u2 v"
    "\<forall>n \<in> ?A. set (post_dominance_frontier (node_at v n)) = frontier_of (ipdom u) ?adj (insert x ?A) n"
    "\<forall>n. dominance_frontier (node_at v n) = dominance_frontier (node_at u2 n)" by blast
  have "set (dominance_frontier (node_at v n)) = frontier_by (path_dominates u ?e) (\<lambda>q. succ (node_at u q)) ?A n"
    "set (post_dominance_frontier (node_at v n)) = frontier_by (path_post_dominates u x) (\<lambda>q. pred (node_at u q)) ?A n"
    if n: "n \<in> ?A" for n
  proof -
    show "set (dominance_frontier (node_at v n)) = frontier_by (path_dominates u ?e) (\<lambda>q. succ (node_at u q)) ?A n"
      using u2(3) v(4) n frontier_of_built [OF b1 g1, of n] unfolding frontier_by_def path_dominates_def e1(8) by simp
    have nx: "n \<noteq> x" using n x(2) by auto
    have "set (post_dominance_frontier (node_at v n)) = frontier_of (ipdom u) ?adj (insert x ?A) n"
      using v(3) n by simp
    also have "\<dots> = {c. \<exists>q \<in> insert x ?A. c \<in> set (?adj q) \<and> on_all_paths (post_edges x u) x n q \<and>
        \<not> (c \<noteq> n \<and> on_all_paths (post_edges x u) x n c)}"
      by (rule frontier_of_built [OF B(6) gp]) (use n in simp)
    also have "\<dots> = {c. \<exists>q \<in> ?A. c \<in> set (?adj q) \<and> on_all_paths (post_edges x u) x n q \<and>
        \<not> (c \<noteq> n \<and> on_all_paths (post_edges x u) x n c)}"
      using nx by (auto simp: on_all_paths_start)
    also have "\<dots> = frontier_by (path_post_dominates u x) (\<lambda>q. pred (node_at u q)) ?A n"
      unfolding frontier_by_def path_post_dominates_def
      by (intro Collect_cong bex_cong refl) (use x(2) in auto)
    finally show "set (post_dominance_frontier (node_at v n)) = frontier_by (path_post_dominates u x) (\<lambda>q. pred (node_at u q)) ?A n" .
  qed
  then show ?thesis using u2(1) v(1) frontiers_only_trans [OF u2(2) v(2)] by auto
qed

lemma recompute_cfg_ok:
  assumes g: "edges_ok (reset_traversal s)" "entry_block s < length (nodes s)" "length (nodes s) \<le> 2 ^ 18"
    and exit: "exit_block s < length (nodes s)" "(entry_block s, exit_block s) \<notin> (succ_rel (reset_traversal s))\<^sup>*"
    and t: "analyze_forward s = Ok t"
    and loops: "\<And>n. succ_back_edge (node_at t n) \<noteq> None \<Longrightarrow> succ (node_at t n) \<noteq> []"
  shows "\<exists>u. recompute_cfg s = Ok u \<and> order_of u = order_of t \<and> (\<forall>n. succ (node_at u n) = succ (node_at t n)) \<and>
    analysis_correct u (entry_block s)"
proof -
  let ?A = "set (order_of t)" and ?e = "entry_block s" and ?x = "exit_block s"
  have f: "forward_correct (reset_traversal s) t" using analyze_forward_ok [OF g] t by simp
  note F = forward_correctD [OF f]
  obtain u where u: "bind_res (backwards_visit t) build_immediate_post_dominators = Ok u" "back_correct t ?x u"
    using backward_half [OF f g(3) exit loops] by blast
  note B = back_correctD [OF u(2)] and e1 = backward_frame_eq [OF back_correctD(1) [OF u(2)]]
  have x: "?x < length (nodes t)" "?x \<notin> ?A" "exit_block t = ?x"
    using exit F(1,10) by (simp_all add: forward_frame_def)
  obtain v where v: "bind_res (compute_dominance_frontier u) compute_post_dominance_frontier = Ok v" "frontiers_only u v"
    "\<forall>n \<in> ?A. set (dominance_frontier (node_at v n)) = frontier_by (path_dominates u ?e) (\<lambda>q. succ (node_at u q)) ?A n \<and>
      set (post_dominance_frontier (node_at v n)) = frontier_by (path_post_dominates u ?x) (\<lambda>q. pred (node_at u q)) ?A n"
    using frontier_half [OF f u(2) x(1,2)] by auto
  have run: "recompute_cfg s = Ok v"
    using u(1) v(1) by (simp add: recompute_cfg_def t bind_res_assoc [symmetric])
  note e3 = frontiers_only_eq [OF v(2)]
  have nodes: "succ (node_at v n) = succ (node_at t n)" "pred (node_at v n) = pred (node_at t n)" for n
    using fun_cong [OF e3(6), of n] fun_cong [OF e3(7), of n] e1(4,5) [of n] by simp_all
  have order: "order_of v = order_of t" "exit_block v = ?x" using e1(8,9) e3(11,13) x(3) by simp_all
  have pd: "path_dominates v ?e = path_dominates t ?e" "path_dominates u ?e = path_dominates t ?e"
    by (simp_all add: path_dominates_def fun_eq_iff nodes e1)
  have ppd: "path_post_dominates v ?x = path_post_dominates u ?x"
    by (intro ext) (simp only: path_post_dominates_def e3(8))
  have "analysis_correct v ?e"
    unfolding analysis_correct_def order Let_def pd(1) ppd
  proof (intro ballI conjI allI)
    fix n assume n: "n \<in> ?A"
    show "dominates v a n = Ok (path_dominates t ?e a n)" for a using F(8) n unfolding e3(4) e1(3) by simp
    show "post_dominates v a n = Ok (path_post_dominates u ?x a n)" for a using B(7) n unfolding e3(5) by simp
    show "query_reachability v n m = Ok ((n, m) \<in> (succ_rel v)\<^sup>*)" if "m \<in> ?A" for m
      using F(9) n that unfolding e3(14) e1(10) succ_rel_def nodes by blast
    show "set (dominance_frontier (node_at v n)) = frontier_by (path_dominates t ?e) (\<lambda>q. succ (node_at v q)) ?A n"
      "set (post_dominance_frontier (node_at v n)) = frontier_by (path_post_dominates u ?x) (\<lambda>q. pred (node_at v q)) ?A n"
      using v(3) n by (simp_all add: pd(2) nodes e1)
  qed
  then show ?thesis using run order nodes(1) by blast
qed

end
