(* ===== verification/Cfg_Edges.thy ===== *)
theory Cfg_Edges
  imports Cfg_Visit
begin

text \<open>
  The operations on edges keep the successor and predecessor lists of the whole pool in
  agreement and change the edge relation by exactly the edge they are called for.
\<close>

section \<open>Agreement of the edge lists\<close>

lemma edges_okD:
  assumes "edges_ok p" and "n < length (nodes p)"
  shows "distinct (succ (node_at p n))" "distinct (pred (node_at p n))"
    "m \<in> set (succ (node_at p n)) \<Longrightarrow> m < length (nodes p)" "m \<in> set (pred (node_at p n)) \<Longrightarrow> m < length (nodes p)"
    "m < length (nodes p) \<Longrightarrow> m \<in> set (succ (node_at p n)) \<longleftrightarrow> n \<in> set (pred (node_at p m))"
  using assms unfolding edges_ok_def by blast+

lemma edges_okI:
  assumes "\<And>n. n < length (nodes p) \<Longrightarrow> distinct (succ (node_at p n))"
    and "\<And>n. n < length (nodes p) \<Longrightarrow> distinct (pred (node_at p n))"
    and "\<And>n m. n < length (nodes p) \<Longrightarrow> m \<in> set (succ (node_at p n)) \<Longrightarrow> m < length (nodes p)"
    and "\<And>n m. n < length (nodes p) \<Longrightarrow> m \<in> set (pred (node_at p n)) \<Longrightarrow> m < length (nodes p)"
    and "\<And>n m. n < length (nodes p) \<Longrightarrow> m < length (nodes p) \<Longrightarrow>
      m \<in> set (succ (node_at p n)) \<longleftrightarrow> n \<in> set (pred (node_at p m))"
  shows "edges_ok p"
  unfolding edges_ok_def
proof (intro allI impI conjI ballI)
  fix n m assume n: "n < length (nodes p)"
  show "distinct (succ (node_at p n))" "distinct (pred (node_at p n))" using assms(1,2) n by simp_all
  show "m < length (nodes p)" if "m \<in> set (succ (node_at p n)) \<union> set (pred (node_at p n))" using that assms(3,4) [OF n] by auto
  show "m \<in> set (succ (node_at p n)) \<longleftrightarrow> n \<in> set (pred (node_at p m))" if "m < length (nodes p)" by (rule assms(5) [OF n that])
qed

lemma succ_rel_iff: "(a, b) \<in> succ_rel p \<longleftrightarrow> b \<in> set (succ (node_at p a))"
  by (simp add: succ_rel_def)

lemma beyond_no_edges [simp]:
  "\<not> n < length (nodes p) \<Longrightarrow> succ (node_at p n) = []" "\<not> n < length (nodes p) \<Longrightarrow> pred (node_at p n) = []"
  by (simp_all add: node_at_def CFGNode_new_def)

text \<open>The lists of a pool given by their changes.\<close>

lemma edges_ok_change:
  assumes p: "edges_ok p" and len: "length (nodes q) = length (nodes p)"
    and S: "\<And>n. n < length (nodes p) \<Longrightarrow> distinct (succ (node_at q n)) \<and> set (succ (node_at q n)) \<subseteq> {..<length (nodes p)}"
    and P: "\<And>n. n < length (nodes p) \<Longrightarrow> distinct (pred (node_at q n))"
    and agree: "\<And>n m. n < length (nodes p) \<Longrightarrow> n \<in> set (pred (node_at q m)) \<longleftrightarrow> m \<in> set (succ (node_at q n))"
    and low: "\<And>n m. m < length (nodes p) \<Longrightarrow> n \<in> set (pred (node_at q m)) \<Longrightarrow> n < length (nodes p)"
  shows "edges_ok q"
proof (rule edges_okI; unfold len)
  fix n m assume n: "n < length (nodes p)"
  show "distinct (succ (node_at q n))" using S [OF n] by simp
  show "distinct (pred (node_at q n))" by (rule P [OF n])
  show "m < length (nodes p)" if "m \<in> set (succ (node_at q n))" using S [OF n] that by auto
  show "m < length (nodes p)" if "m \<in> set (pred (node_at q n))" using low [OF n that] .
  show "m \<in> set (succ (node_at q n)) \<longleftrightarrow> n \<in> set (pred (node_at q m))" using agree [OF n] by simp
qed

section \<open>Adding and clearing branches\<close>

lemma add_branch_edges:
  assumes p: "edges_ok p" and n: "this < length (nodes p)" "to < length (nodes p)" and new: "to \<notin> set (fake_succ (node_at p this))"
  shows "\<exists>q. add_branch this to p = Ok q \<and> edges_ok q \<and> length (nodes q) = length (nodes p) \<and>
    succ_rel q = insert (this, to) (succ_rel p)"
proof -
  let ?q = "add_unique_pred to this (update_node this (\<lambda>x. x\<lparr>succ := push_unique (succ x) to\<rparr>) p)"
  have run: "add_branch this to p = Ok ?q" using new by (simp add: add_branch_def add_unique_succ_def)
  have at: "succ (node_at ?q n) = (if n = this then push_unique (succ (node_at p n)) to else succ (node_at p n))"
    "pred (node_at ?q n) = (if n = to then push_unique (pred (node_at p n)) this else pred (node_at p n))" for n
    using n by (simp_all add: add_unique_pred_def node_at_update)
  have len: "length (nodes ?q) = length (nodes p)" by (simp add: add_unique_pred_def)
  have "edges_ok ?q"
  proof (rule edges_ok_change [OF p len])
    fix k m assume k: "k < length (nodes p)"
    show "distinct (succ (node_at ?q k)) \<and> set (succ (node_at ?q k)) \<subseteq> {..<length (nodes p)}" "distinct (pred (node_at ?q k))"
      using edges_okD(1,2,3) [OF p k] n by (auto simp: at)
    show "k \<in> set (pred (node_at ?q m)) \<longleftrightarrow> m \<in> set (succ (node_at ?q k))"
      using edges_okD(5) [OF p k, of m] edges_okD(3) [OF p k, of m] n by (cases "m < length (nodes p)") (auto simp: at)
  next
    fix k m assume "m < length (nodes p)" "k \<in> set (pred (node_at ?q m))"
    then show "k < length (nodes p)" using edges_okD(4) [OF p, of m k] n by (auto simp: at split: if_splits)
  qed
  moreover have "succ_rel ?q = insert (this, to) (succ_rel p)"
    by (auto simp: succ_rel_def at split: if_splits)
  ultimately show ?thesis using run len by blast
qed

lemma remove_pred_fold:
  assumes "distinct ns"
  shows "length (nodes (fold (remove_pred this) ns p)) = length (nodes p)"
    "succ (node_at (fold (remove_pred this) ns p) n) = succ (node_at p n)"
    "pred (node_at (fold (remove_pred this) ns p) n) =
       (if n \<in> set ns then remove1 this (pred (node_at p n)) else pred (node_at p n))"
  using assms by (induction ns arbitrary: p) (auto simp: remove_pred_def node_at_update)

lemma clear_branches_edges:
  assumes p: "edges_ok p" and n: "this < length (nodes p)"
  shows "edges_ok (clear_branches this p)" "length (nodes (clear_branches this p)) = length (nodes p)"
    "succ_rel (clear_branches this p) = succ_rel p - {this} \<times> UNIV"
proof -
  let ?q = "clear_branches this p"
  note fold = remove_pred_fold [OF edges_okD(1) [OF p n], of this p]
  show len: "length (nodes ?q) = length (nodes p)" by (simp add: clear_branches_def fold)
  have at: "succ (node_at ?q n) = (if n = this then [] else succ (node_at p n))"
    "pred (node_at ?q n) = (if n \<in> set (succ (node_at p this)) then remove1 this (pred (node_at p n)) else pred (node_at p n))" for n
    using n by (auto simp: clear_branches_def node_at_update fold)
  show "edges_ok ?q"
  proof (rule edges_ok_change [OF p len])
    fix k m assume k: "k < length (nodes p)"
    show "k \<in> set (pred (node_at ?q m)) \<longleftrightarrow> m \<in> set (succ (node_at ?q k))"
      using edges_okD(3,5) [OF p k, of m] edges_okD(5) [OF p n, of m] edges_okD(2) [OF p, of m]
      by (cases "m < length (nodes p)") (auto simp: at)
    show "distinct (succ (node_at ?q k)) \<and> set (succ (node_at ?q k)) \<subseteq> {..<length (nodes p)}" "distinct (pred (node_at ?q k))"
      using edges_okD(1,2,3) [OF p k] by (auto simp: at distinct_remove1)
  next
    fix k m assume "m < length (nodes p)" "k \<in> set (pred (node_at ?q m))"
    then show "k < length (nodes p)" using edges_okD(4) [OF p, of m k]
      by (auto simp: at split: if_splits dest: notin_set_remove1)
  qed
  show "succ_rel ?q = succ_rel p - {this} \<times> UNIV"
    by (auto simp: succ_rel_def at split: if_splits)
qed

section \<open>Retargeting a branch\<close>

lemma retarget_pre_traversal_edges:
  assumes p: "edges_ok p" and n: "this < length (nodes p)" "to_next < length (nodes p)"
    and edge: "to_prev \<in> set (succ (node_at p this))" "to_next \<notin> set (succ (node_at p this))"
    and live: "(\<exists>q \<in> set (pred (node_at p to_prev)). q \<noteq> this) \<or> pred_back_edge (node_at p to_prev) \<noteq> None \<or>
      to_next \<notin> set (succ (node_at p to_prev))"
  shows "\<exists>q. retarget_branch_pre_traversal this to_prev to_next p = Ok q \<and> edges_ok q \<and>
    length (nodes q) = length (nodes p) \<and>
    succ_rel q = insert (this, to_next) (succ_rel p - {(this, to_prev)}) \<and>
    terminator (ir (node_at q this)) = retarget_terminator to_prev to_next (terminator (ir (node_at p this)))"
proof -
  note D = edges_okD [OF p n(1)]
  have prev: "to_prev < length (nodes p)" "this \<in> set (pred (node_at p to_prev))" using D(3,5) edge(1) by blast+
  have next': "this \<notin> set (pred (node_at p to_next))" "to_next \<noteq> to_prev" using D(5) n(2) edge by blast+
  note Dp = edges_okD [OF p prev(1)] and Dn = edges_okD [OF p n(2)]
  let ?p1 = "update_node this (\<lambda>x. x\<lparr>succ := replace1 to_prev to_next (succ x)\<rparr>) (remove_pred this to_prev p)"
  let ?p2 = "add_unique_pred to_next this ?p1"
  let ?q = "update_node this (\<lambda>x. x\<lparr>ir := (ir x)\<lparr>terminator := retarget_terminator to_prev to_next (terminator (ir x))\<rparr>\<rparr>) ?p2"
  have p1: "pred (node_at ?p1 k) = (if k = to_prev then remove1 this (pred (node_at p k)) else pred (node_at p k))"
    "succ (node_at ?p1 k) = (if k = this then replace1 to_prev to_next (succ (node_at p k)) else succ (node_at p k))"
    "pred_back_edge (node_at ?p1 k) = pred_back_edge (node_at p k)" "ir (node_at ?p1 k) = ir (node_at p k)" for k
    using n prev by (auto simp: remove_pred_def node_at_update)
  have no_swap: "\<not> (pred (node_at ?p1 to_prev) = [] \<and> pred_back_edge (node_at ?p1 to_prev) = None \<and>
      to_prev \<in> set (pred (node_at ?p1 to_next)))"
  proof -
    have "pred (node_at ?p1 to_prev) \<noteq> []" if "q \<in> set (pred (node_at p to_prev))" "q \<noteq> this" for q
    proof -
      have "q \<in> set (remove1 this (pred (node_at p to_prev)))" using that by simp
      then show ?thesis by (auto simp: p1)
    qed
    then show ?thesis using live Dp(5) n(2) next'(2) by (auto simp: p1)
  qed
  have run: "retarget_branch_pre_traversal this to_prev to_next p = Ok ?q"
    unfolding retarget_branch_pre_traversal_def Let_def if_not_P [OF no_swap] using edge prev next' by simp
  have at: "succ (node_at ?q k) = (if k = this then replace1 to_prev to_next (succ (node_at p k)) else succ (node_at p k))"
    "pred (node_at ?q k) = (if k = to_prev then remove1 this (pred (node_at p k))
       else if k = to_next then push_unique (pred (node_at p k)) this else pred (node_at p k))" for k
    using n next' p1 [of k] by (auto simp: node_at_update add_unique_pred_def remove_pred_def)
  have len: "length (nodes ?q) = length (nodes p)" by (simp add: add_unique_pred_def remove_pred_def)
  have succ': "set (succ (node_at ?q this)) = insert to_next (set (succ (node_at p this)) - {to_prev})"
    using set_replace1 [OF D(1) edge(1)] by (simp add: at)
  have "edges_ok ?q"
  proof (rule edges_ok_change [OF p len])
    fix k assume k: "k < length (nodes p)"
    note Dk = edges_okD [OF p k]
    show "distinct (succ (node_at ?q k)) \<and> set (succ (node_at ?q k)) \<subseteq> {..<length (nodes p)}"
      using Dk(1,3) distinct_replace1 [OF D(1) edge(2)] succ' n(2) by (cases "k = this") (auto simp: at)
    show "distinct (pred (node_at ?q k))" using Dk(2) by (auto simp: at)
    fix m
    show "k \<in> set (pred (node_at ?q m)) \<longleftrightarrow> m \<in> set (succ (node_at ?q k))"
    proof (cases "m < length (nodes p)")
      case m: True
      have rem: "k \<in> set (remove1 this (pred (node_at p to_prev))) \<longleftrightarrow> k \<in> set (pred (node_at p to_prev)) \<and> k \<noteq> this"
        using Dp(2) by simp
      show ?thesis
      proof (cases "k = this")
        case True
        have old: "m \<in> set (succ (node_at p this)) \<longleftrightarrow> this \<in> set (pred (node_at p m))" by (rule D(5) [OF m])
        show ?thesis unfolding True succ' using old rem next' True by (simp add: at)
      next
        case False
        have old: "m \<in> set (succ (node_at p k)) \<longleftrightarrow> k \<in> set (pred (node_at p m))" by (rule Dk(5) [OF m])
        then show ?thesis using False rem by (simp add: at)
      qed
    next
      case False
      then show ?thesis using Dk(3) [of m] succ' D(3) [of m] n prev by (cases "k = this") (auto simp: at)
    qed
  next
    fix k m assume "m < length (nodes p)" "k \<in> set (pred (node_at ?q m))"
    then show "k < length (nodes p)" using edges_okD(4) [OF p, of m k] n(1)
      by (auto simp: at split: if_splits dest: notin_set_remove1)
  qed
  moreover have "succ_rel ?q = insert (this, to_next) (succ_rel p - {(this, to_prev)})"
  proof (rule set_eqI)
    fix x :: "nref \<times> nref"
    obtain a b where x: "x = (a, b)" by (cases x)
    show "x \<in> succ_rel ?q \<longleftrightarrow> x \<in> insert (this, to_next) (succ_rel p - {(this, to_prev)})"
    proof (cases "a = this")
      case True
      show ?thesis unfolding x True succ_rel_iff succ' by (simp add: succ_rel_iff)
    qed (simp add: x succ_rel_iff at)
  qed
  moreover have "terminator (ir (node_at ?q this)) = retarget_terminator to_prev to_next (terminator (ir (node_at p this)))"
    using n p1(4) [of this] by (simp add: node_at_update add_unique_pred_def remove_pred_def)
  ultimately show ?thesis using run len by blast
qed

text \<open>
  The old target is left without a way in and has an edge to the new one: its entry in the new
  target's predecessors is replaced in place, while its own successors stay.
\<close>

definition strands :: "'a CFGNodePool_scheme \<Rightarrow> nref \<Rightarrow> nref \<Rightarrow> nref \<Rightarrow> bool" where
  "strands p this to_prev to_next \<longleftrightarrow>
     set (pred (node_at p to_prev)) \<subseteq> {this} \<and> pred_back_edge (node_at p to_prev) = None \<and> to_next \<in> set (succ (node_at p to_prev))"

definition pred_edges :: "'a CFGNodePool_scheme \<Rightarrow> (nref \<times> nref) set" where
  "pred_edges p = {(a, b). a \<in> set (pred (node_at p b))}"

lemma pred_edges_succ_rel:
  assumes "edges_ok p"
  shows "pred_edges p = succ_rel p"
proof -
  have "a \<in> set (pred (node_at p b)) \<longleftrightarrow> b \<in> set (succ (node_at p a))" for a b
  proof (cases "a < length (nodes p) \<and> b < length (nodes p)")
    case True
    then show ?thesis using edges_okD(5) [OF assms, of a b] by simp
  next
    case False
    then show ?thesis using edges_okD(3) [OF assms, of a b] edges_okD(4) [OF assms, of b a]
      by (cases "a < length (nodes p)"; cases "b < length (nodes p)") auto
  qed
  then show ?thesis by (auto simp: pred_edges_def succ_rel_def)
qed

lemma retarget_pre_traversal_strands:
  assumes p: "edges_ok p" and n: "this < length (nodes p)" "to_next < length (nodes p)"
    and edge: "to_prev \<in> set (succ (node_at p this))" "to_next \<notin> set (succ (node_at p this))"
    and dead: "strands p this to_prev to_next"
  shows "\<exists>q. retarget_branch_pre_traversal this to_prev to_next p = Ok q \<and>
    length (nodes q) = length (nodes p) \<and>
    succ_rel q = insert (this, to_next) (succ_rel p - {(this, to_prev)}) \<and>
    pred_edges q = insert (this, to_next) (succ_rel p - {(this, to_prev), (to_prev, to_next)}) \<and>
    terminator (ir (node_at q this)) = retarget_terminator to_prev to_next (terminator (ir (node_at p this)))"
proof -
  note D = edges_okD [OF p n(1)]
  have prev: "to_prev < length (nodes p)" "this \<in> set (pred (node_at p to_prev))" using D(3,5) edge(1) by blast+
  have next': "this \<notin> set (pred (node_at p to_next))" "to_next \<noteq> to_prev" using D(5) n(2) edge by blast+
  note Dp = edges_okD [OF p prev(1)] and Dn = edges_okD [OF p n(2)]
  have into: "to_prev \<in> set (pred (node_at p to_next))" using dead Dp(5) [OF n(2)] by (simp add: strands_def)
  let ?p1 = "update_node this (\<lambda>x. x\<lparr>succ := replace1 to_prev to_next (succ x)\<rparr>) (remove_pred this to_prev p)"
  let ?p2 = "update_node to_next (\<lambda>x. x\<lparr>pred := replace1 to_prev this (pred x)\<rparr>) ?p1"
  let ?q = "update_node this (\<lambda>x. x\<lparr>ir := (ir x)\<lparr>terminator := retarget_terminator to_prev to_next (terminator (ir x))\<rparr>\<rparr>) ?p2"
  have p1: "pred (node_at ?p1 k) = (if k = to_prev then remove1 this (pred (node_at p k)) else pred (node_at p k))"
    "succ (node_at ?p1 k) = (if k = this then replace1 to_prev to_next (succ (node_at p k)) else succ (node_at p k))"
    "pred_back_edge (node_at ?p1 k) = pred_back_edge (node_at p k)" "ir (node_at ?p1 k) = ir (node_at p k)" for k
    using n prev by (auto simp: remove_pred_def node_at_update)
  have "set (remove1 this (pred (node_at p to_prev))) = {}"
    using Dp(2) dead by (auto simp: strands_def)
  then have empty: "remove1 this (pred (node_at p to_prev)) = []" by simp
  have swap: "pred (node_at ?p1 to_prev) = [] \<and> pred_back_edge (node_at ?p1 to_prev) = None \<and>
      to_prev \<in> set (pred (node_at ?p1 to_next))"
    using dead empty into next'(2) by (simp add: p1 strands_def)
  have run: "retarget_branch_pre_traversal this to_prev to_next p = Ok ?q"
    unfolding retarget_branch_pre_traversal_def Let_def if_P [OF swap] using edge prev next' by simp
  have at: "succ (node_at ?q k) = (if k = this then replace1 to_prev to_next (succ (node_at p k)) else succ (node_at p k))"
    "pred (node_at ?q k) = (if k = to_prev then [] else if k = to_next then replace1 to_prev this (pred (node_at p k))
       else pred (node_at p k))" for k
    using n next' p1 [of k] empty by (auto simp: node_at_update remove_pred_def)
  have succ': "set (succ (node_at ?q this)) = insert to_next (set (succ (node_at p this)) - {to_prev})"
    using set_replace1 [OF D(1) edge(1)] by (simp add: at)
  have pred': "set (pred (node_at ?q to_next)) = insert this (set (pred (node_at p to_next)) - {to_prev})"
    using set_replace1 [OF Dn(2) into] next'(2) by (simp add: at)
  have S: "succ_rel ?q = insert (this, to_next) (succ_rel p - {(this, to_prev)})"
  proof (rule set_eqI)
    fix x :: "nref \<times> nref"
    obtain a b where x: "x = (a, b)" by (cases x)
    show "x \<in> succ_rel ?q \<longleftrightarrow> x \<in> insert (this, to_next) (succ_rel p - {(this, to_prev)})"
      by (cases "a = this") (use succ' in \<open>auto simp: x succ_rel_iff at\<close>)
  qed
  have P: "pred_edges ?q = insert (this, to_next) (pred_edges p - {(this, to_prev), (to_prev, to_next)})"
  proof (rule set_eqI)
    fix x :: "nref \<times> nref"
    obtain a b where x: "x = (a, b)" by (cases x)
    have "set (pred (node_at p to_prev)) = {this}" using dead prev(2) by (auto simp: strands_def)
    then show "x \<in> pred_edges ?q \<longleftrightarrow> x \<in> insert (this, to_next) (pred_edges p - {(this, to_prev), (to_prev, to_next)})"
      by (cases "b = to_next"; cases "b = to_prev") (use pred' next'(2) in \<open>auto simp: x pred_edges_def at\<close>)
  qed
  have "terminator (ir (node_at ?q this)) = retarget_terminator to_prev to_next (terminator (ir (node_at p this)))"
    using n p1(4) [of this] by (simp add: node_at_update remove_pred_def)
  moreover have "length (nodes ?q) = length (nodes p)" by (simp add: remove_pred_def)
  ultimately show ?thesis using run S P [unfolded pred_edges_succ_rel [OF p]] by blast
qed

text \<open>Both cases: the lists agree again unless a stranded target keeps its edge.\<close>

lemma retarget_pre_traversal_both:
  assumes p: "edges_ok p" and n: "this < length (nodes p)" "to_next < length (nodes p)"
    and edge: "to_prev \<in> set (succ (node_at p this))" "to_next \<notin> set (succ (node_at p this))"
  shows "\<exists>q. retarget_branch_pre_traversal this to_prev to_next p = Ok q \<and>
    length (nodes q) = length (nodes p) \<and>
    succ_rel q = insert (this, to_next) (succ_rel p - {(this, to_prev)}) \<and>
    pred_edges q = (if strands p this to_prev to_next then succ_rel q - {(to_prev, to_next)} else succ_rel q) \<and>
    (edges_ok q \<longleftrightarrow> \<not> strands p this to_prev to_next) \<and>
    terminator (ir (node_at q this)) = retarget_terminator to_prev to_next (terminator (ir (node_at p this)))"
proof (cases "strands p this to_prev to_next")
  case True
  obtain q where q: "retarget_branch_pre_traversal this to_prev to_next p = Ok q" "length (nodes q) = length (nodes p)"
    "succ_rel q = insert (this, to_next) (succ_rel p - {(this, to_prev)})"
    "pred_edges q = insert (this, to_next) (succ_rel p - {(this, to_prev), (to_prev, to_next)})"
    "terminator (ir (node_at q this)) = retarget_terminator to_prev to_next (terminator (ir (node_at p this)))"
    using retarget_pre_traversal_strands [OF assms True] by blast
  have old: "(to_prev, to_next) \<in> succ_rel p" using True by (simp add: strands_def succ_rel_iff)
  moreover have "to_prev \<noteq> this" using True edge(2) by (auto simp: strands_def)
  ultimately have "(to_prev, to_next) \<in> succ_rel q" "pred_edges q = succ_rel q - {(to_prev, to_next)}"
    using q(3,4) by auto
  moreover from this have "\<not> edges_ok q" using pred_edges_succ_rel [of q] by blast
  ultimately show ?thesis using q True by auto
next
  case False
  have "(\<exists>q \<in> set (pred (node_at p to_prev)). q \<noteq> this) \<or> pred_back_edge (node_at p to_prev) \<noteq> None \<or>
      to_next \<notin> set (succ (node_at p to_prev))"
    using False by (auto simp: strands_def)
  then show ?thesis
    using retarget_pre_traversal_edges [OF assms] pred_edges_succ_rel False by fastforce
qed

end
