(* ===== verification/Cfg_Properties.thy ===== *)
theory Cfg_Properties
  imports Cfg_Analysis Cfg_Edges Cfg_Search
begin

text \<open>
  The properties of the control flow graph and of its analysis, with a do-while loop and a while
  loop as concrete graphs. Evaluation goes by simplification with weak congruences, so that the
  state is computed before the continuation is looked at.
\<close>

section \<open>Concrete graphs\<close>

named_theorems run_simps

definition node_of :: "nref list \<Rightarrow> nref list \<Rightarrow> CFGNode" where
  "node_of ss ps = CFGNode_new\<lparr>succ := ss, pred := ps\<rparr>"

definition do_while :: CFGStructurizer where
  "do_while = CFGStructurizer_new 0 \<lparr>nodes = [node_of [1] [], node_of [2] [0, 2], node_of [1, 3] [1], node_of [] [2]]\<rparr>"

definition while_loop :: CFGStructurizer where
  "while_loop = CFGStructurizer_new 0 \<lparr>nodes = [node_of [1] [], node_of [2, 3] [0, 2], node_of [1] [1], node_of [] [1]]\<rparr>"

lemma new_fields [simp]:
  "visited CFGNode_new = False" "traversing CFGNode_new = False" "backward_visited CFGNode_new = False"
  "succ CFGNode_new = []" "pred CFGNode_new = []" "fake_succ CFGNode_new = []" "fake_pred CFGNode_new = []"
  "succ_back_edge CFGNode_new = None" "pred_back_edge CFGNode_new = None" "immediate_dominator CFGNode_new = None"
  "immediate_post_dominator CFGNode_new = None" "forward_order CFGNode_new = 0" "backward_order CFGNode_new = 0"
  "ir CFGNode_new = IRBlock_new"
  by (simp_all add: CFGNode_new_def)

lemma reset_node_of:
  "reset_node (node_of ss ps) = node_of ss ps" "reset_node (CFGNode_new\<lparr>node_name := x\<rparr>) = CFGNode_new\<lparr>node_name := x\<rparr>"
  by (simp_all add: reset_node_def node_of_def CFGNode_new_def)

lemma u32_of_numbers [run_simps]:
  "u32_of 0 = 0" "u32_of (Suc 0) = Suc 0" "u32_of (Suc (Suc 0)) = Suc (Suc 0)" "u32_of (Suc (Suc (Suc 0))) = Suc (Suc (Suc 0))"
  "u32_of (Suc (Suc (Suc (Suc 0)))) = Suc (Suc (Suc (Suc 0)))"
  by (simp_all add: u32_of_def)

lemma bind_res_weak: "m = m' \<Longrightarrow> bind_res m f = bind_res m' f"
  by simp

lemmas run_cong = bind_res_weak let_weak_cong

lemmas run_pool [run_simps] = walk_fuel_def update_node_def node_at_def eval_nat_numeral

lemmas run_visit [run_simps] = visit_def begin_visit_def visit_edge_def finish_visit_def drop_back_edges_def

lemma reset_samples:
  "reset_traversal do_while =
     \<lparr>nodes = [node_of [1] [], node_of [2] [0, 2], node_of [1, 3] [1], node_of [] [2], CFGNode_new\<lparr>node_name := ''EXIT''\<rparr>],
      entry_block = 0, exit_block = 4, forward_post_visit_order = [], backward_post_visit_order = [],
      reachability_bitset = [], reachability_stride = 0, reachable_nodes = {}\<rparr>"
  "reset_traversal while_loop =
     \<lparr>nodes = [node_of [1] [], node_of [2, 3] [0, 2], node_of [1] [1], node_of [] [1], CFGNode_new\<lparr>node_name := ''EXIT''\<rparr>],
      entry_block = 0, exit_block = 4, forward_post_visit_order = [], backward_post_visit_order = [],
      reachability_bitset = [], reachability_stride = 0, reachable_nodes = {}\<rparr>"
  by (simp_all add: reset_traversal_def do_while_def while_loop_def CFGStructurizer_new_def create_node_def update_node_def
      for_each_node_def node_at_def reset_node_of)

lemma all_below_Suc: "(\<forall>n < Suc k. P n) \<longleftrightarrow> P k \<and> (\<forall>n < k. P n)"
  by (auto simp: less_Suc_eq)

lemma sample_edges_ok: "edges_ok (reset_traversal do_while)" "edges_ok (reset_traversal while_loop)"
  by (simp_all add: edges_ok_def reset_samples node_at_def node_of_def eval_nat_numeral all_below_Suc)

lemma sample_blocks:
  "entry_block do_while = 0" "length (nodes do_while) = 5" "exit_block do_while = 4"
  "entry_block while_loop = 0" "length (nodes while_loop) = 5" "exit_block while_loop = 4"
  by (simp_all add: do_while_def while_loop_def CFGStructurizer_new_def create_node_def)

text \<open>The visit of the do-while loop: the edge from 2 back to 1 is taken out.\<close>

lemma do_while_visit:
  "\<exists>v. visit 0 (reset_traversal do_while) = Ok v \<and> order_of v = [3, 2, 1, 0] \<and>
     (\<forall>n < 5. succ_back_edge (node_at v n) \<noteq> None \<longrightarrow> succ (node_at v n) \<noteq> []) \<and> succ_back_edge (node_at v 2) = Some 1"
  by (simp add: reset_samples run_simps node_of_def all_below_Suc cong: run_cong)

section \<open>The analysis as a whole\<close>

lemma unreachable_without_preds:
  assumes "edges_ok g" and "x < length (nodes g)" and "pred (node_at g x) = []" and "x \<noteq> e"
  shows "(e, x) \<notin> (succ_rel g)\<^sup>*"
proof
  assume "(e, x) \<in> (succ_rel g)\<^sup>*"
  then obtain q where q: "x \<in> set (succ (node_at g q))" using assms(4) by (auto elim: rtranclE simp: succ_rel_iff)
  then have "q < length (nodes g)" using beyond_no_edges(1) [of q g] by fastforce
  then show False using edges_okD(5) [OF assms(1), of q x] assms(2,3) q by simp
qed

lemma visit_beyond:
  assumes "visit e g = Ok v" and "asserts (visit e g) (visited_graph g)" and "\<not> n < length (nodes g)"
  shows "succ_back_edge (node_at v n) = None"
  using assms visited_graphD(5) [of g v] by (simp add: node_at_def)

text \<open>
  C3. Recomputing the control flow graph. Take a graph whose edge lists agree, with at most
  \<open>2 ^ 18\<close> nodes and an exit node of its own, in which the depth-first visit meets no second back
  edge at a node and the source of every back edge has another successor. Then \<open>recompute_cfg\<close>
  returns, lists the visited nodes, leaves the forward edges, and answers right on all listed
  nodes: \<open>dominates\<close> holds exactly when every path from the entry passes the dominator,
  \<open>post_dominates\<close> when every path to the exit does, \<open>query_reachability\<close> when there is a path
  of forward edges, and both dominance frontiers are the sets that their definition by paths gives.
\<close>

theorem recompute_cfg_correct:
  assumes "edges_ok (reset_traversal s)" and "entry_block s < length (nodes s)" and "length (nodes s) \<le> 2 ^ 18"
    and "exit_block s < length (nodes s)" and "exit_block s \<noteq> entry_block s"
    and "pred (node_at (reset_traversal s) (exit_block s)) = []"
    and "visit (entry_block s) (reset_traversal s) = Ok v"
    and "\<forall>n < length (nodes s). succ_back_edge (node_at v n) \<noteq> None \<longrightarrow> succ (node_at v n) \<noteq> []"
  shows "\<exists>u. recompute_cfg s = Ok u \<and> order_of u = order_of v \<and> (\<forall>n. succ (node_at u n) = succ (node_at v n)) \<and>
    analysis_correct u (entry_block s)"
proof -
  note g = assms(1-3)
  obtain t where t: "analyze_forward s = Ok t" "order_of t = order_of v"
    "\<forall>n. succ (node_at t n) = succ (node_at v n) \<and> succ_back_edge (node_at t n) = succ_back_edge (node_at v n)"
    using analyze_forward_visit [OF g assms(7)] by blast
  have "(entry_block s, exit_block s) \<notin> (succ_rel (reset_traversal s))\<^sup>*"
    using unreachable_without_preds [OF g(1)] assms(4-6) by simp
  moreover have "succ (node_at t n) \<noteq> []" if "succ_back_edge (node_at t n) \<noteq> None" for n
  proof (cases "n < length (nodes s)")
    case True
    then show ?thesis using that assms(8) t(3) by simp
  next
    case False
    then show ?thesis using that t(3) visit_beyond [OF assms(7), of n] visit_graph [OF reset_fresh [OF g]] by simp
  qed
  ultimately show ?thesis using recompute_cfg_ok [OF g assms(4) _ t(1)] t(2,3) by auto
qed

lemma recompute_cfg_correct_witness:
  "\<exists>u. recompute_cfg do_while = Ok u \<and> order_of u = [3, 2, 1, 0] \<and> analysis_correct u 0"
proof -
  obtain v where v: "visit 0 (reset_traversal do_while) = Ok v" "order_of v = [3, 2, 1, 0]"
    "\<forall>n < 5. succ_back_edge (node_at v n) \<noteq> None \<longrightarrow> succ (node_at v n) \<noteq> []"
    using do_while_visit by blast
  have "pred (node_at (reset_traversal do_while) 4) = []" by (simp add: reset_samples node_at_def eval_nat_numeral)
  then show ?thesis
    using recompute_cfg_correct [of do_while v] sample_edges_ok(1) v by (auto simp: sample_blocks)
qed


text \<open>
  C7. The depth-first visit ends, within the depth bound and without a bad access, on every graph
  whose edge lists agree: either with the reachable nodes listed in post order, numbered by their
  position, every remaining edge going to a lower number and the back edges taken out of both
  lists in pairs, or at one of its two assertions.
\<close>

theorem visit_ends:
  assumes "edges_ok (reset_traversal s)" and "entry_block s < length (nodes s)" and "length (nodes s) \<le> 2 ^ 18"
  shows "asserts (visit (entry_block s) (reset_traversal s)) (visited_graph (reset_traversal s))"
  using visit_graph [OF reset_fresh [OF assms]] by simp

lemma visit_ends_witness:
  "\<exists>v. visit 0 (reset_traversal do_while) = Ok v \<and> visited_graph (reset_traversal do_while) v"
proof -
  obtain v where v: "visit 0 (reset_traversal do_while) = Ok v" using do_while_visit by blast
  then show ?thesis
    using visit_ends [OF sample_edges_ok(1)] by (simp add: sample_blocks)
qed

text \<open>
  C14. The forward half of the analysis, from any earlier state of the traversal: it ends at an
  assertion or in a state where the listed nodes are the reachable ones, both edge lists agree,
  dominance is dominance by paths, the reachability bits are the closure of the edges, and
  everything the half does not own is as before.
\<close>

theorem analyze_forward_correct:
  assumes "edges_ok (reset_traversal s)" and "entry_block s < length (nodes s)" and "length (nodes s) \<le> 2 ^ 18"
  shows "asserts (analyze_forward s) (forward_correct (reset_traversal s))"
  by (rule analyze_forward_ok [OF assms])

lemma do_while_forward:
  "\<exists>t. analyze_forward do_while = Ok t \<and> forward_correct (reset_traversal do_while) t \<and> order_of t = [3, 2, 1, 0] \<and>
     (\<forall>n < 5. succ_back_edge (node_at t n) \<noteq> None \<longrightarrow> succ (node_at t n) \<noteq> [])"
proof -
  obtain v where v: "visit 0 (reset_traversal do_while) = Ok v" "order_of v = [3, 2, 1, 0]"
    "\<forall>n < 5. succ_back_edge (node_at v n) \<noteq> None \<longrightarrow> succ (node_at v n) \<noteq> []"
    using do_while_visit by blast
  then show ?thesis
    using analyze_forward_visit [OF sample_edges_ok(1)] by (fastforce simp: sample_blocks)
qed

lemma analyze_forward_correct_witness:
  "\<exists>t. analyze_forward do_while = Ok t \<and> forward_correct (reset_traversal do_while) t"
proof -
  obtain t where "analyze_forward do_while = Ok t" using do_while_forward by blast
  then show ?thesis using analyze_forward_correct [OF sample_edges_ok(1)] by (simp add: sample_blocks)
qed

section \<open>Dominators\<close>

text \<open>
  C13. One pass of \<open>recompute_immediate_dominator\<close> over the nodes in reverse post order builds the
  dominator tree: \<open>dominates\<close> then answers, for every listed node, whether all paths of
  predecessor edges from the entry to it contain the dominator. Only dominator links change.
\<close>

theorem build_immediate_dominators_paths:
  assumes "ranked s e (order_of s)"
  shows "\<exists>t. build_immediate_dominators s = Ok t \<and> links_only s t \<and>
    (\<forall>n \<in> set (order_of s). \<forall>a. dominates t a n = Ok (path_dominates s e a n))"
  using build_dominators [OF assms] by (auto simp: build_immediate_dominators_def)

definition diamond :: CFGStructurizer where
  "diamond = \<lparr>nodes = [(node_of [1, 2] [])\<lparr>forward_order := 3\<rparr>, (node_of [3] [0])\<lparr>forward_order := 2\<rparr>,
      (node_of [3] [0])\<lparr>forward_order := 1\<rparr>, node_of [] [1, 2]], entry_block = 0, exit_block = 4,
      forward_post_visit_order = [3, 2, 1, 0], backward_post_visit_order = [],
      reachability_bitset = [], reachability_stride = 0, reachable_nodes = {0, 1, 2, 3}\<rparr>"

lemma diamond_ranked: "ranked diamond 0 [3, 2, 1, 0]" "order_of diamond = [3, 2, 1, 0]" "numbered diamond"
  by (simp_all add: ranked_def numbered_def diamond_def node_at_def node_of_def eval_nat_numeral all_below_Suc)

lemma build_immediate_dominators_paths_witness:
  "\<exists>t. build_immediate_dominators diamond = Ok t \<and> dominates t 1 3 = Ok (path_dominates diamond 0 1 3)"
  using build_immediate_dominators_paths [of diamond 0] diamond_ranked by auto

text \<open>
  C6. On the finished dominator tree \<open>find_common_dominator\<close> changes nothing and returns the
  nearest common dominator: a node lies on all paths to it exactly when it lies on all paths to
  both arguments.
\<close>

theorem find_common_dominator_nearest:
  assumes "ranked s e (order_of s)" and "build_immediate_dominators s = Ok t"
    and "a \<in> set (order_of s)" and "b \<in> set (order_of s)"
  shows "\<exists>d \<in> set (order_of s). find_common_dominator a b t = Ok (d, t) \<and>
    (\<forall>x. path_dominates s e x d \<longleftrightarrow> path_dominates s e x a \<and> path_dominates s e x b)"
proof -
  have t: "links_only s t" "built (idom t) (\<lambda>n. forward_order (node_at t n)) (\<lambda>n. pred (node_at t n)) e (set (order_of s))"
    using build_dominators [OF assms(1)] assms(2) by (auto simp: build_immediate_dominators_def)
  have tree: "link_tree (idom t) (\<lambda>n. forward_order (node_at t n)) (set (order_of s)) e" using t(2) by (simp add: built_def)
  have above: "above (idom t) n x \<longleftrightarrow> path_dominates s e x n" if "n \<in> set (order_of s)" for n x
    using t(2) that links_only_path [OF t(1), of e x n] by (simp add: built_def path_dominates_def)
  have "length (order_of s) \<le> length (nodes t)" using ranked_length [OF assms(1)] links_only_node(4) [OF t(1)] by simp
  then have card: "card (set (order_of s)) \<le> length (nodes t)" using card_length order_trans by blast
  show ?thesis
    using dom_meet.meet [OF tree assms(3,4), of "meet_fuel t" "recompute_idom_at (walk_fuel t)"]
      dom_meet.meet_fuel_enough [OF tree card assms(3,4)] above assms(3,4)
    by (auto simp: find_common_dominator_def)
qed

lemma find_common_dominator_nearest_witness:
  "\<exists>t. \<exists>d \<in> {0, 1, 2, 3}. build_immediate_dominators diamond = Ok t \<and> find_common_dominator 1 2 t = Ok (d, t)"
proof -
  obtain t where "build_immediate_dominators diamond = Ok t"
    using build_dominators [OF diamond_ranked(1)] unfolding build_immediate_dominators_def diamond_ranked(2) by blast
  then show ?thesis using find_common_dominator_nearest [of diamond 0 t 1 2] diamond_ranked by auto
qed


section \<open>Reachability\<close>

text \<open>
  C15. The reachability bit set. When the nodes are numbered in post order and the bits fit in
  32-bit offsets, \<open>build_reachability\<close> reads and writes inside the bit set, and the query is
  whether there is a path of forward edges.
\<close>

theorem reachability_is_closure:
  assumes "numbered s" and "length (order_of s) * ((length (order_of s) + 31) div 32) < 2 ^ 32"
  shows "\<exists>t. build_reachability s = Ok t \<and>
    (\<forall>f \<in> set (order_of s). \<forall>m \<in> set (order_of s). query_reachability t f m = Ok ((f, m) \<in> (succ_rel s)\<^sup>*))"
proof -
  obtain t where t: "build_reachability s = Ok t" using build_reachability_rows [OF assms] by blast
  then show ?thesis using query_rows [OF assms t] by blast
qed

lemma reachability_is_closure_witness:
  "\<exists>t. build_reachability diamond = Ok t \<and> query_reachability t 1 2 = Ok ((1, 2) \<in> (succ_rel diamond)\<^sup>*)"
  using reachability_is_closure [of diamond] diamond_ranked(2,3) by auto

text \<open>
  C21. The backward searches on a numbered graph return, within the recursion depth allowed, and
  say whether a path of predecessor edges leads from the node to the parent, of which no node but
  the parent is a blocker. The test on the post-visit orders before the search excludes nothing.
\<close>

theorem backtrace_finds_paths:
  assumes "ranked s e (order_of s)" and "n \<in> set (order_of s)"
  shows "can_backtrace_to s n parent = Ok ((n, parent) \<in> (pred_rel s)\<^sup>+) \<and>
    can_backtrace_to_with_blockers s n parent bs = Ok ((n, parent) \<in> (unblocked_rel s bs)\<^sup>+)"
  using backtrace_path [OF ranked_preds_higher [OF assms(1)] assms(2)]
    blockers_path [OF ranked_preds_higher [OF assms(1)] assms(2)] by blast+

lemma backtrace_finds_paths_witness:
  "can_backtrace_to diamond 3 0 = Ok ((3, 0) \<in> (pred_rel diamond)\<^sup>+) \<and>
   can_backtrace_to_with_blockers diamond 3 0 [1] = Ok ((3, 0) \<in> (unblocked_rel diamond [1])\<^sup>+)"
  using backtrace_finds_paths [of diamond 0 3] diamond_ranked by simp

text \<open>
  C22. After the forward analysis \<open>dominates_all_reachable_exits\<close> returns true for a listed header
  exactly when every edge, forward or back, of every node the header can reach leads to a node
  that the header dominates.
\<close>

theorem dominates_all_exits_spec:
  assumes "forward_correct g t" and "h \<in> set (order_of t)"
  shows "dominates_all_reachable_exits t h =
    Ok (\<forall>n. (h, n) \<in> (succ_rel t)\<^sup>* \<longrightarrow> (\<forall>m \<in> targets t n. path_dominates t (entry_block g) h m))"
proof (rule exits_search [OF _ _ assms(2)])
  note F = forward_correctD [OF assms(1)]
  show "set (order_of t) \<subseteq> {..<length (nodes t)}" using F(2) by (simp add: ranked_def)
  show "targets t n \<subseteq> set (order_of t)" if "n \<in> set (order_of t)" for n
    using F(3,6) that by (auto simp: targets_def numbered_def)
  show "dominates t h m = Ok (path_dominates t (entry_block g) h m)" if "m \<in> set (order_of t)" for m
    using F(8) that by blast
qed

lemma dominates_all_exits_spec_witness:
  "\<exists>t. analyze_forward do_while = Ok t \<and>
     dominates_all_reachable_exits t 1 =
       Ok (\<forall>n. (1, n) \<in> (succ_rel t)\<^sup>* \<longrightarrow> (\<forall>m \<in> targets t n. path_dominates t 0 1 m))"
proof -
  obtain t where t: "analyze_forward do_while = Ok t" "forward_correct (reset_traversal do_while) t" "order_of t = [3, 2, 1, 0]"
    using do_while_forward by blast
  then show ?thesis using dominates_all_exits_spec [OF t(2), of 1] by (simp add: sample_blocks)
qed

section \<open>The backward half\<close>

text \<open>
  C16. When the source of every back edge has another successor, the backward visit from the leaves
  lists every listed node exactly once, numbered so that forward edges go up and the exit node
  is last, and the post dominator links built from it answer whether every path to the exit
  contains the post dominator.
\<close>

theorem backward_visit_reaches_all:
  assumes "forward_correct (reset_traversal s) t" and "length (nodes s) \<le> 2 ^ 18"
    and "exit_block s < length (nodes s)" and "exit_block s \<notin> set (order_of t)"
    and "\<forall>n \<in> set (order_of t). succ_back_edge (node_at t n) \<noteq> None \<longrightarrow> succ (node_at t n) \<noteq> []"
  shows "\<exists>u. bind_res (backwards_visit t) build_immediate_post_dominators = Ok u \<and>
    distinct (backward_post_visit_order u) \<and> set (backward_post_visit_order u) = set (order_of t) \<and>
    (\<forall>n \<in> set (order_of t). \<forall>m \<in> set (succ (node_at u n)). backward_order (node_at u n) < backward_order (node_at u m)) \<and>
    (\<forall>n \<in> set (order_of t). \<forall>a. post_dominates u a n = Ok (path_post_dominates u (exit_block s) a n))"
proof -
  note F = forward_correctD [OF assms(1)]
  have "succ (node_at t n) \<noteq> []" if "succ_back_edge (node_at t n) \<noteq> None" for n
    using assms(5) F(6) that by blast
  then obtain u where u: "bind_res (backwards_visit t) build_immediate_post_dominators = Ok u" "back_correct t (exit_block s) u"
    using backward_half [OF assms(1-3)] assms(4) F(1) by auto
  note B = back_correctD [OF u(2)]
  have "sorted_wrt (<) (map (\<lambda>n. backward_order (node_at u n)) (backward_post_visit_order u))"
    using B(3) by (simp add: sorted_wrt_map sorted_wrt_append)
  then have "distinct (backward_post_visit_order u)" by (simp add: strict_sorted_iff distinct_map)
  then show ?thesis using u(1) B(2,4,7) by simp
qed


lemma backward_visit_reaches_all_witness:
  "\<exists>t u. analyze_forward do_while = Ok t \<and> bind_res (backwards_visit t) build_immediate_post_dominators = Ok u \<and>
     set (backward_post_visit_order u) = {0, 1, 2, 3}"
proof -
  obtain t where t: "analyze_forward do_while = Ok t" "forward_correct (reset_traversal do_while) t" "order_of t = [3, 2, 1, 0]"
    "\<forall>n < 5. succ_back_edge (node_at t n) \<noteq> None \<longrightarrow> succ (node_at t n) \<noteq> []"
    using do_while_forward by blast
  show ?thesis using backward_visit_reaches_all [OF t(2)] t by (auto simp: sample_blocks)
qed

text \<open>
  C12. Infinite loops and loops left only through their header. When the first backward visit misses
  the source of a back edge, edges are added from it to the exits of its loop and the visit
  starts over. If the graph with these edges has no cycle and leads everywhere to a leaf, the
  second visit succeeds and \<open>post_dominates\<close> answers whether all paths to the exit contain the
  post dominator, paths over the added edges included.
\<close>

theorem relinked_post_dominators:
  assumes "fold_res backwards_visit_from (backwards_leaves s) (first_clear s) = Ok s1"
    and "fold_res link_infinite_loop (rev (order_of s1)) (False, s1) = Ok (True, s2)"
    and "back_graph (second_clear s2) A (backwards_leaves s)"
  shows "\<exists>t. bind_res (backwards_visit s) build_immediate_post_dominators = Ok t \<and> A \<subseteq> set (backward_post_visit_order t) \<and>
    (\<forall>n \<in> A. \<forall>a. post_dominates t a n = Ok (path_post_dominates s2 (exit_block s2) a n))"
proof -
  have f: "backward_frame s2 (second_clear s2)" by (rule frame_clear) simp
  have "post_edges x (second_clear s2) = post_edges x s2" for x
    by (simp add: post_edges_def fun_eq_iff backward_frame_eq(6) [OF f])
  then have "path_post_dominates (second_clear s2) x a n = path_post_dominates s2 x a n" for x a n
    by (simp only: path_post_dominates_def)
  then show ?thesis
    using post_pass_ok [OF assms(3)] backwards_visit_relinked [OF assms(1,2)] backward_frame_eq(9) [OF f] by auto
qed

text \<open>The state of the while loop after the forward half: node 2 is only left by its back edge.\<close>

definition while_done :: CFGStructurizer where
  "while_done = \<lparr>nodes =
     [(node_of [1] [])\<lparr>forward_order := 3, immediate_dominator := Some 0\<rparr>,
      (node_of [2, 3] [0])\<lparr>forward_order := 2, immediate_dominator := Some 0, pred_back_edge := Some 2\<rparr>,
      (node_of [] [1])\<lparr>forward_order := 0, immediate_dominator := Some 1, succ_back_edge := Some 1\<rparr>,
      (node_of [] [1])\<lparr>forward_order := 1, immediate_dominator := Some 1\<rparr>, CFGNode_new], entry_block = 0, exit_block = 4,
      forward_post_visit_order = [2, 3, 1, 0], backward_post_visit_order = [],
      reachability_bitset = [], reachability_stride = 0, reachable_nodes = {0, 1, 2, 3}\<rparr>"

lemmas run_backwards [run_simps] = backwards_visit_from_def backwards_edge_def begin_backwards_def finish_backwards_def
  backwards_leaves_def clear_backwards_def

lemmas run_links [run_simps] = link_infinite_loop_def loop_exits_def push_unique_def should_transpose_loop_exit_def
  dominates_all_reachable_exits_def dominates_all_reachable_exits_search_def get_innermost_loop_header_for_def
  link_transposed_exit_def is_switch_label_exit_def add_fake_branch_def add_unique_fake_pred_def add_unique_fake_succ_def
  dominates_def idom_def

lemma all_nodes: "Q CFGNode_new \<Longrightarrow> (\<forall>n. Q (node_at p n)) \<longleftrightarrow> (\<forall>x \<in> set (nodes p). Q x)"
  by (auto simp: node_at_def all_set_conv_all_nth)

lemma while_relinked:
  "\<exists>s1 s2. fold_res backwards_visit_from (backwards_leaves while_done) (first_clear while_done) = Ok s1 \<and>
     fold_res link_infinite_loop (rev (order_of s1)) (False, s1) = Ok (True, s2) \<and>
     back_graph (second_clear s2) {0, 1, 2, 3} (backwards_leaves while_done) \<and> fake_succ (node_at s2 2) = [3]"
  apply (simp add: while_done_def run_simps node_of_def IRBlock_new_def Terminator_new_def cong: run_cong)
  apply (unfold back_graph_def)
  apply (subst all_nodes, simp)
  apply (intro conjI, rule exI [of _ "\<lambda>n. 3 - n"])
          apply (auto simp: climbing_def back_edges_def out_edges_def node_at_def)
  done

lemma relinked_post_dominators_witness:
  "\<exists>t (s2 :: CFGStructurizer). bind_res (backwards_visit while_done) build_immediate_post_dominators = Ok t \<and>
     {0, 1, 2, 3} \<subseteq> set (backward_post_visit_order t) \<and> fake_succ (node_at s2 2) = [3] \<and>
     (\<forall>n \<in> {0, 1, 2, 3}. \<forall>a. post_dominates t a n = Ok (path_post_dominates s2 (exit_block s2) a n))"
proof -
  obtain s1 s2 where s: "fold_res backwards_visit_from (backwards_leaves while_done) (first_clear while_done) = Ok s1"
    "fold_res link_infinite_loop (rev (order_of s1)) (False, s1) = Ok (True, s2)"
    "back_graph (second_clear s2) {0, 1, 2, 3} (backwards_leaves while_done)" "fake_succ (node_at s2 2) = [3]"
    using while_relinked by (elim exE conjE)
  obtain t where t: "bind_res (backwards_visit while_done) build_immediate_post_dominators = Ok t"
    "{0, 1, 2, 3} \<subseteq> set (backward_post_visit_order t)"
    "\<forall>n \<in> {0, 1, 2, 3}. \<forall>a. post_dominates t a n = Ok (path_post_dominates s2 (exit_block s2) a n)"
    using relinked_post_dominators [OF s(1-3)] by (elim exE conjE)
  show ?thesis by (intro exI [of _ t] exI [of _ s2] conjI, fact t, fact t, fact s(4), fact t)
qed

section \<open>Edges\<close>

text \<open>
  C23. \<open>add_branch\<close> stops at an assertion when the edge is a fake one and otherwise adds exactly
  the edge asked for, to both lists and without duplicates.
\<close>

theorem add_branch_adds_edge:
  assumes "edges_ok p" and "this < length (nodes p)" and "to < length (nodes p)"
  shows "if to \<in> set (fake_succ (node_at p this)) then add_branch this to p = Fault Assertion_Failed
    else \<exists>q. add_branch this to p = Ok q \<and> edges_ok q \<and> length (nodes q) = length (nodes p) \<and>
      succ_rel q = insert (this, to) (succ_rel p)"
  using add_branch_edges [OF assms] by (simp add: add_branch_def add_unique_succ_def)

lemma add_branch_adds_edge_witness:
  "\<exists>q. add_branch 3 1 (reset_traversal do_while) = Ok q \<and> edges_ok q \<and>
     succ_rel q = insert (3, 1) (succ_rel (reset_traversal do_while))"
  using add_branch_adds_edge [OF sample_edges_ok(1), of 3 1]
  by (auto simp: sample_blocks reset_samples node_at_def node_of_def eval_nat_numeral)

text \<open>C24. \<open>clear_branches\<close> removes exactly the edges out of the node, from both lists.\<close>

theorem clear_branches_removes_edges:
  assumes "edges_ok p" and "this < length (nodes p)"
  shows "edges_ok (clear_branches this p) \<and> length (nodes (clear_branches this p)) = length (nodes p) \<and>
    succ_rel (clear_branches this p) = succ_rel p - {this} \<times> UNIV"
  using clear_branches_edges [OF assms] by blast

lemma clear_branches_removes_edges_witness:
  "edges_ok (clear_branches 1 (reset_traversal do_while)) \<and>
   succ_rel (clear_branches 1 (reset_traversal do_while)) = succ_rel (reset_traversal do_while) - {1} \<times> UNIV"
  using clear_branches_removes_edges [OF sample_edges_ok(1), of 1] by (simp add: sample_blocks)

text \<open>
  C20. \<open>retarget_branch_pre_traversal\<close> moves one edge of a node to a target that it had no edge to:
  the successor lists have the new edge for the old one, and every branch of the terminator that
  named the old target names the new one. The predecessor lists follow exactly, and the lists
  agree again, unless the old target is stranded (no other predecessor, no back edge, and an edge to
  the new target): then the new target forgets it as a predecessor, although it keeps its edge.
\<close>

theorem retarget_moves_edge:
  assumes "edges_ok p" and "this < length (nodes p)" and "to_next < length (nodes p)"
    and "to_prev \<in> set (succ (node_at p this))" and "to_next \<notin> set (succ (node_at p this))"
  shows "\<exists>q. retarget_branch_pre_traversal this to_prev to_next p = Ok q \<and>
    length (nodes q) = length (nodes p) \<and>
    succ_rel q = insert (this, to_next) (succ_rel p - {(this, to_prev)}) \<and>
    pred_edges q = (if strands p this to_prev to_next then succ_rel q - {(to_prev, to_next)} else succ_rel q) \<and>
    (edges_ok q \<longleftrightarrow> \<not> strands p this to_prev to_next) \<and>
    terminator (ir (node_at q this)) = retarget_terminator to_prev to_next (terminator (ir (node_at p this)))"
  by (rule retarget_pre_traversal_both [OF assms])

lemma diamond_edges_ok: "edges_ok diamond" "length (nodes diamond) = 4"
  by (simp_all add: edges_ok_def diamond_def node_at_def node_of_def eval_nat_numeral all_below_Suc)

lemma retarget_moves_edge_witness:
  "(\<exists>q. retarget_branch_pre_traversal 2 1 0 (reset_traversal do_while) = Ok q \<and> edges_ok q \<and>
     succ_rel q = insert (2, 0) (succ_rel (reset_traversal do_while) - {(2, 1)})) \<and>
   (\<exists>q. retarget_branch_pre_traversal 0 1 3 diamond = Ok q \<and> \<not> edges_ok q \<and> pred_edges q = succ_rel q - {(1, 3)})"
proof -
  have "\<not> strands (reset_traversal do_while) 2 1 0" "strands diamond 0 1 3"
    by (simp_all add: strands_def reset_samples diamond_def node_at_def node_of_def eval_nat_numeral)
  then show ?thesis
    using retarget_moves_edge [OF sample_edges_ok(1), of 2 0 1] retarget_moves_edge [OF diamond_edges_ok(1), of 0 3 1] diamond_edges_ok(2)
    by (auto simp: sample_blocks reset_samples diamond_def node_at_def node_of_def eval_nat_numeral)
qed

end
