(* ===== verification/Cfg_Helpers.thy ===== *)
theory Cfg_Helpers
  imports Cfg_Structurizer
begin

text \<open>
  \<open>cfg_structurizer.cpp\<close>: the operations the rewriting passes are made of. Helper blocks before
  and after a node, merged back edges, ladder blocks with the rewriting of all branches under a
  dominator, common post dominators of several nodes, and the search for a path around a node.
  Names of blocks are kept, since the code builds them; \<open>std::sort\<close> on numbers is \<open>sort_key\<close>.
\<close>

section \<open>Tests on lists\<close>

definition all_res :: "('a \<Rightarrow> bool res) \<Rightarrow> 'a list \<Rightarrow> bool res" where
  "all_res f xs = bind_res (any_res (\<lambda>x. bind_res (f x) (\<lambda>b. Ok (\<not> b))) xs) (\<lambda>b. Ok (\<not> b))"

fun filter_res :: "('a \<Rightarrow> bool res) \<Rightarrow> 'a list \<Rightarrow> 'a list res" where
  "filter_res f [] = Ok []"
| "filter_res f (x # xs) = bind_res (f x) (\<lambda>b. bind_res (filter_res f xs) (\<lambda>ys. Ok (if b then x # ys else ys)))"

definition and_res :: "bool res \<Rightarrow> bool res \<Rightarrow> bool res" where
  "and_res a b = bind_res a (\<lambda>x. if x then b else Ok False)"

definition or_res :: "bool res \<Rightarrow> bool res \<Rightarrow> bool res" where
  "or_res a b = bind_res a (\<lambda>x. if x then Ok True else b)"

definition not_res :: "bool res \<Rightarrow> bool res" where
  "not_res a = bind_res a (\<lambda>x. Ok (\<not> x))"

definition later_first :: "'a CFGNodePool_scheme \<Rightarrow> nref list \<Rightarrow> nref list" where
  "later_first s ns = rev (sort_key (\<lambda>n. forward_order (node_at s n)) ns)"

section \<open>Helper blocks\<close>

definition substitute_node :: "nref \<Rightarrow> nref \<Rightarrow> nref list \<Rightarrow> nref list" where
  "substitute_node old new ns = map (\<lambda>n. if n = old then new else n) ns"

definition retarget_node :: "nref \<Rightarrow> nref \<Rightarrow> CFGNode \<Rightarrow> CFGNode" where
  "retarget_node old new x =
     x\<lparr>succ := substitute_node old new (succ x),
       ir := (ir x)\<lparr>terminator := retarget_terminator old new (terminator (ir x))\<rparr>\<rparr>"

definition retarget_pred_from :: "nref \<Rightarrow> nref \<Rightarrow> CFGStructurizer \<Rightarrow> CFGStructurizer" where
  "retarget_pred_from new_node old_succ s =
     (let s = fold (\<lambda>p. update_node p (retarget_node old_succ new_node)) (pred (node_at s new_node)) s
      in fold (\<lambda>n. update_node n (\<lambda>x. if immediate_post_dominator x = Some old_succ
                then x\<lparr>immediate_post_dominator := Some new_node\<rparr> else x)) (forward_post_visit_order s) s)"

definition create_helper_pred_block :: "nref \<Rightarrow> CFGStructurizer \<Rightarrow> (nref \<times> CFGStructurizer) res" where
  "create_helper_pred_block n s =
     (let x = node_at s n in
      case create_node s of (p, s) \<Rightarrow>
      let s = update_node p (\<lambda>y. y\<lparr>node_name := node_name x @ ''.pred'', forward_order := forward_order x,
                backward_order := backward_order x, pred := pred x\<rparr>) s;
          s = update_node n (\<lambda>y. y\<lparr>pred := []\<rparr>) s;
          s = fold (\<lambda>h. fixup_merge_info_after_branch_rewrite h n p) (headers x) s;
          s = update_node n (\<lambda>y. y\<lparr>headers := []\<rparr>) s;
          s = update_node p (\<lambda>y. y\<lparr>immediate_dominator := (if idom s n = Some n then Some p else idom s n),
                immediate_post_dominator := Some n\<rparr>) s;
          s = update_node n (\<lambda>y. y\<lparr>immediate_dominator := Some p\<rparr>) s;
          s = retarget_pred_from p n s
      in
      bind_res (add_branch p n s) (\<lambda>s.
      let s = (if n = entry_block s then s\<lparr>entry_block := p\<rparr> else s)
      in Ok (p, update_node p (set_branch_to n) s)))"

definition retarget_succ_from :: "nref \<Rightarrow> nref \<Rightarrow> CFGStructurizer \<Rightarrow> CFGStructurizer" where
  "retarget_succ_from new_node old_pred s =
     (let s = fold (\<lambda>c. update_node c (\<lambda>x. x\<lparr>pred := substitute_node old_pred new_node (pred x)\<rparr>))
                (succ (node_at s new_node)) s;
          s = fold (\<lambda>n. if n = old_pred then (\<lambda>s. s)
                else update_node n (\<lambda>x. if immediate_dominator x = Some old_pred
                       then x\<lparr>immediate_dominator := Some new_node\<rparr> else x)) (forward_post_visit_order s) s
      in update_node new_node (\<lambda>x. x\<lparr>immediate_dominator := Some old_pred\<rparr>) s)"

definition create_helper_succ_block :: "nref \<Rightarrow> CFGStructurizer \<Rightarrow> (nref \<times> CFGStructurizer) res" where
  "create_helper_succ_block n s =
     (let x = node_at s n; t = terminator (ir x); m = selection_control_mask (merge_info (ir x)) in
      case create_node s of (c, s) \<Rightarrow>
      let s = update_node c (\<lambda>y. y\<lparr>node_name := node_name x @ ''.succ'', forward_order := forward_order x,
                backward_order := backward_order x, succ := succ x,
                immediate_post_dominator := immediate_post_dominator x\<rparr>) s;
          s = update_node n (\<lambda>y. set_branch_to c (y\<lparr>succ := [], immediate_post_dominator := Some c\<rparr>)) s;
          s = update_node c (\<lambda>y. y\<lparr>ir := (ir y)\<lparr>terminator := t,
                merge_info := (if term_type t = Term_Condition
                  then (merge_info (ir y))\<lparr>selection_control_mask := m\<rparr> else merge_info (ir y))\<rparr>\<rparr>) s;
          s = retarget_succ_from c n s
      in bind_res (add_branch n c s) (\<lambda>s. Ok (c, s)))"

text \<open>\<open>merge_to_succ\<close> declares a successor the merge block of the node.\<close>

definition merge_to_succ :: "nref \<Rightarrow> nat \<Rightarrow> CFGStructurizer \<Rightarrow> CFGStructurizer res" where
  "merge_to_succ n i s =
     bind_res (index (succ (node_at s n)) i) (\<lambda>m.
     Ok (update_node n (\<lambda>x. x\<lparr>selection_merge_block := Some m, merge := Merge_Selection\<rparr>) (add_unique_header m n s)))"

section \<open>Several back edges to one header\<close>

definition note_back_edge ::
  "(nref \<Rightarrow> CFGStructurizer \<Rightarrow> CFGStructurizer res) \<Rightarrow> nref \<Rightarrow> nref \<Rightarrow> CFGStructurizer \<Rightarrow> CFGStructurizer res" where
  "note_back_edge rec e c s =
     (if traversing (node_at s c) then Ok (update_node c (\<lambda>x. x\<lparr>fake_pred := fake_pred x @ [e]\<rparr>) s)
      else if \<not> visited (node_at s c) then rec c s
      else Ok s)"

definition merge_back_edges :: "nref \<Rightarrow> CFGStructurizer \<Rightarrow> CFGStructurizer res" where
  "merge_back_edges e s =
     (let sources = fake_pred (node_at s e) in
      if length sources < 2 then Ok s
      else
        case create_node s of (b, s) \<Rightarrow>
        let s = update_node b (\<lambda>x. x\<lparr>node_name := node_name (node_at s e) @ ''.back-edge-merge''\<rparr>) s in
        bind_res (fold_res (\<lambda>n. retarget_branch_pre_traversal n e b) sources s) (\<lambda>s.
        add_branch b e (update_node b (\<lambda>x. set_branch_to e (x\<lparr>succ := succ x @ [e]\<rparr>)) s)))"

fun visit_for_back_edge_analysis_at :: "nat \<Rightarrow> nref \<Rightarrow> CFGStructurizer \<Rightarrow> CFGStructurizer res" where
  "visit_for_back_edge_analysis_at 0 e s = Fault Out_Of_Fuel"
| "visit_for_back_edge_analysis_at (Suc k) e s =
     bind_res (fold_res (note_back_edge (visit_for_back_edge_analysis_at k) e) (succ (node_at s e)) (begin_visit e s)) (\<lambda>s.
     merge_back_edges e (update_node e (\<lambda>x. x\<lparr>traversing := False\<rparr>) s))"

definition rewrite_multiple_back_edges :: "CFGStructurizer \<Rightarrow> CFGStructurizer res" where
  "rewrite_multiple_back_edges s =
     visit_for_back_edge_analysis_at (walk_fuel s) (entry_block s) (reset_traversal s)"

section \<open>Sets of blocks\<close>

fun isolate_structured :: "nat \<Rightarrow> CFGStructurizer \<Rightarrow> nref \<Rightarrow> nref \<Rightarrow> nref set \<Rightarrow> nref set res" where
  "isolate_structured 0 s header m ns = Fault Out_Of_Fuel"
| "isolate_structured (Suc k) s header m ns =
     fold_res (\<lambda>q ns. if q \<noteq> header \<and> q \<notin> ns then isolate_structured k s header q (insert q ns) else Ok ns)
       (pred (node_at s m)) ns"

definition isolate_structured_sorted :: "CFGStructurizer \<Rightarrow> nref \<Rightarrow> nref \<Rightarrow> nref list res" where
  "isolate_structured_sorted s header m =
     bind_res (isolate_structured (walk_fuel s) s header m {}) (\<lambda>ns. Ok (later_first s (sorted_list_of_set ns)))"

text \<open>The member function for several nodes. A node that is its own post dominator is the exit.\<close>

definition find_common_post_dominator_of :: "nref list \<Rightarrow> CFGStructurizer \<Rightarrow> (nref option \<times> CFGStructurizer) res" where
  "find_common_post_dominator_of candidates s =
     (case candidates of
        [] \<Rightarrow> Ok (None, s)
      | [c] \<Rightarrow> Ok (Some c, s)
      | a # b # cs \<Rightarrow>
          bind_res (find_common_post_dominator a b s) (\<lambda>r.
          bind_res (fold_res (\<lambda>c (d, s). find_common_post_dominator d c s) cs r) (\<lambda>(d, s).
          Ok (if ipdom s d \<noteq> Some d then Some d else None, s))))"

fun ignored_break_loop :: "nat \<Rightarrow> CFGStructurizer \<Rightarrow> nref \<Rightarrow> nref list \<Rightarrow> nref option res" where
  "ignored_break_loop 0 s ignored candidates = Fault Out_Of_Fuel"
| "ignored_break_loop (Suc k) s ignored candidates =
     (if length candidates = 1 then Ok (Some (hd candidates))
      else
        case later_first s candidates of
          [] \<Rightarrow> Fault Out_Of_Bounds
        | c # cs \<Rightarrow>
            if succ (node_at s c) = [] \<and> succ_back_edge (node_at s c) = None then Ok None
            else ignored_break_loop k s ignored
                   (fold (\<lambda>n ns. if n = ignored then ns else push_unique ns n) (succ (node_at s c) @ cs) []))"

definition find_common_post_dominator_with_ignored_break :: "CFGStructurizer \<Rightarrow> nref list \<Rightarrow> nref \<Rightarrow> nref option res" where
  "find_common_post_dominator_with_ignored_break s candidates ignored =
     (if candidates = [] then Ok None else ignored_break_loop (walk_fuel s) s ignored candidates)"

section \<open>Paths around a node\<close>

definition promotes :: "CFGStructurizer \<Rightarrow> nref list \<Rightarrow> nref \<Rightarrow> nref \<Rightarrow> bool res" where
  "promotes s promoted must_reach c =
     bind_res (query_reachability s c must_reach) (\<lambda>r.
     if r then any_res (\<lambda>d. post_dominates s d c) promoted else Ok True)"

fun pdf_subset_loop ::
  "nat \<Rightarrow> CFGStructurizer \<Rightarrow> nref \<Rightarrow> nref option \<Rightarrow> nref list \<Rightarrow> nref list \<Rightarrow> nref option res" where
  "pdf_subset_loop 0 s must_reach must_reach_frontier promoted frontiers = Fault Out_Of_Fuel"
| "pdf_subset_loop (Suc k) s must_reach must_reach_frontier promoted frontiers =
     (if frontiers = [] then Ok None
      else
        bind_res
          (case must_reach_frontier of
             None \<Rightarrow> Ok frontiers
           | Some f \<Rightarrow> filter_res (\<lambda>c. query_reachability s f c) frontiers) (\<lambda>frontiers.
        let frontiers = (if length frontiers > 1
                         then remdups_adj (sort_key (\<lambda>n. backward_order (node_at s n)) frontiers) else frontiers)
        in
        if frontiers = [] then Ok None
        else
          let frontier = last frontiers in
          bind_res (all_res (promotes s promoted must_reach) (succ (node_at s frontier))) (\<lambda>all_via_node.
          if \<not> all_via_node then Ok (Some frontier)
          else pdf_subset_loop k s must_reach must_reach_frontier (promoted @ [frontier])
                 (butlast frontiers @ post_dominance_frontier (node_at s frontier)))))"

definition get_post_dominance_frontier_with_cfg_subset_that_reaches ::
  "CFGStructurizer \<Rightarrow> nref \<Rightarrow> nref \<Rightarrow> nref option \<Rightarrow> nref option res" where
  "get_post_dominance_frontier_with_cfg_subset_that_reaches s n must_reach must_reach_frontier =
     bind_res (query_reachability s n must_reach) (\<lambda>r.
     if \<not> r then Fault Assertion_Failed
     else pdf_subset_loop (walk_fuel s) s must_reach must_reach_frontier [n] (post_dominance_frontier (node_at s n)))"

definition path_end :: "CFGStructurizer \<Rightarrow> nref \<Rightarrow> nref \<Rightarrow> nref \<Rightarrow> nref res" where
  "path_end s start_block end_block stop_block =
     (case pred_back_edge (node_at s end_block) of
        None \<Rightarrow> Ok end_block
      | Some c \<Rightarrow>
          bind_res (or_res (query_reachability s stop_block end_block) (query_reachability s start_block end_block)) (\<lambda>r.
          Ok (if r then end_block else c)))"

definition exists_path_in_cfg_without_intermediate_node :: "CFGStructurizer \<Rightarrow> nref \<Rightarrow> nref \<Rightarrow> nref \<Rightarrow> bool res" where
  "exists_path_in_cfg_without_intermediate_node s start_block end_block stop_block =
     bind_res (path_end s start_block end_block stop_block) (\<lambda>end_block.
     bind_res (and_res (query_reachability s start_block end_block)
                 (and_res (query_reachability s start_block stop_block) (query_reachability s stop_block end_block))) (\<lambda>inside.
     if inside
     then bind_res (get_post_dominance_frontier_with_cfg_subset_that_reaches s stop_block end_block (Some start_block))
            (\<lambda>f. Ok (f \<noteq> None))
     else query_reachability_through_back_edges s start_block end_block))"

section \<open>Ladders\<close>

text \<open>
  All branches to \<open>from\<close> in the blocks under the dominator go to \<open>to\<close>, unless that makes a cycle.
  The test \<open>opr\<close> looks at the current state. A retargeted edge is replaced in place, so the loop
  sees the successors there were when it started.
\<close>

definition introduces_cycle :: "CFGStructurizer \<Rightarrow> nref \<Rightarrow> nref \<Rightarrow> nref \<Rightarrow> bool res" where
  "introduces_cycle s candidate f t =
     (let ord = (\<lambda>n. forward_order (node_at s n)) in
      if ord t = ord candidate \<and> t \<noteq> candidate \<or> ord f = ord candidate \<and> f \<noteq> candidate
      then can_backtrace_to s candidate t else query_reachability s t candidate)"

fun rewrite_dominated_at ::
  "nat \<Rightarrow> (CFGStructurizer \<Rightarrow> nref \<Rightarrow> bool res) \<Rightarrow> nref list \<Rightarrow> nref \<Rightarrow> nref \<Rightarrow> nref \<Rightarrow> nref \<Rightarrow> nref list \<times> CFGStructurizer \<Rightarrow>
   (nref list \<times> CFGStructurizer) res" where
  "rewrite_dominated_at 0 opr barrier dominator f t candidate cs = Fault Out_Of_Fuel"
| "rewrite_dominated_at (Suc k) opr barrier dominator f t candidate (cache, s) =
     bind_res
       (fold_res (\<lambda>n (cache, s).
          bind_res (opr s n) (\<lambda>go.
          if \<not> go then Ok (cache, s)
          else if n = f then
            bind_res (introduces_cycle s candidate f t) (\<lambda>cycle.
            if cycle then Ok (cache, s)
            else bind_res (retarget_branch_with_intermediate_node candidate f t s) (\<lambda>s. Ok (cache, s)))
          else
            bind_res (dominates s dominator n) (\<lambda>d.
            if d \<and> n \<noteq> t \<and> n \<notin> set barrier \<and> n \<notin> set cache
            then rewrite_dominated_at k opr barrier dominator f t n (cache, s)
            else Ok (cache, s))))
          (succ (node_at s candidate)) (push_unique cache candidate, s)) (\<lambda>(cache, s).
     if f \<in> set (fake_succ (node_at s candidate))
     then bind_res (retarget_fake_succ candidate f t s) (\<lambda>s. Ok (cache, s))
     else Ok (cache, s))"

text \<open>Post dominators that pointed at the old target are forgotten and found again, later nodes first.\<close>

definition forget_post_dominator :: "nref \<Rightarrow> nref \<Rightarrow> nref \<Rightarrow> nref list \<times> CFGStructurizer \<Rightarrow> nref list \<times> CFGStructurizer" where
  "forget_post_dominator f t n = (\<lambda>(again, s).
     if ipdom s n \<noteq> Some f then (again, s)
     else if fake_succ (node_at s n) = [] then (again @ [n], set_ipdom n None s)
     else (again, set_ipdom n (Some t) s))"

definition traverse_dominated_blocks_and_rewrite_branch ::
  "(CFGStructurizer \<Rightarrow> nref \<Rightarrow> bool res) \<Rightarrow> nref list \<Rightarrow> nref \<Rightarrow> nref \<Rightarrow> nref \<Rightarrow> CFGStructurizer \<Rightarrow> CFGStructurizer res" where
  "traverse_dominated_blocks_and_rewrite_branch opr barrier dominator f t s =
     (if f = t then Ok s
      else
        bind_res (rewrite_dominated_at (walk_fuel s) opr barrier dominator f t dominator ([], s)) (\<lambda>(cache, s).
        case fold (forget_post_dominator f t) cache ([], fixup_merge_info_after_branch_rewrite dominator f t s) of
          (again, s) \<Rightarrow>
        bind_res (fold_res (\<lambda>n s. if ipdom s n = None then recompute_immediate_post_dominator n s else Ok s)
                    (sort_key (\<lambda>n. forward_order (node_at s n)) again) s)
          (recompute_immediate_post_dominator dominator)))"

definition rewrite_branch_under :: "nref \<Rightarrow> nref \<Rightarrow> nref \<Rightarrow> CFGStructurizer \<Rightarrow> CFGStructurizer res" where
  "rewrite_branch_under = traverse_dominated_blocks_and_rewrite_branch (\<lambda>_ _. Ok True) []"

definition create_ladder_block :: "nref \<Rightarrow> nref \<Rightarrow> string \<Rightarrow> CFGStructurizer \<Rightarrow> (nref \<times> CFGStructurizer) res" where
  "create_ladder_block header n tag s =
     (let x = node_at s n in
      case create_node s of (ladder, s) \<Rightarrow>
      bind_res (add_branch ladder n (update_node ladder (\<lambda>y. y\<lparr>node_name := node_name x @ tag\<rparr>) s)) (\<lambda>s.
      let s = update_node ladder (\<lambda>y. set_branch_to n (y\<lparr>immediate_post_dominator := Some n,
                forward_order := forward_order x, backward_order := backward_order x,
                dominance_frontier := dominance_frontier y @ [n]\<rparr>)) s
      in
      bind_res (rewrite_branch_under header n ladder s) (\<lambda>s.
      bind_res (recompute_immediate_dominator ladder s) (\<lambda>s. Ok (ladder, s)))))"

definition create_switch_merge_ladder :: "nref \<Rightarrow> nref \<Rightarrow> CFGStructurizer \<Rightarrow> (nref \<times> CFGStructurizer) res" where
  "create_switch_merge_ladder header m = create_ladder_block header m ''.switch-merge''"

definition get_or_create_ladder_block :: "nref \<Rightarrow> nat \<Rightarrow> CFGStructurizer \<Rightarrow> (nref option \<times> CFGStructurizer) res" where
  "get_or_create_ladder_block n header_index s =
     bind_res (index (headers (node_at s n)) header_index) (\<lambda>header.
     case loop_ladder_block (node_at s header) of
       Some l \<Rightarrow> Ok (Some l, s)
     | None \<Rightarrow>
         bind_res (create_ladder_block header n ''.merge'' s) (\<lambda>(ladder, s).
         Ok (if header_index > 1 then Some ladder else None,
             update_node header (\<lambda>x. x\<lparr>loop_ladder_block := Some ladder\<rparr>) s)))"

text \<open>The scan over the outer headers, innermost first, for one to break out of.\<close>

fun break_header_scan :: "CFGStructurizer \<Rightarrow> nref \<Rightarrow> nref list \<Rightarrow> nref option res" where
  "break_header_scan s inner [] = Ok None"
| "break_header_scan s inner (h # hs) =
     (let x = node_at s h;
          target = (case loop_ladder_block x of Some l \<Rightarrow> Some l | None \<Rightarrow> loop_merge_block x)
      in
      if merge x \<noteq> Merge_Loop then break_header_scan s inner hs
      else case target of
        None \<Rightarrow> break_header_scan s inner hs
      | Some m \<Rightarrow>
          bind_res (query_reachability s m inner) (\<lambda>backwards.
          if backwards then break_header_scan s inner hs
          else bind_res (dominates s h inner) (\<lambda>d. if d then Ok (Some h) else break_header_scan s inner hs)))"

definition get_target_break_block_for_inner_header :: "CFGStructurizer \<Rightarrow> nref \<Rightarrow> nat \<Rightarrow> nref option res" where
  "get_target_break_block_for_inner_header s n header_index =
     (let hs = headers (node_at s n) in
      bind_res (index hs header_index) (\<lambda>inner. break_header_scan s inner (rev (take header_index hs))))"

end
