(* ===== verification/Cfg_Selection.thy ===== *)
theory Cfg_Selection
  imports Cfg_Helpers
begin

text \<open>
  \<open>cfg_structurizer.cpp\<close>: the tests by which the structurizer tells breaks and continues from
  merges, and \<open>find_selection_merges\<close>. The opcode of an operation is a parameter, the name
  of its \<open>spv::Op\<close> enumerator (the SPIR-V header is not part of the repository).
\<close>

section \<open>Opcodes\<close>

definition opcode_is_control_dependent :: "string \<Rightarrow> bool" where
  "opcode_is_control_dependent opcode \<longleftrightarrow> opcode \<in> set
     [''OpDPdx'', ''OpDPdxCoarse'', ''OpDPdxFine'', ''OpDPdy'', ''OpDPdyCoarse'', ''OpDPdyFine'',
      ''OpFwidth'', ''OpFwidthCoarse'', ''OpFwidthFine'',
      ''OpImageSampleImplicitLod'', ''OpImageSampleDrefImplicitLod'', ''OpImageSampleProjImplicitLod'',
      ''OpImageSampleProjDrefImplicitLod'', ''OpImageSparseSampleImplicitLod'',
      ''OpImageSparseSampleDrefImplicitLod'', ''OpImageSparseSampleProjImplicitLod'',
      ''OpImageSparseSampleProjDrefImplicitLod'', ''OpImageQueryLod'', ''OpImageDrefGather'', ''OpImageGather'',
      ''OpImageSparseDrefGather'', ''OpImageSparseGather'',
      ''OpGroupNonUniformElect'', ''OpGroupNonUniformAll'', ''OpGroupNonUniformAny'', ''OpGroupNonUniformAllEqual'',
      ''OpGroupNonUniformBroadcast'', ''OpGroupNonUniformBroadcastFirst'', ''OpGroupNonUniformBallot'',
      ''OpGroupNonUniformInverseBallot'', ''OpGroupNonUniformBallotBitExtract'', ''OpGroupNonUniformBallotBitCount'',
      ''OpGroupNonUniformBallotFindLSB'', ''OpGroupNonUniformBallotFindMSB'', ''OpGroupNonUniformShuffle'',
      ''OpGroupNonUniformShuffleXor'', ''OpGroupNonUniformShuffleUp'', ''OpGroupNonUniformShuffleDown'',
      ''OpGroupNonUniformIAdd'', ''OpGroupNonUniformFAdd'', ''OpGroupNonUniformIMul'', ''OpGroupNonUniformFMul'',
      ''OpGroupNonUniformSMin'', ''OpGroupNonUniformUMin'', ''OpGroupNonUniformFMin'', ''OpGroupNonUniformSMax'',
      ''OpGroupNonUniformUMax'', ''OpGroupNonUniformFMax'', ''OpGroupNonUniformBitwiseAnd'',
      ''OpGroupNonUniformBitwiseOr'', ''OpGroupNonUniformBitwiseXor'', ''OpGroupNonUniformLogicalAnd'',
      ''OpGroupNonUniformLogicalOr'', ''OpGroupNonUniformLogicalXor'', ''OpGroupNonUniformQuadBroadcast'',
      ''OpGroupNonUniformQuadSwap'', ''OpControlBarrier'', ''OpMemoryBarrier'', ''OpFunctionCall'',
      ''OpCooperativeMatrixLoadKHR'', ''OpCooperativeMatrixStoreKHR'', ''OpCooperativeMatrixMulAddKHR'']"

definition block_is_control_dependent :: "(nat \<Rightarrow> string) \<Rightarrow> CFGNode \<Rightarrow> bool" where
  "block_is_control_dependent code x \<longleftrightarrow> (\<exists>o' \<in> set (operations (ir x)). opcode_is_control_dependent (code o'))"

section \<open>Continue blocks\<close>

definition block_is_plain_continue :: "CFGStructurizer \<Rightarrow> nref \<Rightarrow> bool" where
  "block_is_plain_continue s n \<longleftrightarrow> succ_back_edge (node_at s n) \<noteq> None \<and> succ_back_edge (node_at s n) \<noteq> Some n"

fun plain_continue_scan :: "nat \<Rightarrow> CFGStructurizer \<Rightarrow> nref \<Rightarrow> nref \<Rightarrow> nref res" where
  "plain_continue_scan 0 s base n = Fault Out_Of_Fuel"
| "plain_continue_scan (Suc k) s base n =
     (if block_is_plain_continue s n then Ok n
      else bind_res (dominates s base n) (\<lambda>d.
        if \<not> d \<or> succ_back_edge (node_at s n) \<noteq> None \<or> pred_back_edge (node_at s n) \<noteq> None then Ok n
        else case ipdom s n of
          None \<Rightarrow> Ok n
        | Some m \<Rightarrow> if m = n then Ok n else plain_continue_scan k s base m))"

definition scan_plain_continue_block :: "CFGStructurizer \<Rightarrow> nref \<Rightarrow> nref res" where
  "scan_plain_continue_block s n = plain_continue_scan (walk_fuel s) s n n"

text \<open>The member function with one argument starts at the entry. \<open>None\<close>: the header has no back edge.\<close>

definition innermost_loop_header :: "CFGStructurizer \<Rightarrow> nref \<Rightarrow> nref res" where
  "innermost_loop_header s n = get_innermost_loop_header_for s (entry_block s) n"

section \<open>Escapes\<close>

definition inside_loop :: "CFGStructurizer \<Rightarrow> nref \<Rightarrow> nref \<Rightarrow> nref \<Rightarrow> bool res" where
  "inside_loop s header c f =
     bind_res (dominates s header f) (\<lambda>a. bind_res (query_reachability s f c) (\<lambda>b. Ok (a \<and> b)))"

definition control_flow_is_escaping_from_loop :: "CFGStructurizer \<Rightarrow> nref \<Rightarrow> nref \<Rightarrow> bool res" where
  "control_flow_is_escaping_from_loop s n m =
     (if n = m then Ok False
      else
        bind_res (post_dominates s m n) (\<lambda>pd.
        if \<not> pd then Fault Assertion_Failed
        else
        bind_res (innermost_loop_header s n) (\<lambda>header.
        case pred_back_edge (node_at s header) of
          None \<Rightarrow> Ok False
        | Some c \<Rightarrow>
            bind_res (dominates s n m) (\<lambda>dominates_merge.
            bind_res (query_reachability s n c) (\<lambda>can_reach_continue.
            bind_res (query_reachability s c n) (\<lambda>continue_can_reach.
            bind_res (all_res (inside_loop s header c) (post_dominance_frontier (node_at s n))) (\<lambda>pdf_can_reach_continue.
            Ok (\<not> dominates_merge \<and> \<not> continue_can_reach \<and> \<not> can_reach_continue \<and> pdf_can_reach_continue))))))))"

definition breaks_at_frontier :: "CFGStructurizer \<Rightarrow> nref \<Rightarrow> nref \<Rightarrow> bool res" where
  "breaks_at_frontier s n m =
     or_res
       (any_res (\<lambda>f. and_res (dominates s f n) (reaches_domination_frontier_before_merge s f m))
          (post_dominance_frontier (node_at s n)))
       (Ok (case succ (node_at s n) of [c] \<Rightarrow> succ_back_edge (node_at s c) \<noteq> None | _ \<Rightarrow> False))"

definition post_dominates_little :: "CFGStructurizer \<Rightarrow> nref \<Rightarrow> bool res" where
  "post_dominates_little s n =
     (if has_work (node_at s n) then Ok False
      else bind_res (count_post_dominates_work_from_incoming_preds s n) (\<lambda>c. Ok (c \<le> 1)))"

text \<open>A predecessor of the merge is followed up to a node that is related to \<open>n\<close> by reachability.\<close>

fun related_pred :: "nat \<Rightarrow> CFGStructurizer \<Rightarrow> nref \<Rightarrow> nref \<Rightarrow> nref res" where
  "related_pred 0 s n q = Fault Out_Of_Fuel"
| "related_pred (Suc k) s n q =
     (if q = n then Ok q
      else bind_res (or_res (query_reachability s q n) (query_reachability s n q)) (\<lambda>r.
        if r then Ok q else bind_res (deref (idom s q)) (related_pred k s n)))"

fun false_positive_scan :: "CFGStructurizer \<Rightarrow> nref \<Rightarrow> nref \<Rightarrow> nref list \<Rightarrow> bool \<Rightarrow> bool res" where
  "false_positive_scan s d n [] found = Ok found"
| "false_positive_scan s d n (q # qs) found =
     bind_res (dominates s d q) (\<lambda>dq.
     if \<not> dq then false_positive_scan s d n qs found
     else
       bind_res (related_pred (walk_fuel s) s n q) (\<lambda>q.
       if q = n then false_positive_scan s d n qs found
       else bind_res (query_reachability s q n) (\<lambda>r.
         if r then false_positive_scan s d n qs True else Ok False)))"

definition false_positive :: "CFGStructurizer \<Rightarrow> nref \<Rightarrow> nref \<Rightarrow> bool res" where
  "false_positive s n m =
     (if length (pred (node_at s n)) < 2 then Ok False
      else case (idom s n, pred (node_at s m)) of
        (_, []) \<Rightarrow> Ok False
      | (None, _) \<Rightarrow> Fault Null_Deref
      | (Some d, qs) \<Rightarrow> false_positive_scan s d n qs False)"

text \<open>
  The tests call each other on blocks further down: whether a block carries the only path to a merge
  asks whether the merge itself lies on a breaking path. The fuel bounds that recursion.
\<close>

definition switch_frontiers :: "CFGStructurizer \<Rightarrow> nref \<Rightarrow> nat" where
  "switch_frontiers s n =
     length (filter (\<lambda>f. term_type (terminator (ir (node_at s f))) = Term_Switch) (post_dominance_frontier (node_at s n)))"

definition carries_only_path :: "CFGStructurizer \<Rightarrow> nref \<Rightarrow> nref \<Rightarrow> bool res" where
  "carries_only_path s n m =
     (if length (pred (node_at s n)) < 2 then Ok False
      else bind_res (deref (idom s n)) (\<lambda>d. not_res (exists_path_in_cfg_without_intermediate_node s d m n)))"

fun block_is_load_bearing_at :: "nat \<Rightarrow> (nat \<Rightarrow> string) \<Rightarrow> CFGStructurizer \<Rightarrow> nref \<Rightarrow> nref \<Rightarrow> bool res"
  and control_flow_is_escaping_at :: "nat \<Rightarrow> (nat \<Rightarrow> string) \<Rightarrow> CFGStructurizer \<Rightarrow> nref \<Rightarrow> nref \<Rightarrow> bool res"
  and on_breaking_path_at :: "nat \<Rightarrow> (nat \<Rightarrow> string) \<Rightarrow> CFGStructurizer \<Rightarrow> nref \<Rightarrow> bool res" where
  "block_is_load_bearing_at 0 code s n m = Fault Out_Of_Fuel"
| "block_is_load_bearing_at (Suc k) code s n m =
     (case succ (node_at s m) of
        [c] \<Rightarrow>
          bind_res (on_breaking_path_at k code s m) (\<lambda>breaking.
          if breaking \<and> operations (ir (node_at s m)) \<noteq> [] \<and> \<not> block_is_control_dependent code (node_at s m)
          then block_is_load_bearing_at k code s n c
          else carries_only_path s n m)
      | _ \<Rightarrow> carries_only_path s n m)"
| "control_flow_is_escaping_at 0 code s n m = Fault Out_Of_Fuel"
| "control_flow_is_escaping_at (Suc k) code s n m =
     (if n = m then Ok False
      else
        or_res (control_flow_is_escaping_from_loop s n m)
          (bind_res (block_is_load_bearing_at k code s n m) (\<lambda>load_bearing.
           if load_bearing then Ok False
           else if switch_frontiers s n \<ge> 2 then Ok True
           else
             bind_res (reaches_domination_frontier_before_merge s n m) (\<lambda>merges.
             if merges then Ok False
             else
               or_res (breaks_at_frontier s n m)
                 (or_res (post_dominates_little s n) (not_res (false_positive s n m)))))))"
| "on_breaking_path_at 0 code s n = Fault Out_Of_Fuel"
| "on_breaking_path_at (Suc k) code s n =
     (case succ (node_at s n) of
        [c] \<Rightarrow>
          if length (pred (node_at s n)) < 2 then Ok False
          else
            and_res (not_res (dominates s n c))
              (and_res (post_dominates s c n)
                (and_res (control_flow_is_escaping_at k code s n c)
                  (not_res (post_dominates_perfect_structured_construct s n))))
      | _ \<Rightarrow> Ok False)"


definition escape_fuel :: "CFGStructurizer \<Rightarrow> nat" where
  "escape_fuel s = 3 * length (nodes s) + 3"

definition block_is_load_bearing :: "(nat \<Rightarrow> string) \<Rightarrow> CFGStructurizer \<Rightarrow> nref \<Rightarrow> nref \<Rightarrow> bool res" where
  "block_is_load_bearing code s = block_is_load_bearing_at (escape_fuel s) code s"

definition control_flow_is_escaping :: "(nat \<Rightarrow> string) \<Rightarrow> CFGStructurizer \<Rightarrow> nref \<Rightarrow> nref \<Rightarrow> bool res" where
  "control_flow_is_escaping code s = control_flow_is_escaping_at (escape_fuel s) code s"

definition merge_candidate_is_on_breaking_path :: "(nat \<Rightarrow> string) \<Rightarrow> CFGStructurizer \<Rightarrow> nref \<Rightarrow> bool res" where
  "merge_candidate_is_on_breaking_path code s = on_breaking_path_at (escape_fuel s) code s"

definition merge_candidate_is_inside_continue_construct :: "CFGStructurizer \<Rightarrow> nref \<Rightarrow> bool res" where
  "merge_candidate_is_inside_continue_construct s n =
     (case succ (node_at s n) of
        [c] \<Rightarrow>
          any_res (\<lambda>q. case succ_back_edge (node_at s q) of
              None \<Rightarrow> Ok False
            | Some b \<Rightarrow> and_res (post_dominates s c b) (and_res (dominates s b c) (not_res (dominates s q n))))
            (pred (node_at s n))
      | _ \<Rightarrow> Fault Assertion_Failed)"

section \<open>Which selections need a header\<close>

definition is_plain_selection_merge :: "CFGStructurizer \<Rightarrow> nref \<Rightarrow> bool" where
  "is_plain_selection_merge s c \<longleftrightarrow>
     (\<exists>h \<in> set (headers (node_at s c)). term_type (terminator (ir (node_at s h))) \<noteq> Term_Switch \<and>
        merge (node_at s h) = Merge_Selection \<and> selection_merge_block (node_at s h) = Some c)"

definition selection_requires_structured_header :: "CFGStructurizer \<Rightarrow> nref \<Rightarrow> bool res" where
  "selection_requires_structured_header s n =
     (case (succ (node_at s n), succ_back_edge (node_at s n)) of
        ([a, b], None) \<Rightarrow>
          or_res (or_res (query_reachability s a b) (Ok (block_is_plain_continue s a)))
            (or_res (or_res (query_reachability s b a) (Ok (block_is_plain_continue s b)))
              (Ok (\<not> is_plain_selection_merge s a \<and> \<not> is_plain_selection_merge s b)))
      | _ \<Rightarrow> Fault Assertion_Failed)"

section \<open>Entry and exit of a construct\<close>

text \<open>
  The state of the first walk: whether an inner merge target was found, and the latest candidate
  for one.
\<close>

definition is_earlier :: "CFGStructurizer \<Rightarrow> nref \<Rightarrow> nref option \<Rightarrow> bool" where
  "is_earlier s n e = (case e of None \<Rightarrow> True | Some x \<Rightarrow> forward_order (node_at s n) > forward_order (node_at s x))"

definition is_later :: "CFGStructurizer \<Rightarrow> nref \<Rightarrow> nref option \<Rightarrow> bool" where
  "is_later s n e = (case e of None \<Rightarrow> True | Some x \<Rightarrow> forward_order (node_at s n) < forward_order (node_at s x))"

definition inner_target_step ::
  "CFGStructurizer \<Rightarrow> nref \<Rightarrow> nref \<Rightarrow> nref \<Rightarrow> bool \<times> nref option \<Rightarrow> (bool \<times> bool \<times> nref option) res" where
  "inner_target_step s header m n = (\<lambda>(found, candidate).
     if n = m \<or> pred_back_edge (node_at s n) \<noteq> None then Ok (False, found, candidate)
     else if length (pred (node_at s n)) \<le> 1 then Ok (True, found, candidate)
     else
       case idom s n of
         None \<Rightarrow>
           if is_later s n candidate then Fault Null_Deref else Ok (True, found, candidate)
       | Some d \<Rightarrow>
           if d = header then Ok (False, True, candidate)
           else
             bind_res
               (if is_later s n candidate \<and> ipdom s d = Some m
                then not_res (exists_path_in_cfg_without_intermediate_node s header n d) else Ok False) (\<lambda>take.
             Ok (True, found, if take then Some n else candidate)))"

record break_ends =
  first_outer :: "nref option"
  first_inner :: "nref option"
  last_outer :: "nref option"
  last_inner :: "nref option"

definition note_break :: "CFGStructurizer \<Rightarrow> nref \<Rightarrow> bool \<Rightarrow> bool \<Rightarrow> break_ends \<Rightarrow> break_ends" where
  "note_break s n outer inner e =
     (if inner then
        e\<lparr>first_inner := (if is_earlier s n (first_inner e) then Some n else first_inner e),
          last_inner := (if is_later s n (last_inner e) then Some n else last_inner e)\<rparr>
      else if outer then
        e\<lparr>first_outer := (if is_earlier s n (first_outer e) then Some n else first_outer e),
          last_outer := (if is_later s n (last_outer e) then Some n else last_outer e)\<rparr>
      else e)"

definition break_ends_step ::
  "CFGStructurizer \<Rightarrow> nref \<Rightarrow> nref \<Rightarrow> nref \<Rightarrow> break_ends \<Rightarrow> (bool \<times> break_ends) res" where
  "break_ends_step s m t n e =
     (if n = m \<or> n = t then Ok (False, e)
      else
        bind_res (and_res (query_reachability s n m) (query_reachability s n t)) (\<lambda>inside.
        if \<not> inside then Ok (False, e)
        else if length (succ (node_at s n)) < 2 then Ok (True, e)
        else
          bind_res (any_res (post_dominates s m) (succ (node_at s n))) (\<lambda>outer.
          bind_res (any_res (post_dominates s t) (succ (node_at s n))) (\<lambda>inner.
          Ok (True, note_break s n outer inner e)))))"

definition crossing_breaks :: "CFGStructurizer \<Rightarrow> break_ends \<Rightarrow> bool res" where
  "crossing_breaks s e =
     (case (first_outer e, first_inner e, last_outer e, last_inner e) of
        (Some fo, Some fi, Some lo, Some li) \<Rightarrow>
          or_res (is_strictly_dominance_ordered s fi fo li) (is_strictly_dominance_ordered s fo fi lo)
      | _ \<Rightarrow> Ok False)"

definition header_and_merge_block_have_entry_exit_relationship :: "CFGStructurizer \<Rightarrow> nref \<Rightarrow> nref \<Rightarrow> bool res" where
  "header_and_merge_block_have_entry_exit_relationship s header m =
     bind_res (post_dominates s m header) (\<lambda>pd.
     if \<not> pd then Ok False
     else
       bind_res (traverse_dominated_blocks s header (inner_target_step s header m) (False, None)) (\<lambda>(found, candidate).
       if found then Ok True
       else case candidate of
         None \<Rightarrow> Ok False
       | Some t \<Rightarrow>
           bind_res (traverse_dominated_blocks s header (break_ends_step s m t)
               \<lparr>first_outer = None, first_inner = None, last_outer = None, last_inner = None\<rparr>)
             (crossing_breaks s)))"

section \<open>Selection merges\<close>

text \<open>A switch that is merged to already, or a fallthrough to a case label, is no merge of its own.\<close>

definition is_switch_node :: "CFGStructurizer \<Rightarrow> nref \<Rightarrow> bool" where
  "is_switch_node s n \<longleftrightarrow> term_type (terminator (ir (node_at s n))) = Term_Switch"

definition handled_by_switch :: "CFGStructurizer \<Rightarrow> nref \<Rightarrow> bool res" where
  "handled_by_switch s n =
     bind_res (get_outer_selection_dominator s n) (\<lambda>h.
     Ok (is_switch_node s h \<and> (selection_merge_block (node_at s h) = Some n \<or> n \<in> set (succ (node_at s h)))))"

definition construct_header :: "CFGStructurizer \<Rightarrow> nref \<Rightarrow> nref \<Rightarrow> nref res" where
  "construct_header s n d =
     (let d = fold (\<lambda>h d. if forward_order (node_at s h) > forward_order (node_at s d) then h else d)
                (headers (node_at s n)) d
      in
      if pred_back_edge (node_at s d) \<noteq> None then Ok d
      else bind_res (innermost_loop_header s d) (\<lambda>h. Ok (if loop_ladder_block (node_at s h) = Some n then h else d)))"

text \<open>A selection header that gets a second merge target becomes a loop, with the selection in a block after it.\<close>

definition promote_selection :: "nref \<Rightarrow> CFGStructurizer \<Rightarrow> (nref \<times> CFGStructurizer) res" where
  "promote_selection d s =
     (case selection_merge_block (node_at s d) of
        None \<Rightarrow> Fault Assertion_Failed
      | Some m \<Rightarrow>
          bind_res (find_common_post_dominator m d s) (\<lambda>(c, s).
          let s = update_node d (\<lambda>x. if c = m then x\<lparr>loop_merge_block := Some m\<rparr>
                    else x\<lparr>loop_ladder_block := Some m, loop_merge_block := Some c\<rparr>) s;
              s = add_unique_header c d s;
              s = update_node d (\<lambda>x. x\<lparr>merge := Merge_Loop, selection_merge_block := None,
                    freeze_structured_analysis := True\<rparr>) s
          in create_helper_succ_block d s))"

definition declare_merge :: "nat \<Rightarrow> nref \<Rightarrow> nref \<Rightarrow> CFGStructurizer \<Rightarrow> CFGStructurizer" where
  "declare_merge pass n d s =
     (if pass = 1 \<and> length (pred (node_at s n)) > 2 \<and> merge (node_at s d) = Merge_None
      then update_node d (\<lambda>x. x\<lparr>loop_merge_block := Some n, freeze_structured_analysis := True\<rparr>)
             (add_unique_header n d (update_node d (\<lambda>x. x\<lparr>merge := Merge_Loop\<rparr>) s))
      else update_node d (\<lambda>x. x\<lparr>selection_merge_block := Some n\<rparr>)
             (add_unique_header n d (update_node d (\<lambda>x. x\<lparr>merge := Merge_Selection\<rparr>) s)))"

definition merge_at_loop_header :: "nat \<Rightarrow> nref \<Rightarrow> nref \<Rightarrow> CFGStructurizer \<Rightarrow> CFGStructurizer res" where
  "merge_at_loop_header pass n d s =
     (let x = node_at s d in
      if pass \<noteq> 0 then Ok s
      else if loop_merge_block x = Some n \<and> loop_ladder_block x \<noteq> None then
        bind_res (create_helper_pred_block d s) (\<lambda>(l, s).
        Ok (add_unique_header n l (update_node l (\<lambda>x. x\<lparr>merge := Merge_Loop, loop_merge_block := Some n,
              freeze_structured_analysis := True\<rparr>) s)))
      else if loop_merge_block x \<noteq> Some n \<and> loop_ladder_block x \<noteq> Some n then
        bind_res (create_helper_succ_block d s) (\<lambda>(h, s).
        Ok (add_unique_header n h (update_node h (\<lambda>x. x\<lparr>merge := Merge_Selection, selection_merge_block := Some n\<rparr>) s)))
      else Ok s)"

definition merge_at_header :: "nat \<Rightarrow> nref \<Rightarrow> nref \<Rightarrow> CFGStructurizer \<Rightarrow> CFGStructurizer res" where
  "merge_at_header pass n d s =
     (if merge (node_at s d) = Merge_Loop then merge_at_loop_header pass n d s
      else if is_switch_node s d then Ok s
      else
        bind_res (if merge (node_at s d) = Merge_Selection \<and> pass = 0 then promote_selection d s else Ok (d, s)) (\<lambda>(d, s).
        Ok (declare_merge pass n d s)))"

definition find_selection_merge :: "nat \<Rightarrow> nref \<Rightarrow> CFGStructurizer \<Rightarrow> CFGStructurizer res" where
  "find_selection_merge pass n s =
     (if length (pred (node_at s n)) \<le> 1 \<or> block_is_plain_continue s n then Ok s
      else
        bind_res (deref (idom s n)) (\<lambda>d.
        if length (succ (node_at s d)) < 2 then Fault Assertion_Failed
        else
          bind_res (handled_by_switch s n) (\<lambda>skip.
          if skip then Ok s
          else bind_res (construct_header s n d) (\<lambda>d. merge_at_header pass n d s))))"

definition find_selection_merges :: "nat \<Rightarrow> CFGStructurizer \<Rightarrow> CFGStructurizer res" where
  "find_selection_merges pass s = fold_res (find_selection_merge pass) (forward_post_visit_order s) s"

end
