(* ===== verification/Spv_Builder.thy ===== *)
theory Spv_Builder
  imports Prelude
begin

text \<open>
  \<open>third_party/glslang-spirv/SpvBuilder.cpp\<close>, as far as the structurizer uses it through
  \<open>SPIRVModule\<close>: fresh result identifiers, the scalar types and constants that are made once and
  found again, and debug names. An opcode is the name of its \<open>spv::Op\<close> enumerator. The map from
  identifiers to instructions, capabilities and blocks are left out: nothing here reads them.
\<close>

section \<open>State\<close>

record Instruction =
  resultId :: u32
  typeId :: u32
  opCode :: string
  operands :: "u32 list"

record Builder =
  uniqueId :: u32
  groupedTypes :: "string \<Rightarrow> Instruction list"
  groupedConstants :: "string \<Rightarrow> Instruction list"
  constantsTypesGlobals :: "Instruction list"
  names :: "(u32 \<times> string) list"

definition Builder_new :: Builder where
  "Builder_new = \<lparr>uniqueId = 0, groupedTypes = (\<lambda>_. []), groupedConstants = (\<lambda>_. []), constantsTypesGlobals = [], names = []\<rparr>"

definition getUniqueId :: "Builder \<Rightarrow> u32 \<times> Builder" where
  "getUniqueId b = (uniqueId b + 1, b\<lparr>uniqueId := uniqueId b + 1\<rparr>)"

definition allocate_id :: "Builder \<Rightarrow> u32 \<times> Builder" where
  "allocate_id = getUniqueId"

definition getImmediateOperand :: "Instruction \<Rightarrow> nat \<Rightarrow> u32 res" where
  "getImmediateOperand i opr = index (operands i) opr"

definition addName :: "u32 \<Rightarrow> string \<Rightarrow> Builder \<Rightarrow> Builder" where
  "addName i s b = b\<lparr>names := names b @ [(i, s)]\<rparr>"

section \<open>Types\<close>

definition add_type_instruction :: "string \<Rightarrow> u32 list \<Rightarrow> Builder \<Rightarrow> u32 \<times> Builder" where
  "add_type_instruction opr ops b =
     (case getUniqueId b of (i, b) \<Rightarrow>
      let t = \<lparr>resultId = i, typeId = 0, opCode = opr, operands = ops\<rparr>
      in (i, b\<lparr>groupedTypes := (groupedTypes b)(opr := groupedTypes b opr @ [t]),
               constantsTypesGlobals := constantsTypesGlobals b @ [t]\<rparr>))"

definition makeBoolType :: "Builder \<Rightarrow> u32 \<times> Builder" where
  "makeBoolType b =
     (if groupedTypes b ''OpTypeBool'' = [] then add_type_instruction ''OpTypeBool'' [] b
      else (resultId (last (groupedTypes b ''OpTypeBool'')), b))"

fun find_integer_type :: "u32 \<Rightarrow> bool \<Rightarrow> Instruction list \<Rightarrow> u32 option res" where
  "find_integer_type width hasSign [] = Ok None"
| "find_integer_type width hasSign (t # ts) =
     bind_res (getImmediateOperand t 0) (\<lambda>w.
     if w \<noteq> width then find_integer_type width hasSign ts
     else bind_res (getImmediateOperand t 1) (\<lambda>sg.
       if sg = (if hasSign then 1 else 0) then Ok (Some (resultId t)) else find_integer_type width hasSign ts))"

definition makeIntegerType :: "u32 \<Rightarrow> bool \<Rightarrow> Builder \<Rightarrow> (u32 \<times> Builder) res" where
  "makeIntegerType width hasSign b =
     bind_res (find_integer_type width hasSign (groupedTypes b ''OpTypeInt'')) (\<lambda>r.
     Ok (case r of Some i \<Rightarrow> (i, b)
         | None \<Rightarrow> add_type_instruction ''OpTypeInt'' [width, if hasSign then 1 else 0] b))"

definition makeIntType :: "u32 \<Rightarrow> Builder \<Rightarrow> (u32 \<times> Builder) res" where
  "makeIntType width = makeIntegerType width True"

definition makeUintType :: "u32 \<Rightarrow> Builder \<Rightarrow> (u32 \<times> Builder) res" where
  "makeUintType width = makeIntegerType width False"

section \<open>Constants\<close>

definition add_constant_instruction :: "string \<Rightarrow> string \<Rightarrow> u32 \<Rightarrow> u32 list \<Rightarrow> Builder \<Rightarrow> u32 \<times> Builder" where
  "add_constant_instruction typeClass opr ty ops b =
     (case getUniqueId b of (i, b) \<Rightarrow>
      let c = \<lparr>resultId = i, typeId = ty, opCode = opr, operands = ops\<rparr>
      in (i, b\<lparr>groupedConstants := (groupedConstants b)(typeClass := groupedConstants b typeClass @ [c]),
               constantsTypesGlobals := constantsTypesGlobals b @ [c]\<rparr>))"

text \<open>Zero stands for no identifier: identifiers start at one.\<close>

fun find_constant :: "string \<Rightarrow> u32 \<Rightarrow> u32 \<Rightarrow> Instruction list \<Rightarrow> u32 res" where
  "find_constant opr ty v [] = Ok 0"
| "find_constant opr ty v (c # cs) =
     (if opCode c = opr \<and> typeId c = ty
      then bind_res (getImmediateOperand c 0) (\<lambda>w. if w = v then Ok (resultId c) else find_constant opr ty v cs)
      else find_constant opr ty v cs)"

definition findScalarConstant :: "string \<Rightarrow> string \<Rightarrow> u32 \<Rightarrow> u32 \<Rightarrow> Builder \<Rightarrow> u32 res" where
  "findScalarConstant typeClass opr ty v b = find_constant opr ty v (groupedConstants b typeClass)"

definition makeBoolConstant :: "bool \<Rightarrow> bool \<Rightarrow> Builder \<Rightarrow> u32 \<times> Builder" where
  "makeBoolConstant v specConstant b =
     (case makeBoolType b of (ty, b) \<Rightarrow>
      let opr = (if specConstant then (if v then ''OpSpecConstantTrue'' else ''OpSpecConstantFalse'')
                 else (if v then ''OpConstantTrue'' else ''OpConstantFalse''));
          existing = (if specConstant then 0
                      else fold (\<lambda>c e. if typeId c = ty \<and> opCode c = opr then resultId c else e)
                             (groupedConstants b ''OpTypeBool'') 0)
      in if existing \<noteq> 0 then (existing, b) else add_constant_instruction ''OpTypeBool'' opr ty [] b)"

definition makeIntConstant_of :: "u32 \<Rightarrow> u32 \<Rightarrow> bool \<Rightarrow> Builder \<Rightarrow> (u32 \<times> Builder) res" where
  "makeIntConstant_of ty value specConstant b =
     (let opr = (if specConstant then ''OpSpecConstant'' else ''OpConstant'') in
      bind_res (if specConstant then Ok 0 else findScalarConstant ''OpTypeInt'' opr ty value b) (\<lambda>existing.
      Ok (if existing \<noteq> 0 then (existing, b) else add_constant_instruction ''OpTypeInt'' opr ty [value] b)))"

text \<open>An \<open>int\<close> is converted to \<open>unsigned\<close>, so the operand is the same word.\<close>

definition makeIntConstant :: "u32 \<Rightarrow> Builder \<Rightarrow> (u32 \<times> Builder) res" where
  "makeIntConstant i b = bind_res (makeIntType 32 b) (\<lambda>(ty, b). makeIntConstant_of ty i False b)"

definition makeUintConstant :: "u32 \<Rightarrow> Builder \<Rightarrow> (u32 \<times> Builder) res" where
  "makeUintConstant u b = bind_res (makeUintType 32 b) (\<lambda>(ty, b). makeIntConstant_of ty u False b)"

text \<open>A 64-bit constant has two operands, the low word first.\<close>

fun find_constant_of_two :: "string \<Rightarrow> u32 \<Rightarrow> u32 \<Rightarrow> u32 \<Rightarrow> Instruction list \<Rightarrow> u32 res" where
  "find_constant_of_two opr ty v1 v2 [] = Ok 0"
| "find_constant_of_two opr ty v1 v2 (c # cs) =
     (if opCode c = opr \<and> typeId c = ty
      then bind_res (getImmediateOperand c 0) (\<lambda>w1.
        if w1 \<noteq> v1 then find_constant_of_two opr ty v1 v2 cs
        else bind_res (getImmediateOperand c 1) (\<lambda>w2.
          if w2 = v2 then Ok (resultId c) else find_constant_of_two opr ty v1 v2 cs))
      else find_constant_of_two opr ty v1 v2 cs)"

definition findScalarConstant_of_two :: "string \<Rightarrow> string \<Rightarrow> u32 \<Rightarrow> u32 \<Rightarrow> u32 \<Rightarrow> Builder \<Rightarrow> u32 res" where
  "findScalarConstant_of_two typeClass opr ty v1 v2 b = find_constant_of_two opr ty v1 v2 (groupedConstants b typeClass)"

definition makeInt64Constant_of :: "u32 \<Rightarrow> u64 \<Rightarrow> bool \<Rightarrow> Builder \<Rightarrow> (u32 \<times> Builder) res" where
  "makeInt64Constant_of ty value specConstant b =
     (let opr = (if specConstant then ''OpSpecConstant'' else ''OpConstant'');
          op1 = ucast (and value 0xFFFFFFFF); op2 = ucast (drop_bit 32 value)
      in
      bind_res (if specConstant then Ok 0 else findScalarConstant_of_two ''OpTypeInt'' opr ty op1 op2 b) (\<lambda>existing.
      Ok (if existing \<noteq> 0 then (existing, b) else add_constant_instruction ''OpTypeInt'' opr ty [op1, op2] b)))"

definition makeInt64Constant :: "u64 \<Rightarrow> Builder \<Rightarrow> (u32 \<times> Builder) res" where
  "makeInt64Constant i b = bind_res (makeIntType 64 b) (\<lambda>(ty, b). makeInt64Constant_of ty i False b)"

definition makeUint64Constant :: "u64 \<Rightarrow> Builder \<Rightarrow> (u32 \<times> Builder) res" where
  "makeUint64Constant u b = bind_res (makeUintType 64 b) (\<lambda>(ty, b). makeInt64Constant_of ty u False b)"

end
