(* ===== verification/Cfg_Dispatch.thy ===== *)
theory Cfg_Dispatch
  imports Cfg_Selection Spv_Builder
begin

text \<open>
  \<open>cfg_structurizer.cpp\<close>: the blocks that collect control flow and dispatch it again by a selector
  that a phi reads off the predecessor. The state is the graph with the SPIR-V builder.
\<close>

type_synonym shader = "CFGStructurizer \<times> Builder"

definition on_cfg :: "(CFGStructurizer \<Rightarrow> CFGStructurizer res) \<Rightarrow> shader \<Rightarrow> shader res" where
  "on_cfg f = (\<lambda>(s, b). bind_res (f s) (\<lambda>s. Ok (s, b)))"

definition update_terminator :: "(Terminator \<Rightarrow> Terminator) \<Rightarrow> CFGNode \<Rightarrow> CFGNode" where
  "update_terminator f x = x\<lparr>ir := (ir x)\<lparr>terminator := f (terminator (ir x))\<rparr>\<rparr>"

definition push_phi :: "PHI \<Rightarrow> CFGNode \<Rightarrow> CFGNode" where
  "push_phi p x = x\<lparr>ir := (ir x)\<lparr>phi := phi (ir x) @ [p]\<rparr>\<rparr>"

definition condition_terminator :: "u32 \<Rightarrow> nref \<Rightarrow> nref \<Rightarrow> Terminator \<Rightarrow> Terminator" where
  "condition_terminator c t f x =
     x\<lparr>term_type := Term_Condition, conditional_id := c, true_block := Some t, false_block := Some f, direct_block := None\<rparr>"

text \<open>The incoming values of a boolean phi: one per predecessor, by a test on the block.\<close>

definition bool_incoming :: "(nref \<Rightarrow> bool) \<Rightarrow> nref list \<Rightarrow> Builder \<Rightarrow> IncomingValue list \<times> Builder" where
  "bool_incoming path ps b =
     fold (\<lambda>p (ins, b). case makeBoolConstant (path p) False b of (i, b) \<Rightarrow>
             (ins @ [\<lparr>incoming_block = Some p, incoming_id = i\<rparr>], b)) ps ([], b)"

definition rewrite_ladder_conditional_branch_from_incoming_blocks ::
  "nref \<Rightarrow> nref \<Rightarrow> nref \<Rightarrow> (nref \<Rightarrow> bool) \<Rightarrow> string \<Rightarrow> shader \<Rightarrow> shader res" where
  "rewrite_ladder_conditional_branch_from_incoming_blocks ladder t f path_cb name = (\<lambda>(s, b).
     bind_res (add_branch ladder t s) (\<lambda>s.
     bind_res (add_branch ladder f s) (\<lambda>s.
     case allocate_id b of (c, b) \<Rightarrow>
     let s = update_node ladder (update_terminator (condition_terminator c t f)) s in
     case makeBoolType b of (ty, b) \<Rightarrow>
     case bool_incoming path_cb (pred (node_at s ladder)) (addName c name b) of (ins, b) \<Rightarrow>
     Ok (update_node ladder (push_phi \<lparr>phi_id = c, phi_type_id = ty, relaxed = False, incoming = ins\<rparr>) s, b))))"

definition transpose_code_path_through_ladder_block :: "nref \<Rightarrow> nref \<Rightarrow> nref \<Rightarrow> shader \<Rightarrow> (nref \<times> shader) res" where
  "transpose_code_path_through_ladder_block header m path = (\<lambda>(s, b).
     bind_res (and_res (dominates s header m)
        (or_res (dominates s header path) (Ok (path \<in> set (dominance_frontier (node_at s header)))))) (\<lambda>inside.
     bind_res (query_reachability s m path) (\<lambda>reaches.
     bind_res (dominates s m path) (\<lambda>d.
     if \<not> inside \<or> \<not> reaches \<or> d \<or> header = m \<or> m = path \<or> header = path then Fault Assertion_Failed
     else
       bind_res (create_ladder_block header m ''.transpose'' s) (\<lambda>(ladder, s).
       let normal_preds = set (pred (node_at s ladder)) in
       bind_res (rewrite_branch_under header path ladder s) (\<lambda>s.
       bind_res (rewrite_ladder_conditional_branch_from_incoming_blocks ladder path m (\<lambda>n. n \<notin> normal_preds)
                   (''transpose_ladder_phi_'' @ node_name (node_at s ladder)) (s, b)) (\<lambda>sb. Ok (ladder, sb))))))))"

section \<open>Collecting at an anchor\<close>

definition constant_incoming :: "bool \<Rightarrow> nref list \<Rightarrow> IncomingValue list \<times> Builder \<Rightarrow> IncomingValue list \<times> Builder" where
  "constant_incoming v ps = (\<lambda>(ins, b). case bool_incoming (\<lambda>_. v) ps b of (xs, b) \<Rightarrow> (ins @ xs, b))"

definition bool_phi :: "nref list \<Rightarrow> nref list \<Rightarrow> Builder \<Rightarrow> PHI \<times> Builder" where
  "bool_phi trues falses b =
     (case allocate_id b of (i, b) \<Rightarrow>
      case makeBoolType b of (ty, b) \<Rightarrow>
      case constant_incoming False falses (constant_incoming True trues ([], b)) of (ins, b) \<Rightarrow>
      (\<lparr>phi_id = i, phi_type_id = ty, relaxed = False, incoming = ins\<rparr>, b))"

text \<open>The assertion looks at both targets of the anchor; a null target is a null dereference.\<close>

definition anchor_leads_to :: "CFGStructurizer \<Rightarrow> nref \<Rightarrow> nref \<Rightarrow> bool res" where
  "anchor_leads_to s anchor c =
     (let t = terminator (ir (node_at s anchor)) in
      or_res (bind_res (deref (true_block t)) (post_dominates s c)) (bind_res (deref (false_block t)) (post_dominates s c)))"

definition lead_in :: "string \<Rightarrow> nref \<Rightarrow> nref \<Rightarrow> nref \<Rightarrow> CFGStructurizer \<Rightarrow> CFGStructurizer" where
  "lead_in tag anchor c n s =
     update_node n (\<lambda>x. x\<lparr>node_name := node_name (node_at s anchor) @ tag,
       immediate_dominator := Some anchor, immediate_post_dominator := Some c,
       forward_order := forward_order (node_at s c), backward_order := backward_order (node_at s c)\<rparr>) s"

definition branch_to :: "nref \<Rightarrow> nref \<Rightarrow> CFGStructurizer \<Rightarrow> CFGStructurizer res" where
  "branch_to t n s = bind_res (add_branch n t s) (\<lambda>s. Ok (update_node n (set_branch_to t) s))"

text \<open>The four blocks around the anchor: two lead-ins, their common end and the dispatcher.\<close>

definition anchor_blocks ::
  "nref \<Rightarrow> nref \<Rightarrow> nref \<Rightarrow> CFGStructurizer \<Rightarrow> ((nref \<times> nref \<times> nref \<times> nref) \<times> CFGStructurizer) res" where
  "anchor_blocks anchor c0 c1 s =
     (case create_node s of (a0, s) \<Rightarrow> case create_node s of (a1, s) \<Rightarrow>
      case create_node s of (e, s) \<Rightarrow> case create_node s of (d, s) \<Rightarrow>
      let s = lead_in ''.anchor1'' anchor c1 a1 (lead_in ''.anchor0'' anchor c0 a0 s) in
      bind_res (branch_to e a0 s) (\<lambda>s.
      bind_res (branch_to e a1 s) (\<lambda>s.
      let s = update_node e (\<lambda>x. x\<lparr>node_name := node_name (node_at s anchor) @ ''.anchor-term''\<rparr>) s in
      bind_res (branch_to d e s) (\<lambda>s.
      Ok ((a0, a1, e, d),
          update_node d (\<lambda>x. x\<lparr>node_name := node_name (node_at s anchor) @ ''.anchor-dispatch''\<rparr>) s)))))"

text \<open>
  All branches to the constructs are moved in front of the anchor. The numbers of predecessors
  say where the normal path and the path to the first construct end in the list.
\<close>

definition collect_in_front ::
  "nref \<Rightarrow> nref \<Rightarrow> nref \<Rightarrow> nref \<Rightarrow> nref \<Rightarrow> nref \<Rightarrow> CFGStructurizer \<Rightarrow> ((nat \<times> nat) \<times> CFGStructurizer) res" where
  "collect_in_front anchor anchor_pred c0 c1 a0 a1 s =
     bind_res (rewrite_branch_under anchor c0 a0 s) (\<lambda>s.
     bind_res (rewrite_branch_under anchor c1 a1 s) (\<lambda>s.
     let normal = length (pred (node_at s anchor_pred)) in
     bind_res (deref (idom s c0)) (\<lambda>d.
     bind_res (rewrite_branch_under d c0 anchor_pred s) (\<lambda>s.
     let path0 = length (pred (node_at s anchor_pred)) in
     bind_res (deref (idom s c1)) (\<lambda>d.
     bind_res (rewrite_branch_under d c1 anchor_pred s) (\<lambda>s.
     if pred (node_at s c0) \<noteq> [] \<or> pred (node_at s c1) \<noteq> [] then Fault Assertion_Failed
     else Ok ((normal, path0), s)))))))"

definition dispatch_from_anchor ::
  "nref \<Rightarrow> nref \<Rightarrow> nref \<Rightarrow> nref \<Rightarrow> nref \<Rightarrow> nref \<Rightarrow> nat \<Rightarrow> nat \<Rightarrow> PHI \<Rightarrow> shader \<Rightarrow> shader res" where
  "dispatch_from_anchor anchor anchor_pred e d c0 c1 normal path0 selector = (\<lambda>(s, b).
     let ps = pred (node_at s anchor_pred) in
     case bool_phi (take normal ps) (drop normal ps) b of (take_anchor, b) \<Rightarrow>
     bind_res (add_branch anchor_pred anchor s) (\<lambda>s.
     bind_res (add_branch anchor_pred d s) (\<lambda>s.
     let s = update_node anchor_pred (update_terminator (condition_terminator (phi_id take_anchor) anchor d)) s;
         ps = pred (node_at s anchor_pred)
     in
     case bool_phi (take path0 ps) (drop path0 ps) b of (outside_true, b) \<Rightarrow>
     case allocate_id b of (i, b) \<Rightarrow>
     case makeBoolType b of (ty, b) \<Rightarrow>
     let cond = \<lparr>phi_id = i, phi_type_id = ty, relaxed = False,
           incoming = [\<lparr>incoming_block = Some anchor, incoming_id = phi_id selector\<rparr>,
                       \<lparr>incoming_block = Some anchor_pred, incoming_id = phi_id outside_true\<rparr>]\<rparr>;
         s = update_node anchor_pred (push_phi outside_true \<circ> push_phi take_anchor) s;
         s = update_node e (push_phi selector) s;
         s = update_node d (update_terminator (\<lambda>t. t\<lparr>conditional_id := i, term_type := Term_Condition,
               true_block := Some c0, false_block := Some c1\<rparr>)) s
     in
     bind_res (add_branch d c0 s) (\<lambda>s.
     bind_res (add_branch d c1 s) (\<lambda>s. Ok (update_node d (push_phi cond) s, b))))))"

definition collect_and_dispatch_control_flow_from_anchor :: "nref \<Rightarrow> nref list \<Rightarrow> shader \<Rightarrow> shader res" where
  "collect_and_dispatch_control_flow_from_anchor anchor constructs = (\<lambda>(s, b).
     case constructs of
       [c0, c1] \<Rightarrow>
         if term_type (terminator (ir (node_at s anchor))) \<noteq> Term_Condition then Fault Assertion_Failed
         else
           bind_res (and_res (anchor_leads_to s anchor c0) (anchor_leads_to s anchor c1)) (\<lambda>leads.
           if \<not> leads then Fault Assertion_Failed
           else
             bind_res (create_helper_pred_block anchor s) (\<lambda>(anchor_pred, s).
             bind_res (anchor_blocks anchor c0 c1 s) (\<lambda>((a0, a1, e, d), s).
             case bool_phi [a0] [a1] b of (selector, b) \<Rightarrow>
             bind_res (collect_in_front anchor anchor_pred c0 c1 a0 a1 s) (\<lambda>((normal, path0), s).
             dispatch_from_anchor anchor anchor_pred e d c0 c1 normal path0 selector (s, b)))))
     | _ \<Rightarrow> Fault Assertion_Failed)"

section \<open>Collecting the branches to several constructs\<close>

text \<open>
  The nodes \<open>iterate_dominated_node_range_bottom_up\<close> calls its argument on. When the start does not
  come after the end in the order, the iterator runs off the end of the vector.
\<close>

definition dominated_node_range :: "CFGStructurizer \<Rightarrow> nref \<Rightarrow> nref \<Rightarrow> nref list res" where
  "dominated_node_range s start end' =
     bind_res (dominates s start end') (\<lambda>d.
     if \<not> d \<or> end' \<notin> set (forward_post_visit_order s) \<or> start \<notin> set (forward_post_visit_order s) then Fault Assertion_Failed
     else
       let rest = dropWhile (\<lambda>n. n \<noteq> end') (forward_post_visit_order s) in
       if start \<notin> set rest then Fault Out_Of_Bounds
       else filter_res (\<lambda>n. and_res (dominates s start n) (query_reachability s n end')) (takeWhile (\<lambda>n. n \<noteq> start) rest))"

definition can_reach_any_construct :: "CFGStructurizer \<Rightarrow> nref list \<Rightarrow> nref \<Rightarrow> bool res" where
  "can_reach_any_construct s constructs n = any_res (query_reachability s n) constructs"

definition any_succ_escapes_constructs :: "CFGStructurizer \<Rightarrow> nref list \<Rightarrow> nref \<Rightarrow> bool res" where
  "any_succ_escapes_constructs s constructs n =
     any_res (\<lambda>c. not_res (can_reach_any_construct s constructs c)) (succ (node_at s n))"

definition leaves_scope :: "CFGStructurizer \<Rightarrow> nref \<Rightarrow> nref list \<Rightarrow> bool \<Rightarrow> nref \<Rightarrow> bool res" where
  "leaves_scope s common_idom constructs collect_all n =
     or_res
       (case succ_back_edge (node_at s n) of
          None \<Rightarrow> Ok False
        | Some c \<Rightarrow> if c \<noteq> common_idom then query_reachability s c common_idom else Ok False)
       (if collect_all \<or> n \<in> set constructs then Ok False
        else and_res (can_reach_any_construct s constructs n) (any_succ_escapes_constructs s constructs n))"

definition can_freeze :: "CFGStructurizer \<Rightarrow> nref \<Rightarrow> nref \<Rightarrow> nref list \<Rightarrow> bool \<Rightarrow> bool res" where
  "can_freeze s common_idom common_pdom constructs collect_all =
     (if pred_back_edge (node_at s common_idom) \<noteq> None then Ok False
      else
        bind_res (post_dominates s common_pdom common_idom) (\<lambda>pd.
        if \<not> pd \<or> is_switch_node s common_idom then Ok False
        else
          bind_res (if collect_all then Ok False else any_succ_escapes_constructs s constructs common_idom) (\<lambda>escapes.
          bind_res (dominated_node_range s common_idom common_pdom) (\<lambda>range.
          if escapes then Ok False
          else not_res (any_res (leaves_scope s common_idom constructs collect_all) range)))))"

text \<open>The dispatcher, whether it has a fallback path, and the incoming values of that path.\<close>

definition int_incoming :: "u32 \<Rightarrow> nref list \<Rightarrow> IncomingValue list \<times> Builder \<Rightarrow> (IncomingValue list \<times> Builder) res" where
  "int_incoming v = fold_res (\<lambda>p (ins, b).
     bind_res (makeIntConstant v b) (\<lambda>(i, b). Ok (ins @ [\<lparr>incoming_block = Some p, incoming_id = i\<rparr>], b)))"

record dispatch_state =
  dispatcher :: nref
  need_default_case :: bool
  plain_branch :: bool
  selector_values :: "IncomingValue list"
  cutoff_index :: nat

definition dispatcher_at_merge :: "nref \<Rightarrow> nref list \<Rightarrow> shader \<Rightarrow> (dispatch_state \<times> shader) res" where
  "dispatcher_at_merge common_pdom constructs = (\<lambda>(s, b).
     bind_res (create_helper_pred_block common_pdom s) (\<lambda>(d, s).
     bind_res (fold_res (\<lambda>c. rewrite_branch_under c d common_pdom) constructs s) (\<lambda>s.
     let ps = pred (node_at s d); fallback = (ps \<noteq> []); plain = (\<not> fallback \<and> length constructs = 2) in
     bind_res (if plain then Ok ([], snd (makeBoolType b))
               else bind_res (int_incoming (- 1) ps ([], b)) (\<lambda>(ins, b).
                    bind_res (makeIntType 32 b) (\<lambda>(_, b). Ok (ins, b)))) (\<lambda>(ins, b).
     Ok (\<lparr>dispatcher = d, need_default_case = fallback, plain_branch = plain, selector_values = ins, cutoff_index = length ps\<rparr>, s, b)))))"

definition fresh_dispatcher :: "nref \<Rightarrow> nref \<Rightarrow> nref list \<Rightarrow> shader \<Rightarrow> dispatch_state \<times> shader" where
  "fresh_dispatcher common_idom common_pdom constructs = (\<lambda>(s, b).
     case create_node s of (d, s) \<Rightarrow>
     (\<lparr>dispatcher = d, need_default_case = False, plain_branch = (length constructs = 2), selector_values = [], cutoff_index = 0\<rparr>,
      update_node d (\<lambda>x. x\<lparr>node_name := node_name (node_at s common_idom) @ ''.collector'',
        immediate_dominator := Some common_idom, immediate_post_dominator := Some common_pdom,
        forward_order := forward_order (node_at s common_pdom), backward_order := backward_order (node_at s common_pdom)\<rparr>) s, b))"

definition collect_construct ::
  "nref \<Rightarrow> nref list \<Rightarrow> bool \<Rightarrow> nat \<times> nref \<Rightarrow> dispatch_state \<times> shader \<Rightarrow> (dispatch_state \<times> shader) res" where
  "collect_construct common_idom constructs allow_crossing = (\<lambda>(i, c) (t, s, b).
     bind_res (if allow_crossing
               then traverse_dominated_blocks_and_rewrite_branch (\<lambda>_ _. Ok True) constructs common_idom c (dispatcher t) s
               else rewrite_branch_under common_idom c (dispatcher t) s) (\<lambda>s.
     let ps = drop (cutoff_index t) (pred (node_at s (dispatcher t))) in
     bind_res (if plain_branch t then Ok (constant_incoming (i \<noteq> 0) ps (selector_values t, b))
               else int_incoming (of_nat i) ps (selector_values t, b)) (\<lambda>(ins, b).
     Ok (t\<lparr>selector_values := ins, cutoff_index := length (pred (node_at s (dispatcher t)))\<rparr>, s, b))))"

definition switch_to_construct ::
  "nref \<Rightarrow> nref \<Rightarrow> bool \<Rightarrow> bool \<Rightarrow> nat \<times> nref \<Rightarrow> CFGStructurizer \<Rightarrow> CFGStructurizer res" where
  "switch_to_construct d fallback need_default allow_crossing = (\<lambda>(i, c) s.
     if \<not> allow_crossing \<and> pred (node_at s c) \<noteq> [] \<and> c \<noteq> fallback then Fault Assertion_Failed
     else
       bind_res (add_branch d c s) (\<lambda>s.
       Ok (if need_default \<or> i \<noteq> 0
           then update_node d (update_terminator (\<lambda>t. t\<lparr>cases := cases t @
                  [\<lparr>case_node = Some c, global_order = 0, case_value = of_nat i, is_default = False\<rparr>]\<rparr>)) s
           else s)))"

definition dispatch_to_constructs ::
  "nref \<Rightarrow> nref list \<Rightarrow> bool \<Rightarrow> dispatch_state \<Rightarrow> CFGStructurizer \<Rightarrow> CFGStructurizer res" where
  "dispatch_to_constructs common_pdom constructs allow_crossing t s =
     (let d = dispatcher t in
      if plain_branch t then
        bind_res (index constructs 0) (\<lambda>c0.
        bind_res (index constructs 1) (\<lambda>c1.
        bind_res (add_branch d c0 (update_node d (update_terminator (\<lambda>x. x\<lparr>term_type := Term_Condition,
                    false_block := Some c0, true_block := Some c1\<rparr>)) s)) (add_branch d c1)))
      else
        bind_res (index constructs 0) (\<lambda>c0.
        let fallback = (if need_default_case t then common_pdom else c0) in
        bind_res (add_branch d fallback (update_node d (update_terminator (\<lambda>x. x\<lparr>term_type := Term_Switch,
                    cases := cases x @ [\<lparr>case_node = Some fallback, global_order = 0, case_value = 0, is_default = True\<rparr>]\<rparr>)) s))
          (fold_res (switch_to_construct d fallback (need_default_case t) allow_crossing) (enumerate 0 constructs))))"

definition collect_and_dispatch_control_flow ::
  "nref \<Rightarrow> nref \<Rightarrow> nref list \<Rightarrow> bool \<Rightarrow> bool \<Rightarrow> shader \<Rightarrow> shader res" where
  "collect_and_dispatch_control_flow common_idom common_pdom constructs collect_all allow_crossing = (\<lambda>(s, b).
     if length constructs < 2 then Fault Assertion_Failed
     else
       bind_res (can_freeze s common_idom common_pdom constructs collect_all) (\<lambda>freeze.
       case allocate_id b of (i, b) \<Rightarrow>
       bind_res (if collect_all then dispatcher_at_merge common_pdom constructs (s, b)
                 else Ok (fresh_dispatcher common_idom common_pdom constructs (s, b))) (\<lambda>(t, s, b).
       bind_res (if plain_branch t then Ok (makeBoolType b) else makeIntType 32 b) (\<lambda>(ty, b).
       bind_res (fold_res (collect_construct common_idom constructs allow_crossing) (enumerate 0 constructs) (t, s, b)) (\<lambda>(t, s, b).
       let d = dispatcher t;
           s = (if freeze then update_node common_idom (\<lambda>x. x\<lparr>freeze_structured_analysis := True, merge := Merge_Loop,
                                 loop_merge_block := Some d\<rparr>) s else s);
           s = update_node d (\<lambda>x. push_phi \<lparr>phi_id = i, phi_type_id = ty, relaxed = False, incoming = selector_values t\<rparr>
                 (update_terminator (\<lambda>y. y\<lparr>conditional_id := i, direct_block := None\<rparr>) x)) s;
           b = addName i (''selector_'' @ node_name (node_at s common_pdom)) b
       in bind_res (dispatch_to_constructs common_pdom constructs allow_crossing t (clear_branches d s)) (\<lambda>s. Ok (s, b)))))))"

end
