(* ===== verification/Cfg_Loops.thy ===== *)
theory Cfg_Loops
  imports Cfg_Dispatch
begin

text \<open>
  \<open>cfg_structurizer.cpp\<close>: the analysis of loop exits, the rewriting of loops that cannot be merged
  as they are, and \<open>find_loops\<close>. Loop exits come in the order they are met (the source iterates
  over an unordered set); a common post dominator may have to be recomputed, so the analysis
  returns the state.
\<close>

section \<open>Exits of a loop\<close>

datatype LoopExitType =
  Loop_Exit | Loop_Merge | Loop_Escape | Loop_MergeToOuterBackEdge | Loop_InnerLoopExit | Loop_InnerLoopMerge
  | Loop_InnerLoopFalsePositive

definition outer_continue_exit :: "CFGStructurizer \<Rightarrow> nref \<Rightarrow> nref \<Rightarrow> LoopExitType res" where
  "outer_continue_exit s inner n =
     bind_res (deref (idom s inner)) (\<lambda>d.
     bind_res (get_innermost_loop_header_for s (entry_block s) d) (\<lambda>outer_loop.
     case pred_back_edge (node_at s outer_loop) of
       None \<Rightarrow> Ok Loop_Escape
     | Some oc \<Rightarrow>
         bind_res (post_dominates s oc n) (\<lambda>pd.
         if \<not> pd then Ok Loop_Escape
         else case pred_back_edge (node_at s n) of
           None \<Rightarrow> Ok Loop_MergeToOuterBackEdge
         | Some nb \<Rightarrow>
             if succ (node_at s nb) = [] then Ok Loop_MergeToOuterBackEdge
             else bind_res (query_reachability s nb oc) (\<lambda>r.
               Ok (if r then Loop_Escape else Loop_MergeToOuterBackEdge)))))"

definition inner_loop_exit :: "nref \<Rightarrow> nref \<Rightarrow> CFGStructurizer \<Rightarrow> (LoopExitType \<times> CFGStructurizer) res" where
  "inner_loop_exit inner n s =
     (case pred_back_edge (node_at s inner) of
        None \<Rightarrow> Ok (Loop_InnerLoopMerge, s)
      | Some c \<Rightarrow>
          if term_type (terminator (ir (node_at s c))) \<noteq> Term_Branch then Ok (Loop_InnerLoopMerge, s)
          else
            bind_res (find_common_post_dominator_of [n, c] s) (\<lambda>(p, s).
            Ok (if p = Some c then Loop_InnerLoopFalsePositive else Loop_InnerLoopMerge, s)))"

definition get_loop_exit_type :: "nref \<Rightarrow> nref \<Rightarrow> CFGStructurizer \<Rightarrow> (LoopExitType \<times> CFGStructurizer) res" where
  "get_loop_exit_type header n s =
     bind_res (get_innermost_loop_header_for s header n) (\<lambda>inner.
     bind_res (case pred_back_edge (node_at s header) of
                 None \<Rightarrow> Ok False
               | Some c \<Rightarrow> or_res (query_reachability s c n) (can_loop_merge_to s header n)) (\<lambda>back_edge_reaches.
     bind_res (dominates s header n) (\<lambda>d.
     bind_res (and_res (Ok (d \<and> \<not> back_edge_reaches)) (dominates_all_reachable_exits s n)) (\<lambda>exits.
     if exits then Ok (if inner = header then Loop_Exit else Loop_InnerLoopExit, s)
     else if \<not> d then Ok (Loop_Escape, s)
     else if inner = header then
       bind_res (can_loop_merge_to s header n) (\<lambda>merges.
       if merges then Ok (Loop_Merge, s)
       else bind_res (outer_continue_exit s inner n) (\<lambda>t. Ok (t, s)))
     else inner_loop_exit inner n s))))"

record LoopAnalysis =
  direct_exits :: "nref list"
  inner_direct_exits :: "nref list"
  dominated_exit :: "nref list"
  inner_dominated_exit :: "nref list"
  non_dominated_exit :: "nref list"
  dominated_continue_exit :: "nref list"

record LoopMergeAnalysis =
  loop_merge :: "nref option"
  weak_merge :: "nref option"
  dominated_merge :: "nref option"
  infinite_continue_ladder :: "nref option"

definition traced_exits :: "CFGStructurizer \<Rightarrow> nref \<Rightarrow> nref list res" where
  "traced_exits s n =
     bind_res (deref (pred_back_edge (node_at s n))) (\<lambda>c.
     bind_res (trace_to_parent (walk_fuel s) s n c {}) (\<lambda>loop.
     bind_res (trace_from_parent (walk_fuel s) s loop n ([], {})) (\<lambda>(exits, _). Ok exits)))"

definition add_exit :: "LoopExitType \<Rightarrow> nref \<Rightarrow> LoopAnalysis \<Rightarrow> LoopAnalysis" where
  "add_exit t e r =
     (case t of
        Loop_Exit \<Rightarrow> r\<lparr>direct_exits := direct_exits r @ [e]\<rparr>
      | Loop_InnerLoopExit \<Rightarrow> r\<lparr>inner_direct_exits := inner_direct_exits r @ [e]\<rparr>
      | Loop_Merge \<Rightarrow> r\<lparr>dominated_exit := dominated_exit r @ [e]\<rparr>
      | Loop_InnerLoopMerge \<Rightarrow> r\<lparr>inner_dominated_exit := inner_dominated_exit r @ [e]\<rparr>
      | Loop_InnerLoopFalsePositive \<Rightarrow> r
      | Loop_Escape \<Rightarrow> r\<lparr>non_dominated_exit := non_dominated_exit r @ [e]\<rparr>
      | Loop_MergeToOuterBackEdge \<Rightarrow> r\<lparr>dominated_continue_exit := dominated_continue_exit r @ [e]\<rparr>)"

definition classify_exits :: "nref \<Rightarrow> nref list \<Rightarrow> CFGStructurizer \<Rightarrow> (LoopAnalysis \<times> CFGStructurizer) res" where
  "classify_exits n exits s =
     fold_res (\<lambda>e (r, s). bind_res (get_loop_exit_type n e s) (\<lambda>(t, s). Ok (add_exit t e r, s))) exits
       (\<lparr>direct_exits = [], inner_direct_exits = [], dominated_exit = [], inner_dominated_exit = [],
         non_dominated_exit = [], dominated_continue_exit = []\<rparr>, s)"

text \<open>A dominated continue exit that converges with another exit is a plain escape.\<close>

definition outer_loop_back_edge :: "CFGStructurizer \<Rightarrow> nref \<Rightarrow> nref option res" where
  "outer_loop_back_edge s n =
     bind_res (deref (idom s n)) (\<lambda>d.
     bind_res (get_innermost_loop_header_for s (entry_block s) d) (\<lambda>h. Ok (pred_back_edge (node_at s h))))"

definition takes_convergent_path :: "CFGStructurizer \<Rightarrow> nref \<Rightarrow> nref \<Rightarrow> nref \<Rightarrow> bool res" where
  "takes_convergent_path s outer candidate exit_node =
     or_res (query_reachability s candidate exit_node)
       (if ipdom s candidate = ipdom s exit_node \<or>
           set (dominance_frontier (node_at s candidate)) \<inter> set (dominance_frontier (node_at s exit_node)) \<noteq> {}
        then Ok True else query_reachability s exit_node outer)"

definition demote_continue_exit ::
  "CFGStructurizer \<Rightarrow> nref option \<Rightarrow> nref \<Rightarrow> LoopAnalysis \<Rightarrow> LoopAnalysis res" where
  "demote_continue_exit s outer candidate r =
     (case outer of
        None \<Rightarrow> Fault Assertion_Failed
      | Some oc \<Rightarrow>
          bind_res (any_res (takes_convergent_path s oc candidate) (dominated_exit r @ non_dominated_exit r)) (\<lambda>converges.
          Ok (if converges then r\<lparr>non_dominated_exit := non_dominated_exit r @ [candidate]\<rparr>
              else r\<lparr>dominated_continue_exit := dominated_continue_exit r @ [candidate]\<rparr>)))"

definition merge_continue_exits :: "nref \<Rightarrow> LoopAnalysis \<Rightarrow> CFGStructurizer \<Rightarrow> (LoopAnalysis \<times> CFGStructurizer) res" where
  "merge_continue_exits n r s =
     (if length (dominated_continue_exit r) \<le> 1 then Ok (r, s)
      else
        bind_res (find_common_post_dominator_of (dominated_continue_exit r) s) (\<lambda>(c, s).
        bind_res (case c of None \<Rightarrow> Ok False | Some c \<Rightarrow> dominates s n c) (\<lambda>d.
        Ok (if d then r\<lparr>dominated_continue_exit := [the c]\<rparr>
            else r\<lparr>non_dominated_exit := non_dominated_exit r @ dominated_continue_exit r, dominated_continue_exit := []\<rparr>, s))))"

definition promote_exits :: "CFGStructurizer \<Rightarrow> nref \<Rightarrow> LoopAnalysis \<Rightarrow> LoopAnalysis res" where
  "promote_exits s n r =
     (let r = (if dominated_exit r = [] \<and> inner_dominated_exit r \<noteq> []
               then r\<lparr>dominated_exit := inner_dominated_exit r, inner_dominated_exit := []\<rparr> else r);
          r = (if direct_exits r = [] then r\<lparr>direct_exits := inner_direct_exits r, inner_direct_exits := []\<rparr> else r);
          r = (if dominated_exit r = [] \<and> direct_exits r \<noteq> []
               then r\<lparr>dominated_exit := direct_exits r, direct_exits := []\<rparr> else r)
      in
      if length (direct_exits r) = 1 \<and> dominated_exit r = [] \<and> non_dominated_exit r = [] then
        bind_res (dominates s n (hd (direct_exits r))) (\<lambda>d.
        Ok (if d then r\<lparr>dominated_exit := direct_exits r, direct_exits := []\<rparr>
            else r\<lparr>non_dominated_exit := direct_exits r, direct_exits := []\<rparr>))
      else Ok r)"

definition single_dominated_exit :: "LoopAnalysis \<Rightarrow> CFGStructurizer \<Rightarrow> (LoopAnalysis \<times> CFGStructurizer) res" where
  "single_dominated_exit r s =
     (if length (dominated_exit r) < 2 then Ok (r, s)
      else
        bind_res (find_common_post_dominator_of (dominated_exit r) s) (\<lambda>(p, s).
        Ok (case p of None \<Rightarrow> r | Some p \<Rightarrow> if p \<in> set (dominated_exit r) then r\<lparr>dominated_exit := [p]\<rparr> else r, s)))"

definition analyze_loop :: "nref \<Rightarrow> CFGStructurizer \<Rightarrow> (LoopAnalysis \<times> CFGStructurizer) res" where
  "analyze_loop n s =
     bind_res (traced_exits s n) (\<lambda>exits.
     bind_res (classify_exits n exits s) (\<lambda>(r, s).
     bind_res (outer_loop_back_edge s n) (\<lambda>outer.
     bind_res (fold_res (demote_continue_exit s outer) (dominated_continue_exit r) (r\<lparr>dominated_continue_exit := []\<rparr>)) (\<lambda>r.
     bind_res (merge_continue_exits n r s) (\<lambda>(r, s).
     bind_res (promote_exits s n r) (\<lambda>r. single_dominated_exit r s))))))"

section \<open>Where a loop merges\<close>

definition stable_later_first :: "(nref \<Rightarrow> nat) \<Rightarrow> nref list \<Rightarrow> nref list" where
  "stable_later_first key ns = rev (sort_key key (rev ns))"

definition non_breaking_merge ::
  "(nat \<Rightarrow> string) \<Rightarrow> nref \<Rightarrow> nref \<Rightarrow> nref list \<Rightarrow> CFGStructurizer \<Rightarrow> (nref option \<times> CFGStructurizer) res" where
  "non_breaking_merge code n m exits s =
     bind_res (filter_res (\<lambda>e. not_res (control_flow_is_escaping code s e m)) exits) (\<lambda>non_breaking.
     bind_res (find_common_post_dominator_of non_breaking s) (\<lambda>(d, s).
     if d \<noteq> None then Ok (d, s)
     else
       bind_res (deref (idom s n)) (\<lambda>i.
       bind_res (innermost_loop_header s i) (\<lambda>h.
       bind_res (case pred_back_edge (node_at s h) of
                   None \<Rightarrow> Ok []
                 | Some c \<Rightarrow> filter_res (\<lambda>e. query_reachability s e c) exits) (\<lambda>continue_exits.
       find_common_post_dominator_of continue_exits s)))))"

definition find_dominated_merge ::
  "(nat \<Rightarrow> string) \<Rightarrow> nref \<Rightarrow> nref option \<Rightarrow> nref list \<Rightarrow> CFGStructurizer \<Rightarrow> (nref option \<times> CFGStructurizer) res" where
  "find_dominated_merge code n m exits s =
     (case (case pred_back_edge (node_at s n) of None \<Rightarrow> [] | Some c \<Rightarrow> filter (\<lambda>t. t \<in> set exits \<and> succ (node_at s c) = [t]) (succ (node_at s c))) of
        t # _ \<Rightarrow> Ok (Some t, s)
      | [] \<Rightarrow>
          bind_res (case m of None \<Rightarrow> Ok False | Some m \<Rightarrow> not_res (dominates s n m)) (\<lambda>outside.
          if outside \<and> length exits > 1 then non_breaking_merge code n (the m) exits s
          else find_common_post_dominator_of exits s))"

definition find_weak_merge :: "CFGStructurizer \<Rightarrow> nref list \<Rightarrow> nref option res" where
  "find_weak_merge s merges =
     (let frontiers = remdups_adj (stable_later_first (\<lambda>n. forward_order (node_at s n))
            (concat (map (\<lambda>m. dominance_frontier (node_at s m)) merges)))
      in
      fold_res (\<lambda>f r. if r \<noteq> None then Ok r
          else bind_res (all_res (\<lambda>c. query_reachability s c f) merges) (\<lambda>b. Ok (if b then Some f else None)))
        frontiers None)"

definition analyze_loop_merge ::
  "(nat \<Rightarrow> string) \<Rightarrow> nref \<Rightarrow> LoopAnalysis \<Rightarrow> CFGStructurizer \<Rightarrow> (LoopMergeAnalysis \<times> CFGStructurizer) res" where
  "analyze_loop_merge code n r s =
     (let merges = inner_dominated_exit r @ dominated_exit r @ non_dominated_exit r in
      bind_res (find_common_post_dominator_of merges s) (\<lambda>(m, s).
      bind_res (find_dominated_merge code n m (dominated_exit r) s) (\<lambda>(d, s).
      bind_res (case d of None \<Rightarrow> Ok False | Some x \<Rightarrow> dominates s n x) (\<lambda>dominated.
      bind_res (if m = None then find_weak_merge s merges else Ok m) (\<lambda>weak.
      let q = \<lparr>loop_merge = m, weak_merge = weak, dominated_merge = (if dominated then d else None), infinite_continue_ladder = None\<rparr>
      in case dominated_continue_exit r of
           [] \<Rightarrow> Ok (q, s)
         | [c] \<Rightarrow> Ok (q\<lparr>infinite_continue_ladder := Some c\<rparr>, s)
         | _ \<Rightarrow> Fault Assertion_Failed)))))"

end
