(* ===== verification/Cfg_Find_Loops.thy ===== *)
theory Cfg_Find_Loops
  imports Cfg_Loops
begin

text \<open>
  \<open>cfg_structurizer.cpp\<close>: loops that are rewritten before they can be merged (transposed loops and
  loops with several exits and no common merge block), and \<open>find_loops\<close>, which gives every loop
  header its merge block and its ladder block.
\<close>

section \<open>Transposed loops\<close>

definition rewrite_transposed_loop_outer :: "nref \<Rightarrow> nref \<Rightarrow> nref \<Rightarrow> shader \<Rightarrow> shader res" where
  "rewrite_transposed_loop_outer n target dm = (\<lambda>(s, b).
     let impossible_preds = pred (node_at s target) in
     bind_res (create_helper_pred_block dm s) (\<lambda>(r, s).
     let s = update_node r (\<lambda>x. x\<lparr>node_name := node_name (node_at s dm) @ ''.transposed-merge-outer''\<rparr>) s in
     bind_res (fold_res (\<lambda>q s. bind_res (query_reachability s dm q) (\<lambda>reached.
                 if reached then Ok s else retarget_branch q target r s)) impossible_preds s) (\<lambda>s.
     rewrite_ladder_conditional_branch_from_incoming_blocks r target dm (\<lambda>q. q \<in> set impossible_preds)
       (''transposed_selector_'' @ node_name (node_at s n)) (s, b))))"

text \<open>The break and the selection blocks that a transposed inner loop leaves through.\<close>

definition inner_transpose_blocks :: "nref \<Rightarrow> nref \<Rightarrow> nref option \<Rightarrow> CFGStructurizer \<Rightarrow> (nref \<times> nref) \<times> CFGStructurizer" where
  "inner_transpose_blocks n target m s =
     (let x = node_at s target in
      case create_node s of (l, s) \<Rightarrow>
      let s = update_node l (\<lambda>y. set_branch_to target (y\<lparr>node_name := node_name (node_at s n) @ ''.transposed-merge-inner.break'',
                immediate_post_dominator := Some target, forward_order := forward_order x, backward_order := backward_order x\<rparr>)) s
      in
      case create_node s of (sel, s) \<Rightarrow>
      let s = update_node sel (\<lambda>y. y\<lparr>node_name := node_name (node_at s n) @ ''.transposed-merge-inner'',
                forward_order := forward_order x, backward_order := backward_order x, immediate_post_dominator := m\<rparr>) s
      in ((l, sel), update_node l (\<lambda>y. y\<lparr>immediate_dominator := Some sel\<rparr>) s))"

definition rewrite_transposed_loop_inner :: "nref \<Rightarrow> nref \<Rightarrow> nref option \<Rightarrow> nref \<Rightarrow> shader \<Rightarrow> shader res" where
  "rewrite_transposed_loop_inner n target m dm = (\<lambda>(s, b).
     case inner_transpose_blocks n target m s of ((l, sel), s) \<Rightarrow>
     let ladder_preds = pred (node_at s dm) in
     bind_res (add_branch sel l s) (\<lambda>s.
     bind_res (add_branch sel dm s) (\<lambda>s.
     bind_res (rewrite_branch_under n target sel s) (\<lambda>s.
     bind_res (recompute_immediate_dominator sel s) (\<lambda>s.
     bind_res (add_branch l target s) (\<lambda>s.
     bind_res (fold_res (\<lambda>q. retarget_branch q dm sel) ladder_preds s) (\<lambda>s.
     rewrite_ladder_conditional_branch_from_incoming_blocks sel dm l (\<lambda>q. q \<in> set ladder_preds)
       (''transposed_selector_'' @ node_name (node_at s n)) (s, b))))))))"

text \<open>The candidates for the block that cannot be merged to, in the order they are tried.\<close>

definition common_break_target ::
  "nref \<Rightarrow> LoopAnalysis \<Rightarrow> nref \<Rightarrow> nref \<Rightarrow> CFGStructurizer \<Rightarrow> (nref option \<times> CFGStructurizer) res" where
  "common_break_target n r m dm s =
     (if non_dominated_exit r = [] then Ok (None, s)
      else
        bind_res (find_common_post_dominator_of (non_dominated_exit r) s) (\<lambda>(c, s).
        case c of
          None \<Rightarrow> Ok (None, s)
        | Some c \<Rightarrow>
            bind_res
              (if c = m then Ok False
               else and_res (not_res (query_reachability s dm c))
                      (and_res (not_res (query_reachability s c dm))
                        (or_res (reaches_domination_frontier_before_merge s c m) (dominates_outer_continue s c n)))) (\<lambda>b.
            Ok (if b then Some c else None, s))))"

definition find_shared_df_node :: "CFGStructurizer \<Rightarrow> LoopAnalysis \<Rightarrow> nref \<Rightarrow> nref \<Rightarrow> nref option" where
  "find_shared_df_node s r a b =
     find (\<lambda>n. n \<notin> set (non_dominated_exit r) \<and> n \<notin> set (dominated_exit r) \<and> n \<notin> set (inner_dominated_exit r) \<and>
         n \<in> set (dominance_frontier (node_at s b))) (dominance_frontier (node_at s a))"

fun first_shared_df :: "CFGStructurizer \<Rightarrow> LoopAnalysis \<Rightarrow> nref \<Rightarrow> nref list \<Rightarrow> nref option" where
  "first_shared_df s r a [] = None"
| "first_shared_df s r a (i # is) = (case find_shared_df_node s r a i of Some n \<Rightarrow> Some n | None \<Rightarrow> first_shared_df s r a is)"

definition move_exit_forward :: "CFGStructurizer \<Rightarrow> nref \<Rightarrow> nat \<Rightarrow> LoopAnalysis \<Rightarrow> LoopAnalysis res" where
  "move_exit_forward s dm i r =
     bind_res (index (non_dominated_exit r) i) (\<lambda>e.
     bind_res (query_reachability s dm e) (\<lambda>reached.
     Ok (if reached then r
         else case first_shared_df s r e (inner_dominated_exit r) of
           None \<Rightarrow> r | Some n \<Rightarrow> r\<lparr>non_dominated_exit := (non_dominated_exit r)[i := n]\<rparr>)))"

definition move_exits_forward :: "CFGStructurizer \<Rightarrow> nref \<Rightarrow> LoopAnalysis \<Rightarrow> LoopAnalysis res" where
  "move_exits_forward s dm r =
     (if inner_dominated_exit r = [] then Ok r
      else fold_res (move_exit_forward s dm) [0..<length (non_dominated_exit r)] r)"

text \<open>A candidate is followed up its post dominators while the header dominates it.\<close>

fun reentered_block :: "nat \<Rightarrow> nref \<Rightarrow> nref \<Rightarrow> nref \<Rightarrow> nref \<Rightarrow> CFGStructurizer \<Rightarrow> (nref option \<times> CFGStructurizer) res" where
  "reentered_block 0 n m dm candidate s = Fault Out_Of_Fuel"
| "reentered_block (Suc k) n m dm candidate s =
     (if candidate = m \<or> candidate = dm then Ok (None, s)
      else
        bind_res (and_res (query_reachability s dm candidate) (not_res (dominates s dm candidate))) (\<lambda>reenters.
        bind_res (dominates s n candidate) (\<lambda>inside.
        if reenters then
          (if inside then Ok (Some candidate, s)
           else bind_res (create_ladder_block n candidate ''.impossible-ladder'' s) (\<lambda>(l, s). Ok (Some l, s)))
        else if inside \<and> ipdom s candidate \<noteq> Some candidate then
          bind_res (deref (ipdom s candidate)) (\<lambda>c. reentered_block k n m dm c s)
        else Ok (None, s))))"

fun first_reentered_block :: "nref \<Rightarrow> nref \<Rightarrow> nref \<Rightarrow> nref list \<Rightarrow> CFGStructurizer \<Rightarrow> (nref option \<times> CFGStructurizer) res" where
  "first_reentered_block n m dm [] s = Ok (None, s)"
| "first_reentered_block n m dm (e # es) s =
     bind_res (reentered_block (walk_fuel s) n m dm e s) (\<lambda>(t, s).
     if t = None then first_reentered_block n m dm es s else Ok (t, s))"

definition find_impossible_merge_target ::
  "nref \<Rightarrow> LoopAnalysis \<Rightarrow> nref option \<Rightarrow> nref \<Rightarrow> nref \<Rightarrow> CFGStructurizer \<Rightarrow>
   ((nref option \<times> LoopAnalysis) \<times> CFGStructurizer) res" where
  "find_impossible_merge_target n r ladder m dm s =
     bind_res (if ladder \<noteq> None then Ok (ladder, s) else common_break_target n r m dm s) (\<lambda>(t, s).
     if t \<noteq> None then Ok ((t, r), s)
     else
       bind_res (move_exits_forward s dm r) (\<lambda>r.
       bind_res (first_reentered_block n m dm (non_dominated_exit r) s) (\<lambda>(t, s). Ok ((t, r), s))))"

text \<open>Without such a block the exits may still share a dominance frontier, or hang off an anchor.\<close>

fun has_dominance_relationship :: "CFGStructurizer \<Rightarrow> nref list \<Rightarrow> bool res" where
  "has_dominance_relationship s [] = Ok False"
| "has_dominance_relationship s (f # fs) = or_res (any_res (dominates s f) fs) (has_dominance_relationship s fs)"

definition shared_frontier :: "CFGStructurizer \<Rightarrow> nref \<Rightarrow> nref list \<Rightarrow> nref \<Rightarrow> bool res" where
  "shared_frontier s n exits candidate =
     (if candidate \<notin> set (dominance_frontier (node_at s n)) then Ok False
      else all_res (\<lambda>e. and_res (dominates s n e) (Ok (candidate \<in> set (dominance_frontier (node_at s e))))) exits)"

definition all_share_frontier :: "CFGStructurizer \<Rightarrow> nref \<Rightarrow> nref list \<Rightarrow> nref \<Rightarrow> bool res" where
  "all_share_frontier s n exits dm =
     (let fs = dominance_frontier (node_at s dm) in
      bind_res (has_dominance_relationship s (stable_later_first (\<lambda>n. forward_order (node_at s n)) fs)) (\<lambda>related.
      if related \<or> fs = [] then Ok False else all_res (shared_frontier s n exits) fs))"

fun frontiers_of_exits :: "CFGStructurizer \<Rightarrow> nref \<Rightarrow> nref list \<Rightarrow> nref list option res" where
  "frontiers_of_exits s n [] = Ok (Some [])"
| "frontiers_of_exits s n (f # fs) =
     bind_res (dominates s n f) (\<lambda>d.
     if d \<and> length (dominance_frontier (node_at s f)) \<noteq> 1 then Ok None
     else bind_res (frontiers_of_exits s n fs) (\<lambda>r.
       Ok (map_option (\<lambda>gs. (if d then hd (dominance_frontier (node_at s f)) else f) # gs) r)))"

fun crossing_branches :: "CFGStructurizer \<Rightarrow> nref list \<Rightarrow> bool res" where
  "crossing_branches s [] = Ok False"
| "crossing_branches s (f # fs) =
     or_res (any_res (\<lambda>g. or_res (query_reachability s g f) (query_reachability s f g)) fs) (crossing_branches s fs)"

definition valid_anchor :: "CFGStructurizer \<Rightarrow> nref list \<Rightarrow> bool res" where
  "valid_anchor s fs =
     (case fs of
        [] \<Rightarrow> Fault Out_Of_Bounds
      | anchor # fs \<Rightarrow>
          if \<exists>f \<in> set fs. f \<notin> set (dominance_frontier (node_at s anchor)) then Ok False
          else not_res (crossing_branches s fs))"

definition rewrite_frontier_loop :: "nref \<Rightarrow> LoopAnalysis \<Rightarrow> nref \<Rightarrow> shader \<Rightarrow> (bool \<times> shader) res" where
  "rewrite_frontier_loop n r dm = (\<lambda>(s, b).
     let exits = non_dominated_exit r in
     if exits \<noteq> [] \<and> length (dominance_frontier (node_at s dm)) \<ge> 2 then
       bind_res (all_share_frontier s n exits dm) (\<lambda>share.
       if \<not> share then Ok (False, s, b)
       else bind_res (collect_and_dispatch_control_flow n dm (exits @ [dm]) False False (s, b)) (\<lambda>sb. Ok (True, sb)))
     else if length exits \<ge> 2 then
       bind_res (frontiers_of_exits s n (exits @ [dm])) (\<lambda>fs.
       case fs of
         None \<Rightarrow> Ok (False, s, b)
       | Some fs \<Rightarrow>
           let fs = later_first s fs in
           bind_res (valid_anchor s fs) (\<lambda>valid.
           if \<not> valid then Ok (False, s, b)
           else bind_res (collect_and_dispatch_control_flow_from_anchor (hd fs) (tl fs) (s, b)) (\<lambda>sb. Ok (True, sb))))
     else Ok (False, s, b))"

definition rewrite_transposed_loop :: "(nat \<Rightarrow> string) \<Rightarrow> nref \<Rightarrow> shader \<Rightarrow> (bool \<times> shader) res" where
  "rewrite_transposed_loop code n = (\<lambda>(s, b).
     let x = node_at s n in
     if freeze_structured_analysis x \<and> merge x = Merge_Loop \<or> pred_back_edge x = None then Ok (False, s, b)
     else
       bind_res (analyze_loop n s) (\<lambda>(r, s).
       bind_res (analyze_loop_merge code n r s) (\<lambda>(q, s).
       case (loop_merge q, dominated_merge q) of
         (Some m, Some dm) \<Rightarrow>
           bind_res (find_impossible_merge_target n r (infinite_continue_ladder q) m dm s) (\<lambda>((t, r), s).
           case t of
             Some t \<Rightarrow>
               bind_res (query_reachability s dm t) (\<lambda>outer.
               bind_res (if outer then rewrite_transposed_loop_outer n t dm (s, b)
                         else rewrite_transposed_loop_inner n t (Some m) dm (s, b)) (\<lambda>sb. Ok (True, sb)))
           | None \<Rightarrow> rewrite_frontier_loop n r dm (s, b))
       | _ \<Rightarrow> Ok (False, s, b))))"

text \<open>The loops are tried from the outermost one until one is rewritten.\<close>

fun first_rewrite :: "(nref \<Rightarrow> shader \<Rightarrow> (bool \<times> shader) res) \<Rightarrow> nref list \<Rightarrow> shader \<Rightarrow> (bool \<times> shader) res" where
  "first_rewrite f [] sb = Ok (False, sb)"
| "first_rewrite f (n # ns) sb =
     bind_res (f n sb) (\<lambda>(did, sb). if did then Ok (True, sb) else first_rewrite f ns sb)"

definition rewrite_transposed_loops :: "(nat \<Rightarrow> string) \<Rightarrow> shader \<Rightarrow> (bool \<times> shader) res" where
  "rewrite_transposed_loops code sb =
     bind_res (first_rewrite (rewrite_transposed_loop code) (rev (forward_post_visit_order (fst sb))) sb) (\<lambda>(did, sb).
     if did then bind_res (on_cfg recompute_cfg sb) (\<lambda>sb. Ok (True, sb)) else Ok (False, sb))"

section \<open>Exits that need a ladder first\<close>

text \<open>
  The source counts equal neighbours in the frontiers sorted by address; a node of multiplicity at
  least the number of exits is the same test.
\<close>

definition shares_inner_frontier :: "CFGStructurizer \<Rightarrow> nref \<Rightarrow> nref list \<Rightarrow> bool res" where
  "shares_inner_frontier s m exits =
     (let fs = concat (map (\<lambda>e. dominance_frontier (node_at s e)) exits) in
      any_res (\<lambda>f. if count_list fs f \<ge> length exits \<and> f \<noteq> m then query_reachability s f m else Ok False) fs)"

fun clean_frontiers :: "CFGStructurizer \<Rightarrow> nref \<Rightarrow> nref list \<Rightarrow> nref list option res" where
  "clean_frontiers s n [] = Ok (Some [])"
| "clean_frontiers s n (e # es) =
     (case dominance_frontier (node_at s e) of
        [f] \<Rightarrow>
          bind_res (dominates s n f) (\<lambda>d.
          if d then Ok None else bind_res (clean_frontiers s n es) (\<lambda>r. Ok (map_option (\<lambda>fs. f # fs) r)))
      | _ \<Rightarrow> Ok None)"

text \<open>The first frontier is never compared with the merge block, only with its neighbour.\<close>

definition has_dup_frontier :: "nref \<Rightarrow> nref list \<Rightarrow> bool" where
  "has_dup_frontier m fs \<longleftrightarrow> (\<exists>i \<in> {1..<length fs}. fs ! i = fs ! (i - 1) \<or> fs ! i = m)"

definition outer_frontiers :: "CFGStructurizer \<Rightarrow> nref \<Rightarrow> nref \<Rightarrow> nref list \<Rightarrow> nref list res" where
  "outer_frontiers s n m exits =
     bind_res (clean_frontiers s n exits) (\<lambda>fs.
     case fs of
       None \<Rightarrow> Ok []
     | Some fs \<Rightarrow>
         let fs = later_first s fs in
         if has_dup_frontier m fs then Ok []
         else bind_res (all_res (\<lambda>q. any_res (\<lambda>f. dominates s f q) fs) (pred (node_at s m))) (\<lambda>covered.
           Ok (if covered then fs else [])))"

definition clear_fake_edges :: "nref \<Rightarrow> CFGStructurizer \<Rightarrow> CFGStructurizer res" where
  "clear_fake_edges n s =
     bind_res (deref (pred_back_edge (node_at s n))) (\<lambda>c. Ok (update_node c (\<lambda>x. x\<lparr>fake_succ := [], fake_pred := []\<rparr>) s))"

definition collect_exits :: "nref \<Rightarrow> nref \<Rightarrow> nref \<Rightarrow> nref list \<Rightarrow> shader \<Rightarrow> shader res" where
  "collect_exits n common_idom m exits sb =
     bind_res (on_cfg (clear_fake_edges n) sb) (collect_and_dispatch_control_flow common_idom m exits False False)"

definition rewrite_complex_loop_exits :: "nref \<Rightarrow> nref option \<Rightarrow> nref list \<Rightarrow> shader \<Rightarrow> ((bool \<times> nref list) \<times> shader) res" where
  "rewrite_complex_loop_exits n m exits sb =
     (let s = fst sb in
      case m of
        None \<Rightarrow> Ok ((False, exits), sb)
      | Some m \<Rightarrow>
          bind_res (deref (pred_back_edge (node_at s n))) (\<lambda>c.
          if succ (node_at s c) \<noteq> [] \<or> length exits < 2 then Ok ((False, exits), sb)
          else
            bind_res (can_loop_merge_to s n m) (\<lambda>clean.
            if clean then
              bind_res (shares_inner_frontier s m exits) (\<lambda>needs.
              if needs then bind_res (collect_exits n n m exits sb) (\<lambda>sb. Ok ((True, exits), sb))
              else Ok ((False, exits), sb))
            else
              bind_res (outer_frontiers s n m exits) (\<lambda>fs.
              if fs = [] then Ok ((False, exits), sb)
              else
                bind_res (collect_exits n n m exits sb) (\<lambda>sb.
                bind_res (on_cfg recompute_cfg sb) (\<lambda>sb.
                bind_res (deref (idom (fst sb) m)) (\<lambda>d.
                bind_res (collect_exits n d m fs sb) (\<lambda>sb. Ok ((True, fs), sb)))))))))"

section \<open>Merge blocks of loops\<close>

definition trivial_exit_loop :: "CFGStructurizer \<Rightarrow> nref \<Rightarrow> LoopAnalysis \<Rightarrow> bool res" where
  "trivial_exit_loop s n r =
     (case dominated_exit r of
        [e] \<Rightarrow>
          if non_dominated_exit r \<noteq> [] \<or> inner_dominated_exit r \<noteq> [] \<or> direct_exits r \<noteq> [] \<or> inner_direct_exits r \<noteq> [] then Ok False
          else
            bind_res (case idom s e of None \<Rightarrow> Ok False
                      | Some d \<Rightarrow> bind_res (deref (pred_back_edge (node_at s n))) (dominates s d)) (\<lambda>exit_dominates_continue.
            bind_res (get_innermost_loop_header_for s n e) (\<lambda>h.
            if h = n then Ok True
            else bind_res (deref (pred_back_edge (node_at s h))) (\<lambda>c.
              Ok (succ (node_at s c) = [] \<and> exit_dominates_continue))))
      | _ \<Rightarrow> Ok False)"

definition force_infinite_loop :: "CFGStructurizer \<Rightarrow> nref \<Rightarrow> LoopAnalysis \<Rightarrow> bool \<Rightarrow> bool res" where
  "force_infinite_loop s n r trivial =
     bind_res (deref (pred_back_edge (node_at s n))) (\<lambda>c.
     if succ (node_at s c) \<noteq> [] \<or> trivial then Ok False
     else all_res (loop_exit_supports_infinite_loop s n)
            (dominated_exit r @ non_dominated_exit r @ inner_dominated_exit r @ direct_exits r @ inner_direct_exits r))"

definition set_loop_merge :: "nref \<Rightarrow> nref \<Rightarrow> CFGStructurizer \<Rightarrow> CFGStructurizer" where
  "set_loop_merge n m s = add_unique_header m n (update_node n (\<lambda>x. x\<lparr>loop_merge_block := Some m\<rparr>) s)"

definition simple_loop_merge :: "nref \<Rightarrow> nref \<Rightarrow> LoopAnalysis \<Rightarrow> CFGStructurizer \<Rightarrow> CFGStructurizer res" where
  "simple_loop_merge n e r s =
     bind_res (find_common_post_dominator_of (direct_exits r) s) (\<lambda>(p, s).
     bind_res (case p of None \<Rightarrow> Ok False | Some p \<Rightarrow> query_reachability s e p) (\<lambda>ladder.
     Ok (if ladder then set_loop_merge n (the p) (update_node n (\<lambda>x. x\<lparr>loop_ladder_block := Some e\<rparr>) s)
         else set_loop_merge n e s)))"

definition escaping_loop_merge :: "nref \<Rightarrow> nref \<Rightarrow> CFGStructurizer \<Rightarrow> CFGStructurizer res" where
  "escaping_loop_merge n e s =
     bind_res (create_ladder_block n e ''.merge'' s) (\<lambda>(l, s).
     Ok (set_loop_merge n l (update_node n (\<lambda>x. x\<lparr>loop_ladder_block := None\<rparr>) s)))"

text \<open>A block before the continue block of an enclosing loop, post dominating an exit, can serve as the ladder.\<close>

definition ladder_candidate :: "CFGStructurizer \<Rightarrow> nref \<Rightarrow> nref list \<Rightarrow> nref option \<Rightarrow> nref \<Rightarrow> nref option res" where
  "ladder_candidate s n exits innermost h =
     (case pred_back_edge (node_at s h) of
        None \<Rightarrow> Ok None
      | Some c \<Rightarrow>
          bind_res (case innermost of None \<Rightarrow> Ok False | Some i \<Rightarrow> query_reachability s h i) (\<lambda>outer.
          case pred (node_at s c) of
            [q] \<Rightarrow>
              if outer then Ok None
              else
                bind_res (and_res (post_dominates s c q)
                   (and_res (dominates s n q) (any_res (post_dominates s q) exits))) (\<lambda>b.
                Ok (if b then Some q else None))
          | _ \<Rightarrow> Ok None))"

definition find_ladder :: "CFGStructurizer \<Rightarrow> nref \<Rightarrow> nref list \<Rightarrow> nref list \<Rightarrow> nref option res" where
  "find_ladder s n exits hs =
     bind_res (fold_res (\<lambda>h (ladder, innermost).
         bind_res (ladder_candidate s n exits innermost h) (\<lambda>l.
         Ok (if l = None then (ladder, innermost) else (l, Some h)))) hs (None, None)) (\<lambda>(ladder, _). Ok ladder)"

definition clean_loop_merge :: "nref \<Rightarrow> nref \<Rightarrow> nref option \<Rightarrow> nref list \<Rightarrow> CFGStructurizer \<Rightarrow> CFGStructurizer res" where
  "clean_loop_merge n m dm exits s =
     bind_res (if headers (node_at s m) \<noteq> [] \<and> dm = Some m then find_ladder s n exits (headers (node_at s m)) else Ok None) (\<lambda>l.
     Ok (set_loop_merge n m (if l = None then s else update_node n (\<lambda>x. x\<lparr>loop_ladder_block := l\<rparr>) s)))"

definition pick_ladder :: "nref \<Rightarrow> nref option \<Rightarrow> nref list \<Rightarrow> CFGStructurizer \<Rightarrow> (nref option \<times> CFGStructurizer) res" where
  "pick_ladder n dm exits s =
     (if dm \<noteq> None then Ok (dm, s)
      else
        bind_res (deref (pred_back_edge (node_at s n))) (\<lambda>c.
        case succ (node_at s c) of
          [t] \<Rightarrow> bind_res (create_ladder_block c t ''.merge'' s) (\<lambda>(l, s). Ok (Some l, s))
        | [] \<Rightarrow>
            let key = earliest_dominance_frontier_post_visit_order s in
            (case stable_later_first key exits of
               a # b # _ \<Rightarrow> Ok (if key a \<noteq> key b then Some a else None, s)
             | _ \<Rightarrow> Ok (None, s))
        | _ \<Rightarrow> Ok (None, s)))"

definition ladder_loop_merge :: "nref \<Rightarrow> nref \<Rightarrow> nref option \<Rightarrow> nref list \<Rightarrow> CFGStructurizer \<Rightarrow> CFGStructurizer res" where
  "ladder_loop_merge n m dm exits s =
     bind_res (pick_ladder n dm exits s) (\<lambda>(l, s).
     Ok (set_loop_merge n m (update_node n (\<lambda>x. x\<lparr>loop_ladder_block := l\<rparr>) s)))"

definition complex_loop_merge ::
  "(nat \<Rightarrow> string) \<Rightarrow> nat \<Rightarrow> nref \<Rightarrow> LoopAnalysis \<Rightarrow> shader \<Rightarrow> (bool \<times> shader) res" where
  "complex_loop_merge code pass n r = (\<lambda>(s, b).
     bind_res (analyze_loop_merge code n r s) (\<lambda>(q, s).
     bind_res (if pass = 0 then rewrite_complex_loop_exits n (loop_merge q) (dominated_exit r) (s, b)
               else Ok ((False, dominated_exit r), s, b)) (\<lambda>((did, exits), s, b).
     if did then Ok (True, s, b)
     else
       case (if loop_merge q = None then weak_merge q else loop_merge q) of
         None \<Rightarrow> Ok (False, s, b)
       | Some m \<Rightarrow>
           bind_res (can_loop_merge_to s n m) (\<lambda>clean.
           bind_res (if clean then clean_loop_merge n m (dominated_merge q) exits s
                     else ladder_loop_merge n m (dominated_merge q) exits s) (\<lambda>s. Ok (False, s, b))))))"

definition merge_loop :: "(nat \<Rightarrow> string) \<Rightarrow> nat \<Rightarrow> nref \<Rightarrow> LoopAnalysis \<Rightarrow> shader \<Rightarrow> (bool \<times> shader) res" where
  "merge_loop code pass n r = (\<lambda>(s, b).
     bind_res (trivial_exit_loop s n r) (\<lambda>trivial.
     bind_res (force_infinite_loop s n r trivial) (\<lambda>infinite.
     if infinite \<or> dominated_exit r = [] \<and> inner_dominated_exit r = [] \<and> non_dominated_exit r = []
     then Ok (False, update_node n (\<lambda>x. x\<lparr>loop_merge_block := None\<rparr>) s, b)
     else
       case (dominated_exit r, inner_dominated_exit r, non_dominated_exit r) of
         ([e], [], []) \<Rightarrow> bind_res (simple_loop_merge n e r s) (\<lambda>s. Ok (False, s, b))
       | ([], [], [e]) \<Rightarrow> bind_res (escaping_loop_merge n e s) (\<lambda>s. Ok (False, s, b))
       | _ \<Rightarrow> complex_loop_merge code pass n r (s, b))))"

definition find_loop :: "(nat \<Rightarrow> string) \<Rightarrow> nat \<Rightarrow> nref \<Rightarrow> shader \<Rightarrow> (bool \<times> shader) res" where
  "find_loop code pass n = (\<lambda>(s, b).
     let x = node_at s n in
     if freeze_structured_analysis x \<and> merge x = Merge_Loop then
       bind_res (deref (loop_merge_block x)) (\<lambda>m. Ok (False, add_unique_header m n s, b))
     else if pred_back_edge x = None then Ok (False, s, b)
     else
       bind_res (analyze_loop n (update_node n (\<lambda>x. x\<lparr>merge := Merge_Loop\<rparr>) s)) (\<lambda>(r, s).
       if dominated_continue_exit r \<noteq> [] then Fault Assertion_Failed
       else merge_loop code pass n r (s, b)))"

definition find_loops :: "(nat \<Rightarrow> string) \<Rightarrow> nat \<Rightarrow> shader \<Rightarrow> (bool \<times> shader) res" where
  "find_loops code pass sb = first_rewrite (find_loop code pass) (rev (forward_post_visit_order (fst sb))) sb"

end
