(* ===== verification/Cfg_Helper_Edges.thy ===== *)
theory Cfg_Helper_Edges
  imports Cfg_Properties Cfg_Selection
begin

text \<open>
  The helper blocks and the edges of the pool. A helper block takes over all edges into a node, or
  all edges out of it; a merge block takes over all back edges of a header. In each case the lists
  of the pool still agree and control flow between the blocks that were there is unchanged.
\<close>

section \<open>States with the same edges\<close>

definition same_edges :: "'a CFGNodePool_scheme \<Rightarrow> 'a CFGNodePool_scheme \<Rightarrow> bool" where
  "same_edges p q \<longleftrightarrow> length (nodes q) = length (nodes p) \<and>
     (\<forall>n. succ (node_at q n) = succ (node_at p n) \<and> pred (node_at q n) = pred (node_at p n) \<and>
        fake_succ (node_at q n) = fake_succ (node_at p n) \<and> terminator (ir (node_at q n)) = terminator (ir (node_at p n)))"

lemma same_edges_refl [intro, simp]: "same_edges p p"
  by (simp add: same_edges_def)

lemma same_edges_trans: "same_edges p q \<Longrightarrow> same_edges q r \<Longrightarrow> same_edges p r"
  by (simp add: same_edges_def)

lemma same_edgesD:
  assumes "same_edges p q"
  shows "length (nodes q) = length (nodes p)" "succ (node_at q n) = succ (node_at p n)"
    "pred (node_at q n) = pred (node_at p n)" "fake_succ (node_at q n) = fake_succ (node_at p n)"
    "terminator (ir (node_at q n)) = terminator (ir (node_at p n))"
  using assms by (simp_all add: same_edges_def)

lemma same_edges_update:
  assumes "\<And>x. succ (f x) = succ x \<and> pred (f x) = pred x \<and> fake_succ (f x) = fake_succ x \<and> terminator (ir (f x)) = terminator (ir x)"
  shows "same_edges p (update_node n f p)"
  using assms by (auto simp: same_edges_def node_at_update)

lemma same_edges_fold:
  assumes "\<And>x p. same_edges p (f x p)"
  shows "same_edges p (fold f xs p)"
  using assms by (induction xs arbitrary: p) (auto intro: same_edges_trans)

lemma same_edges_fixup: "same_edges p (fixup_merge_info_after_branch_rewrite h f t p)"
  unfolding fixup_merge_info_after_branch_rewrite_def add_unique_header_def
  by (auto intro!: same_edges_trans [OF same_edges_update same_edges_update])

lemma fixup_fields [simp]:
  fixes s :: CFGStructurizer
  shows "entry_block (fixup_merge_info_after_branch_rewrite h f t s) = entry_block s"
    "forward_post_visit_order (fixup_merge_info_after_branch_rewrite h f t s) = forward_post_visit_order s"
  by (simp_all add: fixup_merge_info_after_branch_rewrite_def add_unique_header_def)

lemma fold_entry_block:
  fixes s :: CFGStructurizer
  assumes "\<And>x s. entry_block (f x s) = entry_block s"
  shows "entry_block (fold f xs s) = entry_block s"
  using assms by (induction xs arbitrary: s) simp_all

lemma node_at_fold_update:
  "distinct ns \<Longrightarrow> node_at (fold (\<lambda>p. update_node p f) ns s) n =
     (if n \<in> set ns \<and> n < length (nodes s) then f (node_at s n) else node_at s n)"
  by (induction ns arbitrary: s) (auto simp: node_at_update)

lemma length_fold_update [simp]: "length (nodes (fold (\<lambda>p. update_node p f) ns s)) = length (nodes s)"
  by (induction ns arbitrary: s) simp_all

lemma node_at_create:
  assumes "create_node s = (p, t)"
  shows "p = length (nodes s)" "length (nodes t) = Suc (length (nodes s))"
    "node_at t n = node_at s n" "node_at s p = CFGNode_new"
  using assms by (auto simp: create_node_def node_at_def nth_append)

lemma create_entry:
  fixes s :: CFGStructurizer
  assumes "create_node s = (p, t)"
  shows "entry_block t = entry_block s"
  using assms by (auto simp: create_node_def)

lemma rtrancl_image:
  assumes "\<And>x y. (x, y) \<in> r \<Longrightarrow> (f x, f y) \<in> s\<^sup>*" and "(x, y) \<in> r\<^sup>*"
  shows "(f x, f y) \<in> s\<^sup>*"
  using assms(2) by (induction) (auto intro: rtrancl_trans assms(1))

lemma edges_ok_agree:
  assumes s: "edges_ok s"
  shows "m \<in> set (succ (node_at s k)) \<longleftrightarrow> k \<in> set (pred (node_at s m))"
proof (cases "k < length (nodes s)")
  case k: True
  show ?thesis
  proof (cases "m < length (nodes s)")
    case True show ?thesis by (rule edges_okD(5) [OF s k True])
  next
    case False then show ?thesis using edges_okD(3) [OF s k, of m] by auto
  qed
next
  case False
  then show ?thesis using edges_okD(4) [OF s, of m k] by (cases "m < length (nodes s)") auto
qed

section \<open>A block before a node\<close>

lemma substitute_set: "set (substitute_node a b ns) = (\<lambda>n. if n = a then b else n) ` set ns"
  by (simp add: substitute_node_def)

lemma substitute_absent: "a \<notin> set ns \<Longrightarrow> substitute_node a b ns = ns"
  by (induction ns) (auto simp: substitute_node_def)

lemma substitute_distinct: "distinct ns \<Longrightarrow> b \<notin> set ns \<Longrightarrow> distinct (substitute_node a b ns)"
  by (induction ns) (auto simp: substitute_node_def)

lemma substitute_mem:
  "b \<notin> set ns \<Longrightarrow> m \<in> set (substitute_node a b ns) \<longleftrightarrow> (if m = b then a \<in> set ns else m \<noteq> a \<and> m \<in> set ns)"
  by (induction ns) (auto simp: substitute_node_def)

text \<open>Before the last edge is added the predecessors have moved and the node has none.\<close>

lemma retarget_pred_from_at:
  assumes t: "edges_ok s" "n < length (nodes s)" and p: "p = length (nodes s)" "length (nodes t) = Suc p"
    and S: "\<And>k. succ (node_at t k) = succ (node_at s k)"
    and P: "\<And>k. pred (node_at t k) = (if k = p then pred (node_at s n) else if k = n then [] else pred (node_at s k))"
    and F: "\<And>k. fake_succ (node_at t k) = fake_succ (node_at s k)"
    and T: "\<And>k. terminator (ir (node_at t k)) = terminator (ir (node_at s k))"
  defines "q \<equiv> retarget_pred_from p n t"
  shows "edges_ok q" "length (nodes q) = Suc p" "succ (node_at q k) = substitute_node n p (succ (node_at s k))"
    "fake_succ (node_at q k) = fake_succ (node_at s k)"
    "terminator (ir (node_at q k)) = (if (k, n) \<in> succ_rel s then retarget_terminator n p (terminator (ir (node_at s k)))
       else terminator (ir (node_at s k)))"
proof -
  note D = edges_okD [OF t(1)]
  let ?u = "fold (\<lambda>k. update_node k (retarget_node n p)) (pred (node_at s n)) t"
  have ps: "pred (node_at t p) = pred (node_at s n)" by (simp add: P)
  have u: "node_at ?u k = (if k \<in> set (pred (node_at s n)) then retarget_node n p (node_at t k) else node_at t k)" for k
    using D(2) [OF t(2)] less_SucI [OF D(4) [OF t(2)]] p by (auto simp: node_at_fold_update)
  have q: "same_edges ?u q"
    unfolding q_def retarget_pred_from_def Let_def ps by (rule same_edges_fold, rule same_edges_update) simp
  note Q = same_edgesD [OF q]
  have edge: "k \<in> set (pred (node_at s n)) \<longleftrightarrow> n \<in> set (succ (node_at s k))" for k
    by (rule edges_ok_agree [OF t(1), symmetric])
  show len: "length (nodes q) = Suc p" by (simp add: Q p)
  have succ: "succ (node_at q k) = substitute_node n p (succ (node_at s k))" for k
    by (simp add: Q u S edge retarget_node_def substitute_absent)
  show "succ (node_at q k) = substitute_node n p (succ (node_at s k))" by (rule succ)
  show "fake_succ (node_at q k) = fake_succ (node_at s k)" by (simp add: Q u F retarget_node_def)
  show "terminator (ir (node_at q k)) = (if (k, n) \<in> succ_rel s then retarget_terminator n p (terminator (ir (node_at s k)))
       else terminator (ir (node_at s k)))" by (simp add: Q u T retarget_node_def edge succ_rel_iff)
  have pred: "pred (node_at q k) = (if k = p then pred (node_at s n) else if k = n then [] else pred (node_at s k))" for k
    by (simp add: Q u P retarget_node_def)
  have low: "m < p" if "m \<in> set (succ (node_at s k))" for m k
    using D(3) [of k m] that p by (cases "k < length (nodes s)") auto
  have lowp: "m < p" if "m \<in> set (pred (node_at s k))" for m k
    using D(4) [of k m] that p by (cases "k < length (nodes s)") auto
  show "edges_ok q"
  proof (rule edges_okI; unfold len)
    fix k m
    show "distinct (succ (node_at q k))"
      using D(1) [of k] low [of p k] p substitute_distinct [of "succ (node_at s k)" p n]
      by (cases "k < length (nodes s)") (auto simp: succ substitute_absent)
    show "distinct (pred (node_at q k))" using D(2) [of k] D(2) [OF t(2)] by (cases "k < length (nodes s)") (auto simp: pred)
    show "m < Suc p" if "m \<in> set (succ (node_at q k))" using low [of _ k] that by (auto simp: succ substitute_set intro: less_SucI)
    show "m < Suc p" if "m \<in> set (pred (node_at q k))" using lowp that by (auto simp: pred split: if_splits intro: less_SucI)
    have old: "m \<in> set (succ (node_at s k)) \<longleftrightarrow> k \<in> set (pred (node_at s m))"
      by (rule edges_ok_agree [OF t(1)])
    show "m \<in> set (succ (node_at q k)) \<longleftrightarrow> k \<in> set (pred (node_at q m))"
      unfolding succ pred using old edge [of k] low [of p k] t(2) p
      by (subst substitute_mem) (fastforce, simp)
  qed
qed


definition redirect_target :: "nref \<Rightarrow> nref \<Rightarrow> nref \<times> nref \<Rightarrow> nref \<times> nref" where
  "redirect_target n p = (\<lambda>(a, b). (a, if b = n then p else b))"

definition redirect_source :: "nref \<Rightarrow> nref \<Rightarrow> nref \<times> nref \<Rightarrow> nref \<times> nref" where
  "redirect_source n c = (\<lambda>(a, b). (if a = n then c else a, b))"

text \<open>Going through a new block changes no path between old ones.\<close>

lemma redirect_paths:
  assumes new: "\<And>a b. (a, b) \<in> r \<Longrightarrow> a \<noteq> p \<and> b \<noteq> p" and ends: "a \<noteq> p" "b \<noteq> p"
  shows "(a, b) \<in> (insert (p, n) (redirect_target n p ` r))\<^sup>* \<longleftrightarrow> (a, b) \<in> r\<^sup>*"
    "(a, b) \<in> (insert (n, p) (redirect_source n p ` r))\<^sup>* \<longleftrightarrow> (a, b) \<in> r\<^sup>*"
proof -
  let ?t = "insert (p, n) (redirect_target n p ` r)" and ?s = "insert (n, p) (redirect_source n p ` r)"
  let ?f = "\<lambda>x. if x = p then n else x"
  have t: "(x, y) \<in> ?t\<^sup>*" if "(x, y) \<in> r" for x y
  proof (cases "y = n")
    case True
    have "(x, p) \<in> ?t" using that True by (force simp: redirect_target_def)
    then show ?thesis using True by (auto intro: rtrancl_into_rtrancl)
  next
    case False
    have "(x, y) \<in> ?t" using that False by (force simp: redirect_target_def)
    then show ?thesis by auto
  qed
  have s: "(x, y) \<in> ?s\<^sup>*" if "(x, y) \<in> r" for x y
  proof (cases "x = n")
    case True
    have "(p, y) \<in> ?s" using that True by (force simp: redirect_source_def)
    then show ?thesis using True by (auto intro: converse_rtrancl_into_rtrancl)
  next
    case False
    have "(x, y) \<in> ?s" using that False by (force simp: redirect_source_def)
    then show ?thesis by auto
  qed
  have t': "(?f x, ?f y) \<in> r\<^sup>*" if "(x, y) \<in> ?t" for x y
    using that by (auto simp: redirect_target_def split: if_splits dest: new intro: r_into_rtrancl)
  have s': "(?f x, ?f y) \<in> r\<^sup>*" if "(x, y) \<in> ?s" for x y
    using that by (auto simp: redirect_source_def split: if_splits dest: new intro: r_into_rtrancl)
  show "(a, b) \<in> ?t\<^sup>* \<longleftrightarrow> (a, b) \<in> r\<^sup>*"
    using rtrancl_image [of r "\<lambda>x. x", OF t] rtrancl_image [of ?t ?f r a b, OF t'] ends by auto
  show "(a, b) \<in> ?s\<^sup>* \<longleftrightarrow> (a, b) \<in> r\<^sup>*"
    using rtrancl_image [of r "\<lambda>x. x", OF s] rtrancl_image [of ?s ?f r a b, OF s'] ends by auto
qed

lemma create_helper_pred_block_run:
  assumes s: "edges_ok s" "n < length (nodes s)"
  defines "p \<equiv> length (nodes s)"
  shows "\<exists>q. create_helper_pred_block n s = Ok (p, q) \<and> edges_ok q \<and> length (nodes q) = Suc p \<and>
    succ_rel q = insert (p, n) (redirect_target n p ` succ_rel s) \<and>
    entry_block q = (if n = entry_block s then p else entry_block s) \<and>
    direct_block (terminator (ir (node_at q p))) = Some n \<and>
    (\<forall>a. (a, n) \<in> succ_rel s \<longrightarrow> terminator (ir (node_at q a)) = retarget_terminator n p (terminator (ir (node_at s a))))"
proof -
  define x where "x = node_at s n"
  obtain s0 where c: "create_node s = (p, s0)" by (auto simp: create_node_def p_def)
  note C = node_at_create [OF c] create_entry [OF c]
  define s1 where "s1 = update_node n (\<lambda>y. y\<lparr>pred := []\<rparr>) (update_node p (\<lambda>y. y\<lparr>node_name := node_name x @ ''.pred'',
    forward_order := forward_order x, backward_order := backward_order x, pred := pred x\<rparr>) s0)"
  define s2 where "s2 = fold (\<lambda>h. fixup_merge_info_after_branch_rewrite h n p) (headers x) s1"
  define s3 where "s3 = update_node n (\<lambda>y. y\<lparr>headers := []\<rparr>) s2"
  define s4 where "s4 = update_node p (\<lambda>y. y\<lparr>immediate_dominator := (if idom s3 n = Some n then Some p else idom s3 n),
                immediate_post_dominator := Some n\<rparr>) s3"
  define s5 where "s5 = update_node n (\<lambda>y. y\<lparr>immediate_dominator := Some p\<rparr>) s4"
  define s6 where "s6 = retarget_pred_from p n s5"
  have same12: "same_edges s1 s2" unfolding s2_def by (rule same_edges_fold, rule same_edges_fixup)
  have same23: "same_edges s2 s3" unfolding s3_def by (rule same_edges_update) simp
  have same34: "same_edges s3 s4" unfolding s4_def by (rule same_edges_update) simp
  have same45: "same_edges s4 s5" unfolding s5_def by (rule same_edges_update) simp
  note same = same_edges_trans [OF same_edges_trans [OF same_edges_trans [OF same12 same23] same34] same45]
  note S = same_edgesD [OF same]
  have np: "n \<noteq> p" "n < Suc p" using s(2) by (simp_all add: p_def)
  have run: "create_helper_pred_block n s = bind_res (add_branch p n s6) (\<lambda>s.
      let s = (if n = entry_block s then s\<lparr>entry_block := p\<rparr> else s) in Ok (p, update_node p (set_branch_to n) s))"
    unfolding create_helper_pred_block_def Let_def c prod.case s6_def s5_def s4_def s3_def s2_def s1_def x_def by simp
  have s5: "length (nodes s5) = Suc p" "succ (node_at s5 k) = succ (node_at s k)" "fake_succ (node_at s5 k) = fake_succ (node_at s k)"
    "terminator (ir (node_at s5 k)) = terminator (ir (node_at s k))"
    "pred (node_at s5 k) = (if k = p then pred (node_at s n) else if k = n then [] else pred (node_at s k))" for k
    using np by (simp_all add: S s1_def C node_at_update x_def flip: p_def)
  note at6 = retarget_pred_from_at [OF s p_def [THEN meta_eq_to_obj_eq] s5(1,2,5,3,4), folded s6_def]
  have e6: "entry_block s6 = entry_block s"
    unfolding s6_def retarget_pred_from_def Let_def s5_def s4_def s3_def s2_def s1_def by (simp add: fold_entry_block C(5))
  have fake: "n \<notin> set (fake_succ (node_at s6 p))" by (simp add: at6 C(4))
  obtain q where q: "add_branch p n s6 = Ok q" "edges_ok q" "length (nodes q) = length (nodes s6)" "succ_rel q = insert (p, n) (succ_rel s6)"
    using add_branch_edges [OF at6(1) _ _ fake] np at6(2) by auto
  have q_same: "entry_block q = entry_block s6 \<and> (\<forall>k. terminator (ir (node_at q k)) = terminator (ir (node_at s6 k)))"
    using q(1) fake by (auto simp: add_branch_def add_unique_succ_def add_unique_pred_def node_at_update)
  let ?q = "if n = entry_block q then q\<lparr>entry_block := p\<rparr> else q"
  define r where "r = update_node p (set_branch_to n) ?q"
  have q': "same_edges q ?q" by (simp add: same_edges_def node_at_def)
  have rat: "succ (node_at r k) = succ (node_at q k)" "pred (node_at r k) = pred (node_at q k)" "length (nodes r) = length (nodes q)"
    "terminator (ir (node_at r k)) = (if k = p then terminator (ir (set_branch_to n (node_at ?q p))) else terminator (ir (node_at q k)))" for k
    unfolding r_def using q(3) at6(2) same_edgesD [OF q'] by (auto simp: node_at_update set_branch_to_def)
  have ok: "edges_ok r" using q(2) unfolding edges_ok_def rat .
  have "succ_rel s6 = redirect_target n p ` succ_rel s"
    by (auto simp: succ_rel_def at6 substitute_set redirect_target_def image_iff split: if_splits)
  then have rel: "succ_rel r = insert (p, n) (redirect_target n p ` succ_rel s)" using q(4) by (simp add: succ_rel_def rat)
  have moved: "terminator (ir (node_at r a)) = retarget_terminator n p (terminator (ir (node_at s a)))" if "(a, n) \<in> succ_rel s" for a
  proof -
    have "a \<noteq> p" using that C(4) by (auto simp: succ_rel_def)
    then show ?thesis using that q_same by (simp only: rat at6 if_False if_True)
  qed
  have "create_helper_pred_block n s = Ok (p, r)" using q_same e6 by (simp add: run q(1) r_def)
  moreover have "entry_block r = (if n = entry_block s then p else entry_block s)" using q_same e6 by (simp add: r_def)
  moreover have "direct_block (terminator (ir (node_at r p))) = Some n" by (simp add: rat set_branch_to_def)
  ultimately show ?thesis using ok rel moved q(3) at6(2) by (simp add: rat)
qed

section \<open>A block after a node\<close>

lemma create_helper_succ_block_run:
  assumes s: "edges_ok s" "n < length (nodes s)" and fake: "length (nodes s) \<notin> set (fake_succ (node_at s n))"
  defines "c \<equiv> length (nodes s)"
  shows "\<exists>q. create_helper_succ_block n s = Ok (c, q) \<and> edges_ok q \<and> length (nodes q) = Suc c \<and>
    succ_rel q = insert (n, c) (redirect_source n c ` succ_rel s) \<and> entry_block q = entry_block s \<and>
    direct_block (terminator (ir (node_at q n))) = Some c \<and>
    terminator (ir (node_at q c)) = terminator (ir (node_at s n))"
proof -
  define x where "x = node_at s n"
  note D = edges_okD [OF s(1)]
  obtain s0 where cr: "create_node s = (c, s0)" by (auto simp: create_node_def c_def)
  note C = node_at_create [OF cr] create_entry [OF cr]
  define s1 where "s1 = update_node c (\<lambda>y. y\<lparr>node_name := node_name x @ ''.succ'', forward_order := forward_order x,
                backward_order := backward_order x, succ := succ x,
                immediate_post_dominator := immediate_post_dominator x\<rparr>) s0"
  define s2 where "s2 = update_node n (\<lambda>y. set_branch_to c (y\<lparr>succ := [], immediate_post_dominator := Some c\<rparr>)) s1"
  define s3 where "s3 = update_node c (\<lambda>y. y\<lparr>ir := (ir y)\<lparr>terminator := terminator (ir x),
                merge_info := (if term_type (terminator (ir x)) = Term_Condition
                  then (merge_info (ir y))\<lparr>selection_control_mask := selection_control_mask (merge_info (ir x))\<rparr> else merge_info (ir y))\<rparr>\<rparr>) s2"
  define s4 where "s4 = fold (\<lambda>k. update_node k (\<lambda>x. x\<lparr>pred := substitute_node n c (pred x)\<rparr>)) (succ (node_at s n)) s3"
  define s5 where "s5 = retarget_succ_from c n s3"
  have np: "n \<noteq> c" "n < Suc c" using s(2) by (simp_all add: c_def)
  have s3: "length (nodes s3) = Suc c" "pred (node_at s3 k) = pred (node_at s k)" "fake_succ (node_at s3 k) = fake_succ (node_at s k)"
    "succ (node_at s3 k) = (if k = c then succ (node_at s n) else if k = n then [] else succ (node_at s k))"
    "direct_block (terminator (ir (node_at s3 n))) = Some c" "terminator (ir (node_at s3 c)) = terminator (ir x)" for k
    using np by (simp_all add: s3_def s2_def s1_def C node_at_update x_def set_branch_to_def flip: c_def)
  have s4: "node_at s4 k = (if k \<in> set (succ (node_at s n)) then (node_at s3 k)\<lparr>pred := substitute_node n c (pred (node_at s3 k))\<rparr>
      else node_at s3 k)" for k
    unfolding s4_def using D(1) [OF s(2)] less_SucI [OF D(3) [OF s(2)]] by (auto simp: node_at_fold_update s3(1) c_def)
  have sc: "succ (node_at s3 c) = succ (node_at s n)" by (simp add: s3)
  have same: "same_edges s4 s5"
    unfolding s5_def retarget_succ_from_def Let_def sc s4_def [symmetric]
    by (rule same_edges_trans [OF same_edges_fold same_edges_update]) (auto intro!: same_edges_update)
  note S = same_edgesD [OF same]
  have edge: "k \<in> set (succ (node_at s n)) \<longleftrightarrow> n \<in> set (pred (node_at s k))" for k
    by (rule edges_ok_agree [OF s(1)])
  have at5: "length (nodes s5) = Suc c" "fake_succ (node_at s5 k) = fake_succ (node_at s k)"
    "succ (node_at s5 k) = (if k = c then succ (node_at s n) else if k = n then [] else succ (node_at s k))"
    "pred (node_at s5 k) = substitute_node n c (pred (node_at s k))"
    "direct_block (terminator (ir (node_at s5 n))) = Some c" "terminator (ir (node_at s5 c)) = terminator (ir x)" for k
  proof -
    have "length (nodes s4) = length (nodes s3)" unfolding s4_def by (rule length_fold_update)
    then show "length (nodes s5) = Suc c" by (simp add: S s3)
  qed (simp_all add: S s4 s3 edge substitute_absent)
  have low: "m < c" if "m \<in> set (succ (node_at s k))" for m k
    using D(3) [of k m] that by (cases "k < length (nodes s)") (auto simp: c_def)
  have lowp: "m < c" if "m \<in> set (pred (node_at s k))" for m k
    using D(4) [of k m] that by (cases "k < length (nodes s)") (auto simp: c_def)
  have "edges_ok s5"
  proof (rule edges_okI; unfold at5(1))
    fix k m
    show "distinct (succ (node_at s5 k))" using D(1) [of k] D(1) [OF s(2)] by (cases "k < length (nodes s)") (auto simp: at5)
    show "distinct (pred (node_at s5 k))"
      using D(2) [of k] lowp [of c k] substitute_distinct [of "pred (node_at s k)" c n]
      by (cases "k < length (nodes s)") (auto simp: at5 substitute_absent)
    show "m < Suc c" if "m \<in> set (succ (node_at s5 k))" using low that by (auto simp: at5 split: if_splits intro: less_SucI)
    show "m < Suc c" if "m \<in> set (pred (node_at s5 k))" using lowp [of _ k] that by (auto simp: at5 substitute_set intro: less_SucI)
    have old: "m \<in> set (succ (node_at s k)) \<longleftrightarrow> k \<in> set (pred (node_at s m))"
      by (rule edges_ok_agree [OF s(1)])
    show "m \<in> set (succ (node_at s5 k)) \<longleftrightarrow> k \<in> set (pred (node_at s5 m))"
      unfolding at5 using old edge [of m] lowp [of c m] np(1) by (subst substitute_mem) (fastforce, simp)
  qed
  moreover have fake5: "c \<notin> set (fake_succ (node_at s5 n))" using fake by (simp add: at5 c_def)
  ultimately obtain q where q: "add_branch n c s5 = Ok q" "edges_ok q" "length (nodes q) = Suc c" "succ_rel q = insert (n, c) (succ_rel s5)"
    using add_branch_edges [of s5 n c] np at5(1) by auto
  have q_same: "entry_block q = entry_block s5 \<and> (\<forall>k. terminator (ir (node_at q k)) = terminator (ir (node_at s5 k)))"
    using q(1) fake5 by (auto simp: add_branch_def add_unique_succ_def add_unique_pred_def node_at_update)
  have "entry_block s5 = entry_block s3"
    unfolding s5_def retarget_succ_from_def Let_def by (simp add: fold_entry_block)
  then have entry: "entry_block q = entry_block s" using q_same C(5) by (simp add: s3_def s2_def s1_def)
  have run: "create_helper_succ_block n s = bind_res (add_branch n c s5) (\<lambda>s. Ok (c, s))"
    unfolding create_helper_succ_block_def Let_def cr prod.case s5_def s3_def s2_def s1_def x_def by simp
  have "succ_rel s5 = redirect_source n c ` succ_rel s"
    using C(4) by (auto simp: succ_rel_def at5 redirect_source_def image_iff split: if_splits)
  then show ?thesis using run q entry q_same at5(5,6) by (auto simp: x_def)
qed

section \<open>One back edge for a header\<close>

lemma retarget_pre_traversal_fake_succ:
  "retarget_branch_pre_traversal a b c p = Ok q \<Longrightarrow> fake_succ (node_at q k) = fake_succ (node_at p k)"
  by (auto simp: retarget_branch_pre_traversal_def Let_def remove_pred_def add_unique_pred_def node_at_update split: if_splits)

definition move_edges :: "nref set \<Rightarrow> nref \<Rightarrow> nref \<Rightarrow> (nref \<times> nref) set \<Rightarrow> (nref \<times> nref) set" where
  "move_edges ns e b r = (r - ns \<times> {e}) \<union> ns \<times> {b}"

lemma added_edge:
  "succ (node_at (add_unique_pred t h (update_node h (\<lambda>x. x\<lparr>succ := push_unique (succ x) t\<rparr>) p)) k) =
     (if k = h \<and> h < length (nodes p) then push_unique (succ (node_at p k)) t else succ (node_at p k))"
  "pred (node_at (add_unique_pred t h (update_node h (\<lambda>x. x\<lparr>succ := push_unique (succ x) t\<rparr>) p)) k) =
     (if k = t \<and> t < length (nodes p) then push_unique (pred (node_at p k)) h else pred (node_at p k))"
  "length (nodes (add_unique_pred t h (update_node h (\<lambda>x. x\<lparr>succ := push_unique (succ x) t\<rparr>) p))) = length (nodes p)"
  by (simp_all add: add_unique_pred_def node_at_update)

lemma retarget_sources:
  assumes t: "edges_ok t" "e < length (nodes t)" "b < length (nodes t)" "b \<noteq> e"
    and ns: "distinct ns" "\<And>n. n \<in> set ns \<Longrightarrow> (n, e) \<in> succ_rel t \<and> (n, b) \<notin> succ_rel t \<and> n < length (nodes t)"
    and live: "(e \<notin> set ns \<and> (e, b) \<notin> succ_rel t) \<or> (\<exists>q. (q, e) \<in> succ_rel t \<and> q \<notin> set ns \<and> q < length (nodes t))"
  shows "\<exists>u. fold_res (\<lambda>n. retarget_branch_pre_traversal n e b) ns t = Ok u \<and> edges_ok u \<and> length (nodes u) = length (nodes t) \<and>
    succ_rel u = move_edges (set ns) e b (succ_rel t) \<and> (\<forall>k. fake_succ (node_at u k) = fake_succ (node_at t k))"
  using assms
proof (induction ns arbitrary: t)
  case Nil then show ?case by (simp add: move_edges_def)
next
  case (Cons n ns)
  have n: "(n, e) \<in> succ_rel t" "(n, b) \<notin> succ_rel t" "n < length (nodes t)" using Cons.prems(6) [of n] by auto
  have live: "(\<exists>q \<in> set (pred (node_at t e)). q \<noteq> n) \<or> pred_back_edge (node_at t e) \<noteq> None \<or> b \<notin> set (succ (node_at t e))"
    using Cons.prems(7) edges_okD(5) [OF Cons.prems(1)] Cons.prems(2) by (fastforce simp: succ_rel_def)
  obtain v where v: "retarget_branch_pre_traversal n e b t = Ok v" "edges_ok v" "length (nodes v) = length (nodes t)"
      "succ_rel v = insert (n, b) (succ_rel t - {(n, e)})"
    using retarget_pre_traversal_edges [OF Cons.prems(1) n(3) Cons.prems(3) _ _ live] n by (auto simp: succ_rel_iff)
  have step: "\<exists>u. fold_res (\<lambda>n. retarget_branch_pre_traversal n e b) ns v = Ok u \<and> edges_ok u \<and> length (nodes u) = length (nodes v) \<and>
    succ_rel u = move_edges (set ns) e b (succ_rel v) \<and> (\<forall>k. fake_succ (node_at u k) = fake_succ (node_at v k))"
  proof (rule Cons.IH)
    show "edges_ok v" by (rule v)
    show "e < length (nodes v)" "b < length (nodes v)" "b \<noteq> e" "distinct ns" using Cons.prems v by simp_all
    show "(m, e) \<in> succ_rel v \<and> (m, b) \<notin> succ_rel v \<and> m < length (nodes v)" if "m \<in> set ns" for m
      using Cons.prems(5) Cons.prems(6) [of m] that v by auto
    show "(e \<notin> set ns \<and> (e, b) \<notin> succ_rel v) \<or> (\<exists>q. (q, e) \<in> succ_rel v \<and> q \<notin> set ns \<and> q < length (nodes v))"
      using Cons.prems(7) v by auto
  qed
  have "move_edges (set ns) e b (succ_rel v) = move_edges (set (n # ns)) e b (succ_rel t)"
    unfolding v move_edges_def using Cons.prems(4) by auto
  then show ?case using step v retarget_pre_traversal_fake_succ [OF v(1)] by auto
qed

lemma merge_back_edges_run:
  assumes s: "edges_ok s" "e < length (nodes s)" and two: "2 \<le> length (fake_pred (node_at s e))"
    and ns: "distinct (fake_pred (node_at s e))" "\<And>n. n \<in> set (fake_pred (node_at s e)) \<Longrightarrow> (n, e) \<in> succ_rel s"
    and live: "e \<notin> set (fake_pred (node_at s e)) \<or> (\<exists>q. (q, e) \<in> succ_rel s \<and> q \<notin> set (fake_pred (node_at s e)))"
  defines "b \<equiv> length (nodes s)"
  shows "\<exists>u. merge_back_edges e s = Ok u \<and> edges_ok u \<and> length (nodes u) = Suc b \<and>
    succ_rel u = insert (b, e) (move_edges (set (fake_pred (node_at s e))) e b (succ_rel s))"
proof -
  let ?ns = "fake_pred (node_at s e)"
  obtain s0 where cr: "create_node s = (b, s0)" by (auto simp: create_node_def b_def)
  note C = node_at_create [OF cr]
  define t where "t = update_node b (\<lambda>x. x\<lparr>node_name := node_name (node_at s0 e) @ ''.back-edge-merge''\<rparr>) s0"
  have t: "length (nodes t) = Suc b" "succ (node_at t k) = succ (node_at s k)" "pred (node_at t k) = pred (node_at s k)"
    "fake_succ (node_at t k) = fake_succ (node_at s k)" for k
    by (simp_all add: t_def C node_at_update b_def)
  have rel: "succ_rel t = succ_rel s" by (simp add: succ_rel_def t)
  have low: "a < b \<and> c < b" if "(a, c) \<in> succ_rel s" for a c
    using that edges_okD(3) [OF s(1), of a c] by (cases "a < b") (auto simp: succ_rel_def b_def)
  have "edges_ok t"
  proof (rule edges_okI; unfold t)
    fix n m
    note D = edges_okD [OF s(1), of n]
    show "distinct (succ (node_at s n))" "distinct (pred (node_at s n))" using D(1,2) by (cases "n < length (nodes s)"; simp)+
    show "m < Suc b" if "m \<in> set (succ (node_at s n))" using D(3) [of m] that by (cases "n < length (nodes s)") (auto simp: b_def)
    show "m < Suc b" if "m \<in> set (pred (node_at s n))" using D(4) [of m] that by (cases "n < length (nodes s)") (auto simp: b_def)
    show "m \<in> set (succ (node_at s n)) \<longleftrightarrow> n \<in> set (pred (node_at s m))"
      by (rule edges_ok_agree [OF s(1)])
  qed
  then obtain u where u: "fold_res (\<lambda>n. retarget_branch_pre_traversal n e b) ?ns t = Ok u" "edges_ok u" "length (nodes u) = Suc b"
      "succ_rel u = move_edges (set ?ns) e b (succ_rel s)" "\<And>k. fake_succ (node_at u k) = fake_succ (node_at s k)"
    using retarget_sources [of t e b ?ns] s(2) ns low live by (force simp: t rel b_def)
  define v where "v = update_node b (\<lambda>x. set_branch_to e (x\<lparr>succ := succ x @ [e]\<rparr>)) u"
  have run: "merge_back_edges e s = add_branch b e v"
    using two u(1) by (simp add: merge_back_edges_def Let_def cr v_def flip: t_def)
  have "(b, e) \<notin> succ_rel u" unfolding u using low [of b e] ns(2) low [of b] by (auto simp: move_edges_def)
  then have b: "e \<notin> set (succ (node_at u b))" "e \<notin> set (fake_succ (node_at u b))" using C(4) by (simp_all add: succ_rel_def u(5))
  have au: "add_branch b e u = Ok (add_unique_pred e b (update_node b (\<lambda>x. x\<lparr>succ := push_unique (succ x) e\<rparr>) u))"
    using b by (simp add: add_branch_def add_unique_succ_def)
  obtain w where w: "add_branch b e u = Ok w" "edges_ok w" "length (nodes w) = Suc b" "succ_rel w = insert (b, e) (succ_rel u)"
    using add_branch_edges [OF u(2) _ _ b(2)] u(3) s(2) by (auto simp: b_def)
  have v: "add_branch b e v = Ok (add_unique_pred e b (update_node b (\<lambda>x. x\<lparr>succ := push_unique (succ x) e\<rparr>) v))"
    using b u(3) by (simp add: add_branch_def add_unique_succ_def v_def node_at_update set_branch_to_def)
  define z where "z = add_unique_pred e b (update_node b (\<lambda>x. x\<lparr>succ := push_unique (succ x) e\<rparr>) v)"
  have eb: "e \<noteq> b" using s(2) by (simp add: b_def)
  have z: "succ (node_at z k) = succ (node_at w k)" "pred (node_at z k) = pred (node_at w k)" "length (nodes z) = length (nodes w)" for k
  proof -
    have w': "w = add_unique_pred e b (update_node b (\<lambda>x. x\<lparr>succ := push_unique (succ x) e\<rparr>) u)" using w(1) au by simp
    have v': "succ (node_at v k) = (if k = b then succ (node_at u b) @ [e] else succ (node_at u k))"
      "pred (node_at v k) = pred (node_at u k)" "length (nodes v) = length (nodes u)" for k
      using u(3) by (simp_all add: v_def node_at_update set_branch_to_def)
    have b': "b < length (nodes u)" "push_unique (succ (node_at u b)) e = succ (node_at u b) @ [e]"
      using b(1) u(3) by (simp_all add: push_unique_def)
    show "succ (node_at z k) = succ (node_at w k)" unfolding z_def w' added_edge v' using b' by (simp add: push_unique_def [of "_ @ [e]"])
    show "pred (node_at z k) = pred (node_at w k)" "length (nodes z) = length (nodes w)"
      unfolding z_def w' added_edge v' by (rule refl)+
  qed
  have ok: "edges_ok z" using w(2) unfolding edges_ok_def z .
  have "succ_rel z = succ_rel w" unfolding succ_rel_def z ..
  then have rel: "succ_rel z = insert (b, e) (move_edges (set ?ns) e b (succ_rel s))" unfolding w(4) u(4) .
  have "merge_back_edges e s = Ok z" unfolding run v z_def ..
  moreover have "length (nodes z) = Suc b" unfolding z w(3) ..
  ultimately show ?thesis using ok rel by blast
qed

section \<open>Properties\<close>

definition two_back_edges :: CFGStructurizer where
  "two_back_edges = CFGStructurizer_new 0 \<lparr>nodes = [node_of [1] [], (node_of [2, 3] [0, 2, 3])\<lparr>fake_pred := [2, 3]\<rparr>,
     node_of [1] [1], node_of [1, 4] [1], node_of [] [3]]\<rparr>"

lemma two_back_edges_nodes:
  "nodes two_back_edges = [node_of [1] [], (node_of [2, 3] [0, 2, 3])\<lparr>fake_pred := [2, 3]\<rparr>,
     node_of [1] [1], node_of [1, 4] [1], node_of [] [3], CFGNode_new\<lparr>node_name := ''EXIT''\<rparr>]"
  by (simp add: two_back_edges_def CFGStructurizer_new_def create_node_def update_node_def node_at_def)

lemma two_back_edges_simps:
  "edges_ok two_back_edges" "length (nodes two_back_edges) = 6" "fake_pred (node_at two_back_edges (Suc 0)) = [2, 3]"
  "succ_rel two_back_edges = {(0, 1), (1, 2), (1, 3), (2, 1), (3, 1), (3, 4)}" "fake_succ (node_at two_back_edges (Suc 0)) = []"
proof -
  show "edges_ok two_back_edges"
    by (simp add: edges_ok_def two_back_edges_nodes node_at_def node_of_def eval_nat_numeral all_below_Suc)
  have "b \<in> set (succ (node_at two_back_edges a)) \<longleftrightarrow> (a, b) \<in> {(0, 1), (1, 2), (1, 3), (2, 1), (3, 1), (3, 4)}" for a b
  proof (cases "a < 6")
    case True
    then consider "a = 0" | "a = 1" | "a = 2" | "a = 3" | "a = 4" | "a = 5" by linarith
    then show ?thesis by cases (auto simp: two_back_edges_nodes node_at_def node_of_def)
  next
    case False then show ?thesis by (auto simp: two_back_edges_nodes node_at_def)
  qed
  then show "succ_rel two_back_edges = {(0, 1), (1, 2), (1, 3), (2, 1), (3, 1), (3, 4)}" by (auto simp: succ_rel_def)
qed (simp_all add: two_back_edges_nodes node_at_def node_of_def)

lemma edges_below:
  assumes "edges_ok s" "(a, b) \<in> succ_rel s"
  shows "a \<noteq> length (nodes s) \<and> b \<noteq> length (nodes s)"
  using edges_okD(3) [OF assms(1), of a b] assms(2) by (cases "a < length (nodes s)") (auto simp: succ_rel_def)

text \<open>
  C17. \<open>create_helper_pred_block\<close> on a block returns a new block that takes over exactly the edges
  into it and branches to it. The lists of the pool agree, the branches of the former predecessors
  name the new block, it becomes the entry when the block was, and paths between old blocks
  are the same as before.
\<close>

theorem helper_pred_block_takes_over:
  assumes "edges_ok s" and "n < length (nodes s)"
  shows "\<exists>q. create_helper_pred_block n s = Ok (length (nodes s), q) \<and> edges_ok q \<and>
    succ_rel q = insert (length (nodes s), n) ((\<lambda>(a, b). (a, if b = n then length (nodes s) else b)) ` succ_rel s) \<and>
    entry_block q = (if n = entry_block s then length (nodes s) else entry_block s) \<and>
    direct_block (terminator (ir (node_at q (length (nodes s))))) = Some n \<and>
    (\<forall>a. (a, n) \<in> succ_rel s \<longrightarrow>
       terminator (ir (node_at q a)) = retarget_terminator n (length (nodes s)) (terminator (ir (node_at s a)))) \<and>
    (\<forall>a < length (nodes s). \<forall>b < length (nodes s). (a, b) \<in> (succ_rel q)\<^sup>* \<longleftrightarrow> (a, b) \<in> (succ_rel s)\<^sup>*)"
  using create_helper_pred_block_run [OF assms] redirect_paths(1) [OF edges_below [OF assms(1)]]
  by (fastforce simp: redirect_target_def)

lemma helper_pred_block_takes_over_witness:
  "\<exists>q. create_helper_pred_block (Suc 0) two_back_edges = Ok (6, q) \<and> edges_ok q \<and> (2, 6) \<in> succ_rel q \<and> (6, 1) \<in> succ_rel q"
  using helper_pred_block_takes_over [of two_back_edges "Suc 0"] by (auto simp: two_back_edges_simps)

text \<open>
  C18. \<open>create_helper_succ_block\<close> on a block returns a new block that takes over exactly the edges
  out of it, with its terminator; the block itself now branches to the new one. The lists
  of the pool agree and paths between old blocks are the same as before.
\<close>

theorem helper_succ_block_takes_over:
  assumes "edges_ok s" and "n < length (nodes s)" and "length (nodes s) \<notin> set (fake_succ (node_at s n))"
  shows "\<exists>q. create_helper_succ_block n s = Ok (length (nodes s), q) \<and> edges_ok q \<and>
    succ_rel q = insert (n, length (nodes s)) ((\<lambda>(a, b). (if a = n then length (nodes s) else a, b)) ` succ_rel s) \<and>
    entry_block q = entry_block s \<and>
    direct_block (terminator (ir (node_at q n))) = Some (length (nodes s)) \<and>
    terminator (ir (node_at q (length (nodes s)))) = terminator (ir (node_at s n)) \<and>
    (\<forall>a < length (nodes s). \<forall>b < length (nodes s). (a, b) \<in> (succ_rel q)\<^sup>* \<longleftrightarrow> (a, b) \<in> (succ_rel s)\<^sup>*)"
  using create_helper_succ_block_run [OF assms] redirect_paths(2) [OF edges_below [OF assms(1)]]
  by (fastforce simp: redirect_source_def)

lemma helper_succ_block_takes_over_witness:
  "\<exists>q. create_helper_succ_block 1 two_back_edges = Ok (6, q) \<and> edges_ok q \<and> (1, 6) \<in> succ_rel q \<and> (6, 2) \<in> succ_rel q"
  using helper_succ_block_takes_over [of two_back_edges "Suc 0"] by (auto simp: two_back_edges_simps)

text \<open>
  C19. A header with two or more back edges is given a block that takes over all of them: the
  edges from their sources go to the new block, which branches to the header, no other edge changes,
  and the lists of the pool agree. When the header is one of the sources it
  must have another predecessor besides them, as every header but the entry has.
\<close>

theorem merge_back_edges_takes_over:
  assumes "edges_ok s" and "e < length (nodes s)" and "2 \<le> length (fake_pred (node_at s e))"
    and "distinct (fake_pred (node_at s e))" and "set (fake_pred (node_at s e)) \<times> {e} \<subseteq> succ_rel s"
    and "e \<notin> set (fake_pred (node_at s e)) \<or> (\<exists>q. (q, e) \<in> succ_rel s \<and> q \<notin> set (fake_pred (node_at s e)))"
  shows "\<exists>u. merge_back_edges e s = Ok u \<and> edges_ok u \<and> length (nodes u) = Suc (length (nodes s)) \<and>
    succ_rel u = insert (length (nodes s), e)
      ((succ_rel s - set (fake_pred (node_at s e)) \<times> {e}) \<union> set (fake_pred (node_at s e)) \<times> {length (nodes s)})"
  using merge_back_edges_run [OF assms(1-4) _ assms(6)] assms(5) by (auto simp: move_edges_def)

lemma merge_back_edges_takes_over_witness:
  "\<exists>u. merge_back_edges 1 two_back_edges = Ok u \<and> edges_ok u \<and>
     succ_rel u = {(0, 1), (1, 2), (1, 3), (2, 6), (3, 6), (3, 4), (6, 1)}"
proof -
  have 2: "fake_pred (node_at two_back_edges 1) = [2, 3]" by (simp add: two_back_edges_simps)
  have "\<exists>u. merge_back_edges 1 two_back_edges = Ok u \<and> edges_ok u \<and> length (nodes u) = Suc (length (nodes two_back_edges)) \<and>
    succ_rel u = insert (length (nodes two_back_edges), 1)
      ((succ_rel two_back_edges - set (fake_pred (node_at two_back_edges 1)) \<times> {1}) \<union>
        set (fake_pred (node_at two_back_edges 1)) \<times> {length (nodes two_back_edges)})"
  proof (rule merge_back_edges_takes_over)
    show "1 \<notin> set (fake_pred (node_at two_back_edges 1)) \<or>
        (\<exists>q. (q, 1) \<in> succ_rel two_back_edges \<and> q \<notin> set (fake_pred (node_at two_back_edges 1)))"
      unfolding 2 by simp
  qed (unfold 2 two_back_edges_simps(2,4), simp_all add: two_back_edges_simps(1))
  moreover have "insert (6 :: nat, 1 :: nat) (({(0, 1), (1, 2), (1, 3), (2, 1), (3, 1), (3, 4)} - set [2, 3] \<times> {1}) \<union> set [2, 3] \<times> {6}) =
    {(0, 1), (1, 2), (1, 3), (2, 6), (3, 6), (3, 4), (6, 1)}" by auto
  ultimately show ?thesis unfolding 2 two_back_edges_simps(2,4) by (metis (no_types))
qed

end
