(* ===== verification/Spv_Builder_Facts.thy ===== *)
theory Spv_Builder_Facts
  imports Spv_Builder "HOL-Library.Sublist"
begin

text \<open>
  The invariant of the SPIR-V builder: identifiers are handed out once, and types and constants
  that are asked for again are found again.
\<close>

section \<open>Invariant\<close>

text \<open>
  Every type and constant is in its group and in the list of globals with an identifier between
  one and the last one handed out, no two share one, integer types have a width and a sign, and
  an integer constant has a type of the module and as many operands as the width asks for.
\<close>

definition operand_count :: "Instruction \<Rightarrow> nat" where
  "operand_count t = (if operands t ! 0 = 64 then 2 else 1)"

definition typed_constant :: "(string \<Rightarrow> Instruction list) \<Rightarrow> Instruction \<Rightarrow> bool" where
  "typed_constant types c \<longleftrightarrow>
     (\<exists>t \<in> set (types ''OpTypeInt''). resultId t = typeId c \<and> length (operands c) = operand_count t)"

definition builder_ok :: "Builder \<Rightarrow> bool" where
  "builder_ok b \<longleftrightarrow> distinct (map resultId (constantsTypesGlobals b)) \<and>
     (\<forall>i \<in> set (constantsTypesGlobals b). 0 < resultId i \<and> resultId i \<le> uniqueId b) \<and>
     (\<forall>g. set (groupedTypes b g) \<union> set (groupedConstants b g) \<subseteq> set (constantsTypesGlobals b)) \<and>
     (\<forall>g. \<forall>t \<in> set (groupedTypes b g). opCode t = g) \<and>
     (\<forall>t \<in> set (groupedTypes b ''OpTypeInt''). length (operands t) = 2) \<and>
     (\<forall>c \<in> set (groupedConstants b ''OpTypeInt''). typed_constant (groupedTypes b) c)"

lemma builder_okD:
  assumes "builder_ok b"
  shows "distinct (map resultId (constantsTypesGlobals b))"
    "i \<in> set (constantsTypesGlobals b) \<Longrightarrow> 0 < resultId i \<and> resultId i \<le> uniqueId b"
    "i \<in> set (groupedTypes b g) \<Longrightarrow> i \<in> set (constantsTypesGlobals b)"
    "i \<in> set (groupedConstants b g) \<Longrightarrow> i \<in> set (constantsTypesGlobals b)"
    "i \<in> set (groupedTypes b g) \<Longrightarrow> opCode i = g"
    "i \<in> set (groupedTypes b ''OpTypeInt'') \<Longrightarrow> length (operands i) = 2"
    "i \<in> set (groupedConstants b ''OpTypeInt'') \<Longrightarrow> typed_constant (groupedTypes b) i"
  using assms unfolding builder_ok_def by - ((elim conjE, blast)+)

lemma Builder_new_ok: "builder_ok Builder_new"
  by (simp add: builder_ok_def Builder_new_def)

lemma global_id_unique:
  assumes "builder_ok b" "c \<in> set (constantsTypesGlobals b)" "d \<in> set (constantsTypesGlobals b)" "resultId c = resultId d"
  shows "c = d"
  using builder_okD(1) [OF assms(1)] assms(2-) by (auto simp: distinct_map dest: inj_onD)

text \<open>A builder that has grown by at most \<open>k\<close> identifiers.\<close>

definition grows :: "nat \<Rightarrow> Builder \<Rightarrow> Builder \<Rightarrow> bool" where
  "grows k b b' \<longleftrightarrow> builder_ok b' \<and> set (constantsTypesGlobals b) \<subseteq> set (constantsTypesGlobals b') \<and>
     (\<forall>g. prefix (groupedTypes b g) (groupedTypes b' g) \<and> prefix (groupedConstants b g) (groupedConstants b' g)) \<and>
     unat (uniqueId b') \<le> unat (uniqueId b) + k"

lemma grows_refl: "builder_ok b \<Longrightarrow> grows k b b"
  by (simp add: grows_def)

lemma grows_trans: "grows k b c \<Longrightarrow> grows l c d \<Longrightarrow> grows (k + l) b d"
  unfolding grows_def by (auto intro: prefix_order.trans)

lemma growsD:
  assumes "grows k b b'"
  shows "builder_ok b'" "i \<in> set (constantsTypesGlobals b) \<Longrightarrow> i \<in> set (constantsTypesGlobals b')"
    "unat (uniqueId b') \<le> unat (uniqueId b) + k"
    "prefix (groupedTypes b g) (groupedTypes b' g)" "prefix (groupedConstants b g) (groupedConstants b' g)"
  using assms by (auto simp: grows_def)

lemma next_id:
  fixes n :: u32
  assumes "unat n + 1 < 2 ^ 32"
  shows "unat (n + 1) = unat n + 1" "n < n + 1" "0 < n + 1"
proof -
  show *: "unat (n + 1) = unat n + 1" using assms by (simp add: unat_word_ariths)
  then show "n < n + 1" "0 < n + 1" by (simp_all add: word_less_nat_alt)
qed

lemma allocate_id_grows:
  assumes "builder_ok b" "unat (uniqueId b) + 1 < 2 ^ 32"
  shows "\<exists>i b'. allocate_id b = (i, b') \<and> grows 1 b b' \<and> groupedTypes b' = groupedTypes b \<and> groupedConstants b' = groupedConstants b"
proof -
  have "resultId c \<le> uniqueId b + 1" if "c \<in> set (constantsTypesGlobals b)" for c
    using builder_okD(2) [OF assms(1) that] next_id(2) [OF assms(2)] by (meson order.trans less_imp_le)
  then have "builder_ok (b\<lparr>uniqueId := uniqueId b + 1\<rparr>)"
    using assms(1) by (auto simp: builder_ok_def)
  then show ?thesis using next_id(1) [OF assms(2)] by (simp add: allocate_id_def getUniqueId_def grows_def)
qed

text \<open>A new instruction goes to the end of its group and of the globals.\<close>

lemma add_instruction_ok:
  assumes b: "builder_ok b" and room: "unat (uniqueId b) + 1 < 2 ^ 32" and id: "resultId x = uniqueId b + 1"
    and b': "constantsTypesGlobals b' = constantsTypesGlobals b @ [x]" "uniqueId b' = uniqueId b + 1"
    and T: "\<And>g. groupedTypes b' g = groupedTypes b g \<or> groupedTypes b' g = groupedTypes b g @ [x] \<and> opCode x = g \<and>
      (g = ''OpTypeInt'' \<longrightarrow> length (operands x) = 2)"
    and C: "\<And>g. groupedConstants b' g = groupedConstants b g \<or> groupedConstants b' g = groupedConstants b g @ [x] \<and>
      (g = ''OpTypeInt'' \<longrightarrow> typed_constant (groupedTypes b) x)"
  shows "grows 1 b b'"
proof -
  note D = builder_okD [OF b] and N = next_id [OF room]
  have old: "resultId c < uniqueId b + 1" if "c \<in> set (constantsTypesGlobals b)" for c
    using D(2) [OF that] N(2) by (meson le_less_trans)
  have "builder_ok b'"
    unfolding builder_ok_def
  proof (intro conjI allI ballI)
    have "resultId x \<notin> resultId ` set (constantsTypesGlobals b)"
    proof
      assume "resultId x \<in> resultId ` set (constantsTypesGlobals b)"
      then obtain c where "c \<in> set (constantsTypesGlobals b)" "resultId c = resultId x" by auto
      then show False using old [of c] id by simp
    qed
    then show "distinct (map resultId (constantsTypesGlobals b'))" using D(1) by (simp add: b')
    fix c
    show "0 < resultId c" "resultId c \<le> uniqueId b'" if "c \<in> set (constantsTypesGlobals b')"
      using that D(2) [of c] old [of c] N(3) id by (auto simp: b' intro: less_imp_le)
    fix g
    show "set (groupedTypes b' g) \<union> set (groupedConstants b' g) \<subseteq> set (constantsTypesGlobals b')"
      using T [of g] C [of g] D(3,4) [of _ g] by (auto simp: b')
    show "opCode c = g" if "c \<in> set (groupedTypes b' g)" using that T [of g] D(5) [of c g] by auto
    show "length (operands c) = 2" if "c \<in> set (groupedTypes b' ''OpTypeInt'')"
      using that T [of "''OpTypeInt''"] D(6) [of c] by auto
    show "typed_constant (groupedTypes b') c" if "c \<in> set (groupedConstants b' ''OpTypeInt'')"
    proof -
      have "typed_constant (groupedTypes b) c" using that C [of "''OpTypeInt''"] D(7) [of c] by auto
      then show ?thesis using T [of "''OpTypeInt''"] by (auto simp: typed_constant_def)
    qed
  qed
  moreover have "prefix (groupedTypes b g) (groupedTypes b' g)" "prefix (groupedConstants b g) (groupedConstants b' g)" for g
    using T [of g] C [of g] by auto
  ultimately show ?thesis using N(1) by (auto simp: grows_def b')
qed

lemma add_type_grows:
  assumes "builder_ok b" "unat (uniqueId b) + 1 < 2 ^ 32" and "opr = ''OpTypeInt'' \<longrightarrow> length ops = 2"
  defines "x \<equiv> \<lparr>resultId = uniqueId b + 1, typeId = 0, opCode = opr, operands = ops\<rparr>"
  shows "\<exists>b'. add_type_instruction opr ops b = (uniqueId b + 1, b') \<and> grows 1 b b' \<and>
    groupedTypes b' = (groupedTypes b)(opr := groupedTypes b opr @ [x]) \<and> groupedConstants b' = groupedConstants b \<and>
    x \<in> set (constantsTypesGlobals b')"
proof -
  let ?b = "b\<lparr>uniqueId := uniqueId b + 1, groupedTypes := (groupedTypes b)(opr := groupedTypes b opr @ [x]),
               constantsTypesGlobals := constantsTypesGlobals b @ [x]\<rparr>"
  have "add_type_instruction opr ops b = (uniqueId b + 1, ?b)"
    by (simp add: add_type_instruction_def getUniqueId_def x_def Let_def)
  moreover have "grows 1 b ?b"
    by (rule add_instruction_ok [OF assms(1,2), of x]) (use assms(3) in \<open>auto simp: x_def\<close>)
  ultimately show ?thesis by simp
qed

lemma add_constant_grows:
  fixes opr :: string and ty :: u32
  assumes "builder_ok b" "unat (uniqueId b) + 1 < 2 ^ 32" 
    and "cl = ''OpTypeInt'' \<longrightarrow> (\<exists>t \<in> set (groupedTypes b ''OpTypeInt''). resultId t = ty \<and> length ops = operand_count t)"
  defines "x \<equiv> \<lparr>resultId = uniqueId b + 1, typeId = ty, opCode = opr, operands = ops\<rparr>"
  shows "\<exists>b'. add_constant_instruction cl opr ty ops b = (uniqueId b + 1, b') \<and> grows 1 b b' \<and>
    groupedTypes b' = groupedTypes b \<and> groupedConstants b' = (groupedConstants b)(cl := groupedConstants b cl @ [x]) \<and>
    x \<in> set (constantsTypesGlobals b')"
proof -
  let ?b = "b\<lparr>uniqueId := uniqueId b + 1, groupedConstants := (groupedConstants b)(cl := groupedConstants b cl @ [x]),
               constantsTypesGlobals := constantsTypesGlobals b @ [x]\<rparr>"
  have "add_constant_instruction cl opr ty ops b = (uniqueId b + 1, ?b)"
    by (simp add: add_constant_instruction_def getUniqueId_def x_def Let_def)
  moreover have "grows 1 b ?b"
    by (rule add_instruction_ok [OF assms(1,2), of x]) (use assms(3) in \<open>auto simp: x_def typed_constant_def\<close>)
  ultimately show ?thesis by simp
qed

section \<open>Booleans\<close>

lemma makeBoolType_grows:
  assumes b: "builder_ok b" "unat (uniqueId b) + 1 < 2 ^ 32"
  shows "\<exists>i b'. makeBoolType b = (i, b') \<and> grows 1 b b' \<and> makeBoolType b' = (i, b') \<and>
    (\<exists>t \<in> set (constantsTypesGlobals b'). resultId t = i \<and> opCode t = ''OpTypeBool'')"
proof (cases "groupedTypes b ''OpTypeBool'' = []")
  case True
  obtain b' where "add_type_instruction ''OpTypeBool'' [] b = (uniqueId b + 1, b')" "grows 1 b b'"
    "groupedTypes b' ''OpTypeBool'' = [\<lparr>resultId = uniqueId b + 1, typeId = 0, opCode = ''OpTypeBool'', operands = []\<rparr>]"
    "\<lparr>resultId = uniqueId b + 1, typeId = 0, opCode = ''OpTypeBool'', operands = []\<rparr> \<in> set (constantsTypesGlobals b')"
    using add_type_grows [OF b, of "''OpTypeBool''" "[]"] True by auto
  then show ?thesis using True by (auto simp: makeBoolType_def intro: bexI [rotated])
next
  case False
  then have l: "last (groupedTypes b ''OpTypeBool'') \<in> set (groupedTypes b ''OpTypeBool'')" by simp
  have "\<exists>t \<in> set (constantsTypesGlobals b). resultId t = resultId (last (groupedTypes b ''OpTypeBool'')) \<and> opCode t = ''OpTypeBool''"
    using builder_okD(3,5) [OF b(1) l] by (intro bexI conjI) (rule refl)
  then show ?thesis using False grows_refl [OF b(1)] by (simp add: makeBoolType_def)
qed

definition bool_op :: "bool \<Rightarrow> string" where
  "bool_op v = (if v then ''OpConstantTrue'' else ''OpConstantFalse'')"

text \<open>A boolean constant is an instruction with the type and the opcode asked for.\<close>

definition is_bool_constant :: "Builder \<Rightarrow> u32 \<Rightarrow> bool \<Rightarrow> u32 \<Rightarrow> bool" where
  "is_bool_constant b ty v i \<longleftrightarrow> (\<exists>c \<in> set (constantsTypesGlobals b). resultId c = i \<and> typeId c = ty \<and> opCode c = bool_op v)"

lemma is_bool_constant_grows: "is_bool_constant b ty v i \<Longrightarrow> grows k b b' \<Longrightarrow> is_bool_constant b' ty v i"
  unfolding is_bool_constant_def using growsD(2) by blast

lemma fold_last_match:
  "fold (\<lambda>c e. if P c then f c else e) cs e0 = e0 \<or> (\<exists>c \<in> set cs. P c \<and> fold (\<lambda>c e. if P c then f c else e) cs e0 = f c)"
proof (induction cs arbitrary: e0)
  case (Cons a cs)
  show ?case using Cons.IH [of "if P a then f a else e0"] by (cases "P a") auto
qed simp

lemma makeBoolConstant_grows:
  assumes b: "builder_ok b" "unat (uniqueId b) + 1 < 2 ^ 32" and ty: "makeBoolType b = (ty, b)"
  shows "\<exists>i b'. makeBoolConstant v False b = (i, b') \<and> grows 1 b b' \<and> makeBoolType b' = (ty, b') \<and> is_bool_constant b' ty v i"
proof -
  let ?e = "fold (\<lambda>c e. if typeId c = ty \<and> opCode c = bool_op v then resultId c else e) (groupedConstants b ''OpTypeBool'') 0"
  have run: "makeBoolConstant v False b =
      (if ?e \<noteq> 0 then (?e, b) else add_constant_instruction ''OpTypeBool'' (bool_op v) ty [] b)"
    by (simp add: makeBoolConstant_def ty bool_op_def Let_def)
  show ?thesis
  proof (cases "?e = 0")
    case True
    obtain b' where b': "add_constant_instruction ''OpTypeBool'' (bool_op v) ty [] b = (uniqueId b + 1, b')" "grows 1 b b'"
        "groupedTypes b' = groupedTypes b"
        "\<lparr>resultId = uniqueId b + 1, typeId = ty, opCode = bool_op v, operands = []\<rparr> \<in> set (constantsTypesGlobals b')"
      using add_constant_grows [OF b, where cl = "''OpTypeBool''" and ops = "[]" and ty = ty and opr = "bool_op v"] by auto
    have "is_bool_constant b' ty v (uniqueId b + 1)" unfolding is_bool_constant_def using b'(4) by (auto intro: bexI [rotated])
    moreover have "makeBoolType b' = (ty, b')"
    proof -
      have "groupedTypes b ''OpTypeBool'' \<noteq> []"
      proof
        assume "groupedTypes b ''OpTypeBool'' = []"
        then have "uniqueId (snd (makeBoolType b)) = uniqueId b + 1"
          by (simp add: makeBoolType_def add_type_instruction_def getUniqueId_def Let_def)
        then show False using ty next_id(2) [OF b(2)] by simp
      qed
      then show ?thesis using ty b'(3) by (auto simp: makeBoolType_def)
    qed
    ultimately show ?thesis using run True b' by auto
  next
    case False
    then obtain c where "c \<in> set (groupedConstants b ''OpTypeBool'')" "typeId c = ty \<and> opCode c = bool_op v" "?e = resultId c"
      using fold_last_match [of "\<lambda>c. typeId c = ty \<and> opCode c = bool_op v" resultId "groupedConstants b ''OpTypeBool''" 0] by auto
    then have "is_bool_constant b ty v ?e" unfolding is_bool_constant_def using builder_okD(4) [OF b(1)] by auto
    then show ?thesis using run False ty grows_refl [OF b(1)] by simp
  qed
qed

lemma bool_constants_differ:
  assumes "builder_ok b" "is_bool_constant b ty v i" "is_bool_constant b ty' w i"
  shows "v = w"
proof -
  obtain c d where c: "c \<in> set (constantsTypesGlobals b)" "resultId c = i" "opCode c = bool_op v"
    and d: "d \<in> set (constantsTypesGlobals b)" "resultId d = i" "opCode d = bool_op w"
    using assms(2,3) by (auto simp: is_bool_constant_def)
  have "c = d" by (rule global_id_unique [OF assms(1) c(1) d(1)]) (simp add: c d)
  then show ?thesis using c(3) d(3) by (auto simp: bool_op_def split: if_splits)
qed

section \<open>Integers\<close>

definition sign_word :: "bool \<Rightarrow> u32" where
  "sign_word h = (if h then 1 else 0)"

lemma find_integer_type_eq:
  assumes "\<forall>t \<in> set ts. length (operands t) = 2"
  shows "find_integer_type w h ts = Ok (map_option resultId (find (\<lambda>t. operands t = [w, sign_word h]) ts))"
  using assms
proof (induction ts)
  case (Cons t ts)
  then obtain a c where "operands t = [a, c]" by (auto simp: length_Suc_conv numeral_2_eq_2)
  then show ?case using Cons by (simp add: getImmediateOperand_def index_def sign_word_def)
qed simp

lemma find_constant_eq:
  assumes "\<forall>c \<in> set cs. typeId c = ty \<longrightarrow> length (operands c) = 1"
  shows "find_constant opr ty v cs = Ok (case find (\<lambda>c. opCode c = opr \<and> typeId c = ty \<and> operands c = [v]) cs of
    None \<Rightarrow> 0 | Some c \<Rightarrow> resultId c)"
  using assms
proof (induction cs)
  case (Cons c cs)
  then have "typeId c = ty \<longrightarrow> (\<exists>a. operands c = [a])" by (auto simp: length_Suc_conv)
  then show ?case using Cons by (auto simp: getImmediateOperand_def index_def)
qed simp

lemma find_constant_of_two_eq:
  assumes "\<forall>c \<in> set cs. typeId c = ty \<longrightarrow> length (operands c) = 2"
  shows "find_constant_of_two opr ty v1 v2 cs =
    Ok (case find (\<lambda>c. opCode c = opr \<and> typeId c = ty \<and> operands c = [v1, v2]) cs of None \<Rightarrow> 0 | Some c \<Rightarrow> resultId c)"
  using assms
proof (induction cs)
  case (Cons c cs)
  then have "typeId c = ty \<longrightarrow> (\<exists>a1 a2. operands c = [a1, a2])" by (auto simp: length_Suc_conv numeral_2_eq_2)
  then show ?case using Cons by (auto simp: getImmediateOperand_def index_def)
qed simp

lemma find_Some_in: "find P xs = Some x \<Longrightarrow> x \<in> set xs \<and> P x"
  by (induction xs) (auto split: if_splits)

lemma find_append: "find P (xs @ ys) = (case find P xs of None \<Rightarrow> find P ys | Some x \<Rightarrow> Some x)"
  by (induction xs) simp_all

lemma makeIntegerType_eq:
  assumes "builder_ok b"
  shows "makeIntegerType w h b =
    Ok (case find (\<lambda>t. operands t = [w, sign_word h]) (groupedTypes b ''OpTypeInt'') of
          Some t \<Rightarrow> (resultId t, b) | None \<Rightarrow> add_type_instruction ''OpTypeInt'' [w, sign_word h] b)"
  using builder_okD(6) [OF assms] unfolding makeIntegerType_def
  by (subst find_integer_type_eq) (auto simp: sign_word_def split: option.split)

lemma find_prefix: "find P xs = Some x \<Longrightarrow> prefix xs ys \<Longrightarrow> find P ys = Some x"
  by (auto simp: prefix_def find_append)

lemma type_of_constant:
  assumes "builder_ok b" "t \<in> set (groupedTypes b ''OpTypeInt'')" "c \<in> set (groupedConstants b ''OpTypeInt'')"
    "typeId c = resultId t"
  shows "length (operands c) = operand_count t"
proof -
  obtain u where u: "u \<in> set (groupedTypes b ''OpTypeInt'')" "resultId u = typeId c" "length (operands c) = operand_count u"
    using builder_okD(7) [OF assms(1,3)] by (auto simp: typed_constant_def)
  have "u = t" by (rule global_id_unique [OF assms(1)]) (use u assms builder_okD(3) [OF assms(1)] in auto)
  then show ?thesis using u(3) by simp
qed

text \<open>The requests for integer constants the builder offers, with their types and operands.\<close>

datatype int_constant = Int32_Constant bool u32 | Int64_Constant bool u64

fun constant_width :: "int_constant \<Rightarrow> u32" where
  "constant_width (Int32_Constant _ _) = 32"
| "constant_width (Int64_Constant _ _) = 64"

fun constant_signed :: "int_constant \<Rightarrow> bool" where
  "constant_signed (Int32_Constant h _) = h"
| "constant_signed (Int64_Constant h _) = h"

fun constant_operands :: "int_constant \<Rightarrow> u32 list" where
  "constant_operands (Int32_Constant _ v) = [v]"
| "constant_operands (Int64_Constant _ v) = [ucast (and v 0xFFFFFFFF), ucast (drop_bit 32 v)]"

fun make_int_constant :: "int_constant \<Rightarrow> Builder \<Rightarrow> (u32 \<times> Builder) res" where
  "make_int_constant (Int32_Constant h v) = (if h then makeIntConstant v else makeUintConstant v)"
| "make_int_constant (Int64_Constant h v) = (if h then makeInt64Constant v else makeUint64Constant v)"

fun make_int_constants :: "int_constant list \<Rightarrow> Builder \<Rightarrow> (u32 list \<times> Builder) res" where
  "make_int_constants [] b = Ok ([], b)"
| "make_int_constants (r # rs) b =
     bind_res (make_int_constant r b) (\<lambda>(i, b). bind_res (make_int_constants rs b) (\<lambda>(is, b). Ok (i # is, b)))"

lemma low_word: "ucast (and v 0xFFFFFFFF) = (ucast v :: u32)" for v :: u64
proof -
  have "(0xFFFFFFFF :: u64) = mask 32" by (simp add: mask_eq_exp_minus_1)
  then have "and v 0xFFFFFFFF = take_bit 32 v" by (simp only: take_bit_eq_mask)
  moreover have "ucast (take_bit 32 v) = (ucast v :: u32)" by (rule bit_word_eqI) (simp add: bit_simps)
  ultimately show ?thesis by simp
qed

lemma two_words:
  fixes v w :: u64
  assumes "ucast v = (ucast w :: u32)" "ucast (drop_bit 32 v) = (ucast (drop_bit 32 w) :: u32)"
  shows "v = w"
proof (rule bit_word_eqI)
  fix n assume n: "n < LENGTH(64)"
  have 1: "bit (ucast v :: u32) n = bit (ucast w :: u32) n" using assms(1) by simp
  have 2: "bit (ucast (drop_bit 32 v) :: u32) (n - 32) = bit (ucast (drop_bit 32 w) :: u32) (n - 32)" using assms(2) by simp
  show "bit v n = bit w n"
  proof (cases "n < 32")
    case True
    then show ?thesis using 1 n by (simp add: bit_simps)
  next
    case False
    moreover from this have "n - 32 < 32" using n by simp
    ultimately show ?thesis using 2 n by (simp add: bit_simps)
  qed
qed

lemma request_injective:
  assumes "constant_width r = constant_width q" "sign_word (constant_signed r) = sign_word (constant_signed q)"
    "constant_operands r = constant_operands q"
  shows "r = q"
  using assms by (cases r; cases q) (auto simp: sign_word_def low_word split: if_splits intro: two_words)

section \<open>Looking constants up\<close>

definition request_type :: "Builder \<Rightarrow> int_constant \<Rightarrow> Instruction option" where
  "request_type b r =
     find (\<lambda>t. operands t = [constant_width r, sign_word (constant_signed r)]) (groupedTypes b ''OpTypeInt'')"

definition typed_find :: "Builder \<Rightarrow> u32 \<Rightarrow> u32 list \<Rightarrow> Instruction option" where
  "typed_find b ty ops = find (\<lambda>c. opCode c = ''OpConstant'' \<and> typeId c = ty \<and> operands c = ops) (groupedConstants b ''OpTypeInt'')"

definition is_int_constant :: "Builder \<Rightarrow> int_constant \<Rightarrow> u32 \<Rightarrow> bool" where
  "is_int_constant b r i \<longleftrightarrow>
     (\<exists>t c. request_type b r = Some t \<and> typed_find b (resultId t) (constant_operands r) = Some c \<and> resultId c = i)"

lemma is_int_constant_grows:
  assumes "is_int_constant b r i" "grows k b b'"
  shows "is_int_constant b' r i"
proof -
  obtain t c where "request_type b r = Some t" "typed_find b (resultId t) (constant_operands r) = Some c" "resultId c = i"
    using assms(1) by (auto simp: is_int_constant_def)
  then show ?thesis
    using growsD(4) [OF assms(2)] growsD(5) [OF assms(2)]
    unfolding is_int_constant_def request_type_def typed_find_def by (blast intro: find_prefix)
qed

lemma is_int_constant_unique: "is_int_constant b r i \<Longrightarrow> is_int_constant b r j \<Longrightarrow> i = j"
  by (auto simp: is_int_constant_def)

lemma is_int_constant_parts:
  assumes "builder_ok b" "is_int_constant b r i"
  shows "\<exists>t c. t \<in> set (constantsTypesGlobals b) \<and> c \<in> set (constantsTypesGlobals b) \<and> resultId c = i \<and>
    typeId c = resultId t \<and> operands t = [constant_width r, sign_word (constant_signed r)] \<and>
    opCode c = ''OpConstant'' \<and> operands c = constant_operands r"
proof -
  obtain t c where tc: "request_type b r = Some t" "typed_find b (resultId t) (constant_operands r) = Some c" "resultId c = i"
    using assms(2) by (auto simp: is_int_constant_def)
  note t = find_Some_in [OF tc(1) [unfolded request_type_def]] and c = find_Some_in [OF tc(2) [unfolded typed_find_def]]
  show ?thesis
    using t c tc(3) builder_okD(3) [OF assms(1)] builder_okD(4) [OF assms(1)] by blast
qed

lemma int_constants_differ:
  assumes "builder_ok b" "is_int_constant b r i" "is_int_constant b q i"
  shows "r = q"
proof -
  obtain t c where t: "t \<in> set (constantsTypesGlobals b)" "c \<in> set (constantsTypesGlobals b)" "resultId c = i"
    "typeId c = resultId t" "operands t = [constant_width r, sign_word (constant_signed r)]" "operands c = constant_operands r"
    using is_int_constant_parts [OF assms(1,2)] by blast
  obtain u d where u: "u \<in> set (constantsTypesGlobals b)" "d \<in> set (constantsTypesGlobals b)" "resultId d = i"
    "typeId d = resultId u" "operands u = [constant_width q, sign_word (constant_signed q)]" "operands d = constant_operands q"
    using is_int_constant_parts [OF assms(1,3)] by blast
  have c: "c = d" by (rule global_id_unique [OF assms(1) t(2) u(2)]) (simp add: t u)
  then have "t = u" using t u by (intro global_id_unique [OF assms(1) t(1) u(1)]) simp
  then show ?thesis using c t u by (intro request_injective) auto
qed

section \<open>Requests\<close>

lemma makeIntegerType_finds:
  assumes b: "builder_ok b" "unat (uniqueId b) + 1 < 2 ^ 32"
  shows "\<exists>t b'. makeIntegerType (constant_width r) (constant_signed r) b = Ok (resultId t, b') \<and> grows 1 b b' \<and>
    request_type b' r = Some t"
proof (cases "request_type b r")
  case None
  let ?ops = "[constant_width r, sign_word (constant_signed r)]"
  let ?t = "\<lparr>resultId = uniqueId b + 1, typeId = 0, opCode = ''OpTypeInt'', operands = ?ops\<rparr>"
  obtain b' where b': "add_type_instruction ''OpTypeInt'' ?ops b = (uniqueId b + 1, b')" "grows 1 b b'"
      "groupedTypes b' ''OpTypeInt'' = groupedTypes b ''OpTypeInt'' @ [?t]"
    using add_type_grows [OF b, of "''OpTypeInt''" ?ops] by auto
  have "request_type b' r = Some ?t" using None b'(3) by (simp add: request_type_def find_append)
  moreover have "makeIntegerType (constant_width r) (constant_signed r) b = Ok (resultId ?t, b')"
    using None b'(1) by (simp add: makeIntegerType_eq b(1) request_type_def)
  ultimately show ?thesis using b'(2) by blast
next
  case (Some t)
  then show ?thesis using grows_refl [OF b(1)] by (auto simp: makeIntegerType_eq b(1) request_type_def)
qed

definition intern_constant :: "u32 \<Rightarrow> u32 list \<Rightarrow> Builder \<Rightarrow> u32 \<times> Builder" where
  "intern_constant ty ops b =
     (case typed_find b ty ops of
        Some c \<Rightarrow> (resultId c, b)
      | None \<Rightarrow> add_constant_instruction ''OpTypeInt'' ''OpConstant'' ty ops b)"

lemma found_constant_id:
  assumes "builder_ok b" "typed_find b ty ops = Some c"
  shows "resultId c \<noteq> 0"
  using builder_okD(2) [OF assms(1) builder_okD(4) [OF assms(1)]] find_Some_in [OF assms(2) [unfolded typed_find_def]] by force

lemma request_operand_count:
  assumes "request_type b r = Some t"
  shows "t \<in> set (groupedTypes b ''OpTypeInt'')" "operand_count t = length (constant_operands r)"
proof -
  note t = find_Some_in [OF assms [unfolded request_type_def]]
  show "t \<in> set (groupedTypes b ''OpTypeInt'')" using t by simp
  show "operand_count t = length (constant_operands r)" using t by (cases r) (simp_all add: operand_count_def)
qed

lemma find_typed:
  assumes b: "builder_ok b" and t: "request_type b r = Some t"
  shows "\<forall>c \<in> set (groupedConstants b ''OpTypeInt''). typeId c = resultId t \<longrightarrow> length (operands c) = length (constant_operands r)"
  using type_of_constant [OF b request_operand_count(1) [OF t]] request_operand_count(2) [OF t] by simp

lemma make_int_constant_interns:
  assumes b: "builder_ok b" and t: "makeIntegerType (constant_width r) (constant_signed r) b = Ok (resultId t, b')"
    and b': "builder_ok b'" "request_type b' r = Some t"
  shows "make_int_constant r b = Ok (intern_constant (resultId t) (constant_operands r) b')"
proof (cases r)
  case (Int32_Constant h v)
  have "makeIntConstant_of (resultId t) v False b' = Ok (intern_constant (resultId t) [v] b')"
    using find_typed [OF b'] found_constant_id [OF b'(1), of "resultId t" "[v]"]
    unfolding makeIntConstant_of_def findScalarConstant_def intern_constant_def
    by (subst find_constant_eq) (auto simp: Int32_Constant typed_find_def split: option.split)
  then show ?thesis
    using t by (cases h) (simp_all add: Int32_Constant makeIntConstant_def makeUintConstant_def makeIntType_def makeUintType_def)
next
  case (Int64_Constant h v)
  have "makeInt64Constant_of (resultId t) v False b' = Ok (intern_constant (resultId t) (constant_operands r) b')"
    using find_typed [OF b'] found_constant_id [OF b'(1), of "resultId t" "constant_operands r"]
    unfolding makeInt64Constant_of_def findScalarConstant_of_two_def intern_constant_def Let_def
    by (subst find_constant_of_two_eq) (auto simp: Int64_Constant typed_find_def split: option.split)
  then show ?thesis
    using t by (cases h) (simp_all add: Int64_Constant makeInt64Constant_def makeUint64Constant_def makeIntType_def makeUintType_def)
qed

lemma intern_constant_grows:
  assumes b: "builder_ok b" "unat (uniqueId b) + 1 < 2 ^ 32" and t: "request_type b r = Some t"
  shows "\<exists>i b'. intern_constant (resultId t) (constant_operands r) b = (i, b') \<and> grows 1 b b' \<and> is_int_constant b' r i"
proof (cases "typed_find b (resultId t) (constant_operands r)")
  case None
  let ?x = "\<lparr>resultId = uniqueId b + 1, typeId = resultId t, opCode = ''OpConstant'', operands = constant_operands r\<rparr>"
  have "\<exists>u \<in> set (groupedTypes b ''OpTypeInt''). resultId u = resultId t \<and> length (constant_operands r) = operand_count u"
    using request_operand_count [OF t] by auto
  then obtain b' where b': "add_constant_instruction ''OpTypeInt'' ''OpConstant'' (resultId t) (constant_operands r) b = (uniqueId b + 1, b')"
      "grows 1 b b'" "groupedTypes b' = groupedTypes b"
      "groupedConstants b' ''OpTypeInt'' = groupedConstants b ''OpTypeInt'' @ [?x]"
    using add_constant_grows [OF b, where cl = "''OpTypeInt''" and ops = "constant_operands r" and ty = "resultId t" and opr = "''OpConstant''"]
    by auto
  have "typed_find b' (resultId t) (constant_operands r) = Some ?x"
    using None b'(4) by (simp add: typed_find_def find_append)
  then have "is_int_constant b' r (uniqueId b + 1)"
    using t b'(3) by (auto simp: is_int_constant_def request_type_def)
  then show ?thesis using None b'(1,2) by (auto simp: intern_constant_def)
next
  case (Some c)
  then have "is_int_constant b r (resultId c)" using t by (auto simp: is_int_constant_def)
  then show ?thesis using Some grows_refl [OF b(1)] by (auto simp: intern_constant_def)
qed

lemma make_int_constant_grows:
  assumes b: "builder_ok b" "unat (uniqueId b) + 2 < 2 ^ 32"
  shows "\<exists>i b'. make_int_constant r b = Ok (i, b') \<and> grows 2 b b' \<and> is_int_constant b' r i"
proof -
  have room: "unat (uniqueId b) + 1 < 2 ^ 32" using b(2) by simp
  from makeIntegerType_finds [OF b(1) room, of r] obtain t b1 where
    t: "makeIntegerType (constant_width r) (constant_signed r) b = Ok (resultId t, b1)" "grows 1 b b1" "request_type b1 r = Some t"
    by blast
  have "unat (uniqueId b1) + 1 < 2 ^ 32" using growsD(3) [OF t(2)] b(2) by simp
  from intern_constant_grows [OF growsD(1) [OF t(2)] this t(3)] obtain i b' where
    i: "intern_constant (resultId t) (constant_operands r) b1 = (i, b')" "grows 1 b1 b'" "is_int_constant b' r i" by blast
  have "make_int_constant r b = Ok (i, b')"
    using make_int_constant_interns [OF b(1) t(1) growsD(1) [OF t(2)] t(3)] i(1) by simp
  moreover have "grows 2 b b'" using grows_trans [OF t(2) i(2)] by (simp add: numeral_2_eq_2)
  ultimately show ?thesis using i(3) by blast
qed

lemma make_int_constants_grows:
  assumes "builder_ok b" "unat (uniqueId b) + 2 * length rs < 2 ^ 32"
  shows "\<exists>is b'. make_int_constants rs b = Ok (is, b') \<and> grows (2 * length rs) b b' \<and> list_all2 (is_int_constant b') rs is"
  using assms
proof (induction rs arbitrary: b)
  case Nil
  then show ?case using grows_refl by simp
next
  case (Cons r rs)
  obtain i b1 where i: "make_int_constant r b = Ok (i, b1)" "grows 2 b b1" "is_int_constant b1 r i"
    using make_int_constant_grows [OF Cons.prems(1), of r] Cons.prems(2) by auto
  have "unat (uniqueId b1) + 2 * length rs < 2 ^ 32" using growsD(3) [OF i(2)] Cons.prems(2) by simp
  from Cons.IH [OF growsD(1) [OF i(2)] this] obtain "is" b' where
    r: "make_int_constants rs b1 = Ok (is, b')" "grows (2 * length rs) b1 b'" "list_all2 (is_int_constant b') rs is" by blast
  have "grows (2 * length (r # rs)) b b'" using grows_trans [OF i(2) r(2)] by simp
  then show ?case using i(1) r is_int_constant_grows [OF i(3) r(2)] by auto
qed

section \<open>Property\<close>

text \<open>
  C40. In any sequence of requests for 32- and 64-bit integer constants, signed and unsigned, two
  requests get the same identifier exactly when they ask for the same value of the same type; each
  identifier is that of an \<open>OpConstant\<close> of the module with the type and the operands asked for, and
  every type and constant of the module still has an identifier of its own. The bound leaves room
  for the identifiers of a type and a constant for each request.
\<close>

theorem int_constants_interned:
  assumes "builder_ok b" and "unat (uniqueId b) + 2 * length rs < 2 ^ 32"
  shows "\<exists>is b'. make_int_constants rs b = Ok (is, b') \<and> builder_ok b' \<and> length is = length rs \<and>
    (\<forall>i < length rs. \<forall>j < length rs. is ! i = is ! j \<longleftrightarrow> rs ! i = rs ! j) \<and>
    (\<forall>i < length rs. \<exists>t \<in> set (constantsTypesGlobals b'). \<exists>c \<in> set (constantsTypesGlobals b').
       resultId c = is ! i \<and> typeId c = resultId t \<and> opCode c = ''OpConstant'' \<and>
       operands t = [constant_width (rs ! i), sign_word (constant_signed (rs ! i))] \<and> operands c = constant_operands (rs ! i))"
proof -
  obtain "is" b' where r: "make_int_constants rs b = Ok (is, b')" "grows (2 * length rs) b b'" "list_all2 (is_int_constant b') rs is"
    using make_int_constants_grows [OF assms] by blast
  note ok = growsD(1) [OF r(2)] and all = list_all2_nthD [OF r(3)]
  have "is ! i = is ! j \<longleftrightarrow> rs ! i = rs ! j" if "i < length rs" "j < length rs" for i j
  proof
    show "rs ! i = rs ! j" if "is ! i = is ! j"
      using int_constants_differ [OF ok all [OF \<open>i < length rs\<close>]] all [OF \<open>j < length rs\<close>] that by simp
    show "is ! i = is ! j" if "rs ! i = rs ! j"
      using is_int_constant_unique [OF all [OF \<open>i < length rs\<close>]] all [OF \<open>j < length rs\<close>] that by simp
  qed
  moreover have "\<exists>t \<in> set (constantsTypesGlobals b'). \<exists>c \<in> set (constantsTypesGlobals b').
       resultId c = is ! i \<and> typeId c = resultId t \<and> opCode c = ''OpConstant'' \<and>
       operands t = [constant_width (rs ! i), sign_word (constant_signed (rs ! i))] \<and> operands c = constant_operands (rs ! i)"
    if "i < length rs" for i
    using is_int_constant_parts [OF ok all [OF that]] by blast
  moreover have "length is = length rs" using list_all2_lengthD [OF r(3)] by simp
  ultimately show ?thesis using r(1) ok by blast
qed

lemma int_constants_interned_witness:
  "\<exists>is b. make_int_constants [Int32_Constant False 5, Int32_Constant False 7, Int64_Constant True 5, Int32_Constant False 5] Builder_new = Ok (is, b) \<and>
     is ! 0 = is ! 3 \<and> is ! 0 \<noteq> is ! 1 \<and> is ! 0 \<noteq> is ! 2"
proof -
  let ?rs = "[Int32_Constant False 5, Int32_Constant False 7, Int64_Constant True 5, Int32_Constant False 5]"
  obtain "is" b where "make_int_constants ?rs Builder_new = Ok (is, b)"
    "\<forall>i < length ?rs. \<forall>j < length ?rs. is ! i = is ! j \<longleftrightarrow> ?rs ! i = ?rs ! j"
    using int_constants_interned [OF Builder_new_ok, of ?rs] by (auto simp: Builder_new_def)
  note r = this
  have "is ! 0 = is ! 3 \<longleftrightarrow> ?rs ! 0 = ?rs ! 3" "is ! 0 = is ! 1 \<longleftrightarrow> ?rs ! 0 = ?rs ! 1" "is ! 0 = is ! 2 \<longleftrightarrow> ?rs ! 0 = ?rs ! 2"
    using r(2) [rule_format, of 0 3] r(2) [rule_format, of 0 1] r(2) [rule_format, of 0 2] by simp_all
  then show ?thesis using r(1) by auto
qed

end
