(* ===== verification/Cfg_Dispatch_Facts.thy ===== *)
theory Cfg_Dispatch_Facts
  imports Cfg_Find_Loops Cfg_Helper_Edges Spv_Builder_Facts
begin

text \<open>
  The blocks that dispatch collected control flow: the selector phi has one value per predecessor,
  and the value is the boolean constant the predecessor stands for.
\<close>

section \<open>Incoming values\<close>

definition selects :: "Builder \<Rightarrow> u32 \<Rightarrow> (nref \<Rightarrow> bool) \<Rightarrow> nref \<Rightarrow> IncomingValue \<Rightarrow> bool" where
  "selects b ty path q v \<longleftrightarrow> incoming_block v = Some q \<and> is_bool_constant b ty (path q) (incoming_id v)"

lemma selects_grows: "selects b ty path q v \<Longrightarrow> grows k b b' \<Longrightarrow> selects b' ty path q v"
  by (auto simp: selects_def intro: is_bool_constant_grows)

lemma bool_incoming_from:
  assumes "builder_ok b" "unat (uniqueId b) + length qs < 2 ^ 32" "makeBoolType b = (ty, b)" "list_all2 (selects b ty path) ps ins"
  shows "\<exists>ins' b'. fold (\<lambda>p (ins, b). case makeBoolConstant (path p) False b of (i, b) \<Rightarrow>
             (ins @ [\<lparr>incoming_block = Some p, incoming_id = i\<rparr>], b)) qs (ins, b) = (ins', b') \<and>
    grows (length qs) b b' \<and> makeBoolType b' = (ty, b') \<and> list_all2 (selects b' ty path) (ps @ qs) ins'"
  using assms
proof (induction qs arbitrary: b ps ins)
  case Nil then show ?case by (simp add: grows_refl)
next
  case (Cons q qs)
  obtain i b1 where i: "makeBoolConstant (path q) False b = (i, b1)" "grows 1 b b1" "makeBoolType b1 = (ty, b1)" "is_bool_constant b1 ty (path q) i"
    using makeBoolConstant_grows [OF Cons.prems(1) _ Cons.prems(3), of "path q"] Cons.prems(2) by auto
  let ?ins = "ins @ [\<lparr>incoming_block = Some q, incoming_id = i\<rparr>]"
  have all: "list_all2 (selects b1 ty path) (ps @ [q]) ?ins"
    using list_all2_mono [OF Cons.prems(4), of "selects b1 ty path"] selects_grows [OF _ i(2)] i(4)
    by (auto simp: selects_def intro!: list_all2_appendI)
  have "unat (uniqueId b1) + length qs < 2 ^ 32" using growsD(3) [OF i(2)] Cons.prems(2) by simp
  from Cons.IH [OF growsD(1) [OF i(2)] this i(3) all] obtain ins' b' where
    "fold (\<lambda>p (ins, b). case makeBoolConstant (path p) False b of (i, b) \<Rightarrow>
             (ins @ [\<lparr>incoming_block = Some p, incoming_id = i\<rparr>], b)) qs (?ins, b1) = (ins', b')"
    "grows (length qs) b1 b'" "makeBoolType b' = (ty, b')" "list_all2 (selects b' ty path) (ps @ q # qs) ins'" by auto
  then show ?case using i grows_trans [OF i(2)] by fastforce
qed

lemma bool_incoming_ok:
  assumes "builder_ok b" "unat (uniqueId b) + length ps < 2 ^ 32" "makeBoolType b = (ty, b)"
  shows "\<exists>ins b'. bool_incoming path ps b = (ins, b') \<and> grows (length ps) b b' \<and> list_all2 (selects b' ty path) ps ins"
  using bool_incoming_from [OF assms, of path "[]" "[]"] by (auto simp: bool_incoming_def)

lemma bool_type_there: "makeBoolType b = (ty, b) \<Longrightarrow> groupedTypes b ''OpTypeBool'' \<noteq> []"
proof
  assume b: "makeBoolType b = (ty, b)" and none: "groupedTypes b ''OpTypeBool'' = []"
  have "uniqueId (snd (makeBoolType b)) = uniqueId b + 1"
    using none by (simp add: makeBoolType_def add_type_instruction_def getUniqueId_def Let_def)
  then have "uniqueId b + 0 = uniqueId b + 1" unfolding b by (simp only: snd_conv add_0_right)
  then have "(0 :: u32) = 1" by (rule add_left_imp_eq)
  then show False by simp
qed

lemma addName_grows: "builder_ok b \<Longrightarrow> grows 0 b (addName i s b)"
  by (simp add: grows_def addName_def builder_ok_def)

lemma addName_bool_type:
  assumes "makeBoolType b = (ty, b)"
  shows "makeBoolType (addName i s b) = (ty, addName i s b)"
proof -
  have "groupedTypes b ''OpTypeBool'' \<noteq> []" by (rule bool_type_there [OF assms])
  moreover from this have "ty = resultId (last (groupedTypes b ''OpTypeBool''))" using assms by (simp add: makeBoolType_def)
  ultimately show ?thesis by (simp add: makeBoolType_def addName_def)
qed

section \<open>The conditional branch of a ladder\<close>

lemma add_branch_Ok:
  assumes "t \<notin> set (fake_succ (node_at s l))"
  shows "\<exists>s'. add_branch l t s = Ok s' \<and> length (nodes s') = length (nodes s) \<and>
    succ (node_at s' l) = (if l < length (nodes s) then push_unique (succ (node_at s l)) t else succ (node_at s l)) \<and>
    (l \<noteq> t \<longrightarrow> pred (node_at s' l) = pred (node_at s l)) \<and> ir (node_at s' l) = ir (node_at s l) \<and>
    fake_succ (node_at s' l) = fake_succ (node_at s l)"
  using assms by (auto simp: add_branch_def add_unique_succ_def add_unique_pred_def node_at_update)

text \<open>
  C39. The branch a ladder block is given tells the paths apart that were collected in it: it is
  conditional on a new phi with one incoming value for each predecessor, in order, which is the
  constant \<open>OpConstantTrue\<close> of the type \<open>OpTypeBool\<close> when the predecessor belongs to the first path and
  \<open>OpConstantFalse\<close> otherwise; the two constants have different identifiers.
\<close>

theorem ladder_selects_by_predecessor:
  assumes "l < length (nodes s)" and "l \<noteq> t" and "l \<noteq> f"
    and "t \<notin> set (fake_succ (node_at s l))" and "f \<notin> set (fake_succ (node_at s l))"
    and "builder_ok b" and "unat (uniqueId b) + length (pred (node_at s l)) + 2 < 2 ^ 32"
  shows "\<exists>s' b' p. rewrite_ladder_conditional_branch_from_incoming_blocks l t f path name (s, b) = Ok (s', b') \<and> builder_ok b' \<and>
    phi (ir (node_at s' l)) = phi (ir (node_at s l)) @ [p] \<and>
    conditional_id (terminator (ir (node_at s' l))) = phi_id p \<and> term_type (terminator (ir (node_at s' l))) = Term_Condition \<and>
    true_block (terminator (ir (node_at s' l))) = Some t \<and> false_block (terminator (ir (node_at s' l))) = Some f \<and>
    (\<exists>x \<in> set (constantsTypesGlobals b'). resultId x = phi_type_id p \<and> opCode x = ''OpTypeBool'') \<and>
    list_all2 (\<lambda>q v. incoming_block v = Some q \<and> is_bool_constant b' (phi_type_id p) (path q) (incoming_id v))
      (pred (node_at s l)) (incoming p) \<and>
    (\<forall>i. \<not> (is_bool_constant b' (phi_type_id p) True i \<and> is_bool_constant b' (phi_type_id p) False i))"
proof -
  obtain s1 where s1: "add_branch l t s = Ok s1" "length (nodes s1) = length (nodes s)" "pred (node_at s1 l) = pred (node_at s l)"
      "ir (node_at s1 l) = ir (node_at s l)" "fake_succ (node_at s1 l) = fake_succ (node_at s l)"
    using add_branch_Ok [OF assms(4)] assms(2) by auto
  obtain s2 where s2: "add_branch l f s1 = Ok s2" "length (nodes s2) = length (nodes s)" "pred (node_at s2 l) = pred (node_at s l)"
      "ir (node_at s2 l) = ir (node_at s l)"
    using add_branch_Ok [of f s1 l] assms(3,5) s1 by auto
  obtain c b1 where c: "allocate_id b = (c, b1)" "grows 1 b b1"
    using allocate_id_grows [OF assms(6)] assms(7) by auto
  obtain ty b2 where ty: "makeBoolType b1 = (ty, b2)" "grows 1 b1 b2" "makeBoolType b2 = (ty, b2)"
      "\<exists>x \<in> set (constantsTypesGlobals b2). resultId x = ty \<and> opCode x = ''OpTypeBool''"
    using makeBoolType_grows [OF growsD(1) [OF c(2)]] growsD(3) [OF c(2)] assms(7) by auto
  note n = addName_grows [OF growsD(1) [OF ty(2)]]
  have "unat (uniqueId (addName c name b2)) + length (pred (node_at s l)) < 2 ^ 32"
    using growsD(3) [OF c(2)] growsD(3) [OF ty(2)] assms(7) by (simp add: addName_def)
  from bool_incoming_ok [OF growsD(1) [OF n] this addName_bool_type [OF ty(3)], of path]
  obtain ins b' where ins: "bool_incoming path (pred (node_at s l)) (addName c name b2) = (ins, b')"
      "grows (length (pred (node_at s l))) (addName c name b2) b'" "list_all2 (selects b' ty path) (pred (node_at s l)) ins"
    by auto
  let ?p = "\<lparr>phi_id = c, phi_type_id = ty, relaxed = False, incoming = ins\<rparr>"
  let ?s = "update_node l (push_phi ?p) (update_node l (update_terminator (condition_terminator c t f)) s2)"
  have at: "pred (node_at (update_node l (update_terminator (condition_terminator c t f)) s2) l) = pred (node_at s l)"
    using assms(1) s2 by (simp add: node_at_update update_terminator_def)
  have run: "rewrite_ladder_conditional_branch_from_incoming_blocks l t f path name (s, b) = Ok (?s, b')"
    by (simp add: rewrite_ladder_conditional_branch_from_incoming_blocks_def s1(1) s2(1) c(1) ty(1) at ins(1) Let_def)
  have ir: "ir (node_at ?s l) = (ir (node_at s l))\<lparr>phi := phi (ir (node_at s l)) @ [?p],
      terminator := condition_terminator c t f (terminator (ir (node_at s l)))\<rparr>"
    using assms(1) s2 by (simp add: node_at_update update_terminator_def push_phi_def)
  have bool: "\<exists>x \<in> set (constantsTypesGlobals b'). resultId x = ty \<and> opCode x = ''OpTypeBool''"
    using ty(4) growsD(2) [OF n] growsD(2) [OF ins(2)] by blast
  have "\<not> (is_bool_constant b' ty True i \<and> is_bool_constant b' ty False i)" for i
    using bool_constants_differ [OF growsD(1) [OF ins(2)], of ty True i ty False] by auto
  then show ?thesis using growsD(1) [OF ins(2)] bool ins(3)
    by (intro exI [of _ ?s] exI [of _ b'] exI [of _ ?p])
      (simp add: run ir condition_terminator_def selects_def [abs_def])
qed

lemma ladder_selects_by_predecessor_witness:
  "\<exists>s' b' (p :: PHI). rewrite_ladder_conditional_branch_from_incoming_blocks 1 4 3 (\<lambda>q. q = 2) ''ladder'' (two_back_edges, Builder_new) = Ok (s', b') \<and>
     map incoming_block (incoming p) = [Some 0, Some 2, Some 3] \<and> conditional_id (terminator (ir (node_at s' 1))) = phi_id p"
proof -
  have p: "pred (node_at two_back_edges 1) = [0, 2, 3]" "fake_succ (node_at two_back_edges 1) = []"
    by (simp_all add: two_back_edges_nodes node_at_def node_of_def)
  have u: "uniqueId Builder_new = 0" by (simp add: Builder_new_def)
  have "\<exists>s' b' (q :: PHI). rewrite_ladder_conditional_branch_from_incoming_blocks 1 4 3 (\<lambda>q. q = 2) ''ladder'' (two_back_edges, Builder_new) = Ok (s', b') \<and>
      conditional_id (terminator (ir (node_at s' 1))) = phi_id q \<and>
      list_all2 (\<lambda>m v. incoming_block v = Some m \<and> is_bool_constant b' (phi_type_id q) (m = 2) (incoming_id v)) [0, 2, 3] (incoming q)"
    using ladder_selects_by_predecessor [of 1 two_back_edges 4 3 Builder_new "\<lambda>q. q = 2" "''ladder''"] Builder_new_ok
    unfolding p u two_back_edges_simps(2) by simp (elim exE conjE bexE, intro exI conjI, assumption+)
  then obtain s' b' and q :: PHI where q: "rewrite_ladder_conditional_branch_from_incoming_blocks 1 4 3 (\<lambda>q. q = 2) ''ladder'' (two_back_edges, Builder_new) = Ok (s', b')"
      "conditional_id (terminator (ir (node_at s' 1))) = phi_id q"
      "list_all2 (\<lambda>m v. incoming_block v = Some m \<and> is_bool_constant b' (phi_type_id q) (m = 2) (incoming_id v)) [0, 2, 3] (incoming q)"
    by (elim exE conjE) (rule that, assumption+)
  have "map incoming_block (incoming q) = [Some 0, Some 2, Some 3]" using q(3) by (auto simp: list_all2_Cons1)
  then show ?thesis using q(1,2) by (intro exI [of _ s'] exI [of _ b'] exI [of _ q] conjI)
qed

end
