(* ===== verification/Cfg_Selection_Fixups.thy ===== *)
theory Cfg_Selection_Fixups
  imports Cfg_Find_Loops
begin

text \<open>
  \<open>cfg_structurizer.cpp\<close>: the two passes that complete the selections \<open>find_selection_merges\<close> left
  without a merge block (\<open>fixup_broken_selection_merges\<close>), and the ladders that give every inner
  selection a merge block of its own (\<open>rewrite_selection_breaks\<close>).
\<close>

section \<open>Choosing between two successors\<close>

text \<open>The first block of the greatest visit order in a list.\<close>

definition earliest_block :: "CFGStructurizer \<Rightarrow> nref list \<Rightarrow> nref option" where
  "earliest_block s ns =
     fold (\<lambda>n r. case r of None \<Rightarrow> Some n
        | Some c \<Rightarrow> if forward_order (node_at s n) > forward_order (node_at s c) then Some n else r) ns None"

definition merge_to_unreachable :: "nref \<Rightarrow> CFGStructurizer \<Rightarrow> CFGStructurizer" where
  "merge_to_unreachable n = update_node n (\<lambda>x. x\<lparr>merge := Merge_Selection, selection_merge_block := None\<rparr>)"

definition merge_to_block :: "nref \<Rightarrow> nref \<Rightarrow> CFGStructurizer \<Rightarrow> CFGStructurizer" where
  "merge_to_block n m s =
     add_unique_header m n (update_node n (\<lambda>x. x\<lparr>selection_merge_block := Some m, merge := Merge_Selection\<rparr>) s)"

definition merge_away_from_continue :: "nref \<Rightarrow> nref \<Rightarrow> nref \<Rightarrow> CFGStructurizer \<Rightarrow> CFGStructurizer res" where
  "merge_away_from_continue n a b s =
     bind_res (innermost_loop_header s a) (\<lambda>ha.
     bind_res (innermost_loop_header s b) (\<lambda>hb.
     case pred_back_edge (node_at s ha) of
       None \<Rightarrow> Ok s
     | Some c \<Rightarrow>
         if ha \<noteq> hb then Ok s
         else
           bind_res (query_reachability s a c) (\<lambda>ra.
           bind_res (query_reachability s b c) (\<lambda>rb.
           if ra \<and> \<not> rb then merge_to_succ n 1 s
           else if \<not> ra \<and> rb then merge_to_succ n 0 s else Ok s))))"

definition merge_towards_earlier_frontier :: "nref \<Rightarrow> nref \<Rightarrow> nref \<Rightarrow> CFGStructurizer \<Rightarrow> CFGStructurizer res" where
  "merge_towards_earlier_frontier n a b s =
     (case (earliest_block s (dominance_frontier (node_at s a)), earliest_block s (dominance_frontier (node_at s b))) of
        (Some x, Some y) \<Rightarrow>
          if forward_order (node_at s x) > forward_order (node_at s y) then merge_to_succ n 0 s
          else if forward_order (node_at s y) > forward_order (node_at s x) then merge_to_succ n 1 s else Ok s
      | _ \<Rightarrow> Ok s)"

definition merge_when_both_break :: "nref \<Rightarrow> nref \<Rightarrow> nref \<Rightarrow> bool \<Rightarrow> CFGStructurizer \<Rightarrow> CFGStructurizer res" where
  "merge_when_both_break n a b both_continue s =
     bind_res (merge_away_from_continue n a b s) (\<lambda>s.
     bind_res (if merge (node_at s n) = Merge_None \<and> both_continue
               then merge_towards_earlier_frontier n a b s else Ok s) (\<lambda>s.
     Ok (if merge (node_at s n) = Merge_None then merge_to_unreachable n s else s)))"

text \<open>A selection whose inner construct has to break out of it is promoted to a loop.\<close>

definition promote_to_loop :: "nref option \<Rightarrow> CFGStructurizer \<Rightarrow> CFGStructurizer" where
  "promote_to_loop inner s =
     (case inner of
        None \<Rightarrow> s
      | Some i \<Rightarrow>
          (case headers (node_at s i) of
             [h] \<Rightarrow>
               if merge (node_at s h) = Merge_Selection \<and> \<not> freeze_structured_analysis (node_at s h)
               then update_node h (\<lambda>x. x\<lparr>merge := Merge_Loop, loop_merge_block := selection_merge_block x,
                      selection_merge_block := None, freeze_structured_analysis := True\<rparr>) s
               else s
           | _ \<Rightarrow> s))"

definition merge_arbitrarily ::
  "nref \<Rightarrow> nref \<Rightarrow> nref \<Rightarrow> CFGStructurizer \<Rightarrow> (nref option \<times> CFGStructurizer) res" where
  "merge_arbitrarily n af bf s =
     (case (headers (node_at s af), headers (node_at s bf)) of
        ([ah], [bh]) \<Rightarrow>
          let a_is_earlier = forward_order (node_at s ah) > forward_order (node_at s bh) in
          bind_res (merge_to_succ n (if a_is_earlier then 1 else 0) s) (\<lambda>s.
          Ok (Some (if a_is_earlier then af else bf), s))
      | _ \<Rightarrow> Ok (None, s))"

text \<open>
  The path whose dominance frontier reaches the other's is the one that merges. The result is the
  block the other path breaks to. Two equal frontiers are as good as none.
\<close>

definition merge_by_frontiers ::
  "nref \<Rightarrow> nref option \<Rightarrow> nref option \<Rightarrow> CFGStructurizer \<Rightarrow> (nref option \<times> CFGStructurizer) res" where
  "merge_by_frontiers n a_front b_front s =
     (if a_front = b_front then Ok (None, merge_to_unreachable n s)
      else case (a_front, b_front) of
        (None, _) \<Rightarrow> bind_res (merge_to_succ n 1 s) (\<lambda>s. Ok (None, s))
      | (_, None) \<Rightarrow> bind_res (merge_to_succ n 0 s) (\<lambda>s. Ok (None, s))
      | (Some af, Some bf) \<Rightarrow>
          bind_res (query_reachability s af bf) (\<lambda>ab.
          if ab then bind_res (merge_to_succ n 0 s) (\<lambda>s. Ok (Some bf, s))
          else
            bind_res (query_reachability s bf af) (\<lambda>ba.
            if ba then bind_res (merge_to_succ n 1 s) (\<lambda>s. Ok (Some af, s))
            else merge_arbitrarily n af bf (merge_to_unreachable n s))))"

definition merge_when_none_breaks :: "nref \<Rightarrow> nref \<Rightarrow> nref \<Rightarrow> CFGStructurizer \<Rightarrow> CFGStructurizer res" where
  "merge_when_none_breaks n a b s =
     bind_res (merge_by_frontiers n (earliest_block s (dominance_frontier (node_at s a)))
                (earliest_block s (dominance_frontier (node_at s b))) s) (\<lambda>(inner, s).
     Ok (promote_to_loop inner s))"

section \<open>Both successors are candidates\<close>

definition path_breaks :: "(nat \<Rightarrow> string) \<Rightarrow> CFGStructurizer \<Rightarrow> nref \<Rightarrow> nref \<Rightarrow> (bool \<times> bool) res" where
  "path_breaks code s n m =
     bind_res (control_flow_is_escaping code s n m) (\<lambda>is_break.
     bind_res (scan_plain_continue_block s n) (\<lambda>c.
     let is_continue = block_is_plain_continue s c in Ok (is_break \<or> is_continue, is_continue)))"

definition merge_with_post_dominator ::
  "(nat \<Rightarrow> string) \<Rightarrow> nat \<Rightarrow> nref \<Rightarrow> nref \<Rightarrow> nref \<Rightarrow> nref \<Rightarrow> CFGStructurizer \<Rightarrow> CFGStructurizer res" where
  "merge_with_post_dominator code pass n a b m s =
     bind_res (dominates s n m) (\<lambda>dominates_merge.
     let merges_to_continue = block_is_plain_continue s m;
         ambiguous = (\<not> merges_to_continue \<and> dominates_merge \<and> headers (node_at s m) \<noteq> []
                      \<or> pass = 1 \<and> \<not> dominates_merge);
         mark = (\<not> merges_to_continue \<and> (headers (node_at s m) = [] \<or> pass = 0))
     in
     bind_res (path_breaks code s a m) (\<lambda>(a_out, a_continue).
     bind_res (path_breaks code s b m) (\<lambda>(b_out, b_continue).
     let a_out' = (a_out \<and> \<not> (b_continue \<and> \<not> a_continue));
         b_out' = (b_out \<and> \<not> (a_continue \<and> \<not> b_continue))
     in
     if ambiguous \<or> \<not> mark \<or> a_continue \<noteq> b_continue then
       (if a_out' \<and> b_out' then merge_when_both_break n a b (a_continue \<and> b_continue) s
        else if b_out' then merge_to_succ n 0 s
        else if a_out' then merge_to_succ n 1 s
        else merge_when_none_breaks n a b s)
     else Ok (merge_to_block n m s))))"

text \<open>One side of the branch leaves the function, so that there is no common post dominator.\<close>

definition node_is_degenerate_merge_block :: "CFGNode \<Rightarrow> bool" where
  "node_is_degenerate_merge_block x \<longleftrightarrow>
     term_type (terminator (ir x)) = Term_Unreachable \<or>
     term_type (terminator (ir x)) = Term_Return \<and> operations (ir x) = []"

definition merge_by_dominators :: "nref \<Rightarrow> nref \<Rightarrow> nref \<Rightarrow> CFGStructurizer \<Rightarrow> CFGStructurizer res" where
  "merge_by_dominators n af bf s =
     (let na = length (succ (node_at s af)); nb = length (succ (node_at s bf)) in
      bind_res (if idom s af = idom s bf then Ok None
                else bind_res (deref (idom s af)) (\<lambda>x. bind_res (deref (idom s bf)) (\<lambda>y.
                  bind_res (query_reachability s x y) (\<lambda>xy.
                  if xy then Ok (Some 1)
                  else bind_res (query_reachability s y x) (\<lambda>yx. Ok (if yx then Some 0 else None)))))) (\<lambda>i.
      case i of
        Some i \<Rightarrow> merge_to_succ n i s
      | None \<Rightarrow> if na = 0 \<and> nb \<noteq> 0 then merge_to_succ n 0 s
                else if nb = 0 \<and> na \<noteq> 0 then merge_to_succ n 1 s else Ok s))"

definition merge_by_single_frontiers :: "nref \<Rightarrow> nref \<Rightarrow> nref \<Rightarrow> CFGStructurizer \<Rightarrow> CFGStructurizer res" where
  "merge_by_single_frontiers n af bf s =
     (if af = bf then Ok s
      else
        bind_res (query_reachability s af bf) (\<lambda>ab.
        if ab then merge_to_succ n 0 s
        else
          bind_res (query_reachability s bf af) (\<lambda>ba.
          if ba then merge_to_succ n 1 s else merge_by_dominators n af bf s)))"

definition merge_when_both_exit :: "nref \<Rightarrow> nref \<Rightarrow> nref \<Rightarrow> CFGStructurizer \<Rightarrow> CFGStructurizer res" where
  "merge_when_both_exit n a b s =
     (let s = merge_to_unreachable n s;
          da = node_is_degenerate_merge_block (node_at s a);
          db = node_is_degenerate_merge_block (node_at s b)
      in case (dominance_frontier (node_at s a), dominance_frontier (node_at s b)) of
           ([af], [bf]) \<Rightarrow> merge_by_single_frontiers n af bf s
         | _ \<Rightarrow> if db \<and> \<not> da then merge_to_succ n 0 s
                else if da \<and> \<not> db then merge_to_succ n 1 s else Ok s)"

definition merge_without_post_dominator :: "nref \<Rightarrow> nref \<Rightarrow> nref \<Rightarrow> CFGStructurizer \<Rightarrow> CFGStructurizer res" where
  "merge_without_post_dominator n a b s =
     bind_res (dominates_all_reachable_exits s a) (\<lambda>a_exits.
     bind_res (dominates_all_reachable_exits s b) (\<lambda>b_exits.
     if \<not> a_exits \<and> b_exits then merge_to_succ n 0 s
     else if \<not> b_exits \<and> a_exits then merge_to_succ n 1 s
     else merge_when_both_exit n a b s))"

definition merge_ambiguous_selection ::
  "(nat \<Rightarrow> string) \<Rightarrow> nat \<Rightarrow> nref \<Rightarrow> nref \<Rightarrow> nref \<Rightarrow> CFGStructurizer \<Rightarrow> CFGStructurizer res" where
  "merge_ambiguous_selection code pass n a b s =
     bind_res (find_common_post_dominator_of [a, b] s) (\<lambda>(m, s).
     case m of
       Some m \<Rightarrow> merge_with_post_dominator code pass n a b m s
     | None \<Rightarrow> merge_without_post_dominator n a b s)"

section \<open>No successor is a candidate\<close>

definition merge_to_post_dominator :: "nref \<Rightarrow> nref \<Rightarrow> nref \<Rightarrow> CFGStructurizer \<Rightarrow> CFGStructurizer res" where
  "merge_to_post_dominator n a b s =
     bind_res (find_common_post_dominator_of [a, b] s) (\<lambda>(m, s).
     case m of
       None \<Rightarrow> Ok s
     | Some m \<Rightarrow>
         bind_res (get_outer_header_dominator s n) (\<lambda>h.
         if merge (node_at s h) = Merge_Selection \<and> selection_merge_block (node_at s h) = Some m then Ok s
         else Ok (merge_to_block n m s)))"

section \<open>An obvious candidate that turns out to be the break\<close>

definition is_loop_merge_candidate :: "CFGStructurizer \<Rightarrow> nref \<Rightarrow> bool" where
  "is_loop_merge_candidate s n \<longleftrightarrow>
     (case headers (node_at s n) of
        [h] \<Rightarrow> merge (node_at s h) = Merge_Loop \<and>
               (loop_merge_block (node_at s h) = Some n \<or> loop_ladder_block (node_at s h) = Some n)
      | _ \<Rightarrow> False)"

definition other_candidate_escapes ::
  "(nat \<Rightarrow> string) \<Rightarrow> CFGStructurizer \<Rightarrow> nref \<Rightarrow> nref \<Rightarrow> nref \<Rightarrow> bool res" where
  "other_candidate_escapes code s n other m =
     (if other = m \<or> block_is_plain_continue s other then Ok True
      else
        bind_res (control_flow_is_escaping code s other m) (\<lambda>e.
        if \<not> e then Ok False
        else bind_res (dominates s n other) (\<lambda>d. Ok (d \<or> is_loop_merge_candidate s other))))"

definition only_current_branches_to ::
  "CFGStructurizer \<Rightarrow> nref \<Rightarrow> nref \<Rightarrow> nref \<Rightarrow> bool res" where
  "only_current_branches_to s current other m =
     (if m \<in> set (succ (node_at s current)) \<and> m \<notin> set (succ (node_at s other))
      then not_res (any_res (\<lambda>f. if f = other then Ok False else query_reachability s f other)
             (dominance_frontier (node_at s current)))
      else Ok False)"

definition merge_to_interim :: "nref \<Rightarrow> nref \<Rightarrow> CFGStructurizer \<Rightarrow> CFGStructurizer res" where
  "merge_to_interim n target s =
     (case create_node s of (l, s) \<Rightarrow>
      let x = node_at s n;
          s = update_node l (\<lambda>y. y\<lparr>node_name := node_name x @ ''.'' @ node_name (node_at s target) @ ''.interim''\<rparr>) s
      in
      bind_res (add_branch l target s) (\<lambda>s.
      let s = update_node l (\<lambda>y. set_branch_to target (y\<lparr>immediate_dominator := Some n,
                immediate_post_dominator := Some target, dominance_frontier := dominance_frontier y @ [target],
                forward_order := forward_order x, backward_order := backward_order x\<rparr>)) s
      in
      bind_res (retarget_branch n target l s) (\<lambda>s.
      Ok (update_node n (\<lambda>y. y\<lparr>selection_merge_block := Some l\<rparr>) s))))"

definition check_trivial_merge ::
  "(nat \<Rightarrow> string) \<Rightarrow> nref \<Rightarrow> nref \<Rightarrow> nref \<Rightarrow> CFGStructurizer \<Rightarrow> CFGStructurizer res" where
  "check_trivial_merge code n current other s =
     bind_res (find_common_post_dominator_of (succ (node_at s n)) s) (\<lambda>(m, s).
     case m of
       None \<Rightarrow> Ok s
     | Some m \<Rightarrow>
         bind_res (dominates s n m) (\<lambda>d.
         if d \<or> block_is_plain_continue s m then Ok s
         else
           let s = (if headers (node_at s m) \<noteq> [] then add_unique_header m n s else s) in
           bind_res (or_res (Ok (current = m)) (control_flow_is_escaping code s current m)) (\<lambda>current_escapes.
           bind_res (other_candidate_escapes code s n other m) (\<lambda>other_escapes.
           bind_res (if \<not> current_escapes \<and> \<not> other_escapes then only_current_branches_to s current other m
                     else Ok current_escapes) (\<lambda>current_escapes.
           if current_escapes \<and> \<not> other_escapes then merge_to_interim n other s else Ok s)))))"

section \<open>The pass\<close>

text \<open>Whether a successor is dominated (\<open>d\<close>) and whether it already has a header (\<open>h\<close>).\<close>

definition trivial_merge_index :: "bool \<Rightarrow> bool \<Rightarrow> bool \<Rightarrow> bool \<Rightarrow> nat option" where
  "trivial_merge_index da db ha hb =
     (if da \<and> \<not> db \<and> \<not> ha then Some 0
      else if db \<and> \<not> da \<and> \<not> hb then Some 1
      else if da \<and> db \<and> \<not> ha \<and> hb then Some 0
      else if da \<and> db \<and> \<not> hb \<and> ha then Some 1 else None)"

definition merge_has_header :: "CFGStructurizer \<Rightarrow> nref \<Rightarrow> bool" where
  "merge_has_header s n \<longleftrightarrow> headers (node_at s n) \<noteq> [] \<or> block_is_plain_continue s n"

definition fixup_selection_merge ::
  "(nat \<Rightarrow> string) \<Rightarrow> nat \<Rightarrow> nref \<Rightarrow> nref \<Rightarrow> nref \<Rightarrow> CFGStructurizer \<Rightarrow> CFGStructurizer res" where
  "fixup_selection_merge code pass n a b s =
     bind_res (dominates s n a) (\<lambda>da.
     bind_res (dominates s n b) (\<lambda>db.
     let ha = merge_has_header s a; hb = merge_has_header s b in
     bind_res (if pass = 1 then selection_requires_structured_header s n else Ok True) (\<lambda>wanted.
     if \<not> wanted then Ok s
     else case trivial_merge_index da db ha hb of
       Some i \<Rightarrow>
         bind_res (merge_to_succ n i s) (\<lambda>s.
         if pass = 0 then check_trivial_merge code n (if i = 0 then a else b) (if i = 0 then b else a) s else Ok s)
     | None \<Rightarrow>
         if da \<and> db \<and> \<not> ha \<and> \<not> hb then merge_ambiguous_selection code pass n a b s
         else if pass = 0 then merge_to_post_dominator n a b s else Ok s)))"

definition fixup_broken_selection_merge ::
  "(nat \<Rightarrow> string) \<Rightarrow> nat \<Rightarrow> nref \<Rightarrow> CFGStructurizer \<Rightarrow> CFGStructurizer res" where
  "fixup_broken_selection_merge code pass n s =
     (let x = node_at s n in
      if merge x \<noteq> Merge_None \<or> succ_back_edge x \<noteq> None then Ok s
      else case succ x of [a, b] \<Rightarrow> fixup_selection_merge code pass n a b s | _ \<Rightarrow> Ok s)"

definition fixup_broken_selection_merges :: "(nat \<Rightarrow> string) \<Rightarrow> nat \<Rightarrow> CFGStructurizer \<Rightarrow> CFGStructurizer res" where
  "fixup_broken_selection_merges code pass s =
     fold_res (fixup_broken_selection_merge code pass) (forward_post_visit_order s) s"

section \<open>Ladders for inner selections\<close>

text \<open>
  A break that splits an inner loop in half is no candidate: its continue block, when the break
  post dominates the ladder and the ladder does not dominate the continue block.
\<close>

definition split_continue_block :: "CFGStructurizer \<Rightarrow> nref \<Rightarrow> nref \<Rightarrow> nref option res" where
  "split_continue_block s header ladder_to =
     bind_res (innermost_loop_header s header) (\<lambda>h.
     case pred_back_edge (node_at s h) of
       None \<Rightarrow> Ok None
     | Some c \<Rightarrow>
         (case succ (node_at s c) of
            [t] \<Rightarrow>
              bind_res (post_dominates s t ladder_to) (\<lambda>pd.
              bind_res (dominates s ladder_to c) (\<lambda>d. Ok (if pd \<and> \<not> d then Some c else None)))
          | _ \<Rightarrow> Ok None))"

definition selection_break_step ::
  "CFGStructurizer \<Rightarrow> nref \<Rightarrow> nref \<Rightarrow> nref option \<Rightarrow> nref \<Rightarrow> nref list \<Rightarrow> (bool \<times> nref list) res" where
  "selection_break_step s header ladder_to split n found =
     (if n = ladder_to then Ok (False, found)
      else
        bind_res (query_reachability s n ladder_to) (\<lambda>r.
        if \<not> r then Ok (False, found)
        else
          bind_res (case split of None \<Rightarrow> Ok False | Some c \<Rightarrow> dominates s n c) (\<lambda>splits.
          if splits then Ok (False, found)
          else if length (succ (node_at s n)) \<ge> 2 \<and> pred_back_edge (node_at s n) = None \<and>
                  term_type (terminator (ir (node_at s n))) \<noteq> Term_Switch then
            bind_res (get_post_dominance_frontier_with_cfg_subset_that_reaches s n ladder_to None) (\<lambda>h.
            Ok (True, if h = Some header then push_unique found n else found))
          else Ok (True, found))))"

definition selection_break_constructs :: "CFGStructurizer \<Rightarrow> nref \<Rightarrow> nref \<Rightarrow> nref list res" where
  "selection_break_constructs s header ladder_to =
     bind_res (split_continue_block s header ladder_to) (\<lambda>split.
     bind_res (traverse_dominated_blocks s header (selection_break_step s header ladder_to split) []) (\<lambda>found.
     Ok (sort_key (\<lambda>n. forward_order (node_at s n)) found)))"

definition create_selection_ladder :: "nref \<Rightarrow> nref \<Rightarrow> CFGStructurizer \<Rightarrow> (nref \<times> CFGStructurizer) res" where
  "create_selection_ladder inner ladder_to s =
     (let x = node_at s ladder_to in
      case create_node s of (l, s) \<Rightarrow>
      let s = update_node l (\<lambda>y. y\<lparr>node_name := node_name x @ ''.'' @ node_name (node_at s inner) @ ''.ladder''\<rparr>) s in
      bind_res (add_branch l ladder_to s) (\<lambda>s.
      let s = update_node l (\<lambda>y. set_branch_to ladder_to (y\<lparr>immediate_post_dominator := Some ladder_to,
                dominance_frontier := dominance_frontier y @ [ladder_to],
                forward_order := forward_order x, backward_order := backward_order x\<rparr>)) s
      in
      bind_res (traverse_dominated_blocks_and_rewrite_branch
                  (\<lambda>s n. Ok (selection_merge_block (node_at s inner) \<noteq> Some n)) [] inner ladder_to l s) (\<lambda>s.
      bind_res (recompute_immediate_dominator l s) (\<lambda>s. Ok (l, s)))))"

definition keeps_selection_breaks :: "CFGStructurizer \<Rightarrow> nref \<Rightarrow> nref \<Rightarrow> bool res" where
  "keeps_selection_breaks s header ladder_to =
     or_res (case pred_back_edge (node_at s header) of None \<Rightarrow> Ok False | Some c \<Rightarrow> not_res (can_backtrace_to s c ladder_to))
       (Ok (term_type (terminator (ir (node_at s header))) = Term_Switch))"

text \<open>An inner construct is strictly dominated by its header, so the nodes bound the nesting.\<close>

fun rewrite_selection_breaks_at :: "nat \<Rightarrow> nref \<Rightarrow> nref \<Rightarrow> CFGStructurizer \<Rightarrow> CFGStructurizer res" where
  "rewrite_selection_breaks_at 0 header ladder_to s = Fault Out_Of_Fuel"
| "rewrite_selection_breaks_at (Suc k) header ladder_to s =
     bind_res (keeps_selection_breaks s header ladder_to) (\<lambda>keep.
     if keep then Ok s
     else
       bind_res (selection_break_constructs s header ladder_to) (\<lambda>inner_blocks.
       fold_res (\<lambda>inner s. bind_res (create_selection_ladder inner ladder_to s) (\<lambda>(l, s).
         rewrite_selection_breaks_at k inner l s)) inner_blocks s))"

definition rewrite_selection_breaks :: "nref \<Rightarrow> nref \<Rightarrow> CFGStructurizer \<Rightarrow> CFGStructurizer res" where
  "rewrite_selection_breaks header ladder_to s = rewrite_selection_breaks_at (walk_fuel s) header ladder_to s"

end
