(* ===== verification/Cfg_Scopes.thy ===== *)
theory Cfg_Scopes
  imports Cfg_Selection_Fixups
begin

text \<open>
  \<open>cfg_structurizer.cpp\<close>: merge scopes that are entangled. Early returns and breaks of unrolled loops
  are serialized through a dispatcher (\<open>serialize_interleaved_early_returns\<close>,
  \<open>serialize_interleaved_merge_scopes\<close>), then every selection gets a preliminary header and its inner
  branches go through ladders (\<open>split_merge_scopes\<close>). Sets of blocks are walked in the visit order,
  where the source walks an unordered set; the candidates are sorted before they are used.
\<close>

section \<open>Interleaved early returns\<close>

definition break_target_step ::
  "CFGStructurizer \<Rightarrow> nref \<Rightarrow> nref \<Rightarrow> nref \<Rightarrow> nref set \<times> nref list \<times> nref list \<Rightarrow> (nref set \<times> nref list \<times> nref list) res" where
  "break_target_step s d m n = (\<lambda>(seen, queue, candidates).
     if n \<in> seen then Ok (seen, queue, candidates)
     else
       bind_res (query_reachability s m n) (\<lambda>after.
       if after then Ok (insert n seen, queue, candidates)
       else
         bind_res (query_reachability s n m) (\<lambda>before.
         if before then Ok (insert n seen, queue @ succ (node_at s n), candidates)
         else
           bind_res (innermost_loop_header s n) (\<lambda>inner.
           bind_res (if inner \<noteq> entry_block s then query_reachability s d inner else Ok False) (\<lambda>in_loop.
           if in_loop then Ok (insert n seen, queue, candidates)
           else
             bind_res (or_res (not_res (dominates_all_reachable_exits s n)) (not_res (dominates s d n))) (\<lambda>break.
             Ok (insert n seen, queue, if break then candidates @ [n] else candidates)))))))"

text \<open>Every round but the last marks a block, so the number of blocks bounds the rounds.\<close>

fun break_target_rounds ::
  "nat \<Rightarrow> CFGStructurizer \<Rightarrow> nref \<Rightarrow> nref \<Rightarrow> nref list \<Rightarrow> nref set \<Rightarrow> nref list \<Rightarrow> nref list res" where
  "break_target_rounds 0 s d m queue seen candidates = Fault Out_Of_Fuel"
| "break_target_rounds (Suc k) s d m queue seen candidates =
     bind_res (fold_res (break_target_step s d m) queue (seen, [], candidates)) (\<lambda>(seen, queue, candidates).
     if queue = [] then Ok candidates else break_target_rounds k s d m queue seen candidates)"

definition find_break_target_for_selection_construct ::
  "nref \<Rightarrow> nref \<Rightarrow> CFGStructurizer \<Rightarrow> (nref option \<times> CFGStructurizer) res" where
  "find_break_target_for_selection_construct d m s =
     bind_res (break_target_rounds (walk_fuel s) s d m [d] {} []) (\<lambda>candidates.
     find_common_post_dominator_of candidates s)"

definition merged_into_terminating_path :: "CFGStructurizer \<Rightarrow> nref \<Rightarrow> nref \<Rightarrow> nref \<Rightarrow> bool res" where
  "merged_into_terminating_path s d n candidate =
     and_res (if ipdom s candidate = Some candidate then dominates_all_reachable_exits s n else Ok False)
       (not_res (post_dominates s d (entry_block s)))"

definition serialize_early_return :: "nref \<Rightarrow> shader \<Rightarrow> (bool \<times> shader) res" where
  "serialize_early_return n = (\<lambda>(s, b).
     if length (pred (node_at s n)) \<le> 1 \<or> block_is_plain_continue s n then Ok (False, s, b)
     else
       bind_res (deref (idom s n)) (\<lambda>d.
       bind_res (find_common_post_dominator d n s) (\<lambda>(c, s).
       bind_res (merged_into_terminating_path s d n c) (\<lambda>terminating.
       if \<not> terminating then Ok (False, s, b)
       else
         bind_res (find_break_target_for_selection_construct d n s) (\<lambda>(t, s).
         case t of
           None \<Rightarrow> Ok (False, s, b)
         | Some t \<Rightarrow>
             bind_res (collect_and_dispatch_control_flow d t [t, n] False False (s, b)) (\<lambda>sb.
             bind_res (on_cfg recompute_cfg sb) (\<lambda>sb. Ok (True, sb))))))))"

definition serialize_interleaved_early_returns :: "shader \<Rightarrow> (bool \<times> shader) res" where
  "serialize_interleaved_early_returns sb = first_rewrite serialize_early_return (forward_post_visit_order (fst sb)) sb"

section \<open>Candidates\<close>

definition latest_block :: "CFGStructurizer \<Rightarrow> nref list \<Rightarrow> nref option" where
  "latest_block s ns =
     fold (\<lambda>n r. case r of None \<Rightarrow> Some n
        | Some c \<Rightarrow> if forward_order (node_at s n) < forward_order (node_at s c) then Some n else r) ns None"

definition pdf_range :: "CFGStructurizer \<Rightarrow> nref \<Rightarrow> (nref \<times> nref) res" where
  "pdf_range s n =
     (let pdf = post_dominance_frontier (node_at s n) in
      case (earliest_block s pdf, latest_block s pdf) of
        (Some x, Some y) \<Rightarrow> Ok (x, y)
      | _ \<Rightarrow> Fault Assertion_Failed)"

fun build_pdf_ranges :: "CFGStructurizer \<Rightarrow> nref list \<Rightarrow> (nref \<times> nref) list res" where
  "build_pdf_ranges s [] = Ok []"
| "build_pdf_ranges s (n # ns) =
     bind_res (pdf_range s n) (\<lambda>r. bind_res (build_pdf_ranges s ns) (\<lambda>rs. Ok (r # rs)))"

text \<open>The pairs of different positions in a list, in the order of two nested loops.\<close>

definition index_pairs :: "'a list \<Rightarrow> ('a \<times> 'a) list" where
  "index_pairs xs =
     [(xs ! i, xs ! j). i \<leftarrow> [0..<length xs], j \<leftarrow> [0..<length xs], i \<noteq> j]"

definition pdf_ranges_have_strict_dominance_ordering :: "CFGStructurizer \<Rightarrow> (nref \<times> nref) list \<Rightarrow> bool res" where
  "pdf_ranges_have_strict_dominance_ordering s rs =
     any_res (\<lambda>(p, q). is_strictly_dominance_ordered s (fst p) (fst q) (snd p)) (index_pairs rs)"

definition find_common_dominator_of :: "nref \<Rightarrow> nref list \<Rightarrow> CFGStructurizer \<Rightarrow> (nref \<times> CFGStructurizer) res" where
  "find_common_dominator_of d ns s = fold_res (\<lambda>n (d, s). find_common_dominator d n s) ns (d, s)"

definition dominated_by_candidate :: "CFGStructurizer \<Rightarrow> nref \<Rightarrow> nref \<Rightarrow> nref \<Rightarrow> bool res" where
  "dominated_by_candidate s common n c =
     (if c = common then Ok False
      else and_res (dominates s c n) (not_res (post_dominates s n c)))"

fun drop_dominated_candidates :: "CFGStructurizer \<Rightarrow> nref \<Rightarrow> nref list \<Rightarrow> nref list res" where
  "drop_dominated_candidates s common [] = Ok []"
| "drop_dominated_candidates s common (n # ns) =
     bind_res (any_res (dominated_by_candidate s common n) ns) (\<lambda>drop.
     bind_res (drop_dominated_candidates s common ns) (\<lambda>ms. Ok (if drop then ms else n # ms)))"

text \<open>A candidate reaches none before it, and its dominator reaches one of the others.\<close>

definition valid_candidate :: "CFGStructurizer \<Rightarrow> nref list \<Rightarrow> nat \<Rightarrow> bool res" where
  "valid_candidate s ns i =
     and_res (not_res (any_res (query_reachability s (ns ! i)) (take i ns)))
       (bind_res (deref (idom s (ns ! i))) (\<lambda>d.
        any_res (query_reachability s d) (take i ns @ drop (Suc i) ns)))"

definition filter_serialization_candidates :: "nref list \<Rightarrow> CFGStructurizer \<Rightarrow> (nref list \<times> CFGStructurizer) res" where
  "filter_serialization_candidates candidates s =
     (case sort_key (\<lambda>n. forward_order (node_at s n)) candidates of
        [] \<Rightarrow> Fault Out_Of_Bounds
      | n # ns \<Rightarrow>
          bind_res (find_common_dominator_of n ns s) (\<lambda>(common, s).
          bind_res (drop_dominated_candidates s common (n # ns)) (\<lambda>ms.
          bind_res (filter_res (valid_candidate s ms) [0..<length ms]) (\<lambda>is. Ok (map (\<lambda>i. ms ! i) is, s)))))"

section \<open>Merges with very many predecessors\<close>

definition pred_threshold :: nat where
  "pred_threshold = 32"

definition serialize_merge_scope_aggressive :: "nref \<Rightarrow> shader \<Rightarrow> (bool \<times> shader) res" where
  "serialize_merge_scope_aggressive n = (\<lambda>(s, b).
     if length (pred (node_at s n)) < pred_threshold \<or> block_is_plain_continue s n then Ok (False, s, b)
     else
       bind_res (deref (idom s n)) (\<lambda>d.
       bind_res (post_dominates s n d) (\<lambda>pd.
       if \<not> pd then Ok (False, s, b)
       else
         bind_res (dominated_node_range s d n) (\<lambda>range.
         let constructs = filter (\<lambda>c. length (pred (node_at s c)) \<ge> pred_threshold \<and> n \<in> set (dominance_frontier (node_at s c))) range in
         bind_res (if length constructs \<ge> 2 then filter_serialization_candidates constructs s else Ok (constructs, s)) (\<lambda>(constructs, s).
         if constructs = [] then Ok (False, s, b)
         else
           bind_res (collect_and_dispatch_control_flow d n (constructs @ [n]) False True (s, b)) (\<lambda>sb.
           bind_res (on_cfg recompute_cfg sb) (\<lambda>sb. Ok (True, sb))))))))"

definition serialize_interleaved_merge_scopes_aggressive :: "shader \<Rightarrow> (bool \<times> shader) res" where
  "serialize_interleaved_merge_scopes_aggressive sb =
     first_rewrite serialize_merge_scope_aggressive (forward_post_visit_order (fst sb)) sb"

section \<open>Interleaved merge scopes\<close>

definition is_scope_candidate :: "CFGStructurizer \<Rightarrow> nref \<Rightarrow> nref \<Rightarrow> nref \<Rightarrow> bool res" where
  "is_scope_candidate s d n c =
     (if c = d then Ok False
      else
        and_res (dominates s d c)
          (and_res (post_dominates s n c)
            (and_res (not_res (post_dominates_perfect_structured_construct s c))
              (bind_res (get_innermost_loop_header_for s d c) (\<lambda>h. Ok (h = d))))))"

definition potential_merge_nodes :: "CFGStructurizer \<Rightarrow> nref list" where
  "potential_merge_nodes s =
     filter (\<lambda>n. length (pred (node_at s n)) \<ge> 2 \<and> \<not> block_is_plain_continue s n) (forward_post_visit_order s)"

text \<open>The constructs to serialize, and whether all paths to the post dominator are collected.\<close>

definition promotes_complex :: "CFGStructurizer \<Rightarrow> nref \<Rightarrow> nref list \<Rightarrow> bool res" where
  "promotes_complex s inner complex =
     and_res (all_res (\<lambda>c. query_reachability s c inner) complex)
       (not_res (any_res (post_dominates s inner) complex))"

definition earliest_candidates :: "CFGStructurizer \<Rightarrow> nref list \<Rightarrow> nref list res" where
  "earliest_candidates s complex =
     (let cs = later_first s complex in
      bind_res (filter_res (\<lambda>j. not_res (any_res (\<lambda>c. query_reachability s c (cs ! j)) (take j cs))) [0..<length cs]) (\<lambda>is.
      Ok (map (\<lambda>i. cs ! i) is)))"

definition promote_complex_constructs ::
  "nref \<Rightarrow> nref \<Rightarrow> nref list \<Rightarrow> CFGStructurizer \<Rightarrow> (nref list option \<times> CFGStructurizer) res" where
  "promote_complex_constructs n inner complex s =
     bind_res (promotes_complex s inner complex) (\<lambda>promote.
     if \<not> promote then Ok (None, s)
     else
       bind_res (earliest_candidates s complex) (\<lambda>constructs.
       if length constructs < 2 then Ok (Some constructs, s)
       else
         bind_res (find_common_dominator_of inner constructs s) (\<lambda>(d, s).
         bind_res (can_backtrace_to_with_blockers s n d constructs) (\<lambda>around.
         Ok (if around then None else Some constructs, s)))))"

definition scope_constructs ::
  "nref \<Rightarrow> nref \<Rightarrow> nref list \<Rightarrow> CFGStructurizer \<Rightarrow> ((nref list \<times> bool) option \<times> CFGStructurizer) res" where
  "scope_constructs n d potential s =
     bind_res (filter_res (is_scope_candidate s d n) potential) (\<lambda>cs.
     let direct = filter (\<lambda>c. dominance_frontier (node_at s c) = [n]) cs;
         complex = filter (\<lambda>c. dominance_frontier (node_at s c) \<noteq> [n]) cs
     in case direct of
          [inner] \<Rightarrow>
            if length complex \<ge> 2 then
              bind_res (promote_complex_constructs n inner complex s) (\<lambda>(r, s). Ok (map_option (\<lambda>cs. (cs, False)) r, s))
            else Ok (Some (direct, True), s)
        | _ \<Rightarrow> Ok (Some (direct, True), s))"

section \<open>When scopes are interleaved\<close>

text \<open>All constructs hang off one block that distributes control to them.\<close>

definition can_be_anchor :: "CFGStructurizer \<Rightarrow> nref \<Rightarrow> bool" where
  "can_be_anchor s a \<longleftrightarrow>
     (case pred (node_at s a) of [] \<Rightarrow> False | [p] \<Rightarrow> succ_back_edge (node_at s p) \<noteq> None | _ \<Rightarrow> True)"

definition find_common_anchor :: "CFGStructurizer \<Rightarrow> nref list \<Rightarrow> (nref \<times> nref) list \<Rightarrow> nref option res" where
  "find_common_anchor s constructs rs =
     bind_res (index rs 0) (\<lambda>r0.
     let a = snd r0; x = node_at s a in
     if length (dominance_frontier x) = length constructs \<and> length (succ x) = length constructs \<and>
        term_type (terminator (ir x)) = Term_Condition \<and> can_be_anchor s a
     then bind_res (all_res (\<lambda>(r, c). bind_res (query_reachability s (fst r) (snd r)) (\<lambda>q.
                      Ok (q \<and> snd r = a \<and> c \<in> set (dominance_frontier x)))) (zip rs constructs)) (\<lambda>ok.
          Ok (if ok then Some a else None))
     else Ok None)"

text \<open>
  Exits of two unrelated inner loops: the loop found so far, and whether another one is found in
  the post dominance frontier of a construct.
\<close>

definition exits_weirdly :: "CFGStructurizer \<Rightarrow> nref list \<Rightarrow> nref \<Rightarrow> nref \<Rightarrow> bool res" where
  "exits_weirdly s constructs inner p =
     bind_res (deref (pred_back_edge (node_at s inner))) (\<lambda>c.
     bind_res (query_reachability s p c) (\<lambda>r.
     if \<not> r then Ok False
     else
       bind_res (filter_res (query_reachability s c) constructs) (\<lambda>from_back_edge.
       bind_res (filter_res (query_reachability s p) constructs) (\<lambda>from_pdf.
       Ok (length from_back_edge = 1 \<and> length from_pdf = length constructs)))))"

fun interleaved_exit_loop ::
  "CFGStructurizer \<Rightarrow> nref \<Rightarrow> nref list \<Rightarrow> nref list \<Rightarrow> nref option \<Rightarrow> (bool \<times> nref option) res" where
  "interleaved_exit_loop s d constructs [] l = Ok (False, l)"
| "interleaved_exit_loop s d constructs (p # ps) l =
     bind_res (get_innermost_loop_header_for s d p) (\<lambda>inner.
     bind_res
       (if inner = d \<or> Some inner = l then Ok False
        else and_res (case l of None \<Rightarrow> Ok True | Some l \<Rightarrow> not_res (query_reachability s inner l))
               (exits_weirdly s constructs inner p)) (\<lambda>found.
     if found then Ok (l \<noteq> None, Some inner) else interleaved_exit_loop s d constructs ps l))"

fun has_interleaved_exit_loops ::
  "CFGStructurizer \<Rightarrow> nref \<Rightarrow> nref list \<Rightarrow> nref list \<Rightarrow> nref option \<Rightarrow> bool res" where
  "has_interleaved_exit_loops s d constructs [] l = Ok False"
| "has_interleaved_exit_loops s d constructs (c # cs) l =
     bind_res (interleaved_exit_loop s d constructs (post_dominance_frontier (node_at s c)) l) (\<lambda>(need, l).
     if need then Ok True else has_interleaved_exit_loops s d constructs cs l)"

definition reaches_interleaved :: "CFGStructurizer \<Rightarrow> nref list \<Rightarrow> (nref \<times> nref) list \<Rightarrow> bool res" where
  "reaches_interleaved s constructs rs =
     any_res (\<lambda>(p, q). and_res (is_reachability_ordered s (fst p) (fst q) (snd p))
         (Ok (set constructs \<subseteq> set (dominance_frontier (node_at s (snd p)))))) (index_pairs rs)"

definition same_pdfs :: "(nref \<times> nref) list \<Rightarrow> bool" where
  "same_pdfs rs \<longleftrightarrow> (\<forall>r \<in> set rs. r = hd rs)"

definition unreachable_pdf_ranges :: "CFGStructurizer \<Rightarrow> (nref \<times> nref) list \<Rightarrow> bool res" where
  "unreachable_pdf_ranges s rs =
     (if same_pdfs rs then Ok False
      else all_res (\<lambda>(x, y). and_res (not_res (query_reachability s x y)) (not_res (query_reachability s y x))) rs)"

definition overlapping_pdf_ranges ::
  "nref list \<Rightarrow> (nref \<times> nref) list \<Rightarrow> CFGStructurizer \<Rightarrow> (bool \<times> CFGStructurizer) res" where
  "overlapping_pdf_ranges constructs rs s =
     bind_res (index rs 0) (\<lambda>(p, q).
     if p = q then Ok (False, s)
     else
       bind_res (deref (idom s p)) (\<lambda>x.
       bind_res (deref (idom s q)) (\<lambda>y.
       bind_res (find_common_dominator x y s) (\<lambda>(c, s).
       bind_res (if x \<noteq> y \<and> x \<noteq> c \<and> y \<noteq> c
                 then or_res (query_reachability s x y) (query_reachability s y x) else Ok False) (\<lambda>crossing.
       Ok (same_pdfs rs \<and> crossing \<and> set constructs \<subseteq> set (dominance_frontier (node_at s p)) \<and>
           set constructs \<subseteq> set (dominance_frontier (node_at s q)), s))))))"

definition needs_deinterleave ::
  "nref \<Rightarrow> nref list \<Rightarrow> CFGStructurizer \<Rightarrow> ((bool \<times> nref option) \<times> CFGStructurizer) res" where
  "needs_deinterleave d constructs s =
     bind_res (build_pdf_ranges s constructs) (\<lambda>rs.
     bind_res (pdf_ranges_have_strict_dominance_ordering s rs) (\<lambda>strict.
     if strict then Ok ((True, None), s)
     else
       bind_res (find_common_anchor s constructs rs) (\<lambda>anchor.
       if anchor \<noteq> None then Ok ((True, anchor), s)
       else
         bind_res (or_res (has_interleaved_exit_loops s d constructs constructs None)
                    (if length constructs < 3 then Ok False
                     else or_res (reaches_interleaved s constructs rs) (unreachable_pdf_ranges s rs))) (\<lambda>need.
         if need then Ok ((True, None), s)
         else bind_res (overlapping_pdf_ranges constructs rs s) (\<lambda>(need, s). Ok ((need, None), s))))))"

definition serialize_merge_scope :: "nref list \<Rightarrow> nref \<Rightarrow> shader \<Rightarrow> (bool \<times> shader) res" where
  "serialize_merge_scope potential n = (\<lambda>(s, b).
     if length (pred (node_at s n)) \<le> 1 \<or> block_is_plain_continue s n then Ok (False, s, b)
     else
       bind_res (deref (idom s n)) (\<lambda>d.
       bind_res (scope_constructs n d potential s) (\<lambda>(r, s).
       case r of
         None \<Rightarrow> Ok (False, s, b)
       | Some (constructs, collect_all) \<Rightarrow>
           if length constructs < 2 then Ok (False, s, b)
           else
             bind_res (filter_serialization_candidates constructs s) (\<lambda>(constructs, s).
             if length constructs < 2 then Ok (False, s, b)
             else
               bind_res (needs_deinterleave d constructs s) (\<lambda>((need, anchor), s).
               if \<not> need then Ok (False, s, b)
               else
                 bind_res (case anchor of
                             Some a \<Rightarrow> collect_and_dispatch_control_flow_from_anchor a constructs (s, b)
                           | None \<Rightarrow> collect_and_dispatch_control_flow d n constructs collect_all False (s, b)) (\<lambda>sb.
                 bind_res (on_cfg recompute_cfg sb) (\<lambda>sb. Ok (True, sb))))))))"

definition serialize_interleaved_merge_scopes :: "shader \<Rightarrow> (bool \<times> shader) res" where
  "serialize_interleaved_merge_scopes sb =
     first_rewrite (serialize_merge_scope (potential_merge_nodes (fst sb))) (forward_post_visit_order (fst sb)) sb"

section \<open>Splitting merge scopes\<close>

definition natural_header :: "CFGStructurizer \<Rightarrow> nref \<Rightarrow> nref res" where
  "natural_header s n =
     bind_res (deref (idom s n)) (\<lambda>d. if length (succ (node_at s d)) < 2 then Fault Assertion_Failed else Ok d)"

definition preliminary_merge :: "nref \<Rightarrow> CFGStructurizer \<Rightarrow> CFGStructurizer res" where
  "preliminary_merge n s =
     (if length (pred (node_at s n)) \<le> 1 \<or> block_is_plain_continue s n then Ok s
      else
        bind_res (natural_header s n) (\<lambda>d.
        Ok (add_unique_header n d
              (if merge (node_at s d) = Merge_None
               then update_node d (\<lambda>x. x\<lparr>merge := Merge_Selection, selection_merge_block := Some n\<rparr>) s else s))))"

definition split_merge_scope :: "nref \<Rightarrow> CFGStructurizer \<Rightarrow> CFGStructurizer res" where
  "split_merge_scope n s =
     (if length (pred (node_at s n)) \<le> 1 \<or> succ_back_edge (node_at s n) \<noteq> None then Ok s
      else
        bind_res (natural_header s n) (\<lambda>d.
        if merge (node_at s d) = Merge_Loop \<and> loop_merge_block (node_at s d) = Some n then Ok s
        else
          bind_res (header_and_merge_block_have_entry_exit_relationship s d n) (\<lambda>exits.
          if exits then Ok s else rewrite_selection_breaks d n s)))"

definition split_merge_scopes :: "CFGStructurizer \<Rightarrow> CFGStructurizer res" where
  "split_merge_scopes s =
     bind_res (fold_res preliminary_merge (forward_post_visit_order s) s) (\<lambda>s.
     fold_res split_merge_scope (forward_post_visit_order s) s)"

end
