(* ===== verification/Cfg_Switches.thy ===== *)
theory Cfg_Switches
  imports Cfg_Scopes Ir_Operation
begin

text \<open>
  \<open>cfg_structurizer.cpp\<close>: switches. \<open>find_natural_switch_merge_block\<close> orders the case labels so
  that fallthrough goes to the next label and finds where the cases meet; \<open>process_switch_blocks\<close>
  gives every switch a merge block, rewriting the graph in pass 0. Hoisting a branch out of a switch
  emits comparisons, so that its state has the operations of the module as well: a reference in
  \<open>operations\<close> of a block is an index into their list. Parameters: \<open>spv\<close> is the number of an
  \<open>spv::Op\<close> enumerator, \<open>junk\<close> the content of fresh memory. Of two arguments of one call, the first
  is evaluated first.
\<close>

section \<open>The order of case labels\<close>

fun find_res :: "('a \<Rightarrow> bool res) \<Rightarrow> 'a list \<Rightarrow> 'a option res" where
  "find_res f [] = Ok None"
| "find_res f (x # xs) = bind_res (f x) (\<lambda>b. if b then Ok (Some x) else find_res f xs)"

definition is_continue_label :: "CFGStructurizer \<Rightarrow> nref \<Rightarrow> bool" where
  "is_continue_label s n \<longleftrightarrow> succ_back_edge (node_at s n) \<noteq> None \<or> is_pseudo_back_edge (node_at s n)"

definition label_of :: "Case \<Rightarrow> nref" where
  "label_of c = the (case_node c)"

definition number_cases :: "Case list \<Rightarrow> Case list" where
  "number_cases cs = map (\<lambda>(i, c). c\<lparr>global_order := of_nat (i + 1) * of_nat (length cs)\<rparr>) (enumerate 0 cs)"

text \<open>The sort is not stable in the source; labels of one block are kept in their order here.\<close>

definition parents_first :: "CFGStructurizer \<Rightarrow> Case list \<Rightarrow> Case list" where
  "parents_first s cs = rev (sort_key (\<lambda>c. forward_order (node_at s (label_of c))) (rev cs))"

definition fallthrough_limit :: "CFGStructurizer \<Rightarrow> Case list \<Rightarrow> nat \<Rightarrow> nat res" where
  "fallthrough_limit s cs i =
     bind_res (find_res (\<lambda>j. if label_of (cs ! j) = label_of (cs ! i) then Ok False
                else post_dominates s (label_of (cs ! j)) (label_of (cs ! i))) [Suc i..<length cs]) (\<lambda>r.
     Ok (case r of Some j \<Rightarrow> j | None \<Rightarrow> length cs - 1))"

definition falls_through_to :: "CFGStructurizer \<Rightarrow> nref option \<Rightarrow> Case list \<Rightarrow> nat \<Rightarrow> nat \<Rightarrow> bool res" where
  "falls_through_to s pd cs i j =
     (let parent = label_of (cs ! i); child = label_of (cs ! j) in
      if Some child = pd \<or> parent = child \<or> is_continue_label s child then Ok False
      else query_reachability s parent child)"

definition order_before_child :: "CFGStructurizer \<Rightarrow> nref option \<Rightarrow> nat \<Rightarrow> Case list \<Rightarrow> Case list res" where
  "order_before_child s pd i cs =
     bind_res (fallthrough_limit s cs i) (\<lambda>m.
     bind_res (find_res (falls_through_to s pd cs i) (rev [Suc i..<Suc m])) (\<lambda>r.
     Ok (case r of None \<Rightarrow> cs
         | Some j \<Rightarrow> cs[i := (cs ! i)\<lparr>global_order := global_order (cs ! j) - 1\<rparr>])))"

definition order_cases :: "CFGStructurizer \<Rightarrow> nref option \<Rightarrow> Case list \<Rightarrow> Case list res" where
  "order_cases s pd cs =
     bind_res (fold_res (order_before_child s pd) [0..<length cs] (parents_first s (number_cases cs))) (\<lambda>cs.
     Ok (sort_key global_order cs))"

text \<open>Two labels of one order fall through to the same label, which must be the merge block.\<close>

definition impossible_order :: "Case list \<Rightarrow> u64 option" where
  "impossible_order cs =
     map_option (\<lambda>i. global_order (cs ! i) + 1)
       (find (\<lambda>i. global_order (cs ! i) = global_order (cs ! (i - 1))) [1..<length cs])"

definition impossible_label :: "Case list \<Rightarrow> nref option" where
  "impossible_label cs =
     (case impossible_order cs of
        None \<Rightarrow> None
      | Some g \<Rightarrow> map_option label_of (find (\<lambda>c. global_order c = g) cs))"

section \<open>The natural merge block\<close>

text \<open>All labels but one lead to the continue block of one loop: the candidate and the loop header.\<close>

fun only_breaking_label ::
  "CFGStructurizer \<Rightarrow> nref list \<Rightarrow> nref option \<Rightarrow> nref option \<Rightarrow> nref option res" where
  "only_breaking_label s [] candidate header = Ok (if header = None then None else candidate)"
| "only_breaking_label s (n # ns) candidate header =
     bind_res (scan_plain_continue_block s n) (\<lambda>e.
     case succ_back_edge (node_at s e) of
       None \<Rightarrow> if candidate \<noteq> None then Ok None else only_breaking_label s ns (Some n) header
     | Some h \<Rightarrow> if header \<noteq> None \<and> header \<noteq> Some h then Ok None
                 else only_breaking_label s ns candidate (Some h))"

definition is_impossible_frontier ::
  "CFGStructurizer \<Rightarrow> nref option \<Rightarrow> nref list \<Rightarrow> bool \<Rightarrow> nref \<Rightarrow> nref \<Rightarrow> bool res" where
  "is_impossible_frontier s pd labels allow_labels n f =
     (if is_continue_label s f \<or> \<not> allow_labels \<and> f \<in> set labels then Ok False
      else
        and_res
          (case pd of
             None \<Rightarrow> Ok True
           | Some p \<Rightarrow> if forward_order (node_at s f) = forward_order (node_at s p) then Ok False
                       else query_reachability s f p)
          (any_res (\<lambda>l. if l = n then Ok False else query_reachability s l f) labels))"

definition innermost_impossible_frontier ::
  "CFGStructurizer \<Rightarrow> nref option \<Rightarrow> nref list \<Rightarrow> bool \<Rightarrow> nref option \<Rightarrow> nref option res" where
  "innermost_impossible_frontier s pd labels allow_labels candidate =
     fold_res (\<lambda>(n, f) r.
         bind_res (is_impossible_frontier s pd labels allow_labels n f) (\<lambda>b.
         Ok (if b \<and> is_earlier s f r then Some f else r)))
       [(n, f). n \<leftarrow> labels, f \<leftarrow> dominance_frontier (node_at s n)] candidate"

definition choose_natural_merge :: "CFGStructurizer \<Rightarrow> nref \<Rightarrow> nref option \<Rightarrow> Case list \<Rightarrow> nref option res" where
  "choose_natural_merge s n pd cs =
     (let labels = map label_of cs; candidate = impossible_label cs in
      bind_res
        (if candidate \<noteq> None then Ok None
         else bind_res (deref pd) (\<lambda>p. bind_res (dominates s n p) (\<lambda>d.
              if d then Ok None else only_breaking_label s labels None None))) (\<lambda>only.
      if only \<noteq> None then Ok only
      else
        bind_res (innermost_impossible_frontier s pd labels (impossible_order cs \<noteq> None \<and> candidate = None) candidate) (\<lambda>r.
        Ok (if r = None then pd else r))))"

definition find_natural_switch_merge_block ::
  "nref \<Rightarrow> nref option \<Rightarrow> CFGStructurizer \<Rightarrow> (nref option \<times> CFGStructurizer) res" where
  "find_natural_switch_merge_block n pd s =
     (let cs = cases (terminator (ir (node_at s n))) in
      if \<exists>c \<in> set cs. case_node c = None then Fault Null_Deref
      else
        bind_res (order_cases s pd cs) (\<lambda>cs.
        let s = update_node n (update_terminator (\<lambda>t. t\<lparr>cases := cs\<rparr>)) s in
        bind_res (choose_natural_merge s n pd cs) (\<lambda>m. Ok (m, s))))"

section \<open>Hoisting a branch out of a switch\<close>

type_synonym shader_ops = "CFGStructurizer \<times> Builder \<times> Operation list"

definition allocate_op :: "(nat \<Rightarrow> u32) \<Rightarrow> nat \<Rightarrow> u32 \<Rightarrow> u32 \<Rightarrow> Operation" where
  "allocate_op = Operation_init"

definition bool_operation :: "(nat \<Rightarrow> u32) \<Rightarrow> nat \<Rightarrow> Builder \<Rightarrow> Operation \<times> Builder" where
  "bool_operation junk opr b =
     (case allocate_id b of (i, b) \<Rightarrow> case makeBoolType b of (ty, b) \<Rightarrow> (allocate_op junk opr i ty, b))"

definition push_op :: "nref \<Rightarrow> Operation \<Rightarrow> shader_ops \<Rightarrow> u32 \<times> shader_ops" where
  "push_op n x = (\<lambda>(s, b, os).
     (op_id x, update_node n (\<lambda>y. y\<lparr>ir := (ir y)\<lparr>operations := operations (ir y) @ [length os]\<rparr>\<rparr>) s, b, os @ [x]))"

definition emit_compare ::
  "(nat \<Rightarrow> u32) \<Rightarrow> nat \<Rightarrow> nref \<Rightarrow> u32 \<Rightarrow> u32 \<Rightarrow> shader_ops \<Rightarrow> (u32 \<times> shader_ops) res" where
  "emit_compare junk opr n selector v = (\<lambda>(s, b, os).
     case bool_operation junk opr b of (x, b) \<Rightarrow>
     bind_res (add_id junk selector x) (\<lambda>x.
     bind_res (makeUintConstant v b) (\<lambda>(i, b).
     bind_res (add_id junk i x) (\<lambda>x. Ok (push_op n x (s, b, os))))))"

definition emit_logical ::
  "(nat \<Rightarrow> u32) \<Rightarrow> nat \<Rightarrow> nref \<Rightarrow> u32 \<Rightarrow> u32 \<Rightarrow> shader_ops \<Rightarrow> (u32 \<times> shader_ops) res" where
  "emit_logical junk opr n i j = (\<lambda>(s, b, os).
     case bool_operation junk opr b of (x, b) \<Rightarrow>
     bind_res (add_id junk i x) (\<lambda>x. bind_res (add_id junk j x) (\<lambda>x. Ok (push_op n x (s, b, os)))))"

text \<open>The default label is taken when no other label is; without other labels there is no operation.\<close>

definition exclude_label ::
  "(nat \<Rightarrow> u32) \<Rightarrow> (string \<Rightarrow> nat) \<Rightarrow> u32 \<Rightarrow> nref \<Rightarrow> Case \<Rightarrow> u32 option \<times> shader_ops \<Rightarrow> (u32 option \<times> shader_ops) res" where
  "exclude_label junk spv selector n c = (\<lambda>(r, x).
     if is_default c then Ok (r, x)
     else
       bind_res (emit_compare junk (spv ''OpINotEqual'') n selector (case_value c) x) (\<lambda>(i, x).
       case r of
         None \<Rightarrow> Ok (Some i, x)
       | Some j \<Rightarrow> bind_res (emit_logical junk (spv ''OpLogicalAnd'') n j i x) (\<lambda>(k, x). Ok (Some k, x))))"

definition build_switch_case_equal_check ::
  "(nat \<Rightarrow> u32) \<Rightarrow> (string \<Rightarrow> nat) \<Rightarrow> nref \<Rightarrow> nref \<Rightarrow> Case \<Rightarrow> shader_ops \<Rightarrow> (u32 option \<times> shader_ops) res" where
  "build_switch_case_equal_check junk spv header n c x =
     (let t = terminator (ir (node_at (fst x) header)) in
      if is_default c then fold_res (exclude_label junk spv (conditional_id t) n) (cases t) (None, x)
      else
        bind_res (emit_compare junk (spv ''OpIEqual'') n (conditional_id t) (case_value c) x) (\<lambda>(i, x). Ok (Some i, x)))"

definition label_condition ::
  "(nat \<Rightarrow> u32) \<Rightarrow> (string \<Rightarrow> nat) \<Rightarrow> nref \<Rightarrow> nref \<Rightarrow> Case \<Rightarrow> u32 \<times> shader_ops \<Rightarrow> (u32 \<times> shader_ops) res" where
  "label_condition junk spv header n c = (\<lambda>(cond, x).
     bind_res (build_switch_case_equal_check junk spv header n c x) (\<lambda>(r, x).
     bind_res (deref r) (\<lambda>i.
     if cond = 0 then Ok (i, x) else emit_logical junk (spv ''OpLogicalOr'') n cond i x)))"

definition replace_incoming :: "nref \<Rightarrow> nref \<Rightarrow> CFGNode \<Rightarrow> CFGNode" where
  "replace_incoming f t x =
     x\<lparr>ir := (ir x)\<lparr>phi := map (\<lambda>p. p\<lparr>incoming := map (\<lambda>i. if incoming_block i = Some f
          then i\<lparr>incoming_block := Some t\<rparr> else i) (incoming p)\<rparr>) (phi (ir x))\<rparr>\<rparr>"

text \<open>The branch moves from the switch to the block before it, and the switch goes to the merge block.\<close>

definition move_switch_branch ::
  "nref \<Rightarrow> nref \<Rightarrow> nref \<Rightarrow> nref \<Rightarrow> nref \<Rightarrow> CFGStructurizer \<Rightarrow> (nref \<times> CFGStructurizer) res" where
  "move_switch_branch n p c m frontier s =
     (let s = (if c = frontier then update_node frontier (replace_incoming n p) s else s);
          s = update_node c (\<lambda>x. x\<lparr>pred := map (\<lambda>q. if q = n then p else q) (pred x)\<rparr>) s;
          s = update_node n (update_terminator (\<lambda>t. t\<lparr>cases :=
                map (\<lambda>k. if case_node k = Some c then k\<lparr>case_node := Some m\<rparr> else k) (cases t)\<rparr>)) s;
          s = update_node n (\<lambda>x. x\<lparr>succ := remove1 c (succ x)\<rparr>) s
      in
      bind_res (add_branch n m s) (\<lambda>s.
      bind_res (add_branch p c s) (\<lambda>s.
      if c = frontier then rewrite_branch_through_intermediate_node p frontier frontier s else Ok (c, s))))"

definition hoist_switch_branch ::
  "(nat \<Rightarrow> u32) \<Rightarrow> (string \<Rightarrow> nat) \<Rightarrow> nref \<Rightarrow> nref \<Rightarrow> nref \<Rightarrow> nref \<Rightarrow> nref \<Rightarrow> shader_ops \<Rightarrow> shader_ops res" where
  "hoist_switch_branch junk spv n p c m frontier x =
     bind_res (fold_res (label_condition junk spv n p)
                (filter (\<lambda>k. case_node k = Some c) (cases (terminator (ir (node_at (fst x) n))))) (0, x)) (\<lambda>(cond, s, b, os).
     bind_res (move_switch_branch n p c m frontier s) (\<lambda>(t, s).
     Ok (update_node p (update_terminator (\<lambda>y. y\<lparr>term_type := Term_Condition, conditional_id := cond,
           true_block := Some t, false_block := Some n, direct_block := None\<rparr>)) s, b, os)))"

definition hoist_switch_branches_to_frontier ::
  "(nat \<Rightarrow> u32) \<Rightarrow> (string \<Rightarrow> nat) \<Rightarrow> nref \<Rightarrow> nref \<Rightarrow> nref \<Rightarrow> shader_ops \<Rightarrow> shader_ops res" where
  "hoist_switch_branches_to_frontier junk spv n m frontier = (\<lambda>(s, b, os).
     bind_res (create_helper_pred_block n s) (\<lambda>(p, s).
     let ops_n = operations (ir (node_at s n)); ops_p = operations (ir (node_at s p));
         s = update_node p (\<lambda>x. x\<lparr>ir := (ir x)\<lparr>operations := ops_n\<rparr>\<rparr>) s;
         s = update_node n (\<lambda>x. x\<lparr>ir := (ir x)\<lparr>operations := ops_p\<rparr>\<rparr>) s
     in
     bind_res (find_res (\<lambda>c. query_reachability s c frontier) (succ (node_at s n))) (\<lambda>r.
     case r of
       None \<Rightarrow> Ok (s, b, os)
     | Some c \<Rightarrow> hoist_switch_branch junk spv n p c m frontier (s, b, os))))"

end
