(* ===== verification/Cfg_Switch_Merges.thy ===== *)
theory Cfg_Switch_Merges
  imports Cfg_Switches
begin

text \<open>
  \<open>cfg_structurizer.cpp\<close>: \<open>process_switch_blocks\<close>, from the choice of a merge block for each switch to
  the rewriting that makes the block one the switch dominates, and
  \<open>rewrite_complex_loop_header_switch_constructs\<close>.
\<close>

section \<open>The merge blocks of a switch\<close>

text \<open>Without a common post dominator, the cases that do not leave the function have to meet.\<close>

definition live_switch_target :: "nref \<Rightarrow> CFGStructurizer \<Rightarrow> (nref option \<times> CFGStructurizer) res" where
  "live_switch_target n s =
     fold_res (\<lambda>c (r, s).
         bind_res (dominates_all_reachable_exits s c) (\<lambda>exits.
         if exits then Ok (r, s)
         else case r of
           None \<Rightarrow> Ok (Some c, s)
         | Some d \<Rightarrow> bind_res (find_common_post_dominator d c s) (\<lambda>(d, s). Ok (Some d, s))))
       (succ (node_at s n)) (None, s)"

definition switch_merge_targets :: "nref \<Rightarrow> CFGStructurizer \<Rightarrow> ((nref \<times> nref) option \<times> CFGStructurizer) res" where
  "switch_merge_targets n s =
     bind_res (find_common_post_dominator_of (succ (node_at s n)) s) (\<lambda>(pd, s).
     bind_res (find_natural_switch_merge_block n pd s) (\<lambda>(natural, s).
     case (pd, natural) of
       (Some m, Some q) \<Rightarrow> Ok (Some (m, q), s)
     | (None, Some q) \<Rightarrow> Ok (Some (q, q), s)
     | (_, None) \<Rightarrow> bind_res (live_switch_target n s) (\<lambda>(r, s). Ok (map_option (\<lambda>d. (d, d)) r, s))))"

definition inner_switch_merge :: "CFGStructurizer \<Rightarrow> nref \<Rightarrow> nref \<Rightarrow> nref \<Rightarrow> nref res" where
  "inner_switch_merge s n m natural =
     fold_res (\<lambda>f i.
         bind_res (and_res (dominates s n f) (post_dominates s m f)) (\<lambda>b.
         Ok (if b \<and> forward_order (node_at s f) > forward_order (node_at s i) then f else i)))
       (dominance_frontier (node_at s natural)) m"

section \<open>An inner block where several cases meet\<close>

definition inner_merge_constructs :: "CFGStructurizer \<Rightarrow> nref \<Rightarrow> nref \<Rightarrow> nref list res" where
  "inner_merge_constructs s natural inner =
     bind_res (filter_res (\<lambda>p. and_res (not_res (query_reachability s p natural)) (not_res (query_reachability s natural p)))
                 (pred (node_at s inner))) (\<lambda>ps. Ok (natural # ps))"

definition punches_through ::
  "CFGStructurizer \<Rightarrow> nref \<Rightarrow> nref list \<Rightarrow> nref \<Rightarrow> nref \<Rightarrow> nref \<Rightarrow> bool res" where
  "punches_through s n constructs natural inner p =
     bind_res (or_res (not_res (all_res (query_reachability s p) constructs)) (Ok (length constructs = 1))) (\<lambda>candidate.
     if candidate \<and> p \<noteq> n \<and> inner \<in> set (dominance_frontier (node_at s p))
     then query_reachability s p natural else Ok False)"

definition has_inner_merge_in_df :: "CFGStructurizer \<Rightarrow> nref \<Rightarrow> nref list \<Rightarrow> nref \<Rightarrow> nref \<Rightarrow> bool res" where
  "has_inner_merge_in_df s n constructs natural inner =
     any_res (punches_through s n constructs natural inner)
       (concat (map (\<lambda>c. post_dominance_frontier (node_at s c)) constructs))"

definition has_secondary_inner_merge :: "CFGStructurizer \<Rightarrow> nref \<Rightarrow> nref \<Rightarrow> nref \<Rightarrow> bool res" where
  "has_secondary_inner_merge s n m inner =
     any_res (\<lambda>f. and_res (dominates s n f) (and_res (query_reachability s f m) (Ok (f \<noteq> m))))
       (dominance_frontier (node_at s inner))"

text \<open>Frontiers of the blocks captured so far; each frontier is considered once.\<close>

definition capture_frontier ::
  "CFGStructurizer \<Rightarrow> nref \<Rightarrow> nref \<Rightarrow> nref list \<Rightarrow> nref \<Rightarrow> nref list \<times> nref list \<Rightarrow> (nref list \<times> nref list) res" where
  "capture_frontier s n m captured f = (\<lambda>(new, seen).
     bind_res (and_res (dominates s n f)
                (if f \<in> set captured \<or> f \<in> set new \<or> f \<in> set seen then Ok False
                 else and_res (can_backtrace_to_with_blockers s f n captured) (Ok (f \<noteq> m)))) (\<lambda>b.
     Ok (if b then new @ [f] else new, push_unique seen f)))"

fun capture_frontiers ::
  "nat \<Rightarrow> CFGStructurizer \<Rightarrow> nref \<Rightarrow> nref \<Rightarrow> nref list \<Rightarrow> nref list \<Rightarrow> nref list res" where
  "capture_frontiers 0 s n m captured seen = Fault Out_Of_Fuel"
| "capture_frontiers (Suc k) s n m captured seen =
     bind_res (fold_res (capture_frontier s n m captured)
                (concat (map (\<lambda>c. dominance_frontier (node_at s c)) captured)) ([], seen)) (\<lambda>(new, seen).
     if new = [] then Ok captured else capture_frontiers k s n m (captured @ new) seen)"

definition fully_captured_frontier ::
  "CFGStructurizer \<Rightarrow> nref \<Rightarrow> nref \<Rightarrow> nref \<Rightarrow> nref \<Rightarrow> nref list option res" where
  "fully_captured_frontier s n m natural inner =
     bind_res (has_secondary_inner_merge s n m inner) (\<lambda>secondary.
     if \<not> secondary then Ok None
     else
       bind_res (capture_frontiers (walk_fuel s) s n m [natural, inner] []) (\<lambda>captured.
       if length captured \<le> 2 then Ok None
       else
         bind_res (can_backtrace_to_with_blockers s m n captured) (\<lambda>around.
         Ok (if around then None else Some captured))))"

text \<open>Whether the cases are collected and dispatched, with the blocks and whether crossing is allowed.\<close>

definition switch_dispatch ::
  "CFGStructurizer \<Rightarrow> nref \<Rightarrow> nref \<Rightarrow> nref \<Rightarrow> nref \<Rightarrow> (nref list \<times> bool) option res" where
  "switch_dispatch s n m natural inner =
     bind_res (inner_merge_constructs s natural inner) (\<lambda>constructs.
     bind_res (has_inner_merge_in_df s n constructs natural inner) (\<lambda>in_df.
     bind_res (or_res (Ok (\<not> in_df)) (not_res (post_dominates s m n))) (\<lambda>simple.
     bind_res (or_res (Ok (\<not> simple)) (dominates s n m)) (\<lambda>allow.
     let allow = (allow \<and> \<not> (length constructs = 1 \<and> simple)) in
     if \<not> allow then Ok None
     else if \<not> simple then Ok (Some (constructs @ [m, inner], True))
     else
       bind_res (fully_captured_frontier s n m natural inner) (\<lambda>r.
       Ok (Some (case r of Some captured \<Rightarrow> (captured, True) | None \<Rightarrow> (constructs, False))))))))"

section \<open>Making the merge block one the switch dominates\<close>

definition create_forwarding_block ::
  "nref \<Rightarrow> nref \<Rightarrow> string \<Rightarrow> bool \<Rightarrow> CFGStructurizer \<Rightarrow> CFGStructurizer res" where
  "create_forwarding_block n target name pseudo s =
     (case create_node s of (d, s) \<Rightarrow>
      let x = node_at s n;
          s = update_node d (\<lambda>y. set_branch_to target (y\<lparr>node_name := name, immediate_dominator := Some n,
                immediate_post_dominator := Some target, forward_order := forward_order x,
                backward_order := backward_order x, is_pseudo_back_edge := pseudo\<rparr>)) s
      in bind_res (add_branch d target s) (retarget_branch n target d))"

definition wrap_switch_in_loop :: "nref \<Rightarrow> nref \<Rightarrow> nref \<Rightarrow> CFGStructurizer \<Rightarrow> CFGStructurizer res" where
  "wrap_switch_in_loop n m natural s =
     bind_res (create_helper_pred_block n s) (\<lambda>(out, s).
     let s = update_node out (\<lambda>x. x\<lparr>merge := Merge_Loop, loop_merge_block := Some m, freeze_structured_analysis := True\<rparr>) s;
         s = add_unique_header m out s
     in
     bind_res (if natural \<in> set (succ (node_at s n))
               then create_forwarding_block n natural (node_name (node_at s natural) @ ''.pred'') False s else Ok s) (\<lambda>s.
     Ok (update_node n (\<lambda>x. x\<lparr>freeze_structured_analysis := True\<rparr>) s)))"

definition label_needs_fixup :: "CFGStructurizer \<Rightarrow> nref \<Rightarrow> nref \<Rightarrow> nref \<Rightarrow> bool \<Rightarrow> nref \<Rightarrow> bool res" where
  "label_needs_fixup s n m natural to_pd c =
     (if c = m then
        (if m \<noteq> natural then Ok to_pd
         else case pred_back_edge (node_at s n) of None \<Rightarrow> Ok False | Some b \<Rightarrow> not_res (query_reachability s c b))
      else or_res (not_res (dominates s n c)) (Ok (succ_back_edge (node_at s c) \<noteq> None)))"

definition fixup_label :: "nref \<Rightarrow> nref \<Rightarrow> nref \<Rightarrow> bool \<Rightarrow> nref \<Rightarrow> CFGStructurizer \<Rightarrow> CFGStructurizer res" where
  "fixup_label n m natural to_pd c s =
     bind_res (label_needs_fixup s n m natural to_pd c) (\<lambda>need.
     if need \<and> c \<in> set (succ (node_at s n)) then
       (let continues = (succ_back_edge (node_at s c) \<noteq> None) in
        create_forwarding_block n c (node_name (node_at s n) @ (if continues then ''.continue'' else ''.break'')) continues s)
     else Ok s)"

text \<open>The flags: whether a ladder was made, and whether the switch can merge to the post dominator.\<close>

definition ladder_to_post_dominator ::
  "nref \<Rightarrow> nref \<Rightarrow> nref \<Rightarrow> CFGStructurizer \<Rightarrow> ((nref \<times> bool \<times> bool) \<times> CFGStructurizer) res" where
  "ladder_to_post_dominator n m natural s =
     bind_res (and_res (dominates s n m) (Ok (headers (node_at s m) = []))) (\<lambda>to_pd.
     if m \<noteq> natural \<and> \<not> to_pd \<and> dominance_frontier (node_at s n) = [m] then
       bind_res (create_switch_merge_ladder n m s) (\<lambda>(l, s).
       bind_res (dominates s n l) (\<lambda>d. if d then Ok ((l, True, True), s) else Fault Assertion_Failed))
     else Ok ((m, False, to_pd), s))"

definition contain_switch :: "nref \<Rightarrow> nref \<Rightarrow> nref \<Rightarrow> CFGStructurizer \<Rightarrow> (bool \<times> CFGStructurizer) res" where
  "contain_switch n m natural s =
     bind_res (ladder_to_post_dominator n m natural s) (\<lambda>((m, modified, to_pd), s).
     bind_res (if m \<noteq> natural \<and> to_pd \<and> pred_back_edge (node_at s n) = None
               then wrap_switch_in_loop n m natural s else Ok s) (\<lambda>s.
     bind_res (fold_res (fixup_label n m natural to_pd) (succ (node_at s n)) s) (\<lambda>s. Ok (modified, s))))"

section \<open>One switch\<close>

datatype SwitchProgressMode = Switch_Done | Switch_SimpleModify | Switch_IterativeModify

text \<open>
  The first pass. \<open>None\<close>: the cases were collected and dispatched, so that the analysis has to be
  redone. Otherwise the natural merge block, which may be a new ladder, and whether a ladder was made.
\<close>

definition last_frontier_before :: "CFGStructurizer \<Rightarrow> nref \<Rightarrow> nref \<Rightarrow> nref option res" where
  "last_frontier_before s n m =
     find_res (\<lambda>f. if forward_order (node_at s f) = forward_order (node_at s m) then Ok False
                else query_reachability s f m) (rev (dominance_frontier (node_at s n)))"

definition hoist_when_outside ::
  "(nat \<Rightarrow> u32) \<Rightarrow> (string \<Rightarrow> nat) \<Rightarrow> nref \<Rightarrow> nref \<Rightarrow> shader_ops \<Rightarrow> shader_ops res" where
  "hoist_when_outside junk spv n m x =
     bind_res (dominates (fst x) n m) (\<lambda>d.
     if d then Ok x
     else
       bind_res (last_frontier_before (fst x) n m) (\<lambda>r.
       case r of None \<Rightarrow> Ok x | Some f \<Rightarrow> hoist_switch_branches_to_frontier junk spv n m f x))"

definition transpose_inner_merge ::
  "nref \<Rightarrow> nref \<Rightarrow> nref \<Rightarrow> nref \<Rightarrow> shader_ops \<Rightarrow> ((nref \<times> nref) \<times> shader_ops) res" where
  "transpose_inner_merge n m natural inner = (\<lambda>(s, b, os).
     bind_res (dominates s n m) (\<lambda>d.
     let m = (if d then m else inner) in
     bind_res (and_res (Ok (pred_back_edge (node_at s n) \<noteq> None)) (dominates s n inner)) (\<lambda>t.
     if t then bind_res (transpose_code_path_through_ladder_block n natural inner (s, b)) (\<lambda>(q, s, b). Ok ((m, q), s, b, os))
     else Ok ((m, natural), s, b, os))))"

definition prepare_switch ::
  "(nat \<Rightarrow> u32) \<Rightarrow> (string \<Rightarrow> nat) \<Rightarrow> nref \<Rightarrow> nref \<Rightarrow> nref \<Rightarrow> shader_ops \<Rightarrow> ((nref \<times> bool) option \<times> shader_ops) res" where
  "prepare_switch junk spv n m natural = (\<lambda>(s, b, os).
     bind_res
       (if m = natural then
          bind_res (hoist_when_outside junk spv n m (s, b, os)) (\<lambda>x. Ok (Some (m, natural), x))
        else
          bind_res (inner_switch_merge s n m natural) (\<lambda>inner.
          bind_res (if m \<noteq> inner \<and> inner \<noteq> natural then switch_dispatch s n m natural inner else Ok None) (\<lambda>dispatch.
          case dispatch of
            Some (constructs, allow_crossing) \<Rightarrow>
              bind_res (collect_and_dispatch_control_flow n m constructs False allow_crossing (s, b)) (\<lambda>(s, b).
              Ok (None, s, b, os))
          | None \<Rightarrow> bind_res (transpose_inner_merge n m natural inner (s, b, os)) (\<lambda>(r, x). Ok (Some r, x))))) (\<lambda>(r, s, b, os).
     case r of
       None \<Rightarrow> Ok (None, s, b, os)
     | Some (m, natural) \<Rightarrow>
         bind_res (contain_switch n m natural s) (\<lambda>(modified, s). Ok (Some (natural, modified), s, b, os))))"

definition merge_switch_to :: "nref \<Rightarrow> nref \<Rightarrow> nref option \<Rightarrow> CFGStructurizer \<Rightarrow> CFGStructurizer res" where
  "merge_switch_to n m ladder s =
     bind_res (dominates s n m) (\<lambda>d.
     if d then Ok (merge_to_block n m s)
     else
       bind_res (find_common_post_dominator_with_ignored_break s (succ (node_at s n)) m) (\<lambda>r.
       case (if r = None then ladder else r) of
         None \<Rightarrow> Fault Assertion_Failed
       | Some t \<Rightarrow>
           bind_res (dominates s n t) (\<lambda>d.
           Ok (if d then add_unique_header m n (add_unique_header t n
                 (update_node n (\<lambda>x. x\<lparr>merge := Merge_Selection, selection_merge_block := Some m\<rparr>) s))
               else s))))"

definition finish_switch :: "nat \<Rightarrow> nref \<Rightarrow> nref \<Rightarrow> CFGStructurizer \<Rightarrow> (bool \<times> CFGStructurizer) res" where
  "finish_switch pass n m s =
     bind_res (if pass \<noteq> 0 then Ok False
               else or_res (not_res (dominates s n m)) (Ok (block_is_plain_continue s m))) (\<lambda>needs_ladder.
     bind_res
       (if \<not> needs_ladder then Ok ((m, None), s)
        else
          bind_res (create_switch_merge_ladder n m s) (\<lambda>(l, s).
          bind_res (find_common_post_dominator_of (succ (node_at s n)) s) (\<lambda>(pd, s).
          Ok ((case pd of Some m \<Rightarrow> m | None \<Rightarrow> l, Some l), s)))) (\<lambda>((m, ladder), s).
     bind_res (merge_switch_to n m ladder s) (\<lambda>s.
     if pass = 0 \<and> pred_back_edge (node_at s n) \<noteq> None then
       bind_res (create_helper_succ_block n s) (\<lambda>(_, s). Ok (True, s))
     else Ok (needs_ladder, s))))"

definition process_switch_block ::
  "(nat \<Rightarrow> u32) \<Rightarrow> (string \<Rightarrow> nat) \<Rightarrow> nat \<Rightarrow> nref \<Rightarrow> shader_ops \<Rightarrow> (SwitchProgressMode \<times> shader_ops) res" where
  "process_switch_block junk spv pass n = (\<lambda>(s, b, os).
     bind_res (switch_merge_targets n s) (\<lambda>(r, s).
     case r of
       None \<Rightarrow> Ok (Switch_Done, update_node n (\<lambda>x. x\<lparr>merge := Merge_Selection\<rparr>) s, b, os)
     | Some (m, natural) \<Rightarrow>
         bind_res
           (if freeze_structured_analysis (node_at s n) \<and> merge (node_at s n) = Merge_Selection
            then bind_res (deref (selection_merge_block (node_at s n))) (\<lambda>q. Ok (Some (q, False), s, b, os))
            else if pass = 0 then prepare_switch junk spv n m natural (s, b, os)
            else Ok (Some (natural, False), s, b, os)) (\<lambda>(r, s, b, os).
         case r of
           None \<Rightarrow> Ok (Switch_IterativeModify, s, b, os)
         | Some (q, modified) \<Rightarrow>
             bind_res (finish_switch pass n q s) (\<lambda>(modified', s).
             Ok (if modified \<or> modified' then Switch_SimpleModify else Switch_Done, s, b, os)))))"

fun process_switches ::
  "(nat \<Rightarrow> u32) \<Rightarrow> (string \<Rightarrow> nat) \<Rightarrow> nat \<Rightarrow> nref list \<Rightarrow> SwitchProgressMode \<Rightarrow> shader_ops \<Rightarrow>
   (SwitchProgressMode \<times> shader_ops) res" where
  "process_switches junk spv pass [] mode x = Ok (mode, x)"
| "process_switches junk spv pass (n # ns) mode x =
     (if \<not> is_switch_node (fst x) n then process_switches junk spv pass ns mode x
      else
        bind_res (process_switch_block junk spv pass n x) (\<lambda>(mode', x).
        if mode' = Switch_IterativeModify then Ok (mode', x)
        else process_switches junk spv pass ns (if mode' = Switch_Done then mode else mode') x))"

definition process_switch_blocks ::
  "(nat \<Rightarrow> u32) \<Rightarrow> (string \<Rightarrow> nat) \<Rightarrow> nat \<Rightarrow> shader_ops \<Rightarrow> (SwitchProgressMode \<times> shader_ops) res" where
  "process_switch_blocks junk spv pass x =
     process_switches junk spv pass (rev (forward_post_visit_order (fst x))) Switch_Done x"

section \<open>Switches that are loop headers\<close>

definition rewrite_loop_header_switch :: "nref \<Rightarrow> shader \<Rightarrow> (bool \<times> shader) res" where
  "rewrite_loop_header_switch n = (\<lambda>(s, b).
     if \<not> is_switch_node s n \<or> pred_back_edge (node_at s n) = None then Ok (False, s, b)
     else
       bind_res (find_common_post_dominator_of (succ (node_at s n)) s) (\<lambda>(pd, s).
       bind_res (find_natural_switch_merge_block n pd s) (\<lambda>(natural, s).
       case (if pd = None then natural else pd, natural) of
         (Some m, Some q) \<Rightarrow>
           bind_res (if m = q then Ok False
                     else and_res (not_res (dominates s n m)) (dominates s n q)) (\<lambda>b1.
           if \<not> b1 then Ok (False, s, b)
           else
             bind_res (inner_switch_merge s n m q) (\<lambda>inner.
             if m \<noteq> inner then Ok (False, s, b)
             else
               bind_res (transpose_code_path_through_ladder_block n q inner (s, b)) (\<lambda>(_, sb).
               bind_res (on_cfg recompute_cfg sb) (\<lambda>sb. Ok (True, sb)))))
       | _ \<Rightarrow> Ok (False, s, b))))"

definition rewrite_complex_loop_header_switch_constructs :: "shader \<Rightarrow> (bool \<times> shader) res" where
  "rewrite_complex_loop_header_switch_constructs sb =
     first_rewrite rewrite_loop_header_switch (forward_post_visit_order (fst sb)) sb"

end
