(* ===== verification/Spec2Isabelle.thy ===== *)
theory Spec2Isabelle
  imports Container_Functional Ir_Operation Bc_Encodings Cfg_Properties Cfg_Dispatch_Facts Cfg_Switch_Merges
begin

text \<open>
  A verification library for dxil-spirv, the translator from DXIL (and DXBC) shader bytecode
  to SPIR-V.

  The program. A DXBC container goes through \<open>DXILContainerParser\<close> (\<open>dxil_parser.cpp\<close>), which
  reads headers, signatures and runtime data with a \<open>MemoryStream\<close> (\<open>memory_stream.cpp\<close>) and
  extracts the blob of LLVM bitcode. The bitstream decoder (vendored, \<open>third_party/bc-decoder\<close>)
  turns the blob into a tree of blocks and records, and \<open>bc/module.cpp\<close> turns that tree into
  an LLVM-like object graph of types (\<open>bc/type.cpp\<close>), values and instructions
  (\<open>bc/value.cpp\<close>, \<open>bc/instruction.cpp\<close>, \<open>bc/function.cpp\<close>, \<open>bc/metadata.cpp\<close>). The converter
  (\<open>dxil_converter.cpp\<close>, \<open>opcodes/\<close>) then builds SPIR-V operations (\<open>ir.hpp\<close>) in a graph of
  \<open>CFGNode\<close>s that the structurizer (\<open>cfg_structurizer.cpp\<close>) rewrites into structured control
  flow. This library models the front half (container, bitcode parser), the operation storage
  and, of the back half, the graph, the analysis that the structurizer rests on, and the passes
  that rewrite loops, selections and switches with the blocks they emit.

  How code becomes HOL. A routine that can return \<open>false\<close> or a null result, or misbehave, has
  type \<open>'a res = Ok 'a | Reject | Fault fault\<close> (\<open>Prelude\<close>): \<open>Reject\<close> is every early
  \<open>return false\<close>, \<open>Fault\<close> every out-of-bounds access, null dereference, failed assertion or
  undefined shift, and \<open>Fault Out_Of_Fuel\<close> fuel that ran out. Sized integers are words and wrap.
  An object allocated by \<open>LLVMContext::construct\<close> is an index into a list that only grows (a
  heap of types and one of values, including blocks and functions), a pointer is an option
  of such an index, and identity of pointers is equality of indices. Mutation of an object is
  an update of the list. Logging is left out.

  Theories and the code they model.
  \<^item> \<open>Memory_Stream\<close>: \<open>memory_stream.cpp/hpp\<close>. The stream is a window of the caller's bytes;
    \<open>stream_ok\<close> says the window lies in them.
  \<^item> \<open>Container_Format\<close>: the header structs and enumerations of \<open>dxil.hpp\<close>, and the locale
    \<open>stream_reader\<close>, the contract between the stream and the parser, interpreted on the
    model of \<open>MemoryStream\<close>.
  \<^item> \<open>Container_Parser\<close>: \<open>dxil_parser.cpp\<close>, from \<open>parse_container\<close> to each part's handler,
    and the demangling of entry points.
  \<^item> \<open>Container_Safety\<close>, \<open>Container_Functional\<close>: on every byte sequence the parser reads only
    inside the buffer and ends; which blob it publishes; the round trip through an encoder.
  \<^item> \<open>Ir_Operation\<close>: \<open>struct Operation\<close> of \<open>ir.hpp\<close> with its packed argument storage and
    literal bits. The locale \<open>argument_vector\<close> is the abstract contract (a list of tagged
    arguments), interpreted on the model.
  \<^item> \<open>Bc_Types\<close>: \<open>bc/type.cpp\<close>. The locale \<open>type_interner\<close> states what every \<open>get\<close> function
    promises (hash consing) and is interpreted for each type class.
  \<^item> \<open>Bc_Values\<close>: values, constants, instructions, blocks, functions and metadata nodes, with
    constructors, accessors, proxies and the casts of \<open>bc/cast.hpp\<close>.
  \<^item> \<open>Bc_Context\<close>: \<open>ModuleParseContext\<close> and its helpers. \<open>Bc_Constants\<close>, \<open>Bc_Metadata\<close>,
    \<open>Bc_Instructions\<close>, \<open>Bc_Module\<close>: the record handlers of \<open>bc/module.cpp\<close>, one definition
    per case of each switch, composed as in the code up to \<open>parseIR\<close>.
  \<^item> \<open>Bc_Heap_Invariant\<close>, \<open>Bc_Invariant\<close>: the representation invariant \<open>heap_ok\<close> of the object
    graph and the invariant \<open>pinv\<close> of the parser's tables. \<open>Bc_Steps\<close>,
    \<open>Bc_Instructions_Invariant\<close>, \<open>Bc_Tables_Invariant\<close>, \<open>Bc_Module_Invariant\<close>, \<open>Bc_Forward\<close>,
    \<open>Bc_Body\<close>: every operation keeps it (\<open>advances\<close>), and the heap only grows (\<open>hle\<close>).
  \<^item> \<open>Bc_Properties\<close>, \<open>Bc_Encodings\<close>: the properties of the bitcode parser, with a small module
    on which the model is evaluated, and the encodings inside its records.
  \<^item> \<open>Cfg_Node\<close>: \<open>node.cpp\<close>, \<open>node.hpp\<close>, \<open>node_pool.cpp\<close>, the block part of \<open>ir.hpp\<close>. A
    \<open>CFGNode *\<close> is an index into the pool. \<open>Cfg_Structurizer\<close>: of \<open>cfg_structurizer.cpp\<close>,
    \<open>recompute_cfg\<close> with all it calls, and the queries of reachability and enclosing loops.
  \<^item> \<open>Cfg_Links\<close>: trees of parent links in general, with the locales \<open>link_pool\<close>, \<open>meet_loop\<close>
    and \<open>link_builder\<close> (finding the nearest common ancestor, building a tree in one pass),
    interpreted on dominator links in \<open>Cfg_Dominance\<close> and on post dominator links in
    \<open>Cfg_Postdominance\<close>. \<open>Cfg_Frontier\<close> does the same for the two dominance frontiers with the
    locale \<open>frontier_pool\<close>, interpreted in \<open>Cfg_Analysis\<close>.
  \<^item> \<open>Cfg_Visit\<close>, \<open>Cfg_Forward\<close>: the depth-first visit and the forward half of the analysis;
    \<open>Cfg_Backward\<close>: the backward visit; \<open>Cfg_Search\<close>: the recursive searches with a cache;
    \<open>Cfg_Edges\<close>: the operations that change edges. \<open>Cfg_Analysis\<close> composes the halves to
    \<open>recompute_cfg\<close>, and \<open>Cfg_Properties\<close> states the properties, with concrete graphs.
  \<^item> \<open>Cfg_Helpers\<close>: the operations the rewriting passes are made of (helper blocks, merged back
    edges, ladder blocks, rewriting of branches under a dominator). \<open>Cfg_Helper_Edges\<close> shows
    which edges they move.
  \<^item> \<open>Cfg_Selection\<close>, \<open>Cfg_Selection_Fixups\<close>: the tests that tell breaks and continues from
    merges, \<open>find_selection_merges\<close> and the fixups of selections. \<open>Cfg_Loops\<close>,
    \<open>Cfg_Find_Loops\<close>: the analysis of loop exits and \<open>find_loops\<close>. \<open>Cfg_Scopes\<close>: the passes
    about the scopes of merges. \<open>Cfg_Switches\<close>, \<open>Cfg_Switch_Merges\<close>: switches, from the order
    of their labels to \<open>find_switch_blocks\<close>.
  \<^item> \<open>Spv_Builder\<close>: what the structurizer uses of \<open>SpvBuilder.cpp\<close> (types, integer and boolean
    constants, ids); \<open>Spv_Builder_Facts\<close>: equal requests give equal ids. \<open>Cfg_Dispatch\<close>: the
    blocks that select a target by a phi (ladders and dispatchers); \<open>Cfg_Dispatch_Facts\<close>: what a
    ladder selects.

  Fuel. \<open>resolve_proxy\<close> walks a chain of proxies with fuel the number of values plus two, and
  \<open>ValueProxy_resolve\<close> with twice the number of values plus two: it runs out
  exactly on a closed chain, where the loop of the code never ends (\<open>resolve_proxy_total\<close>,
  \<open>resolve_forward_references_complete\<close>). Recursive visits and searches of the
  graph have fuel \<open>walk_fuel\<close>, the number of nodes plus one: every level marks a node that was not
  marked before, and dominator walks climb to higher numbers. The common dominator loop has
  \<open>meet_fuel\<close>, twice the number of nodes plus two: each round moves one of two nodes up. The
  properties of the graph show that neither is used up. They bound the pool by \<open>2 ^ 18\<close> nodes,
  because the reachability rows start at a product of two 32-bit numbers. The part and record
  loops of the container parser have
  the counts of the code; its string scans have the remaining bytes as fuel, and
  \<open>parse_container_memory_safe\<close> shows that it is never used up. The rewriting passes use
  \<open>walk_fuel\<close> of the graph at the start of each walk; \<open>escape_fuel\<close> bounds three tests that call
  each other on blocks further down. No property claims that these passes never run out.

  Parameters and limits. The names of SPIR-V opcodes, the operations of a block that only the
  emitter reads and the contents of freshly allocated memory are arguments of the definitions
  that meet them. A pass that emits code works on a pair of the graph and the builder.
  Allocations sized by a count of the input (the parts of a container, the elements of a
  signature) are assumed to succeed; the allocator of the repository returns null when they do not.
  \<open>parseIR\<close> starts from an empty \<open>LLVMContext\<close>. Names of entry points are taken up to their end;
  \<open>strchr\<close> would stop at an earlier NUL byte. \<open>std::sort\<close> and the iteration over unordered sets
  leave the order of equal elements open: the model sorts stably and keeps the order met.

  Not modelled. The bitstream decoder is third-party code: \<open>parseIR\<close> takes the reader as a
  parameter. \<open>bc/module_dxbc_ir.cpp\<close> imports the IR of a submodule that is not in the
  repository. The converter, the opcode translators and \<open>spirv_module.cpp\<close> emit code through
  the vendored SPIR-V builder in almost every line. Of the structurizer, the passes that move
  SSA values and rewrite phi nodes (\<open>sink_ssa_constructs\<close>, \<open>insert_phi\<close> and what they call), those
  that rewrite locks and barriers, duplicate or split blocks or rewrite invalid breaks, and the
  drivers \<open>run\<close>, \<open>structurize\<close> and \<open>traverse\<close> are not modelled. \<open>APFloat\<close> conversions are left out: a floating point constant stays its bit pattern.
\<close>

end
